(* ===== verification/Prelude.thy ===== *)
theory Prelude
  imports Main "HOL-Library.Word"
begin

text \<open>
  What the component theories share: the result type of fallible Go functions and its
  sequencing operator, the 64-bit integer types with the facts that read them as
  mathematical integers, instants of time, and generic facts on lists.

  A Go function \<^verbatim>\<open>func f(x T) (U, error)\<close> is modelled by a function into
  \<open>'e + 'u\<close>: \<open>Inl e\<close> is a non-nil error, \<open>Inr u\<close> a nil one. A function that
  returns only an \<^verbatim>\<open>error\<close> is modelled with \<open>'u = unit\<close>.
\<close>

named_theorems int64_simps \<open>reading 64-bit words as integers\<close>
named_theorems accessor_simps \<open>accessor methods, unfolded to record fields\<close>

section \<open>Results\<close>

text \<open>
  Sequencing: \<^verbatim>\<open>x, err := f(); if err != nil { return err }; ...\<close>
\<close>

fun bindE :: "'e + 'a \<Rightarrow> ('a \<Rightarrow> 'e + 'b) \<Rightarrow> 'e + 'b" where
  "bindE (Inl e) k = Inl e"
| "bindE (Inr a) k = k a"

lemma bindE_Inr_iff [simp]: "bindE m k = Inr b \<longleftrightarrow> (\<exists>a. m = Inr a \<and> k a = Inr b)"
  by (cases m) auto

lemma bindE_Inl_iff: "bindE m k = Inl e \<longleftrightarrow> m = Inl e \<or> (\<exists>a. m = Inr a \<and> k a = Inl e)"
  by (cases m) auto

lemma if_Inl_eq_Inr [simp]: "((if b then Inl e else m) = Inr a) \<longleftrightarrow> \<not> b \<and> m = Inr a"
  by simp

lemma if_Inl_eq_Inl: "((if b then Inl e else m) = Inl e') \<longleftrightarrow> (b \<and> e = e') \<or> (\<not> b \<and> m = Inl e')"
  by simp

lemma not_Inl_iff: "(\<forall>e. m \<noteq> Inl e) \<longleftrightarrow> (\<exists>a. m = Inr a)"
  by (cases m) auto

section \<open>64-bit integers\<close>

text \<open>
  Go's \<^verbatim>\<open>int64\<close> and \<^verbatim>\<open>uint64\<close> are both \<open>64 word\<close>. Signed comparison is \<open><s\<close>
  and \<open>\<le>s\<close>, the signed reading is \<open>sint\<close>, the unsigned one \<open>unat\<close>.
\<close>

type_synonym int64 = "64 word"
type_synonym uint64 = "64 word"

definition MaxInt64 :: int64 where "MaxInt64 = 0x7FFFFFFFFFFFFFFF"
definition MinInt64 :: int64 where "MinInt64 = 0x8000000000000000"

text \<open>The range of a signed 64-bit integer, as a set of mathematical integers.\<close>

definition int64_range :: "int set" where
  "int64_range = {- (2 ^ 63)..<2 ^ 63}"

lemma sint_MaxInt64 [int64_simps]: "sint MaxInt64 = 2 ^ 63 - 1"
  by (simp add: MaxInt64_def)

lemma sint_MinInt64 [int64_simps]: "sint MinInt64 = - (2 ^ 63)"
  by (simp add: MinInt64_def)

lemma int64_lower: "- (2 ^ 63) \<le> sint (a :: int64)"
  using sint_range_size [of a] by (simp add: word_size)

lemma int64_upper: "sint (a :: int64) < 2 ^ 63"
  using sint_range_size [of a] by (simp add: word_size)

lemma sint_in_range [simp]: "sint (a :: int64) \<in> int64_range"
  using int64_lower [of a] int64_upper [of a] by (simp add: int64_range_def)

lemma sless_int [int64_simps]: "(a <s b) \<longleftrightarrow> sint (a :: int64) < sint b"
  by (rule word_sless_alt)

lemma sle_int [int64_simps]: "(a \<le>s b) \<longleftrightarrow> sint (a :: int64) \<le> sint b"
  by (rule word_sle_eq)

lemma sint_inj: "sint (a :: int64) = sint b \<longleftrightarrow> a = b"
  by (metis uint_sint word_uint_eqI)

lemma sint_add_int64 [int64_simps]:
  "sint a + sint b \<in> int64_range \<Longrightarrow> sint (a + b :: int64) = sint a + sint b"
  by (simp add: sint_word_add int64_range_def signed_take_bit_int_eq_self)

lemma sint_sub_int64 [int64_simps]:
  "sint a - sint b \<in> int64_range \<Longrightarrow> sint (a - b :: int64) = sint a - sint b"
  by (simp add: sint_word_diff int64_range_def signed_take_bit_int_eq_self)

lemma sint_neg_int64 [int64_simps]:
  "- sint a \<in> int64_range \<Longrightarrow> sint (- a :: int64) = - sint a"
  by (simp add: sint_word_minus int64_range_def signed_take_bit_int_eq_self)

lemma unat_of_nonneg_sint: "0 \<le> sint (a :: int64) \<Longrightarrow> unat a = nat (sint a)"
  using int64_upper [of a] uint_sint [of a]
  by (simp add: take_bit_int_eq_self unat_eq_nat_uint)

lemma sint_of_small_unat:
  assumes "unat (a :: int64) < 2 ^ 63"
  shows "sint a = int (unat a)"
proof -
  have u: "int (unat a) = uint a" by (rule uint_nat [symmetric])
  have "int (unat a) < int (2 ^ 63)" using assms by (simp only: of_nat_less_iff)
  then have "uint a < 2 ^ 63" by (simp only: u of_nat_power of_nat_numeral)
  moreover have "- (2 ^ 63) \<le> uint a" by (rule order_trans [OF _ uint_ge_0]) simp
  ultimately have "signed_take_bit 63 (uint a) = uint a"
    by (intro signed_take_bit_int_eq_self)
  then show ?thesis using sint_uint [of a] u by simp
qed

text \<open>Go's division of signed integers truncates towards zero.\<close>

definition quot64 :: "int64 \<Rightarrow> int64 \<Rightarrow> int64" where
  "quot64 a b = word_of_int (sgn (sint a) * sgn (sint b) * (\<bar>sint a\<bar> div \<bar>sint b\<bar>))"

lemma sint_word_of_int64: "i \<in> int64_range \<Longrightarrow> sint (word_of_int i :: int64) = i"
  by (simp add: int64_range_def signed_of_int signed_take_bit_int_eq_self)

text \<open>The 64-bit integer that reads as a given integer, where there is one.\<close>

definition int64_of :: "int \<Rightarrow> int64" where
  "int64_of i = word_of_int i"

lemma sint_int64_of [simp]: "i \<in> int64_range \<Longrightarrow> sint (int64_of i) = i"
  by (simp add: int64_of_def sint_word_of_int64)

lemma int64_of_sint [simp]: "int64_of (sint a) = a"
  using sint_int64_of [OF sint_in_range [of a]] by (simp only: sint_inj)

lemma int64_of_eqI: "sint a = i \<Longrightarrow> a = int64_of i"
  by (metis int64_of_sint)

lemma int64_of_eq_iff: "i \<in> int64_range \<Longrightarrow> a = int64_of i \<longleftrightarrow> sint a = i"
  by (metis int64_of_sint sint_int64_of)

lemma sint_quot64_nonneg:
  assumes "0 \<le> sint a" "0 < sint b"
  shows "sint (quot64 a b) = sint a div sint b"
proof -
  have "sgn (sint a) * sgn (sint b) * (\<bar>sint a\<bar> div \<bar>sint b\<bar>) = sint a div sint b"
    using assms by (cases "sint a = 0") auto
  moreover have "0 \<le> sint a div sint b" "sint a div sint b \<le> sint a"
    using assms zdiv_mono2 [of "sint a" 1 "sint b"] by (auto simp: pos_imp_zdiv_nonneg_iff)
  ultimately show ?thesis
    using int64_upper [of a] by (simp add: quot64_def sint_word_of_int64 int64_range_def)
qed

section \<open>Time\<close>

text \<open>
  An instant is counted from Go's zero time, so that \<^verbatim>\<open>t.IsZero()\<close> is \<open>t = 0\<close> and
  \<^verbatim>\<open>a.Before(b)\<close> is \<open>a < b\<close>; a \<^verbatim>\<open>time.Duration\<close> is a difference of instants. The unit
  is whatever the clock counts in. Instants do not overflow in any run of the service.
\<close>

type_synonym instant = int
type_synonym duration = int

abbreviation (input) zero_time :: instant where
  "zero_time \<equiv> 0"

section \<open>Transition systems\<close>

text \<open>
  The interface of a component whose state changes step by step: an invariant its initial
  states have and its steps keep. \<open>settling_system\<close> adds states nothing leaves.
\<close>

locale transition_system =
  fixes init :: "'s \<Rightarrow> bool" and step :: "'s \<Rightarrow> 's \<Rightarrow> bool" and inv :: "'s \<Rightarrow> bool"
  assumes inv_init: "init s \<Longrightarrow> inv s"
    and inv_step: "inv s \<Longrightarrow> step s s' \<Longrightarrow> inv s'"
begin

lemma inv_steps: "step\<^sup>*\<^sup>* s s' \<Longrightarrow> inv s \<Longrightarrow> inv s'"
  by (induction rule: rtranclp_induct) (auto intro: inv_step)

lemma inv_reachable: "init s \<Longrightarrow> step\<^sup>*\<^sup>* s s' \<Longrightarrow> inv s'"
  by (auto intro: inv_steps inv_init)

lemma inv_preserves:
  assumes "step\<^sup>*\<^sup>* s s'" "inv s" "\<And>a b. inv a \<Longrightarrow> step a b \<Longrightarrow> f b = f a"
  shows "f s' = f s"
  using assms(1,2)
proof (induction rule: rtranclp_induct)
  case (step b c)
  then have "inv b" by (auto intro: inv_steps)
  with step assms(3) [of b c] show ?case by simp
qed simp

end

locale settling_system = transition_system init step inv
  for init :: "'s \<Rightarrow> bool" and step :: "'s \<Rightarrow> 's \<Rightarrow> bool" and inv :: "'s \<Rightarrow> bool" +
  fixes settled :: "'s \<Rightarrow> bool"
  assumes settled_final: "settled s \<Longrightarrow> \<not> step s s'"
begin

lemma settled_forever: "settled s \<Longrightarrow> step\<^sup>*\<^sup>* s s' \<Longrightarrow> s' = s"
  by (erule converse_rtranclpE) (auto simp: settled_final)

end

end
