(* ===== verification/Go_Stdlib.thy ===== *)
theory Go_Stdlib
  imports Prelude "HOL-Library.Char_ord" "HOL-Library.List_Lexorder"
begin

text \<open>
  The parts of Go's standard library the modelled code calls: \<^verbatim>\<open>slices.BinarySearch\<close>,
  \<^verbatim>\<open>strconv.ParseInt\<close> and \<^verbatim>\<open>ParseUint\<close> in base ten, UTF-8 validity and decoding
  (\<^verbatim>\<open>utf8.ValidString\<close>, \<^verbatim>\<open>range\<close> over a string), \<^verbatim>\<open>strings.TrimSpace\<close>, the hexadecimal
  rendering of bytes, and the canonical text form of a UUID.

  A Go string is a sequence of bytes: the model's \<open>string\<close> is a list of 8-bit characters,
  and \<open>length\<close> counts bytes as Go's \<^verbatim>\<open>len\<close> does. Go compares strings byte by byte, which
  is the lexicographic order of \<open>List_Lexorder\<close> over \<open>Char_ord\<close>.
\<close>

section \<open>Bisection: slices.BinarySearch\<close>

function bsearch_loop :: "'a :: linorder list \<Rightarrow> 'a \<Rightarrow> nat \<Rightarrow> nat \<Rightarrow> nat" where
  "bsearch_loop xs t i j =
     (if i < j
      then (let h = (i + j) div 2
            in if xs ! h < t then bsearch_loop xs t (h + 1) j else bsearch_loop xs t i h)
      else i)"
  by pat_completeness auto
termination
  by (relation "measure (\<lambda>(xs, t, i, j). j - i)") auto

declare bsearch_loop.simps [simp del]

definition BinarySearch :: "'a :: linorder list \<Rightarrow> 'a \<Rightarrow> nat \<times> bool" where
  "BinarySearch xs t =
     (let i = bsearch_loop xs t 0 (length xs) in (i, i < length xs \<and> xs ! i = t))"

text \<open>
  The loop keeps everything below \<open>i\<close> smaller than the target and everything from \<open>j\<close> on
  at least as large; when it stops the two meet.
\<close>

lemma bsearch_loop_partition:
  assumes "sorted xs" "i \<le> j" "j \<le> length xs"
    and "\<forall>k < i. xs ! k < t" and "\<forall>k. j \<le> k \<and> k < length xs \<longrightarrow> t \<le> xs ! k"
  shows "bsearch_loop xs t i j \<le> length xs
    \<and> (\<forall>k < bsearch_loop xs t i j. xs ! k < t)
    \<and> (\<forall>k. bsearch_loop xs t i j \<le> k \<and> k < length xs \<longrightarrow> t \<le> xs ! k)"
  using assms
proof (induction xs t i j rule: bsearch_loop.induct)
  case (1 xs t i j)
  show ?case
  proof (cases "i < j")
    case False
    then have "bsearch_loop xs t i j = i"
      by (simp add: bsearch_loop.simps [of xs t i j])
    with False "1.prems" show ?thesis by simp
  next
    case True
    define h where "h = (i + j) div 2"
    have h: "i \<le> h" "h < j" "h < length xs" using True "1.prems" by (auto simp: h_def)
    note srt = "1.prems"(1)
    show ?thesis
    proof (cases "xs ! h < t")
      case lt: True
      have low: "\<forall>k < h + 1. xs ! k < t"
        using lt h sorted_nth_mono [OF srt, of _ h] by (auto simp: less_Suc_eq_le intro: le_less_trans)
      have "bsearch_loop xs t i j = bsearch_loop xs t (h + 1) j"
        using True lt by (simp add: bsearch_loop.simps [of xs t i j] Let_def flip: h_def)
      moreover have "h + 1 \<le> j" using h by simp
      ultimately show ?thesis
        using "1.IH"(1) [OF True h_def lt srt _ _ low] "1.prems" by metis
    next
      case ge: False
      have high: "\<forall>k. h \<le> k \<and> k < length xs \<longrightarrow> t \<le> xs ! k"
        using ge h sorted_nth_mono [OF srt, of h] by (meson not_less order_trans)
      have "bsearch_loop xs t i j = bsearch_loop xs t i h"
        using True ge by (simp add: bsearch_loop.simps [of xs t i j] Let_def flip: h_def)
      moreover have "h \<le> length xs" using h by simp
      ultimately show ?thesis
        using "1.IH"(2) [OF True h_def ge srt h(1) _ _ high] "1.prems" by metis
    qed
  qed
qed

lemma BinarySearch_found:
  assumes "sorted xs"
  shows "snd (BinarySearch xs t) \<longleftrightarrow> t \<in> set xs"
proof -
  define i where "i = bsearch_loop xs t 0 (length xs)"
  have p: "\<forall>k < i. xs ! k < t" "\<forall>k. i \<le> k \<and> k < length xs \<longrightarrow> t \<le> xs ! k"
    using bsearch_loop_partition [of xs 0 "length xs" t, OF assms] not_le
    unfolding i_def by blast+
  have "i < length xs \<and> xs ! i = t" if "k < length xs" "xs ! k = t" for k
  proof -
    have "i \<le> k" using that p(1) by (meson less_irrefl not_le)
    then have "i < length xs" "t \<le> xs ! i" "xs ! i \<le> t"
      using that p(2) assms sorted_nth_mono [of xs i k] by auto
    then show ?thesis by simp
  qed
  then show ?thesis by (auto simp: BinarySearch_def in_set_conv_nth simp flip: i_def)
qed

section \<open>Decimal numbers: strconv\<close>

datatype num_error = ErrSyntax | ErrRange

definition is_digit :: "char \<Rightarrow> bool" where
  "is_digit c \<longleftrightarrow> CHR ''0'' \<le> c \<and> c \<le> CHR ''9''"

definition digit_val :: "char \<Rightarrow> nat" where
  "digit_val c = of_char c - 48"

text \<open>
  \<^verbatim>\<open>strconv.ParseUint(s, 10, 64)\<close>: digits are accumulated left to right and the first one
  that would pass the largest \<^verbatim>\<open>uint64\<close> stops the scan with a range error.
\<close>

fun ParseUint_loop :: "nat \<Rightarrow> string \<Rightarrow> num_error + nat" where
  "ParseUint_loop n [] = Inr n"
| "ParseUint_loop n (c # cs) =
     (if \<not> is_digit c then Inl ErrSyntax
      else let n1 = 10 * n + digit_val c
           in if 2 ^ 64 \<le> n1 then Inl ErrRange else ParseUint_loop n1 cs)"

definition ParseUint :: "string \<Rightarrow> num_error + uint64" where
  "ParseUint s =
     (if s = [] then Inl ErrSyntax
      else bindE (ParseUint_loop 0 s) (\<lambda>n. Inr (of_nat n)))"

text \<open>\<^verbatim>\<open>strconv.ParseInt(s, 10, 64)\<close>: an optional sign, then \<^verbatim>\<open>ParseUint\<close>, then the signed cutoff.\<close>

definition ParseInt :: "string \<Rightarrow> num_error + int64" where
  "ParseInt s =
     (case s of
        [] \<Rightarrow> Inl ErrSyntax
      | c # cs \<Rightarrow>
          (let neg = (c = CHR ''-'');
               body = (if c = CHR ''+'' \<or> c = CHR ''-'' then cs else s)
           in bindE (ParseUint body) (\<lambda>un.
                if \<not> neg \<and> 2 ^ 63 \<le> unat un then Inl ErrRange
                else if neg \<and> 2 ^ 63 < unat un then Inl ErrRange
                else Inr (if neg then - un else un))))"

text \<open>The value a string of digits denotes, with no bound.\<close>

definition dec_val :: "string \<Rightarrow> nat" where
  "dec_val s = foldl (\<lambda>n c. 10 * n + digit_val c) 0 s"

lemma dec_val_snoc [simp]: "dec_val (s @ [c]) = 10 * dec_val s + digit_val c"
  by (simp add: dec_val_def)

lemma dec_val_Nil [simp]: "dec_val [] = 0"
  by (simp add: dec_val_def)

lemma dec_fold_ge: "n \<le> foldl (\<lambda>n c. 10 * n + digit_val c) n s"
proof (induction s arbitrary: n)
  case (Cons c s)
  have "n \<le> 10 * n + digit_val c" by simp
  also have "\<dots> \<le> foldl (\<lambda>n c. 10 * n + digit_val c) (10 * n + digit_val c) s" by (rule Cons.IH)
  finally show ?case by simp
qed simp

lemma ParseUint_loop_digits:
  assumes "list_all is_digit s" "n < 2 ^ 64"
  shows "ParseUint_loop n s =
    (let v = foldl (\<lambda>n c. 10 * n + digit_val c) n s
     in if v < 2 ^ 64 then Inr v else Inl ErrRange)"
  using assms
proof (induction s arbitrary: n)
  case (Cons c s)
  show ?case
  proof (cases "10 * n + digit_val c < 2 ^ 64")
    case True
    with Cons show ?thesis by (simp add: Let_def)
  next
    case False
    with dec_fold_ge [of "10 * n + digit_val c" s] Cons.prems show ?thesis
      by (simp add: Let_def)
  qed
qed simp

lemma ParseInt_digits:
  assumes "list_all is_digit s" "s \<noteq> []"
  shows "ParseInt s = (if dec_val s < 2 ^ 63 then Inr (of_nat (dec_val s)) else Inl ErrRange)"
proof -
  obtain c cs where s: "s = c # cs" using assms(2) by (cases s) auto
  have c: "c \<noteq> CHR ''+''" "c \<noteq> CHR ''-''"
    using assms(1) by (auto simp: s is_digit_def less_eq_char_def)
  have pu: "ParseUint s = (if dec_val s < 2 ^ 64 then Inr (of_nat (dec_val s)) else Inl ErrRange)"
    using assms by (simp add: ParseUint_def ParseUint_loop_digits dec_val_def Let_def)
  have "ParseInt s = bindE (ParseUint s) (\<lambda>un. if 2 ^ 63 \<le> unat un then Inl ErrRange else Inr un)"
    using c by (simp add: ParseInt_def s Let_def cong: if_cong)
  then show ?thesis
    by (simp add: pu unat_of_nat take_bit_nat_eq_self)
qed

text \<open>
  The decimal digits of a number without leading zeros: what \<^verbatim>\<open>strconv.FormatUint\<close> writes,
  and the reference the other renderings are compared with.
\<close>

fun show_nat :: "nat \<Rightarrow> string" where
  "show_nat n = (if n < 10 then [char_of (48 + n)] else show_nat (n div 10) @ [char_of (48 + n mod 10)])"

declare show_nat.simps [simp del]

lemma is_digit_iff: "is_digit c \<longleftrightarrow> 48 \<le> (of_char c :: nat) \<and> (of_char c :: nat) \<le> 57"
  by (simp add: is_digit_def less_eq_char_def)

lemma is_digit_char_of [simp]: "n < 10 \<Longrightarrow> is_digit (char_of (48 + n :: nat))"
  by (simp add: is_digit_iff)

lemma digit_val_char_of [simp]: "n < 10 \<Longrightarrow> digit_val (char_of (48 + n :: nat)) = n"
  by (simp add: digit_val_def)

lemma digit_val_less: "is_digit c \<Longrightarrow> digit_val c < 10"
  by (auto simp: is_digit_iff digit_val_def)

lemma char_of_digit_val: "is_digit c \<Longrightarrow> char_of (48 + digit_val c) = c"
  by (simp add: is_digit_iff digit_val_def)

lemma not_is_digit [simp]: "\<not> is_digit CHR ''.''" "\<not> is_digit CHR ''-''"
  by (simp_all add: is_digit_iff)

lemma show_nat_digits: "list_all is_digit (show_nat n)"
  by (induction n rule: show_nat.induct) (subst show_nat.simps, simp)

lemma show_nat_nonempty [simp]: "show_nat n \<noteq> []"
  by (subst show_nat.simps) simp

lemma dec_val_show_nat: "dec_val (show_nat n) = n"
proof (induction n rule: show_nat.induct)
  case (1 n)
  show ?case
  proof (cases "n < 10")
    case True
    then show ?thesis by (subst show_nat.simps) (simp add: dec_val_def)
  next
    case False
    with 1 show ?thesis by (subst show_nat.simps) simp
  qed
qed

lemma length_show_nat: "0 < k \<Longrightarrow> n < 10 ^ k \<Longrightarrow> length (show_nat n) \<le> k"
proof (induction k arbitrary: n)
  case (Suc k)
  show ?case
  proof (cases "n < 10")
    case True
    then show ?thesis by (subst show_nat.simps) simp
  next
    case False
    with Suc.prems have "k \<noteq> 0" by (cases k) auto
    moreover have "n div 10 < 10 ^ k"
      using Suc.prems by (simp add: less_mult_imp_div_less mult.commute)
    ultimately have "length (show_nat (n div 10)) \<le> k" using Suc.IH by simp
    with False show ?thesis by (subst show_nat.simps) simp
  qed
qed simp

text \<open>A digit string spells a number canonically when it has no superfluous leading zero.\<close>

definition canonical_digits :: "string \<Rightarrow> bool" where
  "canonical_digits s \<longleftrightarrow> s \<noteq> [] \<and> list_all is_digit s \<and> \<not> (1 < length s \<and> s ! 0 = CHR ''0'')"

lemma canonical_digits_pos:
  assumes "canonical_digits s" "1 < length s"
  shows "1 \<le> dec_val (butlast s)"
proof -
  obtain c cs where s: "s = c # cs" "cs \<noteq> []" using assms(2) by (cases s) auto
  have "c \<noteq> CHR ''0''" "is_digit c" using assms s by (auto simp: canonical_digits_def)
  moreover have "char_of (48 :: nat) = CHR ''0''" by code_simp
  ultimately have "digit_val c \<noteq> 0" using char_of_digit_val [of c] by (metis add_0_right)
  then have "1 \<le> digit_val c" by simp
  also have "\<dots> \<le> foldl (\<lambda>n c. 10 * n + digit_val c) (digit_val c) (butlast cs)"
    by (rule dec_fold_ge)
  finally show ?thesis using s by (simp add: dec_val_def)
qed

lemma show_nat_dec_val: "canonical_digits s \<Longrightarrow> show_nat (dec_val s) = s"
proof (induction s rule: rev_induct)
  case Nil
  then show ?case by (simp add: canonical_digits_def)
next
  case (snoc c s)
  then have c: "is_digit c" "digit_val c < 10"
    by (auto simp: canonical_digits_def intro: digit_val_less)
  show ?case
  proof (cases "s = []")
    case True
    with c show ?thesis by (subst show_nat.simps) (simp add: dec_val_def char_of_digit_val)
  next
    case False
    with snoc.prems have "canonical_digits s"
      by (auto simp: canonical_digits_def nth_append)
    then have IH: "show_nat (dec_val s) = s" by (rule snoc.IH)
    from False snoc.prems have "1 \<le> dec_val s"
      using canonical_digits_pos [of "s @ [c]"] by auto
    with c IH show ?thesis by (subst show_nat.simps) (simp add: char_of_digit_val)
  qed
qed

lemma canonical_show_nat: "canonical_digits (show_nat n)"
proof (induction n rule: show_nat.induct)
  case (1 n)
  show ?case
  proof (cases "n < 10")
    case True
    then show ?thesis by (subst show_nat.simps) (simp add: canonical_digits_def)
  next
    case False
    then have IH: "canonical_digits (show_nat (n div 10))" using 1 by simp
    have "show_nat (n div 10) \<noteq> [CHR ''0'']"
    proof
      assume "show_nat (n div 10) = [CHR ''0'']"
      then have "dec_val (show_nat (n div 10)) = 0" by (simp add: dec_val_def digit_val_def)
      with False show False by (simp add: dec_val_show_nat)
    qed
    with IH have "show_nat (n div 10) ! 0 \<noteq> CHR ''0''"
      by (cases "show_nat (n div 10)") (auto simp: canonical_digits_def)
    with False IH show ?thesis
      by (subst show_nat.simps) (auto simp: canonical_digits_def nth_append)
  qed
qed

section \<open>UTF-8 and white space\<close>

definition cont_byte :: "nat \<Rightarrow> bool" where
  "cont_byte b \<longleftrightarrow> 128 \<le> b \<and> b \<le> 191"

text \<open>
  The code points of a byte sequence, \<open>None\<close> where \<^verbatim>\<open>utf8.ValidString\<close> is false: overlong
  forms, surrogate halves, code points past U+10FFFF and stray or missing continuation
  bytes are all invalid. The bounds on the second byte are those of \<^verbatim>\<open>unicode/utf8\<close>.
\<close>

fun utf8_runes :: "nat list \<Rightarrow> nat list option" where
  "utf8_runes [] = Some []"
| "utf8_runes (b # bs) =
     (if b < 128 then map_option (Cons b) (utf8_runes bs)
      else if 194 \<le> b \<and> b \<le> 223 then
        (case bs of
           c # r \<Rightarrow>
             if cont_byte c then map_option (Cons ((b - 192) * 64 + (c - 128))) (utf8_runes r)
             else None
         | _ \<Rightarrow> None)
      else if 224 \<le> b \<and> b \<le> 239 then
        (case bs of
           c # d # r \<Rightarrow>
             if (if b = 224 then 160 else 128) \<le> c \<and> c \<le> (if b = 237 then 159 else 191)
                \<and> cont_byte d
             then map_option (Cons ((b - 224) * 4096 + (c - 128) * 64 + (d - 128))) (utf8_runes r)
             else None
         | _ \<Rightarrow> None)
      else if 240 \<le> b \<and> b \<le> 244 then
        (case bs of
           c # d # e # r \<Rightarrow>
             if (if b = 240 then 144 else 128) \<le> c \<and> c \<le> (if b = 244 then 143 else 191)
                \<and> cont_byte d \<and> cont_byte e
             then map_option
                    (Cons ((b - 240) * 262144 + (c - 128) * 4096 + (d - 128) * 64 + (e - 128)))
                    (utf8_runes r)
             else None
         | _ \<Rightarrow> None)
      else None)"

definition runes :: "string \<Rightarrow> nat list option" where
  "runes s = utf8_runes (map of_char s)"

definition ValidString :: "string \<Rightarrow> bool" where
  "ValidString s \<longleftrightarrow> runes s \<noteq> None"

text \<open>\<^verbatim>\<open>unicode.IsSpace\<close>: the code points with the White\_Space property.\<close>

definition IsSpace :: "nat \<Rightarrow> bool" where
  "IsSpace r \<longleftrightarrow>
     r \<in> {9, 10, 11, 12, 13, 32, 133, 160, 5760, 8232, 8233, 8239, 8287, 12288}
     \<or> 8192 \<le> r \<and> r \<le> 8202"

text \<open>
  \<^verbatim>\<open>strings.TrimSpace\<close> on the code points of a valid string. Decoding is a function of the
  bytes, so trimming changes the string exactly when it changes its code points.
\<close>

definition TrimSpace :: "nat list \<Rightarrow> nat list" where
  "TrimSpace rs = rev (dropWhile IsSpace (rev (dropWhile IsSpace rs)))"

lemma utf8_runes_ascii: "\<forall>b \<in> set bs. b < 128 \<Longrightarrow> utf8_runes bs = Some bs"
  by (induction bs) auto

lemma runes_ascii: "list_all (\<lambda>c. of_char c < (128 :: nat)) s \<Longrightarrow> runes s = Some (map of_char s)"
  by (auto simp: runes_def list_all_iff intro!: utf8_runes_ascii)

section \<open>Hexadecimal\<close>

definition hexDigits :: string where
  "hexDigits = ''0123456789abcdef''"

definition hex_digit :: "nat \<Rightarrow> char" where
  "hex_digit n = hexDigits ! n"

lemma less_16_cases:
  "n < (16 :: nat) \<Longrightarrow> n \<in> {0, 1, 2, 3, 4, 5, 6, 7, 8, 9, 10, 11, 12, 13, 14, 15}"
  by (simp, arith)

lemma of_char_hex_digit:
  "n < 16 \<Longrightarrow> (of_char (hex_digit n) :: nat) = (if n < 10 then 48 + n else 87 + n)"
  by (drule less_16_cases) (auto simp: hex_digit_def hexDigits_def)

lemma hex_digit_inj:
  assumes "n < 16" "m < 16" "hex_digit n = hex_digit m"
  shows "n = m"
proof -
  have "(if n < 10 then 48 + n else 87 + n) = (if m < 10 then 48 + m else 87 + m)"
    using assms of_char_hex_digit [of n] of_char_hex_digit [of m] by metis
  then show ?thesis using assms(1,2) by (simp split: if_splits)
qed

text \<open>
  \<open>nibbles k w\<close> are the lowest \<open>k\<close> half-bytes of a number, the most significant first;
  \<open>hex_of k w\<close> renders them.
\<close>

fun nibbles :: "nat \<Rightarrow> nat \<Rightarrow> nat list" where
  "nibbles 0 w = []"
| "nibbles (Suc k) w = nibbles k (w div 16) @ [w mod 16]"

lemma length_nibbles [simp]: "length (nibbles k w) = k"
  by (induction k arbitrary: w) auto

lemma nibbles_bound: "n \<in> set (nibbles k w) \<Longrightarrow> n < 16"
  by (induction k arbitrary: w) auto

lemma nibbles_inj:
  "w < 16 ^ k \<Longrightarrow> v < 16 ^ k \<Longrightarrow> nibbles k w = nibbles k v \<Longrightarrow> w = v"
proof (induction k arbitrary: w v)
  case (Suc k)
  then have "w div 16 < 16 ^ k" "v div 16 < 16 ^ k"
    by (auto simp: less_mult_imp_div_less mult.commute)
  with Suc have "w div 16 = v div 16" "w mod 16 = v mod 16" by auto
  then show ?case by (metis div_mult_mod_eq)
qed simp

definition hex_of :: "nat \<Rightarrow> nat \<Rightarrow> string" where
  "hex_of k w = map hex_digit (nibbles k w)"

lemma length_hex_of [simp]: "length (hex_of k w) = k"
  by (simp add: hex_of_def)

lemma hex_of_inj:
  assumes "w < 16 ^ k" "v < 16 ^ k" "hex_of k w = hex_of k v"
  shows "w = v"
proof -
  have "inj_on hex_digit {n. n < 16}" by (auto intro!: inj_onI dest: hex_digit_inj)
  then have "inj_on hex_digit (set (nibbles k w) \<union> set (nibbles k v))"
    by (rule inj_on_subset) (auto dest: nibbles_bound)
  with assms(3) have "nibbles k w = nibbles k v"
    by (simp add: hex_of_def inj_on_map_eq_map)
  with assms(1,2) show ?thesis by (rule nibbles_inj)
qed

section \<open>UUIDs\<close>

text \<open>
  A UUID is sixteen bytes, held as one 128-bit number, the first byte most significant.
  Its text form is the canonical one of RFC 9562: lowercase hexadecimal in groups of
  8, 4, 4, 4 and 12 digits joined by hyphens.
\<close>

type_synonym uuid = "128 word"

definition uuid_hex :: "uuid \<Rightarrow> string" where
  "uuid_hex u = hex_of 32 (unat u)"

definition uuid_String :: "uuid \<Rightarrow> string" where
  "uuid_String u =
     (let h = uuid_hex u
      in take 8 h @ ''-'' @ take 4 (drop 8 h) @ ''-'' @ take 4 (drop 12 h) @ ''-''
         @ take 4 (drop 16 h) @ ''-'' @ drop 20 h)"

lemma length_uuid_hex [simp]: "length (uuid_hex u) = 32"
  by (simp add: uuid_hex_def)

lemma uuid_hex_inj: "uuid_hex u = uuid_hex v \<Longrightarrow> u = v"
proof -
  assume eq: "uuid_hex u = uuid_hex v"
  have "unat w < 16 ^ 32" for w :: uuid using unsigned_less [of w] by simp
  with eq have "unat u = unat v" unfolding uuid_hex_def by (intro hex_of_inj)
  then show "u = v" by (rule unsigned_word_eqI)
qed

lemma length_uuid_String [simp]: "length (uuid_String u) = 36"
  by (simp add: uuid_String_def Let_def)

lemma split_12_digits:
  assumes "length h = 32"
  shows "h = take 8 h @ take 4 (drop 8 h) @ take 4 (drop 12 h) @ take 4 (drop 16 h) @ drop 20 h"
proof -
  have "take 4 (drop 16 h) @ drop 20 h = drop 16 h"
    using append_take_drop_id [of 4 "drop 16 h"] by (simp add: drop_drop add.commute)
  moreover have "take 4 (drop 12 h) @ drop 16 h = drop 12 h"
    using append_take_drop_id [of 4 "drop 12 h"] by (simp add: drop_drop add.commute)
  moreover have "take 4 (drop 8 h) @ drop 12 h = drop 8 h"
    using append_take_drop_id [of 4 "drop 8 h"] by (simp add: drop_drop add.commute)
  ultimately show ?thesis by simp
qed

lemma uuid_String_inj: "uuid_String u = uuid_String v \<longleftrightarrow> u = v"
proof
  assume "uuid_String u = uuid_String v"
  then have "uuid_hex u = uuid_hex v"
    using split_12_digits [of "uuid_hex u"] split_12_digits [of "uuid_hex v"]
    by (simp add: uuid_String_def Let_def)
  then show "u = v" by (rule uuid_hex_inj)
qed simp

end
