(* ===== verification/Failure.thy ===== *)
theory Failure
  imports Go_Stdlib
begin

text \<open>
  The catalogue of refusal codes and the error value that carries one
  (\<^verbatim>\<open>src/internal/domain/failure/code.go\<close>, \<^verbatim>\<open>error.go\<close>).

  A Go \<^verbatim>\<open>Code\<close> is a string type with declared constants: the datatype has one constructor
  per declared constant and \<open>UndeclaredCode s\<close> for any other string, the empty one (no
  code) included. An \<^verbatim>\<open>Error\<close> is modelled by its code and the field it names. Its message
  and its wrapped cause carry no decision of the domain and are left out: every decision
  is taken on the outermost code, which is what \<^verbatim>\<open>CodeOf\<close> reads.
\<close>

named_theorems correctable_rules \<open>fallible operations whose every refusal is correctable\<close>

section \<open>Codes\<close>

datatype code =
    UninitializedValue | InvalidAmountFormat | InvalidAmountScale | AmountOutOfRange
  | InvalidAmountForKind | UnsupportedCurrency | MissingRequiredField | InvalidFieldFormat
  | UnsupportedTransactionKind | ReferenceRequired | ReferenceNotApplicable | InvalidStateTransition
  | InsufficientFunds | ReversalInsufficientFunds | BalanceOutOfRange | CurrencyMismatch
  | ReferenceNotFound | ReferenceNotProcessed | ReferenceNotReversible | ReferenceAlreadyReversed
  | ReferenceMismatch | ReversalAmountMismatch | IdempotencyPayloadConflict | WalletAlreadyExists
  | LedgerBalanceMismatch
  | UndeclaredCode string

text \<open>The wire form of a code, and the code a string names.\<close>

fun code_String :: "code \<Rightarrow> string" where
  "code_String UninitializedValue = ''UNINITIALIZED_VALUE''"
| "code_String InvalidAmountFormat = ''INVALID_AMOUNT_FORMAT''"
| "code_String InvalidAmountScale = ''INVALID_AMOUNT_SCALE''"
| "code_String AmountOutOfRange = ''AMOUNT_OUT_OF_RANGE''"
| "code_String InvalidAmountForKind = ''INVALID_AMOUNT_FOR_KIND''"
| "code_String UnsupportedCurrency = ''UNSUPPORTED_CURRENCY''"
| "code_String MissingRequiredField = ''MISSING_REQUIRED_FIELD''"
| "code_String InvalidFieldFormat = ''INVALID_FIELD_FORMAT''"
| "code_String UnsupportedTransactionKind = ''UNSUPPORTED_TRANSACTION_KIND''"
| "code_String ReferenceRequired = ''REFERENCE_REQUIRED''"
| "code_String ReferenceNotApplicable = ''REFERENCE_NOT_APPLICABLE''"
| "code_String InvalidStateTransition = ''INVALID_STATE_TRANSITION''"
| "code_String InsufficientFunds = ''INSUFFICIENT_FUNDS''"
| "code_String ReversalInsufficientFunds = ''REVERSAL_INSUFFICIENT_FUNDS''"
| "code_String BalanceOutOfRange = ''BALANCE_OUT_OF_RANGE''"
| "code_String CurrencyMismatch = ''CURRENCY_MISMATCH''"
| "code_String ReferenceNotFound = ''REFERENCE_NOT_FOUND''"
| "code_String ReferenceNotProcessed = ''REFERENCE_NOT_PROCESSED''"
| "code_String ReferenceNotReversible = ''REFERENCE_NOT_REVERSIBLE''"
| "code_String ReferenceAlreadyReversed = ''REFERENCE_ALREADY_REVERSED''"
| "code_String ReferenceMismatch = ''REFERENCE_MISMATCH''"
| "code_String ReversalAmountMismatch = ''REVERSAL_AMOUNT_MISMATCH''"
| "code_String IdempotencyPayloadConflict = ''IDEMPOTENCY_PAYLOAD_CONFLICT''"
| "code_String WalletAlreadyExists = ''WALLET_ALREADY_EXISTS''"
| "code_String LedgerBalanceMismatch = ''LEDGER_BALANCE_MISMATCH''"
| "code_String (UndeclaredCode s) = s"

definition declared_codes :: "code list" where
  "declared_codes =
    [UninitializedValue, InvalidAmountFormat, InvalidAmountScale, AmountOutOfRange,
     InvalidAmountForKind, UnsupportedCurrency, MissingRequiredField, InvalidFieldFormat,
     UnsupportedTransactionKind, ReferenceRequired, ReferenceNotApplicable, InvalidStateTransition,
     InsufficientFunds, ReversalInsufficientFunds, BalanceOutOfRange, CurrencyMismatch,
     ReferenceNotFound, ReferenceNotProcessed, ReferenceNotReversible, ReferenceAlreadyReversed,
     ReferenceMismatch, ReversalAmountMismatch, IdempotencyPayloadConflict, WalletAlreadyExists,
     LedgerBalanceMismatch]"

definition code_of_string :: "string \<Rightarrow> code" where
  "code_of_string s =
     (case find (\<lambda>c. code_String c = s) declared_codes of
        Some c \<Rightarrow> c
      | None \<Rightarrow> UndeclaredCode s)"

abbreviation no_code :: code where
  "no_code \<equiv> UndeclaredCode []"

text \<open>The table \<^verbatim>\<open>correctable\<close>: a declared code maps to its class, anything else to nothing.\<close>

fun correctable :: "code \<Rightarrow> bool option" where
  "correctable UninitializedValue = Some True"
| "correctable InvalidAmountFormat = Some True"
| "correctable InvalidAmountScale = Some True"
| "correctable AmountOutOfRange = Some True"
| "correctable InvalidAmountForKind = Some True"
| "correctable UnsupportedCurrency = Some True"
| "correctable MissingRequiredField = Some True"
| "correctable InvalidFieldFormat = Some True"
| "correctable UnsupportedTransactionKind = Some True"
| "correctable ReferenceRequired = Some True"
| "correctable ReferenceNotApplicable = Some True"
| "correctable InvalidStateTransition = Some True"
| "correctable InsufficientFunds = Some False"
| "correctable ReversalInsufficientFunds = Some False"
| "correctable BalanceOutOfRange = Some False"
| "correctable CurrencyMismatch = Some False"
| "correctable ReferenceNotFound = Some False"
| "correctable ReferenceNotProcessed = Some False"
| "correctable ReferenceNotReversible = Some False"
| "correctable ReferenceAlreadyReversed = Some False"
| "correctable ReferenceMismatch = Some False"
| "correctable ReversalAmountMismatch = Some False"
| "correctable IdempotencyPayloadConflict = Some False"
| "correctable WalletAlreadyExists = Some False"
| "correctable LedgerBalanceMismatch = Some False"
| "correctable (UndeclaredCode s) = None"

definition audit_table :: "code \<Rightarrow> bool" where
  "audit_table c \<longleftrightarrow> c = LedgerBalanceMismatch"

definition All_codes :: "code list" where
  "All_codes = filter (\<lambda>c. correctable c \<noteq> None) declared_codes"

definition Known_code :: "code \<Rightarrow> bool" where
  "Known_code c \<longleftrightarrow> correctable c \<noteq> None"

definition Correctable :: "code \<Rightarrow> bool" where
  "Correctable c = (case correctable c of Some b \<Rightarrow> b | None \<Rightarrow> False)"

definition Definitive :: "code \<Rightarrow> bool" where
  "Definitive c = (case correctable c of Some b \<Rightarrow> \<not> b | None \<Rightarrow> False)"

definition Audit_code :: "code \<Rightarrow> bool" where
  "Audit_code c \<longleftrightarrow> audit_table c"

section \<open>Errors\<close>

record fail =
  err_Code :: code
  err_Field :: string

type_synonym 'a res = "fail + 'a"

definition New :: "code \<Rightarrow> fail" where
  "New c = \<lparr>err_Code = c, err_Field = []\<rparr>"

definition Wrap :: "fail \<Rightarrow> code \<Rightarrow> fail" where
  "Wrap cause c = \<lparr>err_Code = c, err_Field = []\<rparr>"

definition WithField :: "fail \<Rightarrow> string \<Rightarrow> fail" where
  "WithField e f = e\<lparr>err_Field := f\<rparr>"

definition CodeOf :: "fail \<Rightarrow> code" where
  "CodeOf e = err_Code e"

definition failure_Is :: "fail \<Rightarrow> code \<Rightarrow> bool" where
  "failure_Is e c \<longleftrightarrow> CodeOf e = c"

definition failure_Correctable :: "fail \<Rightarrow> bool" where
  "failure_Correctable e \<longleftrightarrow> Correctable (CodeOf e)"

text \<open>The two refusals raised most often (\<^verbatim>\<open>wagering/refusals.go\<close>).\<close>

definition missing :: "string \<Rightarrow> fail" where
  "missing f = WithField (New MissingRequiredField) f"

definition uninitialized :: "string \<Rightarrow> fail" where
  "uninitialized f = WithField (New UninitializedValue) f"

section \<open>Facts\<close>

lemma CodeOf_New [simp]: "CodeOf (New c) = c"
  by (simp add: CodeOf_def New_def)

lemma CodeOf_Wrap [simp]: "CodeOf (Wrap e c) = c"
  by (simp add: CodeOf_def Wrap_def)

lemma CodeOf_WithField [simp]: "CodeOf (WithField e f) = CodeOf e"
  by (simp add: CodeOf_def WithField_def)

lemma CodeOf_missing [simp]: "CodeOf (missing f) = MissingRequiredField"
  by (simp add: missing_def)

lemma CodeOf_uninitialized [simp]: "CodeOf (uninitialized f) = UninitializedValue"
  by (simp add: uninitialized_def)

lemma Correctable_simps [simp]:
  "Correctable UninitializedValue"
  "Correctable InvalidAmountFormat"
  "Correctable InvalidAmountScale"
  "Correctable AmountOutOfRange"
  "Correctable InvalidAmountForKind"
  "Correctable UnsupportedCurrency"
  "Correctable MissingRequiredField"
  "Correctable InvalidFieldFormat"
  "Correctable UnsupportedTransactionKind"
  "Correctable ReferenceRequired"
  "Correctable ReferenceNotApplicable"
  "Correctable InvalidStateTransition"
  "\<not> Correctable InsufficientFunds"
  "\<not> Correctable ReversalInsufficientFunds"
  "\<not> Correctable BalanceOutOfRange"
  "\<not> Correctable CurrencyMismatch"
  "\<not> Correctable ReferenceNotFound"
  "\<not> Correctable ReferenceNotProcessed"
  "\<not> Correctable ReferenceNotReversible"
  "\<not> Correctable ReferenceAlreadyReversed"
  "\<not> Correctable ReferenceMismatch"
  "\<not> Correctable ReversalAmountMismatch"
  "\<not> Correctable IdempotencyPayloadConflict"
  "\<not> Correctable WalletAlreadyExists"
  "\<not> Correctable LedgerBalanceMismatch"
  by (simp_all add: Correctable_def)

lemma Definitive_iff: "Definitive c \<longleftrightarrow> Known_code c \<and> \<not> Correctable c"
  by (simp add: Definitive_def Known_code_def Correctable_def split: option.split)

lemma Known_iff_declared: "Known_code c \<longleftrightarrow> c \<in> set declared_codes"
  by (cases c) (simp_all add: Known_code_def declared_codes_def)

lemma code_String_declared_distinct: "distinct (map code_String declared_codes)"
  by (simp add: declared_codes_def)

lemma code_of_string_String:
  assumes "c \<in> set declared_codes"
  shows "code_of_string (code_String c) = c"
proof (cases "find (\<lambda>d. code_String d = code_String c) declared_codes")
  case None
  with assms show ?thesis by (auto simp: find_None_iff)
next
  case (Some d)
  then have "d \<in> set declared_codes" "code_String d = code_String c"
    by (auto simp: find_Some_iff)
  with assms code_String_declared_distinct have "d = c"
    by (auto simp: distinct_map dest: inj_onD)
  with Some show ?thesis by (simp add: code_of_string_def)
qed

section \<open>Operations that refuse only correctably\<close>

text \<open>
  \<open>refuses_correctably m\<close>: whatever \<open>m\<close> refuses, it refuses with a correctable code.
  The rules below compose it along the structure of an operation.
\<close>

definition refuses_correctably :: "'a res \<Rightarrow> bool" where
  "refuses_correctably m \<longleftrightarrow> (\<forall>e. m = Inl e \<longrightarrow> Correctable (CodeOf e))"

lemma refuses_correctably_Inr [simp, correctable_rules]: "refuses_correctably (Inr a)"
  by (simp add: refuses_correctably_def)

lemma refuses_correctably_Inl [simp]: "refuses_correctably (Inl e) \<longleftrightarrow> Correctable (CodeOf e)"
  by (simp add: refuses_correctably_def)

lemma refuses_correctably_bindE [correctable_rules]:
  "refuses_correctably m \<Longrightarrow> (\<And>a. m = Inr a \<Longrightarrow> refuses_correctably (k a)) \<Longrightarrow>
   refuses_correctably (bindE m k)"
  by (cases m) (auto simp: refuses_correctably_def)

lemma refuses_correctably_if [correctable_rules]:
  "(b \<Longrightarrow> refuses_correctably m) \<Longrightarrow> (\<not> b \<Longrightarrow> refuses_correctably m') \<Longrightarrow>
   refuses_correctably (if b then m else m')"
  by simp

lemma refuses_correctablyD: "refuses_correctably m \<Longrightarrow> m = Inl e \<Longrightarrow> Correctable (CodeOf e)"
  by (simp add: refuses_correctably_def)

section \<open>Properties\<close>

text \<open>
  The catalogue is classified totally and without overlap. A declared code is
  correctable or definitive and never both, an undeclared one is neither; an audit code
  is definitive; \<open>All\<close> lists exactly the declared codes, and no two codes share a wire form.
\<close>

theorem code_classification:
  "(Known_code c \<longrightarrow> (Correctable c \<longleftrightarrow> \<not> Definitive c))
   \<and> (\<not> Known_code c \<longrightarrow> \<not> Correctable c \<and> \<not> Definitive c)
   \<and> (Audit_code c \<longrightarrow> Definitive c)
   \<and> (c \<in> set All_codes \<longleftrightarrow> Known_code c)
   \<and> (Known_code c \<longrightarrow> code_of_string (code_String c) = c)"
proof -
  have "\<not> Correctable c" if "\<not> Known_code c"
    using that by (auto simp: Known_code_def Correctable_def)
  moreover have "Audit_code c \<longrightarrow> Definitive c"
    by (simp add: Audit_code_def audit_table_def Definitive_def)
  moreover have "c \<in> set All_codes \<longleftrightarrow> Known_code c"
    by (auto simp: All_codes_def Known_code_def simp flip: Known_iff_declared)
  ultimately show ?thesis
    by (auto simp: Definitive_iff Known_iff_declared code_of_string_String)
qed

theorem code_classification_witness:
  "Known_code InsufficientFunds \<and> Definitive InsufficientFunds \<and> \<not> Correctable InsufficientFunds
   \<and> code_of_string ''INSUFFICIENT_FUNDS'' = InsufficientFunds
   \<and> \<not> Definitive (UndeclaredCode ''NOPE'')"
proof -
  have k: "Known_code InsufficientFunds" "\<not> Known_code (UndeclaredCode ''NOPE'')"
    by (simp_all add: Known_code_def)
  show ?thesis
    using code_classification [of InsufficientFunds] code_classification [of "UndeclaredCode ''NOPE''"] k
    by simp
qed

end
