(* ===== verification/Money.thy ===== *)
theory Money
  imports Failure
begin

text \<open>
  The exact monetary value object (\<^verbatim>\<open>src/internal/domain/money/currency.go\<close>, \<^verbatim>\<open>money.go\<close>):
  currencies, amounts in minor units held in a signed 64-bit integer, overflow-checked
  arithmetic, the canonical decimal form and its parser.
\<close>

section \<open>Currency\<close>

record currency =
  cur_code :: string

definition currencyCodeLength :: nat where
  "currencyCodeLength = 3"

definition supportedCurrencies :: "string list" where
  "supportedCurrencies =
    [''AED'', ''AFN'', ''ALL'', ''AMD'', ''ANG'', ''AOA'', ''ARS'', ''AUD'', ''AWG'', ''AZN'',
     ''BAM'', ''BBD'', ''BDT'', ''BGN'', ''BMD'', ''BND'', ''BOB'', ''BRL'', ''BSD'', ''BTN'', ''BWP'', ''BYN'',
     ''BZD'',
     ''CAD'', ''CDF'', ''CHF'', ''CNY'', ''COP'', ''CRC'', ''CUP'', ''CVE'', ''CZK'',
     ''DKK'', ''DOP'', ''DZD'',
     ''EGP'', ''ERN'', ''ETB'', ''EUR'',
     ''FJD'', ''FKP'',
     ''GBP'', ''GEL'', ''GHS'', ''GIP'', ''GMD'', ''GTQ'', ''GYD'',
     ''HKD'', ''HNL'', ''HTG'', ''HUF'',
     ''IDR'', ''ILS'', ''INR'', ''IRR'',
     ''JMD'',
     ''KES'', ''KGS'', ''KHR'', ''KPW'', ''KYD'', ''KZT'',
     ''LAK'', ''LBP'', ''LKR'', ''LRD'', ''LSL'',
     ''MAD'', ''MDL'', ''MGA'', ''MKD'', ''MMK'', ''MNT'', ''MOP'', ''MRU'', ''MUR'', ''MVR'', ''MWK'', ''MXN'',
     ''MYR'', ''MZN'',
     ''NAD'', ''NGN'', ''NIO'', ''NOK'', ''NPR'', ''NZD'',
     ''PAB'', ''PEN'', ''PGK'', ''PHP'', ''PKR'', ''PLN'',
     ''QAR'',
     ''RON'', ''RSD'', ''RUB'',
     ''SAR'', ''SBD'', ''SCR'', ''SDG'', ''SEK'', ''SGD'', ''SHP'', ''SLE'', ''SOS'', ''SRD'', ''SSP'', ''STN'',
     ''SVC'', ''SYP'', ''SZL'',
     ''THB'', ''TJS'', ''TMT'', ''TOP'', ''TRY'', ''TTD'', ''TWD'', ''TZS'',
     ''UAH'', ''USD'', ''UYU'', ''UZS'',
     ''VED'', ''VES'',
     ''WST'',
     ''XCD'', ''XCG'',
     ''YER'',
     ''ZAR'', ''ZMW'', ''ZWG'']"

definition Currency_IsZero :: "currency \<Rightarrow> bool" where
  "Currency_IsZero c \<longleftrightarrow> cur_code c = []"

definition Currency_String :: "currency \<Rightarrow> string" where
  "Currency_String c = cur_code c"

definition ParseCurrency :: "string \<Rightarrow> currency res" where
  "ParseCurrency s =
     (if s = [] then Inl (New UnsupportedCurrency)
      else if length s \<noteq> currencyCodeLength then Inl (New UnsupportedCurrency)
      else if list_ex (\<lambda>ch. ch < CHR ''A'' \<or> CHR ''Z'' < ch) s then Inl (New UnsupportedCurrency)
      else if \<not> snd (BinarySearch supportedCurrencies s) then Inl (New UnsupportedCurrency)
      else Inr \<lparr>cur_code = s\<rparr>)"

section \<open>Money\<close>

definition Scale :: nat where
  "Scale = 2"

definition minorPerMajor :: int64 where
  "minorPerMajor = 100"

record money =
  m_units :: int64
  m_currency :: currency

text \<open>The zero value \<^verbatim>\<open>Money{}\<close>, which carries no currency.\<close>

definition no_money :: money where
  "no_money = \<lparr>m_units = 0, m_currency = \<lparr>cur_code = []\<rparr>\<rparr>"

definition Money_IsUninitialized :: "money \<Rightarrow> bool" where
  "Money_IsUninitialized m \<longleftrightarrow> Currency_IsZero (m_currency m)"

definition Money_IsZero :: "money \<Rightarrow> bool" where
  "Money_IsZero m \<longleftrightarrow> \<not> Money_IsUninitialized m \<and> m_units m = 0"

definition Money_IsPositive :: "money \<Rightarrow> bool" where
  "Money_IsPositive m \<longleftrightarrow> \<not> Money_IsUninitialized m \<and> 0 <s m_units m"

definition Money_IsNegative :: "money \<Rightarrow> bool" where
  "Money_IsNegative m \<longleftrightarrow> \<not> Money_IsUninitialized m \<and> m_units m <s 0"

definition Money_Zero :: "currency \<Rightarrow> money res" where
  "Money_Zero c =
     (if Currency_IsZero c then Inl (New UninitializedValue)
      else Inr \<lparr>m_units = 0, m_currency = c\<rparr>)"

definition FromMinorUnits :: "int64 \<Rightarrow> currency \<Rightarrow> money res" where
  "FromMinorUnits u c =
     (if Currency_IsZero c then Inl (New UninitializedValue)
      else Inr \<lparr>m_units = u, m_currency = c\<rparr>)"

definition money_compatible :: "money \<Rightarrow> money \<Rightarrow> unit res" where
  "money_compatible m other =
     (if Money_IsUninitialized m \<or> Money_IsUninitialized other
      then Inl (New UninitializedValue)
      else if m_currency m \<noteq> m_currency other then Inl (New CurrencyMismatch)
      else Inr ())"

definition money_overflow :: fail where
  "money_overflow = New AmountOutOfRange"

definition Money_Add :: "money \<Rightarrow> money \<Rightarrow> money res" where
  "Money_Add m other =
     bindE (money_compatible m other) (\<lambda>_.
       if 0 <s m_units other \<and> MaxInt64 - m_units other <s m_units m then Inl money_overflow
       else if m_units other <s 0 \<and> m_units m <s MinInt64 - m_units other then Inl money_overflow
       else Inr \<lparr>m_units = m_units m + m_units other, m_currency = m_currency m\<rparr>)"

definition Money_Sub :: "money \<Rightarrow> money \<Rightarrow> money res" where
  "Money_Sub m other =
     bindE (money_compatible m other) (\<lambda>_.
       if m_units other <s 0 \<and> MaxInt64 + m_units other <s m_units m then Inl money_overflow
       else if 0 <s m_units other \<and> m_units m <s MinInt64 + m_units other then Inl money_overflow
       else Inr \<lparr>m_units = m_units m - m_units other, m_currency = m_currency m\<rparr>)"

definition Money_Neg :: "money \<Rightarrow> money res" where
  "Money_Neg m =
     (if Money_IsUninitialized m then Inl (New UninitializedValue)
      else if m_units m = MinInt64 then Inl money_overflow
      else Inr \<lparr>m_units = - m_units m, m_currency = m_currency m\<rparr>)"

definition Money_Cmp :: "money \<Rightarrow> money \<Rightarrow> int res" where
  "Money_Cmp m other =
     bindE (money_compatible m other) (\<lambda>_.
       Inr (if m_units m <s m_units other then - 1
            else if m_units other <s m_units m then 1 else 0))"

definition Money_Equal :: "money \<Rightarrow> money \<Rightarrow> bool" where
  "Money_Equal m other \<longleftrightarrow>
     (if Money_IsUninitialized m \<or> Money_IsUninitialized other then False else m = other)"

section \<open>The canonical decimal form\<close>

text \<open>
  Digits are laid down from the right, so the part of the buffer already filled is a list
  that grows at its front. The buffer has \<open>maxAmountLength\<close> bytes; that the rendering never
  needs more is a property below.
\<close>

definition maxAmountLength :: nat where
  "maxAmountLength = length ''-92233720368547758.08''"

definition ascii_digit :: "uint64 \<Rightarrow> char" where
  "ascii_digit d = char_of (48 + unat d)"

fun render_minor :: "nat \<Rightarrow> uint64 \<Rightarrow> string \<Rightarrow> string" where
  "render_minor 0 minor buf = buf"
| "render_minor (Suc k) minor buf =
     render_minor k (minor div 10) (ascii_digit (minor mod 10) # buf)"

function render_major :: "uint64 \<Rightarrow> string \<Rightarrow> string" where
  "render_major major buf =
     (let buf' = ascii_digit (major mod 10) # buf; major' = major div 10
      in if major' = 0 then buf' else render_major major' buf')"
  by pat_completeness auto
termination
proof (relation "measure (\<lambda>(major, buf). unat major)", simp_all, goal_cases)
  case (1 major)
  then have "unat (major div 10) \<noteq> 0" by (simp add: unat_eq_zero)
  then show ?case by (simp add: unat_div)
qed

declare render_major.simps [simp del]

definition amountInto :: "money \<Rightarrow> string" where
  "amountInto m =
     (let magnitude = (if m_units m <s 0 then - m_units m else m_units m);
          major = magnitude div minorPerMajor;
          minor = magnitude mod minorPerMajor;
          buf = render_major major (CHR ''.'' # render_minor Scale minor [])
      in if m_units m <s 0 then CHR ''-'' # buf else buf)"

definition Amount :: "money \<Rightarrow> string" where
  "Amount m = amountInto m"

definition AppendAmount :: "money \<Rightarrow> string \<Rightarrow> string" where
  "AppendAmount m dst = dst @ amountInto m"

section \<open>The parser\<close>

text \<open>
  The single pass over the bytes: \<open>i\<close> is the position, \<open>dot\<close> where the point was seen
  (Go's \<open>-1\<close> is \<open>None\<close>).
\<close>

fun scan_amount :: "nat \<Rightarrow> string \<Rightarrow> nat option \<Rightarrow> nat option res" where
  "scan_amount i [] dot = Inr dot"
| "scan_amount i (ch # s) dot =
     (if is_digit ch then scan_amount (Suc i) s dot
      else if ch = CHR ''.'' \<and> dot = None then scan_amount (Suc i) s (Some i)
      else Inl (New InvalidAmountFormat))"

definition amount_parts :: "string \<Rightarrow> nat option \<Rightarrow> string \<times> string" where
  "amount_parts s dot = (case dot of None \<Rightarrow> (s, []) | Some d \<Rightarrow> (take d s, drop (Suc d) s))"

definition parseAmount :: "string \<Rightarrow> int64 res" where
  "parseAmount s =
     (if s = [] then Inl (New InvalidAmountFormat)
      else bindE (scan_amount 0 s None) (\<lambda>dot.
        let (whole, frac) = amount_parts s dot
        in if whole = [] then Inl (New InvalidAmountFormat)
           else if dot \<noteq> None \<and> frac = [] then Inl (New InvalidAmountFormat)
           else if 1 < length whole \<and> whole ! 0 = CHR ''0'' then Inl (New InvalidAmountFormat)
           else if length frac \<noteq> Scale then Inl (New InvalidAmountScale)
           else (case ParseInt whole of
               Inl _ \<Rightarrow> Inl (New AmountOutOfRange)
             | Inr major \<Rightarrow>
                 (case ParseInt frac of
                     Inl _ \<Rightarrow> Inl (New InvalidAmountFormat)
                   | Inr minor \<Rightarrow>
                       if quot64 (MaxInt64 - minor) minorPerMajor <s major
                       then Inl (New AmountOutOfRange)
                       else Inr (major * minorPerMajor + minor)))))"

definition Money_Parse :: "string \<Rightarrow> string \<Rightarrow> money res" where
  "Money_Parse amount cur =
     bindE (ParseCurrency cur) (\<lambda>c.
     bindE (parseAmount amount) (\<lambda>u. Inr \<lparr>m_units = u, m_currency = c\<rparr>))"

section \<open>JSON\<close>

definition jsonOverhead :: nat where
  "jsonOverhead = 27"

definition Money_MarshalJSON :: "money \<Rightarrow> string res" where
  "Money_MarshalJSON m =
     (if Money_IsUninitialized m then Inl (New UninitializedValue)
      else if m_units m <s 0 then Inl (New InvalidAmountFormat)
      else Inr (''{'' @ [CHR 0x22] @ ''amount'' @ [CHR 0x22] @ '':'' @ [CHR 0x22]
                @ amountInto m
                @ [CHR 0x22] @ '','' @ [CHR 0x22] @ ''currency'' @ [CHR 0x22] @ '':'' @ [CHR 0x22]
                @ cur_code (m_currency m) @ [CHR 0x22] @ ''}''))"

section \<open>Arithmetic is exact or refused\<close>

lemma amount_lower: "- 9223372036854775808 \<le> sint (a :: int64)"
  using int64_lower [of a] by simp

lemma amount_upper: "sint (a :: int64) < 9223372036854775808"
  using int64_upper [of a] by simp

lemma add_guard_iff:
  fixes a b :: int64
  shows "(0 <s b \<and> MaxInt64 - b <s a) \<or> (b <s 0 \<and> a <s MinInt64 - b)
    \<longleftrightarrow> sint a + sint b \<notin> int64_range"
proof -
  have "sint (MaxInt64 - b) = 2 ^ 63 - 1 - sint b" if "0 < sint b"
    using that amount_upper [of b]
    by (subst sint_sub_int64) (auto simp: int64_simps int64_range_def)
  moreover have "sint (MinInt64 - b) = - (2 ^ 63) - sint b" if "sint b < 0"
    using that amount_lower [of b]
    by (subst sint_sub_int64) (auto simp: int64_simps int64_range_def)
  ultimately show ?thesis
    using amount_upper [of a] amount_lower [of a] amount_upper [of b] amount_lower [of b]
    by (auto simp: sless_int int64_range_def)
qed

lemma sub_guard_iff:
  fixes a b :: int64
  shows "(b <s 0 \<and> MaxInt64 + b <s a) \<or> (0 <s b \<and> a <s MinInt64 + b)
    \<longleftrightarrow> sint a - sint b \<notin> int64_range"
proof -
  have "sint (MaxInt64 + b) = 2 ^ 63 - 1 + sint b" if "sint b < 0"
    using that amount_lower [of b]
    by (subst sint_add_int64) (auto simp: int64_simps int64_range_def)
  moreover have "sint (MinInt64 + b) = - (2 ^ 63) + sint b" if "0 < sint b"
    using that amount_upper [of b]
    by (subst sint_add_int64) (auto simp: int64_simps int64_range_def)
  ultimately show ?thesis
    using amount_upper [of a] amount_lower [of a] amount_upper [of b] amount_lower [of b]
    by (auto simp: sless_int int64_range_def)
qed

lemma Money_Add_eq:
  "Money_Add a b =
     (if Money_IsUninitialized a \<or> Money_IsUninitialized b then Inl (New UninitializedValue)
      else if m_currency a \<noteq> m_currency b then Inl (New CurrencyMismatch)
      else if sint (m_units a) + sint (m_units b) \<notin> int64_range then Inl (New AmountOutOfRange)
      else Inr \<lparr>m_units = int64_of (sint (m_units a) + sint (m_units b)),
                m_currency = m_currency a\<rparr>)"
  using add_guard_iff [of "m_units b" "m_units a"] sint_add_int64 [of "m_units a" "m_units b"]
  by (auto simp: Money_Add_def money_compatible_def money_overflow_def intro: int64_of_eqI)

lemma Money_Sub_eq:
  "Money_Sub a b =
     (if Money_IsUninitialized a \<or> Money_IsUninitialized b then Inl (New UninitializedValue)
      else if m_currency a \<noteq> m_currency b then Inl (New CurrencyMismatch)
      else if sint (m_units a) - sint (m_units b) \<notin> int64_range then Inl (New AmountOutOfRange)
      else Inr \<lparr>m_units = int64_of (sint (m_units a) - sint (m_units b)),
                m_currency = m_currency a\<rparr>)"
  using sub_guard_iff [of "m_units b" "m_units a"] sint_sub_int64 [of "m_units a" "m_units b"]
  by (auto simp: Money_Sub_def money_compatible_def money_overflow_def intro: int64_of_eqI)

lemma Money_Neg_eq:
  "Money_Neg a =
     (if Money_IsUninitialized a then Inl (New UninitializedValue)
      else if - sint (m_units a) \<notin> int64_range then Inl (New AmountOutOfRange)
      else Inr \<lparr>m_units = int64_of (- sint (m_units a)), m_currency = m_currency a\<rparr>)"
proof -
  have "m_units a = MinInt64 \<longleftrightarrow> - sint (m_units a) \<notin> int64_range"
    using amount_upper [of "m_units a"] amount_lower [of "m_units a"]
    by (subst sint_inj [symmetric]) (auto simp: int64_simps int64_range_def)
  then show ?thesis
    using sint_neg_int64 [of "m_units a"]
    by (auto simp: Money_Neg_def money_overflow_def intro: int64_of_eqI)
qed

section \<open>Rendering\<close>

text \<open>The two fraction digits of a number of minor units, and the canonical decimal form.\<close>

definition two_digits :: "nat \<Rightarrow> string" where
  "two_digits n = [char_of (48 + n div 10 mod 10), char_of (48 + n mod 10)]"

definition show_units :: "nat \<Rightarrow> string" where
  "show_units n = show_nat (n div 100) @ CHR ''.'' # two_digits (n mod 100)"

lemma ascii_digit_mod: "ascii_digit (w mod 10) = char_of (48 + unat w mod 10)"
  by (simp add: ascii_digit_def unat_mod)

lemma render_major_eq: "render_major major buf = show_nat (unat major) @ buf"
proof (induction major buf rule: render_major.induct)
  case (1 major buf)
  have zero: "major div 10 = 0 \<longleftrightarrow> unat major < 10"
    by (simp add: unat_div flip: unat_eq_zero) (simp add: div_eq_0_iff)
  show ?case
  proof (cases "major div 10 = 0")
    case True
    with zero show ?thesis
      by (simp add: render_major.simps [of major buf] show_nat.simps [of "unat major"] ascii_digit_mod)
  next
    case False
    with 1 zero show ?thesis
      by (simp add: render_major.simps [of major buf] show_nat.simps [of "unat major"]
          ascii_digit_mod unat_div Let_def)
  qed
qed

lemma render_minor_eq: "render_minor Scale minor [] = two_digits (unat minor)"
proof -
  have "Scale = Suc (Suc 0)" by (simp add: Scale_def)
  then have "render_minor Scale minor [] = [ascii_digit (minor div 10 mod 10), ascii_digit (minor mod 10)]"
    by (metis render_minor.simps)
  then show ?thesis by (simp add: two_digits_def ascii_digit_mod unat_div)
qed

lemma unat_magnitude:
  "unat (if u <s 0 then - u else u :: int64) = nat \<bar>sint u\<bar>"
proof (cases "sint u < 0")
  case False
  then show ?thesis using unat_of_nonneg_sint [of u] by (simp add: sless_int)
next
  case neg: True
  show ?thesis
  proof (cases "- sint u \<in> int64_range")
    case True
    then have "sint (- u) = - sint u" by (rule sint_neg_int64)
    with neg show ?thesis using unat_of_nonneg_sint [of "- u"] by (simp add: sless_int)
  next
    case False
    then have "u = MinInt64"
      using neg amount_lower [of u]
      by (subst sint_inj [symmetric]) (auto simp: int64_simps int64_range_def)
    then show ?thesis by (simp add: MinInt64_def)
  qed
qed

lemma amountInto_eq:
  "amountInto m =
     (if sint (m_units m) < 0 then ''-'' else []) @ show_units (nat \<bar>sint (m_units m)\<bar>)"
proof -
  have "unat (- m_units m) = nat (- sint (m_units m))" if "sint (m_units m) < 0"
    using unat_magnitude [of "m_units m"] that by (simp add: sless_int)
  moreover have "unat (m_units m) = nat (sint (m_units m))" if "\<not> sint (m_units m) < 0"
    using unat_magnitude [of "m_units m"] that by (simp add: sless_int)
  ultimately show ?thesis
    by (simp add: amountInto_def Let_def render_major_eq render_minor_eq show_units_def
        minorPerMajor_def unat_div unat_mod sless_int)
qed

lemma length_amountInto: "length (amountInto m) \<le> maxAmountLength"
proof -
  define n where "n = nat \<bar>sint (m_units m)\<bar>"
  have "n \<le> 9223372036854775808"
    using amount_lower [of "m_units m"] amount_upper [of "m_units m"] by (simp add: n_def)
  then have "n div 100 < 10 ^ 17" by simp
  then have "length (show_nat (n div 100)) \<le> 17" by (rule length_show_nat [rotated]) simp
  then show ?thesis
    by (simp add: amountInto_eq maxAmountLength_def show_units_def two_digits_def flip: n_def)
qed

section \<open>Parsing\<close>

lemma scan_amount_digits: "list_all is_digit s \<Longrightarrow> scan_amount i s dot = Inr dot"
  by (induction s arbitrary: i) auto

lemma scan_amount_append:
  "list_all is_digit s \<Longrightarrow> scan_amount i (s @ r) dot = scan_amount (i + length s) r dot"
  by (induction s arbitrary: i) auto

lemma scan_amount_Some:
  "scan_amount i s (Some d) = Inr dot \<Longrightarrow> dot = Some d \<and> list_all is_digit s"
  by (induction s arbitrary: i) (auto split: if_splits)

lemma scan_amount_None:
  "scan_amount i s None = Inr dot \<Longrightarrow>
     (case dot of
        None \<Rightarrow> list_all is_digit s
      | Some d \<Rightarrow> \<exists>w f. s = w @ CHR ''.'' # f \<and> d = i + length w
                    \<and> list_all is_digit w \<and> list_all is_digit f)"
proof (induction s arbitrary: i)
  case (Cons c s)
  show ?case
  proof (cases "is_digit c")
    case True
    with Cons.prems have "scan_amount (Suc i) s None = Inr dot" by simp
    note IH = Cons.IH [OF this]
    show ?thesis
    proof (cases dot)
      case None
      with IH True show ?thesis by simp
    next
      case (Some d)
      with IH obtain w f where "s = w @ CHR ''.'' # f" "d = Suc i + length w"
        "list_all is_digit w" "list_all is_digit f" by auto
      with True have "c # s = (c # w) @ CHR ''.'' # f \<and> d = i + length (c # w)
        \<and> list_all is_digit (c # w) \<and> list_all is_digit f" by simp
      then show ?thesis unfolding Some option.case by blast
    qed
  next
    case False
    with Cons.prems have "c = CHR ''.''" "scan_amount (Suc i) s (Some i) = Inr dot"
      by (auto split: if_splits)
    with scan_amount_Some show ?thesis by (fastforce simp: list_all_iff)
  qed
qed simp

lemma two_digits_eq:
  assumes "list_all is_digit f" "length f = 2"
  shows "two_digits (dec_val f) = f \<and> dec_val f < 100"
proof -
  obtain a b where f: "f = [a, b]" using assms(2) by (auto simp: length_Suc_conv numeral_2_eq_2)
  with assms(1) show ?thesis
    using digit_val_less [of a] digit_val_less [of b]
    by (simp add: two_digits_def dec_val_def char_of_digit_val)
qed

lemma dec_val_two_digits: "n < 100 \<Longrightarrow> dec_val (two_digits n) = n \<and> list_all is_digit (two_digits n)"
  by (simp add: two_digits_def dec_val_def less_mult_imp_div_less)

lemma range_guard:
  assumes "sint major = int q" "sint minor = int r" "r < 100"
  shows "quot64 (MaxInt64 - minor) minorPerMajor <s major \<longleftrightarrow> 2 ^ 63 \<le> 100 * q + r"
proof -
  have d: "sint (MaxInt64 - minor) = 2 ^ 63 - 1 - int r"
    using assms by (subst sint_sub_int64) (auto simp: int64_simps int64_range_def)
  then have "sint (quot64 (MaxInt64 - minor) minorPerMajor) = (2 ^ 63 - 1 - int r) div 100"
    using assms by (subst sint_quot64_nonneg) (auto simp: minorPerMajor_def)
  moreover have "x div 100 < int q \<longleftrightarrow> x < 100 * int q" for x
    using div_mult_mod_eq [of x 100] pos_mod_bound [of 100 x] pos_mod_sign [of 100 x] by linarith
  moreover have "2 ^ 63 - 1 - int r < 100 * int q \<longleftrightarrow> 2 ^ 63 \<le> 100 * q + r"
  proof -
    have "2 ^ 63 - 1 - int r < 100 * int q \<longleftrightarrow> int (2 ^ 63) \<le> int (100 * q + r)" by auto
    then show ?thesis by (simp only: of_nat_le_iff)
  qed
  ultimately show ?thesis using assms(1) by (simp add: sless_int)
qed

text \<open>
  On a string of the canonical grammar the parser answers from the value alone: the count
  of minor units when it fits a signed 64-bit integer, a range refusal when it does not.
\<close>

lemma parseAmount_grammar:
  assumes w: "canonical_digits w" and f: "list_all is_digit f" "length f = 2"
  shows "parseAmount (w @ CHR ''.'' # f) =
    (let n = 100 * dec_val w + dec_val f
     in if n < 2 ^ 63 then Inr (of_nat n) else Inl (New AmountOutOfRange))"
proof -
  have dw: "list_all is_digit w" "w \<noteq> []" "\<not> (1 < length w \<and> w ! 0 = CHR ''0'')"
    using w by (auto simp: canonical_digits_def)
  have fne: "f \<noteq> []" using f by auto
  have scan: "scan_amount 0 (w @ CHR ''.'' # f) None = Inr (Some (length w))"
    using dw f by (simp add: scan_amount_append scan_amount_digits)
  have r: "dec_val f < 100" using two_digits_eq [OF f] by simp
  then have pf: "ParseInt f = Inr (of_nat (dec_val f))"
    using ParseInt_digits [OF f(1) fne] by simp
  define n where "n = 100 * dec_val w + dec_val f"
  have split: "parseAmount (w @ CHR ''.'' # f) =
    (case ParseInt w of
       Inl _ \<Rightarrow> Inl (New AmountOutOfRange)
     | Inr major \<Rightarrow>
         if quot64 (MaxInt64 - of_nat (dec_val f)) minorPerMajor <s major
         then Inl (New AmountOutOfRange)
         else Inr (major * minorPerMajor + of_nat (dec_val f)))"
    using dw f fne pf by (auto simp: parseAmount_def scan amount_parts_def Scale_def split: sum.split)
  show ?thesis
  proof (cases "dec_val w < 2 ^ 63")
    case False
    then have "\<not> n < 2 ^ 63" by (simp add: n_def)
    with False show ?thesis using ParseInt_digits [OF dw(1,2)] by (simp add: split Let_def flip: n_def)
  next
    case True
    then have s: "sint (of_nat (dec_val w) :: int64) = int (dec_val w)"
      "sint (of_nat (dec_val f) :: int64) = int (dec_val f)"
      using r by (auto simp: sint_of_small_unat unat_of_nat take_bit_nat_eq_self)
    have "quot64 (MaxInt64 - of_nat (dec_val f)) minorPerMajor <s of_nat (dec_val w) \<longleftrightarrow> \<not> n < 2 ^ 63"
      using range_guard [OF s r] by (simp add: n_def not_less)
    moreover have "of_nat (dec_val w) * minorPerMajor + of_nat (dec_val f) = (of_nat n :: int64)"
      by (simp add: n_def minorPerMajor_def)
    ultimately show ?thesis
      using True ParseInt_digits [OF dw(1,2)] by (simp add: split Let_def flip: n_def)
  qed
qed

lemma parseAmount_success:
  assumes "parseAmount s = Inr u"
  obtains w f where "s = w @ CHR ''.'' # f" "canonical_digits w" "list_all is_digit f" "length f = 2"
proof -
  obtain dot where scan: "scan_amount 0 s None = Inr dot"
    using assms by (auto simp: parseAmount_def)
  obtain whole frac where parts: "amount_parts s dot = (whole, frac)" by fastforce
  have shape: "whole \<noteq> []" "\<not> (1 < length whole \<and> whole ! 0 = CHR ''0'')" "length frac = Scale"
    using assms by (auto simp: parseAmount_def scan parts)
  then obtain d where d: "dot = Some d"
    using parts by (cases dot) (auto simp: amount_parts_def Scale_def)
  with scan_amount_None [OF scan] obtain w f where s: "s = w @ CHR ''.'' # f" "d = length w"
    "list_all is_digit w" "list_all is_digit f" by auto
  with parts d have "whole = w" "frac = f" by (auto simp: amount_parts_def)
  with shape s show thesis by (intro that [of w f]) (auto simp: canonical_digits_def Scale_def)
qed

lemma show_units_parts:
  assumes "canonical_digits w" "list_all is_digit f" "length f = 2"
  shows "show_units (100 * dec_val w + dec_val f) = w @ CHR ''.'' # f"
  using assms two_digits_eq [OF assms(2,3)] by (simp add: show_units_def show_nat_dec_val)

lemma parseAmount_show_units:
  "parseAmount (show_units n) = (if n < 2 ^ 63 then Inr (of_nat n) else Inl (New AmountOutOfRange))"
  using parseAmount_grammar [OF canonical_show_nat [of "n div 100"], of "two_digits (n mod 100)"]
    dec_val_two_digits [of "n mod 100"]
  by (simp add: show_units_def dec_val_show_nat two_digits_def)

lemma sint_of_nat_small: "n < 2 ^ 63 \<Longrightarrow> sint (of_nat n :: int64) = int n"
  by (simp add: sint_of_small_unat unat_of_nat take_bit_nat_eq_self)

lemma sorted_supportedCurrencies: "sorted supportedCurrencies"
  by (simp only: supportedCurrencies_def sorted2_simps)
    (simp add: less_eq_list_code less_char_def less_eq_char_def)

lemma supportedCurrencies_form:
  "list_all (\<lambda>s. length s = 3 \<and> list_all (\<lambda>ch. CHR ''A'' \<le> ch \<and> ch \<le> CHR ''Z'') s) supportedCurrencies"
  by (simp add: supportedCurrencies_def less_eq_char_def)

lemma ParseCurrency_Inr_iff:
  "ParseCurrency s = Inr c \<longleftrightarrow> s \<in> set supportedCurrencies \<and> c = \<lparr>cur_code = s\<rparr>"
proof -
  have "s \<noteq> [] \<and> length s = 3 \<and> \<not> list_ex (\<lambda>ch. ch < CHR ''A'' \<or> CHR ''Z'' < ch) s"
    if "s \<in> set supportedCurrencies"
    using that supportedCurrencies_form by (auto simp: list_all_iff list_ex_iff not_less)
  then show ?thesis
    using BinarySearch_found [OF sorted_supportedCurrencies, of s]
    by (auto simp: ParseCurrency_def currencyCodeLength_def)
qed

section \<open>Properties\<close>

text \<open>
  Every amount has exactly one spelling. The parser accepts a string with result
  \<open>u\<close> exactly when \<open>u\<close> is not negative and the string is the canonical rendering of
  \<open>u\<close>: it never normalises, and it reads back everything the renderer writes.
\<close>

theorem parseAmount_unique_spelling:
  "parseAmount s = Inr u \<longleftrightarrow> 0 \<le> sint u \<and> s = Amount \<lparr>m_units = u, m_currency = c\<rparr>"
proof
  assume ok: "parseAmount s = Inr u"
  then obtain w f where s: "s = w @ CHR ''.'' # f" and wf: "canonical_digits w"
    "list_all is_digit f" "length f = 2" by (rule parseAmount_success)
  define n where "n = 100 * dec_val w + dec_val f"
  from ok have n: "n < 2 ^ 63" "u = of_nat n"
    using parseAmount_grammar [OF wf] by (auto simp: s n_def Let_def split: if_splits)
  then have "sint u = int n" by (simp only: sint_of_nat_small)
  moreover have "show_units n = s" using show_units_parts [OF wf] by (simp add: s n_def)
  ultimately show "0 \<le> sint u \<and> s = Amount \<lparr>m_units = u, m_currency = c\<rparr>"
    by (simp add: Amount_def amountInto_eq)
next
  assume "0 \<le> sint u \<and> s = Amount \<lparr>m_units = u, m_currency = c\<rparr>"
  then have u: "0 \<le> sint u" and s: "s = show_units (nat (sint u))"
    by (auto simp: Amount_def amountInto_eq)
  have "nat (sint u) < 2 ^ 63" using amount_upper [of u] u by simp
  moreover have "of_nat (nat (sint u)) = u"
    unfolding unat_of_nonneg_sint [OF u, symmetric] by simp
  ultimately show "parseAmount s = Inr u" by (simp add: s parseAmount_show_units)
qed

text \<open>
  Addition, subtraction and negation are exact or refused. They compute the
  mathematical result when it fits a signed 64-bit integer and report
  \<open>AmountOutOfRange\<close> when it does not; an uninitialised operand and a pair of
  currencies are refused first, in that order. The guards never wrap.
\<close>

theorem money_arithmetic_exact:
  "Money_Add a b =
     (if Money_IsUninitialized a \<or> Money_IsUninitialized b then Inl (New UninitializedValue)
      else if m_currency a \<noteq> m_currency b then Inl (New CurrencyMismatch)
      else if sint (m_units a) + sint (m_units b) \<notin> int64_range then Inl (New AmountOutOfRange)
      else Inr \<lparr>m_units = int64_of (sint (m_units a) + sint (m_units b)),
                m_currency = m_currency a\<rparr>)
   \<and> Money_Sub a b =
     (if Money_IsUninitialized a \<or> Money_IsUninitialized b then Inl (New UninitializedValue)
      else if m_currency a \<noteq> m_currency b then Inl (New CurrencyMismatch)
      else if sint (m_units a) - sint (m_units b) \<notin> int64_range then Inl (New AmountOutOfRange)
      else Inr \<lparr>m_units = int64_of (sint (m_units a) - sint (m_units b)),
                m_currency = m_currency a\<rparr>)
   \<and> Money_Neg a =
     (if Money_IsUninitialized a then Inl (New UninitializedValue)
      else if - sint (m_units a) \<notin> int64_range then Inl (New AmountOutOfRange)
      else Inr \<lparr>m_units = int64_of (- sint (m_units a)), m_currency = m_currency a\<rparr>)"
  using Money_Add_eq Money_Sub_eq Money_Neg_eq by blast

text \<open>
  A currency is accepted exactly when it is one of the supported codes, spelled as
  listed. The form check and the bisection together decide membership of the table.
\<close>

theorem ParseCurrency_decides_support:
  "ParseCurrency s =
     (if s \<in> set supportedCurrencies then Inr \<lparr>cur_code = s\<rparr> else Inl (New UnsupportedCurrency))"
  using ParseCurrency_Inr_iff [of s] by (auto simp: ParseCurrency_def)

text \<open>
  The rendering of any amount fits the fixed buffer it is written into, and the most
  negative amount fills it completely.
\<close>

theorem amountInto_fits_buffer:
  "length (amountInto m) \<le> maxAmountLength
   \<and> length (amountInto \<lparr>m_units = MinInt64, m_currency = c\<rparr>) = maxAmountLength"
proof
  show "length (amountInto m) \<le> maxAmountLength" by (rule length_amountInto)
  have "show_units (nat \<bar>sint MinInt64\<bar>) = show_nat 92233720368547758 @ CHR ''.'' # two_digits 8"
    by (simp add: show_units_def sint_MinInt64)
  moreover have "length (show_nat 92233720368547758) = 17" by (simp add: show_nat.simps)
  ultimately show "length (amountInto \<lparr>m_units = MinInt64, m_currency = c\<rparr>) = maxAmountLength"
    by (simp add: amountInto_eq sint_MinInt64 maxAmountLength_def two_digits_def)
qed

end
