(* ===== verification/Ids.thy ===== *)
theory Ids
  imports Failure
begin

text \<open>
  Identifiers (\<^verbatim>\<open>src/internal/domain/wagering/ids.go\<close>): UUIDs minted by the system and opaque
  strings owned by a provider, with the validation each passes.

  The identifier types are type synonyms: Go keeps them apart by distinct named types, which
  changes no behaviour. \<^verbatim>\<open>uuid.Parse\<close> is a parameter of the parsers that call it, because
  its accepted spellings are those of a package that is not part of the repository.
\<close>

type_synonym wallet_id = uuid
type_synonym transaction_id = uuid
type_synonym ledger_entry_id = uuid

type_synonym provider = string
type_synonym player_id = string
type_synonym external_id = string
type_synonym round_id = string
type_synonym game_id = string
type_synonym idempotency_key = string

definition ID_IsZero :: "uuid \<Rightarrow> bool" where
  "ID_IsZero i \<longleftrightarrow> i = 0"

definition maxOpaqueLength :: nat where
  "maxOpaqueLength = 128"

definition asciiSpace :: nat where
  "asciiSpace = 32"

definition asciiDelete :: nat where
  "asciiDelete = 127"

definition parseUUID :: "(string \<Rightarrow> uuid option) \<Rightarrow> string \<Rightarrow> string \<Rightarrow> uuid res" where
  "parseUUID uuid_Parse s field =
     (if s = [] then Inl (missing field)
      else case uuid_Parse s of
             None \<Rightarrow> Inl (WithField (New InvalidFieldFormat) field)
           | Some parsed \<Rightarrow>
               if parsed = 0 then Inl (WithField (New MissingRequiredField) field)
               else Inr parsed)"

definition ParseWalletID :: "(string \<Rightarrow> uuid option) \<Rightarrow> string \<Rightarrow> wallet_id res" where
  "ParseWalletID uuid_Parse s = parseUUID uuid_Parse s ''walletId''"

definition ParseTransactionID :: "(string \<Rightarrow> uuid option) \<Rightarrow> string \<Rightarrow> transaction_id res" where
  "ParseTransactionID uuid_Parse s = parseUUID uuid_Parse s ''transactionId''"

definition ParseLedgerEntryID :: "(string \<Rightarrow> uuid option) \<Rightarrow> string \<Rightarrow> ledger_entry_id res" where
  "ParseLedgerEntryID uuid_Parse s = parseUUID uuid_Parse s ''ledgerEntryId''"

definition parseOpaque :: "string \<Rightarrow> string \<Rightarrow> string res" where
  "parseOpaque s field =
     (if s = [] then Inl (missing field)
      else if maxOpaqueLength < length s then Inl (WithField (New InvalidFieldFormat) field)
      else case runes s of
             None \<Rightarrow> Inl (WithField (New InvalidFieldFormat) field)
           | Some rs \<Rightarrow>
               if TrimSpace rs \<noteq> rs then Inl (WithField (New InvalidFieldFormat) field)
               else if list_ex (\<lambda>r. r < asciiSpace \<or> r = asciiDelete) rs
                    then Inl (WithField (New InvalidFieldFormat) field)
               else Inr s)"

definition NewProvider :: "string \<Rightarrow> provider res" where
  "NewProvider s = parseOpaque s ''provider''"

definition NewPlayerID :: "string \<Rightarrow> player_id res" where
  "NewPlayerID s = parseOpaque s ''playerId''"

definition NewExternalTransactionID :: "string \<Rightarrow> external_id res" where
  "NewExternalTransactionID s = parseOpaque s ''externalTransactionId''"

definition NewRoundID :: "string \<Rightarrow> round_id res" where
  "NewRoundID s = parseOpaque s ''roundId''"

definition NewGameID :: "string \<Rightarrow> game_id res" where
  "NewGameID s = parseOpaque s ''gameId''"

definition NewIdempotencyKey :: "string \<Rightarrow> idempotency_key res" where
  "NewIdempotencyKey s = parseOpaque s ''idempotencyKey''"

record provider_fields =
  pf_Provider :: provider
  pf_ExternalTransactionID :: external_id
  pf_IdempotencyKey :: idempotency_key
  pf_PlayerID :: player_id
  pf_RoundID :: round_id
  pf_GameID :: game_id

definition validateProviderFields :: "provider_fields \<Rightarrow> unit res" where
  "validateProviderFields f =
     bindE (NewProvider (pf_Provider f)) (\<lambda>_.
     bindE (NewExternalTransactionID (pf_ExternalTransactionID f)) (\<lambda>_.
     bindE (NewIdempotencyKey (pf_IdempotencyKey f)) (\<lambda>_.
     bindE (NewPlayerID (pf_PlayerID f)) (\<lambda>_.
     bindE (NewRoundID (pf_RoundID f)) (\<lambda>_.
     bindE (NewGameID (pf_GameID f)) (\<lambda>_. Inr ()))))))"

section \<open>Facts\<close>

text \<open>A well-formed opaque identifier, independently of the field that carries it.\<close>

definition opaque_ok :: "string \<Rightarrow> bool" where
  "opaque_ok s \<longleftrightarrow>
     s \<noteq> [] \<and> length s \<le> maxOpaqueLength
     \<and> (case runes s of
          None \<Rightarrow> False
        | Some rs \<Rightarrow> TrimSpace rs = rs \<and> \<not> list_ex (\<lambda>r. r < asciiSpace \<or> r = asciiDelete) rs)"

lemma parseOpaque_Inr_iff [simp]: "parseOpaque s field = Inr t \<longleftrightarrow> opaque_ok s \<and> t = s"
  by (auto simp: parseOpaque_def opaque_ok_def split: option.splits)

lemma parseOpaque_correctable [correctable_rules]: "refuses_correctably (parseOpaque s field)"
  by (auto simp: parseOpaque_def split: option.splits)

lemmas opaque_constructors =
  NewProvider_def NewPlayerID_def NewExternalTransactionID_def NewRoundID_def NewGameID_def
  NewIdempotencyKey_def

lemma validateProviderFields_Inr_iff:
  "validateProviderFields f = Inr u \<longleftrightarrow>
     opaque_ok (pf_Provider f) \<and> opaque_ok (pf_ExternalTransactionID f)
     \<and> opaque_ok (pf_IdempotencyKey f) \<and> opaque_ok (pf_PlayerID f)
     \<and> opaque_ok (pf_RoundID f) \<and> opaque_ok (pf_GameID f)"
  by (auto simp: validateProviderFields_def opaque_constructors)

lemma validateProviderFields_correctable [correctable_rules]:
  "refuses_correctably (validateProviderFields f)"
  unfolding validateProviderFields_def opaque_constructors by (intro correctable_rules)

lemma opaque_ok_ascii:
  assumes "s \<noteq> []" "length s \<le> 128" "list_all (\<lambda>c. 33 \<le> (of_char c :: nat) \<and> (of_char c :: nat) < 127) s"
  shows "opaque_ok s"
proof -
  define rs where "rs = map (of_char :: char \<Rightarrow> nat) s"
  have r: "runes s = Some rs" unfolding rs_def by (rule runes_ascii) (use assms in \<open>auto simp: list_all_iff\<close>)
  have ne: "rs \<noteq> []" and range: "\<forall>r \<in> set rs. 33 \<le> r \<and> r < 127"
    using assms by (auto simp: rs_def list_all_iff)
  then have ns: "\<forall>r \<in> set rs. \<not> IsSpace r" by (auto simp: IsSpace_def)
  then have "dropWhile IsSpace rs = rs" "dropWhile IsSpace (rev rs) = rev rs"
    using ne by (auto simp: dropWhile_eq_self_iff hd_rev)
  then have "TrimSpace rs = rs" by (simp add: TrimSpace_def)
  with assms range show ?thesis
    by (auto simp: opaque_ok_def r maxOpaqueLength_def list_ex_iff asciiSpace_def asciiDelete_def)
qed

end
