(* ===== verification/Kinds.thy ===== *)
theory Kinds
  imports Money Ids
begin

text \<open>
  The three enumerations of the domain and the wait policy
  (\<^verbatim>\<open>src/internal/domain/wagering/direction.go\<close>, \<^verbatim>\<open>kind.go\<close>, \<^verbatim>\<open>status.go\<close>, \<^verbatim>\<open>policy.go\<close>).

  Each enumeration is a Go string type with declared constants, so each datatype has one
  constructor per constant and one for any other string. The string conversions
  \<^verbatim>\<open>Kind(s)\<close>, \<^verbatim>\<open>Direction(s)\<close> and \<^verbatim>\<open>Status(s)\<close> are \<open>kindOf\<close>, \<open>directionOf\<close>
  and \<open>statusOf\<close>.
\<close>

section \<open>Direction\<close>

datatype direction = Debit | Credit | OtherDirection string

fun Direction_String :: "direction \<Rightarrow> string" where
  "Direction_String Debit = ''DEBIT''"
| "Direction_String Credit = ''CREDIT''"
| "Direction_String (OtherDirection s) = s"

definition directionOf :: "string \<Rightarrow> direction" where
  "directionOf s =
     (if s = ''DEBIT'' then Debit else if s = ''CREDIT'' then Credit else OtherDirection s)"

definition Direction_Known :: "direction \<Rightarrow> bool" where
  "Direction_Known d \<longleftrightarrow> d = Debit \<or> d = Credit"

definition unknownDirection :: "direction \<Rightarrow> fail" where
  "unknownDirection d = WithField (New InvalidFieldFormat) ''direction''"

definition ParseDirection :: "string \<Rightarrow> direction res" where
  "ParseDirection s =
     (let d = directionOf s
      in if Direction_Known d then Inr d else Inl (unknownDirection d))"

fun Opposite :: "direction \<Rightarrow> direction option" where
  "Opposite Debit = Some Credit"
| "Opposite Credit = Some Debit"
| "Opposite (OtherDirection s) = None"

fun applyDirection :: "direction \<Rightarrow> money \<Rightarrow> money \<Rightarrow> money res" where
  "applyDirection Credit balance amount = Money_Add balance amount"
| "applyDirection Debit balance amount = Money_Sub balance amount"
| "applyDirection (OtherDirection s) balance amount = Inl (unknownDirection (OtherDirection s))"

section \<open>Kind\<close>

datatype kind = Opening | Bet | Win | Loss | Refund | Rollback | OtherKind string

fun Kind_String :: "kind \<Rightarrow> string" where
  "Kind_String Opening = ''OPENING''"
| "Kind_String Bet = ''BET''"
| "Kind_String Win = ''WIN''"
| "Kind_String Loss = ''LOSS''"
| "Kind_String Refund = ''REFUND''"
| "Kind_String Rollback = ''ROLLBACK''"
| "Kind_String (OtherKind s) = s"

definition kinds :: "kind list" where
  "kinds = [Opening, Bet, Win, Loss, Refund, Rollback]"

definition kindOf :: "string \<Rightarrow> kind" where
  "kindOf s = (case find (\<lambda>k. Kind_String k = s) kinds of Some k \<Rightarrow> k | None \<Rightarrow> OtherKind s)"

definition Kind_Known :: "kind \<Rightarrow> bool" where
  "Kind_Known k \<longleftrightarrow> k \<in> set kinds"

definition ParseKind :: "string \<Rightarrow> kind res" where
  "ParseKind s =
     (let k = kindOf s
      in if Kind_Known k then Inr k else Inl (WithField (New InvalidFieldFormat) ''kind''))"

definition Kind_IsInternal :: "kind \<Rightarrow> bool" where
  "Kind_IsInternal k \<longleftrightarrow> k = Opening"

definition Kind_IsExternal :: "kind \<Rightarrow> bool" where
  "Kind_IsExternal k \<longleftrightarrow> Kind_Known k \<and> \<not> Kind_IsInternal k"

definition IsReversal :: "kind \<Rightarrow> bool" where
  "IsReversal k \<longleftrightarrow> k = Refund \<or> k = Rollback"

definition MovesMoney :: "kind \<Rightarrow> bool" where
  "MovesMoney k \<longleftrightarrow> Kind_Known k \<and> k \<noteq> Loss"

definition RequiresReference :: "kind \<Rightarrow> bool" where
  "RequiresReference k \<longleftrightarrow> IsReversal k"

definition AllowsReference :: "kind \<Rightarrow> bool" where
  "AllowsReference k \<longleftrightarrow> k = Win \<or> IsReversal k"

definition RequiresPositiveAmount :: "kind \<Rightarrow> bool" where
  "RequiresPositiveAmount k \<longleftrightarrow> k = Bet \<or> k = Win \<or> IsReversal k"

definition RequiresZeroAmount :: "kind \<Rightarrow> bool" where
  "RequiresZeroAmount k \<longleftrightarrow> k = Loss"

fun CanReverse :: "kind \<Rightarrow> kind \<Rightarrow> bool" where
  "CanReverse Refund target = (target = Bet)"
| "CanReverse Rollback target = (target = Bet \<or> target = Win \<or> target = Refund)"
| "CanReverse _ target = False"

fun Kind_Direction :: "kind \<Rightarrow> direction option" where
  "Kind_Direction Opening = Some Credit"
| "Kind_Direction Win = Some Credit"
| "Kind_Direction Refund = Some Credit"
| "Kind_Direction Bet = Some Debit"
| "Kind_Direction _ = None"

definition checkAmount :: "kind \<Rightarrow> money \<Rightarrow> unit res" where
  "checkAmount k m =
     (if RequiresZeroAmount k then
        (if \<not> Money_IsZero m then Inl (WithField (New InvalidAmountForKind) ''money'')
         else Inr ())
      else if \<not> Money_IsPositive m then Inl (WithField (New InvalidAmountForKind) ''money'')
      else Inr ())"

definition checkReference :: "kind \<Rightarrow> external_id \<Rightarrow> external_id \<Rightarrow> unit res" where
  "checkReference k own named =
     (if RequiresReference k \<and> named = []
      then Inl (WithField (New ReferenceRequired) ''referenceExternalTransactionId'')
      else if \<not> AllowsReference k \<and> named \<noteq> []
      then Inl (WithField (New ReferenceNotApplicable) ''referenceExternalTransactionId'')
      else if named = [] then Inr ()
      else bindE (NewExternalTransactionID named) (\<lambda>_.
        if named = own
        then Inl (WithField (New InvalidFieldFormat) ''referenceExternalTransactionId'')
        else Inr ()))"

section \<open>Status\<close>

datatype status = Pending | PendingReference | Processed | Rejected | Failed | OtherStatus string

fun Status_String :: "status \<Rightarrow> string" where
  "Status_String Pending = ''PENDING''"
| "Status_String PendingReference = ''PENDING_REFERENCE''"
| "Status_String Processed = ''PROCESSED''"
| "Status_String Rejected = ''REJECTED''"
| "Status_String Failed = ''FAILED''"
| "Status_String (OtherStatus s) = s"

definition statuses :: "status list" where
  "statuses = [Pending, PendingReference, Processed, Rejected, Failed]"

definition statusOf :: "string \<Rightarrow> status" where
  "statusOf s =
     (case find (\<lambda>st. Status_String st = s) statuses of Some st \<Rightarrow> st | None \<Rightarrow> OtherStatus s)"

text \<open>The table \<^verbatim>\<open>transitions\<close>: a status with no entry reads as the empty list.\<close>

fun transitions :: "status \<Rightarrow> status list" where
  "transitions Pending = [Processed, PendingReference, Rejected, Failed]"
| "transitions PendingReference = [Processed, PendingReference, Rejected, Failed]"
| "transitions _ = []"

definition Status_Known :: "status \<Rightarrow> bool" where
  "Status_Known s \<longleftrightarrow> s \<in> set statuses"

definition ParseStatus :: "string \<Rightarrow> status res" where
  "ParseStatus s =
     (let st = statusOf s
      in if Status_Known st then Inr st else Inl (WithField (New InvalidFieldFormat) ''status''))"

definition IsTerminal :: "status \<Rightarrow> bool" where
  "IsTerminal s \<longleftrightarrow> s = Processed \<or> s = Rejected \<or> s = Failed"

definition CanTransitionTo :: "status \<Rightarrow> status \<Rightarrow> bool" where
  "CanTransitionTo s nxt \<longleftrightarrow> nxt \<in> set (transitions s)"

section \<open>Wait policy\<close>

record reference_policy =
  MaxAttempts :: int
  TTL :: duration

definition policy_validate :: "reference_policy \<Rightarrow> unit res" where
  "policy_validate p =
     (if MaxAttempts p < 1 then Inl (WithField (New InvalidFieldFormat) ''maxAttempts'')
      else if TTL p \<le> 0 then Inl (WithField (New InvalidFieldFormat) ''ttl'')
      else Inr ())"

definition NewReferencePolicy :: "int \<Rightarrow> duration \<Rightarrow> reference_policy res" where
  "NewReferencePolicy maxAttempts ttl =
     (let p = \<lparr>MaxAttempts = maxAttempts, TTL = ttl\<rparr>
      in bindE (policy_validate p) (\<lambda>_. Inr p))"

section \<open>Facts\<close>

lemmas kind_predicates =
  Kind_Known_def kinds_def Kind_IsInternal_def Kind_IsExternal_def IsReversal_def MovesMoney_def
  RequiresReference_def AllowsReference_def RequiresPositiveAmount_def RequiresZeroAmount_def

lemmas money_predicates =
  Money_IsZero_def Money_IsPositive_def Money_IsNegative_def Money_IsUninitialized_def
  Currency_IsZero_def

lemma checkAmount_Inr_iff:
  "checkAmount k m = Inr u \<longleftrightarrow> (if k = Loss then Money_IsZero m else Money_IsPositive m)"
  by (simp add: checkAmount_def RequiresZeroAmount_def)

lemma checkAmount_correctable [correctable_rules]: "refuses_correctably (checkAmount k m)"
  by (simp add: checkAmount_def)

lemma checkReference_Inr_iff:
  "checkReference k own named = Inr u \<longleftrightarrow>
     (if named = [] then \<not> IsReversal k
      else AllowsReference k \<and> opaque_ok named \<and> named \<noteq> own)"
  by (auto simp: checkReference_def RequiresReference_def AllowsReference_def
      NewExternalTransactionID_def)

lemma checkReference_correctable [correctable_rules]:
  "refuses_correctably (checkReference k own named)"
  unfolding checkReference_def NewExternalTransactionID_def
  by (intro correctable_rules) (simp_all)

lemma policy_validate_Inr_iff [simp]:
  "policy_validate p = Inr u \<longleftrightarrow> 1 \<le> MaxAttempts p \<and> 0 < TTL p"
  by (auto simp: policy_validate_def)

lemma policy_validate_correctable [correctable_rules]: "refuses_correctably (policy_validate p)"
  by (simp add: policy_validate_def)

lemma IsTerminal_no_transition: "IsTerminal s \<Longrightarrow> \<not> CanTransitionTo s nxt"
  by (cases s) (auto simp: IsTerminal_def CanTransitionTo_def)

lemma CanTransitionTo_iff:
  "CanTransitionTo s nxt \<longleftrightarrow>
     (s = Pending \<or> s = PendingReference) \<and> nxt \<in> {Processed, PendingReference, Rejected, Failed}"
  by (cases s) (auto simp: CanTransitionTo_def)

text \<open>A movement against an initialised balance of the same currency, as integers.\<close>

fun signed_by :: "direction \<Rightarrow> int \<Rightarrow> int" where
  "signed_by Credit n = n"
| "signed_by Debit n = - n"
| "signed_by (OtherDirection s) n = 0"

lemma applyDirection_eq:
  assumes "Direction_Known d" "\<not> Money_IsUninitialized b" "m_currency a = m_currency b"
  shows "applyDirection d b a =
    (let n = sint (m_units b) + signed_by d (sint (m_units a))
     in if n \<in> int64_range then Inr \<lparr>m_units = int64_of n, m_currency = m_currency b\<rparr>
        else Inl (New AmountOutOfRange))"
  using assms
  by (auto simp: Direction_Known_def Money_Add_eq Money_Sub_eq Money_IsUninitialized_def)

lemma signed_by_Opposite: "Opposite d = Some d' \<Longrightarrow> signed_by d' n = - signed_by d n"
  by (cases d) auto

end
