(* ===== verification/Ledger.thy ===== *)
theory Ledger
  imports Kinds
begin

text \<open>
  The immutable record of one balance change (\<^verbatim>\<open>src/internal/domain/wagering/ledger.go\<close>).
  Its constructor refuses an entry whose arithmetic does not hold.
\<close>

record ledger_entry =
  le_id :: ledger_entry_id
  le_walletID :: wallet_id
  le_transactionID :: transaction_id
  le_direction :: direction
  le_amount :: money
  le_balanceBefore :: money
  le_balanceAfter :: money
  le_walletVersion :: uint64
  le_createdAt :: instant

record ledger_entry_input =
  li_ID :: ledger_entry_id
  li_WalletID :: wallet_id
  li_TransactionID :: transaction_id
  li_Direction :: direction
  li_Amount :: money
  li_BalanceBefore :: money
  li_BalanceAfter :: money
  li_WalletVersion :: uint64
  li_CreatedAt :: instant

definition entry_of_input :: "ledger_entry_input \<Rightarrow> ledger_entry" where
  "entry_of_input i =
     \<lparr>le_id = li_ID i, le_walletID = li_WalletID i, le_transactionID = li_TransactionID i,
      le_direction = li_Direction i, le_amount = li_Amount i,
      le_balanceBefore = li_BalanceBefore i, le_balanceAfter = li_BalanceAfter i,
      le_walletVersion = li_WalletVersion i, le_createdAt = li_CreatedAt i\<rparr>"

definition NewWalletLedgerEntry :: "ledger_entry_input \<Rightarrow> ledger_entry res" where
  "NewWalletLedgerEntry i =
     (if ID_IsZero (li_ID i) then Inl (missing ''id'')
      else if ID_IsZero (li_WalletID i) then Inl (missing ''walletId'')
      else if ID_IsZero (li_TransactionID i) then Inl (missing ''transactionId'')
      else if li_WalletVersion i = 0 then Inl (WithField (New InvalidFieldFormat) ''walletVersion'')
      else if li_CreatedAt i = zero_time then Inl (missing ''createdAt'')
      else if \<not> Direction_Known (li_Direction i) then Inl (unknownDirection (li_Direction i))
      else if Money_IsUninitialized (li_Amount i) then Inl (uninitialized ''money'')
      else if Money_IsUninitialized (li_BalanceBefore i) then Inl (uninitialized ''balanceBefore'')
      else if Money_IsUninitialized (li_BalanceAfter i) then Inl (uninitialized ''balanceAfter'')
      else if \<not> Money_IsPositive (li_Amount i)
      then Inl (WithField (New InvalidAmountForKind) ''money'')
      else if Money_IsNegative (li_BalanceBefore i) \<or> Money_IsNegative (li_BalanceAfter i)
      then Inl (New InsufficientFunds)
      else bindE (applyDirection (li_Direction i) (li_BalanceBefore i) (li_Amount i)) (\<lambda>expected.
        if \<not> Money_Equal expected (li_BalanceAfter i)
        then Inl (WithField (New InvalidFieldFormat) ''balanceAfter'')
        else Inr (entry_of_input i)))"

definition RehydrateWalletLedgerEntry :: "ledger_entry_input \<Rightarrow> ledger_entry res" where
  "RehydrateWalletLedgerEntry i = NewWalletLedgerEntry i"

definition Entry_IsZero :: "ledger_entry \<Rightarrow> bool" where
  "Entry_IsZero e \<longleftrightarrow> ID_IsZero (le_id e)"

section \<open>What a constructed entry satisfies\<close>

text \<open>
  The invariant of an entry: identified, positive, in one currency, between two balances a
  wallet can hold, and arithmetically right.
\<close>

definition entry_ok :: "ledger_entry \<Rightarrow> bool" where
  "entry_ok e \<longleftrightarrow>
     le_id e \<noteq> 0 \<and> le_walletID e \<noteq> 0 \<and> le_transactionID e \<noteq> 0 \<and> le_walletVersion e \<noteq> 0
     \<and> le_createdAt e \<noteq> 0 \<and> Direction_Known (le_direction e)
     \<and> cur_code (m_currency (le_amount e)) \<noteq> []
     \<and> m_currency (le_balanceBefore e) = m_currency (le_amount e)
     \<and> m_currency (le_balanceAfter e) = m_currency (le_amount e)
     \<and> 0 < sint (m_units (le_amount e))
     \<and> 0 \<le> sint (m_units (le_balanceBefore e))
     \<and> 0 \<le> sint (m_units (le_balanceAfter e))
     \<and> sint (m_units (le_balanceAfter e)) =
         sint (m_units (le_balanceBefore e)) + signed_by (le_direction e) (sint (m_units (le_amount e)))"

lemma applyDirection_Inr_iff:
  assumes "Direction_Known d"
  shows "applyDirection d b a = Inr c \<longleftrightarrow>
    \<not> Money_IsUninitialized b \<and> m_currency a = m_currency b
    \<and> sint (m_units b) + signed_by d (sint (m_units a)) \<in> int64_range
    \<and> c = \<lparr>m_units = int64_of (sint (m_units b) + signed_by d (sint (m_units a))),
           m_currency = m_currency b\<rparr>"
  using assms
  by (auto simp: Direction_Known_def Money_Add_eq Money_Sub_eq Money_IsUninitialized_def
      split: if_splits)

lemma NewWalletLedgerEntry_Inr_iff:
  "NewWalletLedgerEntry i = Inr e \<longleftrightarrow> e = entry_of_input i \<and> entry_ok e"
proof -
  have "Money_Equal \<lparr>m_units = int64_of n, m_currency = cur\<rparr> c \<longleftrightarrow>
      cur_code cur \<noteq> [] \<and> m_currency c = cur \<and> sint (m_units c) = n"
    if "n \<in> int64_range" for n cur and c :: money
    using that int64_of_eq_iff [of n "m_units c"]
    by (cases c) (auto simp: Money_Equal_def money_predicates)
  note eq = this
  show ?thesis
  proof (cases "Direction_Known (li_Direction i)")
    case False
    then show ?thesis by (auto simp: NewWalletLedgerEntry_def entry_ok_def entry_of_input_def)
  next
    case True
    have rng: "n \<in> int64_range" if "sint (m_units (li_BalanceAfter i)) = n" for n
      using that sint_in_range [of "m_units (li_BalanceAfter i)"] by simp
    from True show ?thesis
      by (auto simp: NewWalletLedgerEntry_def entry_ok_def entry_of_input_def applyDirection_Inr_iff
          eq ID_IsZero_def money_predicates sless_int not_less rng)
  qed
qed

section \<open>Properties\<close>

text \<open>
  An entry that misreports a movement cannot be built. The constructor, and with it
  rehydration from storage, returns the entry it was given exactly when every field is
  present, the amount is positive, neither balance is negative, and the balance after is
  the balance before plus or minus the amount according to the direction.
\<close>

theorem ledger_entry_constructor_exact:
  "(NewWalletLedgerEntry i = Inr e \<longleftrightarrow> e = entry_of_input i \<and> entry_ok e)
   \<and> RehydrateWalletLedgerEntry i = NewWalletLedgerEntry i"
  by (simp add: NewWalletLedgerEntry_Inr_iff RehydrateWalletLedgerEntry_def)

end
