(* ===== verification/Command.thy ===== *)
theory Command
  imports Kinds
begin

text \<open>
  The command a provider submits and its validation
  (\<^verbatim>\<open>src/internal/domain/wagering/command.go\<close>).
\<close>

record command =
  c_TransactionID :: transaction_id
  c_LedgerEntryID :: ledger_entry_id
  c_WalletID :: wallet_id
  c_Provider :: provider
  c_ExternalTransactionID :: external_id
  c_IdempotencyKey :: idempotency_key
  c_PlayerID :: player_id
  c_RoundID :: round_id
  c_GameID :: game_id
  c_Kind :: kind
  c_Money :: money
  c_ReferenceExternalTransactionID :: external_id

definition provider_fields_of :: "command \<Rightarrow> provider_fields" where
  "provider_fields_of c =
     \<lparr>pf_Provider = c_Provider c, pf_ExternalTransactionID = c_ExternalTransactionID c,
      pf_IdempotencyKey = c_IdempotencyKey c, pf_PlayerID = c_PlayerID c,
      pf_RoundID = c_RoundID c, pf_GameID = c_GameID c\<rparr>"

definition Command_Validate :: "command \<Rightarrow> unit res" where
  "Command_Validate c =
     (if \<not> Kind_Known (c_Kind c) then Inl (WithField (New InvalidFieldFormat) ''kind'')
      else if Kind_IsInternal (c_Kind c)
      then Inl (WithField (New UnsupportedTransactionKind) ''kind'')
      else if ID_IsZero (c_TransactionID c) then Inl (missing ''transactionId'')
      else if ID_IsZero (c_WalletID c) then Inl (missing ''walletId'')
      else if MovesMoney (c_Kind c) \<and> ID_IsZero (c_LedgerEntryID c)
      then Inl (WithField (New MissingRequiredField) ''ledgerEntryId'')
      else if \<not> MovesMoney (c_Kind c) \<and> \<not> ID_IsZero (c_LedgerEntryID c)
      then Inl (WithField (New ReferenceNotApplicable) ''ledgerEntryId'')
      else bindE (validateProviderFields (provider_fields_of c)) (\<lambda>_.
        if Money_IsUninitialized (c_Money c) then Inl (uninitialized ''money'')
        else if Money_IsNegative (c_Money c)
        then Inl (WithField (New InvalidAmountFormat) ''money'')
        else bindE (checkAmount (c_Kind c) (c_Money c)) (\<lambda>_.
          checkReference (c_Kind c) (c_ExternalTransactionID c)
            (c_ReferenceExternalTransactionID c))))"

definition namesReference :: "command \<Rightarrow> bool" where
  "namesReference c \<longleftrightarrow> AllowsReference (c_Kind c) \<and> c_ReferenceExternalTransactionID c \<noteq> []"

section \<open>What validation accepts\<close>

text \<open>The same conditions without their order, which only decides the error reported.\<close>

definition command_ok :: "command \<Rightarrow> bool" where
  "command_ok c \<longleftrightarrow>
     Kind_IsExternal (c_Kind c)
     \<and> c_TransactionID c \<noteq> 0 \<and> c_WalletID c \<noteq> 0
     \<and> (MovesMoney (c_Kind c) \<longleftrightarrow> c_LedgerEntryID c \<noteq> 0)
     \<and> opaque_ok (c_Provider c) \<and> opaque_ok (c_ExternalTransactionID c)
     \<and> opaque_ok (c_IdempotencyKey c) \<and> opaque_ok (c_PlayerID c)
     \<and> opaque_ok (c_RoundID c) \<and> opaque_ok (c_GameID c)
     \<and> cur_code (m_currency (c_Money c)) \<noteq> []
     \<and> (if c_Kind c = Loss then sint (m_units (c_Money c)) = 0
        else 0 < sint (m_units (c_Money c)))
     \<and> (if c_ReferenceExternalTransactionID c = [] then \<not> IsReversal (c_Kind c)
        else AllowsReference (c_Kind c) \<and> opaque_ok (c_ReferenceExternalTransactionID c)
             \<and> c_ReferenceExternalTransactionID c \<noteq> c_ExternalTransactionID c)"

lemma sint_zero_iff_int64: "sint (a :: int64) = 0 \<longleftrightarrow> a = 0"
  using sint_inj [of a 0] by auto

lemma money_checks:
  "\<not> Money_IsUninitialized m \<and> \<not> Money_IsNegative m \<and> checkAmount k m = Inr u \<longleftrightarrow>
   cur_code (m_currency m) \<noteq> []
   \<and> (if k = Loss then sint (m_units m) = 0 else 0 < sint (m_units m))"
  by (auto simp: checkAmount_Inr_iff money_predicates sless_int sint_zero_iff_int64)

lemma Command_Validate_Inr_iff: "Command_Validate c = Inr u \<longleftrightarrow> command_ok c"
proof -
  have "Command_Validate c = Inr u \<longleftrightarrow>
      Kind_IsExternal (c_Kind c)
      \<and> c_TransactionID c \<noteq> 0 \<and> c_WalletID c \<noteq> 0
      \<and> (MovesMoney (c_Kind c) \<longleftrightarrow> c_LedgerEntryID c \<noteq> 0)
      \<and> validateProviderFields (provider_fields_of c) = Inr ()
      \<and> (\<not> Money_IsUninitialized (c_Money c) \<and> \<not> Money_IsNegative (c_Money c)
         \<and> checkAmount (c_Kind c) (c_Money c) = Inr ())
      \<and> checkReference (c_Kind c) (c_ExternalTransactionID c)
          (c_ReferenceExternalTransactionID c) = Inr ()"
    by (auto simp: Command_Validate_def Kind_IsExternal_def ID_IsZero_def)
  then show ?thesis
    by (simp add: command_ok_def money_checks validateProviderFields_Inr_iff checkReference_Inr_iff
        provider_fields_of_def)
qed

lemma Command_Validate_correctable [correctable_rules]:
  "refuses_correctably (Command_Validate c)"
  unfolding Command_Validate_def by (intro correctable_rules) simp_all

section \<open>A sample command\<close>

text \<open>A valid command of each kind, at which properties with hypotheses are applied.\<close>

definition brl :: "int64 \<Rightarrow> money" where
  "brl n = \<lparr>m_units = n, m_currency = \<lparr>cur_code = ''BRL''\<rparr>\<rparr>"

definition sample_command :: "kind \<Rightarrow> int64 \<Rightarrow> external_id \<Rightarrow> command" where
  "sample_command k n ref =
     \<lparr>c_TransactionID = 11, c_LedgerEntryID = (if k = Loss then 0 else 12), c_WalletID = 13,
      c_Provider = ''acme'', c_ExternalTransactionID = ''ext-1'', c_IdempotencyKey = ''key-1'',
      c_PlayerID = ''player-1'', c_RoundID = ''round-1'', c_GameID = ''game-1'', c_Kind = k,
      c_Money = brl n, c_ReferenceExternalTransactionID = ref\<rparr>"

lemma sample_opaque [simp]:
  "opaque_ok ''acme''" "opaque_ok ''ext-0''" "opaque_ok ''ext-1''" "opaque_ok ''key-1''"
  "opaque_ok ''player-1''" "opaque_ok ''round-1''" "opaque_ok ''game-1''"
  by (rule opaque_ok_ascii; simp)+

lemma sample_bet_ok: "command_ok (sample_command Bet 500 [])"
  and sample_refund_ok: "command_ok (sample_command Refund 500 ''ext-0'')"
  by (simp_all add: command_ok_def sample_command_def brl_def kind_predicates)

section \<open>Properties\<close>

text \<open>
  Validation of a command is exact and every refusal is correctable. A command passes
  exactly when its kind is external, its identifiers are present and well formed, a ledger
  entry identifier is there if and only if its kind moves money, its amount is zero for a
  loss and positive otherwise, and its reference follows the rules of its kind; and whatever
  failure validation reports instead, the provider may repair and resubmit.
\<close>

theorem command_validation_exact:
  "case Command_Validate c of
     Inr _ \<Rightarrow> command_ok c
   | Inl e \<Rightarrow> \<not> command_ok c \<and> Correctable (CodeOf e)"
  using Command_Validate_correctable [of c] Command_Validate_Inr_iff [of c "()"]
  by (auto simp: refuses_correctably_def split: sum.splits)

end
