(* ===== verification/Idempotency.thy ===== *)
theory Idempotency
  imports Command Sha256
begin

text \<open>
  The idempotency fingerprint (\<^verbatim>\<open>src/internal/domain/wagering/idempotency.go\<close>): the canonical
  JSON payload of a command's business fields, written byte by byte, and its SHA-256.

  The locale \<open>prefix_code\<close> states the one law the payload needs of the encoding of each of
  its values: after reading an encoded value, a reader knows the value and where it ends.
  It is interpreted on the JSON string encoder and on the quoted amount, and the payload's
  injectivity is a sequence of its laws.
\<close>

type_synonym payload_hash = string

section \<open>The encoder\<close>

definition canonicalPayloadReserve :: nat where
  "canonicalPayloadReserve = 640"

text \<open>The branch of the switch for one byte that needs escaping.\<close>

definition json_escape :: "char \<Rightarrow> string" where
  "json_escape ch =
     (if ch = CHR 0x22 then [CHR 0x5C, CHR 0x22]
      else if ch = CHR 0x5C then [CHR 0x5C, CHR 0x5C]
      else if ch = CHR 0x08 then [CHR 0x5C, CHR ''b'']
      else if ch = CHR 0x0C then [CHR 0x5C, CHR ''f'']
      else if ch = CHR 0x0A then [CHR 0x5C, CHR ''n'']
      else if ch = CHR 0x0D then [CHR 0x5C, CHR ''r'']
      else if ch = CHR 0x09 then [CHR 0x5C, CHR ''t'']
      else [CHR 0x5C, CHR ''u'', CHR ''0'', CHR ''0'',
            hex_digit ((of_char ch :: nat) div 16), hex_digit ((of_char ch :: nat) mod 16)])"

definition json_plain :: "char \<Rightarrow> bool" where
  "json_plain ch \<longleftrightarrow> asciiSpace \<le> (of_char ch :: nat) \<and> ch \<noteq> CHR 0x22 \<and> ch \<noteq> CHR 0x5C"

text \<open>One iteration of the loop: \<open>dst\<close> is the buffer and \<open>start\<close> where the pending run begins.\<close>

definition json_step :: "string \<Rightarrow> nat \<Rightarrow> string \<times> nat \<Rightarrow> string \<times> nat" where
  "json_step s i st =
     (if json_plain (s ! i) then st
      else (fst st @ drop (snd st) (take i s) @ json_escape (s ! i), i + 1))"

definition appendJSONString :: "string \<Rightarrow> string \<Rightarrow> string" where
  "appendJSONString dst s =
     (let st = fold (json_step s) [0..<length s] (dst @ [CHR 0x22], 0)
      in fst st @ drop (snd st) s @ [CHR 0x22])"

definition appendFirstJSONField :: "string \<Rightarrow> string \<Rightarrow> string \<Rightarrow> string" where
  "appendFirstJSONField dst key val =
     (let dst = appendJSONString dst key; dst = dst @ [CHR '':''] in appendJSONString dst val)"

definition appendJSONField :: "string \<Rightarrow> string \<Rightarrow> string \<Rightarrow> string" where
  "appendJSONField dst key val = appendFirstJSONField (dst @ [CHR '','']) key val"

definition appendCanonicalPayload :: "command \<Rightarrow> string \<Rightarrow> string" where
  "appendCanonicalPayload c dst =
     (let dst = dst @ [CHR 0x7B];
          dst = appendFirstJSONField dst ''externalTransactionId'' (c_ExternalTransactionID c);
          dst = appendJSONField dst ''gameId'' (c_GameID c);
          dst = appendJSONField dst ''kind'' (Kind_String (c_Kind c));
          dst = dst @ '',\"money\":{\"amount\":\"'';
          dst = AppendAmount (c_Money c) dst;
          dst = dst @ [CHR 0x22];
          dst = appendJSONField dst ''currency'' (Currency_String (m_currency (c_Money c)));
          dst = dst @ [CHR 0x7D];
          dst = appendJSONField dst ''playerId'' (c_PlayerID c);
          dst = appendJSONField dst ''providerId'' (c_Provider c);
          dst = (if c_ReferenceExternalTransactionID c \<noteq> []
                 then appendJSONField dst ''referenceExternalTransactionId''
                        (c_ReferenceExternalTransactionID c)
                 else dst);
          dst = appendJSONField dst ''roundId'' (c_RoundID c);
          dst = appendJSONField dst ''walletId'' (uuid_String (c_WalletID c))
      in dst @ [CHR 0x7D])"

definition CanonicalPayload :: "command \<Rightarrow> string" where
  "CanonicalPayload c = appendCanonicalPayload c []"

definition payloadHash :: "command \<Rightarrow> payload_hash" where
  "payloadHash c = sha256_hex (appendCanonicalPayload c [])"

definition PayloadHash :: "command \<Rightarrow> payload_hash res" where
  "PayloadHash c = bindE (Command_Validate c) (\<lambda>_. Inr (payloadHash c))"

section \<open>The loop copies runs and escapes the rest\<close>

definition json_char :: "char \<Rightarrow> string" where
  "json_char ch = (if json_plain ch then [ch] else json_escape ch)"

definition json_string :: "string \<Rightarrow> string" where
  "json_string s = CHR 0x22 # concat (map json_char s) @ [CHR 0x22]"

lemma json_loop:
  assumes "i \<le> length s"
  shows "(let st = fold (json_step s) [0..<i] (dst, 0)
          in snd st \<le> i \<and> fst st @ drop (snd st) (take i s) = dst @ concat (map json_char (take i s)))"
  using assms
proof (induction i)
  case 0
  then show ?case by simp
next
  case (Suc i)
  define st where "st = fold (json_step s) [0..<i] (dst, 0)"
  from Suc have le: "snd st \<le> i"
    and ih: "fst st @ drop (snd st) (take i s) = dst @ concat (map json_char (take i s))"
    by (simp_all add: st_def Let_def)
  have t: "take (Suc i) s = take i s @ [s ! i]" using Suc.prems by (simp add: take_Suc_conv_app_nth)
  have m: "min (length s) i = i" using Suc.prems by simp
  have "fold (json_step s) [0..<Suc i] (dst, 0) = json_step s i st" by (simp add: st_def)
  moreover have "snd (json_step s i st) \<le> Suc i" using le by (simp add: json_step_def)
  moreover have "fst (json_step s i st) @ drop (snd (json_step s i st)) (take (Suc i) s)
      = dst @ concat (map json_char (take (Suc i) s))"
    using ih [symmetric] le by (simp add: json_step_def t m json_char_def)
  ultimately show ?case by (simp add: Let_def)
qed

lemma appendJSONString_eq: "appendJSONString dst s = dst @ json_string s"
  using json_loop [of "length s" s "dst @ [CHR 0x22]"]
  by (simp add: appendJSONString_def json_string_def Let_def flip: append_assoc)

section \<open>Prefix codes\<close>

locale prefix_code =
  fixes enc :: "'a \<Rightarrow> string"
  assumes delimited: "enc a @ r = enc b @ r' \<Longrightarrow> a = b \<and> r = r'"
begin

lemma delimited_iff: "enc a @ r = enc b @ r' \<longleftrightarrow> a = b \<and> r = r'"
  using delimited by blast

lemma delimited_inj: "enc a = enc b \<longleftrightarrow> a = b"
  using delimited [of a "[]" b "[]"] by auto

end

text \<open>
  Two encoded characters that start two equal strings are the same character: a plain one
  is itself, an escaped one starts with a backslash and is told apart by what follows.
\<close>

lemma json_escape_shape:
  "json_escape ch = CHR 0x5C # tl (json_escape ch)"
  by (simp add: json_escape_def)

lemma of_char_less_256: "(of_char ch :: nat) < 256"
  using of_char_mod_256 [of ch, where ?'a = nat] by (metis mod_less_divisor zero_less_numeral)

lemma json_escape_delimited:
  assumes "json_escape a @ r = json_escape b @ r'"
  shows "a = b \<and> r = r'"
proof -
  have hex: "x = y"
    if "hex_digit ((of_char x :: nat) div 16) = hex_digit ((of_char y :: nat) div 16)"
      "hex_digit ((of_char x :: nat) mod 16) = hex_digit ((of_char y :: nat) mod 16)" for x y :: char
  proof -
    have "(of_char x :: nat) div 16 < 16" "(of_char y :: nat) div 16 < 16"
      using of_char_less_256 [of x] of_char_less_256 [of y] by (simp_all add: div_less_iff_less_mult)
    with that have "(of_char x :: nat) div 16 = of_char y div 16"
      "(of_char x :: nat) mod 16 = of_char y mod 16"
      using hex_digit_inj by auto
    then have "(of_char x :: nat) = of_char y" by (metis div_mult_mod_eq)
    then show ?thesis by simp
  qed
  from assms show ?thesis
    by (simp add: json_escape_def split: if_splits) (use hex in blast)
qed

lemma json_char_delimited:
  assumes "json_char a @ r = json_char b @ r'"
  shows "a = b \<and> r = r'"
proof -
  have plain: "x \<noteq> CHR 0x5C" if "json_plain x" for x using that by (simp add: json_plain_def)
  show ?thesis
    using assms json_escape_delimited [of a r b r'] json_escape_shape [of a] json_escape_shape [of b]
      plain [of a] plain [of b]
    by (auto simp: json_char_def split: if_splits) (metis append_Cons list.inject)+
qed

lemma json_char_no_quote: "hd (json_char a @ r) \<noteq> CHR 0x22" "json_char a \<noteq> []"
  by (auto simp: json_char_def json_plain_def json_escape_def)

lemma json_chars_delimited:
  "concat (map json_char a) @ CHR 0x22 # r = concat (map json_char b) @ CHR 0x22 # r' \<Longrightarrow>
   a = b \<and> r = r'"
proof (induction a arbitrary: b)
  case Nil
  then show ?case
  proof (cases b)
    case (Cons y ys)
    with Nil have "hd (json_char y @ concat (map json_char ys) @ CHR 0x22 # r') = CHR 0x22"
      by (metis append_Nil append_assoc concat.simps list.sel(1) list.simps(8,9))
    then show ?thesis using json_char_no_quote(1) by blast
  qed simp
next
  case (Cons x xs)
  show ?case
  proof (cases b)
    case Nil
    with Cons.prems have "hd (json_char x @ concat (map json_char xs) @ CHR 0x22 # r) = CHR 0x22"
      by simp
    then show ?thesis using json_char_no_quote(1) by blast
  next
    case b: (Cons y ys)
    from Cons.prems have "json_char x @ concat (map json_char xs) @ CHR 0x22 # r
        = json_char y @ concat (map json_char ys) @ CHR 0x22 # r'"
      by (simp add: b)
    from json_char_delimited [OF this] Cons.IH [of ys] show ?thesis by (simp add: b)
  qed
qed

interpretation jstr: prefix_code json_string
proof unfold_locales
  show "json_string a @ r = json_string b @ r' \<Longrightarrow> a = b \<and> r = r'" for a r b r'
    using json_chars_delimited [of a r b r'] by (simp add: json_string_def)
qed

text \<open>The amount with its closing quote, as a function of the units.\<close>

definition quoted_amount :: "int64 \<Rightarrow> string" where
  "quoted_amount u = amountInto \<lparr>m_units = u, m_currency = \<lparr>cur_code = []\<rparr>\<rparr> @ [CHR 0x22]"

lemma show_units_inj: "show_units n = show_units m \<Longrightarrow> n = m"
proof -
  assume eq: "show_units n = show_units m"
  then have "show_nat (n div 100) = show_nat (m div 100) \<and> two_digits (n mod 100) = two_digits (m mod 100)"
    unfolding show_units_def by (subst (asm) append_eq_append_conv) (auto simp: two_digits_def)
  then have "dec_val (show_nat (n div 100)) = dec_val (show_nat (m div 100))"
    "dec_val (two_digits (n mod 100)) = dec_val (two_digits (m mod 100))" by simp_all
  then have "n div 100 = m div 100" "n mod 100 = m mod 100"
    by (simp_all add: dec_val_show_nat dec_val_two_digits)
  then show "n = m" by (metis div_mult_mod_eq)
qed

lemma amountInto_currency: "amountInto \<lparr>m_units = u, m_currency = a\<rparr> = amountInto \<lparr>m_units = u, m_currency = b\<rparr>"
  by (simp add: amountInto_eq)

lemma amount_no_quote: "CHR 0x22 \<notin> set (amountInto m)"
proof -
  have "list_all is_digit (show_nat n)" for n
    using canonical_show_nat [of n] by (simp add: canonical_digits_def)
  then have "\<forall>c \<in> set (show_units n). is_digit c \<or> c = CHR ''.''" for n
    using dec_val_two_digits [of "n mod 100"] by (auto simp: show_units_def list_all_iff)
  moreover have "\<not> is_digit CHR 0x22" by (simp add: is_digit_def)
  ultimately show ?thesis by (auto simp: amountInto_eq)
qed

lemma amountInto_units_inj:
  assumes "amountInto m = amountInto m'"
  shows "m_units m = m_units m'"
proof -
  let ?i = "sint (m_units m)" and ?j = "sint (m_units m')"
  have minus: "show_units n \<noteq> CHR ''-'' # t" for n t
  proof
    assume eq: "show_units n = CHR ''-'' # t"
    have "show_nat (n div 100) \<noteq> []" "list_all is_digit (show_nat (n div 100))"
      using canonical_show_nat [of "n div 100"] by (auto simp: canonical_digits_def)
    with eq have "is_digit CHR ''-''" by (cases "show_nat (n div 100)") (auto simp: show_units_def)
    then show False by (simp add: is_digit_def)
  qed
  from assms have "(?i < 0 \<longleftrightarrow> ?j < 0) \<and> show_units (nat \<bar>?i\<bar>) = show_units (nat \<bar>?j\<bar>)"
    using minus minus [symmetric] by (auto simp: amountInto_eq split: if_splits)
  then have "?i = ?j" using show_units_inj [of "nat \<bar>?i\<bar>" "nat \<bar>?j\<bar>"] by linarith
  then show ?thesis by (simp add: sint_inj)
qed

lemma append_delim:
  "x \<notin> set a \<Longrightarrow> x \<notin> set b \<Longrightarrow> a @ x # r = b @ x # r' \<longleftrightarrow> a = b \<and> r = r'"
proof (induction a arbitrary: b)
  case Nil
  then show ?case by (cases b) auto
next
  case (Cons y ys)
  then show ?case by (cases b) auto
qed

interpretation jamount: prefix_code quoted_amount
proof unfold_locales
  fix a b :: int64 and r r'
  assume "quoted_amount a @ r = quoted_amount b @ r'"
  then have "amountInto \<lparr>m_units = a, m_currency = \<lparr>cur_code = []\<rparr>\<rparr>
      = amountInto \<lparr>m_units = b, m_currency = \<lparr>cur_code = []\<rparr>\<rparr> \<and> r = r'"
    by (simp add: quoted_amount_def append_delim amount_no_quote)
  then show "a = b \<and> r = r'" by (auto dest: amountInto_units_inj)
qed

section \<open>The payload as a sequence of encoded values\<close>

definition json_field :: "string \<Rightarrow> string \<Rightarrow> string" where
  "json_field key val = json_string key @ CHR '':'' # json_string val"

definition reference_part :: "external_id \<Rightarrow> string \<Rightarrow> string" where
  "reference_part ref rest =
     (if ref = [] then rest
      else CHR '','' # json_field ''referenceExternalTransactionId'' ref @ rest)"

lemma append_fields:
  "appendFirstJSONField dst key val = dst @ json_field key val"
  "appendJSONField dst key val = dst @ CHR '','' # json_field key val"
  by (simp_all add: appendFirstJSONField_def appendJSONField_def appendJSONString_eq json_field_def)

lemma CanonicalPayload_eq:
  "appendCanonicalPayload c dst =
     dst @ CHR 0x7B # json_field ''externalTransactionId'' (c_ExternalTransactionID c)
     @ CHR '','' # json_field ''gameId'' (c_GameID c)
     @ CHR '','' # json_field ''kind'' (Kind_String (c_Kind c))
     @ '',\"money\":{\"amount\":\"'' @ quoted_amount (m_units (c_Money c))
     @ CHR '','' # json_field ''currency'' (cur_code (m_currency (c_Money c)))
     @ CHR 0x7D # CHR '','' # json_field ''playerId'' (c_PlayerID c)
     @ CHR '','' # json_field ''providerId'' (c_Provider c)
     @ reference_part (c_ReferenceExternalTransactionID c)
         (CHR '','' # json_field ''roundId'' (c_RoundID c)
          @ CHR '','' # json_field ''walletId'' (uuid_String (c_WalletID c)) @ [CHR 0x7D])"
proof -
  have "amountInto (c_Money c)
      = amountInto \<lparr>m_units = m_units (c_Money c), m_currency = \<lparr>cur_code = []\<rparr>\<rparr>"
    by (cases "c_Money c") (simp add: amountInto_currency)
  then show ?thesis
    by (simp add: appendCanonicalPayload_def Let_def append_fields AppendAmount_def
        quoted_amount_def reference_part_def Currency_String_def)
qed

lemma json_field_delimited [simp]:
  "json_field k v @ r = json_field k' v' @ r' \<longleftrightarrow> k = k' \<and> v = v' \<and> r = r'"
  by (auto simp: json_field_def jstr.delimited_iff)

lemma json_field_inj [simp]: "json_field k v = json_field k' v' \<longleftrightarrow> k = k' \<and> v = v'"
  using json_field_delimited [of k v "[]" k' v' "[]"] by simp

lemma reference_part_delimited:
  "reference_part a (CHR '','' # json_field ''roundId'' v @ r)
     = reference_part b (CHR '','' # json_field ''roundId'' w @ r') \<longleftrightarrow>
   a = b \<and> v = w \<and> r = r'"
  by (auto simp: reference_part_def)

section \<open>Properties\<close>

text \<open>The business fields of a command, which are all a fingerprint may depend on.\<close>

definition same_business :: "command \<Rightarrow> command \<Rightarrow> bool" where
  "same_business c c' \<longleftrightarrow>
     c_ExternalTransactionID c = c_ExternalTransactionID c' \<and> c_GameID c = c_GameID c'
     \<and> Kind_String (c_Kind c) = Kind_String (c_Kind c') \<and> c_Money c = c_Money c'
     \<and> c_PlayerID c = c_PlayerID c' \<and> c_Provider c = c_Provider c'
     \<and> c_ReferenceExternalTransactionID c = c_ReferenceExternalTransactionID c'
     \<and> c_RoundID c = c_RoundID c' \<and> c_WalletID c = c_WalletID c'"

lemma appendCanonicalPayload_eq_iff:
  "appendCanonicalPayload c dst = appendCanonicalPayload c' dst \<longleftrightarrow> same_business c c'"
proof -
  have "m = m' \<longleftrightarrow> m_units m = m_units m' \<and> cur_code (m_currency m) = cur_code (m_currency m')"
    for m m' :: money
    by (cases m; cases m'; cases "m_currency m"; cases "m_currency m'") auto
  moreover have "uuid_String u = uuid_String v \<longleftrightarrow> u = v" for u v by (rule uuid_String_inj)
  ultimately show ?thesis
    by (auto simp: CanonicalPayload_eq same_business_def jamount.delimited_iff
        reference_part_delimited)
qed

lemma payloadHash_same_business: "same_business c c' \<Longrightarrow> payloadHash c = payloadHash c'"
  using appendCanonicalPayload_eq_iff [of c "[]" c'] by (simp add: payloadHash_def)

text \<open>
  C34: the canonical payload is injective on the business fields and blind to everything
  else. Two commands have the same payload exactly when they agree on provider, external
  identifier, kind, amount, currency, player, wallet, round, game and reference; the
  idempotency key and the identifiers the system mints do not enter it. The minimal
  escaping can therefore never make two different operations look alike, whatever bytes a
  provider sends.
\<close>

theorem canonical_payload_injective:
  "CanonicalPayload c = CanonicalPayload c' \<longleftrightarrow> same_business c c'"
  by (simp add: CanonicalPayload_def appendCanonicalPayload_eq_iff)

text \<open>
  The fingerprint of a command exists exactly when the command is valid, is then
  sixty-four characters long, and is unchanged by a new idempotency key and by the
  identifiers the system mints, so a retry is always recognised as the same payload.
\<close>

theorem payload_hash_stable:
  "(case PayloadHash c of Inr h \<Rightarrow> command_ok c \<and> length h = 64 | Inl e \<Rightarrow> \<not> command_ok c)
   \<and> payloadHash (c\<lparr>c_TransactionID := t, c_LedgerEntryID := l, c_IdempotencyKey := k\<rparr>)
     = payloadHash c"
proof
  show "case PayloadHash c of Inr h \<Rightarrow> command_ok c \<and> length h = 64 | Inl e \<Rightarrow> \<not> command_ok c"
    using Command_Validate_Inr_iff [of c]
    by (auto simp: PayloadHash_def bindE_Inl_iff payloadHash_def length_sha256_hex split: sum.splits)
  show "payloadHash (c\<lparr>c_TransactionID := t, c_LedgerEntryID := l, c_IdempotencyKey := k\<rparr>)
      = payloadHash c"
    by (rule payloadHash_same_business) (simp add: same_business_def)
qed

end
