(* ===== verification/Transaction.thy ===== *)
theory Transaction
  imports Idempotency
begin

text \<open>
  The wager transaction (\<^verbatim>\<open>src/internal/domain/wagering/transaction.go\<close>): its record, its two
  constructors, its accessors and the operations that change it.

  A method with a pointer receiver becomes a function from the transaction to an error or
  the changed transaction. Every such method of the source either returns an error before
  its first assignment or succeeds, so the transaction after an error is the one it was
  called with. The attempt counter is a Go \<^verbatim>\<open>int\<close>; it is unbounded here and shown to stay
  within the policy's maximum.
\<close>

section \<open>Data\<close>

record external_details =
  x_provider :: provider
  x_externalTransactionID :: external_id
  x_idempotencyKey :: idempotency_key
  x_payloadHash :: payload_hash
  x_roundID :: round_id
  x_gameID :: game_id
  x_referenceExternalID :: external_id
  x_resolvedReferenceID :: transaction_id

record wager_transaction =
  tx_id :: transaction_id
  tx_walletID :: wallet_id
  tx_playerID :: player_id
  tx_kind :: kind
  tx_amount :: money
  tx_status :: status
  tx_createdAt :: instant
  tx_updatedAt :: instant
  tx_external :: "external_details option"
  tx_result :: money
  tx_failureCode :: code
  tx_referenceAttempts :: int
  tx_referenceDeadline :: instant

record open_wallet_input =
  ow_WalletID :: wallet_id
  ow_PlayerID :: player_id
  ow_InitialBalance :: money
  ow_TransactionID :: transaction_id
  ow_LedgerEntryID :: ledger_entry_id

section \<open>Construction\<close>

definition external_of_command :: "command \<Rightarrow> external_details" where
  "external_of_command cmd =
     \<lparr>x_provider = c_Provider cmd, x_externalTransactionID = c_ExternalTransactionID cmd,
      x_idempotencyKey = c_IdempotencyKey cmd, x_payloadHash = payloadHash cmd,
      x_roundID = c_RoundID cmd, x_gameID = c_GameID cmd,
      x_referenceExternalID = c_ReferenceExternalTransactionID cmd,
      x_resolvedReferenceID = 0\<rparr>"

definition pending_transaction :: "command \<Rightarrow> wallet_id \<Rightarrow> instant \<Rightarrow> wager_transaction" where
  "pending_transaction cmd walletID now =
     \<lparr>tx_id = c_TransactionID cmd, tx_walletID = walletID, tx_playerID = c_PlayerID cmd,
      tx_kind = c_Kind cmd, tx_amount = c_Money cmd, tx_status = Pending,
      tx_createdAt = now, tx_updatedAt = now, tx_external = Some (external_of_command cmd),
      tx_result = no_money, tx_failureCode = no_code,
      tx_referenceAttempts = 0, tx_referenceDeadline = zero_time\<rparr>"

definition NewExternalTransaction :: "command \<Rightarrow> wallet_id \<Rightarrow> instant \<Rightarrow> wager_transaction res" where
  "NewExternalTransaction cmd walletID now =
     bindE (Command_Validate cmd) (\<lambda>_.
       if ID_IsZero walletID then Inl (missing ''walletId'')
       else if now = zero_time then Inl (missing ''now'')
       else Inr (pending_transaction cmd walletID now))"

definition opening_transaction :: "open_wallet_input \<Rightarrow> instant \<Rightarrow> wager_transaction" where
  "opening_transaction i now =
     \<lparr>tx_id = ow_TransactionID i, tx_walletID = ow_WalletID i, tx_playerID = ow_PlayerID i,
      tx_kind = Opening, tx_amount = ow_InitialBalance i, tx_status = Processed,
      tx_createdAt = now, tx_updatedAt = now, tx_external = None,
      tx_result = ow_InitialBalance i, tx_failureCode = no_code,
      tx_referenceAttempts = 0, tx_referenceDeadline = zero_time\<rparr>"

definition newOpeningTransaction :: "open_wallet_input \<Rightarrow> instant \<Rightarrow> wager_transaction res" where
  "newOpeningTransaction i now =
     (let amount = ow_InitialBalance i
      in if ID_IsZero (ow_TransactionID i) then Inl (missing ''transactionId'')
         else if ID_IsZero (ow_WalletID i) then Inl (missing ''walletId'')
         else if ow_PlayerID i = [] then Inl (missing ''playerId'')
         else if Money_IsUninitialized amount then Inl (uninitialized ''money'')
         else if \<not> Money_IsPositive amount
         then Inl (WithField (New InvalidAmountForKind) ''money'')
         else if now = zero_time then Inl (missing ''now'')
         else Inr (opening_transaction i now))"

section \<open>Accessors\<close>

definition Tx_Currency :: "wager_transaction \<Rightarrow> currency" where
  "Tx_Currency t = m_currency (tx_amount t)"

definition Tx_IsExternal :: "wager_transaction \<Rightarrow> bool" where
  "Tx_IsExternal t \<longleftrightarrow> tx_external t \<noteq> None"

definition Tx_IsInternal :: "wager_transaction \<Rightarrow> bool" where
  "Tx_IsInternal t \<longleftrightarrow> tx_external t = None"

definition Tx_Provider :: "wager_transaction \<Rightarrow> provider option" where
  "Tx_Provider t = map_option x_provider (tx_external t)"

definition Tx_ExternalTransactionID :: "wager_transaction \<Rightarrow> external_id option" where
  "Tx_ExternalTransactionID t = map_option x_externalTransactionID (tx_external t)"

definition Tx_IdempotencyKey :: "wager_transaction \<Rightarrow> idempotency_key option" where
  "Tx_IdempotencyKey t = map_option x_idempotencyKey (tx_external t)"

definition Tx_PayloadHash :: "wager_transaction \<Rightarrow> payload_hash option" where
  "Tx_PayloadHash t = map_option x_payloadHash (tx_external t)"

definition Tx_RoundID :: "wager_transaction \<Rightarrow> round_id option" where
  "Tx_RoundID t = map_option x_roundID (tx_external t)"

definition Tx_GameID :: "wager_transaction \<Rightarrow> game_id option" where
  "Tx_GameID t = map_option x_gameID (tx_external t)"

definition Tx_ReferenceExternalTransactionID :: "wager_transaction \<Rightarrow> external_id option" where
  "Tx_ReferenceExternalTransactionID t =
     (case tx_external t of
        None \<Rightarrow> None
      | Some x \<Rightarrow> if x_referenceExternalID x = [] then None else Some (x_referenceExternalID x))"

definition Tx_ResolvedReferenceID :: "wager_transaction \<Rightarrow> transaction_id option" where
  "Tx_ResolvedReferenceID t =
     (case tx_external t of
        None \<Rightarrow> None
      | Some x \<Rightarrow> if ID_IsZero (x_resolvedReferenceID x) then None else Some (x_resolvedReferenceID x))"

definition Tx_Result :: "wager_transaction \<Rightarrow> money option" where
  "Tx_Result t = (if Money_IsUninitialized (tx_result t) then None else Some (tx_result t))"

definition Tx_FailureCode :: "wager_transaction \<Rightarrow> code option" where
  "Tx_FailureCode t = (if tx_failureCode t = no_code then None else Some (tx_failureCode t))"

definition Tx_ReferenceDeadline :: "wager_transaction \<Rightarrow> instant option" where
  "Tx_ReferenceDeadline t =
     (if tx_referenceDeadline t = zero_time then None else Some (tx_referenceDeadline t))"

lemmas tx_accessors =
  Tx_Currency_def Tx_IsExternal_def Tx_IsInternal_def Tx_Provider_def Tx_ExternalTransactionID_def
  Tx_IdempotencyKey_def Tx_PayloadHash_def Tx_RoundID_def Tx_GameID_def
  Tx_ReferenceExternalTransactionID_def Tx_ResolvedReferenceID_def Tx_Result_def
  Tx_FailureCode_def Tx_ReferenceDeadline_def

section \<open>Operations\<close>

definition checkReportedBalance :: "money \<Rightarrow> currency \<Rightarrow> string \<Rightarrow> unit res" where
  "checkReportedBalance balance txCurrency field =
     (if Money_IsUninitialized balance then Inl (uninitialized field)
      else if m_currency balance \<noteq> txCurrency then Inl (WithField (New CurrencyMismatch) field)
      else if Money_IsNegative balance then Inl (WithField (New InsufficientFunds) field)
      else Inr ())"

definition checkSettlingCode :: "code \<Rightarrow> unit res" where
  "checkSettlingCode c =
     (if \<not> Known_code c then Inl (WithField (New InvalidFieldFormat) ''failureCode'')
      else if \<not> Definitive c then Inl (WithField (New InvalidFieldFormat) ''failureCode'')
      else if Audit_code c then Inl (WithField (New InvalidFieldFormat) ''failureCode'')
      else Inr ())"

definition transition :: "status \<Rightarrow> instant \<Rightarrow> wager_transaction \<Rightarrow> wager_transaction res" where
  "transition nxt now t =
     (if now = zero_time then Inl (missing ''now'')
      else if IsTerminal (tx_status t) then Inl (New InvalidStateTransition)
      else if \<not> CanTransitionTo (tx_status t) nxt then Inl (New InvalidStateTransition)
      else Inr (t\<lparr>tx_status := nxt, tx_updatedAt := now\<rparr>))"

definition MarkProcessed :: "money \<Rightarrow> instant \<Rightarrow> wager_transaction \<Rightarrow> wager_transaction res" where
  "MarkProcessed balanceAfter now t =
     bindE (checkReportedBalance balanceAfter (Tx_Currency t) ''balanceAfter'') (\<lambda>_.
     bindE (transition Processed now t) (\<lambda>t. Inr (t\<lparr>tx_result := balanceAfter\<rparr>)))"

definition ReferenceBudgetExhausted ::
  "reference_policy \<Rightarrow> instant \<Rightarrow> wager_transaction \<Rightarrow> bool res" where
  "ReferenceBudgetExhausted policy now t =
     bindE (policy_validate policy) (\<lambda>_.
       if MaxAttempts policy \<le> tx_referenceAttempts t then Inr True
       else Inr (tx_referenceDeadline t \<noteq> zero_time \<and> \<not> now < tx_referenceDeadline t))"

definition MarkPendingReference ::
  "reference_policy \<Rightarrow> instant \<Rightarrow> wager_transaction \<Rightarrow> wager_transaction res" where
  "MarkPendingReference policy now t =
     bindE (policy_validate policy) (\<lambda>_.
       if now = zero_time then Inl (missing ''now'')
       else bindE (ReferenceBudgetExhausted policy now t) (\<lambda>spent.
         if spent then Inl (New InvalidStateTransition)
         else bindE (transition PendingReference now t) (\<lambda>t.
           let t = (if tx_referenceDeadline t = zero_time
                    then t\<lparr>tx_referenceDeadline := now + TTL policy\<rparr> else t)
           in Inr (t\<lparr>tx_referenceAttempts := tx_referenceAttempts t + 1\<rparr>))))"

definition Tx_Reject :: "code \<Rightarrow> instant \<Rightarrow> wager_transaction \<Rightarrow> wager_transaction res" where
  "Tx_Reject c now t =
     bindE (checkSettlingCode c) (\<lambda>_.
     bindE (transition Rejected now t) (\<lambda>t. Inr (t\<lparr>tx_failureCode := c\<rparr>)))"

definition Tx_Fail :: "instant \<Rightarrow> wager_transaction \<Rightarrow> wager_transaction res" where
  "Tx_Fail now t = transition Failed now t"

definition ResolveReference :: "transaction_id \<Rightarrow> wager_transaction \<Rightarrow> wager_transaction res" where
  "ResolveReference i t =
     (case tx_external t of
        None \<Rightarrow> Inl (New ReferenceNotApplicable)
      | Some x \<Rightarrow>
          if x_referenceExternalID x = [] then Inl (New ReferenceNotApplicable)
          else if ID_IsZero i then Inl (missing ''resolvedReferenceId'')
          else if IsTerminal (tx_status t) then Inl (New InvalidStateTransition)
          else if \<not> ID_IsZero (x_resolvedReferenceID x) \<and> x_resolvedReferenceID x \<noteq> i
          then Inl (WithField (New InvalidStateTransition) ''resolvedReferenceId'')
          else Inr (t\<lparr>tx_external := Some (x\<lparr>x_resolvedReferenceID := i\<rparr>)\<rparr>))"

definition AssertSamePayload :: "payload_hash \<Rightarrow> wager_transaction \<Rightarrow> unit res" where
  "AssertSamePayload hash t =
     (case Tx_PayloadHash t of
        None \<Rightarrow> Inl (New ReferenceNotApplicable)
      | Some stored \<Rightarrow>
          if stored \<noteq> hash then Inl (New IdempotencyPayloadConflict) else Inr ())"

section \<open>What each operation does\<close>

definition settling_code :: "code \<Rightarrow> bool" where
  "settling_code c \<longleftrightarrow> Known_code c \<and> Definitive c \<and> \<not> Audit_code c"

lemma settling_code_iff:
  "settling_code c \<longleftrightarrow>
     c \<in> {InsufficientFunds, ReversalInsufficientFunds, BalanceOutOfRange, CurrencyMismatch,
          ReferenceNotFound, ReferenceNotProcessed, ReferenceNotReversible,
          ReferenceAlreadyReversed, ReferenceMismatch, ReversalAmountMismatch,
          IdempotencyPayloadConflict, WalletAlreadyExists}"
  by (cases c)
    (simp_all add: settling_code_def Known_code_def Definitive_def Audit_code_def audit_table_def)

definition open_status :: "status \<Rightarrow> bool" where
  "open_status s \<longleftrightarrow> s = Pending \<or> s = PendingReference"

lemma checkReportedBalance_Inr_iff [simp]:
  "checkReportedBalance b cur field = Inr u \<longleftrightarrow>
     cur_code (m_currency b) \<noteq> [] \<and> m_currency b = cur \<and> 0 \<le> sint (m_units b)"
  by (auto simp: checkReportedBalance_def money_predicates sless_int)

lemma checkSettlingCode_Inr_iff [simp]: "checkSettlingCode c = Inr u \<longleftrightarrow> settling_code c"
  by (auto simp: checkSettlingCode_def settling_code_def)

lemma transition_Inr_iff [simp]:
  "transition nxt now t = Inr t' \<longleftrightarrow>
     now \<noteq> 0 \<and> open_status (tx_status t) \<and> CanTransitionTo (tx_status t) nxt
     \<and> t' = t\<lparr>tx_status := nxt, tx_updatedAt := now\<rparr>"
  by (cases "tx_status t")
    (auto simp: transition_def open_status_def IsTerminal_def CanTransitionTo_iff)

lemma MarkProcessed_Inr_iff:
  "MarkProcessed b now t = Inr t' \<longleftrightarrow>
     now \<noteq> 0 \<and> open_status (tx_status t) \<and> cur_code (m_currency b) \<noteq> []
     \<and> m_currency b = Tx_Currency t \<and> 0 \<le> sint (m_units b)
     \<and> t' = t\<lparr>tx_status := Processed, tx_updatedAt := now, tx_result := b\<rparr>"
  by (auto simp: MarkProcessed_def CanTransitionTo_iff open_status_def)

lemma Tx_Reject_Inr_iff:
  "Tx_Reject c now t = Inr t' \<longleftrightarrow>
     now \<noteq> 0 \<and> open_status (tx_status t) \<and> settling_code c
     \<and> t' = t\<lparr>tx_status := Rejected, tx_updatedAt := now, tx_failureCode := c\<rparr>"
  by (auto simp: Tx_Reject_def CanTransitionTo_iff open_status_def)

lemma Tx_Fail_Inr_iff:
  "Tx_Fail now t = Inr t' \<longleftrightarrow>
     now \<noteq> 0 \<and> open_status (tx_status t) \<and> t' = t\<lparr>tx_status := Failed, tx_updatedAt := now\<rparr>"
  by (auto simp: Tx_Fail_def CanTransitionTo_iff open_status_def)

definition budget_spent :: "reference_policy \<Rightarrow> instant \<Rightarrow> wager_transaction \<Rightarrow> bool" where
  "budget_spent p now t \<longleftrightarrow>
     MaxAttempts p \<le> tx_referenceAttempts t
     \<or> tx_referenceDeadline t \<noteq> 0 \<and> tx_referenceDeadline t \<le> now"

lemma ReferenceBudgetExhausted_Inr_iff [simp]:
  "ReferenceBudgetExhausted p now t = Inr b \<longleftrightarrow>
     1 \<le> MaxAttempts p \<and> 0 < TTL p \<and> b = budget_spent p now t"
  by (auto simp: ReferenceBudgetExhausted_def budget_spent_def)

lemma ReferenceBudgetExhausted_eq:
  "1 \<le> MaxAttempts p \<Longrightarrow> 0 < TTL p \<Longrightarrow>
   ReferenceBudgetExhausted p now t = Inr (budget_spent p now t)"
  by simp

definition parked :: "reference_policy \<Rightarrow> instant \<Rightarrow> wager_transaction \<Rightarrow> wager_transaction" where
  "parked p now t =
     t\<lparr>tx_status := PendingReference, tx_updatedAt := now,
       tx_referenceDeadline :=
         (if tx_referenceDeadline t = 0 then now + TTL p else tx_referenceDeadline t),
       tx_referenceAttempts := tx_referenceAttempts t + 1\<rparr>"

lemma MarkPendingReference_Inr_iff:
  "MarkPendingReference p now t = Inr t' \<longleftrightarrow>
     1 \<le> MaxAttempts p \<and> 0 < TTL p \<and> now \<noteq> 0 \<and> open_status (tx_status t)
     \<and> \<not> budget_spent p now t \<and> t' = parked p now t"
  by (auto simp: MarkPendingReference_def parked_def CanTransitionTo_iff open_status_def Let_def)

lemma ResolveReference_Inr_iff:
  "ResolveReference i t = Inr t' \<longleftrightarrow>
     (\<exists>x. tx_external t = Some x \<and> x_referenceExternalID x \<noteq> [] \<and> i \<noteq> 0
        \<and> \<not> IsTerminal (tx_status t)
        \<and> (x_resolvedReferenceID x = 0 \<or> x_resolvedReferenceID x = i)
        \<and> t' = t\<lparr>tx_external := Some (x\<lparr>x_resolvedReferenceID := i\<rparr>)\<rparr>)"
  by (auto simp: ResolveReference_def ID_IsZero_def split: option.splits)

lemma NewExternalTransaction_Inr_iff:
  "NewExternalTransaction cmd w now = Inr t \<longleftrightarrow>
     command_ok cmd \<and> w \<noteq> 0 \<and> now \<noteq> 0 \<and> t = pending_transaction cmd w now"
  by (auto simp: NewExternalTransaction_def Command_Validate_Inr_iff ID_IsZero_def)

lemma NewExternalTransaction_correctable [correctable_rules]:
  "refuses_correctably (NewExternalTransaction cmd w now)"
  unfolding NewExternalTransaction_def by (intro correctable_rules) simp_all

lemma newOpeningTransaction_Inr_iff:
  "newOpeningTransaction i now = Inr t \<longleftrightarrow>
     ow_TransactionID i \<noteq> 0 \<and> ow_WalletID i \<noteq> 0 \<and> ow_PlayerID i \<noteq> []
     \<and> cur_code (m_currency (ow_InitialBalance i)) \<noteq> []
     \<and> 0 < sint (m_units (ow_InitialBalance i)) \<and> now \<noteq> 0
     \<and> t = opening_transaction i now"
  by (auto simp: newOpeningTransaction_def ID_IsZero_def money_predicates sless_int Let_def)

section \<open>The life of a transaction\<close>

text \<open>
  One step of a transaction's life: a method that changes it and succeeds, at the time it was
  given. Nothing is asked of that time; resolving a reference is given none and may happen at
  any.
\<close>

inductive tx_step :: "reference_policy \<Rightarrow> instant \<Rightarrow> wager_transaction \<Rightarrow> wager_transaction \<Rightarrow> bool"
  for policy :: reference_policy and now :: instant where
  step_processed: "MarkProcessed b now t = Inr t' \<Longrightarrow> tx_step policy now t t'"
| step_parked: "MarkPendingReference policy now t = Inr t' \<Longrightarrow> tx_step policy now t t'"
| step_rejected: "Tx_Reject c now t = Inr t' \<Longrightarrow> tx_step policy now t t'"
| step_failed: "Tx_Fail now t = Inr t' \<Longrightarrow> tx_step policy now t t'"
| step_resolved: "ResolveReference i t = Inr t' \<Longrightarrow> tx_step policy now t t'"

inductive_cases tx_stepE: "tx_step policy now t t'"

text \<open>A life from one transaction to another: one step at each of the times, in order.\<close>

inductive tx_run :: "reference_policy \<Rightarrow> instant list \<Rightarrow> wager_transaction \<Rightarrow> wager_transaction \<Rightarrow> bool"
  for policy :: reference_policy where
  run_done: "tx_run policy [] t t"
| run_step: "tx_step policy now t t1 \<Longrightarrow> tx_run policy nows t1 t' \<Longrightarrow> tx_run policy (now # nows) t t'"

text \<open>What the two constructors build, at the time they were given.\<close>

inductive tx_init :: "instant \<Rightarrow> wager_transaction \<Rightarrow> bool" for now :: instant where
  init_external: "NewExternalTransaction cmd w now = Inr t \<Longrightarrow> tx_init now t"
| init_opening: "newOpeningTransaction i now = Inr t \<Longrightarrow> NewPlayerID (ow_PlayerID i) = Inr p \<Longrightarrow> tx_init now t"

lemmas tx_operations =
  MarkProcessed_Inr_iff MarkPendingReference_Inr_iff Tx_Reject_Inr_iff Tx_Fail_Inr_iff
  ResolveReference_Inr_iff

text \<open>
  No method compares the time it is given with the time of the last change. Where the order
  of times matters, a step is taken on a clock that has not gone back, and a life begins on a
  clock that has started.
\<close>

definition clocked :: "reference_policy \<Rightarrow> wager_transaction \<Rightarrow> wager_transaction \<Rightarrow> bool" where
  "clocked policy t t' \<longleftrightarrow> (\<exists>now. tx_updatedAt t \<le> now \<and> tx_step policy now t t')"

definition begun :: "wager_transaction \<Rightarrow> bool" where
  "begun t \<longleftrightarrow> (\<exists>now. 0 < now \<and> tx_init now t)"

lemma clocked_processed: "MarkProcessed b now t = Inr t' \<Longrightarrow> tx_updatedAt t \<le> now \<Longrightarrow> clocked policy t t'"
  and clocked_parked: "MarkPendingReference policy now t = Inr t' \<Longrightarrow> tx_updatedAt t \<le> now \<Longrightarrow> clocked policy t t'"
  and clocked_rejected: "Tx_Reject c now t = Inr t' \<Longrightarrow> tx_updatedAt t \<le> now \<Longrightarrow> clocked policy t t'"
  and clocked_failed: "Tx_Fail now t = Inr t' \<Longrightarrow> tx_updatedAt t \<le> now \<Longrightarrow> clocked policy t t'"
  and clocked_resolved: "ResolveReference i t = Inr t' \<Longrightarrow> clocked policy t t'"
  unfolding clocked_def by (blast intro: tx_step.intros)+

lemma begun_external: "NewExternalTransaction cmd w now = Inr t \<Longrightarrow> 0 < now \<Longrightarrow> begun t"
  and begun_opening: "newOpeningTransaction i now = Inr t \<Longrightarrow> NewPlayerID (ow_PlayerID i) = Inr p \<Longrightarrow>
    0 < now \<Longrightarrow> begun t"
  unfolding begun_def by (blast intro: tx_init.intros)+

section \<open>Invariant\<close>

definition origin_ok :: "wager_transaction \<Rightarrow> bool" where
  "origin_ok t \<longleftrightarrow>
     (case tx_external t of
        None \<Rightarrow> tx_kind t = Opening \<and> tx_status t = Processed
      | Some x \<Rightarrow>
          Kind_IsExternal (tx_kind t) \<and> opaque_ok (x_provider x)
          \<and> opaque_ok (x_externalTransactionID x) \<and> opaque_ok (x_idempotencyKey x)
          \<and> opaque_ok (x_roundID x) \<and> opaque_ok (x_gameID x) \<and> x_payloadHash x \<noteq> [])"

definition amount_ok :: "wager_transaction \<Rightarrow> bool" where
  "amount_ok t \<longleftrightarrow>
     cur_code (m_currency (tx_amount t)) \<noteq> []
     \<and> (if tx_kind t = Loss then sint (m_units (tx_amount t)) = 0
        else 0 < sint (m_units (tx_amount t)))"

definition settlement_ok :: "wager_transaction \<Rightarrow> bool" where
  "settlement_ok t \<longleftrightarrow>
     (if tx_status t = Processed
      then m_currency (tx_result t) = m_currency (tx_amount t) \<and> 0 \<le> sint (m_units (tx_result t))
      else tx_result t = no_money)
     \<and> (if tx_status t = Rejected then settling_code (tx_failureCode t)
        else tx_failureCode t = no_code)"

definition reference_ok :: "wager_transaction \<Rightarrow> bool" where
  "reference_ok t \<longleftrightarrow>
     (case tx_external t of
        None \<Rightarrow> True
      | Some x \<Rightarrow>
          if x_referenceExternalID x = []
          then \<not> IsReversal (tx_kind t) \<and> x_resolvedReferenceID x = 0
          else AllowsReference (tx_kind t) \<and> opaque_ok (x_referenceExternalID x)
               \<and> x_referenceExternalID x \<noteq> x_externalTransactionID x)"

definition wait_ok :: "wager_transaction \<Rightarrow> bool" where
  "wait_ok t \<longleftrightarrow>
     0 \<le> tx_referenceAttempts t
     \<and> (tx_referenceAttempts t = 0 \<longleftrightarrow> tx_referenceDeadline t = 0)
     \<and> (tx_status t = PendingReference \<longrightarrow> 0 < tx_referenceAttempts t)"

definition times_ok :: "wager_transaction \<Rightarrow> bool" where
  "times_ok t \<longleftrightarrow> tx_createdAt t \<noteq> 0 \<and> tx_updatedAt t \<noteq> 0 \<and> tx_createdAt t \<le> tx_updatedAt t"

definition tx_ok :: "wager_transaction \<Rightarrow> bool" where
  "tx_ok t \<longleftrightarrow>
     tx_id t \<noteq> 0 \<and> tx_walletID t \<noteq> 0 \<and> opaque_ok (tx_playerID t) \<and> Status_Known (tx_status t)
     \<and> times_ok t \<and> origin_ok t \<and> amount_ok t \<and> settlement_ok t \<and> reference_ok t \<and> wait_ok t"

lemmas tx_ok_parts =
  origin_ok_def amount_ok_def settlement_ok_def reference_ok_def wait_ok_def times_ok_def

text \<open>The invariant of a live transaction: well formed, on a clock that started.\<close>

definition tx_live :: "wager_transaction \<Rightarrow> bool" where
  "tx_live t \<longleftrightarrow> tx_ok t \<and> 0 < tx_createdAt t"

text \<open>A second one: it waits for nothing that was due before it existed.\<close>

definition waits_ahead :: "wager_transaction \<Rightarrow> bool" where
  "waits_ahead t \<longleftrightarrow> tx_referenceDeadline t = 0 \<or> tx_createdAt t \<le> tx_referenceDeadline t"

lemma pending_transaction_ok:
  "command_ok cmd \<Longrightarrow> w \<noteq> 0 \<Longrightarrow> now \<noteq> 0 \<Longrightarrow> tx_ok (pending_transaction cmd w now)"
  by (auto simp: tx_ok_def tx_ok_parts command_ok_def pending_transaction_def
      external_of_command_def payloadHash_def sha256_hex_nonempty Status_Known_def statuses_def)

lemma opening_transaction_ok:
  "newOpeningTransaction i now = Inr t \<Longrightarrow> opaque_ok (ow_PlayerID i) \<Longrightarrow> tx_ok t"
  by (auto simp: newOpeningTransaction_Inr_iff tx_ok_def tx_ok_parts opening_transaction_def
      Status_Known_def statuses_def kind_predicates)

lemma constructed_at [simp]:
  "tx_createdAt (pending_transaction cmd w now) = now"
  "tx_createdAt (opening_transaction i now) = now"
  by (simp_all add: pending_transaction_def opening_transaction_def)

lemma constructed_fields:
  "tx_updatedAt (pending_transaction cmd w now) = now"
  "tx_updatedAt (opening_transaction i now) = now"
  "tx_referenceDeadline (pending_transaction cmd w now) = 0"
  "tx_referenceDeadline (opening_transaction i now) = 0"
  by (simp_all add: pending_transaction_def opening_transaction_def)

lemma tx_init_ok:
  assumes "tx_init now t"
  shows "tx_ok t" "tx_createdAt t = now" "tx_updatedAt t = now" "tx_referenceDeadline t = 0"
proof -
  have "tx_ok t \<and> tx_createdAt t = now \<and> tx_updatedAt t = now \<and> tx_referenceDeadline t = 0"
    using assms
  proof cases
    case (init_external cmd w)
    then show ?thesis by (auto simp: NewExternalTransaction_Inr_iff constructed_fields intro: pending_transaction_ok)
  next
    case (init_opening i p)
    then have "tx_ok t" by (intro opening_transaction_ok) (auto simp: NewPlayerID_def)
    with init_opening show ?thesis by (auto simp: newOpeningTransaction_Inr_iff constructed_fields)
  qed
  then show "tx_ok t" "tx_createdAt t = now" "tx_updatedAt t = now" "tx_referenceDeadline t = 0" by simp_all
qed

lemma begun_live: "begun t \<Longrightarrow> tx_live t"
  using tx_init_ok by (auto simp: begun_def tx_live_def)

text \<open>The parts of the invariant an operation cannot touch, and those it must keep.\<close>

lemma processed_ok:
  assumes "tx_ok t" "open_status (tx_status t)" "tx_updatedAt t \<le> now" "now \<noteq> 0"
    and "m_currency b = m_currency (tx_amount t)" "0 \<le> sint (m_units b)"
  shows "tx_ok (t\<lparr>tx_status := Processed, tx_updatedAt := now, tx_result := b\<rparr>)"
  using assms
  by (auto simp: tx_ok_def tx_ok_parts open_status_def Status_Known_def statuses_def
      split: option.splits)

lemma rejected_ok:
  assumes "tx_ok t" "open_status (tx_status t)" "tx_updatedAt t \<le> now" "now \<noteq> 0" "settling_code c"
  shows "tx_ok (t\<lparr>tx_status := Rejected, tx_updatedAt := now, tx_failureCode := c\<rparr>)"
  using assms
  by (auto simp: tx_ok_def tx_ok_parts open_status_def Status_Known_def statuses_def
      split: option.splits)

lemma failed_ok:
  assumes "tx_ok t" "open_status (tx_status t)" "tx_updatedAt t \<le> now" "now \<noteq> 0"
  shows "tx_ok (t\<lparr>tx_status := Failed, tx_updatedAt := now\<rparr>)"
  using assms
  by (auto simp: tx_ok_def tx_ok_parts open_status_def Status_Known_def statuses_def
      split: option.splits)

lemma parked_ok:
  assumes "tx_ok t" "open_status (tx_status t)" "tx_updatedAt t \<le> now" "0 < now" "0 < TTL p"
  shows "tx_ok (parked p now t)"
  using assms
  by (auto simp: tx_ok_def tx_ok_parts open_status_def Status_Known_def statuses_def parked_def
      split: option.splits)

lemma resolved_ok:
  assumes "tx_ok t" "tx_external t = Some x" "x_referenceExternalID x \<noteq> []"
  shows "tx_ok (t\<lparr>tx_external := Some (x\<lparr>x_resolvedReferenceID := i\<rparr>)\<rparr>)"
  using assms by (auto simp: tx_ok_def tx_ok_parts)

lemma tx_step_live:
  assumes "tx_live t" "tx_step policy now t t'" "tx_updatedAt t \<le> now"
  shows "tx_live t'"
proof -
  have t: "tx_ok t" "0 < tx_createdAt t" "now \<noteq> 0" "0 < now"
    using assms(1,3) by (auto simp: tx_live_def tx_ok_def times_ok_def)
  show ?thesis
    using assms(2)
  proof cases
    case (step_processed b)
    then show ?thesis
      using t processed_ok [of t now b] assms(3) by (simp add: tx_live_def MarkProcessed_Inr_iff Tx_Currency_def)
  next
    case step_parked
    then show ?thesis
      using t parked_ok [of t now policy] assms(3)
      by (simp add: tx_live_def MarkPendingReference_Inr_iff) (simp add: parked_def)
  next
    case (step_rejected c)
    then show ?thesis
      using t rejected_ok [of t now c] assms(3) by (simp add: tx_live_def Tx_Reject_Inr_iff)
  next
    case step_failed
    then show ?thesis
      using t failed_ok [of t now] assms(3) by (simp add: tx_live_def Tx_Fail_Inr_iff)
  next
    case (step_resolved i)
    then show ?thesis using t resolved_ok by (auto simp: tx_live_def ResolveReference_Inr_iff)
  qed
qed

lemma clocked_live: "tx_live t \<Longrightarrow> clocked policy t t' \<Longrightarrow> tx_live t'"
  using tx_step_live by (auto simp: clocked_def)

lemma clocked_ahead:
  assumes "tx_live t" "clocked policy t t'" "waits_ahead t"
  shows "waits_ahead t'"
proof -
  from assms(2) obtain now where now: "tx_updatedAt t \<le> now" "tx_step policy now t t'" by (auto simp: clocked_def)
  from assms(1) now(1) have "tx_createdAt t \<le> now" by (simp add: tx_live_def tx_ok_def times_ok_def)
  with assms(3) now(2) show ?thesis
    by (elim tx_stepE) (auto simp: tx_operations waits_ahead_def parked_def)
qed

lemma tx_step_open: "tx_step policy now t t' \<Longrightarrow> \<not> IsTerminal (tx_status t)"
  by (erule tx_stepE) (auto simp: tx_operations open_status_def IsTerminal_def)

text \<open>The life of a transaction twice: at any times, and on a clock.\<close>

interpretation timeless: settling_system "\<lambda>t. \<exists>now. tx_init now t" "\<lambda>t t'. \<exists>now. tx_step policy now t t'"
    "\<lambda>_. True" "\<lambda>t. IsTerminal (tx_status t)"
  by unfold_locales (auto dest: tx_step_open)

interpretation life: settling_system begun "clocked policy" tx_live "\<lambda>t. IsTerminal (tx_status t)"
proof unfold_locales
  show "begun t \<Longrightarrow> tx_live t" for t by (rule begun_live)
  show "tx_live t \<Longrightarrow> clocked policy t t' \<Longrightarrow> tx_live t'" for t t' by (rule clocked_live)
  show "IsTerminal (tx_status t) \<Longrightarrow> \<not> clocked policy t t'" for t t'
    using tx_step_open by (auto simp: clocked_def)
qed

lemma tx_run_steps:
  "tx_run policy nows t t' \<Longrightarrow> (\<lambda>t t'. \<exists>now. tx_step policy now t t')\<^sup>*\<^sup>* t t'"
  by (induction rule: tx_run.induct) (auto intro: converse_rtranclp_into_rtranclp)

interpretation lasting: transition_system begun "clocked policy" "\<lambda>t. tx_live t \<and> waits_ahead t"
proof unfold_locales
  show "begun t \<Longrightarrow> tx_live t \<and> waits_ahead t" for t
    using begun_live [of t] tx_init_ok(4) by (auto simp: begun_def waits_ahead_def)
  show "tx_live t \<and> waits_ahead t \<Longrightarrow> clocked policy t t' \<Longrightarrow> tx_live t' \<and> waits_ahead t'" for t t'
    using clocked_live clocked_ahead by blast
qed

text \<open>The last change of a transaction was at the latest of the times, when they are in order.\<close>

lemma tx_step_updated: "tx_step policy now t t' \<Longrightarrow> tx_updatedAt t \<le> now \<Longrightarrow> tx_updatedAt t' \<le> now"
  by (erule tx_stepE) (auto simp: tx_operations parked_def)

lemma tx_run_live:
  "tx_run policy nows t t' \<Longrightarrow> tx_live t \<Longrightarrow> sorted nows \<Longrightarrow> \<forall>now \<in> set nows. tx_updatedAt t \<le> now \<Longrightarrow> tx_live t'"
proof (induction rule: tx_run.induct)
  case (run_step now t t1 nows t')
  then have first: "tx_updatedAt t \<le> now" by simp
  have "\<forall>n \<in> set nows. tx_updatedAt t1 \<le> n"
    using tx_step_updated [OF run_step(1) first] run_step.prems(2) by auto
  with run_step tx_step_live [OF run_step.prems(1) run_step(1) first] show ?case by simp
qed

text \<open>What no step ever changes.\<close>

definition tx_identity ::
  "wager_transaction \<Rightarrow> transaction_id \<times> wallet_id \<times> player_id \<times> kind \<times> money \<times> instant
     \<times> external_details option" where
  "tx_identity t =
     (tx_id t, tx_walletID t, tx_playerID t, tx_kind t, tx_amount t, tx_createdAt t,
      map_option (\<lambda>x. x\<lparr>x_resolvedReferenceID := 0\<rparr>) (tx_external t))"

lemma tx_step_identity: "tx_step policy now t t' \<Longrightarrow> tx_identity t' = tx_identity t"
  by (erule tx_stepE) (auto simp: tx_operations tx_identity_def parked_def)

lemma tx_run_identity: "tx_run policy nows t t' \<Longrightarrow> tx_identity t' = tx_identity t"
  by (induction rule: tx_run.induct) (simp_all add: tx_step_identity)

text \<open>The wait budget is a second invariant of the same steps.\<close>

definition within_budget :: "reference_policy \<Rightarrow> wager_transaction \<Rightarrow> bool" where
  "within_budget p t \<longleftrightarrow>
     0 \<le> tx_referenceAttempts t
     \<and> (tx_referenceAttempts t = 0 \<or> tx_referenceAttempts t \<le> MaxAttempts p)"

interpretation budget: transition_system begun "clocked policy" "within_budget policy"
proof unfold_locales
  show "begun t \<Longrightarrow> within_budget policy t" for t
    unfolding begun_def
    by (elim exE conjE tx_init.cases) (auto simp: within_budget_def NewExternalTransaction_Inr_iff
        newOpeningTransaction_Inr_iff pending_transaction_def opening_transaction_def)
  show "within_budget policy t \<Longrightarrow> clocked policy t t' \<Longrightarrow> within_budget policy t'" for t t'
    unfolding clocked_def
    by (elim exE conjE tx_stepE) (auto simp: tx_operations within_budget_def parked_def budget_spent_def)
qed

section \<open>Properties\<close>

text \<open>
  C35: a settled transaction never changes again, and no step of a transaction's life touches
  its identity. From a transaction one of the two constructors built, take whatever sequence
  of completions, waits, rejections, failures and reference resolutions succeeds, each at
  whatever time it was given: the result has the same identifier, wallet, player, kind,
  amount, creation time and provider fields, and once its status is terminal nothing follows.
  If moreover the clock had started and the times never go back, it is well formed; the
  methods do not check that, and without it the update may come out before the creation.
\<close>

theorem transaction_life:
  assumes "tx_init start t0" "tx_run policy nows t0 t" "tx_run policy later t t'"
  shows "tx_identity t = tx_identity t0 \<and> (IsTerminal (tx_status t) \<longrightarrow> t' = t \<and> later = [])
    \<and> (0 < start \<and> sorted (start # nows) \<longrightarrow> tx_ok t)"
proof (intro conjI impI)
  show "tx_identity t = tx_identity t0" by (rule tx_run_identity [OF assms(2)])
  show "t' = t" if "IsTerminal (tx_status t)"
    using timeless.settled_forever [of t policy t'] tx_run_steps [OF assms(3)] that by simp
  show "later = []" if "IsTerminal (tx_status t)"
    using assms(3) by cases (use that tx_step_open in blast)+
  assume "0 < start \<and> sorted (start # nows)"
  moreover from this have "tx_live t0" using tx_init_ok [OF assms(1)] by (simp add: tx_live_def)
  ultimately have "tx_live t" using tx_run_live [OF assms(2)] tx_init_ok(3) [OF assms(1)] by simp
  then show "tx_ok t" by (simp add: tx_live_def)
qed

theorem transaction_life_witness:
  "let t0 = pending_transaction (sample_command Bet 500 []) 13 10;
       t = t0\<lparr>tx_status := Rejected, tx_updatedAt := 20, tx_failureCode := InsufficientFunds\<rparr>
   in tx_init 10 t0 \<and> tx_run \<lparr>MaxAttempts = 3, TTL = 60\<rparr> [20] t0 t
      \<and> tx_ok t \<and> tx_identity t = tx_identity t0 \<and> IsTerminal (tx_status t)"
proof -
  define p where "p = (\<lparr>MaxAttempts = 3, TTL = 60\<rparr> :: reference_policy)"
  define t0 where "t0 = pending_transaction (sample_command Bet 500 []) 13 10"
  define t where "t = t0\<lparr>tx_status := Rejected, tx_updatedAt := 20, tx_failureCode := InsufficientFunds\<rparr>"
  have init: "tx_init 10 t0"
    by (rule init_external [of "sample_command Bet 500 []" 13 10])
      (simp_all add: NewExternalTransaction_Inr_iff sample_bet_ok t0_def)
  have "Tx_Reject InsufficientFunds 20 t0 = Inr t"
    by (simp add: Tx_Reject_Inr_iff t_def settling_code_iff open_status_def
        t0_def pending_transaction_def)
  then have "tx_step p 20 t0 t" by (rule step_rejected)
  then have run: "tx_run p [20] t0 t" by (rule run_step) (rule run_done)
  from transaction_life [OF init run run_done] init run show ?thesis
    by (simp add: Let_def IsTerminal_def t_def flip: t0_def p_def)
qed

text \<open>
  Waiting is bounded. A transaction is parked only while the policy's budget lasts: each
  wait adds exactly one attempt, the deadline is set by the first wait and never moved, the
  number of attempts never passes the policy's maximum in any reachable state, and at the
  maximum, or at the deadline, a further wait is refused as an invalid transition.
\<close>

theorem waiting_is_bounded:
  assumes "begun t0" "(clocked policy)\<^sup>*\<^sup>* t0 t" "NewReferencePolicy m l = Inr policy" "now \<noteq> 0"
  shows "0 \<le> tx_referenceAttempts t \<and> tx_referenceAttempts t \<le> MaxAttempts policy
    \<and> MarkPendingReference policy now t =
       (if budget_spent policy now t \<or> \<not> open_status (tx_status t)
        then Inl (New InvalidStateTransition) else Inr (parked policy now t))
    \<and> tx_referenceAttempts (parked policy now t) = tx_referenceAttempts t + 1
    \<and> (0 < tx_referenceAttempts t \<longrightarrow>
         tx_referenceDeadline (parked policy now t) = tx_referenceDeadline t)"
proof -
  have p: "1 \<le> MaxAttempts policy" "0 < TTL policy"
    using assms(3) by (auto simp: NewReferencePolicy_def Let_def)
  have live: "tx_ok t" using life.inv_reachable [OF assms(1,2)] by (simp add: tx_live_def)
  have "within_budget policy t" using budget.inv_reachable [OF assms(1,2)] .
  then have "0 \<le> tx_referenceAttempts t \<and> tx_referenceAttempts t \<le> MaxAttempts policy"
    using p by (auto simp: within_budget_def)
  moreover have "MarkPendingReference policy now t =
      (if budget_spent policy now t \<or> \<not> open_status (tx_status t)
       then Inl (New InvalidStateTransition) else Inr (parked policy now t))"
  proof (cases "budget_spent policy now t \<or> \<not> open_status (tx_status t)")
    case False
    then show ?thesis using p assms(4) by (simp add: MarkPendingReference_Inr_iff)
  next
    case True
    with p assms(4) show ?thesis
      by (cases "tx_status t") (auto simp: MarkPendingReference_def policy_validate_def
          ReferenceBudgetExhausted_eq transition_def open_status_def IsTerminal_def
          CanTransitionTo_iff)
  qed
  ultimately show ?thesis using live by (auto simp: parked_def tx_ok_def wait_ok_def)
qed

theorem waiting_is_bounded_witness:
  "let p = \<lparr>MaxAttempts = 1, TTL = 60\<rparr>;
       t0 = pending_transaction (sample_command Refund 500 ''ext-0'') 13 10;
       t = parked p 20 t0
   in NewReferencePolicy 1 60 = Inr p \<and> begun t0 \<and> clocked p t0 t
      \<and> tx_referenceAttempts t = MaxAttempts p
      \<and> MarkPendingReference p 30 t = Inl (New InvalidStateTransition)"
proof -
  define p where "p = (\<lparr>MaxAttempts = 1, TTL = 60\<rparr> :: reference_policy)"
  define t0 where "t0 = pending_transaction (sample_command Refund 500 ''ext-0'') 13 10"
  define t where "t = parked p 20 t0"
  have policy: "NewReferencePolicy 1 60 = Inr p" by (simp add: NewReferencePolicy_def Let_def p_def)
  have init: "begun t0"
    by (rule begun_external [of "sample_command Refund 500 ''ext-0''" 13 10])
      (simp_all add: NewExternalTransaction_Inr_iff sample_refund_ok t0_def)
  have "MarkPendingReference p 20 t0 = Inr t"
    by (simp add: MarkPendingReference_Inr_iff t_def p_def budget_spent_def open_status_def
        t0_def pending_transaction_def)
  then have step: "clocked p t0 t"
    by (rule clocked_parked) (simp add: t0_def pending_transaction_def)
  have attempts: "tx_referenceAttempts t = 1"
    by (simp add: t_def parked_def t0_def pending_transaction_def)
  from waiting_is_bounded [OF init r_into_rtranclp [where r = "clocked p", OF step] policy, of 30]
    attempts init step policy
  show ?thesis by (simp add: Let_def budget_spent_def flip: t_def t0_def p_def) (simp add: p_def)
qed

end
