(* ===== verification/Events.thy ===== *)
theory Events
  imports Ledger Transaction
begin

text \<open>
  The four domain events (\<^verbatim>\<open>src/internal/domain/wagering/events.go\<close>) and the outcome that
  carries them (\<^verbatim>\<open>Outcome\<close> of \<^verbatim>\<open>processor.go\<close>). Each event constructor takes an aggregate that
  has reached the state the event describes and refuses any other; a nil transaction is
  \<open>None\<close>. The pair of an identifier and a flag that the source returns for an optional
  identifier is kept as the two fields the event stores.
\<close>

record processed_event =
  pe_transactionID :: transaction_id
  pe_walletID :: wallet_id
  pe_playerID :: player_id
  pe_kind :: kind
  pe_amount :: money
  pe_balanceAfter :: money
  pe_externalTransactionID :: external_id
  pe_isExternal :: bool

record rejected_event =
  re_transactionID :: transaction_id
  re_walletID :: wallet_id
  re_playerID :: player_id
  re_kind :: kind
  re_amount :: money
  re_failureCode :: code
  re_externalTransactionID :: external_id
  re_isExternal :: bool

record balance_event =
  be_walletID :: wallet_id
  be_transactionID :: transaction_id
  be_direction :: direction
  be_amount :: money
  be_balanceBefore :: money
  be_balanceAfter :: money
  be_walletVersion :: uint64

record pending_event =
  qe_transactionID :: transaction_id
  qe_walletID :: wallet_id
  qe_playerID :: player_id
  qe_kind :: kind
  qe_referenceExternalID :: external_id
  qe_attempts :: int
  qe_externalTransactionID :: external_id

datatype event =
    WagerTransactionProcessed processed_event
  | WagerTransactionRejected rejected_event
  | WalletBalanceChanged balance_event
  | WagerTransactionPendingReference pending_event

fun EventType :: "event \<Rightarrow> string" where
  "EventType (WagerTransactionProcessed e) = ''WagerTransactionProcessed''"
| "EventType (WagerTransactionRejected e) = ''WagerTransactionRejected''"
| "EventType (WalletBalanceChanged e) = ''WalletBalanceChanged''"
| "EventType (WagerTransactionPendingReference e) = ''WagerTransactionPendingReference''"

definition EventVersion :: "event \<Rightarrow> int" where
  "EventVersion e = 1"

record outcome =
  o_Transaction :: "wager_transaction option"
  o_LedgerEntry :: "ledger_entry option"
  o_Events :: "event list"

definition no_outcome :: outcome where
  "no_outcome = \<lparr>o_Transaction = None, o_LedgerEntry = None, o_Events = []\<rparr>"

definition Recorded :: "outcome \<Rightarrow> bool" where
  "Recorded o' \<longleftrightarrow> o_Transaction o' \<noteq> None"

section \<open>Constructors\<close>

definition external_id_or_empty :: "wager_transaction \<Rightarrow> external_id" where
  "external_id_or_empty t = (case Tx_ExternalTransactionID t of None \<Rightarrow> [] | Some i \<Rightarrow> i)"

definition NewWagerTransactionProcessed :: "wager_transaction option \<Rightarrow> event res" where
  "NewWagerTransactionProcessed tx =
     (case tx of
        None \<Rightarrow> Inl (New UninitializedValue)
      | Some t \<Rightarrow>
          if tx_status t \<noteq> Processed then Inl (New InvalidStateTransition)
          else (case Tx_Result t of
                 None \<Rightarrow> Inl (New UninitializedValue)
               | Some balanceAfter \<Rightarrow>
                   Inr (WagerTransactionProcessed
                     \<lparr>pe_transactionID = tx_id t, pe_walletID = tx_walletID t,
                      pe_playerID = tx_playerID t, pe_kind = tx_kind t, pe_amount = tx_amount t,
                      pe_balanceAfter = balanceAfter,
                      pe_externalTransactionID = external_id_or_empty t,
                      pe_isExternal = (Tx_ExternalTransactionID t \<noteq> None)\<rparr>)))"

definition NewWagerTransactionRejected :: "wager_transaction option \<Rightarrow> event res" where
  "NewWagerTransactionRejected tx =
     (case tx of
        None \<Rightarrow> Inl (New UninitializedValue)
      | Some t \<Rightarrow>
          if tx_status t \<noteq> Rejected then Inl (New InvalidStateTransition)
          else (case Tx_FailureCode t of
                 None \<Rightarrow> Inl (New UninitializedValue)
               | Some c \<Rightarrow>
                   Inr (WagerTransactionRejected
                     \<lparr>re_transactionID = tx_id t, re_walletID = tx_walletID t,
                      re_playerID = tx_playerID t, re_kind = tx_kind t, re_amount = tx_amount t,
                      re_failureCode = c, re_externalTransactionID = external_id_or_empty t,
                      re_isExternal = (Tx_ExternalTransactionID t \<noteq> None)\<rparr>)))"

definition NewWalletBalanceChanged :: "ledger_entry \<Rightarrow> event res" where
  "NewWalletBalanceChanged e =
     (if Entry_IsZero e then Inl (New UninitializedValue)
      else Inr (WalletBalanceChanged
        \<lparr>be_walletID = le_walletID e, be_transactionID = le_transactionID e,
         be_direction = le_direction e, be_amount = le_amount e,
         be_balanceBefore = le_balanceBefore e, be_balanceAfter = le_balanceAfter e,
         be_walletVersion = le_walletVersion e\<rparr>))"

definition NewWagerTransactionPendingReference :: "wager_transaction option \<Rightarrow> event res" where
  "NewWagerTransactionPendingReference tx =
     (case tx of
        None \<Rightarrow> Inl (New UninitializedValue)
      | Some t \<Rightarrow>
          if tx_status t \<noteq> PendingReference then Inl (New InvalidStateTransition)
          else (case Tx_ReferenceExternalTransactionID t of
                 None \<Rightarrow> Inl (New ReferenceRequired)
               | Some referenceID \<Rightarrow>
                   Inr (WagerTransactionPendingReference
                     \<lparr>qe_transactionID = tx_id t, qe_walletID = tx_walletID t,
                      qe_playerID = tx_playerID t, qe_kind = tx_kind t,
                      qe_referenceExternalID = referenceID, qe_attempts = tx_referenceAttempts t,
                      qe_externalTransactionID = external_id_or_empty t\<rparr>)))"

section \<open>What an event reports\<close>

text \<open>
  An event describes an outcome when every field it has is the one the transaction or the
  ledger entry of that outcome carries.
\<close>

fun event_describes :: "wager_transaction \<Rightarrow> ledger_entry option \<Rightarrow> event \<Rightarrow> bool" where
  "event_describes t le (WagerTransactionProcessed e) \<longleftrightarrow>
     tx_status t = Processed \<and> pe_transactionID e = tx_id t \<and> pe_walletID e = tx_walletID t
     \<and> pe_playerID e = tx_playerID t \<and> pe_kind e = tx_kind t \<and> pe_amount e = tx_amount t
     \<and> Some (pe_balanceAfter e) = Tx_Result t
     \<and> Tx_ExternalTransactionID t
       = (if pe_isExternal e then Some (pe_externalTransactionID e) else None)"
| "event_describes t le (WagerTransactionRejected e) \<longleftrightarrow>
     tx_status t = Rejected \<and> re_transactionID e = tx_id t \<and> re_walletID e = tx_walletID t
     \<and> re_playerID e = tx_playerID t \<and> re_kind e = tx_kind t \<and> re_amount e = tx_amount t
     \<and> Some (re_failureCode e) = Tx_FailureCode t
     \<and> Tx_ExternalTransactionID t
       = (if re_isExternal e then Some (re_externalTransactionID e) else None)"
| "event_describes t le (WalletBalanceChanged e) \<longleftrightarrow>
     (\<exists>l. le = Some l \<and> be_walletID e = le_walletID l \<and> be_transactionID e = le_transactionID l
        \<and> be_direction e = le_direction l \<and> be_amount e = le_amount l
        \<and> be_balanceBefore e = le_balanceBefore l \<and> be_balanceAfter e = le_balanceAfter l
        \<and> be_walletVersion e = le_walletVersion l)"
| "event_describes t le (WagerTransactionPendingReference e) \<longleftrightarrow>
     tx_status t = PendingReference \<and> qe_transactionID e = tx_id t
     \<and> qe_walletID e = tx_walletID t \<and> qe_playerID e = tx_playerID t \<and> qe_kind e = tx_kind t
     \<and> Tx_ReferenceExternalTransactionID t = Some (qe_referenceExternalID e)
     \<and> qe_attempts e = tx_referenceAttempts t"

lemma processed_event_Inr:
  "NewWagerTransactionProcessed (Some t) = Inr e \<Longrightarrow>
   event_describes t le e \<and> EventType e = ''WagerTransactionProcessed''"
  by (auto simp: NewWagerTransactionProcessed_def external_id_or_empty_def
      split: option.splits if_splits)

lemma rejected_event_Inr:
  "NewWagerTransactionRejected (Some t) = Inr e \<Longrightarrow>
   event_describes t le e \<and> EventType e = ''WagerTransactionRejected''"
  by (auto simp: NewWagerTransactionRejected_def external_id_or_empty_def
      split: option.splits if_splits)

lemma pending_event_Inr:
  "NewWagerTransactionPendingReference (Some t) = Inr e \<Longrightarrow>
   event_describes t le e \<and> EventType e = ''WagerTransactionPendingReference''"
  by (auto simp: NewWagerTransactionPendingReference_def split: option.splits if_splits)

lemma balance_event_Inr:
  "NewWalletBalanceChanged l = Inr e \<Longrightarrow>
   event_describes t (Some l) e \<and> EventType e = ''WalletBalanceChanged''"
  by (auto simp: NewWalletBalanceChanged_def split: if_splits)

lemma processed_event_exists:
  "(\<exists>e. NewWagerTransactionProcessed (Some t) = Inr e) \<longleftrightarrow>
   tx_status t = Processed \<and> Tx_Result t \<noteq> None"
  by (auto simp: NewWagerTransactionProcessed_def split: option.splits)

lemma rejected_event_exists:
  "(\<exists>e. NewWagerTransactionRejected (Some t) = Inr e) \<longleftrightarrow>
   tx_status t = Rejected \<and> Tx_FailureCode t \<noteq> None"
  by (auto simp: NewWagerTransactionRejected_def split: option.splits)

lemma pending_event_exists:
  "(\<exists>e. NewWagerTransactionPendingReference (Some t) = Inr e) \<longleftrightarrow>
   tx_status t = PendingReference \<and> Tx_ReferenceExternalTransactionID t \<noteq> None"
  by (auto simp: NewWagerTransactionPendingReference_def split: option.splits)

lemma balance_event_exists:
  "(\<exists>e. NewWalletBalanceChanged l = Inr e) \<longleftrightarrow> le_id l \<noteq> 0"
  by (auto simp: NewWalletBalanceChanged_def Entry_IsZero_def ID_IsZero_def)

end
