(* ===== verification/Wallet.thy ===== *)
theory Wallet
  imports Events
begin

text \<open>
  The wallet (\<^verbatim>\<open>src/internal/domain/wagering/wallet.go\<close>): opening, rehydration and the one
  operation that changes a balance. A movement returns the entry that records it together
  with the wallet it leaves; a refused movement returns only the error, because the source
  assigns the wallet's fields after its last check.
\<close>

section \<open>Data and operations\<close>

record wallet =
  w_id :: wallet_id
  w_playerID :: player_id
  w_balance :: money
  w_version :: uint64
  w_createdAt :: instant
  w_updatedAt :: instant

record wallet_key =
  wk_PlayerID :: player_id
  wk_Currency :: currency

record wallet_snapshot =
  ws_ID :: wallet_id
  ws_PlayerID :: player_id
  ws_Balance :: money
  ws_Version :: uint64
  ws_CreatedAt :: instant
  ws_UpdatedAt :: instant

record movement_input =
  mv_EntryID :: ledger_entry_id
  mv_TransactionID :: transaction_id
  mv_Amount :: money
  mv_At :: instant

definition Wallet_Currency :: "wallet \<Rightarrow> currency" where
  "Wallet_Currency w = m_currency (w_balance w)"

definition Wallet_Key :: "wallet \<Rightarrow> wallet_key" where
  "Wallet_Key w = \<lparr>wk_PlayerID = w_playerID w, wk_Currency = Wallet_Currency w\<rparr>"

definition Wallet_move :: "direction \<Rightarrow> movement_input \<Rightarrow> wallet \<Rightarrow> (ledger_entry \<times> wallet) res" where
  "Wallet_move d m w =
     (let amount = mv_Amount m; now = mv_At m
      in if ID_IsZero (mv_EntryID m) then Inl (missing ''ledgerEntryId'')
         else if ID_IsZero (mv_TransactionID m) then Inl (missing ''transactionId'')
         else if Money_IsUninitialized amount then Inl (uninitialized ''money'')
         else if \<not> Money_IsPositive amount
         then Inl (WithField (New InvalidAmountForKind) ''money'')
         else if now = zero_time then Inl (missing ''now'')
         else if m_currency amount \<noteq> Wallet_Currency w
         then Inl (WithField (New CurrencyMismatch) ''money'')
         else let held = w_balance w
              in bindE (applyDirection d held amount) (\<lambda>after.
                if Money_IsNegative after then Inl (New InsufficientFunds)
                else bindE (NewWalletLedgerEntry
                    \<lparr>li_ID = mv_EntryID m, li_WalletID = w_id w,
                     li_TransactionID = mv_TransactionID m, li_Direction = d, li_Amount = amount,
                     li_BalanceBefore = held, li_BalanceAfter = after,
                     li_WalletVersion = w_version w + 1, li_CreatedAt = now\<rparr>) (\<lambda>entry.
                  Inr (entry, w\<lparr>w_balance := after, w_version := w_version w + 1,
                               w_updatedAt := now\<rparr>))))"

definition Wallet_Debit :: "movement_input \<Rightarrow> wallet \<Rightarrow> (ledger_entry \<times> wallet) res" where
  "Wallet_Debit m w = Wallet_move Debit m w"

definition Wallet_Credit :: "movement_input \<Rightarrow> wallet \<Rightarrow> (ledger_entry \<times> wallet) res" where
  "Wallet_Credit m w = Wallet_move Credit m w"

definition OpenWallet ::
  "open_wallet_input \<Rightarrow> wallet option \<Rightarrow> instant \<Rightarrow> (wallet \<times> outcome) res" where
  "OpenWallet i existing now =
     (if ID_IsZero (ow_WalletID i) then Inl (missing ''walletId'')
      else if ow_PlayerID i = [] then Inl (missing ''playerId'')
      else if Money_IsUninitialized (ow_InitialBalance i) then Inl (uninitialized ''initialBalance'')
      else if Money_IsNegative (ow_InitialBalance i)
      then Inl (WithField (New InvalidAmountForKind) ''initialBalance'')
      else if now = zero_time then Inl (missing ''now'')
      else bindE (NewPlayerID (ow_PlayerID i)) (\<lambda>_.
        let key = \<lparr>wk_PlayerID = ow_PlayerID i, wk_Currency = m_currency (ow_InitialBalance i)\<rparr>
        in (case existing of
              Some e \<Rightarrow>
                if Wallet_Key e \<noteq> key then Inl (WithField (New ReferenceMismatch) ''existing'')
                else Inl (New WalletAlreadyExists)
            | None \<Rightarrow>
                bindE (Money_Zero (m_currency (ow_InitialBalance i))) (\<lambda>zero.
                  let w = \<lparr>w_id = ow_WalletID i, w_playerID = ow_PlayerID i, w_balance = zero,
                           w_version = 1, w_createdAt = now, w_updatedAt = now\<rparr>
                  in if Money_IsZero (ow_InitialBalance i) then
                       (if \<not> ID_IsZero (ow_TransactionID i) \<or> \<not> ID_IsZero (ow_LedgerEntryID i)
                        then Inl (WithField (New ReferenceNotApplicable) ''transactionId'')
                        else Inr (w, no_outcome))
                     else if ID_IsZero (ow_TransactionID i)
                     then Inl (WithField (New MissingRequiredField) ''transactionId'')
                     else if ID_IsZero (ow_LedgerEntryID i)
                     then Inl (WithField (New MissingRequiredField) ''ledgerEntryId'')
                     else bindE (newOpeningTransaction i now) (\<lambda>tx.
                          bindE (Wallet_Credit
                            \<lparr>mv_EntryID = ow_LedgerEntryID i, mv_TransactionID = ow_TransactionID i,
                             mv_Amount = ow_InitialBalance i, mv_At = now\<rparr>
                            (w\<lparr>w_version := 0\<rparr>)) (\<lambda>moved.
                          bindE (NewWagerTransactionProcessed (Some tx)) (\<lambda>processed.
                          bindE (NewWalletBalanceChanged (fst moved)) (\<lambda>changed.
                          Inr (snd moved,
                            \<lparr>o_Transaction = Some tx, o_LedgerEntry = Some (fst moved),
                             o_Events = [processed, changed]\<rparr>)))))))))"

definition wallet_of_snapshot :: "wallet_snapshot \<Rightarrow> wallet" where
  "wallet_of_snapshot s =
     \<lparr>w_id = ws_ID s, w_playerID = ws_PlayerID s, w_balance = ws_Balance s,
      w_version = ws_Version s, w_createdAt = ws_CreatedAt s, w_updatedAt = ws_UpdatedAt s\<rparr>"

definition RehydrateWallet :: "wallet_snapshot \<Rightarrow> wallet res" where
  "RehydrateWallet s =
     (if ID_IsZero (ws_ID s) then Inl (missing ''id'')
      else if Money_IsUninitialized (ws_Balance s) then Inl (uninitialized ''balance'')
      else if Money_IsNegative (ws_Balance s)
      then Inl (WithField (New InsufficientFunds) ''balance'')
      else if ws_Version s = 0 then Inl (WithField (New InvalidFieldFormat) ''version'')
      else if ws_CreatedAt s = zero_time then Inl (missing ''createdAt'')
      else if ws_UpdatedAt s = zero_time then Inl (missing ''updatedAt'')
      else if ws_UpdatedAt s < ws_CreatedAt s
      then Inl (WithField (New InvalidFieldFormat) ''updatedAt'')
      else bindE (NewPlayerID (ws_PlayerID s)) (\<lambda>_. Inr (wallet_of_snapshot s)))"

section \<open>Invariant\<close>

definition wallet_ok :: "wallet \<Rightarrow> bool" where
  "wallet_ok w \<longleftrightarrow>
     w_id w \<noteq> 0 \<and> opaque_ok (w_playerID w) \<and> cur_code (Wallet_Currency w) \<noteq> []
     \<and> 0 \<le> sint (m_units (w_balance w)) \<and> w_version w \<noteq> 0
     \<and> w_createdAt w \<noteq> 0 \<and> w_updatedAt w \<noteq> 0 \<and> w_createdAt w \<le> w_updatedAt w"

definition snapshot_of_wallet :: "wallet \<Rightarrow> wallet_snapshot" where
  "snapshot_of_wallet w =
     \<lparr>ws_ID = w_id w, ws_PlayerID = w_playerID w, ws_Balance = w_balance w,
      ws_Version = w_version w, ws_CreatedAt = w_createdAt w, ws_UpdatedAt = w_updatedAt w\<rparr>"

lemma RehydrateWallet_Inr_iff:
  "RehydrateWallet s = Inr w \<longleftrightarrow> wallet_ok w \<and> s = snapshot_of_wallet w"
  by (cases s; cases w)
    (auto simp: RehydrateWallet_def wallet_ok_def snapshot_of_wallet_def wallet_of_snapshot_def
      money_predicates sless_int NewPlayerID_def ID_IsZero_def Wallet_Currency_def)

section \<open>A movement, as integers\<close>

definition wallet_units :: "wallet \<Rightarrow> int" where
  "wallet_units w = sint (m_units (w_balance w))"

definition movement_ok :: "wallet \<Rightarrow> movement_input \<Rightarrow> bool" where
  "movement_ok w m \<longleftrightarrow>
     mv_EntryID m \<noteq> 0 \<and> mv_TransactionID m \<noteq> 0 \<and> mv_At m \<noteq> 0
     \<and> m_currency (mv_Amount m) = Wallet_Currency w \<and> 0 < sint (m_units (mv_Amount m))"

definition balance_after :: "direction \<Rightarrow> movement_input \<Rightarrow> wallet \<Rightarrow> int" where
  "balance_after d m w = wallet_units w + signed_by d (sint (m_units (mv_Amount m)))"

definition moved_wallet :: "direction \<Rightarrow> movement_input \<Rightarrow> wallet \<Rightarrow> wallet" where
  "moved_wallet d m w =
     w\<lparr>w_balance := \<lparr>m_units = int64_of (balance_after d m w), m_currency = Wallet_Currency w\<rparr>,
       w_version := w_version w + 1, w_updatedAt := mv_At m\<rparr>"

definition movement_entry :: "direction \<Rightarrow> movement_input \<Rightarrow> wallet \<Rightarrow> ledger_entry" where
  "movement_entry d m w =
     \<lparr>le_id = mv_EntryID m, le_walletID = w_id w, le_transactionID = mv_TransactionID m,
      le_direction = d, le_amount = mv_Amount m, le_balanceBefore = w_balance w,
      le_balanceAfter = w_balance (moved_wallet d m w), le_walletVersion = w_version w + 1,
      le_createdAt = mv_At m\<rparr>"

lemma signed_amount_range:
  assumes "0 \<le> sint (a :: int64)" "0 < sint (b :: int64)"
  shows "sint a + signed_by d (sint b) \<in> int64_range \<longleftrightarrow>
    sint a + signed_by d (sint b) \<le> sint MaxInt64"
  using assms sint_in_range [of a] sint_in_range [of b]
  by (cases d) (auto simp: int64_range_def sint_MaxInt64)

lemma applyDirection_balance:
  assumes "Direction_Known d" "movement_ok w m" "0 \<le> wallet_units w" "cur_code (Wallet_Currency w) \<noteq> []"
  shows "applyDirection d (w_balance w) (mv_Amount m) =
    (if balance_after d m w \<le> sint MaxInt64 then Inr (w_balance (moved_wallet d m w))
     else Inl (New AmountOutOfRange))"
proof -
  have "\<not> Money_IsUninitialized (w_balance w)" "m_currency (mv_Amount m) = m_currency (w_balance w)"
    using assms by (auto simp: money_predicates movement_ok_def Wallet_Currency_def)
  note eq = applyDirection_eq [OF assms(1) this]
  have "sint (m_units (w_balance w)) + signed_by d (sint (m_units (mv_Amount m))) \<in> int64_range
      \<longleftrightarrow> balance_after d m w \<le> sint MaxInt64"
    using assms by (simp add: signed_amount_range movement_ok_def wallet_units_def balance_after_def)
  then show ?thesis
    by (simp add: eq Let_def balance_after_def wallet_units_def moved_wallet_def Wallet_Currency_def)
qed

lemma balance_after_in_range:
  assumes "movement_ok w m" "0 \<le> wallet_units w" "balance_after d m w \<le> sint MaxInt64"
  shows "balance_after d m w \<in> int64_range"
  using assms signed_amount_range [of "m_units (w_balance w)" "m_units (mv_Amount m)" d]
  by (simp add: movement_ok_def wallet_units_def balance_after_def)

lemma moved_units:
  assumes "balance_after d m w \<in> int64_range"
  shows "wallet_units (moved_wallet d m w) = balance_after d m w"
  using assms by (simp add: wallet_units_def moved_wallet_def sint_int64_of)

lemma moved_currency: "m_currency (w_balance (moved_wallet d m w)) = Wallet_Currency w"
  by (simp add: moved_wallet_def)

text \<open>
  What a movement does on a wallet that may still be at version 0, which is how opening
  credits a new one.
\<close>

definition movable :: "wallet \<Rightarrow> bool" where
  "movable w \<longleftrightarrow> w_id w \<noteq> 0 \<and> cur_code (Wallet_Currency w) \<noteq> [] \<and> 0 \<le> wallet_units w"

lemma wallet_ok_movable: "wallet_ok w \<Longrightarrow> movable w"
  by (simp add: wallet_ok_def movable_def wallet_units_def)

lemma movement_entry_eq:
  "entry_of_input
     \<lparr>li_ID = mv_EntryID m, li_WalletID = w_id w, li_TransactionID = mv_TransactionID m,
      li_Direction = d, li_Amount = mv_Amount m, li_BalanceBefore = w_balance w,
      li_BalanceAfter = w_balance (moved_wallet d m w), li_WalletVersion = w_version w + 1,
      li_CreatedAt = mv_At m\<rparr> = movement_entry d m w"
  by (simp add: entry_of_input_def movement_entry_def)

lemma movement_entry_ok:
  assumes "movable w" "Direction_Known d" "movement_ok w m"
    "0 \<le> balance_after d m w" "balance_after d m w \<le> sint MaxInt64" "w_version w + 1 \<noteq> 0"
  shows "entry_ok (movement_entry d m w)"
proof -
  have "sint (m_units (w_balance (moved_wallet d m w))) = balance_after d m w"
    using moved_units [OF balance_after_in_range] assms by (simp add: wallet_units_def movable_def)
  then show ?thesis
    using assms
    by (auto simp: entry_ok_def movement_entry_def movable_def movement_ok_def moved_wallet_def
        Wallet_Currency_def wallet_units_def balance_after_def)
qed

lemma Wallet_move_eq:
  assumes "movable w" "Direction_Known d" "movement_ok w m"
  shows "Wallet_move d m w =
    (if sint MaxInt64 < balance_after d m w then Inl (New AmountOutOfRange)
     else if balance_after d m w < 0 then Inl (New InsufficientFunds)
     else if w_version w + 1 = 0 then Inl (WithField (New InvalidFieldFormat) ''walletVersion'')
     else Inr (movement_entry d m w, moved_wallet d m w))"
proof -
  have m: "mv_EntryID m \<noteq> 0" "mv_TransactionID m \<noteq> 0" "mv_At m \<noteq> 0"
    "m_currency (mv_Amount m) = Wallet_Currency w" "0 < sint (m_units (mv_Amount m))"
    and w: "w_id w \<noteq> 0" "cur_code (Wallet_Currency w) \<noteq> []" "0 \<le> wallet_units w"
    using assms by (auto simp: movement_ok_def movable_def)
  note ap = applyDirection_balance [OF assms(2,3) w(3,2)]
  define inp where "inp after =
     \<lparr>li_ID = mv_EntryID m, li_WalletID = w_id w, li_TransactionID = mv_TransactionID m,
      li_Direction = d, li_Amount = mv_Amount m, li_BalanceBefore = w_balance w,
      li_BalanceAfter = after, li_WalletVersion = w_version w + 1, li_CreatedAt = mv_At m\<rparr>" for after
  let ?i = "inp (w_balance (moved_wallet d m w))"
  have "Wallet_move d m w =
      bindE (applyDirection d (w_balance w) (mv_Amount m)) (\<lambda>after.
        if Money_IsNegative after then Inl (New InsufficientFunds)
        else bindE (NewWalletLedgerEntry (inp after)) (\<lambda>entry.
          Inr (entry, w\<lparr>w_balance := after, w_version := w_version w + 1, w_updatedAt := mv_At m\<rparr>)))"
    using m w by (simp add: Wallet_move_def Let_def ID_IsZero_def money_predicates sless_int inp_def
        cong: if_cong)
  also have "\<dots> = (if sint MaxInt64 < balance_after d m w then Inl (New AmountOutOfRange)
      else if Money_IsNegative (w_balance (moved_wallet d m w)) then Inl (New InsufficientFunds)
      else bindE (NewWalletLedgerEntry ?i) (\<lambda>entry. Inr (entry, moved_wallet d m w)))"
    by (simp add: ap moved_wallet_def)
  also have "\<dots> = (if sint MaxInt64 < balance_after d m w then Inl (New AmountOutOfRange)
      else if balance_after d m w < 0 then Inl (New InsufficientFunds)
      else bindE (NewWalletLedgerEntry ?i) (\<lambda>entry. Inr (entry, moved_wallet d m w)))"
    using moved_units [OF balance_after_in_range [OF assms(3) w(3)]] w(2)
    by (simp add: money_predicates sless_int wallet_units_def not_less moved_currency)
  finally have step: "Wallet_move d m w = \<dots>" .
  show ?thesis
  proof (cases "w_version w + 1 = 0")
    case True
    then have "NewWalletLedgerEntry ?i = Inl (WithField (New InvalidFieldFormat) ''walletVersion'')"
      using m w by (simp add: NewWalletLedgerEntry_def ID_IsZero_def inp_def)
    with True show ?thesis by (simp add: step)
  next
    case False
    then have "NewWalletLedgerEntry ?i = Inr (movement_entry d m w)"
      if "\<not> sint MaxInt64 < balance_after d m w" "\<not> balance_after d m w < 0"
      using movement_entry_ok [OF assms] that
      by (simp add: NewWalletLedgerEntry_Inr_iff movement_entry_eq inp_def)
    with False show ?thesis by (simp add: step)
  qed
qed

lemma Wallet_move_Inr_iff:
  "Wallet_move d m w = Inr (e, w') \<longleftrightarrow>
     movable w \<and> Direction_Known d \<and> movement_ok w m \<and> w_version w + 1 \<noteq> 0
     \<and> 0 \<le> balance_after d m w \<and> balance_after d m w \<le> sint MaxInt64
     \<and> e = movement_entry d m w \<and> w' = moved_wallet d m w"
proof (cases "movable w \<and> Direction_Known d \<and> movement_ok w m")
  case True
  then show ?thesis using Wallet_move_eq [of w d m] by auto
next
  case False
  have "movable w \<and> Direction_Known d \<and> movement_ok w m" if move: "Wallet_move d m w = Inr (e, w')"
  proof -
    from move have "entry_ok e" "le_walletID e = w_id w" "le_balanceBefore e = w_balance w"
      "le_direction e = d" and "movement_ok w m"
      by (auto simp: Wallet_move_def Let_def NewWalletLedgerEntry_Inr_iff entry_of_input_def
          movement_ok_def ID_IsZero_def money_predicates sless_int)
    then show ?thesis by (auto simp: entry_ok_def movable_def Wallet_Currency_def wallet_units_def)
  qed
  with False show ?thesis by blast
qed

lemma moved_wallet_ok:
  assumes "Wallet_move d m w = Inr (e, w')" "opaque_ok (w_playerID w)"
    "w_createdAt w \<noteq> 0" "w_createdAt w \<le> mv_At m"
  shows "wallet_ok w'"
  using assms moved_units [OF balance_after_in_range, of w m d]
  by (auto simp: Wallet_move_Inr_iff wallet_ok_def movable_def movement_ok_def wallet_units_def
      moved_currency Wallet_Currency_def) (auto simp: moved_wallet_def)

section \<open>Keeping a book\<close>

text \<open>
  The contract between an account and its ledger, for any account: a movement the account
  accepts returns an entry whose signed amount is exactly the change of balance, and never
  leaves the account below zero. \<open>run_moves\<close> applies a sequence of movements, in which a
  refused one changes nothing.
\<close>

primrec run_moves :: "('m \<Rightarrow> 'w \<Rightarrow> ('e \<times> 'w) res) \<Rightarrow> 'm list \<Rightarrow> 'w \<Rightarrow> 'e list \<times> 'w" where
  "run_moves move [] w = ([], w)"
| "run_moves move (m # ms) w =
     (case move m w of
        Inl _ \<Rightarrow> run_moves move ms w
      | Inr r \<Rightarrow> (fst r # fst (run_moves move ms (snd r)), snd (run_moves move ms (snd r))))"

locale book =
  fixes balance :: "'w \<Rightarrow> int" and move :: "'m \<Rightarrow> 'w \<Rightarrow> ('e \<times> 'w) res" and delta :: "'e \<Rightarrow> int"
  assumes move_recorded: "move m w = Inr (e, w') \<Longrightarrow> balance w' = balance w + delta e"
    and move_nonnegative: "move m w = Inr (e, w') \<Longrightarrow> 0 \<le> balance w'"
begin

lemma run_balance: "balance (snd (run_moves move ms w)) = balance w + sum_list (map delta (fst (run_moves move ms w)))"
  by (induction ms arbitrary: w) (auto split: sum.splits dest: move_recorded)

lemma run_prefix_nonnegative:
  "0 \<le> balance w \<Longrightarrow>
   0 \<le> balance w + sum_list (map delta (take k (fst (run_moves move ms w))))"
proof (induction ms arbitrary: w k)
  case (Cons m ms)
  show ?case
  proof (cases "move m w")
    case (Inr r)
    then have step: "balance (snd r) = balance w + delta (fst r)" "0 \<le> balance (snd r)"
      by (auto intro: move_recorded move_nonnegative [of m w "fst r" "snd r"])
    from Cons.IH [OF step(2), of "k - 1"] Cons.prems Inr step(1) show ?thesis
      by (cases k) (auto simp: algebra_simps)
  qed (use Cons in simp)
qed simp

lemma run_upper:
  assumes "\<And>w. balance w \<le> limit"
  shows "balance w + sum_list (map delta (take k (fst (run_moves move ms w)))) \<le> limit"
proof (induction ms arbitrary: w k)
  case (Cons m ms)
  show ?case
  proof (cases "move m w")
    case (Inr r)
    then have "balance (snd r) = balance w + delta (fst r)" by (auto intro: move_recorded)
    with Cons.IH [of "snd r" "k - 1"] assms [of w] Inr show ?thesis
      by (cases k) (auto simp: algebra_simps)
  qed (use Cons in simp)
qed (use assms in simp)

end

definition entry_delta :: "ledger_entry \<Rightarrow> int" where
  "entry_delta e = signed_by (le_direction e) (sint (m_units (le_amount e)))"

definition wallet_step :: "direction \<times> movement_input \<Rightarrow> wallet \<Rightarrow> (ledger_entry \<times> wallet) res" where
  "wallet_step dm w = Wallet_move (fst dm) (snd dm) w"

interpretation wbook: book wallet_units wallet_step entry_delta
proof unfold_locales
  fix dm w e w'
  assume "wallet_step dm w = Inr (e, w')"
  then have mv: "Wallet_move (fst dm) (snd dm) w = Inr (e, w')" by (simp add: wallet_step_def)
  then have "wallet_units w' = balance_after (fst dm) (snd dm) w" "0 \<le> balance_after (fst dm) (snd dm) w"
    using moved_units [OF balance_after_in_range] by (auto simp: Wallet_move_Inr_iff movable_def)
  moreover have "entry_delta e = signed_by (fst dm) (sint (m_units (mv_Amount (snd dm))))"
    using mv by (simp add: Wallet_move_Inr_iff movement_entry_def entry_delta_def)
  ultimately show "wallet_units w' = wallet_units w + entry_delta e" "0 \<le> wallet_units w'"
    by (simp_all add: balance_after_def)
qed

section \<open>Opening\<close>

definition opened_wallet :: "open_wallet_input \<Rightarrow> instant \<Rightarrow> wallet" where
  "opened_wallet i now =
     \<lparr>w_id = ow_WalletID i, w_playerID = ow_PlayerID i, w_balance = ow_InitialBalance i,
      w_version = 1, w_createdAt = now, w_updatedAt = now\<rparr>"

definition open_input_ok :: "open_wallet_input \<Rightarrow> bool" where
  "open_input_ok i \<longleftrightarrow>
     ow_WalletID i \<noteq> 0 \<and> opaque_ok (ow_PlayerID i)
     \<and> cur_code (m_currency (ow_InitialBalance i)) \<noteq> []
     \<and> 0 \<le> sint (m_units (ow_InitialBalance i))
     \<and> (if sint (m_units (ow_InitialBalance i)) = 0
        then ow_TransactionID i = 0 \<and> ow_LedgerEntryID i = 0
        else ow_TransactionID i \<noteq> 0 \<and> ow_LedgerEntryID i \<noteq> 0)"

text \<open>The credit that opens a wallet with a balance, from version 0.\<close>

definition opening_credit :: "open_wallet_input \<Rightarrow> instant \<Rightarrow> movement_input" where
  "opening_credit i now =
     \<lparr>mv_EntryID = ow_LedgerEntryID i, mv_TransactionID = ow_TransactionID i,
      mv_Amount = ow_InitialBalance i, mv_At = now\<rparr>"

definition empty_wallet :: "open_wallet_input \<Rightarrow> instant \<Rightarrow> wallet" where
  "empty_wallet i now =
     \<lparr>w_id = ow_WalletID i, w_playerID = ow_PlayerID i,
      w_balance = \<lparr>m_units = 0, m_currency = m_currency (ow_InitialBalance i)\<rparr>,
      w_version = 0, w_createdAt = now, w_updatedAt = now\<rparr>"

lemma opening_credit_eq:
  assumes "open_input_ok i" "sint (m_units (ow_InitialBalance i)) \<noteq> 0" "now \<noteq> 0"
  shows "Wallet_move Credit (opening_credit i now) (empty_wallet i now)
    = Inr (movement_entry Credit (opening_credit i now) (empty_wallet i now), opened_wallet i now)"
proof -
  have bal: "balance_after Credit (opening_credit i now) (empty_wallet i now)
      = sint (m_units (ow_InitialBalance i))"
    by (simp add: balance_after_def opening_credit_def empty_wallet_def wallet_units_def)
  have moved: "moved_wallet Credit (opening_credit i now) (empty_wallet i now) = opened_wallet i now"
    unfolding moved_wallet_def bal
    by (simp add: opened_wallet_def empty_wallet_def opening_credit_def Wallet_Currency_def
        int64_of_sint)
  show ?thesis
    using assms sint_in_range [of "m_units (ow_InitialBalance i)"]
    by (simp add: Wallet_move_Inr_iff bal moved open_input_ok_def movable_def movement_ok_def
        Direction_Known_def sint_MaxInt64 int64_range_def)
      (simp add: opening_credit_def empty_wallet_def Wallet_Currency_def wallet_units_def)
qed

definition opening_entry :: "open_wallet_input \<Rightarrow> instant \<Rightarrow> ledger_entry" where
  "opening_entry i now = movement_entry Credit (opening_credit i now) (empty_wallet i now)"

definition opening_outcome :: "open_wallet_input \<Rightarrow> instant \<Rightarrow> outcome \<Rightarrow> bool" where
  "opening_outcome i now out \<longleftrightarrow>
     (if sint (m_units (ow_InitialBalance i)) = 0 then out = no_outcome
      else o_Transaction out = Some (opening_transaction i now)
           \<and> o_LedgerEntry out = Some (opening_entry i now)
           \<and> map EventType (o_Events out) = [''WagerTransactionProcessed'', ''WalletBalanceChanged'']
           \<and> list_all (event_describes (opening_transaction i now) (Some (opening_entry i now)))
               (o_Events out))"

lemma opening_events:
  assumes "open_input_ok i" "sint (m_units (ow_InitialBalance i)) \<noteq> 0"
  obtains p b where
    "NewWagerTransactionProcessed (Some (opening_transaction i now)) = Inr p"
    "NewWalletBalanceChanged (opening_entry i now) = Inr b"
proof -
  have "\<exists>p. NewWagerTransactionProcessed (Some (opening_transaction i now)) = Inr p"
    using assms by (simp add: processed_event_exists opening_transaction_def Tx_Result_def
        money_predicates open_input_ok_def)
  moreover have "\<exists>b. NewWalletBalanceChanged (opening_entry i now) = Inr b"
    using assms by (simp add: balance_event_exists opening_entry_def movement_entry_def
        opening_credit_def open_input_ok_def)
  ultimately show ?thesis using that by blast
qed

text \<open>What opening does once its input has passed.\<close>

lemma OpenWallet_new:
  assumes "open_input_ok i" "now \<noteq> 0"
  shows "OpenWallet i None now =
    (if sint (m_units (ow_InitialBalance i)) = 0 then Inr (opened_wallet i now, no_outcome)
     else bindE (NewWagerTransactionProcessed (Some (opening_transaction i now))) (\<lambda>p.
          bindE (NewWalletBalanceChanged (opening_entry i now)) (\<lambda>b.
          Inr (opened_wallet i now,
            \<lparr>o_Transaction = Some (opening_transaction i now),
             o_LedgerEntry = Some (opening_entry i now), o_Events = [p, b]\<rparr>))))"
proof -
  have guards: "ow_WalletID i \<noteq> 0" "ow_PlayerID i \<noteq> []" "opaque_ok (ow_PlayerID i)"
    "cur_code (m_currency (ow_InitialBalance i)) \<noteq> []" "0 \<le> sint (m_units (ow_InitialBalance i))"
    using assms by (auto simp: open_input_ok_def opaque_ok_def)
  have zero: "Money_Zero (m_currency (ow_InitialBalance i))
      = Inr \<lparr>m_units = 0, m_currency = m_currency (ow_InitialBalance i)\<rparr>"
    using guards by (simp add: Money_Zero_def FromMinorUnits_def Currency_IsZero_def)
  have player: "NewPlayerID (ow_PlayerID i) = Inr (ow_PlayerID i)"
    using guards by (simp add: NewPlayerID_def)
  show ?thesis
  proof (cases "sint (m_units (ow_InitialBalance i)) = 0")
    case True
    then have "\<lparr>m_units = 0, m_currency = m_currency (ow_InitialBalance i)\<rparr> = ow_InitialBalance i"
      by (simp add: sint_zero_iff_int64)
    with True guards assms show ?thesis
      by (simp add: OpenWallet_def zero player Let_def ID_IsZero_def money_predicates sless_int
          open_input_ok_def opened_wallet_def sint_zero_iff_int64)
  next
    case False
    have "newOpeningTransaction i now = Inr (opening_transaction i now)"
      using guards assms False by (simp add: newOpeningTransaction_Inr_iff open_input_ok_def)
    moreover have "Wallet_Credit (opening_credit i now) (empty_wallet i now)
        = Inr (opening_entry i now, opened_wallet i now)"
      using opening_credit_eq [OF assms(1) False assms(2)]
      by (simp add: Wallet_Credit_def opening_entry_def)
    ultimately show ?thesis
      using False guards assms
      by (simp add: OpenWallet_def zero player Let_def ID_IsZero_def money_predicates sless_int
          open_input_ok_def sint_zero_iff_int64 flip: opening_credit_def empty_wallet_def)
  qed
qed

lemma OpenWallet_Inr_iff:
  "OpenWallet i existing now = Inr (w, out) \<longleftrightarrow>
     existing = None \<and> open_input_ok i \<and> now \<noteq> 0 \<and> w = opened_wallet i now
     \<and> OpenWallet i None now = Inr (opened_wallet i now, out)"
proof -
  have "existing = None \<and> open_input_ok i \<and> now \<noteq> 0" if "OpenWallet i existing now = Inr (w, out)"
    using that
    by (cases existing)
      (auto simp: OpenWallet_def Let_def open_input_ok_def NewPlayerID_def ID_IsZero_def
        money_predicates sless_int sint_zero_iff_int64 split: if_splits)
  moreover from this have "w = opened_wallet i now" if "OpenWallet i existing now = Inr (w, out)"
    using that OpenWallet_new [of i now] by (auto split: if_splits)
  ultimately show ?thesis by metis
qed

lemma opened_wallet_ok: "open_input_ok i \<Longrightarrow> now \<noteq> 0 \<Longrightarrow> wallet_ok (opened_wallet i now)"
  by (simp add: wallet_ok_def opened_wallet_def open_input_ok_def Wallet_Currency_def)

lemma OpenWallet_outcome:
  assumes "open_input_ok i" "now \<noteq> 0"
  shows "\<exists>out. OpenWallet i None now = Inr (opened_wallet i now, out) \<and> opening_outcome i now out"
proof (cases "sint (m_units (ow_InitialBalance i)) = 0")
  case True
  then show ?thesis using OpenWallet_new [OF assms] by (simp add: opening_outcome_def)
next
  case False
  from opening_events [OF assms(1) False] obtain p b where ev:
    "NewWagerTransactionProcessed (Some (opening_transaction i now)) = Inr p"
    "NewWalletBalanceChanged (opening_entry i now) = Inr b" by metis
  then show ?thesis
    using False OpenWallet_new [OF assms]
      processed_event_Inr [OF ev(1), of "Some (opening_entry i now)"]
      balance_event_Inr [OF ev(2), of "opening_transaction i now"]
    by (simp add: opening_outcome_def)
qed

section \<open>The chain of a ledger\<close>

text \<open>
  Entries follow one another: each starts from the balance and the version the previous one
  left, and the version never wraps.
\<close>

primrec chained :: "money \<Rightarrow> uint64 \<Rightarrow> ledger_entry list \<Rightarrow> bool" where
  "chained b v [] = True"
| "chained b v (e # es) \<longleftrightarrow>
     entry_ok e \<and> le_balanceBefore e = b \<and> le_walletVersion e = v + 1
     \<and> unat (le_walletVersion e) = unat v + 1 \<and> chained (le_balanceAfter e) (le_walletVersion e) es"

lemma Suc_version: "(v :: uint64) + 1 \<noteq> 0 \<Longrightarrow> unat (v + 1) = unat v + 1"
  by (metis Suc_eq_plus1 add.commute unatSuc)

lemma move_entry_links:
  assumes "Wallet_move d m w = Inr (e, w')"
  shows "entry_ok e \<and> le_balanceBefore e = w_balance w \<and> le_balanceAfter e = w_balance w'
    \<and> le_walletVersion e = w_version w + 1 \<and> w_version w' = w_version w + 1
    \<and> unat (w_version w') = unat (w_version w) + 1
    \<and> w_id w' = w_id w \<and> w_playerID w' = w_playerID w \<and> Wallet_Currency w' = Wallet_Currency w
    \<and> w_createdAt w' = w_createdAt w \<and> le_walletID e = w_id w \<and> le_direction e = d
    \<and> le_amount e = mv_Amount m \<and> le_transactionID e = mv_TransactionID m \<and> le_id e = mv_EntryID m"
proof -
  from assms have "entry_ok e"
    using movement_entry_ok [of w d m] by (auto simp: Wallet_move_Inr_iff)
  moreover from assms have "w_version w + 1 \<noteq> 0" by (simp add: Wallet_move_Inr_iff)
  ultimately show ?thesis
    using assms Suc_version [of "w_version w"]
    by (auto simp: Wallet_move_Inr_iff movement_entry_def moved_wallet_def Wallet_Currency_def)
qed

lemma run_chained:
  "run_moves wallet_step ms w = (es, w') \<Longrightarrow>
   chained (w_balance w) (w_version w) es
   \<and> unat (w_version w') = unat (w_version w) + length es
   \<and> w_id w' = w_id w \<and> Wallet_Currency w' = Wallet_Currency w \<and> w_playerID w' = w_playerID w
   \<and> (\<forall>e \<in> set es. le_walletID e = w_id w \<and> m_currency (le_amount e) = Wallet_Currency w)"
proof (induction ms arbitrary: w es w')
  case (Cons m ms)
  show ?case
  proof (cases "wallet_step m w")
    case (Inl x)
    with Cons show ?thesis by simp
  next
    case (Inr r)
    obtain e w1 where r: "r = (e, w1)" by force
    with Inr have mv: "Wallet_move (fst m) (snd m) w = Inr (e, w1)" by (simp add: wallet_step_def)
    obtain es1 where es1: "run_moves wallet_step ms w1 = (es1, w')" "es = e # es1"
      using Cons.prems Inr r by (auto simp: prod_eq_iff)
    from move_entry_links [OF mv] Cons.IH [OF es1(1)] show ?thesis
      by (auto simp: es1(2) entry_ok_def Wallet_Currency_def)
  qed
qed simp

section \<open>Properties\<close>

text \<open>
  C33: a movement does exactly what it says or nothing at all. On a well formed wallet, with
  a well formed positive amount in its currency, a movement succeeds exactly when the new
  balance is neither negative nor beyond the largest representable amount and the version
  does not wrap; it then returns the entry of the change and a well formed wallet whose
  balance, read as an integer, is the old one plus or minus the amount. Otherwise it reports
  which of the three limits it met, and there is no wallet state to keep.
\<close>

theorem wallet_movement_exact:
  assumes "wallet_ok w" "Direction_Known d" "movement_ok w m" "w_updatedAt w \<le> mv_At m"
  shows "case Wallet_move d m w of
      Inl err \<Rightarrow>
        (sint MaxInt64 < balance_after d m w \<and> err = New AmountOutOfRange)
        \<or> (balance_after d m w < 0 \<and> err = New InsufficientFunds)
        \<or> (0 \<le> balance_after d m w \<and> balance_after d m w \<le> sint MaxInt64
           \<and> unat (w_version w) = 2 ^ 64 - 1
           \<and> err = WithField (New InvalidFieldFormat) ''walletVersion'')
    | Inr (e, w') \<Rightarrow>
        wallet_ok w' \<and> entry_ok e
        \<and> wallet_units w' = wallet_units w + signed_by d (sint (m_units (mv_Amount m)))
        \<and> unat (w_version w') = unat (w_version w) + 1
        \<and> le_balanceBefore e = w_balance w \<and> le_balanceAfter e = w_balance w'
        \<and> le_walletVersion e = w_version w' \<and> le_amount e = mv_Amount m
        \<and> Wallet_Key w' = Wallet_Key w \<and> w_id w' = w_id w"
proof (cases "Wallet_move d m w")
  case (Inl err)
  have wrap: "unat (w_version w) = 2 ^ 64 - 1" if "w_version w + 1 = 0"
  proof -
    have "w_version w = - 1" using that by (simp add: eq_neg_iff_add_eq_0)
    then show ?thesis by (simp add: unsigned_minus_1_eq_mask mask_eq_exp_minus_1)
  qed
  then show ?thesis
    using Inl Wallet_move_eq [OF wallet_ok_movable [OF assms(1)] assms(2,3)]
    by (auto split: if_splits)
next
  case (Inr r)
  obtain e w' where r: "r = (e, w')" by force
  with Inr have mv: "Wallet_move d m w = Inr (e, w')" by simp
  have "wallet_ok w'"
    using moved_wallet_ok [OF mv] assms(1,4) by (simp add: wallet_ok_def)
  moreover have "wallet_units w' = wallet_units w + signed_by d (sint (m_units (mv_Amount m)))"
    using wbook.move_recorded [of "(d, m)" w e w'] mv move_entry_links [OF mv]
    by (simp add: wallet_step_def entry_delta_def)
  ultimately show ?thesis
    using move_entry_links [OF mv] by (auto simp: Inr r Wallet_Key_def)
qed

theorem wallet_movement_exact_witness:
  "let w = opened_wallet \<lparr>ow_WalletID = 13, ow_PlayerID = ''player-1'', ow_InitialBalance = brl 1000,
             ow_TransactionID = 5, ow_LedgerEntryID = 6\<rparr> 10;
       m = \<lparr>mv_EntryID = 12, mv_TransactionID = 11, mv_Amount = brl 300, mv_At = 20\<rparr>
   in \<exists>e w'. Wallet_move Debit m w = Inr (e, w') \<and> wallet_ok w' \<and> wallet_units w' = 700"
proof -
  define i where "i = \<lparr>ow_WalletID = 13, ow_PlayerID = ''player-1'', ow_InitialBalance = brl 1000,
             ow_TransactionID = 5, ow_LedgerEntryID = 6\<rparr>"
  define m where "m = \<lparr>mv_EntryID = 12, mv_TransactionID = 11, mv_Amount = brl 300, mv_At = 20\<rparr>"
  define w where "w = opened_wallet i 10"
  have w: "wallet_ok w" unfolding w_def
    by (rule opened_wallet_ok) (simp_all add: i_def open_input_ok_def brl_def)
  have m: "movement_ok w m"
    by (simp add: movement_ok_def m_def w_def i_def brl_def opened_wallet_def Wallet_Currency_def)
  have units: "wallet_units w = 1000" and b: "balance_after Debit m w = 700"
    and v: "w_version w = 1" and t: "w_updatedAt w \<le> mv_At m"
    by (simp_all add: wallet_units_def balance_after_def m_def w_def i_def brl_def opened_wallet_def)
  have "Wallet_move Debit m w = Inr (movement_entry Debit m w, moved_wallet Debit m w)"
    using w m b v
    by (simp add: Wallet_move_Inr_iff wallet_ok_movable Direction_Known_def sint_MaxInt64)
  with wallet_movement_exact [OF w _ m t, of Debit] units show ?thesis
    by (simp add: Let_def Direction_Known_def flip: i_def m_def w_def) (simp add: m_def brl_def)
qed

text \<open>
  Opening a wallet is exact. It succeeds if and only if no wallet exists for the key,
  the input is well formed, and the identifiers of an opening are given exactly when the
  balance is positive; the wallet then holds the initial balance at version 1, and carries
  the opening transaction, its ledger entry and the two events that describe them, or, at
  zero, nothing at all.
\<close>

theorem open_wallet_exact:
  "case OpenWallet i existing now of
     Inr (w, out) \<Rightarrow>
       existing = None \<and> open_input_ok i \<and> now \<noteq> 0 \<and> w = opened_wallet i now \<and> wallet_ok w
       \<and> opening_outcome i now out
   | Inl err \<Rightarrow> \<not> (existing = None \<and> open_input_ok i \<and> now \<noteq> 0)"
proof (cases "existing = None \<and> open_input_ok i \<and> now \<noteq> 0")
  case True
  then show ?thesis using OpenWallet_outcome [of i now] opened_wallet_ok [of i now] by auto
next
  case False
  then show ?thesis using OpenWallet_Inr_iff [of i existing now] by (auto split: sum.split)
qed

text \<open>
  C29: a wallet and its ledger never part. Whatever sequence of movements is asked of a
  wallet, accepted or refused, the entries produced form an unbroken chain of balances and
  versions, the final balance is the initial one plus the signed sum of the entries, no
  balance along the way is negative, and the version counts the entries exactly.
\<close>

theorem ledger_follows_wallet:
  assumes "wallet_ok w" "run_moves wallet_step ms w = (es, w')"
  shows "chained (w_balance w) (w_version w) es
    \<and> wallet_units w' = wallet_units w + sum_list (map entry_delta es)
    \<and> (\<forall>k. 0 \<le> wallet_units w + sum_list (map entry_delta (take k es)))
    \<and> unat (w_version w') = unat (w_version w) + length es
    \<and> Wallet_Key w' = Wallet_Key w"
proof -
  have "0 \<le> wallet_units w" using assms(1) by (simp add: wallet_ok_def wallet_units_def)
  then show ?thesis
    using assms(2) run_chained [OF assms(2)] wbook.run_balance [of ms w]
      wbook.run_prefix_nonnegative [of w _ ms]
    by (simp add: Wallet_Key_def)
qed

theorem ledger_follows_wallet_witness:
  "let w = opened_wallet \<lparr>ow_WalletID = 13, ow_PlayerID = ''player-1'', ow_InitialBalance = brl 1000,
             ow_TransactionID = 5, ow_LedgerEntryID = 6\<rparr> 10
   in wallet_ok w \<and> wallet_units (snd (run_moves wallet_step
        [(Debit, \<lparr>mv_EntryID = 12, mv_TransactionID = 11, mv_Amount = brl 2000, mv_At = 20\<rparr>)] w)) \<ge> 0"
proof -
  define w where "w = opened_wallet \<lparr>ow_WalletID = 13, ow_PlayerID = ''player-1'',
      ow_InitialBalance = brl 1000, ow_TransactionID = 5, ow_LedgerEntryID = 6\<rparr> 10"
  define ms where
    "ms = [(Debit, \<lparr>mv_EntryID = 12, mv_TransactionID = 11, mv_Amount = brl 2000, mv_At = 20\<rparr>)]"
  have w: "wallet_ok w" unfolding w_def
    by (rule opened_wallet_ok) (simp_all add: open_input_ok_def brl_def)
  obtain es w' where run: "run_moves wallet_step ms w = (es, w')" by force
  from ledger_follows_wallet [OF w run] have "0 \<le> wallet_units w'"
    by (metis take_all_iff order_refl)
  with w run show ?thesis by (simp add: Let_def flip: w_def ms_def)
qed

end
