(* ===== verification/Reconcile.thy ===== *)
theory Reconcile
  imports Wallet "HOL-Library.Multiset"
begin

text \<open>
  Reconciliation of a wallet with its ledger (\<^verbatim>\<open>src/internal/domain/wagering/reconcile.go\<close>).
  The source reports a disagreement as an error value of its own type, which unwraps to a
  coded error; the two are the constructors of \<open>reconcile_error\<close>. The map of transactions
  already seen is a partial map.
\<close>

section \<open>Operations\<close>

record reconciliation_error =
  rc_walletID :: wallet_id
  rc_expected :: money
  rc_actual :: money

datatype reconcile_error = Refusal fail | Mismatch reconciliation_error

definition NewReconciliationError :: "wallet_id \<Rightarrow> money \<Rightarrow> money \<Rightarrow> reconciliation_error res" where
  "NewReconciliationError walletID expected actual =
     (if ID_IsZero walletID then Inl (missing ''walletId'')
      else if Money_IsUninitialized expected then Inl (uninitialized ''expected'')
      else if Money_IsUninitialized actual then Inl (uninitialized ''actual'')
      else if m_currency expected \<noteq> m_currency actual
      then Inl (WithField (New CurrencyMismatch) ''expected'')
      else if Money_Equal expected actual
      then Inl (WithField (New InvalidFieldFormat) ''expected'')
      else Inr \<lparr>rc_walletID = walletID, rc_expected = expected, rc_actual = actual\<rparr>)"

definition ReconciliationError_Unwrap :: "reconciliation_error \<Rightarrow> fail" where
  "ReconciliationError_Unwrap e = New LedgerBalanceMismatch"

definition reconcile_code :: "reconcile_error \<Rightarrow> code" where
  "reconcile_code e =
     (case e of Refusal f \<Rightarrow> CodeOf f | Mismatch m \<Rightarrow> CodeOf (ReconciliationError_Unwrap m))"

fun ledger_sum :: "currency \<Rightarrow> ledger_entry list \<Rightarrow> money \<Rightarrow> money res" where
  "ledger_sum c [] acc = Inr acc"
| "ledger_sum c (e # es) acc =
     (if Entry_IsZero e then Inl (New UninitializedValue)
      else if m_currency (le_amount e) \<noteq> c then Inl (New CurrencyMismatch)
      else (case applyDirection (le_direction e) acc (le_amount e) of
              Inl err \<Rightarrow> Inl err
            | Inr acc \<Rightarrow> ledger_sum c es acc))"

definition LedgerBalance :: "currency \<Rightarrow> ledger_entry list \<Rightarrow> money res" where
  "LedgerBalance c entries = bindE (Money_Zero c) (ledger_sum c entries)"

fun check_entries ::
  "wallet_id \<Rightarrow> (transaction_id \<rightharpoonup> ledger_entry_id) \<Rightarrow> ledger_entry list \<Rightarrow> unit res" where
  "check_entries i seen [] = Inr ()"
| "check_entries i seen (e # es) =
     (if Entry_IsZero e then Inl (New UninitializedValue)
      else if le_walletID e \<noteq> i then Inl (New ReferenceMismatch)
      else if seen (le_transactionID e) \<noteq> None
      then Inl (WithField (New InvalidFieldFormat) ''transactionId'')
      else check_entries i (seen(le_transactionID e \<mapsto> le_id e)) es)"

definition Reconcile :: "wallet option \<Rightarrow> ledger_entry list \<Rightarrow> reconcile_error + unit" where
  "Reconcile wallet entries =
     (case wallet of
        None \<Rightarrow> Inl (Refusal (WithField (New UninitializedValue) ''wallet''))
      | Some w \<Rightarrow>
          (case check_entries (w_id w) Map.empty entries of
             Inl err \<Rightarrow> Inl (Refusal err)
           | Inr _ \<Rightarrow>
               (case LedgerBalance (Wallet_Currency w) entries of
                  Inl err \<Rightarrow> Inl (Refusal err)
                | Inr expected \<Rightarrow>
                    if \<not> Money_Equal expected (w_balance w) then
                      (case NewReconciliationError (w_id w) expected (w_balance w) of
                         Inl err \<Rightarrow> Inl (Refusal err)
                       | Inr mismatch \<Rightarrow> Inl (Mismatch mismatch))
                    else Inr ())))"

section \<open>The sum, as an integer\<close>

definition sum_in_range :: "int \<Rightarrow> ledger_entry list \<Rightarrow> bool" where
  "sum_in_range n es \<longleftrightarrow> (\<forall>k. n + sum_list (map entry_delta (take k es)) \<in> int64_range)"

lemma sum_in_range_Cons:
  "sum_in_range n (e # es) \<longleftrightarrow> n \<in> int64_range \<and> sum_in_range (n + entry_delta e) es"
proof -
  have "(\<forall>k. P (take k (e # es))) \<longleftrightarrow> P [] \<and> (\<forall>k. P (e # take k es))" for P
    by (metis take_0 take_Suc_Cons not0_implies_Suc)
  from this [of "\<lambda>l. n + sum_list (map entry_delta l) \<in> int64_range"] show ?thesis
    by (simp add: sum_in_range_def add.assoc)
qed

definition countable_entry :: "currency \<Rightarrow> ledger_entry \<Rightarrow> bool" where
  "countable_entry c e \<longleftrightarrow> le_id e \<noteq> 0 \<and> m_currency (le_amount e) = c \<and> Direction_Known (le_direction e)"

lemma ledger_sum_eq:
  assumes "cur_code c \<noteq> []" "\<forall>e \<in> set es. countable_entry c e" "sint u \<in> int64_range"
  shows "ledger_sum c es \<lparr>m_units = u, m_currency = c\<rparr> =
    (if sum_in_range (sint u) es
     then Inr \<lparr>m_units = int64_of (sint u + sum_list (map entry_delta es)), m_currency = c\<rparr>
     else Inl (New AmountOutOfRange))"
  using assms
proof (induction es arbitrary: u)
  case Nil
  then show ?case by (simp add: sum_in_range_def int64_of_sint)
next
  case (Cons e es)
  let ?n = "sint u + entry_delta e"
  from Cons.prems have e: "countable_entry c e" "\<not> Entry_IsZero e"
    by (auto simp: countable_entry_def Entry_IsZero_def ID_IsZero_def)
  have "\<not> Money_IsUninitialized \<lparr>m_units = u, m_currency = c\<rparr>"
    using Cons.prems by (simp add: money_predicates)
  with e have ap: "applyDirection (le_direction e) \<lparr>m_units = u, m_currency = c\<rparr> (le_amount e) =
      (if ?n \<in> int64_range then Inr \<lparr>m_units = int64_of ?n, m_currency = c\<rparr>
       else Inl (New AmountOutOfRange))"
    using applyDirection_eq [of "le_direction e" "\<lparr>m_units = u, m_currency = c\<rparr>" "le_amount e"]
    by (simp add: countable_entry_def entry_delta_def Let_def)
  have first: "sum_in_range ?n es \<Longrightarrow> ?n \<in> int64_range"
    unfolding sum_in_range_def by (drule spec [of _ 0]) simp
  show ?case
  proof (cases "?n \<in> int64_range")
    case True
    then have "sint (int64_of ?n) = ?n" by (rule sint_int64_of)
    with Cons.IH [of "int64_of ?n"] Cons.prems True e ap show ?thesis
      by (simp add: sum_in_range_Cons countable_entry_def add.assoc)
  next
    case False
    with first ap e Cons.prems show ?thesis by (auto simp: sum_in_range_Cons countable_entry_def)
  qed
qed

lemma LedgerBalance_eq:
  assumes "cur_code c \<noteq> []" "\<forall>e \<in> set es. countable_entry c e"
  shows "LedgerBalance c es =
    (if sum_in_range 0 es
     then Inr \<lparr>m_units = int64_of (sum_list (map entry_delta es)), m_currency = c\<rparr>
     else Inl (New AmountOutOfRange))"
  using ledger_sum_eq [OF assms sint_in_range, of 0] assms
  by (simp add: LedgerBalance_def Money_Zero_def Currency_IsZero_def cong: if_cong)

lemma check_entries_iff:
  "check_entries i seen es = Inr u \<longleftrightarrow>
     (\<forall>e \<in> set es. le_id e \<noteq> 0 \<and> le_walletID e = i \<and> le_transactionID e \<notin> dom seen)
     \<and> distinct (map le_transactionID es)"
  by (induction es arbitrary: seen) (auto simp: Entry_IsZero_def ID_IsZero_def, metis imageI)

section \<open>What reconciliation decides\<close>

definition book_ok :: "wallet \<Rightarrow> ledger_entry list \<Rightarrow> bool" where
  "book_ok w es \<longleftrightarrow>
     (\<forall>e \<in> set es. entry_ok e \<and> le_walletID e = w_id w \<and> m_currency (le_amount e) = Wallet_Currency w)
     \<and> distinct (map le_transactionID es)"

lemma book_check: "book_ok w es \<Longrightarrow> check_entries (w_id w) Map.empty es = Inr ()"
  by (simp add: check_entries_iff book_ok_def entry_ok_def)

lemma book_countable: "book_ok w es \<Longrightarrow> \<forall>e \<in> set es. countable_entry (Wallet_Currency w) e"
  by (simp add: book_ok_def entry_ok_def countable_entry_def)

lemma sum_in_range_total: "sum_in_range n es \<Longrightarrow> n + sum_list (map entry_delta es) \<in> int64_range"
  unfolding sum_in_range_def by (drule spec [of _ "length es"]) simp

lemma Money_Equal_units:
  assumes "n \<in> int64_range" "cur_code (m_currency b) \<noteq> []"
  shows "Money_Equal \<lparr>m_units = int64_of n, m_currency = m_currency b\<rparr> b \<longleftrightarrow> n = sint (m_units b)"
  using assms int64_of_eq_iff [of n "m_units b"]
  by (cases b) (auto simp: Money_Equal_def money_predicates)

lemma Reconcile_book:
  assumes "wallet_ok w" "book_ok w es"
  shows "Reconcile (Some w) es =
    (let n = sum_list (map entry_delta es)
     in if \<not> sum_in_range 0 es then Inl (Refusal (New AmountOutOfRange))
        else if n = wallet_units w then Inr ()
        else Inl (Mismatch \<lparr>rc_walletID = w_id w,
               rc_expected = \<lparr>m_units = int64_of n, m_currency = Wallet_Currency w\<rparr>,
               rc_actual = w_balance w\<rparr>))"
proof -
  have w: "cur_code (Wallet_Currency w) \<noteq> []" "w_id w \<noteq> 0" using assms(1) by (auto simp: wallet_ok_def)
  note bal = LedgerBalance_eq [OF w(1) book_countable [OF assms(2)]]
  show ?thesis
  proof (cases "sum_in_range 0 es")
    case True
    then have "sum_list (map entry_delta es) \<in> int64_range" using sum_in_range_total by fastforce
    from Money_Equal_units [OF this, of "w_balance w"] w True show ?thesis
      by (simp add: Reconcile_def book_check [OF assms(2)] bal [unfolded Wallet_Currency_def]
          Let_def NewReconciliationError_def ID_IsZero_def money_predicates wallet_units_def Wallet_Currency_def)
  next
    case False
    then show ?thesis by (simp add: Reconcile_def book_check [OF assms(2)] bal Let_def)
  qed
qed

section \<open>Books kept by a wallet\<close>

lemma run_transactions:
  "set (map le_transactionID (fst (run_moves wallet_step ms w))) \<subseteq> set (map (mv_TransactionID \<circ> snd) ms)
   \<and> (distinct (map (mv_TransactionID \<circ> snd) ms) \<longrightarrow>
      distinct (map le_transactionID (fst (run_moves wallet_step ms w))))"
proof (induction ms arbitrary: w)
  case (Cons m ms)
  show ?case
  proof (cases "wallet_step m w")
    case (Inl err)
    with Cons [of w] show ?thesis by auto
  next
    case (Inr r)
    then have "le_transactionID (fst r) = mv_TransactionID (snd m)"
      using move_entry_links [of "fst m" "snd m" w "fst r" "snd r"] by (simp add: wallet_step_def)
    with Inr Cons [of "snd r"] show ?thesis by auto
  qed
qed simp

lemma run_book:
  assumes "run_moves wallet_step ms w = (es, w')" "distinct (map (mv_TransactionID \<circ> snd) ms)"
  shows "book_ok w' es"
proof -
  have "\<forall>e \<in> set es. entry_ok e" if "chained b v es" for b v
    using that by (induction es arbitrary: b v) auto
  with run_chained [OF assms(1)] run_transactions [of ms w] assms show ?thesis
    by (auto simp: book_ok_def)
qed

lemma wallet_units_le: "wallet_units w \<le> sint MaxInt64"
  using sint_in_range [of "m_units (w_balance w)"]
  by (simp add: wallet_units_def int64_range_def sint_MaxInt64)

lemma run_sums:
  assumes "run_moves wallet_step ms w = (es, w')" "wallet_units w = 0"
  shows "sum_in_range 0 es \<and> sum_list (map entry_delta es) = wallet_units w'"
  using wbook.run_prefix_nonnegative [of w _ ms] wbook.run_upper [OF wallet_units_le, of w _ ms]
    wbook.run_balance [of ms w] assms
  by (auto simp: sum_in_range_def int64_range_def sint_MaxInt64) (smt (verit))+

text \<open>
  The movements of a wallet's whole life, the opening credit included: a wallet opened with
  money starts from the empty wallet.
\<close>

definition life_moves :: "open_wallet_input \<Rightarrow> instant \<Rightarrow> (direction \<times> movement_input) list
    \<Rightarrow> (direction \<times> movement_input) list" where
  "life_moves i now ms =
     (if sint (m_units (ow_InitialBalance i)) = 0 then ms else (Credit, opening_credit i now) # ms)"

definition life_start :: "open_wallet_input \<Rightarrow> instant \<Rightarrow> wallet" where
  "life_start i now =
     (if sint (m_units (ow_InitialBalance i)) = 0 then opened_wallet i now else empty_wallet i now)"

definition opening_entries :: "outcome \<Rightarrow> ledger_entry list" where
  "opening_entries out = (case o_LedgerEntry out of None \<Rightarrow> [] | Some e \<Rightarrow> [e])"

lemma life_run:
  assumes "OpenWallet i None now = Inr (w0, out)" "run_moves wallet_step ms w0 = (es, w)"
  shows "run_moves wallet_step (life_moves i now ms) (life_start i now) = (opening_entries out @ es, w)
    \<and> wallet_units (life_start i now) = 0"
proof -
  from assms(1) have ok: "open_input_ok i" "now \<noteq> 0" "w0 = opened_wallet i now"
    using OpenWallet_Inr_iff [of i None now w0 out] by auto
  with assms(1) have out: "opening_outcome i now out"
    using OpenWallet_outcome [of i now] by auto
  show ?thesis
  proof (cases "sint (m_units (ow_InitialBalance i)) = 0")
    case True
    with out ok assms(2) show ?thesis
      by (simp add: life_moves_def life_start_def opening_outcome_def opening_entries_def
          no_outcome_def wallet_units_def opened_wallet_def)
  next
    case False
    have "wallet_step (Credit, opening_credit i now) (empty_wallet i now)
        = Inr (opening_entry i now, opened_wallet i now)"
      using opening_credit_eq [OF ok(1) False ok(2)] by (simp add: wallet_step_def opening_entry_def)
    with False out ok assms(2) show ?thesis
      by (simp add: life_moves_def life_start_def opening_outcome_def opening_entries_def)
        (simp add: wallet_units_def empty_wallet_def)
  qed
qed

lemma life_wallet_ok:
  "run_moves wallet_step ms w = (es, w') \<Longrightarrow> movable w \<Longrightarrow> movable w'"
proof (induction ms arbitrary: w es)
  case (Cons m ms)
  show ?case
  proof (cases "wallet_step m w")
    case (Inl err)
    with Cons show ?thesis by auto
  next
    case (Inr r)
    then have mv: "Wallet_move (fst m) (snd m) w = Inr (fst r, snd r)" by (simp add: wallet_step_def)
    have "movable (snd r)"
      using move_entry_links [OF mv] Cons.prems(2) wbook.move_nonnegative [of m w "fst r" "snd r"] Inr
      by (auto simp: movable_def)
    with Cons Inr show ?thesis by (auto simp: prod_eq_iff)
  qed
qed simp

text \<open>Reconciliation needs only an identified wallet with a currency.\<close>

lemma Reconcile_movable:
  assumes "movable w" "book_ok w es" "sum_in_range 0 es" "sum_list (map entry_delta es) = wallet_units w"
  shows "Reconcile (Some w) es = Inr ()"
proof -
  have w: "cur_code (Wallet_Currency w) \<noteq> []" using assms(1) by (simp add: movable_def)
  note bal = LedgerBalance_eq [OF w book_countable [OF assms(2)]]
  have "wallet_units w \<in> int64_range" by (simp add: wallet_units_def sint_in_range)
  from Money_Equal_units [OF this, of "w_balance w"] assms w show ?thesis
    by (simp add: Reconcile_def book_check bal [unfolded Wallet_Currency_def] Wallet_Currency_def
        wallet_units_def)
qed

definition credits :: "ledger_entry list \<Rightarrow> int" where
  "credits es = sum_list (map (\<lambda>e. max 0 (entry_delta e)) es)"

lemma sum_list_mset:
  fixes f :: "'a \<Rightarrow> int"
  assumes "mset es = mset es'"
  shows "sum_list (map f es) = sum_list (map f es')"
proof -
  have "sum_list (map f xs) = sum_mset (image_mset f (mset xs))" for xs
    by (induction xs) auto
  with assms show ?thesis by simp
qed

lemma partial_sum_bounds:
  "sum_list (map entry_delta (take k es)) \<le> credits es
   \<and> sum_list (map entry_delta es) - credits es \<le> sum_list (map entry_delta (take k es))"
proof -
  have up: "sum_list (map entry_delta es) \<le> credits es" for es
    by (induction es) (auto simp: credits_def)
  have pos: "0 \<le> credits es" for es by (induction es) (auto simp: credits_def)
  have split: "sum_list (map entry_delta es) =
      sum_list (map entry_delta (take k es)) + sum_list (map entry_delta (drop k es))"
    by (metis append_take_drop_id map_append sum_list_append)
  have cr: "credits es = credits (take k es) + credits (drop k es)"
    unfolding credits_def by (metis append_take_drop_id map_append sum_list_append)
  show ?thesis
    using up [of "take k es"] up [of "drop k es"] pos [of "take k es"] pos [of "drop k es"] split cr
    by linarith
qed

lemma bounded_credits_in_range:
  assumes "credits es \<le> sint MaxInt64" "0 \<le> sum_list (map entry_delta es)"
  shows "sum_in_range 0 es"
  unfolding sum_in_range_def
proof
  fix k
  show "0 + sum_list (map entry_delta (take k es)) \<in> int64_range"
    using partial_sum_bounds [of k es] assms by (simp add: int64_range_def sint_MaxInt64)
qed

lemma book_mset:
  assumes "mset es' = mset es" "book_ok w es"
  shows "book_ok w es'"
proof -
  have "set es' = set es" using assms(1) by (rule mset_eq_setD)
  moreover have "distinct (map le_transactionID es') \<longleftrightarrow> distinct (map le_transactionID es)"
    using assms(1) by (intro mset_eq_imp_distinct_iff) simp
  ultimately show ?thesis using assms(2) by (simp add: book_ok_def)
qed

lemma life_reconciles:
  assumes "OpenWallet i None now = Inr (w0, out)" "run_moves wallet_step ms w0 = (es, w)"
    and "distinct (map (mv_TransactionID \<circ> snd) (life_moves i now ms))"
  shows "movable w \<and> book_ok w (opening_entries out @ es) \<and> sum_in_range 0 (opening_entries out @ es)
    \<and> sum_list (map entry_delta (opening_entries out @ es)) = wallet_units w"
proof -
  note run = life_run [OF assms(1,2)]
  from assms(1) have ok: "open_input_ok i" "now \<noteq> 0" "w0 = opened_wallet i now"
    using OpenWallet_Inr_iff [of i None now w0 out] by auto
  have "movable w0" unfolding ok(3) by (intro wallet_ok_movable opened_wallet_ok ok)
  with life_wallet_ok [OF assms(2)] have "movable w" by simp
  moreover have "book_ok w (opening_entries out @ es)" using run_book [OF _ assms(3)] run by blast
  ultimately show ?thesis using run_sums run by blast
qed

section \<open>Sample books\<close>

definition sample_opening :: open_wallet_input where
  "sample_opening = \<lparr>ow_WalletID = 13, ow_PlayerID = ''player-1'', ow_InitialBalance = brl 1000,
     ow_TransactionID = 5, ow_LedgerEntryID = 6\<rparr>"

lemma sample_opening_ok: "open_input_ok sample_opening"
  by (simp add: open_input_ok_def sample_opening_def brl_def)

lemma sample_life:
  obtains out where "OpenWallet sample_opening None 10 = Inr (opened_wallet sample_opening 10, out)"
    "opening_entries out = [opening_entry sample_opening 10]"
proof -
  from OpenWallet_outcome [OF sample_opening_ok, of 10] obtain out where
    "OpenWallet sample_opening None 10 = Inr (opened_wallet sample_opening 10, out)"
    "opening_outcome sample_opening 10 out" by auto
  moreover have "sint (m_units (ow_InitialBalance sample_opening)) \<noteq> 0"
    by (simp add: sample_opening_def brl_def)
  ultimately show ?thesis using that by (simp add: opening_outcome_def opening_entries_def)
qed

text \<open>A ledger of three movements of the largest amount, which nets to that amount.\<close>

definition max_entry :: "direction \<Rightarrow> transaction_id \<Rightarrow> uint64 \<Rightarrow> ledger_entry" where
  "max_entry d t v =
     \<lparr>le_id = 100 + t, le_walletID = 13, le_transactionID = t, le_direction = d,
      le_amount = brl MaxInt64,
      le_balanceBefore = (if d = Credit then brl 0 else brl MaxInt64),
      le_balanceAfter = (if d = Credit then brl MaxInt64 else brl 0),
      le_walletVersion = v, le_createdAt = 10\<rparr>"

definition max_wallet :: wallet where
  "max_wallet = \<lparr>w_id = 13, w_playerID = ''player-1'', w_balance = brl MaxInt64, w_version = 3,
     w_createdAt = 10, w_updatedAt = 10\<rparr>"

lemma max_book:
  assumes "perm = [max_entry Credit 1 1, max_entry Debit 2 2, max_entry Credit 3 3]
    \<or> perm = [max_entry Credit 1 1, max_entry Credit 3 3, max_entry Debit 2 2]"
  shows "wallet_ok max_wallet \<and> book_ok max_wallet perm"
  using assms
  by (auto simp: wallet_ok_def book_ok_def entry_ok_def max_wallet_def max_entry_def brl_def
      Wallet_Currency_def sint_MaxInt64 Direction_Known_def)

section \<open>Properties\<close>

text \<open>
  Reconciliation is exact on a ledger of well formed entries that belong to the wallet.
  It accepts exactly when credits less debits equal the stored balance; when they differ it
  reports the wallet, the sum the ledger implies and the balance held; and the only other
  answer is that a partial sum, in the order given, leaves the representable range.
\<close>

theorem reconcile_exact:
  assumes "wallet_ok w" "book_ok w es"
  shows "case Reconcile (Some w) es of
      Inr _ \<Rightarrow> sum_list (map entry_delta es) = wallet_units w
    | Inl (Mismatch m) \<Rightarrow>
        sum_list (map entry_delta es) \<noteq> wallet_units w \<and> rc_walletID m = w_id w
        \<and> sint (m_units (rc_expected m)) = sum_list (map entry_delta es)
        \<and> rc_actual m = w_balance w \<and> reconcile_code (Mismatch m) = LedgerBalanceMismatch
    | Inl (Refusal f) \<Rightarrow> \<not> sum_in_range 0 es \<and> f = New AmountOutOfRange"
  using Reconcile_book [OF assms] sum_in_range_total [of 0 es]
  by (auto simp: Let_def sint_int64_of reconcile_code_def ReconciliationError_Unwrap_def
      split: if_splits)

theorem reconcile_exact_witness:
  "Reconcile (Some (opened_wallet sample_opening 10)) [opening_entry sample_opening 10] = Inr ()
   \<and> wallet_units (opened_wallet sample_opening 10) = 1000"
proof -
  let ?w = "opened_wallet sample_opening 10"
  obtain out where out: "OpenWallet sample_opening None 10 = Inr (?w, out)"
    "opening_entries out = [opening_entry sample_opening 10]" by (rule sample_life)
  have "run_moves wallet_step [] ?w = ([], ?w)"
    "distinct (map (mv_TransactionID \<circ> snd) (life_moves sample_opening 10 []))"
    by (simp_all add: life_moves_def)
  from life_reconciles [OF out(1) this] have book: "book_ok ?w [opening_entry sample_opening 10]"
    "sum_in_range 0 [opening_entry sample_opening 10]"
    "sum_list (map entry_delta [opening_entry sample_opening 10]) = wallet_units ?w"
    by (simp_all add: out(2))
  have "wallet_ok ?w" by (rule opened_wallet_ok) (simp_all add: sample_opening_ok)
  from reconcile_exact [OF this book(1)] book(2,3) show ?thesis
    by (auto simp: wallet_units_def opened_wallet_def sample_opening_def brl_def
        split: sum.splits reconcile_error.splits)
qed

text \<open>
  What a wallet does always reconciles. Open a wallet, at zero or with money, and apply
  any sequence of movements under distinct transactions, accepted or refused: the opening
  entry and the entries produced, in the order they were produced, reconcile with the final
  wallet; and they reconcile in every other order as well as long as the credits alone sum to
  an amount that can be represented.
\<close>

theorem history_reconciles:
  assumes "OpenWallet i None now = Inr (w0, out)" "run_moves wallet_step ms w0 = (es, w)"
    and "distinct (map (mv_TransactionID \<circ> snd) (life_moves i now ms))"
  shows "Reconcile (Some w) (opening_entries out @ es) = Inr ()
    \<and> (\<forall>es'. mset es' = mset (opening_entries out @ es)
         \<and> credits (opening_entries out @ es) \<le> sint MaxInt64 \<longrightarrow> Reconcile (Some w) es' = Inr ())"
proof -
  let ?es = "opening_entries out @ es"
  note life = life_reconciles [OF assms]
  have "Reconcile (Some w) es' = Inr ()"
    if m: "mset es' = mset ?es" and c: "credits ?es \<le> sint MaxInt64" for es'
  proof (rule Reconcile_movable)
    have sums: "credits es' = credits ?es" "sum_list (map entry_delta es') = sum_list (map entry_delta ?es)"
      using m by (auto simp: credits_def intro: sum_list_mset simp del: mset_append map_append)
    with life c show "sum_in_range 0 es'"
      by (intro bounded_credits_in_range) (auto simp: movable_def)
    show "sum_list (map entry_delta es') = wallet_units w" using sums life by simp
  qed (use life book_mset [OF m] in auto)
  then show ?thesis using Reconcile_movable life by blast
qed

theorem history_reconciles_witness:
  "\<exists>out. OpenWallet sample_opening None 10 = Inr (opened_wallet sample_opening 10, out)
     \<and> Reconcile (Some (opened_wallet sample_opening 10)) (opening_entries out) = Inr ()"
proof -
  let ?w = "opened_wallet sample_opening 10"
  obtain out where out: "OpenWallet sample_opening None 10 = Inr (?w, out)" by (rule sample_life)
  have "run_moves wallet_step [] ?w = ([], ?w)"
    "distinct (map (mv_TransactionID \<circ> snd) (life_moves sample_opening 10 []))"
    by (simp_all add: life_moves_def)
  from history_reconciles [OF out this] out show ?thesis by auto
qed

text \<open>
  The sum does depend on the order of the entries when it nears the representable range.
  There is a well formed wallet and a ledger that belongs to it, which reconcile in one order
  and are refused as out of range in another.
\<close>

theorem reconcile_order_matters:
  "\<exists>w es es'. wallet_ok w \<and> book_ok w es \<and> mset es' = mset es
     \<and> Reconcile (Some w) es = Inr ()
     \<and> Reconcile (Some w) es' = Inl (Refusal (New AmountOutOfRange))"
proof (intro exI conjI)
  let ?es = "[max_entry Credit 1 1, max_entry Debit 2 2, max_entry Credit 3 3]"
  let ?es' = "[max_entry Credit 1 1, max_entry Credit 3 3, max_entry Debit 2 2]"
  have d: "entry_delta (max_entry Credit t v) = 2 ^ 63 - 1" "entry_delta (max_entry Debit t v) = - (2 ^ 63 - 1)"
    for t v by (simp_all add: entry_delta_def max_entry_def brl_def sint_MaxInt64)
  have Nil: "sum_in_range n [] \<longleftrightarrow> n \<in> int64_range" for n by (simp add: sum_in_range_def)
  have u: "wallet_units max_wallet = 2 ^ 63 - 1"
    by (simp add: wallet_units_def max_wallet_def brl_def sint_MaxInt64)
  show "wallet_ok max_wallet" "book_ok max_wallet ?es" using max_book by blast+
  show "mset ?es' = mset ?es" by simp
  show "Reconcile (Some max_wallet) ?es = Inr ()"
    using max_book [of ?es] by (simp add: Reconcile_book sum_in_range_Cons Nil d u int64_range_def)
  show "Reconcile (Some max_wallet) ?es' = Inl (Refusal (New AmountOutOfRange))"
    using max_book [of ?es'] by (simp add: Reconcile_book sum_in_range_Cons Nil d int64_range_def)
qed

end
