(* ===== verification/AppErrors.thy ===== *)
theory AppErrors
  imports Reconcile
begin

text \<open>
  The error model of the application layer (\<^verbatim>\<open>src/internal/app/errors.go\<close>, and the sentinels
  of \<^verbatim>\<open>ports.go\<close> and of the queue, token and HTTP adapters).

  A Go error is a chain: \<open>DomainErr\<close> is a \<^verbatim>\<open>*failure.Error\<close>, \<open>ReconErr\<close> a
  \<^verbatim>\<open>*wagering.ReconciliationError\<close>, \<open>AppErr\<close> a \<^verbatim>\<open>*app.Error\<close> with its class, code, field and
  wrapped cause, \<open>Sentinel\<close> a value compared by \<^verbatim>\<open>errors.Is\<close>, and \<open>Wrapped\<close> what
  \<^verbatim>\<open>fmt.Errorf\<close> builds around the errors of its \<^verbatim>\<open>%w\<close> verbs. Messages are left out. A nil
  error is no value of this type: the functions that accept one take an option.

  \<open>isClassified\<close> compares renderings in the source. Every \<^verbatim>\<open>fmt.Errorf\<close> of the sources adds
  text of its own, so the rendering of a \<open>Wrapped\<close> is longer than that of any error inside it
  and the comparison holds exactly of an \<open>AppErr\<close>.
\<close>

section \<open>Classes and errors\<close>

datatype error_class =
    Invalid | ClassRejected | Conflict | Audit | Unauthorized | NotFound | Retryable | Unretryable

datatype sentinel =
    ErrDuplicateSubmission | ErrWalletExists | ErrReferenceAlreadyReversed
  | ErrForeignOperation | ErrForeignWallet | ErrLostUpdate | errNegativeVersion
  | ErrNotResolved | ErrSendAborted
  | ErrTokenRejected | ErrKeyUnavailable | ErrPrincipalUnresolved | ErrUnknownKey | ErrRefreshDeclined
  | errTooLarge

text \<open>
  What the database driver reports: an error of the server with its SQLSTATE and the
  constraint it names, a refused connection with its cause, the two ways a context ends, the
  two ways a transaction ends under a statement, and anything else.
\<close>

datatype driver_error =
    PgError string string
  | ConnectError "driver_error option"
  | Canceled | DeadlineExceeded | ErrTxClosed | ErrTxCommitRollback | OtherDriverError

datatype go_error =
    DomainErr fail
  | DriverErr driver_error
  | ReconErr reconciliation_error
  | AppErr error_class code string "go_error option"
  | Sentinel sentinel
  | Wrapped "go_error list"

type_synonym 'a eres = "go_error + 'a"

text \<open>The first value of a depth-first walk, which is the order \<^verbatim>\<open>errors.As\<close> visits a chain in.\<close>

fun first_some :: "'a option list \<Rightarrow> 'a option" where
  "first_some [] = None"
| "first_some (x # xs) = (case x of None \<Rightarrow> first_some xs | Some a \<Rightarrow> Some a)"

fun AsAppError :: "go_error \<Rightarrow> (error_class \<times> code \<times> string) option" where
  "AsAppError (AppErr c k f w) = Some (c, k, f)"
| "AsAppError (Wrapped es) = first_some (map AsAppError es)"
| "AsAppError _ = None"

fun AsFailure :: "go_error \<Rightarrow> fail option" where
  "AsFailure (DomainErr f) = Some f"
| "AsFailure (ReconErr m) = Some (ReconciliationError_Unwrap m)"
| "AsFailure (AppErr c k f w) = (case w of None \<Rightarrow> None | Some e \<Rightarrow> AsFailure e)"
| "AsFailure (Sentinel s) = None"
| "AsFailure (DriverErr d) = None"
| "AsFailure (Wrapped es) = first_some (map AsFailure es)"

fun errors_Is :: "go_error \<Rightarrow> sentinel \<Rightarrow> bool" where
  "errors_Is (Sentinel s) t = (s = t)"
| "errors_Is (AppErr c k f w) t = (case w of None \<Rightarrow> False | Some e \<Rightarrow> errors_Is e t)"
| "errors_Is (Wrapped es) t = list_ex (\<lambda>e. errors_Is e t) es"
| "errors_Is _ t = False"

section \<open>Classification\<close>

text \<open>The class of a catalogued code, in the order the source tests it.\<close>

definition class_of_code :: "code \<Rightarrow> error_class" where
  "class_of_code c =
     (if Audit_code c then Audit
      else if Correctable c then Invalid
      else if c = WalletAlreadyExists \<or> c = IdempotencyPayloadConflict then Conflict
      else Unretryable)"

definition class_of :: "go_error \<Rightarrow> error_class" where
  "class_of err =
     (case AsAppError err of
        Some (c, k, f) \<Rightarrow> c
      | None \<Rightarrow>
          (case AsFailure err of
             None \<Rightarrow> Unretryable
           | Some e \<Rightarrow> class_of_code (CodeOf e)))"

definition ClassOf :: "go_error option \<Rightarrow> error_class option" where
  "ClassOf err = map_option class_of err"

definition App_Is :: "go_error option \<Rightarrow> error_class \<Rightarrow> bool" where
  "App_Is err c \<longleftrightarrow> ClassOf err = Some c"

definition App_CodeOf :: "go_error \<Rightarrow> code option" where
  "App_CodeOf err =
     (case AsAppError err of
        Some (c, k, f) \<Rightarrow> if k \<noteq> no_code then Some k else map_option CodeOf (AsFailure err)
      | None \<Rightarrow> map_option CodeOf (AsFailure err))"

definition isClassified :: "go_error \<Rightarrow> bool" where
  "isClassified err = (case err of AppErr c k f w \<Rightarrow> True | _ \<Rightarrow> False)"

definition AsRetryable :: "go_error \<Rightarrow> go_error" where
  "AsRetryable err = (if isClassified err then err else AppErr Retryable no_code [] (Some err))"

definition AsUnretryable :: "go_error \<Rightarrow> go_error" where
  "AsUnretryable err = (if isClassified err then err else AppErr Unretryable no_code [] (Some err))"

definition describe :: "go_error \<Rightarrow> code \<times> string" where
  "describe cause =
     (case AsFailure cause of None \<Rightarrow> (no_code, []) | Some e \<Rightarrow> (err_Code e, err_Field e))"

definition classify :: "go_error \<Rightarrow> go_error" where
  "classify err =
     (case AsAppError err of
        Some a \<Rightarrow> err
      | None \<Rightarrow> AppErr (class_of err) (fst (describe err)) (snd (describe err)) (Some err))"

definition auditFinding :: "go_error \<Rightarrow> go_error" where
  "auditFinding finding = AppErr Audit (fst (describe finding)) (snd (describe finding)) (Some finding)"

definition newError :: "error_class \<Rightarrow> code \<Rightarrow> go_error option \<Rightarrow> go_error" where
  "newError c k w = AppErr c k [] w"

definition invalidField :: "string \<Rightarrow> code \<Rightarrow> go_error" where
  "invalidField field c = AppErr Invalid c field None"

definition unauthorized :: go_error where
  "unauthorized = newError Unauthorized no_code None"

definition notFound :: go_error where
  "notFound = newError NotFound no_code None"

definition notFoundWrapping :: "go_error \<Rightarrow> go_error" where
  "notFoundWrapping w = newError NotFound no_code (Some w)"

definition conflict :: "code \<Rightarrow> go_error option \<Rightarrow> go_error" where
  "conflict c w = newError Conflict c w"

definition defect :: go_error where
  "defect = newError Unretryable no_code None"

lemmas app_constructors =
  newError_def invalidField_def unauthorized_def notFound_def notFoundWrapping_def conflict_def
  defect_def

text \<open>
  What a caller is shown of a classified error: its class, its code and its field. The cause
  is for the log.
\<close>

definition shown :: "go_error \<Rightarrow> error_class \<times> code option" where
  "shown e = (class_of e, App_CodeOf e)"

section \<open>Facts\<close>

lemma class_of_AppErr [simp]: "class_of (AppErr c k f w) = c"
  by (simp add: class_of_def)

lemma class_of_DomainErr [simp]: "class_of (DomainErr f) = class_of_code (CodeOf f)"
  by (simp add: class_of_def)

lemma class_of_constructors [simp]:
  "class_of (newError c k w) = c"
  "class_of (invalidField f k) = Invalid"
  "class_of unauthorized = Unauthorized"
  "class_of notFound = NotFound"
  "class_of (notFoundWrapping w') = NotFound"
  "class_of (conflict k w) = Conflict"
  "class_of defect = Unretryable"
  by (simp_all add: app_constructors)

lemma errors_Is_classify [simp]: "errors_Is (classify e) s = errors_Is e s"
  by (cases "AsAppError e") (simp_all add: classify_def)

lemma class_of_classify [simp]: "class_of (classify e) = class_of e"
  by (cases "AsAppError e") (simp_all add: classify_def)

lemma AsFailure_classify [simp]: "AsFailure (classify e) = AsFailure e"
  by (cases "AsAppError e") (simp_all add: classify_def)

lemma App_CodeOf_classify [simp]: "App_CodeOf (classify e) = App_CodeOf e"
  by (cases "AsAppError e")
    (auto simp: classify_def App_CodeOf_def describe_def CodeOf_def split: option.split)

lemma classify_classified: "AsAppError (classify e) \<noteq> None"
  by (cases "AsAppError e") (simp_all add: classify_def)

lemma classify_idem [simp]: "classify (classify e) = classify e"
  using classify_classified [of e] by (auto simp: classify_def [of "classify e"])

lemma class_of_code_cases:
  "class_of_code c =
     (if c = LedgerBalanceMismatch then Audit
      else if Correctable c then Invalid
      else if c \<in> {WalletAlreadyExists, IdempotencyPayloadConflict} then Conflict
      else Unretryable)"
  by (simp add: class_of_code_def Audit_code_def audit_table_def)

lemma class_of_code_not_rejected [simp]: "class_of_code c \<noteq> ClassRejected"
  by (simp add: class_of_code_def)

lemma first_some_None_iff: "first_some xs = None \<longleftrightarrow> (\<forall>x \<in> set xs. x = None)"
  by (induction xs) (auto split: option.splits)

lemma class_of_unclassified:
  "AsAppError e = None \<Longrightarrow>
     class_of e = (case App_CodeOf e of None \<Rightarrow> Unretryable | Some c \<Rightarrow> class_of_code c)"
  by (simp add: class_of_def App_CodeOf_def split: option.split)

text \<open>
  Classifying an error never changes how it is answered: \<^verbatim>\<open>classify\<close> keeps the class, the
  catalogued code and every sentinel a use case branches on, always yields a classified
  error, and is idempotent. An error nobody classified is answered by the code of the domain
  refusal in its chain alone: a balance mismatch as an audit finding, a correctable code as
  an invalid submission, the two codes that contradict a recorded fact as a conflict, and
  everything else, a chain with no code included, as not worth sending again. In particular
  it is never reported as a rejection or as retryable.
\<close>

theorem classification_exact:
  "class_of (classify e) = class_of e
   \<and> App_CodeOf (classify e) = App_CodeOf e
   \<and> errors_Is (classify e) s = errors_Is e s
   \<and> AsAppError (classify e) \<noteq> None
   \<and> classify (classify e) = classify e
   \<and> (AsAppError e = None \<longrightarrow>
        class_of e =
          (case App_CodeOf e of
             None \<Rightarrow> Unretryable
           | Some c \<Rightarrow>
               if c = LedgerBalanceMismatch then Audit
               else if Correctable c then Invalid
               else if c \<in> {WalletAlreadyExists, IdempotencyPayloadConflict} then Conflict
               else Unretryable))"
  using class_of_unclassified [of e]
  by (simp add: classify_classified class_of_code_cases cong: option.case_cong)

theorem classification_exact_witness:
  "class_of (Wrapped [Sentinel ErrLostUpdate, DomainErr (New WalletAlreadyExists)]) = Conflict"
  using classification_exact
    [of "Wrapped [Sentinel ErrLostUpdate, DomainErr (New WalletAlreadyExists)]" ErrLostUpdate]
  by (simp add: App_CodeOf_def)

end
