(* ===== verification/Snapshot.thy ===== *)
theory Snapshot
  imports Transaction
begin

text \<open>
  Rehydration of a transaction from storage
  (\<^verbatim>\<open>src/internal/domain/wagering/transaction_snapshot.go\<close>). The result pointer of a snapshot
  is an option. \<open>snapshot_of\<close> is the stored shape of a transaction; the source has no such
  function, since the storage layer reads the accessors one by one.
\<close>

record external_snapshot =
  xs_Provider :: provider
  xs_ExternalTransactionID :: external_id
  xs_IdempotencyKey :: idempotency_key
  xs_PayloadHash :: payload_hash
  xs_RoundID :: round_id
  xs_GameID :: game_id
  xs_ReferenceExternalTransactionID :: external_id
  xs_ResolvedReferenceID :: transaction_id

record transaction_snapshot =
  s_ID :: transaction_id
  s_WalletID :: wallet_id
  s_PlayerID :: player_id
  s_Kind :: kind
  s_Money :: money
  s_Status :: status
  s_CreatedAt :: instant
  s_UpdatedAt :: instant
  s_External :: "external_snapshot option"
  s_Result :: "money option"
  s_FailureCode :: code
  s_ReferenceAttempts :: int
  s_ReferenceDeadline :: instant

section \<open>Validation\<close>

definition provider_fields_of_snapshot :: "player_id \<Rightarrow> external_snapshot \<Rightarrow> provider_fields" where
  "provider_fields_of_snapshot player x =
     \<lparr>pf_Provider = xs_Provider x, pf_ExternalTransactionID = xs_ExternalTransactionID x,
      pf_IdempotencyKey = xs_IdempotencyKey x, pf_PlayerID = player,
      pf_RoundID = xs_RoundID x, pf_GameID = xs_GameID x\<rparr>"

definition validateOrigin :: "transaction_snapshot \<Rightarrow> unit res" where
  "validateOrigin s =
     (if Kind_IsInternal (s_Kind s) then
        (if s_External s \<noteq> None then Inl (WithField (New InvalidFieldFormat) ''external'')
         else if s_Status s \<noteq> Processed then Inl (WithField (New InvalidFieldFormat) ''status'')
         else Inr ())
      else case s_External s of
             None \<Rightarrow> Inl (WithField (New MissingRequiredField) ''external'')
           | Some x \<Rightarrow>
               bindE (validateProviderFields (provider_fields_of_snapshot (s_PlayerID s) x)) (\<lambda>_.
                 if xs_PayloadHash x = [] then Inl (missing ''payloadHash'') else Inr ()))"

definition validateAmount :: "transaction_snapshot \<Rightarrow> unit res" where
  "validateAmount s = checkAmount (s_Kind s) (s_Money s)"

text \<open>The switch on the status, which has no branch for the other statuses.\<close>

definition settlement_switch :: "transaction_snapshot \<Rightarrow> unit res" where
  "settlement_switch s =
     (case s_Status s of
        Processed \<Rightarrow>
          if s_Result s = None then Inl (WithField (New MissingRequiredField) ''result'') else Inr ()
      | Rejected \<Rightarrow>
          if s_FailureCode s = no_code
          then Inl (WithField (New MissingRequiredField) ''failureCode'')
          else checkSettlingCode (s_FailureCode s)
      | _ \<Rightarrow> Inr ())"

definition validateSettlement :: "transaction_snapshot \<Rightarrow> unit res" where
  "validateSettlement s =
     (if s_FailureCode s \<noteq> no_code \<and> \<not> Known_code (s_FailureCode s)
      then Inl (WithField (New InvalidFieldFormat) ''failureCode'')
      else bindE (settlement_switch s) (\<lambda>_.
        if s_Status s \<noteq> Processed \<and> s_Result s \<noteq> None
        then Inl (WithField (New InvalidFieldFormat) ''result'')
        else if s_Status s \<noteq> Rejected \<and> s_FailureCode s \<noteq> no_code
        then Inl (WithField (New InvalidFieldFormat) ''failureCode'')
        else case s_Result s of
               None \<Rightarrow> Inr ()
             | Some r \<Rightarrow> checkReportedBalance r (m_currency (s_Money s)) ''result''))"

definition validateReference :: "transaction_snapshot \<Rightarrow> unit res" where
  "validateReference s =
     (case s_External s of
        None \<Rightarrow> Inr ()
      | Some x \<Rightarrow>
          let named = xs_ReferenceExternalTransactionID x
          in bindE (checkReference (s_Kind s) (xs_ExternalTransactionID x) named) (\<lambda>_.
               if named \<noteq> [] then Inr ()
               else if \<not> ID_IsZero (xs_ResolvedReferenceID x)
               then Inl (WithField (New InvalidFieldFormat) ''resolvedReferenceId'')
               else Inr ()))"

definition validateWaitBudget :: "transaction_snapshot \<Rightarrow> unit res" where
  "validateWaitBudget s =
     (if s_ReferenceAttempts s < 0
      then Inl (WithField (New InvalidFieldFormat) ''referenceAttempts'')
      else if 0 < s_ReferenceAttempts s \<and> s_ReferenceDeadline s = zero_time
      then Inl (WithField (New InvalidFieldFormat) ''referenceDeadline'')
      else if s_ReferenceAttempts s = 0 \<and> s_ReferenceDeadline s \<noteq> zero_time
      then Inl (WithField (New InvalidFieldFormat) ''referenceDeadline'')
      else if s_Status s = PendingReference \<and> s_ReferenceAttempts s = 0
      then Inl (WithField (New InvalidFieldFormat) ''referenceAttempts'')
      else Inr ())"

definition external_of_snapshot :: "external_snapshot \<Rightarrow> external_details" where
  "external_of_snapshot x =
     \<lparr>x_provider = xs_Provider x, x_externalTransactionID = xs_ExternalTransactionID x,
      x_idempotencyKey = xs_IdempotencyKey x, x_payloadHash = xs_PayloadHash x,
      x_roundID = xs_RoundID x, x_gameID = xs_GameID x,
      x_referenceExternalID = xs_ReferenceExternalTransactionID x,
      x_resolvedReferenceID = xs_ResolvedReferenceID x\<rparr>"

definition transaction_of_snapshot :: "transaction_snapshot \<Rightarrow> wager_transaction" where
  "transaction_of_snapshot s =
     \<lparr>tx_id = s_ID s, tx_walletID = s_WalletID s, tx_playerID = s_PlayerID s, tx_kind = s_Kind s,
      tx_amount = s_Money s, tx_status = s_Status s, tx_createdAt = s_CreatedAt s,
      tx_updatedAt = s_UpdatedAt s, tx_external = map_option external_of_snapshot (s_External s),
      tx_result = (case s_Result s of None \<Rightarrow> no_money | Some r \<Rightarrow> r),
      tx_failureCode = s_FailureCode s, tx_referenceAttempts = s_ReferenceAttempts s,
      tx_referenceDeadline = s_ReferenceDeadline s\<rparr>"

definition RehydrateWagerTransaction :: "transaction_snapshot \<Rightarrow> wager_transaction res" where
  "RehydrateWagerTransaction s =
     (if ID_IsZero (s_ID s) then Inl (missing ''id'')
      else if ID_IsZero (s_WalletID s) then Inl (missing ''walletId'')
      else if \<not> Kind_Known (s_Kind s) then Inl (WithField (New InvalidFieldFormat) ''kind'')
      else if \<not> Status_Known (s_Status s) then Inl (WithField (New InvalidFieldFormat) ''status'')
      else if Money_IsUninitialized (s_Money s) then Inl (uninitialized ''money'')
      else if s_CreatedAt s = zero_time then Inl (missing ''createdAt'')
      else if s_UpdatedAt s = zero_time then Inl (missing ''updatedAt'')
      else if s_UpdatedAt s < s_CreatedAt s
      then Inl (WithField (New InvalidFieldFormat) ''updatedAt'')
      else bindE (NewPlayerID (s_PlayerID s)) (\<lambda>_.
           bindE (validateOrigin s) (\<lambda>_.
           bindE (validateAmount s) (\<lambda>_.
           bindE (validateSettlement s) (\<lambda>_.
           bindE (validateReference s) (\<lambda>_.
           bindE (validateWaitBudget s) (\<lambda>_.
           Inr (transaction_of_snapshot s))))))))"

section \<open>The stored shape of a transaction\<close>

definition snapshot_of_external :: "external_details \<Rightarrow> external_snapshot" where
  "snapshot_of_external x =
     \<lparr>xs_Provider = x_provider x, xs_ExternalTransactionID = x_externalTransactionID x,
      xs_IdempotencyKey = x_idempotencyKey x, xs_PayloadHash = x_payloadHash x,
      xs_RoundID = x_roundID x, xs_GameID = x_gameID x,
      xs_ReferenceExternalTransactionID = x_referenceExternalID x,
      xs_ResolvedReferenceID = x_resolvedReferenceID x\<rparr>"

definition snapshot_of :: "wager_transaction \<Rightarrow> transaction_snapshot" where
  "snapshot_of t =
     \<lparr>s_ID = tx_id t, s_WalletID = tx_walletID t, s_PlayerID = tx_playerID t, s_Kind = tx_kind t,
      s_Money = tx_amount t, s_Status = tx_status t, s_CreatedAt = tx_createdAt t,
      s_UpdatedAt = tx_updatedAt t, s_External = map_option snapshot_of_external (tx_external t),
      s_Result = Tx_Result t, s_FailureCode = tx_failureCode t,
      s_ReferenceAttempts = tx_referenceAttempts t, s_ReferenceDeadline = tx_referenceDeadline t\<rparr>"

lemma external_snapshot_inverse [simp]:
  "external_of_snapshot (snapshot_of_external x) = x"
  "snapshot_of_external (external_of_snapshot y) = y"
  by (simp_all add: external_of_snapshot_def snapshot_of_external_def)

lemma map_external_inverse [simp]:
  "map_option snapshot_of_external (map_option external_of_snapshot e) = e"
  "map_option external_of_snapshot (map_option snapshot_of_external f) = f"
  by (simp_all add: option.map_comp comp_def option.map_ident)

section \<open>Each check against its part of the invariant\<close>

text \<open>The fields a rehydrated transaction takes from its snapshot.\<close>

lemma transaction_of_snapshot_sel [simp]:
  "tx_id (transaction_of_snapshot s) = s_ID s"
  "tx_walletID (transaction_of_snapshot s) = s_WalletID s"
  "tx_playerID (transaction_of_snapshot s) = s_PlayerID s"
  "tx_kind (transaction_of_snapshot s) = s_Kind s"
  "tx_amount (transaction_of_snapshot s) = s_Money s"
  "tx_status (transaction_of_snapshot s) = s_Status s"
  "tx_createdAt (transaction_of_snapshot s) = s_CreatedAt s"
  "tx_updatedAt (transaction_of_snapshot s) = s_UpdatedAt s"
  "tx_external (transaction_of_snapshot s) = map_option external_of_snapshot (s_External s)"
  "tx_result (transaction_of_snapshot s) = (case s_Result s of None \<Rightarrow> no_money | Some r \<Rightarrow> r)"
  "tx_failureCode (transaction_of_snapshot s) = s_FailureCode s"
  "tx_referenceAttempts (transaction_of_snapshot s) = s_ReferenceAttempts s"
  "tx_referenceDeadline (transaction_of_snapshot s) = s_ReferenceDeadline s"
  by (simp_all add: transaction_of_snapshot_def)

lemma validateOrigin_iff:
  assumes "Kind_Known (s_Kind s)" "opaque_ok (s_PlayerID s)"
  shows "validateOrigin s = Inr u \<longleftrightarrow> origin_ok (transaction_of_snapshot s)"
  using assms
  by (auto simp: validateOrigin_def origin_ok_def validateProviderFields_Inr_iff
      provider_fields_of_snapshot_def external_of_snapshot_def kind_predicates
      split: option.splits)

lemma validateAmount_iff:
  assumes "\<not> Money_IsUninitialized (s_Money s)"
  shows "validateAmount s = Inr u \<longleftrightarrow> amount_ok (transaction_of_snapshot s)"
  using assms
  by (auto simp: validateAmount_def amount_ok_def checkAmount_Inr_iff money_predicates sless_int
      sint_zero_iff_int64)

text \<open>
  A snapshot distinguishes an absent result from a present one by the pointer; a transaction
  by the currency of the value. The check is what makes the two agree.
\<close>

definition result_faithful :: "transaction_snapshot \<Rightarrow> bool" where
  "result_faithful s \<longleftrightarrow> s_Result s = Tx_Result (transaction_of_snapshot s)"

lemma settling_code_known: "settling_code c \<Longrightarrow> Known_code c \<and> c \<noteq> no_code"
  by (auto simp: settling_code_def Known_code_def)

lemma no_money_uninitialized [simp]: "Money_IsUninitialized no_money" "cur_code (m_currency no_money) = []"
  by (simp_all add: no_money_def money_predicates)

lemma validateSettlement_iff:
  assumes "\<not> Money_IsUninitialized (s_Money s)"
  shows "validateSettlement s = Inr u \<longleftrightarrow>
    settlement_ok (transaction_of_snapshot s) \<and> result_faithful s"
proof -
  have "validateSettlement s = Inr u \<longleftrightarrow>
      (if s_Status s = Processed
       then \<exists>r. s_Result s = Some r \<and> cur_code (m_currency r) \<noteq> []
            \<and> m_currency r = m_currency (s_Money s) \<and> 0 \<le> sint (m_units r)
       else s_Result s = None)
      \<and> (if s_Status s = Rejected then settling_code (s_FailureCode s)
         else s_FailureCode s = no_code)"
    by (cases "s_Status s")
      (auto simp: validateSettlement_def settlement_switch_def settling_code_known
        dest: settling_code_known split: option.splits)
  then show ?thesis
    using assms
    by (auto simp: settlement_ok_def result_faithful_def Tx_Result_def money_predicates
        split: option.splits) (metis no_money_uninitialized(2))+
qed

lemma validateReference_iff:
  "validateReference s = Inr u \<longleftrightarrow> reference_ok (transaction_of_snapshot s)"
  by (auto simp: validateReference_def reference_ok_def checkReference_Inr_iff ID_IsZero_def
      external_of_snapshot_def Let_def split: option.splits)

lemma validateWaitBudget_iff:
  "validateWaitBudget s = Inr u \<longleftrightarrow> wait_ok (transaction_of_snapshot s)"
  by (auto simp: validateWaitBudget_def wait_ok_def)

lemma snapshot_inverse:
  "result_faithful s \<Longrightarrow> snapshot_of (transaction_of_snapshot s) = s"
  by (simp add: snapshot_of_def result_faithful_def flip: option.map_comp)

lemma snapshot_of_inverse:
  assumes "tx_ok t"
  shows "transaction_of_snapshot (snapshot_of t) = t \<and> result_faithful (snapshot_of t)"
proof -
  have "(case Tx_Result t of None \<Rightarrow> no_money | Some r \<Rightarrow> r) = tx_result t"
    using assms by (auto simp: Tx_Result_def tx_ok_def settlement_ok_def amount_ok_def
        money_predicates split: if_splits)
  then have "transaction_of_snapshot (snapshot_of t) = t"
    by (simp add: transaction_of_snapshot_def snapshot_of_def)
  then show ?thesis by (simp add: result_faithful_def snapshot_of_def)
qed

lemma origin_kind_known: "origin_ok t \<Longrightarrow> Kind_Known (tx_kind t)"
  by (auto simp: origin_ok_def kind_predicates split: option.splits)

lemma RehydrateWagerTransaction_Inr_iff:
  "RehydrateWagerTransaction s = Inr t \<longleftrightarrow> tx_ok t \<and> s = snapshot_of t"
proof -
  let ?t = "transaction_of_snapshot s"
  have "RehydrateWagerTransaction s = Inr t \<longleftrightarrow> t = ?t \<and> tx_ok ?t \<and> result_faithful s"
  proof (cases "Kind_Known (s_Kind s) \<and> \<not> Money_IsUninitialized (s_Money s) \<and> opaque_ok (s_PlayerID s)")
    case True
    then show ?thesis
      by (auto simp: RehydrateWagerTransaction_def tx_ok_def times_ok_def NewPlayerID_def
          validateOrigin_iff validateAmount_iff validateSettlement_iff validateReference_iff
          validateWaitBudget_iff ID_IsZero_def)
  next
    case False
    then show ?thesis
      using origin_kind_known [of ?t]
      by (auto simp: RehydrateWagerTransaction_def tx_ok_def amount_ok_def NewPlayerID_def
          money_predicates)
  qed
  then show ?thesis using snapshot_inverse snapshot_of_inverse by metis
qed

section \<open>Properties\<close>

text \<open>
  C38: rehydration accepts exactly the well formed transactions, and loses nothing. A stored
  snapshot loads to a transaction if and only if that transaction satisfies the invariant the
  constructors establish and every step of the state machine keeps, and the snapshot is its
  stored shape.
\<close>

theorem rehydration_exact:
  "RehydrateWagerTransaction s = Inr t \<longleftrightarrow> tx_ok t \<and> s = snapshot_of t"
  by (rule RehydrateWagerTransaction_Inr_iff)

text \<open>
  Whatever the domain can produce can be stored and read back. Every transaction reached
  from a constructor by successful operations on a clock that does not run backwards is
  rehydrated from its stored shape unchanged.
\<close>

theorem reachable_rehydrates:
  assumes "begun t0" "(clocked policy)\<^sup>*\<^sup>* t0 t"
  shows "RehydrateWagerTransaction (snapshot_of t) = Inr t"
  using life.inv_reachable [OF assms] by (simp add: RehydrateWagerTransaction_Inr_iff tx_live_def)

theorem reachable_rehydrates_witness:
  "let t = parked \<lparr>MaxAttempts = 3, TTL = 60\<rparr> 20
             (pending_transaction (sample_command Refund 500 ''ext-0'') 13 10)
   in RehydrateWagerTransaction (snapshot_of t) = Inr t \<and> tx_referenceDeadline t = 80"
proof -
  define p where "p = (\<lparr>MaxAttempts = 3, TTL = 60\<rparr> :: reference_policy)"
  define t0 where "t0 = pending_transaction (sample_command Refund 500 ''ext-0'') 13 10"
  have init: "begun t0"
    by (rule begun_external [of "sample_command Refund 500 ''ext-0''" 13 10])
      (simp_all add: NewExternalTransaction_Inr_iff sample_refund_ok t0_def)
  have "MarkPendingReference p 20 t0 = Inr (parked p 20 t0)"
    by (simp add: MarkPendingReference_Inr_iff p_def budget_spent_def open_status_def t0_def
        pending_transaction_def)
  then have "clocked p t0 (parked p 20 t0)"
    by (rule clocked_parked) (simp add: t0_def pending_transaction_def)
  from reachable_rehydrates [OF init r_into_rtranclp [where r = "clocked p", OF this]]
  show ?thesis
    by (simp add: Let_def flip: t0_def p_def)
      (simp add: parked_def t0_def pending_transaction_def p_def)
qed

text \<open>
  The state machine itself does not order times. A transaction can be settled at an
  instant before it was created, by an operation that succeeds; the result is then a
  transaction that rehydration refuses, so the order of times rests on the caller's clock.
\<close>

theorem backdated_settlement_not_rehydrated:
  "\<exists>cmd w t t'. NewExternalTransaction cmd w 10 = Inr t
     \<and> Tx_Reject InsufficientFunds 5 t = Inr t'
     \<and> RehydrateWagerTransaction (snapshot_of t')
       = Inl (WithField (New InvalidFieldFormat) ''updatedAt'')"
proof -
  let ?cmd = "sample_command Bet 500 []"
  let ?t = "pending_transaction ?cmd 13 10"
  have "NewExternalTransaction ?cmd 13 10 = Inr ?t"
    by (simp add: NewExternalTransaction_Inr_iff sample_bet_ok)
  moreover have "Tx_Reject InsufficientFunds 5 ?t =
      Inr (?t\<lparr>tx_status := Rejected, tx_updatedAt := 5, tx_failureCode := InsufficientFunds\<rparr>)"
    by (simp add: Tx_Reject_Inr_iff settling_code_iff open_status_def pending_transaction_def)
  moreover have "RehydrateWagerTransaction (snapshot_of
      (?t\<lparr>tx_status := Rejected, tx_updatedAt := 5, tx_failureCode := InsufficientFunds\<rparr>))
      = Inl (WithField (New InvalidFieldFormat) ''updatedAt'')"
    by (simp add: RehydrateWagerTransaction_def snapshot_of_def pending_transaction_def
        sample_command_def brl_def money_predicates kind_predicates Status_Known_def statuses_def
        ID_IsZero_def)
  ultimately show ?thesis by blast
qed

end
