(* ===== verification/Rows.thy ===== *)
theory Rows
  imports AppErrors Snapshot
begin

text \<open>
  The stored form of a wallet, a transaction and a ledger entry
  (\<^verbatim>\<open>src/internal/adapters/postgres/rows.go\<close>). A nullable column is an option. A row record
  has one field per column; \<open>walletArgs\<close>, \<open>transactionArgs\<close> and \<open>ledgerArgs\<close> are
  the rows an insert writes, and the three readers rebuild the domain value through its
  rehydrating constructor, so a row the domain would not have written is refused.
\<close>

section \<open>Columns\<close>

text \<open>
  A \<^verbatim>\<open>timestamptz\<close> keeps whole microseconds: a column holds how many had passed since Go's zero
  time, the driver sends the ones an instant has completed, and what is read back is the
  instant they end at. A time the clock of the service read has no smaller part; a deadline or
  a schedule computed from a duration may.
\<close>

datatype timestamptz = Micros int

type_synonym int32 = "32 word"

primrec since_zero :: "timestamptz \<Rightarrow> int" where
  "since_zero (Micros n) = n"

instantiation timestamptz :: linorder
begin

definition less_eq_timestamptz :: "timestamptz \<Rightarrow> timestamptz \<Rightarrow> bool" where
  "less_eq_timestamptz a b \<longleftrightarrow> since_zero a \<le> since_zero b"

definition less_timestamptz :: "timestamptz \<Rightarrow> timestamptz \<Rightarrow> bool" where
  "less_timestamptz a b \<longleftrightarrow> since_zero a < since_zero b"

instance
proof
  fix a b :: timestamptz
  show "a = b" if "a \<le> b" "b \<le> a"
    using that by (cases a; cases b) (simp add: less_eq_timestamptz_def)
qed (auto simp: less_eq_timestamptz_def less_timestamptz_def)

end

definition micros :: "instant \<Rightarrow> timestamptz" where
  "micros t = Micros (t div 1000)"

definition instant_of :: "timestamptz \<Rightarrow> instant" where
  "instant_of c = since_zero c * 1000"

text \<open>What is read back of what was written.\<close>

definition kept :: "instant \<Rightarrow> instant" where
  "kept t = instant_of (micros t)"

abbreviation whole :: "instant \<Rightarrow> bool" where
  "whole t \<equiv> kept t = t"

lemma micros_instant_of [simp]: "micros (instant_of c) = c"
  by (cases c) (simp add: micros_def instant_of_def)

lemma instant_of_le_iff [simp]: "instant_of c \<le> instant_of d \<longleftrightarrow> c \<le> d"
  by (simp add: instant_of_def less_eq_timestamptz_def)

lemma instant_of_eq_iff [simp]: "instant_of c = instant_of d \<longleftrightarrow> c = d"
  by (cases c; cases d) (simp add: instant_of_def)

lemma micros_mono: "s \<le> t \<Longrightarrow> micros s \<le> micros t"
  by (simp add: micros_def less_eq_timestamptz_def zdiv_mono1)

lemma kept_simps [simp]: "micros (kept t) = micros t" "kept (kept t) = kept t" "kept (instant_of c) = instant_of c"
  by (simp_all add: kept_def)

lemma whole_zero [simp]: "kept 0 = 0"
  by (simp add: kept_def instant_of_def micros_def)

lemma whole_literal: "kept t = t \<longleftrightarrow> t mod 1000 = 0"
  by (simp add: kept_def instant_of_def micros_def mult.commute [of _ 1000] minus_mod_eq_mult_div [symmetric])

lemma kept_le: "kept t \<le> t"
  by (simp add: kept_def instant_of_def micros_def mult.commute [of _ 1000] minus_mod_eq_mult_div [symmetric])

lemma instant_of_micros: "whole t \<Longrightarrow> instant_of (micros t) = t"
  by (simp add: kept_def)

lemma kept_mono: "s \<le> t \<Longrightarrow> kept s \<le> kept t"
  by (simp add: kept_def micros_mono)

text \<open>Comparing what was stored with what will be.\<close>

lemma micros_le_iff: "whole s \<Longrightarrow> micros s \<le> micros t \<longleftrightarrow> s \<le> t"
  by (metis instant_of_le_iff kept_def kept_le micros_mono order_trans)

lemma micros_less_iff: "whole t \<Longrightarrow> micros s < micros t \<longleftrightarrow> s < t"
  using micros_le_iff [of t s] by (simp flip: linorder_not_le)

text \<open>A microsecond later a column tells the difference.\<close>

lemma micros_later: "now + 1000 \<le> due \<Longrightarrow> micros now < micros due"
  using micros_mono [of "now + 1000" due] by (simp add: micros_def less_timestamptz_def less_eq_timestamptz_def)

lemma kept_positive: "whole s \<Longrightarrow> 0 < s \<Longrightarrow> s \<le> t \<Longrightarrow> 0 < kept t"
  using kept_mono [of s t] by simp

definition uuidOf :: "uuid \<Rightarrow> uuid option" where
  "uuidOf i = Some i"

definition nullableUUIDOf :: "uuid \<Rightarrow> uuid option" where
  "nullableUUIDOf i = (if i = 0 then None else uuidOf i)"

definition idFrom :: "uuid option \<Rightarrow> uuid" where
  "idFrom v = (case v of None \<Rightarrow> 0 | Some i \<Rightarrow> i)"

definition textOf :: "string \<Rightarrow> string option" where
  "textOf s = (if s = [] then None else Some s)"

definition textFrom :: "string option \<Rightarrow> string" where
  "textFrom v = (case v of None \<Rightarrow> [] | Some s \<Rightarrow> s)"

definition timeOf :: "instant \<Rightarrow> timestamptz option" where
  "timeOf t = (if t = zero_time then None else Some (micros t))"

definition timeFrom :: "timestamptz option \<Rightarrow> instant" where
  "timeFrom v = (case v of None \<Rightarrow> zero_time | Some c \<Rightarrow> instant_of c)"

definition minorOf :: "money \<Rightarrow> int64" where
  "minorOf m = m_units m"

definition nullableMinorOf :: "money option \<Rightarrow> int64 option" where
  "nullableMinorOf m = (case m of None \<Rightarrow> None | Some m \<Rightarrow> Some (m_units m))"

definition moneyFrom :: "int64 \<Rightarrow> string \<Rightarrow> money res" where
  "moneyFrom minor cc = bindE (ParseCurrency cc) (FromMinorUnits minor)"

section \<open>Wallet rows\<close>

record wallet_row =
  wr_id :: "uuid option"
  wr_playerID :: string
  wr_currency :: string
  wr_balance :: int64
  wr_version :: int64
  wr_createdAt :: timestamptz
  wr_updatedAt :: timestamptz

definition walletArgs :: "wallet \<Rightarrow> wallet_row" where
  "walletArgs w =
     \<lparr>wr_id = uuidOf (w_id w), wr_playerID = w_playerID w,
      wr_currency = Currency_String (Wallet_Currency w), wr_balance = minorOf (w_balance w),
      wr_version = w_version w, wr_createdAt = micros (w_createdAt w), wr_updatedAt = micros (w_updatedAt w)\<rparr>"

text \<open>A refusal of the domain, as a Go error.\<close>

definition domain :: "'a res \<Rightarrow> 'a eres" where
  "domain m = (case m of Inl f \<Rightarrow> Inl (DomainErr f) | Inr a \<Rightarrow> Inr a)"

definition row_wallet :: "wallet_row \<Rightarrow> wallet eres" where
  "row_wallet r =
     bindE (domain (moneyFrom (wr_balance r) (wr_currency r))) (\<lambda>balance.
       if wr_version r <s 0 then Inl (Sentinel errNegativeVersion)
       else domain (RehydrateWallet
         \<lparr>ws_ID = idFrom (wr_id r), ws_PlayerID = wr_playerID r, ws_Balance = balance,
          ws_Version = wr_version r, ws_CreatedAt = instant_of (wr_createdAt r),
          ws_UpdatedAt = instant_of (wr_updatedAt r)\<rparr>))"

section \<open>Transaction rows\<close>

record transaction_row =
  tr_id :: "uuid option"
  tr_walletID :: "uuid option"
  tr_playerID :: string
  tr_currency :: string
  tr_kind :: string
  tr_status :: string
  tr_amount :: int64
  tr_provider :: "string option"
  tr_externalID :: "string option"
  tr_idempotencyKey :: "string option"
  tr_payloadHash :: "string option"
  tr_roundID :: "string option"
  tr_gameID :: "string option"
  tr_referenceExternal :: "string option"
  tr_resolvedReference :: "uuid option"
  tr_correlation :: string
  tr_result :: "int64 option"
  tr_failureCode :: "string option"
  tr_attempts :: int32
  tr_deadline :: "timestamptz option"
  tr_createdAt :: timestamptz
  tr_updatedAt :: timestamptz
  tr_nextAttemptAt :: "timestamptz option"

record stored_transaction =
  st_Transaction :: wager_transaction
  st_Correlation :: string

definition no_external :: external_snapshot where
  "no_external =
     \<lparr>xs_Provider = [], xs_ExternalTransactionID = [], xs_IdempotencyKey = [], xs_PayloadHash = [],
      xs_RoundID = [], xs_GameID = [], xs_ReferenceExternalTransactionID = [],
      xs_ResolvedReferenceID = 0\<rparr>"

text \<open>
  The attempts are an \<^verbatim>\<open>int\<close> in Go and an \<^verbatim>\<open>integer\<close> of four bytes in the table. The driver
  refuses to encode one that does not fit, and nothing is sent: the statements that write a
  transaction ask \<open>attempts_fit\<close> first, and the row is the one written when it does.
\<close>

definition attempts_fit :: "transaction_snapshot \<Rightarrow> bool" where
  "attempts_fit snap \<longleftrightarrow> - (2 ^ 31) \<le> s_ReferenceAttempts snap \<and> s_ReferenceAttempts snap < 2 ^ 31"

definition transactionArgs :: "transaction_snapshot \<Rightarrow> string \<Rightarrow> instant \<Rightarrow> transaction_row" where
  "transactionArgs snap correlation nextAttemptAt =
     (let x = (case s_External snap of None \<Rightarrow> no_external | Some x \<Rightarrow> x)
      in \<lparr>tr_id = uuidOf (s_ID snap), tr_walletID = uuidOf (s_WalletID snap),
          tr_playerID = s_PlayerID snap,
          tr_currency = Currency_String (m_currency (s_Money snap)),
          tr_kind = Kind_String (s_Kind snap), tr_status = Status_String (s_Status snap),
          tr_amount = minorOf (s_Money snap),
          tr_provider = textOf (xs_Provider x), tr_externalID = textOf (xs_ExternalTransactionID x),
          tr_idempotencyKey = textOf (xs_IdempotencyKey x),
          tr_payloadHash = textOf (xs_PayloadHash x), tr_roundID = textOf (xs_RoundID x),
          tr_gameID = textOf (xs_GameID x),
          tr_referenceExternal = textOf (xs_ReferenceExternalTransactionID x),
          tr_resolvedReference = nullableUUIDOf (xs_ResolvedReferenceID x),
          tr_correlation = correlation, tr_result = nullableMinorOf (s_Result snap),
          tr_failureCode = textOf (code_String (s_FailureCode snap)),
          tr_attempts = word_of_int (s_ReferenceAttempts snap), tr_deadline = timeOf (s_ReferenceDeadline snap),
          tr_createdAt = micros (s_CreatedAt snap), tr_updatedAt = micros (s_UpdatedAt snap),
          tr_nextAttemptAt = timeOf nextAttemptAt\<rparr>)"

text \<open>The accessors of a transaction, read one by one; a flag that is false leaves a zero value.\<close>

definition flaggedTime :: "instant option \<Rightarrow> instant" where
  "flaggedTime v = (case v of None \<Rightarrow> zero_time | Some t \<Rightarrow> t)"

definition snapshotOf :: "wager_transaction \<Rightarrow> transaction_snapshot" where
  "snapshotOf tx =
     \<lparr>s_ID = tx_id tx, s_WalletID = tx_walletID tx, s_PlayerID = tx_playerID tx,
      s_Kind = tx_kind tx, s_Money = tx_amount tx, s_Status = tx_status tx,
      s_CreatedAt = tx_createdAt tx, s_UpdatedAt = tx_updatedAt tx,
      s_External =
        (if \<not> Tx_IsExternal tx then None
         else Some
           \<lparr>xs_Provider = textFrom (Tx_Provider tx),
            xs_ExternalTransactionID = textFrom (Tx_ExternalTransactionID tx),
            xs_IdempotencyKey = textFrom (Tx_IdempotencyKey tx),
            xs_PayloadHash = textFrom (Tx_PayloadHash tx), xs_RoundID = textFrom (Tx_RoundID tx),
            xs_GameID = textFrom (Tx_GameID tx),
            xs_ReferenceExternalTransactionID = textFrom (Tx_ReferenceExternalTransactionID tx),
            xs_ResolvedReferenceID = idFrom (Tx_ResolvedReferenceID tx)\<rparr>),
      s_Result = Tx_Result tx,
      s_FailureCode = (case Tx_FailureCode tx of None \<Rightarrow> no_code | Some c \<Rightarrow> c),
      s_ReferenceAttempts = tx_referenceAttempts tx,
      s_ReferenceDeadline = flaggedTime (Tx_ReferenceDeadline tx)\<rparr>"

definition row_snapshot :: "transaction_row \<Rightarrow> money \<Rightarrow> money option \<Rightarrow> transaction_snapshot" where
  "row_snapshot r amount reported =
     \<lparr>s_ID = idFrom (tr_id r), s_WalletID = idFrom (tr_walletID r), s_PlayerID = tr_playerID r,
      s_Kind = kindOf (tr_kind r), s_Money = amount, s_Status = statusOf (tr_status r),
      s_CreatedAt = instant_of (tr_createdAt r), s_UpdatedAt = instant_of (tr_updatedAt r),
      s_External =
        (case tr_provider r of
           None \<Rightarrow> None
         | Some _ \<Rightarrow> Some
             \<lparr>xs_Provider = textFrom (tr_provider r),
              xs_ExternalTransactionID = textFrom (tr_externalID r),
              xs_IdempotencyKey = textFrom (tr_idempotencyKey r),
              xs_PayloadHash = textFrom (tr_payloadHash r), xs_RoundID = textFrom (tr_roundID r),
              xs_GameID = textFrom (tr_gameID r),
              xs_ReferenceExternalTransactionID = textFrom (tr_referenceExternal r),
              xs_ResolvedReferenceID = idFrom (tr_resolvedReference r)\<rparr>),
      s_Result = reported, s_FailureCode = code_of_string (textFrom (tr_failureCode r)),
      s_ReferenceAttempts = sint (tr_attempts r), s_ReferenceDeadline = timeFrom (tr_deadline r)\<rparr>"

definition row_transaction :: "transaction_row \<Rightarrow> wager_transaction res" where
  "row_transaction r =
     bindE (moneyFrom (tr_amount r) (tr_currency r)) (\<lambda>amount.
       case tr_result r of
         None \<Rightarrow> RehydrateWagerTransaction (row_snapshot r amount None)
       | Some minor \<Rightarrow>
           bindE (moneyFrom minor (tr_currency r)) (\<lambda>reported.
             RehydrateWagerTransaction (row_snapshot r amount (Some reported))))"

definition row_stored :: "transaction_row \<Rightarrow> stored_transaction res" where
  "row_stored r =
     bindE (row_transaction r) (\<lambda>tx. Inr \<lparr>st_Transaction = tx, st_Correlation = tr_correlation r\<rparr>)"

section \<open>Ledger rows\<close>

record ledger_row =
  lr_id :: "uuid option"
  lr_walletID :: "uuid option"
  lr_transactionID :: "uuid option"
  lr_currency :: string
  lr_direction :: string
  lr_amount :: int64
  lr_balanceBefore :: int64
  lr_balanceAfter :: int64
  lr_walletVersion :: int64
  lr_createdAt :: timestamptz

definition ledgerArgs :: "ledger_entry \<Rightarrow> ledger_row" where
  "ledgerArgs e =
     \<lparr>lr_id = uuidOf (le_id e), lr_walletID = uuidOf (le_walletID e),
      lr_transactionID = uuidOf (le_transactionID e),
      lr_currency = Currency_String (m_currency (le_amount e)),
      lr_direction = Direction_String (le_direction e), lr_amount = minorOf (le_amount e),
      lr_balanceBefore = minorOf (le_balanceBefore e), lr_balanceAfter = minorOf (le_balanceAfter e),
      lr_walletVersion = le_walletVersion e, lr_createdAt = micros (le_createdAt e)\<rparr>"

definition row_entry :: "ledger_row \<Rightarrow> ledger_entry eres" where
  "row_entry r =
     bindE (domain (moneyFrom (lr_amount r) (lr_currency r))) (\<lambda>amount.
     bindE (domain (moneyFrom (lr_balanceBefore r) (lr_currency r))) (\<lambda>held.
     bindE (domain (moneyFrom (lr_balanceAfter r) (lr_currency r))) (\<lambda>after.
       if lr_walletVersion r <s 0 then Inl (Sentinel errNegativeVersion)
       else domain (RehydrateWalletLedgerEntry
         \<lparr>li_ID = idFrom (lr_id r), li_WalletID = idFrom (lr_walletID r),
          li_TransactionID = idFrom (lr_transactionID r), li_Direction = directionOf (lr_direction r),
          li_Amount = amount, li_BalanceBefore = held, li_BalanceAfter = after,
          li_WalletVersion = lr_walletVersion r, li_CreatedAt = instant_of (lr_createdAt r)\<rparr>))))"

section \<open>Column round trips\<close>

lemma column_inverse [simp]:
  "idFrom (uuidOf i) = i" "idFrom (nullableUUIDOf i) = i" "textFrom (textOf s) = s"
  "timeFrom (timeOf t) = kept t"
  by (simp_all add: idFrom_def uuidOf_def nullableUUIDOf_def textFrom_def textOf_def timeFrom_def
      timeOf_def flip: kept_def)

lemma attempts_column: "0 \<le> n \<Longrightarrow> n < 2 ^ 31 \<Longrightarrow> sint (word_of_int n :: int32) = n"
  by (simp add: signed_of_int signed_take_bit_int_eq_self)

lemma attempts_range: "sint (a :: int32) < 2 ^ 31"
  using sint_lt [of a] by simp

lemma domain_Inr_iff [simp]: "domain m = Inr a \<longleftrightarrow> m = Inr a"
  by (cases m) (simp_all add: domain_def)

lemma domain_Inr [simp]: "domain (Inr a) = Inr a" and domain_Inl [simp]: "domain (Inl f) = Inl (DomainErr f)"
  by (simp_all add: domain_def)

lemma kindOf_String: "Kind_Known k \<Longrightarrow> kindOf (Kind_String k) = k"
  by (cases k) (simp_all add: kind_predicates kindOf_def)

lemma statusOf_String: "Status_Known s \<Longrightarrow> statusOf (Status_String s) = s"
  by (cases s) (simp_all add: Status_Known_def statuses_def statusOf_def)

lemma directionOf_String: "Direction_Known d \<Longrightarrow> directionOf (Direction_String d) = d"
  by (cases d) (simp_all add: Direction_Known_def directionOf_def)

lemma settling_code_String:
  "c = no_code \<or> settling_code c \<Longrightarrow> code_of_string (code_String c) = c"
proof (elim disjE)
  assume "c = no_code"
  then show ?thesis by (simp add: code_of_string_def declared_codes_def)
next
  assume "settling_code c"
  then show ?thesis by (intro code_of_string_String) (simp add: settling_code_def Known_iff_declared)
qed

text \<open>An amount whose currency the service can parse.\<close>

definition storable_money :: "money \<Rightarrow> bool" where
  "storable_money m \<longleftrightarrow> cur_code (m_currency m) \<in> set supportedCurrencies"

lemma moneyFrom_Inr_iff:
  "moneyFrom u cc = Inr m \<longleftrightarrow>
     cc \<in> set supportedCurrencies \<and> m = \<lparr>m_units = u, m_currency = \<lparr>cur_code = cc\<rparr>\<rparr>"
proof -
  have "cc \<noteq> []" if "cc \<in> set supportedCurrencies"
    using that supportedCurrencies_form by (auto simp: list_all_iff)
  then show ?thesis
    by (auto simp: moneyFrom_def ParseCurrency_Inr_iff FromMinorUnits_def Currency_IsZero_def)
qed

lemma moneyFrom_money: "storable_money m \<Longrightarrow> moneyFrom (m_units m) (cur_code (m_currency m)) = Inr m"
  by (cases m; cases "m_currency m") (simp add: moneyFrom_Inr_iff storable_money_def)

lemma snapshotOf_eq: "snapshotOf tx = snapshot_of tx"
  by (cases "tx_external tx")
    (auto simp: snapshotOf_def snapshot_of_def snapshot_of_external_def tx_accessors textFrom_def
      idFrom_def flaggedTime_def ID_IsZero_def)

section \<open>Row round trips\<close>

definition wallet_storable :: "wallet \<Rightarrow> bool" where
  "wallet_storable w \<longleftrightarrow>
     wallet_ok w \<and> storable_money (w_balance w) \<and> 0 \<le>s w_version w \<and> whole (w_createdAt w) \<and> whole (w_updatedAt w)"

definition tx_storable :: "wager_transaction \<Rightarrow> bool" where
  "tx_storable t \<longleftrightarrow>
     tx_ok t \<and> storable_money (tx_amount t) \<and> tx_referenceAttempts t < 2 ^ 31
     \<and> whole (tx_createdAt t) \<and> whole (tx_updatedAt t) \<and> whole (tx_referenceDeadline t)"

definition entry_storable :: "ledger_entry \<Rightarrow> bool" where
  "entry_storable e \<longleftrightarrow>
     entry_ok e \<and> storable_money (le_amount e) \<and> 0 \<le>s le_walletVersion e \<and> whole (le_createdAt e)"

lemma row_wallet_Inr_iff: "row_wallet r = Inr w \<longleftrightarrow> wallet_storable w \<and> r = walletArgs w"
proof
  assume "row_wallet r = Inr w"
  then obtain b where b: "moneyFrom (wr_balance r) (wr_currency r) = Inr b"
    and v: "\<not> wr_version r <s 0" and re: "RehydrateWallet
         \<lparr>ws_ID = idFrom (wr_id r), ws_PlayerID = wr_playerID r, ws_Balance = b,
          ws_Version = wr_version r, ws_CreatedAt = instant_of (wr_createdAt r),
          ws_UpdatedAt = instant_of (wr_updatedAt r)\<rparr> = Inr w"
    by (auto simp: row_wallet_def)
  from re have "wallet_ok w" and w: "w_id w = idFrom (wr_id r)" "w_playerID w = wr_playerID r"
    "w_balance w = b" "w_version w = wr_version r" "w_createdAt w = instant_of (wr_createdAt r)"
    "w_updatedAt w = instant_of (wr_updatedAt r)"
    by (auto simp: RehydrateWallet_Inr_iff snapshot_of_wallet_def)
  moreover have "wr_id r = Some (w_id w)"
    using \<open>wallet_ok w\<close> w(1) by (cases "wr_id r") (auto simp: wallet_ok_def idFrom_def)
  ultimately show "wallet_storable w \<and> r = walletArgs w"
    using b v by (auto simp: wallet_storable_def walletArgs_def moneyFrom_Inr_iff storable_money_def
        uuidOf_def minorOf_def Wallet_Currency_def Currency_String_def sless_int sle_int not_less)
next
  assume w: "wallet_storable w \<and> r = walletArgs w"
  then have "moneyFrom (wr_balance r) (wr_currency r) = Inr (w_balance w)"
    using moneyFrom_money [of "w_balance w"]
    by (simp add: wallet_storable_def walletArgs_def minorOf_def Currency_String_def Wallet_Currency_def)
  moreover have "RehydrateWallet (snapshot_of_wallet w) = Inr w"
    using w by (simp add: RehydrateWallet_Inr_iff wallet_storable_def)
  ultimately show "row_wallet r = Inr w"
    using w by (simp add: row_wallet_def walletArgs_def snapshot_of_wallet_def wallet_storable_def
        sless_int sle_int not_less instant_of_micros)
qed

lemma row_entry_Inr_iff: "row_entry r = Inr e \<longleftrightarrow> entry_storable e \<and> r = ledgerArgs e"
proof
  assume "row_entry r = Inr e"
  then obtain a b c where m: "moneyFrom (lr_amount r) (lr_currency r) = Inr a"
    "moneyFrom (lr_balanceBefore r) (lr_currency r) = Inr b"
    "moneyFrom (lr_balanceAfter r) (lr_currency r) = Inr c"
    and v: "\<not> lr_walletVersion r <s 0" and re: "NewWalletLedgerEntry
         \<lparr>li_ID = idFrom (lr_id r), li_WalletID = idFrom (lr_walletID r),
          li_TransactionID = idFrom (lr_transactionID r), li_Direction = directionOf (lr_direction r),
          li_Amount = a, li_BalanceBefore = b, li_BalanceAfter = c,
          li_WalletVersion = lr_walletVersion r, li_CreatedAt = instant_of (lr_createdAt r)\<rparr> = Inr e"
    by (auto simp: row_entry_def RehydrateWalletLedgerEntry_def)
  from re have ok: "entry_ok e" and e: "le_id e = idFrom (lr_id r)" "le_walletID e = idFrom (lr_walletID r)"
    "le_transactionID e = idFrom (lr_transactionID r)" "le_direction e = directionOf (lr_direction r)"
    "le_amount e = a" "le_balanceBefore e = b" "le_balanceAfter e = c"
    "le_walletVersion e = lr_walletVersion r" "le_createdAt e = instant_of (lr_createdAt r)"
    by (auto simp: NewWalletLedgerEntry_Inr_iff entry_of_input_def)
  have ids: "lr_id r = Some (le_id e)" "lr_walletID r = Some (le_walletID e)"
    "lr_transactionID r = Some (le_transactionID e)"
    using ok e(1,2,3) by (auto simp: entry_ok_def idFrom_def split: option.splits)
  have "Direction_String (le_direction e) = lr_direction r"
    by (simp add: e(4) directionOf_def)
  with ok e ids m v show "entry_storable e \<and> r = ledgerArgs e"
    by (auto simp: entry_storable_def ledgerArgs_def moneyFrom_Inr_iff storable_money_def uuidOf_def
        minorOf_def Currency_String_def sless_int sle_int not_less)
next
  assume e: "entry_storable e \<and> r = ledgerArgs e"
  then have ok: "entry_ok e" by (simp add: entry_storable_def)
  have cur: "m_currency (le_balanceBefore e) = m_currency (le_amount e)"
    "m_currency (le_balanceAfter e) = m_currency (le_amount e)"
    using ok by (simp_all add: entry_ok_def)
  have "storable_money (le_amount e)" "storable_money (le_balanceBefore e)" "storable_money (le_balanceAfter e)"
    using e cur by (simp_all add: entry_storable_def storable_money_def)
  note m = this [THEN moneyFrom_money]
  have "NewWalletLedgerEntry
         \<lparr>li_ID = le_id e, li_WalletID = le_walletID e, li_TransactionID = le_transactionID e,
          li_Direction = le_direction e, li_Amount = le_amount e, li_BalanceBefore = le_balanceBefore e,
          li_BalanceAfter = le_balanceAfter e, li_WalletVersion = le_walletVersion e,
          li_CreatedAt = le_createdAt e\<rparr> = Inr e"
    using ok by (simp add: NewWalletLedgerEntry_Inr_iff entry_of_input_def)
  moreover have "directionOf (Direction_String (le_direction e)) = le_direction e"
    using ok by (intro directionOf_String) (simp add: entry_ok_def)
  ultimately show "row_entry r = Inr e"
    using e m by (simp add: row_entry_def ledgerArgs_def RehydrateWalletLedgerEntry_def minorOf_def
        Currency_String_def entry_storable_def sless_int sle_int not_less cur instant_of_micros)
qed

text \<open>The row of a transaction, with the trace it arrived under and its schedule.\<close>

abbreviation row_of :: "wager_transaction \<Rightarrow> string \<Rightarrow> instant \<Rightarrow> transaction_row" where
  "row_of t correlation next \<equiv> transactionArgs (snapshotOf t) correlation next"

lemma row_of_external:
  assumes "tx_ok t"
  shows "(case tr_provider (row_of t c n) of
            None \<Rightarrow> None
          | Some _ \<Rightarrow> Some
             \<lparr>xs_Provider = textFrom (tr_provider (row_of t c n)),
              xs_ExternalTransactionID = textFrom (tr_externalID (row_of t c n)),
              xs_IdempotencyKey = textFrom (tr_idempotencyKey (row_of t c n)),
              xs_PayloadHash = textFrom (tr_payloadHash (row_of t c n)),
              xs_RoundID = textFrom (tr_roundID (row_of t c n)),
              xs_GameID = textFrom (tr_gameID (row_of t c n)),
              xs_ReferenceExternalTransactionID = textFrom (tr_referenceExternal (row_of t c n)),
              xs_ResolvedReferenceID = idFrom (tr_resolvedReference (row_of t c n))\<rparr>)
         = s_External (snapshot_of t)"
proof (cases "tx_external t")
  case None
  then show ?thesis
    by (simp add: transactionArgs_def snapshotOf_eq snapshot_of_def no_external_def textOf_def Let_def)
next
  case (Some x)
  then have "x_provider x \<noteq> []"
    using assms by (auto simp: tx_ok_def origin_ok_def opaque_ok_def)
  with Some have "tr_provider (row_of t c n) = Some (x_provider x)"
    by (simp add: transactionArgs_def snapshotOf_eq snapshot_of_def snapshot_of_external_def Let_def)
      (simp add: textOf_def)
  with Some show ?thesis
    by (simp add: textFrom_def)
      (simp add: transactionArgs_def snapshotOf_eq snapshot_of_def snapshot_of_external_def Let_def
        flip: textFrom_def)
qed

lemma row_snapshot_row_of:
  assumes "tx_storable t"
  shows "row_snapshot (row_of t c n) (tx_amount t) (Tx_Result t) = snapshot_of t"
proof -
  have ok: "tx_ok t" using assms by (simp add: tx_storable_def)
  then have attempts: "sint (word_of_int (tx_referenceAttempts t) :: int32) = tx_referenceAttempts t"
    using assms by (intro attempts_column) (simp_all add: tx_storable_def tx_ok_def wait_ok_def)
  have "kindOf (Kind_String (tx_kind t)) = tx_kind t"
    using ok by (intro kindOf_String origin_kind_known) (simp add: tx_ok_def)
  moreover have "statusOf (Status_String (tx_status t)) = tx_status t"
    using ok by (intro statusOf_String) (simp add: tx_ok_def)
  moreover have "code_of_string (code_String (tx_failureCode t)) = tx_failureCode t"
    using ok by (intro settling_code_String) (auto simp: tx_ok_def settlement_ok_def split: if_splits)
  ultimately show ?thesis
    unfolding row_snapshot_def row_of_external [OF ok]
    using assms attempts
    by (simp add: transactionArgs_def snapshotOf_eq snapshot_of_def tx_storable_def instant_of_micros Let_def)
qed

lemma row_transaction_row_of:
  assumes "tx_storable t"
  shows "row_transaction (row_of t c n) = Inr t"
proof -
  have ok: "tx_ok t" and st: "storable_money (tx_amount t)" using assms by (simp_all add: tx_storable_def)
  have amount: "moneyFrom (tr_amount (row_of t c n)) (tr_currency (row_of t c n)) = Inr (tx_amount t)"
    using moneyFrom_money [OF st]
    by (simp add: transactionArgs_def snapshotOf_eq snapshot_of_def minorOf_def Currency_String_def Let_def)
  have re: "RehydrateWagerTransaction (row_snapshot (row_of t c n) (tx_amount t) (Tx_Result t)) = Inr t"
    by (simp add: row_snapshot_row_of [OF assms] RehydrateWagerTransaction_Inr_iff ok)
  show ?thesis
  proof (cases "Tx_Result t")
    case None
    then have "tr_result (row_of t c n) = None"
      by (simp add: transactionArgs_def snapshotOf_eq snapshot_of_def nullableMinorOf_def Let_def)
    with re None show ?thesis by (simp add: row_transaction_def amount)
  next
    case (Some b)
    then have res: "tr_result (row_of t c n) = Some (m_units b)"
      by (simp add: transactionArgs_def snapshotOf_eq snapshot_of_def nullableMinorOf_def Let_def)
    have "b = tx_result t" "tx_status t = Processed"
      using Some ok by (auto simp: Tx_Result_def tx_ok_def settlement_ok_def split: if_splits)
    then have "m_currency b = m_currency (tx_amount t)"
      using ok by (simp add: tx_ok_def settlement_ok_def)
    then have "moneyFrom (m_units b) (tr_currency (row_of t c n)) = Inr b"
      using moneyFrom_money [of b] st
      by (simp add: storable_money_def transactionArgs_def snapshotOf_eq snapshot_of_def
          Currency_String_def Let_def)
    with re Some res show ?thesis by (simp add: row_transaction_def amount)
  qed
qed

lemma row_transaction_storable: "row_transaction r = Inr t \<Longrightarrow> tx_storable t"
proof -
  assume r: "row_transaction r = Inr t"
  then obtain a b where a: "moneyFrom (tr_amount r) (tr_currency r) = Inr a"
    and re: "RehydrateWagerTransaction (row_snapshot r a b) = Inr t"
    by (auto simp: row_transaction_def split: option.splits)
  then have "tx_ok t" "tx_amount t = a" and columns: "tx_createdAt t = instant_of (tr_createdAt r)"
    "tx_updatedAt t = instant_of (tr_updatedAt r)" "tx_referenceDeadline t = timeFrom (tr_deadline r)"
    "tx_referenceAttempts t = sint (tr_attempts r)"
    by (auto simp: RehydrateWagerTransaction_Inr_iff row_snapshot_def snapshot_of_def)
  moreover have "whole (timeFrom v)" for v by (cases v) (simp_all add: timeFrom_def)
  ultimately show ?thesis using a attempts_range [of "tr_attempts r"]
    by (auto simp: tx_storable_def moneyFrom_Inr_iff storable_money_def)
qed

text \<open>What is read back of a transaction: its times, and its deadline, to the microsecond.\<close>

definition kept_tx :: "wager_transaction \<Rightarrow> wager_transaction" where
  "kept_tx t = t\<lparr>tx_createdAt := kept (tx_createdAt t), tx_updatedAt := kept (tx_updatedAt t),
     tx_referenceDeadline := kept (tx_referenceDeadline t)\<rparr>"

lemma kept_tx_whole: "tx_storable t \<Longrightarrow> kept_tx t = t"
  by (simp add: kept_tx_def tx_storable_def)

lemma row_of_kept_tx:
  assumes "kept (tx_referenceDeadline t) = 0 \<longrightarrow> tx_referenceDeadline t = 0"
  shows "row_of (kept_tx t) c n = row_of t c n"
  using assms
  by (cases "tx_external t")
    (auto simp: transactionArgs_def snapshotOf_eq snapshot_of_def snapshot_of_external_def kept_tx_def timeOf_def
      Tx_Result_def Let_def)

lemma kept_tx_storable:
  assumes "tx_ok t" "storable_money (tx_amount t)" "tx_referenceAttempts t < 2 ^ 31"
    "0 < kept (tx_createdAt t)" "waits_ahead t"
  shows "tx_storable (kept_tx t)" "kept (tx_referenceDeadline t) = 0 \<longrightarrow> tx_referenceDeadline t = 0"
proof -
  have deadline: "kept (tx_referenceDeadline t) = 0 \<longleftrightarrow> tx_referenceDeadline t = 0"
    using assms(4,5) kept_mono [of "tx_createdAt t" "tx_referenceDeadline t"] by (auto simp: waits_ahead_def)
  then show "kept (tx_referenceDeadline t) = 0 \<longrightarrow> tx_referenceDeadline t = 0" by simp
  have "times_ok (kept_tx t)"
    using assms(1,4) kept_mono [of "tx_createdAt t" "tx_updatedAt t"]
    by (auto simp: tx_ok_def times_ok_def kept_tx_def)
  moreover have "wait_ok (kept_tx t)" using assms(1) deadline by (simp add: tx_ok_def wait_ok_def kept_tx_def)
  moreover have "origin_ok (kept_tx t) = origin_ok t" "amount_ok (kept_tx t) = amount_ok t"
    "settlement_ok (kept_tx t) = settlement_ok t" "reference_ok (kept_tx t) = reference_ok t"
    by (simp_all add: kept_tx_def origin_ok_def amount_ok_def settlement_ok_def reference_ok_def split: option.split)
  ultimately have "tx_ok (kept_tx t)" using assms(1) by (simp add: tx_ok_def) (simp add: kept_tx_def)
  with assms(2,3) show "tx_storable (kept_tx t)" by (simp add: tx_storable_def kept_tx_def)
qed

lemma kept_tx_sel [simp]:
  "tx_id (kept_tx t) = tx_id t" "tx_status (kept_tx t) = tx_status t"
  by (simp_all add: kept_tx_def)

text \<open>
  C39: storage admits nothing the domain would not have built, and it is known what it keeps.
  A wallet and a ledger entry are read back from a row exactly when the row is the one written
  for them and they are well formed, in a supported currency, at a version the signed column
  can hold and at whole microseconds. A transaction is read back unchanged, whatever its trace
  and schedule, exactly when it is well formed, in a supported currency, with a count of waits
  that fits its column and with its times and its deadline at whole microseconds. One of
  which only the times are finer, created at a microsecond after Go's zero time or later and
  waiting for none before that, comes back with each of them at the microsecond it had
  completed. Every transaction read from any row is well formed.
\<close>

theorem rows_roundtrip:
  "(row_wallet wr = Inr w \<longleftrightarrow> wallet_storable w \<and> wr = walletArgs w)
   \<and> (row_entry lr = Inr e \<longleftrightarrow> entry_storable e \<and> lr = ledgerArgs e)
   \<and> (row_stored (transactionArgs (snapshotOf t) correlation next)
          = Inr \<lparr>st_Transaction = t, st_Correlation = correlation\<rparr> \<longleftrightarrow> tx_storable t)
   \<and> (tx_ok t \<and> storable_money (tx_amount t) \<and> tx_referenceAttempts t < 2 ^ 31
        \<and> 0 < kept (tx_createdAt t) \<and> waits_ahead t \<longrightarrow>
        row_stored (transactionArgs (snapshotOf t) correlation next)
          = Inr \<lparr>st_Transaction = t\<lparr>tx_createdAt := kept (tx_createdAt t), tx_updatedAt := kept (tx_updatedAt t),
                   tx_referenceDeadline := kept (tx_referenceDeadline t)\<rparr>,
                 st_Correlation = correlation\<rparr>)
   \<and> (row_transaction r = Inr t \<longrightarrow> tx_storable t)"
proof (intro conjI impI)
  have stored: "row_stored (row_of t correlation next) = Inr \<lparr>st_Transaction = t', st_Correlation = correlation\<rparr>
      \<longleftrightarrow> row_transaction (row_of t correlation next) = Inr t'" for t'
    by (auto simp: row_stored_def) (simp_all add: transactionArgs_def Let_def)
  show "row_stored (row_of t correlation next) = Inr \<lparr>st_Transaction = t, st_Correlation = correlation\<rparr> \<longleftrightarrow> tx_storable t"
    unfolding stored using row_transaction_row_of row_transaction_storable by blast
  assume t: "tx_ok t \<and> storable_money (tx_amount t) \<and> tx_referenceAttempts t < 2 ^ 31
    \<and> 0 < kept (tx_createdAt t) \<and> waits_ahead t"
  note kept = kept_tx_storable [of t]
  have "row_transaction (row_of t correlation next) = Inr (kept_tx t)"
    using row_transaction_row_of [OF kept(1)] row_of_kept_tx [OF kept(2)] t by simp
  then show "row_stored (row_of t correlation next) = Inr \<lparr>st_Transaction = t\<lparr>tx_createdAt := kept (tx_createdAt t),
      tx_updatedAt := kept (tx_updatedAt t), tx_referenceDeadline := kept (tx_referenceDeadline t)\<rparr>,
      st_Correlation = correlation\<rparr>"
    unfolding stored by (simp add: kept_tx_def)
qed (simp_all add: row_wallet_Inr_iff row_entry_Inr_iff row_transaction_storable)

text \<open>A concrete waiting refund, for examples.\<close>

definition sample_waiting :: wager_transaction where
  "sample_waiting =
     parked \<lparr>MaxAttempts = 3, TTL = 60001\<rparr> 20000 (pending_transaction (sample_command Refund 500 ''ext-0'') 13 10000)"

theorem rows_roundtrip_witness:
  "row_stored (transactionArgs (snapshotOf sample_waiting) ''req-1'' 25000)
     = Inr \<lparr>st_Transaction = sample_waiting\<lparr>tx_referenceDeadline := 80000\<rparr>, st_Correlation = ''req-1''\<rparr>"
proof -
  have pending: "tx_ok (pending_transaction (sample_command Refund 500 ''ext-0'') 13 10000)"
    by (rule pending_transaction_ok) (simp_all add: sample_refund_ok)
  have ok: "tx_ok sample_waiting"
    unfolding sample_waiting_def by (rule parked_ok [OF pending]) (simp_all add: pending_transaction_def open_status_def)
  have fields: "tx_amount sample_waiting = brl 500" "tx_referenceAttempts sample_waiting = 1"
    "tx_createdAt sample_waiting = 10000" "tx_updatedAt sample_waiting = 20000"
    "tx_referenceDeadline sample_waiting = 80001"
    by (simp_all add: sample_waiting_def parked_def pending_transaction_def sample_command_def)
  have "storable_money (brl 500)" by (simp add: storable_money_def brl_def supportedCurrencies_def)
  moreover have times: "kept 10000 = 10000" "kept 20000 = 20000" "kept 80001 = 80000"
    by (simp_all add: kept_def micros_def instant_of_def)
  ultimately have "row_stored (transactionArgs (snapshotOf sample_waiting) ''req-1'' 25000)
      = Inr \<lparr>st_Transaction = sample_waiting\<lparr>tx_createdAt := 10000, tx_updatedAt := 20000,
          tx_referenceDeadline := 80000\<rparr>, st_Correlation = ''req-1''\<rparr>"
    using rows_roundtrip [of _ _ _ _ sample_waiting "''req-1''" 25000] ok
    by (simp add: fields waits_ahead_def)
  moreover have "sample_waiting\<lparr>tx_createdAt := 10000, tx_updatedAt := 20000, tx_referenceDeadline := 80000\<rparr>
      = sample_waiting\<lparr>tx_referenceDeadline := 80000\<rparr>"
    by (rule wager_transaction.equality) (simp_all add: fields)
  ultimately show ?thesis by simp
qed

end
