(* ===== verification/Envelope.thy ===== *)
theory Envelope
  imports AppErrors
begin

text \<open>
  The published form of a domain event (\<^verbatim>\<open>src/internal/app/envelope.go\<close>, payloads of
  \<^verbatim>\<open>events.go\<close>). A published payload is a datatype with the fields of the Go structs; an
  omitted external identifier is the empty string, as in the structs. The JSON rendering of an
  envelope belongs to the standard encoder and is not modelled. A nil event is \<open>None\<close>.
\<close>

type_synonym event_id = uuid

definition ParseEventID :: "(string \<Rightarrow> uuid option) \<Rightarrow> string \<Rightarrow> event_id eres" where
  "ParseEventID uuid_Parse s =
     (case uuid_Parse s of
        None \<Rightarrow> Inl (invalidField ''eventId'' InvalidFieldFormat)
      | Some i \<Rightarrow> Inr i)"

definition EventID_IsZero :: "event_id \<Rightarrow> bool" where
  "EventID_IsZero i \<longleftrightarrow> i = 0"

definition aggregateWallet :: string where
  "aggregateWallet = ''WALLET''"

record processed_payload =
  pp_transactionId :: string
  pp_walletId :: string
  pp_playerId :: string
  pp_kind :: string
  pp_money :: money
  pp_balanceAfter :: money
  pp_externalTransactionId :: string

record rejected_payload =
  rp_transactionId :: string
  rp_walletId :: string
  rp_playerId :: string
  rp_kind :: string
  rp_money :: money
  rp_failureCode :: string
  rp_externalTransactionId :: string

record balance_payload =
  bp_walletId :: string
  bp_transactionId :: string
  bp_direction :: string
  bp_money :: money
  bp_balanceBefore :: money
  bp_balanceAfter :: money
  bp_walletVersion :: uint64

record pending_payload =
  qp_transactionId :: string
  qp_walletId :: string
  qp_playerId :: string
  qp_kind :: string
  qp_referenceExternalTransactionId :: string
  qp_attempts :: int
  qp_externalTransactionId :: string

datatype payload =
    ProcessedPayload processed_payload
  | RejectedPayload rejected_payload
  | BalancePayload balance_payload
  | PendingPayload pending_payload

record envelope =
  en_EventID :: event_id
  en_EventType :: string
  en_EventVersion :: int
  en_AggregateType :: string
  en_AggregateID :: wallet_id
  en_CorrelationID :: string
  en_CausationID :: string
  en_OccurredAt :: instant
  en_Data :: payload

record trace =
  t_Correlation :: string
  t_Causation :: string

fun payloadFor :: "event \<Rightarrow> payload \<times> wallet_id" where
  "payloadFor (WagerTransactionProcessed ev) =
     (ProcessedPayload
        \<lparr>pp_transactionId = uuid_String (pe_transactionID ev), pp_walletId = uuid_String (pe_walletID ev),
         pp_playerId = pe_playerID ev, pp_kind = Kind_String (pe_kind ev), pp_money = pe_amount ev,
         pp_balanceAfter = pe_balanceAfter ev,
         pp_externalTransactionId = pe_externalTransactionID ev\<rparr>, pe_walletID ev)"
| "payloadFor (WagerTransactionRejected ev) =
     (RejectedPayload
        \<lparr>rp_transactionId = uuid_String (re_transactionID ev), rp_walletId = uuid_String (re_walletID ev),
         rp_playerId = re_playerID ev, rp_kind = Kind_String (re_kind ev), rp_money = re_amount ev,
         rp_failureCode = code_String (re_failureCode ev),
         rp_externalTransactionId = re_externalTransactionID ev\<rparr>, re_walletID ev)"
| "payloadFor (WalletBalanceChanged ev) =
     (BalancePayload
        \<lparr>bp_walletId = uuid_String (be_walletID ev), bp_transactionId = uuid_String (be_transactionID ev),
         bp_direction = Direction_String (be_direction ev), bp_money = be_amount ev,
         bp_balanceBefore = be_balanceBefore ev, bp_balanceAfter = be_balanceAfter ev,
         bp_walletVersion = be_walletVersion ev\<rparr>, be_walletID ev)"
| "payloadFor (WagerTransactionPendingReference ev) =
     (PendingPayload
        \<lparr>qp_transactionId = uuid_String (qe_transactionID ev), qp_walletId = uuid_String (qe_walletID ev),
         qp_playerId = qe_playerID ev, qp_kind = Kind_String (qe_kind ev),
         qp_referenceExternalTransactionId = qe_referenceExternalID ev, qp_attempts = qe_attempts ev,
         qp_externalTransactionId = qe_externalTransactionID ev\<rparr>, qe_walletID ev)"

definition NewEnvelope :: "event option \<Rightarrow> event_id \<Rightarrow> trace \<Rightarrow> instant \<Rightarrow> envelope eres" where
  "NewEnvelope e i trace at =
     (case e of
        None \<Rightarrow> Inl defect
      | Some ev \<Rightarrow>
          if EventID_IsZero i then Inl defect
          else if t_Correlation trace = [] then Inl defect
          else (let (data, aggregate) = payloadFor ev
                in Inr \<lparr>en_EventID = i, en_EventType = EventType ev, en_EventVersion = EventVersion ev,
                        en_AggregateType = aggregateWallet, en_AggregateID = aggregate,
                        en_CorrelationID = t_Correlation trace, en_CausationID = t_Causation trace,
                        en_OccurredAt = at, en_Data = data\<rparr>))"

section \<open>Facts\<close>

text \<open>The envelope of an event, when there is nothing to refuse.\<close>

definition envelope_of :: "event \<Rightarrow> event_id \<Rightarrow> trace \<Rightarrow> instant \<Rightarrow> envelope" where
  "envelope_of ev i trace at =
     \<lparr>en_EventID = i, en_EventType = EventType ev, en_EventVersion = EventVersion ev,
      en_AggregateType = aggregateWallet, en_AggregateID = snd (payloadFor ev),
      en_CorrelationID = t_Correlation trace, en_CausationID = t_Causation trace,
      en_OccurredAt = at, en_Data = fst (payloadFor ev)\<rparr>"

lemma NewEnvelope_eq:
  "NewEnvelope (Some ev) i trace at =
     (if i = 0 \<or> t_Correlation trace = [] then Inl defect else Inr (envelope_of ev i trace at))"
  by (simp add: NewEnvelope_def EventID_IsZero_def envelope_of_def case_prod_beta Let_def)

lemma NewEnvelope_Inl: "NewEnvelope e i trace at = Inl err \<Longrightarrow> err = defect"
  by (cases e) (auto simp: NewEnvelope_def split: if_splits prod.splits)

lemma envelope_of_sel [simp]:
  "en_EventID (envelope_of ev i trace at) = i"
  "en_EventType (envelope_of ev i trace at) = EventType ev"
  "en_AggregateID (envelope_of ev i trace at) = snd (payloadFor ev)"
  "en_CorrelationID (envelope_of ev i trace at) = t_Correlation trace"
  "en_CausationID (envelope_of ev i trace at) = t_Causation trace"
  "en_OccurredAt (envelope_of ev i trace at) = at"
  by (simp_all add: envelope_of_def)

end
