(* ===== verification/Reference.thy ===== *)
theory Reference
  imports Wallet
begin

text \<open>
  The rules about the transaction an operation points at
  (\<^verbatim>\<open>src/internal/domain/wagering/reference.go\<close>). A nil view is \<open>None\<close>, and so is a nil
  transaction inside a view. The loops over the reversals of a view are recursions over the
  list, branch by branch.
\<close>

record reversal_view =
  rv_Transaction :: "wager_transaction option"
  rv_Reversed :: bool

record reference_view =
  rf_Transaction :: "wager_transaction option"
  rf_Reversals :: "reversal_view list"

definition Found :: "reference_view option \<Rightarrow> bool" where
  "Found v = (case v of None \<Rightarrow> False | Some r \<Rightarrow> rf_Transaction r \<noteq> None)"

fun active_reversal_loop :: "reversal_view list \<Rightarrow> wager_transaction option" where
  "active_reversal_loop [] = None"
| "active_reversal_loop (r # rs) =
     (case rv_Transaction r of
        None \<Rightarrow> active_reversal_loop rs
      | Some t \<Rightarrow>
          if \<not> IsReversal (tx_kind t) then active_reversal_loop rs
          else if tx_status t \<noteq> Processed then active_reversal_loop rs
          else if rv_Reversed r then active_reversal_loop rs
          else Some t)"

definition ActiveReversal :: "reference_view option \<Rightarrow> wager_transaction option" where
  "ActiveReversal v = (case v of None \<Rightarrow> None | Some r \<Rightarrow> active_reversal_loop (rf_Reversals r))"

fun successful_kind_loop :: "kind \<Rightarrow> reversal_view list \<Rightarrow> bool" where
  "successful_kind_loop k [] = False"
| "successful_kind_loop k (r # rs) =
     (case rv_Transaction r of
        None \<Rightarrow> successful_kind_loop k rs
      | Some t \<Rightarrow>
          if tx_kind t \<noteq> k then successful_kind_loop k rs
          else if tx_status t = Processed then True
          else successful_kind_loop k rs)"

definition HasSuccessfulReversalOfKind :: "reference_view option \<Rightarrow> kind \<Rightarrow> bool" where
  "HasSuccessfulReversalOfKind v k =
     (case v of
        None \<Rightarrow> False
      | Some r \<Rightarrow> if \<not> IsReversal k then False else successful_kind_loop k (rf_Reversals r))"

datatype reference_outcome = referenceApply | referenceWait | referenceReject

definition referenceAgrees :: "command \<Rightarrow> wallet \<Rightarrow> wager_transaction \<Rightarrow> bool" where
  "referenceAgrees cmd w target =
     (if tx_walletID target \<noteq> w_id w \<or> tx_playerID target \<noteq> c_PlayerID cmd then False
      else if Tx_Currency target \<noteq> m_currency (c_Money cmd) then False
      else if Tx_Provider target \<noteq> Some (c_Provider cmd) then False
      else if Tx_RoundID target \<noteq> Some (c_RoundID cmd) then False
      else True)"

definition reversalDirection :: "kind \<Rightarrow> direction option" where
  "reversalDirection target =
     (case Kind_Direction target of None \<Rightarrow> None | Some forward \<Rightarrow> Opposite forward)"

definition evaluate_target ::
  "command \<Rightarrow> wallet \<Rightarrow> reference_view \<Rightarrow> wager_transaction \<Rightarrow> reference_outcome \<times> code" where
  "evaluate_target cmd w ref target =
     (if \<not> referenceAgrees cmd w target then (referenceReject, ReferenceMismatch)
      else if IsReversal (c_Kind cmd) then
        (if \<not> CanReverse (c_Kind cmd) (tx_kind target) then (referenceReject, ReferenceNotReversible)
         else if \<not> Money_Equal (c_Money cmd) (tx_amount target)
         then (referenceReject, ReversalAmountMismatch)
         else if HasSuccessfulReversalOfKind (Some ref) (c_Kind cmd)
         then (referenceReject, ReferenceAlreadyReversed)
         else if ActiveReversal (Some ref) \<noteq> None then (referenceReject, ReferenceAlreadyReversed)
         else (referenceApply, no_code))
      else if tx_kind target \<noteq> Bet then (referenceReject, ReferenceMismatch)
      else (referenceApply, no_code))"

definition evaluateReference ::
  "command \<Rightarrow> wallet \<Rightarrow> reference_view option \<Rightarrow> reference_outcome \<times> code" where
  "evaluateReference cmd w ref =
     (if \<not> namesReference cmd then (referenceApply, no_code)
      else case ref of
             None \<Rightarrow> (referenceWait, no_code)
           | Some v \<Rightarrow>
               (case rf_Transaction v of
                  None \<Rightarrow> (referenceWait, no_code)
                | Some target \<Rightarrow>
                    (case tx_status target of
                       Processed \<Rightarrow> evaluate_target cmd w v target
                     | Pending \<Rightarrow> (referenceWait, no_code)
                     | PendingReference \<Rightarrow> (referenceWait, no_code)
                     | _ \<Rightarrow> (referenceReject, ReferenceNotProcessed))))"

section \<open>What the loops compute\<close>

definition effective_reversal :: "reversal_view \<Rightarrow> wager_transaction \<Rightarrow> bool" where
  "effective_reversal r t \<longleftrightarrow>
     rv_Transaction r = Some t \<and> IsReversal (tx_kind t) \<and> tx_status t = Processed"

lemma ActiveReversal_None_iff:
  "ActiveReversal (Some v) = None \<longleftrightarrow>
   (\<forall>r \<in> set (rf_Reversals v). \<forall>t. effective_reversal r t \<longrightarrow> rv_Reversed r)"
proof -
  have "active_reversal_loop rs = None \<longleftrightarrow>
      (\<forall>r \<in> set rs. \<forall>t. effective_reversal r t \<longrightarrow> rv_Reversed r)" for rs
    by (induction rs) (auto simp: effective_reversal_def split: option.splits)
  then show ?thesis by (simp add: ActiveReversal_def)
qed

lemma HasSuccessfulReversalOfKind_iff:
  assumes "IsReversal k"
  shows "HasSuccessfulReversalOfKind (Some v) k \<longleftrightarrow>
    (\<exists>r \<in> set (rf_Reversals v). \<exists>t. effective_reversal r t \<and> tx_kind t = k)"
proof -
  have "successful_kind_loop k rs \<longleftrightarrow> (\<exists>r \<in> set rs. \<exists>t. effective_reversal r t \<and> tx_kind t = k)" for rs
    using assms by (induction rs) (auto simp: effective_reversal_def split: option.splits)
  with assms show ?thesis by (simp add: HasSuccessfulReversalOfKind_def)
qed

lemma reversalDirection_CanReverse:
  "CanReverse k target \<Longrightarrow> \<exists>d. reversalDirection target = Some d \<and> Direction_Known d"
  by (cases k; cases target) (auto simp: reversalDirection_def Direction_Known_def)

lemma Kind_Direction_Known: "Kind_Direction k = Some d \<Longrightarrow> Direction_Known d"
  by (cases k) (auto simp: Direction_Known_def)

lemma evaluate_target_code:
  "evaluate_target cmd w v t = (referenceReject, c) \<Longrightarrow> settling_code c"
  by (auto simp: evaluate_target_def settling_code_iff split: if_splits)

lemma evaluateReference_code:
  "evaluateReference cmd w ref = (referenceReject, c) \<Longrightarrow> settling_code c"
  by (auto simp: evaluateReference_def settling_code_iff dest: evaluate_target_code
      split: if_splits option.splits status.splits)

text \<open>When a reference lets an operation proceed.\<close>

definition applicable :: "command \<Rightarrow> wallet \<Rightarrow> reference_view \<Rightarrow> wager_transaction \<Rightarrow> bool" where
  "applicable cmd w v target \<longleftrightarrow>
     rf_Transaction v = Some target \<and> tx_status target = Processed \<and> referenceAgrees cmd w target
     \<and> (if IsReversal (c_Kind cmd)
        then CanReverse (c_Kind cmd) (tx_kind target) \<and> Money_Equal (c_Money cmd) (tx_amount target)
             \<and> (\<forall>r \<in> set (rf_Reversals v). \<forall>t. effective_reversal r t \<longrightarrow>
                  tx_kind t \<noteq> c_Kind cmd \<and> rv_Reversed r)
        else tx_kind target = Bet)"

lemma evaluate_target_apply_iff:
  "(\<exists>c. evaluate_target cmd w v target = (referenceApply, c)) \<longleftrightarrow>
     referenceAgrees cmd w target
     \<and> (if IsReversal (c_Kind cmd)
        then CanReverse (c_Kind cmd) (tx_kind target) \<and> Money_Equal (c_Money cmd) (tx_amount target)
             \<and> \<not> HasSuccessfulReversalOfKind (Some v) (c_Kind cmd) \<and> ActiveReversal (Some v) = None
        else tx_kind target = Bet)"
  by (auto simp: evaluate_target_def)

lemma evaluateReference_apply_iff:
  assumes "namesReference cmd"
  shows "(\<exists>c. evaluateReference cmd w ref = (referenceApply, c)) \<longleftrightarrow>
    (\<exists>v target. ref = Some v \<and> applicable cmd w v target)"
proof (cases "\<exists>v target. ref = Some v \<and> rf_Transaction v = Some target \<and> tx_status target = Processed")
  case True
  then obtain v target where *: "ref = Some v" "rf_Transaction v = Some target" "tx_status target = Processed"
    by blast
  have "evaluateReference cmd w ref = evaluate_target cmd w v target"
    using assms * by (simp add: evaluateReference_def)
  moreover have "(\<not> HasSuccessfulReversalOfKind (Some v) (c_Kind cmd) \<and> ActiveReversal (Some v) = None)
     \<longleftrightarrow> (\<forall>r \<in> set (rf_Reversals v). \<forall>t. effective_reversal r t \<longrightarrow>
            tx_kind t \<noteq> c_Kind cmd \<and> rv_Reversed r)" if "IsReversal (c_Kind cmd)"
    unfolding ActiveReversal_None_iff HasSuccessfulReversalOfKind_iff [OF that] by blast
  ultimately show ?thesis
    using * by (auto simp: evaluate_target_apply_iff applicable_def)
next
  case False
  then show ?thesis
    using assms
    by (auto simp: evaluateReference_def applicable_def split: option.splits status.splits)
qed

end
