(* ===== verification/Processor.thy ===== *)
theory Processor
  imports Reference
begin

text \<open>
  The processor (\<^verbatim>\<open>src/internal/domain/wagering/processor.go\<close>): submitting a new operation,
  carrying an unsettled one forward, and the steps both share.

  The source mutates the transaction and the wallet it is handed. The steps below return the
  transaction and the wallet as they stand when the step returns, together with the error or
  the outcome, so what an error path leaves behind is part of the model.
\<close>

section \<open>Operations\<close>

record processor =
  p_policy :: reference_policy

definition NewProcessor :: "reference_policy \<Rightarrow> processor res" where
  "NewProcessor policy = bindE (policy_validate policy) (\<lambda>_. Inr \<lparr>p_policy = policy\<rparr>)"

definition usable :: "processor \<Rightarrow> unit res" where
  "usable p =
     (case policy_validate (p_policy p) of
        Inl err \<Rightarrow> Inl (Wrap err UninitializedValue)
      | Inr _ \<Rightarrow> Inr ())"

definition WalletBelongsToPlayer :: "command \<Rightarrow> wallet \<Rightarrow> unit res" where
  "WalletBelongsToPlayer cmd w =
     (if w_playerID w \<noteq> c_PlayerID cmd then Inl (WithField (New InvalidFieldFormat) ''walletId'')
      else Inr ())"

definition movementRejection :: "command \<Rightarrow> fail \<Rightarrow> code option" where
  "movementRejection cmd err =
     (if failure_Is err InsufficientFunds then
        (if IsReversal (c_Kind cmd) then Some ReversalInsufficientFunds else Some InsufficientFunds)
      else if failure_Is err AmountOutOfRange then Some BalanceOutOfRange
      else None)"

text \<open>The direction, or \<open>None\<close> when the operation moves no money.\<close>

definition movement :: "command \<Rightarrow> reference_view option \<Rightarrow> direction option res" where
  "movement cmd ref =
     (if \<not> MovesMoney (c_Kind cmd) then Inr None
      else if c_Kind cmd = Rollback then
        (case ref of
           None \<Rightarrow> Inl (New ReferenceRequired)
         | Some v \<Rightarrow>
             (case rf_Transaction v of
                None \<Rightarrow> Inl (New ReferenceRequired)
              | Some target \<Rightarrow>
                  (case reversalDirection (tx_kind target) of
                     None \<Rightarrow> Inl (New ReferenceNotReversible)
                   | Some d \<Rightarrow> Inr (Some d))))
      else (case Kind_Direction (c_Kind cmd) of
              None \<Rightarrow> Inl (WithField (New InvalidFieldFormat) ''kind'')
            | Some d \<Rightarrow> Inr (Some d)))"

definition reject :: "wager_transaction \<Rightarrow> code \<Rightarrow> instant \<Rightarrow> wager_transaction \<times> outcome res" where
  "reject tx c now =
     (case Tx_Reject c now tx of
        Inl err \<Rightarrow> (tx, Inl err)
      | Inr tx \<Rightarrow>
          (tx, bindE (NewWagerTransactionRejected (Some tx)) (\<lambda>rejected.
             Inr \<lparr>o_Transaction = Some tx, o_LedgerEntry = None, o_Events = [rejected]\<rparr>)))"

definition wait :: "processor \<Rightarrow> wager_transaction \<Rightarrow> instant \<Rightarrow> wager_transaction \<times> outcome res" where
  "wait p tx now =
     (case ReferenceBudgetExhausted (p_policy p) now tx of
        Inl err \<Rightarrow> (tx, Inl err)
      | Inr spent \<Rightarrow>
          if spent then reject tx ReferenceNotFound now
          else (case MarkPendingReference (p_policy p) now tx of
                  Inl err \<Rightarrow> (tx, Inl err)
                | Inr tx \<Rightarrow>
                    (tx, bindE (NewWagerTransactionPendingReference (Some tx)) (\<lambda>pending.
                       Inr \<lparr>o_Transaction = Some tx, o_LedgerEntry = None, o_Events = [pending]\<rparr>))))"

text \<open>The settling tail of \<^verbatim>\<open>apply\<close>, after money has moved or has not had to.\<close>

definition settle ::
  "wager_transaction \<Rightarrow> wallet \<Rightarrow> ledger_entry option \<Rightarrow> instant \<Rightarrow> wager_transaction \<times> outcome res" where
  "settle tx w moved now =
     (case MarkProcessed (w_balance w) now tx of
        Inl err \<Rightarrow> (tx, Inl err)
      | Inr tx \<Rightarrow>
          (tx, bindE (NewWagerTransactionProcessed (Some tx)) (\<lambda>processed.
             case moved of
               None \<Rightarrow>
                 Inr \<lparr>o_Transaction = Some tx, o_LedgerEntry = None, o_Events = [processed]\<rparr>
             | Some entry \<Rightarrow>
                 bindE (NewWalletBalanceChanged entry) (\<lambda>changed.
                   Inr \<lparr>o_Transaction = Some tx, o_LedgerEntry = Some entry,
                        o_Events = [processed, changed]\<rparr>))))"

definition resolve_named ::
  "command \<Rightarrow> reference_view option \<Rightarrow> wager_transaction \<Rightarrow> wager_transaction res" where
  "resolve_named cmd ref tx =
     (if \<not> namesReference cmd then Inr tx
      else case ref of
             None \<Rightarrow> Inr tx
           | Some v \<Rightarrow>
               (case rf_Transaction v of
                  None \<Rightarrow> Inr tx
                | Some target \<Rightarrow> ResolveReference (tx_id target) tx))"

definition movement_of_command :: "command \<Rightarrow> instant \<Rightarrow> movement_input" where
  "movement_of_command cmd now =
     \<lparr>mv_EntryID = c_LedgerEntryID cmd, mv_TransactionID = c_TransactionID cmd,
      mv_Amount = c_Money cmd, mv_At = now\<rparr>"

text \<open>
  The part of \<^verbatim>\<open>apply\<close> after the reference rules let the operation through: resolve the
  reference, move the money, settle.
\<close>

definition apply_movement ::
  "wager_transaction \<Rightarrow> command \<Rightarrow> wallet \<Rightarrow> reference_view option \<Rightarrow> instant
     \<Rightarrow> wager_transaction \<times> wallet \<times> outcome res" where
  "apply_movement tx cmd w ref now =
     (case resolve_named cmd ref tx of
        Inl err \<Rightarrow> (tx, w, Inl err)
      | Inr tx \<Rightarrow>
          (case movement cmd ref of
             Inl err \<Rightarrow> (tx, w, Inl err)
           | Inr None \<Rightarrow> (let r = settle tx w None now in (fst r, w, snd r))
           | Inr (Some d) \<Rightarrow>
               (case Wallet_move d (movement_of_command cmd now) w of
                  Inl err \<Rightarrow>
                    (case movementRejection cmd err of
                       Some c \<Rightarrow> (let r = reject tx c now in (fst r, w, snd r))
                     | None \<Rightarrow> (tx, w, Inl err))
                | Inr ew \<Rightarrow>
                    (let r = settle tx (snd ew) (Some (fst ew)) now in (fst r, snd ew, snd r)))))"

definition p_apply ::
  "processor \<Rightarrow> wager_transaction \<Rightarrow> command \<Rightarrow> wallet \<Rightarrow> reference_view option \<Rightarrow> instant
     \<Rightarrow> wager_transaction \<times> wallet \<times> outcome res" where
  "p_apply p tx cmd w ref now =
     (if m_currency (c_Money cmd) \<noteq> Wallet_Currency w
      then (let r = reject tx CurrencyMismatch now in (fst r, w, snd r))
      else (case evaluateReference cmd w ref of
              (referenceReject, c) \<Rightarrow> (let r = reject tx c now in (fst r, w, snd r))
            | (referenceWait, c) \<Rightarrow> (let r = wait p tx now in (fst r, w, snd r))
            | (referenceApply, c) \<Rightarrow> apply_movement tx cmd w ref now))"

definition Submit ::
  "processor \<Rightarrow> command \<Rightarrow> wallet option \<Rightarrow> reference_view option \<Rightarrow> instant
     \<Rightarrow> wallet option \<times> outcome res" where
  "Submit p cmd wallet ref now =
     (case usable p of
        Inl err \<Rightarrow> (wallet, Inl err)
      | Inr _ \<Rightarrow>
          (case wallet of
             None \<Rightarrow> (None, Inl (WithField (New UninitializedValue) ''wallet''))
           | Some w \<Rightarrow>
               (case bindE (WalletBelongsToPlayer cmd w) (\<lambda>_. NewExternalTransaction cmd (w_id w) now) of
                  Inl err \<Rightarrow> (Some w, Inl err)
                | Inr tx \<Rightarrow>
                    (let r = p_apply p tx cmd w ref now in (Some (fst (snd r)), snd (snd r))))))"

definition assertContinuable ::
  "processor \<Rightarrow> wager_transaction option \<Rightarrow> command \<Rightarrow> wallet option \<Rightarrow> unit res" where
  "assertContinuable p tx cmd wallet =
     bindE (usable p) (\<lambda>_.
       case wallet of
         None \<Rightarrow> Inl (WithField (New UninitializedValue) ''wallet'')
       | Some w \<Rightarrow>
           (case tx of
              None \<Rightarrow> Inl (WithField (New UninitializedValue) ''transaction'')
            | Some t \<Rightarrow>
                if IsTerminal (tx_status t) then Inl (New InvalidStateTransition)
                else if tx_status t \<noteq> Pending \<and> tx_status t \<noteq> PendingReference
                then Inl (New InvalidStateTransition)
                else if tx_id t \<noteq> c_TransactionID cmd
                then Inl (WithField (New ReferenceMismatch) ''transactionId'')
                else if tx_walletID t \<noteq> w_id w
                then Inl (WithField (New ReferenceMismatch) ''walletId'')
                else bindE (WalletBelongsToPlayer cmd w) (\<lambda>_.
                     bindE (PayloadHash cmd) (\<lambda>hash. AssertSamePayload hash t))))"

definition Continue ::
  "processor \<Rightarrow> wager_transaction option \<Rightarrow> command \<Rightarrow> wallet option \<Rightarrow> reference_view option \<Rightarrow> instant
     \<Rightarrow> wager_transaction option \<times> wallet option \<times> outcome res" where
  "Continue p tx cmd wallet ref now =
     (case assertContinuable p tx cmd wallet of
        Inl err \<Rightarrow> (tx, wallet, Inl err)
      | Inr _ \<Rightarrow>
          (case (tx, wallet) of
             (Some t, Some w) \<Rightarrow>
               (let r = p_apply p t cmd w ref now
                in (Some (fst r), Some (fst (snd r)), snd (snd r)))
           | _ \<Rightarrow> (tx, wallet, Inl (New UninitializedValue))))"

section \<open>The abstract verdict\<close>

text \<open>
  What should become of a valid operation, without any of the machinery: a verdict computed
  on integers. A reference that is missing or unsettled waits while the budget lasts; one
  that settles the operation against it refuses it; otherwise the balance decides.
\<close>

datatype verdict = Refused code | Parked | Completed "direction option"

definition operation_direction :: "command \<Rightarrow> reference_view option \<Rightarrow> direction option" where
  "operation_direction cmd ref =
     (if c_Kind cmd = Rollback
      then Option.bind ref (\<lambda>v. Option.bind (rf_Transaction v) (\<lambda>t. reversalDirection (tx_kind t)))
      else Kind_Direction (c_Kind cmd))"

definition movement_verdict :: "command \<Rightarrow> wallet \<Rightarrow> direction option \<Rightarrow> verdict" where
  "movement_verdict cmd w dir =
     (case dir of
        None \<Rightarrow> Completed None
      | Some d \<Rightarrow>
          let n = wallet_units w + signed_by d (sint (m_units (c_Money cmd)))
          in if sint MaxInt64 < n then Refused BalanceOutOfRange
             else if n < 0
             then Refused (if IsReversal (c_Kind cmd) then ReversalInsufficientFunds else InsufficientFunds)
             else Completed (Some d))"

definition verdict_of ::
  "reference_policy \<Rightarrow> wager_transaction \<Rightarrow> command \<Rightarrow> wallet \<Rightarrow> reference_view option \<Rightarrow> instant
     \<Rightarrow> verdict" where
  "verdict_of policy tx cmd w ref now =
     (if m_currency (c_Money cmd) \<noteq> Wallet_Currency w then Refused CurrencyMismatch
      else (case evaluateReference cmd w ref of
              (referenceReject, c) \<Rightarrow> Refused c
            | (referenceWait, c) \<Rightarrow>
                if budget_spent policy now tx then Refused ReferenceNotFound else Parked
            | (referenceApply, c) \<Rightarrow> movement_verdict cmd w (operation_direction cmd ref)))"

text \<open>What it means for a transaction, a wallet and an outcome to carry a verdict out.\<close>

definition verdict_effect ::
  "verdict \<Rightarrow> wager_transaction \<Rightarrow> command \<Rightarrow> wallet \<Rightarrow> instant
     \<Rightarrow> wager_transaction \<Rightarrow> wallet \<Rightarrow> outcome \<Rightarrow> bool" where
  "verdict_effect v tx cmd w now tx' w' out =
     (case v of
        Refused c \<Rightarrow>
          tx_status tx' = Rejected \<and> tx_failureCode tx' = c \<and> w' = w \<and> o_LedgerEntry out = None
          \<and> map EventType (o_Events out) = [''WagerTransactionRejected'']
      | Parked \<Rightarrow>
          tx_status tx' = PendingReference
          \<and> tx_referenceAttempts tx' = tx_referenceAttempts tx + 1
          \<and> w' = w \<and> o_LedgerEntry out = None
          \<and> map EventType (o_Events out) = [''WagerTransactionPendingReference'']
      | Completed None \<Rightarrow>
          tx_status tx' = Processed \<and> tx_result tx' = w_balance w' \<and> w' = w
          \<and> o_LedgerEntry out = None
          \<and> map EventType (o_Events out) = [''WagerTransactionProcessed'']
      | Completed (Some d) \<Rightarrow>
          tx_status tx' = Processed \<and> tx_result tx' = w_balance w'
          \<and> (\<exists>e. Wallet_move d (movement_of_command cmd now) w = Inr (e, w')
               \<and> o_LedgerEntry out = Some e)
          \<and> map EventType (o_Events out) = [''WagerTransactionProcessed'', ''WalletBalanceChanged''])"

definition carried_out ::
  "reference_policy \<Rightarrow> verdict \<Rightarrow> wager_transaction \<Rightarrow> command \<Rightarrow> wallet \<Rightarrow> instant
     \<Rightarrow> wager_transaction \<Rightarrow> wallet \<Rightarrow> outcome \<Rightarrow> bool" where
  "carried_out pol v tx cmd w now tx' w' out \<longleftrightarrow>
     verdict_effect v tx cmd w now tx' w' out
     \<and> o_Transaction out = Some tx' \<and> tx_identity tx' = tx_identity tx
     \<and> tx_updatedAt tx' = now
     \<and> (tx_updatedAt tx \<le> now \<longrightarrow> (clocked pol)\<^sup>*\<^sup>* tx tx')
     \<and> list_all (event_describes tx' (o_LedgerEntry out)) (o_Events out)"

section \<open>Each step carries its verdict out\<close>

lemma reject_carries:
  assumes "open_status (tx_status tx)" "settling_code c" "now \<noteq> 0"
  shows "\<exists>tx' out. reject tx c now = (tx', Inr out) \<and> carried_out pol (Refused c) tx cmd w now tx' w out"
proof -
  define tx' where "tx' = tx\<lparr>tx_status := Rejected, tx_updatedAt := now, tx_failureCode := c\<rparr>"
  have rej: "Tx_Reject c now tx = Inr tx'"
    using assms by (simp add: Tx_Reject_Inr_iff tx'_def)
  have "c \<noteq> no_code" using assms(2) by (auto simp: settling_code_iff)
  then have "\<exists>ev. NewWagerTransactionRejected (Some tx') = Inr ev"
    by (simp add: rejected_event_exists tx'_def Tx_FailureCode_def)
  then obtain ev where ev: "NewWagerTransactionRejected (Some tx') = Inr ev" by blast
  have "(clocked pol)\<^sup>*\<^sup>* tx tx'" if "tx_updatedAt tx \<le> now"
    using clocked_rejected [OF rej that] by blast
  with ev rejected_event_Inr [OF ev] show ?thesis
    by (simp add: reject_def rej carried_out_def verdict_effect_def)
      (simp add: tx'_def tx_identity_def)
qed

lemma wait_carries:
  assumes "open_status (tx_status tx)" "now \<noteq> 0" "1 \<le> MaxAttempts (p_policy p)" "0 < TTL (p_policy p)"
    "Tx_ReferenceExternalTransactionID tx \<noteq> None"
  shows "\<exists>tx' out. wait p tx now = (tx', Inr out)
    \<and> carried_out (p_policy p)
        (if budget_spent (p_policy p) now tx then Refused ReferenceNotFound else Parked)
        tx cmd w now tx' w out"
proof (cases "budget_spent (p_policy p) now tx")
  case True
  moreover have "settling_code ReferenceNotFound" by (simp add: settling_code_iff)
  ultimately show ?thesis
    using assms reject_carries [of tx ReferenceNotFound now "p_policy p" cmd w]
    by (simp add: wait_def ReferenceBudgetExhausted_eq)
next
  case False
  define tx' where "tx' = parked (p_policy p) now tx"
  have mark: "MarkPendingReference (p_policy p) now tx = Inr tx'"
    using assms False by (simp add: MarkPendingReference_Inr_iff tx'_def)
  have "\<exists>ev. NewWagerTransactionPendingReference (Some tx') = Inr ev"
    using assms(5) by (simp add: pending_event_exists tx'_def parked_def
        Tx_ReferenceExternalTransactionID_def)
  then obtain ev where ev: "NewWagerTransactionPendingReference (Some tx') = Inr ev" by blast
  have "(clocked (p_policy p))\<^sup>*\<^sup>* tx tx'" if "tx_updatedAt tx \<le> now"
    using clocked_parked [OF mark that] by blast
  with ev pending_event_Inr [OF ev] False assms(3,4) show ?thesis
    by (simp add: wait_def ReferenceBudgetExhausted_eq mark carried_out_def verdict_effect_def)
      (simp add: tx'_def tx_identity_def parked_def)
qed

lemma settle_processed:
  assumes "open_status (tx_status tx)" "now \<noteq> 0" "cur_code (Wallet_Currency w) \<noteq> []"
    "Wallet_Currency w = Tx_Currency tx" "0 \<le> wallet_units w"
    "\<And>e. moved = Some e \<Longrightarrow> le_id e \<noteq> 0"
  shows "\<exists>tx' out. settle tx w moved now = (tx', Inr out)
    \<and> tx_status tx' = Processed \<and> tx_result tx' = w_balance w
    \<and> o_Transaction out = Some tx' \<and> o_LedgerEntry out = moved
    \<and> (tx_updatedAt tx \<le> now \<longrightarrow> (clocked pol)\<^sup>*\<^sup>* tx tx')
    \<and> tx_identity tx' = tx_identity tx \<and> tx_updatedAt tx' = now
    \<and> map EventType (o_Events out) =
        ''WagerTransactionProcessed'' # (if moved = None then [] else [''WalletBalanceChanged''])
    \<and> list_all (event_describes tx' moved) (o_Events out)"
proof -
  define tx' where "tx' = tx\<lparr>tx_status := Processed, tx_updatedAt := now, tx_result := w_balance w\<rparr>"
  have mark: "MarkProcessed (w_balance w) now tx = Inr tx'"
    using assms by (simp add: MarkProcessed_Inr_iff tx'_def Wallet_Currency_def wallet_units_def)
  have "\<exists>ev. NewWagerTransactionProcessed (Some tx') = Inr ev"
    using assms by (simp add: processed_event_exists tx'_def Tx_Result_def money_predicates
        Wallet_Currency_def)
  then obtain ev where ev: "NewWagerTransactionProcessed (Some tx') = Inr ev" by blast
  have basics: "tx_status tx' = Processed" "tx_result tx' = w_balance w" "tx_updatedAt tx' = now"
    "tx_identity tx' = tx_identity tx"
    by (simp_all add: tx'_def tx_identity_def)
  have steps: "(clocked pol)\<^sup>*\<^sup>* tx tx'" if "tx_updatedAt tx \<le> now"
    using clocked_processed [OF mark that] by blast
  show ?thesis
  proof (cases moved)
    case None
    with steps basics processed_event_Inr [OF ev] show ?thesis by (simp add: settle_def mark ev)
  next
    case (Some e)
    with assms(6) have "le_id e \<noteq> 0" by blast
    then obtain ch where ch: "NewWalletBalanceChanged e = Inr ch"
      using balance_event_exists [of e] by blast
    with steps Some basics processed_event_Inr [OF ev] balance_event_Inr [OF ch] show ?thesis
      by (simp add: settle_def mark ev)
  qed
qed

section \<open>The processor carries out the verdict\<close>

text \<open>
  An operation that is ready to be applied: a valid command, a well formed wallet, and an
  unsettled transaction that describes the command, whose reference has not been resolved to
  anything but the transaction the view carries.
\<close>

definition ready ::
  "wager_transaction \<Rightarrow> command \<Rightarrow> wallet \<Rightarrow> reference_view option \<Rightarrow> bool" where
  "ready tx cmd w ref \<longleftrightarrow>
     command_ok cmd \<and> wallet_ok w \<and> open_status (tx_status tx) \<and> tx_amount tx = c_Money cmd
     \<and> (\<exists>x. tx_external tx = Some x
          \<and> x_referenceExternalID x = c_ReferenceExternalTransactionID cmd
          \<and> (\<forall>v t. ref = Some v \<longrightarrow> rf_Transaction v = Some t \<longrightarrow>
               tx_id t \<noteq> 0 \<and> (x_resolvedReferenceID x = 0 \<or> x_resolvedReferenceID x = tx_id t)))"

lemma resolve_named_ready:
  assumes "ready tx cmd w ref"
  shows "\<exists>tx'. resolve_named cmd ref tx = Inr tx' \<and> open_status (tx_status tx')
    \<and> tx_amount tx' = tx_amount tx \<and> tx_identity tx' = tx_identity tx
    \<and> tx_updatedAt tx' = tx_updatedAt tx \<and> (clocked policy)\<^sup>*\<^sup>* tx tx'"
proof -
  from assms obtain x where x: "tx_external tx = Some x"
    "x_referenceExternalID x = c_ReferenceExternalTransactionID cmd"
    and op: "open_status (tx_status tx)" by (auto simp: ready_def)
  show ?thesis
  proof (cases "\<exists>v t. namesReference cmd \<and> ref = Some v \<and> rf_Transaction v = Some t")
    case True
    then obtain v t where vt: "namesReference cmd" "ref = Some v" "rf_Transaction v = Some t" by blast
    define tx' where "tx' = tx\<lparr>tx_external := Some (x\<lparr>x_resolvedReferenceID := tx_id t\<rparr>)\<rparr>"
    have "ResolveReference (tx_id t) tx = Inr tx'"
      using assms vt x op
      by (auto simp: ResolveReference_Inr_iff ready_def namesReference_def open_status_def
          IsTerminal_def tx'_def)
    moreover from this have "clocked policy tx tx'" by (rule clocked_resolved)
    ultimately show ?thesis
      using vt op x by (auto simp: resolve_named_def tx'_def tx_identity_def)
  next
    case False
    then show ?thesis using op by (auto simp: resolve_named_def split: option.splits)
  qed
qed

lemma movement_ready:
  assumes "command_ok cmd" "evaluateReference cmd w ref = (referenceApply, c)"
  shows "movement cmd ref = Inr (operation_direction cmd ref)
    \<and> (\<forall>d. operation_direction cmd ref = Some d \<longrightarrow> Direction_Known d)
    \<and> (operation_direction cmd ref = None \<longleftrightarrow> \<not> MovesMoney (c_Kind cmd))"
proof (cases "c_Kind cmd = Rollback")
  case True
  then have "namesReference cmd" "IsReversal (c_Kind cmd)"
    using assms(1) by (auto simp: command_ok_def namesReference_def kind_predicates split: if_splits)
  with evaluateReference_apply_iff [of cmd w ref] assms(2) obtain v t where
    "ref = Some v" "rf_Transaction v = Some t" "CanReverse (c_Kind cmd) (tx_kind t)"
    by (auto simp: applicable_def)
  with reversalDirection_CanReverse True show ?thesis
    by (fastforce simp: movement_def operation_direction_def kind_predicates)
next
  case False
  with assms(1) show ?thesis
    by (cases "c_Kind cmd")
      (auto simp: movement_def operation_direction_def kind_predicates command_ok_def
        Direction_Known_def)
qed

lemma movement_of_command_ok:
  assumes "command_ok cmd" "m_currency (c_Money cmd) = Wallet_Currency w" "now \<noteq> 0"
    "MovesMoney (c_Kind cmd)"
  shows "movement_ok w (movement_of_command cmd now)"
  using assms by (auto simp: movement_ok_def movement_of_command_def command_ok_def kind_predicates)

lemma movementRejection_simps [simp]:
  "movementRejection cmd (New AmountOutOfRange) = Some BalanceOutOfRange"
  "movementRejection cmd (New InsufficientFunds) =
     Some (if IsReversal (c_Kind cmd) then ReversalInsufficientFunds else InsufficientFunds)"
  "movementRejection cmd (WithField (New InvalidFieldFormat) f) = None"
  by (simp_all add: movementRejection_def failure_Is_def)

lemma carried_out_resolved:
  assumes "carried_out pol v tx' cmd w now tx'' w' out" "v \<noteq> Parked"
    "tx_identity tx' = tx_identity tx" "tx_updatedAt tx' = tx_updatedAt tx" "(clocked pol)\<^sup>*\<^sup>* tx tx'"
  shows "carried_out pol v tx cmd w now tx'' w' out"
  using assms
  by (auto simp: carried_out_def verdict_effect_def split: verdict.splits option.splits)

text \<open>
  The one refusal left after the verdict: a wallet whose version counter is exhausted. It is
  reported as an error and leaves the wallet as it was.
\<close>

definition version_exhausted :: "wallet \<Rightarrow> bool" where
  "version_exhausted w \<longleftrightarrow> w_version w + 1 = 0"

lemma apply_movement_carries:
  assumes "ready tx cmd w ref" "now \<noteq> 0" "m_currency (c_Money cmd) = Wallet_Currency w"
    "evaluateReference cmd w ref = (referenceApply, c)"
  defines "v \<equiv> movement_verdict cmd w (operation_direction cmd ref)"
  shows "(\<exists>tx' w' out. apply_movement tx cmd w ref now = (tx', w', Inr out)
       \<and> carried_out pol v tx cmd w now tx' w' out)
    \<or> (\<exists>tx' d. version_exhausted w \<and> v = Completed (Some d)
       \<and> apply_movement tx cmd w ref now
         = (tx', w, Inl (WithField (New InvalidFieldFormat) ''walletVersion'')))"
proof -
  from assms(1) have cmd: "command_ok cmd" and w: "wallet_ok w" by (auto simp: ready_def)
  obtain tx1 where tx1: "resolve_named cmd ref tx = Inr tx1" "open_status (tx_status tx1)"
    "tx_amount tx1 = tx_amount tx" "tx_identity tx1 = tx_identity tx"
    and upd: "tx_updatedAt tx1 = tx_updatedAt tx" and steps: "(clocked pol)\<^sup>*\<^sup>* tx tx1"
    using resolve_named_ready [OF assms(1), of pol] by blast
  have cur: "Wallet_Currency w = Tx_Currency tx1"
    using assms(1,3) tx1(3) by (simp add: ready_def Tx_Currency_def)
  have wpos: "cur_code (Wallet_Currency w) \<noteq> []" "0 \<le> wallet_units w"
    using w by (simp_all add: wallet_ok_def wallet_units_def)
  note mv = movement_ready [OF cmd assms(4)]
  show ?thesis
  proof (cases "operation_direction cmd ref")
    case None
    from settle_processed [OF tx1(2) assms(2) wpos(1) cur wpos(2), of None pol] obtain tx' out where
      "settle tx1 w None now = (tx', Inr out)" "carried_out pol (Completed None) tx1 cmd w now tx' w out"
      by (auto simp: carried_out_def verdict_effect_def)
    with carried_out_resolved [OF this(2) _ tx1(4) upd steps] show ?thesis
      using None mv tx1(1) by (auto simp: apply_movement_def v_def movement_verdict_def)
  next
    case (Some d)
    with mv have d: "Direction_Known d" "MovesMoney (c_Kind cmd)" by auto
    let ?m = "movement_of_command cmd now"
    note mok = movement_of_command_ok [OF cmd assms(3,2) d(2)]
    note move = Wallet_move_eq [OF wallet_ok_movable [OF w] d(1) mok]
    have after: "balance_after d ?m w = wallet_units w + signed_by d (sint (m_units (c_Money cmd)))"
      by (simp add: balance_after_def movement_of_command_def)
    show ?thesis
    proof (cases "\<exists>c. v = Refused c")
      case True
      then obtain c where c: "v = Refused c" by blast
      from c Some after have "settling_code c"
        "\<exists>err. Wallet_move d ?m w = Inl err \<and> movementRejection cmd err = Some c"
        by (auto simp: v_def movement_verdict_def move settling_code_iff Let_def split: if_splits)
      then obtain err where err: "Wallet_move d ?m w = Inl err" "movementRejection cmd err = Some c"
        and sc: "settling_code c" by blast
      from reject_carries [OF tx1(2) sc assms(2), of pol cmd w] obtain tx' out where
        rej: "reject tx1 c now = (tx', Inr out)" "carried_out pol (Refused c) tx1 cmd w now tx' w out"
        by blast
      have "carried_out pol v tx cmd w now tx' w out"
        using carried_out_resolved [OF rej(2) _ tx1(4) upd steps] c by simp
      moreover have "apply_movement tx cmd w ref now = (tx', w, Inr out)"
        using Some mv tx1(1) err rej(1) by (simp add: apply_movement_def)
      ultimately show ?thesis by blast
    next
      case False
      with Some after have comp: "v = Completed (Some d)"
        and range: "\<not> sint MaxInt64 < balance_after d ?m w" "\<not> balance_after d ?m w < 0"
        by (auto simp: v_def movement_verdict_def Let_def split: if_splits)
      show ?thesis
      proof (cases "version_exhausted w")
        case True
        with comp range Some mv tx1(1) move show ?thesis
          by (simp add: apply_movement_def version_exhausted_def)
      next
        case nx: False
        with range move obtain e w' where ew: "Wallet_move d ?m w = Inr (e, w')"
          by (auto simp: version_exhausted_def)
        note links = move_entry_links [OF ew]
        have "Wallet_Currency w' = Tx_Currency tx1" "cur_code (Wallet_Currency w') \<noteq> []"
          "0 \<le> wallet_units w'" "le_id e \<noteq> 0"
          using links cur wpos wbook.move_nonnegative [of "(d, ?m)" w e w'] ew
          by (auto simp: wallet_step_def entry_ok_def)
        from settle_processed [OF tx1(2) assms(2) this(2,1,3), of "Some e" pol] this(4) obtain tx' out where
          "settle tx1 w' (Some e) now = (tx', Inr out)"
          "carried_out pol (Completed (Some d)) tx1 cmd w now tx' w' out"
          using ew by (auto simp: carried_out_def verdict_effect_def)
        with carried_out_resolved [OF this(2) _ tx1(4) upd steps] show ?thesis using comp Some mv tx1(1) ew by (auto simp: apply_movement_def)
      qed
    qed
  qed
qed

lemma p_apply_carries:
  assumes "ready tx cmd w ref" "now \<noteq> 0" "1 \<le> MaxAttempts (p_policy p)" "0 < TTL (p_policy p)"
  defines "v \<equiv> verdict_of (p_policy p) tx cmd w ref now"
  shows "(\<exists>tx' w' out. p_apply p tx cmd w ref now = (tx', w', Inr out)
       \<and> carried_out (p_policy p) v tx cmd w now tx' w' out)
    \<or> (\<exists>tx' d. version_exhausted w \<and> v = Completed (Some d)
       \<and> p_apply p tx cmd w ref now
         = (tx', w, Inl (WithField (New InvalidFieldFormat) ''walletVersion'')))"
proof -
  have op: "open_status (tx_status tx)" using assms(1) by (simp add: ready_def)
  show ?thesis
  proof (cases "m_currency (c_Money cmd) = Wallet_Currency w")
    case False
    then show ?thesis
      using reject_carries [OF op _ assms(2), of CurrencyMismatch "p_policy p" cmd w]
      by (auto simp: p_apply_def v_def verdict_of_def settling_code_iff)
  next
    case cur: True
    obtain o' c where ev: "evaluateReference cmd w ref = (o', c)" by force
    show ?thesis
    proof (cases o')
      case referenceApply
      with apply_movement_carries [OF assms(1,2) cur, of c "p_policy p"] ev cur show ?thesis
        by (simp add: p_apply_def v_def verdict_of_def)
    next
      case referenceWait
      then have "namesReference cmd" using ev by (auto simp: evaluateReference_def split: if_splits)
      then have "Tx_ReferenceExternalTransactionID tx \<noteq> None"
        using assms(1) by (auto simp: ready_def namesReference_def Tx_ReferenceExternalTransactionID_def)
      from wait_carries [OF op assms(2-4) this, of cmd w] referenceWait ev cur show ?thesis
        by (auto simp: p_apply_def v_def verdict_of_def)
    next
      case referenceReject
      with ev have "settling_code c" by (auto dest: evaluateReference_code)
      from reject_carries [OF op this assms(2), of "p_policy p" cmd w] referenceReject ev cur
      show ?thesis by (auto simp: p_apply_def v_def verdict_of_def)
    qed
  qed
qed

section \<open>Submitting\<close>

text \<open>A reference view as a lookup returns it: what it found is a stored transaction.\<close>

definition view_ok :: "reference_view option \<Rightarrow> bool" where
  "view_ok ref \<longleftrightarrow> (\<forall>v t. ref = Some v \<longrightarrow> rf_Transaction v = Some t \<longrightarrow> tx_ok t)"

definition usable_policy :: "reference_policy \<Rightarrow> bool" where
  "usable_policy policy \<longleftrightarrow> 1 \<le> MaxAttempts policy \<and> 0 < TTL policy"

lemma NewProcessor_Inr_iff:
  "NewProcessor policy = Inr p \<longleftrightarrow> usable_policy policy \<and> p = \<lparr>p_policy = policy\<rparr>"
  by (auto simp: NewProcessor_def usable_policy_def)

lemma usable_Inr_iff [simp]: "usable p = Inr u \<longleftrightarrow> usable_policy (p_policy p)"
  by (auto simp: usable_def usable_policy_def policy_validate_def)

lemma usable_eq: "usable_policy (p_policy p) \<Longrightarrow> usable p = Inr ()"
  by simp

lemma usable_correctable [correctable_rules]: "refuses_correctably (usable p)"
  by (auto simp: usable_def split: sum.split)

lemma WalletBelongsToPlayer_Inr_iff [simp]:
  "WalletBelongsToPlayer cmd w = Inr u \<longleftrightarrow> w_playerID w = c_PlayerID cmd"
  by (simp add: WalletBelongsToPlayer_def)

lemma WalletBelongsToPlayer_correctable [correctable_rules]:
  "refuses_correctably (WalletBelongsToPlayer cmd w)"
  by (simp add: WalletBelongsToPlayer_def)

lemma pending_ready:
  assumes "command_ok cmd" "wallet_ok w" "view_ok ref"
  shows "ready (pending_transaction cmd (w_id w) now) cmd w ref"
  using assms
  by (auto simp: ready_def pending_transaction_def external_of_command_def open_status_def
      view_ok_def tx_ok_def)

definition submittable :: "command \<Rightarrow> wallet \<Rightarrow> instant \<Rightarrow> bool" where
  "submittable cmd w now \<longleftrightarrow> command_ok cmd \<and> w_playerID w = c_PlayerID cmd \<and> now \<noteq> 0"

lemma Submit_unsubmittable:
  assumes "wallet_ok w" "usable_policy (p_policy p)" "\<not> submittable cmd w now"
  shows "\<exists>err. Submit p cmd (Some w) ref now = (Some w, Inl err) \<and> Correctable (CodeOf err)"
proof -
  let ?m = "bindE (WalletBelongsToPlayer cmd w) (\<lambda>_. NewExternalTransaction cmd (w_id w) now)"
  have "refuses_correctably ?m" by (intro correctable_rules)
  moreover have "?m \<noteq> Inr t" for t
    using assms by (auto simp: NewExternalTransaction_Inr_iff submittable_def)
  then obtain err where err: "?m = Inl err" by (metis sum.exhaust)
  ultimately have "Correctable (CodeOf err)" by (rule refuses_correctablyD)
  then show ?thesis using assms(2) by (simp add: Submit_def usable_eq err)
qed

lemma Submit_submittable:
  assumes "wallet_ok w" "usable_policy (p_policy p)" "submittable cmd w now"
  shows "Submit p cmd (Some w) ref now =
    (let r = p_apply p (pending_transaction cmd (w_id w) now) cmd w ref now
     in (Some (fst (snd r)), snd (snd r)))"
proof -
  have eq: "bindE (WalletBelongsToPlayer cmd w) (\<lambda>_. NewExternalTransaction cmd (w_id w) now)
      = Inr (pending_transaction cmd (w_id w) now)"
    using assms by (simp add: NewExternalTransaction_Inr_iff submittable_def wallet_ok_def)
  show ?thesis using assms(2) by (simp add: Submit_def Let_def usable_eq eq)
qed

lemma Submit_cases:
  assumes "wallet_ok w" "usable_policy (p_policy p)" "view_ok ref"
  obtains (refused) err where "Submit p cmd (Some w) ref now = (Some w, Inl err)"
      "Correctable (CodeOf err)" "\<not> submittable cmd w now \<or> version_exhausted w"
  | (recorded) tx' w' out where "Submit p cmd (Some w) ref now = (Some w', Inr out)"
      "submittable cmd w now"
      "carried_out (p_policy p)
         (verdict_of (p_policy p) (pending_transaction cmd (w_id w) now) cmd w ref now)
         (pending_transaction cmd (w_id w) now) cmd w now tx' w' out"
proof (cases "submittable cmd w now")
  case False
  from Submit_unsubmittable [OF assms(1,2) False] that(1) False show ?thesis by blast
next
  case True
  then have *: "ready (pending_transaction cmd (w_id w) now) cmd w ref" "now \<noteq> 0"
    using assms by (auto simp: pending_ready submittable_def)
  have pol: "1 \<le> MaxAttempts (p_policy p)" "0 < TTL (p_policy p)"
    using assms(2) by (auto simp: usable_policy_def)
  from p_apply_carries [OF * pol] Submit_submittable [OF assms(1,2) True, of ref] show ?thesis
    using that(1) that(2) True by (fastforce simp: Let_def)
qed

text \<open>The recorded transaction is well formed, because it was reached by its own steps.\<close>

lemma carried_out_ok:
  assumes "carried_out pol v tx cmd w now tx' w' out" "tx_live tx" "tx_updatedAt tx \<le> now"
  shows "tx_ok tx' \<and> tx_live tx'"
  using assms life.inv_steps [of pol tx tx'] by (auto simp: carried_out_def tx_live_def)

lemma pending_live:
  "command_ok cmd \<Longrightarrow> i \<noteq> 0 \<Longrightarrow> 0 < now \<Longrightarrow> tx_live (pending_transaction cmd i now)"
  by (simp add: tx_live_def pending_transaction_ok)

end
