(* ===== verification/Postgres.thy ===== *)
theory Postgres
  imports Rows Envelope Processor "HOL-Library.Product_Lexorder"
begin

text \<open>
  The PostgreSQL adapter (\<^verbatim>\<open>src/internal/adapters/postgres\<close>: \<^verbatim>\<open>errors.go\<close>, \<^verbatim>\<open>wallets.go\<close>,
  \<^verbatim>\<open>transactions.go\<close>, \<^verbatim>\<open>doors.go\<close>, \<^verbatim>\<open>ledger.go\<close>, \<^verbatim>\<open>inbox.go\<close>, \<^verbatim>\<open>outbox.go\<close>, \<^verbatim>\<open>tx.go\<close>)
  over a store of rows.

  The store is the committed contents of the tables, each as a list of rows in insertion
  order, together with the counter of the outbox. A statement is a function on it, translated
  from the SQL the Go code sends. The rules of the schema that speak of more than one row, or
  of a row and its predecessor, are part of the statements that meet them, under the
  constraint names of the migrations: unique keys, the guards of an update, the hold a
  reversal takes, the chain of a ledger, and the check of a wallet against its ledger at
  commit, and the CHECK rules of wallets and ledger entries. The domain \<^verbatim>\<open>opaque_id\<close> is checked
  where a value reaches its column without having been parsed: the correlation of a
  transaction, of which the application asks only that it be given, and the consumer and the
  message of an inbox row. The other columns of that domain hold what \<open>parseOpaque\<close> accepted,
  the rule the domain restates. What is left out of a transaction's CHECK rules and foreign
  keys is what its constructors, its rehydration and the processor keep: the columns an origin,
  a kind or a status comes with, that a processed reversal is resolved, and that what it is
  resolved to is what it names; of an inbox row, the form of the hash, which the consumer
  computed, and that it was completed no earlier than received; of an event, its catalogue of
  types and its shape. Rehydrating reads can meet any row.

  A connection that fails while a transaction runs rolls it back, which is what the model
  does with every error; failures of the connection itself appear only in \<open>fail\<close>.
\<close>

section \<open>Errors\<close>

definition portErrors :: "string \<Rightarrow> sentinel option" where
  "portErrors con =
     (if con \<in> {''wager_transaction_provider_external_key'',
                ''wager_transaction_provider_idempotency_key'',
                ''wager_transaction_provider_external_id_key''} then Some ErrDuplicateSubmission
      else if con = ''wallet_player_currency_key'' then Some ErrWalletExists
      else if con \<in> {''active_reversal_pkey'',
                     ''wager_transaction_one_successful_reversal_per_kind''}
      then Some ErrReferenceAlreadyReversed
      else None)"

definition transientRules :: "string \<Rightarrow> bool" where
  "transientRules con \<longleftrightarrow> con = ''inbox_pkey''"

text \<open>The SQLSTATEs of the named constants of \<^verbatim>\<open>pgerrcode\<close>, in the order of the source.\<close>

definition transientCodes :: "string list" where
  "transientCodes =
     [''40001'', ''40P01'', ''55P03'', ''57014'', ''53300'', ''57P01'', ''57P02'', ''57P03'', ''57P05'']"

definition connectionExceptionClass :: string where
  "connectionExceptionClass = ''08''"

fun AsPgError :: "driver_error \<Rightarrow> (string \<times> string) option" where
  "AsPgError (PgError state con) = Some (state, con)"
| "AsPgError (ConnectError cause) = (case cause of None \<Rightarrow> None | Some e \<Rightarrow> AsPgError e)"
| "AsPgError _ = None"

definition transient :: "driver_error \<Rightarrow> bool" where
  "transient err =
     (case err of
        Canceled \<Rightarrow> True
      | DeadlineExceeded \<Rightarrow> True
      | ErrTxClosed \<Rightarrow> True
      | ErrTxCommitRollback \<Rightarrow> True
      | ConnectError cause \<Rightarrow> True
      | PgError state con \<Rightarrow>
          state \<in> set transientCodes
          \<or> take (length connectionExceptionClass) state = connectionExceptionClass
      | OtherDriverError \<Rightarrow> False)"

definition fail_unmapped :: "driver_error \<Rightarrow> go_error" where
  "fail_unmapped err =
     (if transient err then AsRetryable (Wrapped [DriverErr err])
      else AsUnretryable (Wrapped [DriverErr err]))"

definition pg_fail :: "driver_error \<Rightarrow> go_error" where
  "pg_fail err =
     (case AsPgError err of
        None \<Rightarrow> fail_unmapped err
      | Some (state, con) \<Rightarrow>
          if con = [] then fail_unmapped err
          else (case portErrors con of
                  Some s \<Rightarrow> Wrapped [Sentinel s, DriverErr err]
                | None \<Rightarrow>
                    if transientRules con then AsRetryable (Wrapped [DriverErr err])
                    else fail_unmapped err))"

definition corrupt :: "go_error \<Rightarrow> go_error" where
  "corrupt err = AsUnretryable (Wrapped [err])"

text \<open>An error of the adapter's own, with no cause.\<close>

definition adapter_error :: go_error where
  "adapter_error = AsUnretryable (Wrapped [])"

definition unique_violation :: "string \<Rightarrow> driver_error" where
  "unique_violation con = PgError ''23505'' con"

definition foreign_key_violation :: "string \<Rightarrow> driver_error" where
  "foreign_key_violation con = PgError ''23503'' con"

definition check_violation :: "string \<Rightarrow> driver_error" where
  "check_violation con = PgError ''23514'' con"

definition raised :: "string \<Rightarrow> driver_error" where
  "raised con = PgError ''P0001'' con"

text \<open>
  The domain of provider-supplied identifiers: bounded in bytes, without control characters
  and not surrounded by white space. Which characters outside ASCII its classes hold is up to
  the locale of the database; they are read as Go reads them, which the migration says they
  restate.
\<close>

definition opaque_id :: "string \<Rightarrow> bool" where
  "opaque_id s \<longleftrightarrow> opaque_ok s"

section \<open>The store\<close>

record inbox_row =
  ir_consumer :: string
  ir_messageID :: string
  ir_bodyHash :: string
  ir_receivedAt :: timestamptz
  ir_completedAt :: "timestamptz option"

record outbox_row =
  or_envelope :: envelope
  or_sequence :: nat
  or_aggregateSequence :: nat
  or_attempts :: int32
  or_nextAttemptAt :: timestamptz
  or_claimedBy :: "string option"
  or_claimedAt :: "timestamptz option"
  or_claimExpiresAt :: "timestamptz option"
  or_publishedAt :: "timestamptz option"

record hold =
  h_reference :: "uuid option"
  h_reversal :: "uuid option"
  h_kind :: string

record store =
  db_wallets :: "wallet_row list"
  db_transactions :: "transaction_row list"
  db_holds :: "hold list"
  db_ledger :: "ledger_row list"
  db_inbox :: "inbox_row list"
  db_outbox :: "outbox_row list"
  db_sequences :: "wallet_id \<Rightarrow> nat"

definition empty_store :: store where
  "empty_store =
     \<lparr>db_wallets = [], db_transactions = [], db_holds = [], db_ledger = [], db_inbox = [],
      db_outbox = [], db_sequences = (\<lambda>_. 0)\<rparr>"

fun mapE :: "('a \<Rightarrow> 'e + 'b) \<Rightarrow> 'a list \<Rightarrow> 'e + 'b list" where
  "mapE f [] = Inr []"
| "mapE f (x # xs) = bindE (f x) (\<lambda>y. bindE (mapE f xs) (\<lambda>ys. Inr (y # ys)))"

section \<open>Wallets\<close>

definition wallets_one :: "wallet_row option \<Rightarrow> wallet option eres" where
  "wallets_one row =
     (case row of
        None \<Rightarrow> Inr None
      | Some r \<Rightarrow>
          (case row_wallet r of
             Inl e \<Rightarrow> Inl (corrupt e)
           | Inr w \<Rightarrow> Inr (Some w)))"

definition select_wallet_by_id :: "wallet_id \<Rightarrow> store \<Rightarrow> wallet_row option" where
  "select_wallet_by_id i st = find (\<lambda>r. wr_id r = uuidOf i) (db_wallets st)"

definition Wallets_ByID :: "wallet_id \<Rightarrow> store \<Rightarrow> wallet option eres" where
  "Wallets_ByID i st = wallets_one (select_wallet_by_id i st)"

definition Wallets_ByKey :: "wallet_key \<Rightarrow> store \<Rightarrow> wallet option eres" where
  "Wallets_ByKey key st =
     wallets_one (find (\<lambda>r. wr_playerID r = wk_PlayerID key
       \<and> wr_currency r = Currency_String (wk_Currency key)) (db_wallets st))"

text \<open>A row lock changes nothing of the committed contents; what it excludes is another movement.\<close>

definition LockForMovement :: "wallet_key \<Rightarrow> store \<Rightarrow> wallet option eres" where
  "LockForMovement key st = Wallets_ByKey key st"

definition LockByID :: "wallet_id \<Rightarrow> store \<Rightarrow> wallet option eres" where
  "LockByID i st = Wallets_ByID i st"

section \<open>Transactions: reads\<close>

definition transactions_one :: "transaction_row option \<Rightarrow> stored_transaction option eres" where
  "transactions_one row =
     (case row of
        None \<Rightarrow> Inr None
      | Some r \<Rightarrow>
          (case row_stored r of
             Inl f \<Rightarrow> Inl (corrupt (DomainErr f))
           | Inr t \<Rightarrow> Inr (Some t)))"

definition Transactions_ByID :: "transaction_id \<Rightarrow> store \<Rightarrow> stored_transaction option eres" where
  "Transactions_ByID i st = transactions_one (find (\<lambda>r. tr_id r = uuidOf i) (db_transactions st))"

definition select_by_external :: "provider \<Rightarrow> external_id \<Rightarrow> store \<Rightarrow> transaction_row option" where
  "select_by_external p e st =
     find (\<lambda>r. tr_provider r = Some p \<and> tr_externalID r = Some e) (db_transactions st)"

definition ByExternal :: "provider \<Rightarrow> external_id \<Rightarrow> store \<Rightarrow> stored_transaction option eres" where
  "ByExternal p e st = transactions_one (select_by_external p e st)"

definition select_by_key :: "provider \<Rightarrow> idempotency_key \<Rightarrow> store \<Rightarrow> transaction_row option" where
  "select_by_key p k st =
     find (\<lambda>r. tr_provider r = Some p \<and> tr_idempotencyKey r = Some k) (db_transactions st)"

definition ByIdempotencyKey ::
  "provider \<Rightarrow> idempotency_key \<Rightarrow> store \<Rightarrow> stored_transaction option eres" where
  "ByIdempotencyKey p k st = transactions_one (select_by_key p k st)"

definition is_reversal_row :: "transaction_row \<Rightarrow> bool" where
  "is_reversal_row r \<longleftrightarrow> tr_kind r = ''REFUND'' \<or> tr_kind r = ''ROLLBACK''"

text \<open>A row counted by the partial index on successful reversals and by the reference query.\<close>

definition processed_reversal :: "transaction_row \<Rightarrow> bool" where
  "processed_reversal r \<longleftrightarrow> tr_status r = ''PROCESSED'' \<and> is_reversal_row r"

definition reversal_rows :: "transaction_row \<Rightarrow> store \<Rightarrow> transaction_row list" where
  "reversal_rows ref st =
     sort_key (\<lambda>h. (tr_createdAt h, idFrom (tr_id h)))
       (filter (\<lambda>h. tr_resolvedReference h \<noteq> None \<and> tr_resolvedReference h = tr_id ref
          \<and> processed_reversal h) (db_transactions st))"

definition reversal_view_of :: "store \<Rightarrow> transaction_row \<Rightarrow> reversal_view eres" where
  "reversal_view_of st h =
     (case row_transaction h of
        Inl f \<Rightarrow> Inl (corrupt (DomainErr f))
      | Inr tx \<Rightarrow>
          Inr \<lparr>rv_Transaction = Some tx,
               rv_Reversed = \<not> list_ex (\<lambda>a. h_reversal a = tr_id h) (db_holds st)\<rparr>)"

definition ReferenceFor :: "provider \<Rightarrow> external_id \<Rightarrow> store \<Rightarrow> reference_view option eres" where
  "ReferenceFor p e st =
     (case select_by_external p e st of
        None \<Rightarrow> Inr None
      | Some ref \<Rightarrow>
          (case row_transaction ref of
             Inl f \<Rightarrow> Inl (corrupt (DomainErr f))
           | Inr target \<Rightarrow>
               bindE (mapE (reversal_view_of st) (reversal_rows ref st)) (\<lambda>rs.
                 Inr (Some \<lparr>rf_Transaction = Some target, rf_Reversals = rs\<rparr>))))"

section \<open>Transactions: writes\<close>

text \<open>Equality of two nullable columns in SQL: never true of a NULL.\<close>

definition sql_eq :: "'a option \<Rightarrow> 'a option \<Rightarrow> bool" where
  "sql_eq a b \<longleftrightarrow> a \<noteq> None \<and> a = b"

text \<open>The unique index a new row would collide on, if any, against one stored row.\<close>

definition transaction_collision :: "transaction_row \<Rightarrow> transaction_row \<Rightarrow> string option" where
  "transaction_collision row r =
     (if tr_id r = tr_id row then Some ''wager_transaction_pkey''
      else if sql_eq (tr_provider r) (tr_provider row) \<and> sql_eq (tr_externalID r) (tr_externalID row)
      then Some ''wager_transaction_provider_external_key''
      else if sql_eq (tr_provider r) (tr_provider row) \<and> sql_eq (tr_idempotencyKey r) (tr_idempotencyKey row)
      then Some ''wager_transaction_provider_idempotency_key''
      else if tr_kind r = ''OPENING'' \<and> tr_kind row = ''OPENING'' \<and> tr_walletID r = tr_walletID row
      then Some ''wager_transaction_one_opening_per_wallet''
      else if processed_reversal r \<and> processed_reversal row \<and> tr_kind r = tr_kind row
           \<and> sql_eq (tr_resolvedReference r) (tr_resolvedReference row)
      then Some ''wager_transaction_one_successful_reversal_per_kind''
      else None)"

definition collision :: "transaction_row \<Rightarrow> transaction_row list \<Rightarrow> string option" where
  "collision row rs = first_some (map (transaction_collision row) rs)"

text \<open>The wallet a row names, by identifier and player.\<close>

definition names_wallet :: "transaction_row \<Rightarrow> store \<Rightarrow> bool" where
  "names_wallet row st \<longleftrightarrow>
     list_ex (\<lambda>w. wr_id w = tr_walletID row \<and> wr_playerID w = tr_playerID row) (db_wallets st)"

definition wallet_currency_of :: "uuid option \<Rightarrow> store \<Rightarrow> string option" where
  "wallet_currency_of i st = map_option wr_currency (find (\<lambda>w. wr_id w = i) (db_wallets st))"

text \<open>The trigger that keeps a processed transaction in the currency of its wallet.\<close>

definition in_wallet_currency :: "transaction_row \<Rightarrow> store \<Rightarrow> bool" where
  "in_wallet_currency row st \<longleftrightarrow>
     tr_status row = ''PROCESSED'' \<longrightarrow> wallet_currency_of (tr_walletID row) st = Some (tr_currency row)"

text \<open>
  The hold a processed reversal takes on what it reverses, releasing first the hold of the
  reversal it undoes.
\<close>

definition take_hold :: "transaction_row \<Rightarrow> store \<Rightarrow> driver_error + store" where
  "take_hold row st =
     (let target = tr_resolvedReference row;
          held = find (\<lambda>a. h_reversal a = target) (db_holds st);
          rest = filter (\<lambda>a. h_reversal a \<noteq> target) (db_holds st)
      in if (case held of None \<Rightarrow> False | Some a \<Rightarrow> tr_kind row = ''REFUND'' \<or> h_kind a = ''ROLLBACK'')
         then Inl (raised ''active_reversal_reference_is_reversible'')
         else if target = tr_id row then Inl (check_violation ''active_reversal_is_not_itself'')
         else if list_ex (\<lambda>a. h_reference a = target) rest
         then Inl (unique_violation ''active_reversal_pkey'')
         else if list_ex (\<lambda>a. h_reversal a = tr_id row) rest
         then Inl (unique_violation ''active_reversal_holds_one_reference'')
         else Inr (st\<lparr>db_holds := rest @
                [\<lparr>h_reference = target, h_reversal = tr_id row, h_kind = tr_kind row\<rparr>]\<rparr>))"

text \<open>
  Inserting a row. A value outside its domain is refused before anything of the table is
  looked at. The rows the adapter inserts are pending or openings, for which the hold trigger
  has nothing to do.
\<close>

definition insert_transaction :: "transaction_row \<Rightarrow> store \<Rightarrow> driver_error + store" where
  "insert_transaction row st =
     (if \<not> opaque_id (tr_correlation row)
      then Inl (check_violation ''opaque_id_is_bounded_and_untrimmed'')
      else if \<not> in_wallet_currency row st
      then Inl (raised ''wager_transaction_processed_in_wallet_currency'')
      else case collision row (db_transactions st) of
             Some con \<Rightarrow> Inl (unique_violation con)
           | None \<Rightarrow>
               if \<not> names_wallet row st
               then Inl (foreign_key_violation ''wager_transaction_wallet_fkey'')
               else Inr (st\<lparr>db_transactions := db_transactions st @ [row]\<rparr>))"

text \<open>The insert that does nothing on a conflict, with the number of rows it wrote.\<close>

definition insert_transaction_if_new :: "transaction_row \<Rightarrow> store \<Rightarrow> driver_error + nat \<times> store" where
  "insert_transaction_if_new row st =
     (case insert_transaction row st of
        Inr st' \<Rightarrow> Inr (1, st')
      | Inl err \<Rightarrow>
          if opaque_id (tr_correlation row) \<and> in_wallet_currency row st \<and> collision row (db_transactions st) \<noteq> None
          then Inr (0, st)
          else Inl err)"

text \<open>A statement that writes a transaction is not sent when an argument does not fit its column.\<close>

definition encoded :: "transaction_snapshot \<Rightarrow> (store \<Rightarrow> driver_error + 'a) \<Rightarrow> store \<Rightarrow> driver_error + 'a" where
  "encoded snap stmt st = (if attempts_fit snap then stmt st else Inl OtherDriverError)"

definition Transactions_Record :: "wager_transaction \<Rightarrow> string \<Rightarrow> store \<Rightarrow> store eres" where
  "Transactions_Record tx correlation st =
     (case encoded (snapshotOf tx)
             (insert_transaction_if_new (transactionArgs (snapshotOf tx) correlation zero_time)) st of
        Inl err \<Rightarrow> Inl (pg_fail err)
      | Inr (n, st') \<Rightarrow>
          if n = 0 then Inl (Wrapped [Sentinel ErrDuplicateSubmission]) else Inr st')"

text \<open>The guard of an update, over the columns the statements of the adapter change.\<close>

definition transaction_guard :: "transaction_row \<Rightarrow> transaction_row \<Rightarrow> driver_error option" where
  "transaction_guard old new =
     (if tr_resolvedReference old \<noteq> None \<and> tr_resolvedReference new \<noteq> tr_resolvedReference old
      then Some (raised ''wager_transaction_resolution_is_decided_once'')
      else if tr_status new \<noteq> tr_status old \<and> tr_status old \<in> {''PROCESSED'', ''REJECTED'', ''FAILED''}
      then Some (raised ''wager_transaction_terminal_status_is_final'')
      else if tr_status new \<noteq> tr_status old \<and> tr_status new = ''PENDING''
      then Some (raised ''wager_transaction_does_not_return_to_pending'')
      else if tr_updatedAt new < tr_updatedAt old
      then Some (raised ''wager_transaction_clock_moves_forward'')
      else None)"

definition replace_transaction :: "uuid option \<Rightarrow> transaction_row \<Rightarrow> store \<Rightarrow> store" where
  "replace_transaction i new st =
     st\<lparr>db_transactions := map (\<lambda>r. if tr_id r = i then new else r) (db_transactions st)\<rparr>"

definition takes_hold :: "transaction_row \<Rightarrow> transaction_row \<Rightarrow> bool" where
  "takes_hold old new \<longleftrightarrow>
     tr_status old \<noteq> tr_status new \<and> processed_reversal new \<and> tr_resolvedReference new \<noteq> None"

text \<open>Updating the row with an identifier, with the number of rows changed.\<close>

definition update_transaction ::
  "transaction_id \<Rightarrow> (transaction_row \<Rightarrow> transaction_row) \<Rightarrow> store \<Rightarrow> driver_error + nat \<times> store" where
  "update_transaction i f st =
     (case find (\<lambda>r. tr_id r = uuidOf i) (db_transactions st) of
        None \<Rightarrow> Inr (0, st)
      | Some old \<Rightarrow>
          (let new = f old
           in case transaction_guard old new of
                Some err \<Rightarrow> Inl err
              | None \<Rightarrow>
                  if \<not> in_wallet_currency new st
                  then Inl (raised ''wager_transaction_processed_in_wallet_currency'')
                  else (case collision new (filter (\<lambda>r. tr_id r \<noteq> uuidOf i) (db_transactions st)) of
                          Some con \<Rightarrow> Inl (unique_violation con)
                        | None \<Rightarrow>
                            if takes_hold old new
                            then bindE (take_hold new (replace_transaction (uuidOf i) new st)) (\<lambda>st'. Inr (1, st'))
                            else Inr (1, replace_transaction (uuidOf i) new st))))"

record settled_operation =
  so_WalletID :: wallet_id
  so_Provider :: provider
  so_External :: external_id

definition waits_on :: "settled_operation \<Rightarrow> transaction_row \<Rightarrow> bool" where
  "waits_on op r \<longleftrightarrow>
     tr_walletID r = uuidOf (so_WalletID op) \<and> tr_status r = ''PENDING_REFERENCE''
     \<and> tr_provider r = Some (so_Provider op) \<and> tr_referenceExternal r = Some (so_External op)"

definition MakeDue :: "settled_operation \<Rightarrow> instant \<Rightarrow> store \<Rightarrow> (nat \<times> store) eres" where
  "MakeDue op at st =
     Inr (length (filter (waits_on op) (db_transactions st)),
       st\<lparr>db_transactions :=
         map (\<lambda>r. if waits_on op r then r\<lparr>tr_nextAttemptAt := Some (micros at)\<rparr> else r) (db_transactions st)\<rparr>)"

record due_candidate =
  dc_TransactionID :: transaction_id
  dc_WalletID :: wallet_id

definition is_due :: "instant \<Rightarrow> transaction_row \<Rightarrow> bool" where
  "is_due at r \<longleftrightarrow>
     tr_status r = ''PENDING_REFERENCE''
     \<and> (case tr_nextAttemptAt r of None \<Rightarrow> False | Some n \<Rightarrow> n \<le> micros at)"

definition NextDue :: "instant \<Rightarrow> store \<Rightarrow> due_candidate option eres" where
  "NextDue at st =
     (case sort_key (\<lambda>r. (timeFrom (tr_nextAttemptAt r), idFrom (tr_id r)))
             (filter (is_due at) (db_transactions st)) of
        [] \<Rightarrow> Inr None
      | r # _ \<Rightarrow>
          Inr (Some \<lparr>dc_TransactionID = idFrom (tr_id r), dc_WalletID = idFrom (tr_walletID r)\<rparr>))"

definition ClaimForUpdate :: "transaction_id \<Rightarrow> instant \<Rightarrow> store \<Rightarrow> stored_transaction option eres" where
  "ClaimForUpdate i at st =
     transactions_one (find (\<lambda>r. tr_id r = uuidOf i \<and> is_due at r) (db_transactions st))"

definition Reschedule :: "transaction_id \<Rightarrow> instant \<Rightarrow> store \<Rightarrow> store eres" where
  "Reschedule i at st =
     (let hit = (\<lambda>r. tr_id r = uuidOf i \<and> tr_status r = ''PENDING_REFERENCE'')
      in if \<not> list_ex hit (db_transactions st) then Inl adapter_error
         else Inr (st\<lparr>db_transactions :=
           map (\<lambda>r. if hit r then r\<lparr>tr_nextAttemptAt := Some (micros at)\<rparr> else r) (db_transactions st)\<rparr>))"

definition Transactions_Fail :: "wager_transaction \<Rightarrow> store \<Rightarrow> store eres" where
  "Transactions_Fail tx st =
     (case update_transaction (tx_id tx)
             (\<lambda>r. r\<lparr>tr_status := Status_String (tx_status tx), tr_updatedAt := micros (tx_updatedAt tx),
                    tr_nextAttemptAt := None\<rparr>) st of
        Inl err \<Rightarrow> Inl (pg_fail err)
      | Inr (n, st') \<Rightarrow> if n = 0 then Inl adapter_error else Inr st')"

section \<open>The ledger\<close>

definition maxVersion :: int64 where
  "maxVersion = 0x7FFFFFFFFFFFFFFF"

definition wallet_entries :: "wallet_id \<Rightarrow> store \<Rightarrow> ledger_row list" where
  "wallet_entries w st = filter (\<lambda>r. lr_walletID r = uuidOf w) (db_ledger st)"

definition ledger_read :: "ledger_row list \<Rightarrow> ledger_entry list eres" where
  "ledger_read rows =
     mapE (\<lambda>r. case row_entry r of Inl e \<Rightarrow> Inl (corrupt e) | Inr e \<Rightarrow> Inr e) rows"

definition by_version :: "ledger_row list \<Rightarrow> ledger_row list" where
  "by_version rows = sort_key (\<lambda>r. sint (lr_walletVersion r)) rows"

definition Ledger_Page :: "wallet_id \<Rightarrow> uint64 \<Rightarrow> int \<Rightarrow> store \<Rightarrow> ledger_entry list eres" where
  "Ledger_Page w afterVersion limit st =
     (let after = (if afterVersion \<le> maxVersion then afterVersion else maxVersion)
      in ledger_read (take (nat limit)
           (by_version (filter (\<lambda>r. after <s lr_walletVersion r) (wallet_entries w st)))))"

definition Ledger_All :: "wallet_id \<Rightarrow> store \<Rightarrow> ledger_entry list eres" where
  "Ledger_All w st = ledger_read (by_version (wallet_entries w st))"

text \<open>The last entry of a wallet's ledger, by version.\<close>

definition last_entry :: "uuid option \<Rightarrow> store \<Rightarrow> ledger_row option" where
  "last_entry w st =
     (case rev (by_version (filter (\<lambda>r. lr_walletID r = w) (db_ledger st))) of
        [] \<Rightarrow> None
      | r # _ \<Rightarrow> Some r)"

text \<open>The trigger that chains a new entry to the last one.\<close>

definition ledger_chain :: "ledger_row \<Rightarrow> store \<Rightarrow> driver_error option" where
  "ledger_chain row st =
     (if wallet_currency_of (lr_walletID row) st \<noteq> Some (lr_currency row)
      then Some (raised ''wallet_ledger_entry_matches_the_wallet_currency'')
      else case last_entry (lr_walletID row) st of
             None \<Rightarrow>
               (let opens = list_ex (\<lambda>t. tr_id t = lr_transactionID row \<and> tr_kind t = ''OPENING'')
                              (db_transactions st)
                in if lr_walletVersion row \<noteq> (if opens then 1 else 2)
                   then Some (raised ''wallet_ledger_entry_first_records_the_opening_version'')
                   else if lr_balanceBefore row \<noteq> 0
                   then Some (raised ''wallet_ledger_entry_first_starts_from_zero'')
                   else None)
           | Some prev \<Rightarrow>
               if lr_walletVersion row \<noteq> lr_walletVersion prev + 1
               then Some (raised ''wallet_ledger_entry_follows_the_previous_version'')
               else if lr_balanceBefore row \<noteq> lr_balanceAfter prev
               then Some (raised ''wallet_ledger_entry_follows_the_previous_balance'')
               else None)"

text \<open>The CHECK rules of an entry, on its columns read as signed integers.\<close>

definition ledger_checks :: "ledger_row \<Rightarrow> driver_error option" where
  "ledger_checks row =
     (if lr_direction row \<notin> {''DEBIT'', ''CREDIT''}
      then Some (check_violation ''wallet_ledger_entry_direction_is_known'')
      else if lr_amount row \<le>s 0 then Some (check_violation ''wallet_ledger_entry_moves_something'')
      else if lr_balanceBefore row <s 0 \<or> lr_balanceAfter row <s 0
      then Some (check_violation ''wallet_ledger_entry_balances_are_never_negative'')
      else if sint (lr_balanceAfter row) \<noteq> sint (lr_balanceBefore row)
             + (if lr_direction row = ''CREDIT'' then sint (lr_amount row) else - sint (lr_amount row))
      then Some (check_violation ''wallet_ledger_entry_arithmetic_holds'')
      else if lr_walletVersion row <s 1
      then Some (check_violation ''wallet_ledger_entry_version_starts_at_one'')
      else None)"

definition insert_ledger_entry :: "ledger_row \<Rightarrow> store \<Rightarrow> driver_error + store" where
  "insert_ledger_entry row st =
     (case ledger_chain row st of
        Some err \<Rightarrow> Inl err
      | None \<Rightarrow>
          (case ledger_checks row of
             Some err \<Rightarrow> Inl err
           | None \<Rightarrow>
               if list_ex (\<lambda>r. lr_id r = lr_id row) (db_ledger st)
               then Inl (unique_violation ''wallet_ledger_entry_pkey'')
               else if list_ex (\<lambda>r. lr_transactionID r = lr_transactionID row \<and> lr_walletID r = lr_walletID row)
                      (db_ledger st)
               then Inl (unique_violation ''wallet_ledger_entry_transaction_key'')
               else if \<not> list_ex (\<lambda>t. tr_id t = lr_transactionID row \<and> tr_walletID t = lr_walletID row)
                      (db_transactions st)
               then Inl (foreign_key_violation ''wallet_ledger_entry_transaction_fkey'')
               else Inr (st\<lparr>db_ledger := db_ledger st @ [row]\<rparr>)))"

section \<open>The two doors\<close>

text \<open>The CHECK rules of a wallet.\<close>

definition wallet_checks :: "wallet_row \<Rightarrow> driver_error option" where
  "wallet_checks row =
     (if wr_balance row <s 0 then Some (check_violation ''wallet_balance_is_never_negative'')
      else if wr_version row <s 1 then Some (check_violation ''wallet_version_starts_at_one'')
      else if wr_updatedAt row < wr_createdAt row
      then Some (check_violation ''wallet_updated_at_follows_created_at'')
      else None)"

definition insert_wallet :: "wallet_row \<Rightarrow> store \<Rightarrow> driver_error + store" where
  "insert_wallet row st =
     (case wallet_checks row of
        Some err \<Rightarrow> Inl err
      | None \<Rightarrow>
          if list_ex (\<lambda>r. wr_id r = wr_id row) (db_wallets st) then Inl (unique_violation ''wallet_pkey'')
          else if list_ex (\<lambda>r. wr_playerID r = wr_playerID row \<and> wr_currency r = wr_currency row) (db_wallets st)
          then Inl (unique_violation ''wallet_player_currency_key'')
          else Inr (st\<lparr>db_wallets := db_wallets st @ [row]\<rparr>))"

text \<open>Running one statement of a door: an error of the driver goes through \<^verbatim>\<open>fail\<close>.\<close>

definition exec :: "(store \<Rightarrow> driver_error + 'a) \<Rightarrow> store \<Rightarrow> 'a eres" where
  "exec stmt st = (case stmt st of Inl err \<Rightarrow> Inl (pg_fail err) | Inr a \<Rightarrow> Inr a)"

definition writer_open :: "wallet \<Rightarrow> outcome \<Rightarrow> string \<Rightarrow> store \<Rightarrow> store eres" where
  "writer_open w out correlation st =
     bindE (exec (insert_wallet (walletArgs w)) st) (\<lambda>st.
       case o_Transaction out of
         None \<Rightarrow> Inr st
       | Some tx \<Rightarrow>
           bindE (exec (encoded (snapshotOf tx)
                   (insert_transaction (transactionArgs (snapshotOf tx) correlation zero_time))) st) (\<lambda>st.
             case o_LedgerEntry out of
               None \<Rightarrow> Inl adapter_error
             | Some e \<Rightarrow> exec (insert_ledger_entry (ledgerArgs e)) st))"

definition nullableResolvedReference :: "transaction_snapshot \<Rightarrow> uuid option" where
  "nullableResolvedReference snap =
     (case s_External snap of
        None \<Rightarrow> nullableUUIDOf 0
      | Some x \<Rightarrow> nullableUUIDOf (xs_ResolvedReferenceID x))"

text \<open>The columns a settlement writes.\<close>

definition settled_row :: "transaction_snapshot \<Rightarrow> instant \<Rightarrow> transaction_row \<Rightarrow> transaction_row" where
  "settled_row snap nextAttemptAt r =
     r\<lparr>tr_status := Status_String (s_Status snap), tr_result := nullableMinorOf (s_Result snap),
       tr_failureCode := textOf (code_String (s_FailureCode snap)),
       tr_resolvedReference := nullableResolvedReference snap,
       tr_attempts := word_of_int (s_ReferenceAttempts snap), tr_deadline := timeOf (s_ReferenceDeadline snap),
       tr_nextAttemptAt := timeOf nextAttemptAt, tr_updatedAt := micros (s_UpdatedAt snap)\<rparr>"

text \<open>The guard of a wallet update, over the columns a movement changes.\<close>

definition wallet_guard :: "wallet_row \<Rightarrow> wallet_row \<Rightarrow> driver_error option" where
  "wallet_guard old new =
     (if wr_balance new \<noteq> wr_balance old then
        (if wr_version new \<noteq> wr_version old + 1 then Some (raised ''wallet_version_advances_by_one'')
         else if wr_updatedAt new \<le> wr_updatedAt old then Some (raised ''wallet_clock_moves_forward'')
         else None)
      else if wr_version new \<noteq> wr_version old
      then Some (raised ''wallet_version_advances_only_with_the_balance'')
      else None)"

definition move_wallet :: "ledger_entry \<Rightarrow> store \<Rightarrow> driver_error + nat \<times> store" where
  "move_wallet e st =
     (let hit = (\<lambda>r. wr_id r = uuidOf (le_walletID e) \<and> wr_version r = le_walletVersion e - 1);
          new = (\<lambda>r. r\<lparr>wr_balance := minorOf (le_balanceAfter e), wr_version := le_walletVersion e,
                       wr_updatedAt := micros (le_createdAt e)\<rparr>)
      in case find hit (db_wallets st) of
           None \<Rightarrow> Inr (0, st)
         | Some old \<Rightarrow>
             (case wallet_guard old (new old) of
                Some err \<Rightarrow> Inl err
              | None \<Rightarrow>
                  (case wallet_checks (new old) of
                     Some err \<Rightarrow> Inl err
                   | None \<Rightarrow>
                       Inr (1, st\<lparr>db_wallets := map (\<lambda>r. if hit r then new r else r) (db_wallets st)\<rparr>))))"

definition writer_settle :: "outcome \<Rightarrow> instant \<Rightarrow> store \<Rightarrow> store eres" where
  "writer_settle out nextAttemptAt st =
     (case o_Transaction out of
        None \<Rightarrow> Inl adapter_error
      | Some tx \<Rightarrow>
          (let snap = snapshotOf tx
           in bindE (exec (encoded snap (update_transaction (s_ID snap) (settled_row snap nextAttemptAt))) st) (\<lambda>(n, st).
                if n = 0 then Inl adapter_error
                else case o_LedgerEntry out of
                       None \<Rightarrow> Inr st
                     | Some e \<Rightarrow>
                         bindE (exec (move_wallet e) st) (\<lambda>(n, st).
                           if n = 0 then Inl (AsRetryable (Wrapped [Sentinel ErrLostUpdate]))
                           else exec (insert_ledger_entry (ledgerArgs e)) st))))"

section \<open>Inbox and outbox\<close>

record inbox_key =
  ik_Consumer :: string
  ik_MessageID :: string

record inbox_message =
  im_Consumer :: string
  im_MessageID :: string
  im_BodyHash :: string

definition InboxMessage_Key :: "inbox_message \<Rightarrow> inbox_key" where
  "InboxMessage_Key m = \<lparr>ik_Consumer = im_Consumer m, ik_MessageID = im_MessageID m\<rparr>"

definition Inbox_Find :: "inbox_key \<Rightarrow> store \<Rightarrow> inbox_row option eres" where
  "Inbox_Find k st =
     Inr (find (\<lambda>r. ir_consumer r = ik_Consumer k \<and> ir_messageID r = ik_MessageID k) (db_inbox st))"

definition insert_inbox :: "inbox_row \<Rightarrow> store \<Rightarrow> driver_error + store" where
  "insert_inbox row st =
     (if \<not> opaque_id (ir_consumer row) \<or> \<not> opaque_id (ir_messageID row)
      then Inl (check_violation ''opaque_id_is_bounded_and_untrimmed'')
      else if list_ex (\<lambda>r. ir_consumer r = ir_consumer row \<and> ir_messageID r = ir_messageID row) (db_inbox st)
      then Inl (unique_violation ''inbox_pkey'')
      else Inr (st\<lparr>db_inbox := db_inbox st @ [row]\<rparr>))"

definition Inbox_Record :: "inbox_message \<Rightarrow> instant \<Rightarrow> store \<Rightarrow> store eres" where
  "Inbox_Record m at st =
     exec (insert_inbox \<lparr>ir_consumer = im_Consumer m, ir_messageID = im_MessageID m,
       ir_bodyHash = im_BodyHash m, ir_receivedAt = micros at, ir_completedAt = Some (micros at)\<rparr>) st"

text \<open>
  An envelope becomes a row with the next number of its wallet, which a trigger assigns, and
  the next number of the table.
\<close>

definition insert_outbox :: "envelope \<Rightarrow> store \<Rightarrow> driver_error + store" where
  "insert_outbox env st =
     (let n = db_sequences st (en_AggregateID env) + 1
      in if list_ex (\<lambda>r. en_EventID (or_envelope r) = en_EventID env) (db_outbox st)
         then Inl (unique_violation ''outbox_pkey'')
         else if \<not> list_ex (\<lambda>w. wr_id w = uuidOf (en_AggregateID env)) (db_wallets st)
         then Inl (foreign_key_violation ''outbox_aggregate_fkey'')
         else Inr (st\<lparr>db_outbox := db_outbox st @
                [\<lparr>or_envelope = env, or_sequence = length (db_outbox st) + 1, or_aggregateSequence = n,
                  or_attempts = 0, or_nextAttemptAt = micros (en_OccurredAt env),
                  or_claimedBy = None, or_claimedAt = None, or_claimExpiresAt = None, or_publishedAt = None\<rparr>],
              db_sequences := (db_sequences st)(en_AggregateID env := n)\<rparr>))"

fun Outbox_Append :: "envelope list \<Rightarrow> store \<Rightarrow> store eres" where
  "Outbox_Append [] st = Inr st"
| "Outbox_Append (env # envs) st =
     (case exec (insert_outbox env) st of
        Inl err \<Rightarrow> Inl err
      | Inr st' \<Rightarrow> Outbox_Append envs st')"

section \<open>Transactions of the database\<close>

text \<open>The deferred check of a wallet against its ledger.\<close>

definition wallet_matches_ledger :: "store \<Rightarrow> wallet_row \<Rightarrow> driver_error option" where
  "wallet_matches_ledger st w =
     (case last_entry (wr_id w) st of
        None \<Rightarrow>
          if wr_balance w \<noteq> 0 \<or> wr_version w \<noteq> 1
          then Some (raised ''wallet_with_no_ledger_holds_nothing'') else None
      | Some e \<Rightarrow>
          if wr_balance w \<noteq> lr_balanceAfter e \<or> wr_version w \<noteq> lr_walletVersion e
          then Some (raised ''wallet_matches_its_ledger'') else None)"

text \<open>The wallets a transaction wrote or wrote an entry for.\<close>

definition touched :: "store \<Rightarrow> store \<Rightarrow> wallet_row list" where
  "touched st st' =
     filter (\<lambda>w. w \<notin> set (db_wallets st)
       \<or> filter (\<lambda>e. lr_walletID e = wr_id w) (db_ledger st')
           \<noteq> filter (\<lambda>e. lr_walletID e = wr_id w) (db_ledger st))
       (db_wallets st')"

definition commit_violation :: "store \<Rightarrow> store \<Rightarrow> driver_error option" where
  "commit_violation st st' = first_some (map (wallet_matches_ledger st') (touched st st'))"

definition WithinMovement :: "(store \<Rightarrow> ('a \<times> store) eres) \<Rightarrow> store \<Rightarrow> 'a eres \<times> store" where
  "WithinMovement fn st =
     (case fn st of
        Inl err \<Rightarrow> (Inl err, st)
      | Inr (a, st') \<Rightarrow>
          (case commit_violation st st' of
             Some err \<Rightarrow> (Inl (pg_fail err), st)
           | None \<Rightarrow> (Inr a, st')))"

definition WithinSnapshot :: "(store \<Rightarrow> 'a eres) \<Rightarrow> store \<Rightarrow> 'a eres" where
  "WithinSnapshot fn st = fn st"

end
