(* ===== verification/Principal.thy ===== *)
theory Principal
  imports AppErrors
begin

text \<open>
  Who may do what (\<^verbatim>\<open>src/internal/app/principal.go\<close>). The kind of a principal is a Go string
  type with two constants; \<open>NoPrincipal\<close> is the empty one of a principal nobody built. A
  provider and a subject are strings, trimmed of Unicode spaces to see whether they are
  blank; bytes that are not valid UTF-8 are no spaces.
\<close>

datatype principal_kind = ProviderPrincipal | ServicePrincipal | NoPrincipal

record principal =
  pr_kind :: principal_kind
  pr_provider :: provider
  pr_subject :: string

definition zero_principal :: principal where
  "zero_principal = \<lparr>pr_kind = NoPrincipal, pr_provider = [], pr_subject = []\<rparr>"

definition blank :: "string \<Rightarrow> bool" where
  "blank s = (case runes s of None \<Rightarrow> False | Some rs \<Rightarrow> TrimSpace rs = [])"

definition NewProviderPrincipal :: "provider \<Rightarrow> string \<Rightarrow> principal eres" where
  "NewProviderPrincipal p subject =
     (if blank p then Inl unauthorized
      else if blank subject then Inl unauthorized
      else Inr \<lparr>pr_kind = ProviderPrincipal, pr_provider = p, pr_subject = subject\<rparr>)"

definition NewServicePrincipal :: "string \<Rightarrow> principal eres" where
  "NewServicePrincipal subject =
     (if blank subject then Inl unauthorized
      else Inr \<lparr>pr_kind = ServicePrincipal, pr_provider = [], pr_subject = subject\<rparr>)"

definition Principal_Provider :: "principal \<Rightarrow> provider option" where
  "Principal_Provider p = (if pr_kind p \<noteq> ProviderPrincipal then None else Some (pr_provider p))"

definition MaySubmitAs :: "principal \<Rightarrow> provider \<Rightarrow> unit eres" where
  "MaySubmitAs p q =
     (if pr_kind p \<noteq> ProviderPrincipal then Inl unauthorized
      else if pr_provider p \<noteq> q then Inl unauthorized
      else Inr ())"

definition MayReadAs :: "principal \<Rightarrow> provider \<Rightarrow> unit eres" where
  "MayReadAs p q =
     (case pr_kind p of
        ServicePrincipal \<Rightarrow> Inr ()
      | ProviderPrincipal \<Rightarrow> if pr_provider p \<noteq> q then Inl unauthorized else Inr ()
      | NoPrincipal \<Rightarrow> Inl unauthorized)"

definition MayAdministerWallets :: "principal \<Rightarrow> unit eres" where
  "MayAdministerWallets p = (if pr_kind p \<noteq> ServicePrincipal then Inl unauthorized else Inr ())"

definition MayResume :: "principal \<Rightarrow> unit eres" where
  "MayResume p = (if pr_kind p \<noteq> ServicePrincipal then Inl unauthorized else Inr ())"

section \<open>Facts\<close>

lemma MaySubmitAs_Inr_iff [simp]:
  "MaySubmitAs p q = Inr u \<longleftrightarrow> Principal_Provider p = Some q"
  by (auto simp: MaySubmitAs_def Principal_Provider_def)

lemma MayReadAs_Inr_iff [simp]:
  "MayReadAs p q = Inr u \<longleftrightarrow> pr_kind p = ServicePrincipal \<or> Principal_Provider p = Some q"
  by (auto simp: MayReadAs_def Principal_Provider_def split: principal_kind.split)

lemma MayAdministerWallets_Inr_iff [simp]:
  "MayAdministerWallets p = Inr u \<longleftrightarrow> pr_kind p = ServicePrincipal"
  by (simp add: MayAdministerWallets_def)

lemma MayResume_Inr_iff [simp]: "MayResume p = Inr u \<longleftrightarrow> pr_kind p = ServicePrincipal"
  by (simp add: MayResume_def)

lemma authority_refusal:
  "MaySubmitAs p q = Inl e \<Longrightarrow> e = unauthorized"
  "MayReadAs p q = Inl e \<Longrightarrow> e = unauthorized"
  "MayAdministerWallets p = Inl e \<Longrightarrow> e = unauthorized"
  "MayResume p = Inl e \<Longrightarrow> e = unauthorized"
  by (auto simp: MaySubmitAs_def MayReadAs_def MayAdministerWallets_def MayResume_def
      split: if_splits principal_kind.splits)

lemma no_authority_overlap:
  "MaySubmitAs p q = Inr u \<Longrightarrow> MayAdministerWallets p = Inl unauthorized \<and> MayResume p = Inl unauthorized"
  by (auto simp: Principal_Provider_def MayAdministerWallets_def MayResume_def split: if_splits)

end
