(* ===== verification/Backoff.thy ===== *)
theory Backoff
  imports AppErrors Complex_Main
begin

text \<open>
  When a parked operation is looked at again (\<^verbatim>\<open>src/internal/app/backoff.go\<close>).

  The delay is computed in floating point. A \<^verbatim>\<open>float64\<close> is a rational, an infinity or not a
  number; what Go leaves to the platform is a parameter: how a result is rounded (the compiler
  may fuse operations), the value of \<^verbatim>\<open>math.Pow\<close>, and the integer a conversion yields out of
  range. \<open>arith_ok\<close> states what every IEEE platform provides of these.
\<close>

section \<open>Floating point\<close>

datatype float64 = NaN | PosInf | NegInf | Num rat

record float_arith =
  fa_round :: "rat \<Rightarrow> float64"
  fa_pow :: "float64 \<Rightarrow> int \<Rightarrow> float64"
  fa_wild :: "float64 \<Rightarrow> int"

fun float_sgn :: "float64 \<Rightarrow> rat" where
  "float_sgn (Num a) = sgn a"
| "float_sgn PosInf = 1"
| "float_sgn NegInf = - 1"
| "float_sgn NaN = 0"

fun float_mul :: "float_arith \<Rightarrow> float64 \<Rightarrow> float64 \<Rightarrow> float64" where
  "float_mul fa (Num a) (Num b) = fa_round fa (a * b)"
| "float_mul fa NaN y = NaN"
| "float_mul fa x NaN = NaN"
| "float_mul fa x y =
     (let s = float_sgn x * float_sgn y
      in if s = 0 then NaN else if 0 < s then PosInf else NegInf)"

fun float_add :: "float_arith \<Rightarrow> float64 \<Rightarrow> float64 \<Rightarrow> float64" where
  "float_add fa (Num a) (Num b) = fa_round fa (a + b)"
| "float_add fa NaN y = NaN"
| "float_add fa x NaN = NaN"
| "float_add fa PosInf NegInf = NaN"
| "float_add fa NegInf PosInf = NaN"
| "float_add fa PosInf y = PosInf"
| "float_add fa NegInf y = NegInf"
| "float_add fa (Num a) y = y"

fun float_less :: "float64 \<Rightarrow> float64 \<Rightarrow> bool" where
  "float_less (Num a) (Num b) = (a < b)"
| "float_less NaN y = False"
| "float_less x NaN = False"
| "float_less NegInf y = (y \<noteq> NegInf)"
| "float_less PosInf y = False"
| "float_less (Num a) y = (y = PosInf)"

text \<open>The builtin \<^verbatim>\<open>min\<close>: not a number as soon as one argument is.\<close>

definition float_min :: "float64 \<Rightarrow> float64 \<Rightarrow> float64" where
  "float_min x y = (if x = NaN \<or> y = NaN then NaN else if float_less y x then y else x)"

text \<open>The conversion to a duration truncates towards zero where the result fits.\<close>

definition Duration_of :: "float_arith \<Rightarrow> float64 \<Rightarrow> duration" where
  "Duration_of fa x =
     (case x of
        Num a \<Rightarrow>
          (let n = (if 0 \<le> a then \<lfloor>a\<rfloor> else \<lceil>a\<rceil>)
           in if n \<in> int64_range then n else fa_wild fa x)
      | _ \<Rightarrow> fa_wild fa x)"

section \<open>The policy\<close>

record backoff_policy =
  bo_Initial :: duration
  bo_Factor :: float64
  bo_Max :: duration

definition backoff_validate :: "backoff_policy \<Rightarrow> unit eres" where
  "backoff_validate p =
     (if bo_Initial p \<le> 0 then Inl defect
      else if bo_Factor p = NaN then Inl defect
      else if float_less (bo_Factor p) (Num 1) then Inl defect
      else if bo_Max p < bo_Initial p then Inl defect
      else Inr ())"

definition jitterFraction :: "float_arith \<Rightarrow> float64" where
  "jitterFraction fa = fa_round fa (1 / 10)"

text \<open>The last eight bytes of an identifier, as a fraction below one.\<close>

definition jitterOf :: "float_arith \<Rightarrow> transaction_id \<Rightarrow> float64" where
  "jitterOf fa i =
     (let tail = unat i mod 2 ^ 64
      in fa_round fa (of_nat (tail mod 1000000) / 1000000))"

definition backoff_next ::
  "float_arith \<Rightarrow> backoff_policy \<Rightarrow> int \<Rightarrow> instant \<Rightarrow> instant \<Rightarrow> transaction_id \<Rightarrow> instant" where
  "backoff_next fa p attempts now deadline i =
     (let attempts = max attempts 1;
          scaled = float_mul fa (fa_round fa (of_int (bo_Initial p))) (fa_pow fa (bo_Factor p) (attempts - 1));
          delay = float_min scaled (fa_round fa (of_int (bo_Max p)));
          delay = float_mul fa delay
                    (float_add fa (Num 1) (float_mul fa (jitterFraction fa) (jitterOf fa i)));
          due = now + Duration_of fa delay
      in if deadline \<noteq> zero_time \<and> deadline < due then deadline else due)"

section \<open>What the schedule promises\<close>

text \<open>
  What the schedule needs of the platform: rounding a number of moderate size is monotone and
  yields a number, integers up to \<open>2 ^ 53\<close> are exact, and a power of a factor of at least one
  is at least one.
\<close>

definition arith_ok :: "float_arith \<Rightarrow> bool" where
  "arith_ok fa \<longleftrightarrow>
     (\<forall>x. 0 \<le> x \<longrightarrow> fa_round fa x = PosInf \<or> (\<exists>y. fa_round fa x = Num y))
     \<and> (\<forall>x. 0 \<le> x \<and> x \<le> 2 ^ 60 \<longrightarrow> fa_round fa x \<noteq> PosInf)
     \<and> (\<forall>x y a b. 0 \<le> x \<and> x \<le> y \<and> fa_round fa x = Num a \<and> fa_round fa y = Num b \<longrightarrow> a \<le> b)
     \<and> (\<forall>n. 0 \<le> n \<and> n \<le> 2 ^ 53 \<longrightarrow> fa_round fa (of_int n) = Num (of_int n))
     \<and> (\<forall>f n. \<not> float_less f (Num 1) \<and> f \<noteq> NaN \<and> 0 \<le> n \<longrightarrow>
          fa_pow fa f n = PosInf \<or> (\<exists>y \<ge> 1. fa_pow fa f n = Num y))"

lemma arith_exact: "arith_ok fa \<Longrightarrow> 0 \<le> n \<Longrightarrow> n \<le> 2 ^ 53 \<Longrightarrow> fa_round fa (of_int n) = Num (of_int n)"
  unfolding arith_ok_def by blast

lemma arith_number: "arith_ok fa \<Longrightarrow> 0 \<le> x \<Longrightarrow> fa_round fa x = PosInf \<or> (\<exists>y. fa_round fa x = Num y)"
  unfolding arith_ok_def by blast

lemma arith_finite: "arith_ok fa \<Longrightarrow> 0 \<le> x \<Longrightarrow> x \<le> 2 ^ 60 \<Longrightarrow> \<exists>y. fa_round fa x = Num y"
  unfolding arith_ok_def by blast

lemma arith_mono:
  "arith_ok fa \<Longrightarrow> 0 \<le> x \<Longrightarrow> x \<le> y \<Longrightarrow> fa_round fa x = Num a \<Longrightarrow> fa_round fa y = Num b \<Longrightarrow> a \<le> b"
  unfolding arith_ok_def by blast

lemma round_between:
  assumes "arith_ok fa" "0 \<le> m" "m \<le> 2 ^ 53" "of_int m \<le> x"
  shows "fa_round fa x = PosInf \<or> (\<exists>y. fa_round fa x = Num y \<and> of_int m \<le> y)"
proof -
  have m: "(0 :: rat) \<le> of_int m" using assms(2) by simp
  then have "0 \<le> x" using assms(4) by (rule order_trans)
  from arith_number [OF assms(1) this] show ?thesis
    using arith_mono [OF assms(1) m assms(4) arith_exact [OF assms(1-3)]] by blast
qed

lemma round_upper:
  assumes "arith_ok fa" "0 \<le> x" "x \<le> of_int m" "m \<le> 2 ^ 53"
  shows "\<exists>y. fa_round fa x = Num y \<and> y \<le> of_int m"
proof -
  have m: "0 \<le> m" using order_trans [OF assms(2,3)] by simp
  have "(of_int m :: rat) \<le> of_int (2 ^ 53)" using assms(4) by (simp only: of_int_le_iff)
  then have "x \<le> 2 ^ 60" using assms(3) by simp
  from arith_finite [OF assms(1,2) this] show ?thesis
    using arith_mono [OF assms(1,2,3)] arith_exact [OF assms(1) m assms(4)] by blast
qed

text \<open>The factor a delay is spread by lies between one and two.\<close>

lemma spread_between:
  assumes "arith_ok fa"
  shows "\<exists>s. float_add fa (Num 1) (float_mul fa (jitterFraction fa) (jitterOf fa i)) = Num s \<and> 1 \<le> s \<and> s \<le> 2"
proof -
  have "\<exists>y. fa_round fa x = Num y \<and> 0 \<le> y \<and> y \<le> 1" if "0 \<le> x" "x \<le> 1" for x
    using round_upper [OF assms that(1), of 1] round_between [OF assms, of 0 x] that by fastforce
  note unit = this
  obtain f where f: "jitterFraction fa = Num f" "0 \<le> f" "f \<le> 1"
    using unit [of "1 / 10"] by (auto simp: jitterFraction_def)
  have "0 \<le> (of_nat (n mod 1000000) :: rat) / 1000000 \<and> (of_nat (n mod 1000000) :: rat) / 1000000 \<le> 1" for n
  proof -
    have "n mod 1000000 \<le> 1000000" by simp
    then have "(of_nat (n mod 1000000) :: rat) \<le> 1000000" by (metis of_nat_le_iff of_nat_numeral)
    then show ?thesis by simp
  qed
  then obtain j where j: "jitterOf fa i = Num j" "0 \<le> j" "j \<le> 1"
    using unit [of "of_nat (unat i mod 2 ^ 64 mod 1000000) / 1000000"] by (auto simp: jitterOf_def Let_def)
  obtain q where q: "fa_round fa (f * j) = Num q" "0 \<le> q" "q \<le> 1"
    using unit [of "f * j"] f j by (auto simp: mult_le_one)
  have "\<exists>s. fa_round fa (1 + q) = Num s \<and> s \<le> 2"
    using round_upper [OF assms, of "1 + q" 2] q by auto
  moreover have "fa_round fa (1 + q) = Num s \<Longrightarrow> 1 \<le> s" for s
    using round_between [OF assms, of 1 "1 + q"] q by auto
  ultimately show ?thesis using f j q by auto
qed

lemma scaled_at_least:
  assumes "arith_ok fa" "backoff_validate p = Inr ()" "bo_Initial p \<le> 2 ^ 53" "0 \<le> n"
  shows "float_mul fa (fa_round fa (of_int (bo_Initial p))) (fa_pow fa (bo_Factor p) n) = PosInf
    \<or> (\<exists>y. float_mul fa (fa_round fa (of_int (bo_Initial p))) (fa_pow fa (bo_Factor p) n) = Num y
          \<and> of_int (bo_Initial p) \<le> y)"
proof -
  let ?i = "of_int (bo_Initial p) :: rat"
  have i: "0 < bo_Initial p" "0 < ?i" and f: "bo_Factor p \<noteq> NaN" "\<not> float_less (bo_Factor p) (Num 1)"
    using assms(2) by (auto simp: backoff_validate_def split: if_splits)
  have r: "fa_round fa ?i = Num ?i" using assms(1,3) i unfolding arith_ok_def by simp
  consider "fa_pow fa (bo_Factor p) n = PosInf" | y where "fa_pow fa (bo_Factor p) n = Num y" "1 \<le> y"
    using assms(1,4) f unfolding arith_ok_def by blast
  then show ?thesis
  proof cases
    case 1
    with i show ?thesis by (simp add: r Let_def)
  next
    case 2
    then have "?i \<le> ?i * y" using i by simp
    with round_between [OF assms(1), of "bo_Initial p" "?i * y"] 2 i assms(3) show ?thesis
      by (auto simp: r)
  qed
qed

lemma float_min_Num:
  assumes "x = PosInf \<or> (\<exists>y. x = Num y \<and> l \<le> y)" "l \<le> u"
  shows "\<exists>m. float_min x (Num u) = Num m \<and> l \<le> m \<and> m \<le> u"
  using assms by (auto simp: float_min_def)

lemma delay_between:
  assumes "arith_ok fa" "backoff_validate p = Inr ()" "bo_Max p \<le> 2 ^ 52" "0 \<le> n"
  shows "\<exists>d. float_mul fa
      (float_min (float_mul fa (fa_round fa (of_int (bo_Initial p))) (fa_pow fa (bo_Factor p) n))
        (fa_round fa (of_int (bo_Max p))))
      (float_add fa (Num 1) (float_mul fa (jitterFraction fa) (jitterOf fa i))) = Num d
    \<and> of_int (bo_Initial p) \<le> d \<and> d \<le> of_int (2 * bo_Max p)"
proof -
  have v: "0 < bo_Initial p" "bo_Initial p \<le> bo_Max p"
    using assms(2) by (auto simp: backoff_validate_def split: if_splits)
  have small: "bo_Max p \<le> 2 ^ 53" "bo_Initial p \<le> 2 ^ 53" using assms(3) v by auto
  have mx: "fa_round fa (of_int (bo_Max p)) = Num (of_int (bo_Max p))"
    using assms(1) small v unfolding arith_ok_def by simp
  obtain m where m: "float_min (float_mul fa (fa_round fa (of_int (bo_Initial p))) (fa_pow fa (bo_Factor p) n))
      (Num (of_int (bo_Max p))) = Num m" "of_int (bo_Initial p) \<le> m" "m \<le> of_int (bo_Max p)"
    using float_min_Num [OF scaled_at_least [OF assms(1,2) small(2) assms(4)], of "of_int (bo_Max p)"] v(2)
    by auto
  obtain s where s: "float_add fa (Num 1) (float_mul fa (jitterFraction fa) (jitterOf fa i)) = Num s" "1 \<le> s" "s \<le> 2"
    using spread_between [OF assms(1), of i] by blast
  have i: "(0 :: rat) \<le> of_int (bo_Initial p)" using v by simp
  have m0: "0 \<le> m" using i m(2) by (rule order_trans)
  have "of_int (bo_Initial p) \<le> m * s"
    using m(2) m0 s(2) mult_left_mono [of 1 s m] by simp
  moreover have "m * s \<le> of_int (2 * bo_Max p)"
    using mult_mono [OF m(3) s(3)] m0 s(2) v by simp
  moreover have "0 \<le> m * s" using m0 s(2) by simp
  moreover have "2 * bo_Max p \<le> 2 ^ 53" using assms(3) by simp
  ultimately obtain d where "fa_round fa (m * s) = Num d" "d \<le> of_int (2 * bo_Max p)" "of_int (bo_Initial p) \<le> d"
    using round_upper [OF assms(1), of "m * s" "2 * bo_Max p"]
      round_between [OF assms(1), of "bo_Initial p" "m * s"] v small by auto
  then show ?thesis by (simp add: mx m s)
qed

lemma next_within:
  assumes "arith_ok fa" "backoff_validate p = Inr ()" "bo_Max p \<le> 2 ^ 52"
    and "deadline = zero_time \<or> now < deadline"
  shows "\<exists>due. now + bo_Initial p \<le> due \<and> due \<le> now + 2 * bo_Max p
    \<and> backoff_next fa p attempts now deadline i = (if deadline \<noteq> zero_time then min due deadline else due)"
proof -
  obtain d where d: "float_mul fa
      (float_min (float_mul fa (fa_round fa (of_int (bo_Initial p))) (fa_pow fa (bo_Factor p) (max attempts 1 - 1)))
        (fa_round fa (of_int (bo_Max p))))
      (float_add fa (Num 1) (float_mul fa (jitterFraction fa) (jitterOf fa i))) = Num d"
    "of_int (bo_Initial p) \<le> d" "d \<le> of_int (2 * bo_Max p)"
    using delay_between [OF assms(1-3), of "max attempts 1 - 1" i] max.cobounded2 [of 1 attempts]
    by (fastforce simp only: diff_ge_0_iff_ge)
  have v: "0 < bo_Initial p" using assms(2) by (auto simp: backoff_validate_def split: if_splits)
  have "bo_Initial p \<le> \<lfloor>d\<rfloor>" using d(2) by (simp add: le_floor_iff)
  moreover have "\<lfloor>d\<rfloor> \<le> 2 * bo_Max p" using floor_mono [OF d(3)] by (simp only: floor_of_int)
  moreover have "(0 :: rat) \<le> d" using d(2) v by (meson less_imp_le of_int_0_le_iff order_trans)
  moreover have "\<lfloor>d\<rfloor> \<in> int64_range" 
  proof -
    have "n \<in> int64_range" if "bo_Initial p \<le> n" "n \<le> 2 * bo_Max p" for n
      using that v assms(3) by (simp add: int64_range_def)
    with calculation(1,2) show ?thesis by blast
  qed
  ultimately have "now + bo_Initial p \<le> now + \<lfloor>d\<rfloor>" "now + \<lfloor>d\<rfloor> \<le> now + 2 * bo_Max p"
    "backoff_next fa p attempts now deadline i =
      (if deadline \<noteq> zero_time then min (now + \<lfloor>d\<rfloor>) deadline else now + \<lfloor>d\<rfloor>)"
    by (auto simp: backoff_next_def d(1) Duration_of_def Let_def)
  then show ?thesis by blast
qed

text \<open>
  The schedule of a parked operation is sound for every policy that passes validation: the
  next look is never before the initial delay has passed, so a parked operation is never
  polled in a loop; it comes within twice the maximum delay; and it is cut off at the deadline
  of the wait, so an operation whose time has run out is looked at when it runs out. This holds
  on any platform whose floating point satisfies \<open>arith_ok\<close>, for delays up to \<open>2 ^ 52\<close>
  nanoseconds.
\<close>

theorem backoff_schedule:
  assumes "arith_ok fa" "backoff_validate p = Inr ()" "bo_Max p \<le> 2 ^ 52"
    and "deadline = zero_time \<or> now < deadline"
  shows "\<exists>due. now + bo_Initial p \<le> due \<and> due \<le> now + 2 * bo_Max p
    \<and> backoff_next fa p attempts now deadline i = (if deadline \<noteq> zero_time then min due deadline else due)"
  by (rule next_within [OF assms])

text \<open>A platform with exact arithmetic, for examples.\<close>

definition exact_arith :: float_arith where
  "exact_arith =
     \<lparr>fa_round = Num,
      fa_pow = (\<lambda>f n. case f of Num a \<Rightarrow> Num (a ^ nat n) | _ \<Rightarrow> if n = 0 then Num 1 else f),
      fa_wild = (\<lambda>_. 0)\<rparr>"

lemma exact_arith_ok: "arith_ok exact_arith"
proof -
  have "fa_pow exact_arith f n = PosInf \<or> (\<exists>y \<ge> 1. fa_pow exact_arith f n = Num y)"
    if "\<not> float_less f (Num 1)" "f \<noteq> NaN" for f n
    using that by (cases f) (auto simp: exact_arith_def one_le_power)
  then show ?thesis by (auto simp: arith_ok_def exact_arith_def)
qed

theorem backoff_schedule_witness:
  "\<exists>due. 1000 + 5 \<le> due \<and> due \<le> 1000 + 2 * 40
     \<and> backoff_next exact_arith \<lparr>bo_Initial = 5, bo_Factor = Num 2, bo_Max = 40\<rparr> 3 1000 1010 7 = min due 1010"
  using backoff_schedule [OF exact_arith_ok, of "\<lparr>bo_Initial = 5, bo_Factor = Num 2, bo_Max = 40\<rparr>" 1010 1000 3 7]
  by (simp add: backoff_validate_def)

end
