(* ===== verification/UseCases.thy ===== *)
theory UseCases
  imports Postgres Principal Backoff
begin

text \<open>
  The wagering use cases (\<^verbatim>\<open>src/internal/app/wagering.go\<close>, the values of \<^verbatim>\<open>command.go\<close>):
  submitting an operation, carrying a parked one forward, and reading one back.

  A use case is a function of the service, the identifiers it mints, the instants its clock
  reads, its argument and the store, to its answer and the store it leaves. A movement
  transaction runs under READ COMMITTED: statements before the wallet lock may each see a
  different committed state, and what commits in between is other transactions' work. So a
  submission takes the state each such statement sees (\<open>views\<close>), and everything after the
  lock, its writes included, applies to \<open>vw_move\<close>. A submission nothing races has equal views.
\<close>

section \<open>Values\<close>

record operation_fields =
  of_Provider :: string
  of_ExternalTransactionID :: string
  of_IdempotencyKey :: string
  of_PlayerID :: string
  of_WalletID :: string
  of_RoundID :: string
  of_GameID :: string
  of_Kind :: string
  of_Amount :: string
  of_Currency :: string
  of_ReferenceExternalTransactionID :: string

record submit_operation =
  sb_Principal :: principal
  sb_Correlation :: string
  sb_Inbox :: "inbox_message option"
  sb_Fields :: operation_fields

record operation_result =
  res_TransactionID :: transaction_id
  res_ExternalTransactionID :: external_id
  res_WalletID :: wallet_id
  res_ProviderID :: provider
  res_Kind :: kind
  res_Status :: status
  res_Money :: money
  res_Balance :: "money option"
  res_FailureCode :: code
  res_IdempotentReplay :: bool

record resume_outcome =
  ro_Claimed :: bool
  ro_Result :: "operation_result option"
  ro_Rescheduled :: bool
  ro_NextAttemptAt :: instant
  ro_Woke :: nat
  ro_Correlation :: string

definition no_resume :: resume_outcome where
  "no_resume =
     \<lparr>ro_Claimed = False, ro_Result = None, ro_Rescheduled = False, ro_NextAttemptAt = zero_time,
      ro_Woke = 0, ro_Correlation = []\<rparr>"

text \<open>The identifiers one call mints: at most one of each, and one per event.\<close>

record ids =
  id_Wallet :: wallet_id
  id_Transaction :: transaction_id
  id_LedgerEntry :: ledger_entry_id
  id_Event :: "nat \<Rightarrow> event_id"

record wagering =
  wg_processor :: processor
  wg_backoff :: backoff_policy
  wg_arith :: float_arith

text \<open>The dependencies a service is built from; a nil one is \<open>None\<close>.\<close>

record wagering_deps =
  wd_Tx :: "unit option"
  wd_Processor :: "processor option"
  wd_Clock :: "unit option"
  wd_IDs :: "unit option"
  wd_Backoff :: backoff_policy
  wd_Defects :: "unit option"

definition NewWagering :: "float_arith \<Rightarrow> wagering_deps \<Rightarrow> wagering eres" where
  "NewWagering fa d =
     (if wd_Tx d = None then Inl defect
      else case wd_Processor d of
             None \<Rightarrow> Inl defect
           | Some p \<Rightarrow>
               if wd_Clock d = None then Inl defect
               else if wd_IDs d = None then Inl defect
               else if wd_Defects d = None then Inl defect
               else bindE (backoff_validate (wd_Backoff d)) (\<lambda>_.
                 Inr \<lparr>wg_processor = p, wg_backoff = wd_Backoff d, wg_arith = fa\<rparr>))"

record views =
  vw_inbox :: store
  vw_key :: store
  vw_external :: store
  vw_move :: store
  vw_resolve :: store

definition alone :: "store \<Rightarrow> views" where
  "alone st = \<lparr>vw_inbox = st, vw_key = st, vw_external = st, vw_move = st, vw_resolve = st\<rparr>"

section \<open>The clock\<close>

text \<open>
  The clock the process runs on (\<^verbatim>\<open>src/internal/fxmod/ports.go\<close>), of the time it is: whole
  microseconds, because that is what a column keeps. \<open>clock_time\<close> is a reading of it, at some
  time after Go's zero time.
\<close>

definition systemClock_Now :: "instant \<Rightarrow> instant" where
  "systemClock_Now t = t - t mod 1000"

definition clock_time :: "instant \<Rightarrow> bool" where
  "clock_time now \<longleftrightarrow> 0 < now \<and> systemClock_Now now = now"

lemma clock_timeD:
  assumes "clock_time now"
  shows "0 < now" "now \<noteq> 0" "whole now" "0 < kept now"
proof -
  show "0 < now" "now \<noteq> 0" using assms by (simp_all add: clock_time_def)
  show "whole now" using assms by (simp add: clock_time_def systemClock_Now_def whole_literal)
  then show "0 < kept now" using \<open>0 < now\<close> by simp
qed

lemma clock_time_reading: "0 < systemClock_Now t \<Longrightarrow> clock_time (systemClock_Now t)"
  by (simp add: clock_time_def systemClock_Now_def minus_mod_eq_mult_div)

section \<open>Reading a submission\<close>

text \<open>A domain refusal, classified.\<close>

definition classified :: "'a res \<Rightarrow> 'a eres" where
  "classified m = (case m of Inl f \<Rightarrow> Inl (classify (DomainErr f)) | Inr a \<Rightarrow> Inr a)"

definition Wagering_command ::
  "(string \<Rightarrow> uuid option) \<Rightarrow> ids \<Rightarrow> operation_fields \<Rightarrow> provider \<Rightarrow> command eres" where
  "Wagering_command uuid_Parse ids f p =
     bindE (classified (ParseKind (of_Kind f))) (\<lambda>kind.
     bindE (classified (NewExternalTransactionID (of_ExternalTransactionID f))) (\<lambda>external.
     bindE (classified (NewIdempotencyKey (of_IdempotencyKey f))) (\<lambda>key.
     bindE (classified (NewPlayerID (of_PlayerID f))) (\<lambda>player.
     bindE (classified (ParseWalletID uuid_Parse (of_WalletID f))) (\<lambda>wallet.
     bindE (classified (NewRoundID (of_RoundID f))) (\<lambda>round.
     bindE (classified (NewGameID (of_GameID f))) (\<lambda>game.
     bindE (classified (Money_Parse (of_Amount f) (of_Currency f))) (\<lambda>amount.
     bindE (if of_ReferenceExternalTransactionID f \<noteq> []
            then classified (NewExternalTransactionID (of_ReferenceExternalTransactionID f))
            else Inr []) (\<lambda>reference.
     Inr \<lparr>c_TransactionID = id_Transaction ids,
          c_LedgerEntryID = (if MovesMoney kind then id_LedgerEntry ids else 0),
          c_WalletID = wallet, c_Provider = p, c_ExternalTransactionID = external,
          c_IdempotencyKey = key, c_PlayerID = player, c_RoundID = round, c_GameID = game,
          c_Kind = kind, c_Money = amount, c_ReferenceExternalTransactionID = reference\<rparr>)))))))))"

definition resultOf :: "wager_transaction \<Rightarrow> bool \<Rightarrow> operation_result" where
  "resultOf tx replay =
     \<lparr>res_TransactionID = tx_id tx,
      res_ExternalTransactionID = textFrom (Tx_ExternalTransactionID tx),
      res_WalletID = tx_walletID tx, res_ProviderID = textFrom (Tx_Provider tx),
      res_Kind = tx_kind tx, res_Status = tx_status tx, res_Money = tx_amount tx,
      res_Balance = Tx_Result tx,
      res_FailureCode = (case Tx_FailureCode tx of None \<Rightarrow> no_code | Some c \<Rightarrow> c),
      res_IdempotentReplay = replay\<rparr>"

section \<open>Replays\<close>

definition replayOf :: "stored_transaction \<Rightarrow> payload_hash \<Rightarrow> operation_result eres" where
  "replayOf stored hash =
     (case AssertSamePayload hash (st_Transaction stored) of
        Inl f \<Rightarrow>
          if \<not> failure_Is f IdempotencyPayloadConflict
          then Inl (newError Unretryable no_code (Some (DomainErr f)))
          else Inl (conflict IdempotencyPayloadConflict (Some (DomainErr f)))
      | Inr _ \<Rightarrow> Inr (resultOf (st_Transaction stored) True))"

definition replay :: "store \<Rightarrow> store \<Rightarrow> command \<Rightarrow> payload_hash \<Rightarrow> operation_result option eres" where
  "replay st_key st_external cmd hash =
     bindE (ByIdempotencyKey (c_Provider cmd) (c_IdempotencyKey cmd) st_key) (\<lambda>existing.
       case existing of
         Some stored \<Rightarrow> bindE (replayOf stored hash) (\<lambda>r. Inr (Some r))
       | None \<Rightarrow>
           bindE (ByExternal (c_Provider cmd) (c_ExternalTransactionID cmd) st_external) (\<lambda>other.
             case other of
               None \<Rightarrow> Inr None
             | Some stored \<Rightarrow>
                 if Tx_IdempotencyKey (st_Transaction stored) = Some (c_IdempotencyKey cmd)
                 then bindE (replayOf stored hash) (\<lambda>r. Inr (Some r))
                 else Inl (conflict no_code None)))"

definition resolveDuplicate :: "store \<Rightarrow> command \<Rightarrow> payload_hash \<Rightarrow> operation_result eres" where
  "resolveDuplicate st cmd hash =
     (case WithinSnapshot (\<lambda>st.
        bindE (replay st st cmd hash) (\<lambda>settled.
          case settled of None \<Rightarrow> Inl defect | Some r \<Rightarrow> Inr r)) st of
        Inl err \<Rightarrow> Inl (classify err)
      | Inr r \<Rightarrow> Inr r)"

section \<open>Committing an outcome\<close>

fun envelopes_from :: "ids \<Rightarrow> nat \<Rightarrow> event list \<Rightarrow> trace \<Rightarrow> instant \<Rightarrow> envelope list eres" where
  "envelopes_from ids n [] trace now = Inr []"
| "envelopes_from ids n (ev # evs) trace now =
     (case NewEnvelope (Some ev) (id_Event ids n) trace now of
        Inl err \<Rightarrow> Inl err
      | Inr env \<Rightarrow>
          (case envelopes_from ids (Suc n) evs trace now of
             Inl err \<Rightarrow> Inl err
           | Inr envs \<Rightarrow> Inr (env # envs)))"

definition envelopesFor :: "ids \<Rightarrow> event list \<Rightarrow> trace \<Rightarrow> instant \<Rightarrow> envelope list eres" where
  "envelopesFor ids events trace now = envelopes_from ids 0 events trace now"

definition emit :: "ids \<Rightarrow> event list \<Rightarrow> trace \<Rightarrow> instant \<Rightarrow> store \<Rightarrow> store eres" where
  "emit ids events trace now st =
     bindE (envelopesFor ids events trace now) (\<lambda>envelopes.
       if envelopes = [] then Inr st else Outbox_Append envelopes st)"

definition causationOf :: "submit_operation \<Rightarrow> string" where
  "causationOf cmd = (case sb_Inbox cmd of None \<Rightarrow> [] | Some m \<Rightarrow> im_MessageID m)"

text \<open>When a transaction is looked at next: a schedule exactly while it waits.\<close>

definition next_attempt :: "wagering \<Rightarrow> wager_transaction \<Rightarrow> instant \<Rightarrow> instant" where
  "next_attempt svc tx now =
     (if tx_status tx = PendingReference
      then backoff_next (wg_arith svc) (wg_backoff svc) (tx_referenceAttempts tx) now
             (flaggedTime (Tx_ReferenceDeadline tx)) (tx_id tx)
      else zero_time)"

definition wake_waiters :: "wager_transaction \<Rightarrow> wallet_id \<Rightarrow> instant \<Rightarrow> store \<Rightarrow> (nat \<times> store) eres" where
  "wake_waiters tx walletID now st =
     (if tx_status tx = Processed
      then (case Tx_ExternalTransactionID tx of
              None \<Rightarrow> Inr (0, st)
            | Some external \<Rightarrow>
                MakeDue \<lparr>so_WalletID = walletID, so_Provider = textFrom (Tx_Provider tx),
                         so_External = external\<rparr> now st)
      else Inr (0, st))"

definition commitOutcome ::
  "wagering \<Rightarrow> ids \<Rightarrow> outcome \<Rightarrow> wager_transaction \<Rightarrow> wallet_id \<Rightarrow> instant \<Rightarrow> trace \<Rightarrow> store
     \<Rightarrow> ((nat \<times> instant) \<times> store) eres" where
  "commitOutcome svc ids out tx walletID now trace st =
     (let due = next_attempt svc tx now
      in bindE (writer_settle out due st) (\<lambda>st.
         bindE (wake_waiters tx walletID now st) (\<lambda>(woke, st).
         bindE (emit ids (o_Events out) trace now st) (\<lambda>st.
         Inr ((woke, due), st)))))"

section \<open>Submit\<close>

definition claim_inbox :: "submit_operation \<Rightarrow> instant \<Rightarrow> store \<Rightarrow> store \<Rightarrow> store eres" where
  "claim_inbox cmd now st_inbox st =
     (case sb_Inbox cmd of
        None \<Rightarrow> Inr st
      | Some m \<Rightarrow>
          bindE (Inbox_Find (InboxMessage_Key m) st_inbox) (\<lambda>handled.
            case handled of
              None \<Rightarrow> Inbox_Record m now st
            | Some r \<Rightarrow> if ir_bodyHash r \<noteq> im_BodyHash m then Inl defect else Inr st))"

definition reference_of :: "command \<Rightarrow> store \<Rightarrow> reference_view option eres" where
  "reference_of cmd st =
     (if c_ReferenceExternalTransactionID cmd \<noteq> []
      then ReferenceFor (c_Provider cmd) (c_ReferenceExternalTransactionID cmd) st
      else Inr None)"

text \<open>The part of a submission that runs under the wallet lock.\<close>

definition submit_locked ::
  "wagering \<Rightarrow> ids \<Rightarrow> instant \<Rightarrow> submit_operation \<Rightarrow> command \<Rightarrow> store \<Rightarrow> (operation_result \<times> store) eres" where
  "submit_locked svc ids now cmd command st =
     bindE (LockByID (c_WalletID command) st) (\<lambda>found.
       case found of
         None \<Rightarrow> Inl notFound
       | Some w \<Rightarrow>
           (case WalletBelongsToPlayer command w of
              Inl _ \<Rightarrow> Inl (notFoundWrapping (Sentinel ErrForeignWallet))
            | Inr _ \<Rightarrow>
                bindE (classified (NewExternalTransaction command (w_id w) now)) (\<lambda>tx.
                bindE (Transactions_Record tx (sb_Correlation cmd) st) (\<lambda>st.
                bindE (reference_of command st) (\<lambda>reference.
                  (case Continue (wg_processor svc) (Some tx) command (Some w) reference now of
                     (tx', w', out) \<Rightarrow>
                       bindE (classified out) (\<lambda>out.
                         (case o_Transaction out of
                            None \<Rightarrow> Inl defect
                          | Some settled \<Rightarrow>
                              bindE (commitOutcome svc ids out settled (w_id w) now
                                \<lparr>t_Correlation = sb_Correlation cmd, t_Causation = causationOf cmd\<rparr> st) (\<lambda>(_, st).
                              Inr (resultOf settled False, st))))))))))"

definition submit_body ::
  "wagering \<Rightarrow> ids \<Rightarrow> instant \<Rightarrow> instant \<Rightarrow> submit_operation \<Rightarrow> command \<Rightarrow> payload_hash \<Rightarrow> views
     \<Rightarrow> store \<Rightarrow> (operation_result \<times> store) eres" where
  "submit_body svc ids now_inbox now cmd command hash v st =
     bindE (claim_inbox cmd now_inbox (vw_inbox v) st) (\<lambda>st.
     bindE (replay (vw_key v) (vw_external v) command hash) (\<lambda>settled.
       case settled of
         Some r \<Rightarrow> Inr (r, st)
       | None \<Rightarrow> submit_locked svc ids now cmd command st))"

definition submitOnce ::
  "wagering \<Rightarrow> ids \<Rightarrow> instant \<Rightarrow> instant \<Rightarrow> submit_operation \<Rightarrow> command \<Rightarrow> payload_hash \<Rightarrow> views
     \<Rightarrow> operation_result eres \<times> store" where
  "submitOnce svc ids now_inbox now cmd command hash v =
     WithinMovement (submit_body svc ids now_inbox now cmd command hash v) (vw_move v)"

text \<open>What happens before any statement is sent.\<close>

definition admit ::
  "(string \<Rightarrow> uuid option) \<Rightarrow> ids \<Rightarrow> submit_operation \<Rightarrow> (command \<times> payload_hash) eres" where
  "admit uuid_Parse ids cmd =
     bindE (classified (NewProvider (of_Provider (sb_Fields cmd)))) (\<lambda>provider.
     bindE (MaySubmitAs (sb_Principal cmd) provider) (\<lambda>_.
       if sb_Correlation cmd = [] then Inl (invalidField ''correlationId'' MissingRequiredField)
       else bindE (Wagering_command uuid_Parse ids (sb_Fields cmd) provider) (\<lambda>command.
            bindE (classified (PayloadHash command)) (\<lambda>hash. Inr (command, hash)))))"

definition Wagering_Submit ::
  "(string \<Rightarrow> uuid option) \<Rightarrow> wagering \<Rightarrow> ids \<Rightarrow> instant \<Rightarrow> instant \<Rightarrow> submit_operation \<Rightarrow> views
     \<Rightarrow> operation_result eres \<times> store" where
  "Wagering_Submit uuid_Parse svc ids now_inbox now cmd v =
     (case admit uuid_Parse ids cmd of
        Inl err \<Rightarrow> (Inl err, vw_move v)
      | Inr (command, hash) \<Rightarrow>
          (case submitOnce svc ids now_inbox now cmd command hash v of
             (Inr r, st) \<Rightarrow> (Inr r, st)
           | (Inl err, st) \<Rightarrow>
               if errors_Is err ErrDuplicateSubmission
               then (resolveDuplicate (vw_resolve v) command hash, st)
               else if errors_Is err ErrReferenceAlreadyReversed
               then (Inl (conflict ReferenceAlreadyReversed (Some err)), st)
               else (Inl (classify err), st)))"

section \<open>Resume\<close>

definition rebuild :: "ids \<Rightarrow> wager_transaction \<Rightarrow> command eres" where
  "rebuild ids tx =
     (if \<not> Tx_IsExternal tx then Inl defect
      else (let cmd =
              \<lparr>c_TransactionID = tx_id tx,
               c_LedgerEntryID = (if MovesMoney (tx_kind tx) then id_LedgerEntry ids else 0),
               c_WalletID = tx_walletID tx, c_Provider = textFrom (Tx_Provider tx),
               c_ExternalTransactionID = textFrom (Tx_ExternalTransactionID tx),
               c_IdempotencyKey = textFrom (Tx_IdempotencyKey tx), c_PlayerID = tx_playerID tx,
               c_RoundID = textFrom (Tx_RoundID tx), c_GameID = textFrom (Tx_GameID tx),
               c_Kind = tx_kind tx, c_Money = tx_amount tx,
               c_ReferenceExternalTransactionID = textFrom (Tx_ReferenceExternalTransactionID tx)\<rparr>
            in bindE (domain (Command_Validate cmd)) (\<lambda>_. Inr cmd)))"

text \<open>A defect found while carrying an operation forward: the operation and the cause.\<close>

type_synonym carried_defect = "(transaction_id \<times> go_error) option"

definition cannotCarryForward ::
  "wagering \<Rightarrow> wager_transaction \<Rightarrow> instant \<Rightarrow> store \<Rightarrow> (resume_outcome \<times> store) eres" where
  "cannotCarryForward svc tx now st =
     (let deadline = flaggedTime (Tx_ReferenceDeadline tx);
          out = no_resume\<lparr>ro_Claimed := True\<rparr>
      in if Tx_ReferenceDeadline tx \<noteq> None \<and> \<not> now < deadline
         then bindE (classified (Tx_Fail now tx)) (\<lambda>tx.
              bindE (Transactions_Fail tx st) (\<lambda>st.
              Inr (out\<lparr>ro_Result := Some (resultOf tx False)\<rparr>, st)))
         else (let due = backoff_next (wg_arith svc) (wg_backoff svc) (tx_referenceAttempts tx) now
                           deadline (tx_id tx)
               in bindE (Reschedule (tx_id tx) due st) (\<lambda>st.
                  Inr (out\<lparr>ro_Result := Some (resultOf tx False), ro_Rescheduled := True,
                           ro_NextAttemptAt := due\<rparr>, st))))"

text \<open>
  One turn, once the operation is claimed. The defect it found, if any, is kept beside the
  answer, because it is reported whether or not the transaction commits.
\<close>

definition resume_claimed ::
  "wagering \<Rightarrow> ids \<Rightarrow> instant \<Rightarrow> wallet \<Rightarrow> stored_transaction \<Rightarrow> store
     \<Rightarrow> carried_defect \<times> (resume_outcome \<times> store) eres" where
  "resume_claimed svc ids now w stored st =
     (let tx = st_Transaction stored
      in case rebuild ids tx of
           Inl err \<Rightarrow> (Some (tx_id tx, err), cannotCarryForward svc tx now st)
         | Inr command \<Rightarrow>
             (case reference_of command st of
                Inl err \<Rightarrow> (None, Inl err)
              | Inr reference \<Rightarrow>
                  (case Continue (wg_processor svc) (Some tx) command (Some w) reference now of
                     (tx', w', Inl f) \<Rightarrow>
                       (let tx' = (case tx' of None \<Rightarrow> tx | Some t \<Rightarrow> t)
                        in (Some (tx_id tx', DomainErr f), cannotCarryForward svc tx' now st))
                   | (tx', w', Inr out) \<Rightarrow>
                       (case o_Transaction out of
                          None \<Rightarrow> (None, Inl defect)
                        | Some settled \<Rightarrow>
                            (let correlation =
                                   (if st_Correlation stored = [] then uuid_String (tx_id tx)
                                    else st_Correlation stored)
                             in (None,
                                 bindE (commitOutcome svc ids out settled (w_id w) now
                                   \<lparr>t_Correlation = correlation, t_Causation = []\<rparr> st) (\<lambda>((woke, due), st).
                                 Inr (no_resume\<lparr>ro_Claimed := True,
                                        ro_Result := Some (resultOf settled False), ro_Woke := woke,
                                        ro_Correlation := correlation,
                                        ro_Rescheduled := (due \<noteq> zero_time),
                                        ro_NextAttemptAt := due\<rparr>, st))))))))"

definition resume_body ::
  "wagering \<Rightarrow> ids \<Rightarrow> instant \<Rightarrow> store \<Rightarrow> store \<Rightarrow> carried_defect \<times> (resume_outcome \<times> store) eres" where
  "resume_body svc ids now st_due st =
     (case NextDue now st_due of
        Inl err \<Rightarrow> (None, Inl err)
      | Inr None \<Rightarrow> (None, Inr (no_resume, st))
      | Inr (Some candidate) \<Rightarrow>
          (case LockByID (dc_WalletID candidate) st of
             Inl err \<Rightarrow> (None, Inl err)
           | Inr None \<Rightarrow> (None, Inl defect)
           | Inr (Some w) \<Rightarrow>
               (case ClaimForUpdate (dc_TransactionID candidate) now st of
                  Inl err \<Rightarrow> (None, Inl err)
                | Inr None \<Rightarrow> (None, Inr (no_resume, st))
                | Inr (Some stored) \<Rightarrow> resume_claimed svc ids now w stored st)))"

definition Wagering_Resume ::
  "wagering \<Rightarrow> ids \<Rightarrow> instant \<Rightarrow> principal \<Rightarrow> store \<Rightarrow> store
     \<Rightarrow> resume_outcome eres \<times> store \<times> carried_defect" where
  "Wagering_Resume svc ids now p st_due st =
     (case MayResume p of
        Inl err \<Rightarrow> (Inl err, st, None)
      | Inr _ \<Rightarrow>
          (let r = resume_body svc ids now st_due st
           in case WithinMovement (\<lambda>_. snd r) st of
                (Inl err, st') \<Rightarrow> (Inl (classify err), st', fst r)
              | (Inr out, st') \<Rightarrow> (Inr out, st', fst r)))"

section \<open>Reads\<close>

definition scopedResult :: "principal \<Rightarrow> stored_transaction option \<Rightarrow> operation_result eres" where
  "scopedResult p stored =
     (case stored of
        None \<Rightarrow> Inl notFound
      | Some s \<Rightarrow>
          (case Principal_Provider p of
             Some provider \<Rightarrow>
               if Tx_Provider (st_Transaction s) \<noteq> Some provider
               then Inl (notFoundWrapping (Sentinel ErrForeignOperation))
               else Inr (resultOf (st_Transaction s) False)
           | None \<Rightarrow> Inr (resultOf (st_Transaction s) False)))"

definition classify_error :: "'a eres \<Rightarrow> 'a eres" where
  "classify_error m = (case m of Inl err \<Rightarrow> Inl (classify err) | Inr a \<Rightarrow> Inr a)"

definition TransactionByID :: "principal \<Rightarrow> transaction_id \<Rightarrow> store \<Rightarrow> operation_result eres" where
  "TransactionByID p i st =
     classify_error (WithinSnapshot (\<lambda>st.
       bindE (Transactions_ByID i st) (\<lambda>stored. scopedResult p stored)) st)"

definition TransactionByExternalID ::
  "principal \<Rightarrow> provider \<Rightarrow> external_id \<Rightarrow> store \<Rightarrow> operation_result eres" where
  "TransactionByExternalID p provider i st =
     bindE (MayReadAs p provider) (\<lambda>_.
       classify_error (WithinSnapshot (\<lambda>st.
         bindE (ByExternal provider i st) (\<lambda>stored. scopedResult p stored)) st))"

end
