(* ===== verification/Processing.thy ===== *)
theory Processing
  imports Processor
begin

text \<open>
  The properties of the processor: submitting carries out the abstract verdict and errors are
  correctable, money moves only by a recorded entry, a processed reversal undoes exactly what
  it names, continuing acts on the operation that was recorded, and waiting ends.
\<close>

section \<open>Consequences of a verdict\<close>

lemma verdict_completed:
  assumes "verdict_of pol tx cmd w ref now = Completed dir"
  shows "m_currency (c_Money cmd) = Wallet_Currency w
    \<and> (\<exists>c. evaluateReference cmd w ref = (referenceApply, c)) \<and> dir = operation_direction cmd ref"
  using assms
  by (auto simp: verdict_of_def movement_verdict_def Let_def
      split: if_splits prod.splits reference_outcome.splits option.splits)

lemma verdict_effect_status:
  "verdict_effect v tx cmd w now tx' w' out \<Longrightarrow>
   tx_status tx' =
     (case v of Refused _ \<Rightarrow> Rejected | Parked \<Rightarrow> PendingReference | Completed _ \<Rightarrow> Processed)"
  by (auto simp: verdict_effect_def split: verdict.splits option.splits)

lemma verdict_effect_money:
  assumes "verdict_effect v tx cmd w now tx' w' out" "wallet_ok w" "w_updatedAt w \<le> now"
  shows "wallet_ok w' \<and> Wallet_Key w' = Wallet_Key w \<and> w_id w' = w_id w
    \<and> wallet_units w' =
        wallet_units w + (case o_LedgerEntry out of None \<Rightarrow> 0 | Some e \<Rightarrow> entry_delta e)
    \<and> (\<forall>e. o_LedgerEntry out = Some e \<longrightarrow>
         entry_ok e \<and> le_walletID e = w_id w \<and> le_transactionID e = c_TransactionID cmd
         \<and> le_amount e = c_Money cmd \<and> le_balanceBefore e = w_balance w
         \<and> le_balanceAfter e = w_balance w')"
proof (cases "\<exists>d. v = Completed (Some d)")
  case False
  with assms have "w' = w" "o_LedgerEntry out = None"
    by (auto simp: verdict_effect_def split: verdict.splits option.splits)
  with assms(2) show ?thesis by simp
next
  case True
  with assms(1) obtain d e where mv: "Wallet_move d (movement_of_command cmd now) w = Inr (e, w')"
    and out: "o_LedgerEntry out = Some e" by (auto simp: verdict_effect_def)
  have "wallet_ok w'"
    using moved_wallet_ok [OF mv] assms(2,3) by (auto simp: wallet_ok_def movement_of_command_def)
  moreover have "wallet_units w' = wallet_units w + entry_delta e"
    using wbook.move_recorded [of "(d, movement_of_command cmd now)"] mv by (simp add: wallet_step_def)
  ultimately show ?thesis
    using move_entry_links [OF mv] out by (simp add: Wallet_Key_def movement_of_command_def)
qed

lemma verdict_effect_entry:
  assumes "verdict_effect v tx cmd w now tx' w' out" "command_ok cmd"
    "v = verdict_of pol tx cmd w ref now"
  shows "o_LedgerEntry out \<noteq> None \<longleftrightarrow> tx_status tx' = Processed \<and> MovesMoney (c_Kind cmd)"
proof (cases v)
  case (Completed dir)
  with verdict_completed assms(3) obtain c where
    ev: "evaluateReference cmd w ref = (referenceApply, c)" and "dir = operation_direction cmd ref"
    by metis
  with movement_ready [OF assms(2) ev] Completed assms(1) show ?thesis
    by (cases dir) (auto simp: verdict_effect_def)
qed (use assms(1) in \<open>auto simp: verdict_effect_def\<close>)

section \<open>Carrying an operation forward\<close>

text \<open>A stored transaction that was recorded from a command.\<close>

definition recorded_from :: "command \<Rightarrow> wager_transaction \<Rightarrow> bool" where
  "recorded_from cmd t \<longleftrightarrow>
     tx_identity t = tx_identity (pending_transaction cmd (tx_walletID t) (tx_createdAt t))"

lemma recorded_from_fields:
  assumes "recorded_from cmd t"
  obtains x where "tx_external t = Some x" "x_payloadHash x = payloadHash cmd"
    "x_referenceExternalID x = c_ReferenceExternalTransactionID cmd" "tx_amount t = c_Money cmd"
    "tx_id t = c_TransactionID cmd"
proof -
  from assms obtain x where "tx_external t = Some x"
    "x\<lparr>x_resolvedReferenceID := 0\<rparr> = external_of_command cmd" "tx_amount t = c_Money cmd"
    "tx_id t = c_TransactionID cmd"
    by (auto simp: recorded_from_def tx_identity_def pending_transaction_def external_of_command_def)
  moreover from this(2) have "x_payloadHash x = payloadHash cmd"
    "x_referenceExternalID x = c_ReferenceExternalTransactionID cmd"
    by (cases x, simp add: external_of_command_def)+
  ultimately show ?thesis using that by blast
qed

lemma Continue_asserts:
  assumes "assertContinuable p (Some t) cmd (Some w) = Inr u"
  shows "usable_policy (p_policy p) \<and> open_status (tx_status t) \<and> tx_id t = c_TransactionID cmd
    \<and> tx_walletID t = w_id w \<and> w_playerID w = c_PlayerID cmd \<and> command_ok cmd
    \<and> Tx_PayloadHash t = Some (payloadHash cmd)"
  using assms
  by (auto simp: assertContinuable_def PayloadHash_def Command_Validate_Inr_iff open_status_def
      AssertSamePayload_def split: if_splits option.splits)

lemma assertContinuable_ok:
  assumes "usable_policy (p_policy p)" "open_status (tx_status t)" "tx_id t = c_TransactionID cmd"
    "tx_walletID t = w_id w" "w_playerID w = c_PlayerID cmd" "command_ok cmd"
    "Tx_PayloadHash t = Some (payloadHash cmd)"
  shows "assertContinuable p (Some t) cmd (Some w) = Inr ()"
proof -
  have "PayloadHash cmd = Inr (payloadHash cmd)"
    using assms(6) by (simp add: PayloadHash_def Command_Validate_Inr_iff)
  with assms show ?thesis
    by (auto simp: assertContinuable_def AssertSamePayload_def usable_eq IsTerminal_def open_status_def)
qed

text \<open>The reference of a stored transaction is unresolved, or resolved to what the view found.\<close>

definition resolution_agrees :: "wager_transaction \<Rightarrow> reference_view option \<Rightarrow> bool" where
  "resolution_agrees t ref \<longleftrightarrow>
     (\<forall>v target. ref = Some v \<longrightarrow> rf_Transaction v = Some target \<longrightarrow>
        Tx_ResolvedReferenceID t = None \<or> Tx_ResolvedReferenceID t = Some (tx_id target))"

lemma same_business_ready:
  assumes "same_business cmd c0" "recorded_from c0 t" "command_ok cmd" "wallet_ok w"
    "open_status (tx_status t)" "view_ok ref" "resolution_agrees t ref"
  shows "ready t cmd w ref"
proof -
  from assms(2) obtain x where "tx_external t = Some x"
    "x_referenceExternalID x = c_ReferenceExternalTransactionID c0" "tx_amount t = c_Money c0"
    by (rule recorded_from_fields)
  moreover from assms(1) have "c_ReferenceExternalTransactionID cmd = c_ReferenceExternalTransactionID c0"
    "c_Money cmd = c_Money c0" by (simp_all add: same_business_def)
  ultimately show ?thesis
    using assms(3-7)
    by (auto simp: ready_def view_ok_def resolution_agrees_def Tx_ResolvedReferenceID_def tx_ok_def
        ID_IsZero_def split: if_splits)
qed

lemma Continue_cases:
  assumes "wallet_ok w" "view_ok ref" "resolution_agrees t ref" "recorded_from c0 t" "now \<noteq> 0"
    "payloadHash cmd = payloadHash c0 \<longrightarrow> CanonicalPayload cmd = CanonicalPayload c0"
  obtains (refused) err where "Continue p (Some t) cmd (Some w) ref now = (Some t, Some w, Inl err)"
  | (exhausted) t' err where "Continue p (Some t) cmd (Some w) ref now = (Some t', Some w, Inl err)"
      "version_exhausted w"
  | (carried) t' w' out where
      "Continue p (Some t) cmd (Some w) ref now = (Some t', Some w', Inr out)"
      "assertContinuable p (Some t) cmd (Some w) = Inr ()" "same_business cmd c0"
      "carried_out (p_policy p) (verdict_of (p_policy p) t cmd w ref now) t cmd w now t' w' out"
proof (cases "assertContinuable p (Some t) cmd (Some w)")
  case (Inl err)
  then show ?thesis by (intro refused) (simp add: Continue_def)
next
  case (Inr u)
  note ok = Continue_asserts [OF Inr]
  from assms(4) obtain x where "tx_external t = Some x" "x_payloadHash x = payloadHash c0"
    by (rule recorded_from_fields)
  with ok have "payloadHash cmd = payloadHash c0" by (simp add: Tx_PayloadHash_def)
  with assms(6) have same: "same_business cmd c0"
    by (simp add: CanonicalPayload_def appendCanonicalPayload_eq_iff)
  have rdy: "ready t cmd w ref"
    using same_business_ready [OF same assms(4) _ assms(1) _ assms(2,3)] ok by blast
  have pol: "1 \<le> MaxAttempts (p_policy p)" "0 < TTL (p_policy p)"
    using ok by (auto simp: usable_policy_def)
  have eq: "Continue p (Some t) cmd (Some w) ref now =
      (Some (fst (p_apply p t cmd w ref now)), Some (fst (snd (p_apply p t cmd w ref now))),
       snd (snd (p_apply p t cmd w ref now)))"
    by (simp add: Continue_def Inr Let_def)
  from p_apply_carries [OF rdy assms(5) pol] show ?thesis
  proof (elim disjE exE conjE)
    fix tx' w' out
    assume a: "p_apply p t cmd w ref now = (tx', w', Inr out)"
      "carried_out (p_policy p) (verdict_of (p_policy p) t cmd w ref now) t cmd w now tx' w' out"
    show ?thesis by (rule carried [of tx' w' out]) (use a same Inr in \<open>simp_all add: eq\<close>)
  next
    fix tx' d
    assume a: "version_exhausted w"
      "p_apply p t cmd w ref now = (tx', w, Inl (WithField (New InvalidFieldFormat) ''walletVersion''))"
    show ?thesis
      by (rule exhausted [of tx' "WithField (New InvalidFieldFormat) ''walletVersion''"])
        (use a in \<open>simp_all add: eq\<close>)
  qed
qed

section \<open>Waiting ends\<close>

text \<open>
  Retrying an operation whose reference never arrives: one \<^verbatim>\<open>Continue\<close> per instant, each on
  the transaction the previous one left.
\<close>

fun retry :: "processor \<Rightarrow> command \<Rightarrow> wallet \<Rightarrow> instant list \<Rightarrow> wager_transaction \<Rightarrow> wager_transaction" where
  "retry p cmd w [] t = t"
| "retry p cmd w (now # nows) t =
     (case fst (Continue p (Some t) cmd (Some w) None now) of
        None \<Rightarrow> t
      | Some t' \<Rightarrow> retry p cmd w nows t')"

lemma retry_terminal:
  assumes "IsTerminal (tx_status t)"
  shows "retry p cmd w nows t = t"
proof (induction nows)
  case (Cons now nows)
  have "assertContinuable p (Some t) cmd (Some w) \<noteq> Inr u" for u
    using Continue_asserts [of p t cmd w u] assms by (auto simp: open_status_def IsTerminal_def)
  then obtain err where "assertContinuable p (Some t) cmd (Some w) = Inl err"
    by (metis sum.exhaust)
  with Cons show ?case by (simp add: Continue_def)
qed simp

text \<open>What has to hold of a waiting operation for a retry to be counted.\<close>

definition waiting :: "processor \<Rightarrow> command \<Rightarrow> wallet \<Rightarrow> wager_transaction \<Rightarrow> bool" where
  "waiting p cmd w t \<longleftrightarrow>
     usable_policy (p_policy p) \<and> command_ok cmd \<and> wallet_ok w \<and> namesReference cmd
     \<and> m_currency (c_Money cmd) = Wallet_Currency w \<and> w_playerID w = c_PlayerID cmd
     \<and> recorded_from cmd t \<and> tx_walletID t = w_id w \<and> open_status (tx_status t)"

lemma waiting_step:
  assumes "waiting p cmd w t" "now \<noteq> 0"
  obtains (rejected) t' where "fst (Continue p (Some t) cmd (Some w) None now) = Some t'"
      "budget_spent (p_policy p) now t" "tx_status t' = Rejected" "tx_failureCode t' = ReferenceNotFound"
  | (parked) t' where "fst (Continue p (Some t) cmd (Some w) None now) = Some t'"
      "\<not> budget_spent (p_policy p) now t" "waiting p cmd w t'"
      "tx_referenceAttempts t' = tx_referenceAttempts t + 1"
proof -
  from assms(1) have rec: "recorded_from cmd t" and w: "wallet_ok w" by (auto simp: waiting_def)
  from rec obtain x where x: "tx_external t = Some x" "x_payloadHash x = payloadHash cmd"
    "tx_id t = c_TransactionID cmd" by (rule recorded_from_fields)
  have ok: "assertContinuable p (Some t) cmd (Some w) = Inr ()"
    by (rule assertContinuable_ok) (use assms(1) x in \<open>auto simp: waiting_def Tx_PayloadHash_def\<close>)
  have ref: "view_ok None" "resolution_agrees t None"
    by (auto simp: view_ok_def resolution_agrees_def)
  have "ready t cmd w None"
    by (rule same_business_ready [OF _ rec])
      (use assms(1) ref in \<open>auto simp: waiting_def same_business_def\<close>)
  moreover have pol: "1 \<le> MaxAttempts (p_policy p)" "0 < TTL (p_policy p)"
    using assms(1) by (auto simp: waiting_def usable_policy_def)
  moreover have v: "verdict_of (p_policy p) t cmd w None now =
      (if budget_spent (p_policy p) now t then Refused ReferenceNotFound else Parked)"
    using assms(1) by (simp add: verdict_of_def waiting_def evaluateReference_def)
  ultimately obtain t' w' out where ap: "p_apply p t cmd w None now = (t', w', Inr out)"
    "carried_out (p_policy p) (if budget_spent (p_policy p) now t then Refused ReferenceNotFound else Parked)
       t cmd w now t' w' out"
    using p_apply_carries [of t cmd w None now p] assms(2) by (auto split: if_splits)
  have fst: "fst (Continue p (Some t) cmd (Some w) None now) = Some t'"
    by (simp add: Continue_def ok ap(1))
  show ?thesis
  proof (cases "budget_spent (p_policy p) now t")
    case True
    with ap(2) fst show ?thesis
      by (intro rejected [of t']) (auto simp: carried_out_def verdict_effect_def)
  next
    case False
    with ap(2) have st: "tx_status t' = PendingReference" "tx_identity t' = tx_identity t"
      "tx_referenceAttempts t' = tx_referenceAttempts t + 1"
      by (auto simp: carried_out_def verdict_effect_def)
    moreover from st(2) have "tx_walletID t' = tx_walletID t" "tx_createdAt t' = tx_createdAt t"
      by (auto simp: tx_identity_def)
    ultimately have "waiting p cmd w t'"
      using assms(1) by (auto simp: waiting_def recorded_from_def open_status_def)
    with False fst st show ?thesis by (intro parked [of t']) auto
  qed
qed

lemma retry_ends:
  assumes "waiting p cmd w t" "0 \<notin> set nows"
    "tx_referenceAttempts t \<le> MaxAttempts (p_policy p)"
    "MaxAttempts (p_policy p) - tx_referenceAttempts t < int (length nows)"
  shows "tx_status (retry p cmd w nows t) = Rejected
    \<and> tx_failureCode (retry p cmd w nows t) = ReferenceNotFound"
  using assms
proof (induction nows arbitrary: t)
  case Nil
  then show ?case by simp
next
  case (Cons now nows)
  from Cons.prems(2) have "now \<noteq> 0" by auto
  from Cons.prems(1) this show ?case
  proof (cases rule: waiting_step)
    case (rejected t')
    then show ?thesis by (simp add: retry_terminal IsTerminal_def)
  next
    case (parked t')
    with Cons.IH [of t'] Cons.prems show ?thesis by (auto simp: budget_spent_def)
  qed
qed

section \<open>A sample wallet\<close>

definition sample_wallet :: wallet where
  "sample_wallet = opened_wallet \<lparr>ow_WalletID = 13, ow_PlayerID = ''player-1'',
     ow_InitialBalance = brl 1000, ow_TransactionID = 5, ow_LedgerEntryID = 6\<rparr> 10"

definition sample_policy :: reference_policy where
  "sample_policy = \<lparr>MaxAttempts = 2, TTL = 60\<rparr>"

lemma sample_wallet_ok: "wallet_ok sample_wallet"
  unfolding sample_wallet_def by (rule opened_wallet_ok) (simp_all add: open_input_ok_def brl_def)

lemma sample_wallet_fields [simp]:
  "w_id sample_wallet = 13" "w_playerID sample_wallet = ''player-1''"
  "w_balance sample_wallet = brl 1000" "w_version sample_wallet = 1" "w_updatedAt sample_wallet = 10"
  by (simp_all add: sample_wallet_def opened_wallet_def)

lemma sample_processor: "NewProcessor sample_policy = Inr \<lparr>p_policy = sample_policy\<rparr>"
  by (simp add: NewProcessor_Inr_iff usable_policy_def sample_policy_def)

lemma brl_fields [simp]: "m_units (brl n) = n" "m_currency (brl n) = \<lparr>cur_code = ''BRL''\<rparr>"
  by (simp_all add: brl_def)

lemma sample_command_fields [simp]:
  "c_TransactionID (sample_command k n r) = 11" "c_WalletID (sample_command k n r) = 13"
  "c_PlayerID (sample_command k n r) = ''player-1''" "c_Kind (sample_command k n r) = k"
  "c_Money (sample_command k n r) = brl n" "c_ReferenceExternalTransactionID (sample_command k n r) = r"
  "c_Provider (sample_command k n r) = ''acme''" "c_RoundID (sample_command k n r) = ''round-1''"
  by (simp_all add: sample_command_def)

lemma sample_submittable: "command_ok (sample_command k n r) \<Longrightarrow> now \<noteq> 0 \<Longrightarrow>
    submittable (sample_command k n r) sample_wallet now"
  by (simp add: submittable_def)

definition sample_target :: wager_transaction where
  "sample_target = (pending_transaction (sample_command Bet 500 []) 13 5)
     \<lparr>tx_status := Processed, tx_updatedAt := 6, tx_result := brl 1000\<rparr>"

definition sample_view :: "reference_view option" where
  "sample_view = Some \<lparr>rf_Transaction = Some sample_target, rf_Reversals = []\<rparr>"

lemma sample_target_ok: "tx_ok sample_target"
proof -
  have "tx_ok (pending_transaction (sample_command Bet 500 []) 13 5)"
    by (simp add: pending_transaction_ok sample_bet_ok)
  then show ?thesis unfolding sample_target_def
    by (rule processed_ok) (simp_all add: pending_transaction_def open_status_def)
qed

lemma sample_view_ok: "view_ok sample_view"
  by (simp add: view_ok_def sample_view_def sample_target_ok)

lemma sample_refund_verdict:
  "verdict_of policy t (sample_command Refund 500 ''ext-0'') sample_wallet sample_view 20
   = Completed (Some Credit)"
proof -
  have "referenceAgrees (sample_command Refund 500 ''ext-0'') sample_wallet sample_target"
    by (simp add: referenceAgrees_def sample_target_def pending_transaction_def tx_accessors
        external_of_command_def)
  moreover have "tx_kind sample_target = Bet" "tx_amount sample_target = brl 500"
    "tx_status sample_target = Processed"
    by (simp_all add: sample_target_def pending_transaction_def)
  ultimately have "evaluateReference (sample_command Refund 500 ''ext-0'') sample_wallet sample_view
      = (referenceApply, no_code)"
    by (simp add: evaluateReference_def evaluate_target_def sample_view_def namesReference_def
        kind_predicates Money_Equal_def money_predicates HasSuccessfulReversalOfKind_def
        ActiveReversal_def)
  then show ?thesis
    by (simp add: verdict_of_def Wallet_Currency_def movement_verdict_def operation_direction_def
        wallet_units_def Let_def sint_MaxInt64)
qed

lemma sample_version: "\<not> version_exhausted sample_wallet"
  by (simp add: version_exhausted_def)

section \<open>Properties\<close>

text \<open>
  C12: submitting carries out the abstract verdict, and its errors are correctable. For a well
  formed wallet and a processor with a wait budget, a submission that returns an error leaves
  the wallet exactly as it was and reports a code the provider may correct; this happens only
  when the command is invalid, names another player's wallet, carries no time, or the wallet's
  version counter is exhausted. Every other submission is recorded: the outcome carries a well
  formed transaction whose status, failure code, result, ledger entry and events are those of
  the verdict computed on integers.
\<close>

theorem submit_carries_verdict:
  assumes "NewProcessor policy = Inr p" "wallet_ok w" "view_ok ref" "0 \<le> now"
  shows "case Submit p cmd (Some w) ref now of
      (w', Inl err) \<Rightarrow>
        w' = Some w \<and> Correctable (CodeOf err)
        \<and> \<not> (submittable cmd w now \<and> \<not> version_exhausted w)
    | (w', Inr out) \<Rightarrow>
        submittable cmd w now
        \<and> (\<exists>tx' w1. w' = Some w1 \<and> tx_ok tx'
             \<and> carried_out policy
                 (verdict_of policy (pending_transaction cmd (w_id w) now) cmd w ref now)
                 (pending_transaction cmd (w_id w) now) cmd w now tx' w1 out)"
proof -
  from assms(1) have p: "p_policy p = policy" "usable_policy (p_policy p)"
    by (auto simp: NewProcessor_Inr_iff)
  from assms(2) p(2) assms(3) show ?thesis
  proof (cases rule: Submit_cases [where cmd = cmd and now = now])
    case (refused err)
    then show ?thesis by simp
  next
    case (recorded tx' w' out)
    then have "tx_live (pending_transaction cmd (w_id w) now)"
      using assms(2,4) by (intro pending_live) (auto simp: submittable_def wallet_ok_def)
    from carried_out_ok [OF recorded(3) this] recorded p(1) show ?thesis
      by (auto simp: pending_transaction_def)
  qed
qed

theorem submit_carries_verdict_witness:
  "\<exists>w' out. Submit \<lparr>p_policy = sample_policy\<rparr> (sample_command Bet 500 []) (Some sample_wallet) None 20
     = (Some w', Inr out) \<and> wallet_units w' = 500"
proof -
  let ?p = "\<lparr>p_policy = sample_policy\<rparr>" and ?c = "sample_command Bet 500 []"
  let ?t = "pending_transaction ?c 13 20"
  have v: "verdict_of sample_policy ?t ?c sample_wallet None 20 = Completed (Some Debit)"
    by (simp add: verdict_of_def evaluateReference_def namesReference_def kind_predicates
        movement_verdict_def operation_direction_def wallet_units_def Let_def Wallet_Currency_def
        sint_MaxInt64)
  have "submittable ?c sample_wallet 20" by (simp add: sample_submittable sample_bet_ok)
  with submit_carries_verdict [OF sample_processor sample_wallet_ok, of None 20 ?c] sample_version
  obtain w' out tx' where r: "Submit ?p ?c (Some sample_wallet) None 20 = (Some w', Inr out)"
    "carried_out sample_policy (Completed (Some Debit)) ?t ?c sample_wallet 20 tx' w' out"
    by (auto simp: view_ok_def v split: prod.splits sum.splits)
  then obtain e where mv: "wallet_step (Debit, movement_of_command ?c 20) sample_wallet = Inr (e, w')"
    by (auto simp: carried_out_def verdict_effect_def wallet_step_def)
  then have "entry_delta e = - 500"
    using move_entry_links [of Debit "movement_of_command ?c 20" sample_wallet e w']
    by (simp add: wallet_step_def entry_delta_def movement_of_command_def)
  with wbook.move_recorded [OF mv] have "wallet_units w' = wallet_units sample_wallet - 500" by simp
  with r(1) show ?thesis by (auto simp: wallet_units_def)
qed

text \<open>
  C13: money moves only by a recorded entry. After any recorded submission the wallet is well
  formed, belongs to the same player in the same currency, and its balance has changed by
  exactly the signed amount of the ledger entry in the outcome, or not at all when there is
  none; an entry is there if and only if the operation was processed and its kind moves money,
  and it names the command's transaction, amount and wallet and both balances.
\<close>

theorem submit_moves_by_entry:
  assumes "NewProcessor policy = Inr p" "wallet_ok w" "view_ok ref" "w_updatedAt w \<le> now"
    and "Submit p cmd (Some w) ref now = (Some w', Inr out)"
  shows "wallet_ok w' \<and> Wallet_Key w' = Wallet_Key w \<and> w_id w' = w_id w
    \<and> wallet_units w' =
        wallet_units w + (case o_LedgerEntry out of None \<Rightarrow> 0 | Some e \<Rightarrow> entry_delta e)
    \<and> (\<forall>e. o_LedgerEntry out = Some e \<longrightarrow>
         entry_ok e \<and> le_walletID e = w_id w \<and> le_transactionID e = c_TransactionID cmd
         \<and> le_amount e = c_Money cmd \<and> le_balanceBefore e = w_balance w
         \<and> le_balanceAfter e = w_balance w')
    \<and> (\<exists>tx. o_Transaction out = Some tx
         \<and> (o_LedgerEntry out \<noteq> None \<longleftrightarrow> tx_status tx = Processed \<and> MovesMoney (c_Kind cmd)))"
proof -
  from assms(1) have p: "usable_policy (p_policy p)" by (auto simp: NewProcessor_Inr_iff)
  from assms(2) p assms(3) show ?thesis
  proof (cases rule: Submit_cases [where cmd = cmd and now = now])
    case (refused err)
    with assms(5) show ?thesis by simp
  next
    case (recorded tx' w1 out1)
    with assms(5) have same: "w1 = w'" "out1 = out" by auto
    from recorded(3) have eff: "verdict_effect
        (verdict_of (p_policy p) (pending_transaction cmd (w_id w) now) cmd w ref now)
        (pending_transaction cmd (w_id w) now) cmd w now tx' w' out"
      and tx: "o_Transaction out = Some tx'"
      by (auto simp: same carried_out_def)
    from recorded(2) have "command_ok cmd" by (simp add: submittable_def)
    with verdict_effect_money [OF eff assms(2,4)] verdict_effect_entry [OF eff _ refl] tx
    show ?thesis by blast
  qed
qed

theorem submit_moves_by_entry_witness:
  "\<exists>w' out. Submit \<lparr>p_policy = sample_policy\<rparr> (sample_command Bet 500 []) (Some sample_wallet) None 20
     = (Some w', Inr out) \<and> wallet_ok w' \<and> w_id w' = 13"
proof -
  from sample_submittable [OF sample_bet_ok, of 20] sample_version
  obtain w' out where "Submit \<lparr>p_policy = sample_policy\<rparr> (sample_command Bet 500 []) (Some sample_wallet)
      None 20 = (Some w', Inr out)"
    by (auto intro: Submit_cases [OF sample_wallet_ok, of "\<lparr>p_policy = sample_policy\<rparr>" None
          "sample_command Bet 500 []" 20] simp: view_ok_def usable_policy_def sample_policy_def)
  with submit_moves_by_entry [OF sample_processor sample_wallet_ok _ _ this] show ?thesis
    by (auto simp: view_ok_def)
qed

text \<open>
  C11: a processed reversal undoes exactly what it names, once. If a submitted refund or
  rollback is processed, the reference was found and processed, belongs to the same wallet,
  player, provider, round and currency, is of a kind the reversal may undo, and moved the same
  amount; the entry recorded moves precisely the opposite of what the reference moved; and no
  reversal of that kind had ever taken effect on it, nor was any other reversal still holding
  it.
\<close>

theorem reversal_undoes_once:
  assumes "NewProcessor policy = Inr p" "wallet_ok w" "view_ok ref"
    and "Submit p cmd (Some w) ref now = (Some w', Inr out)"
    and "IsReversal (c_Kind cmd)" "o_Transaction out = Some tx" "tx_status tx = Processed"
  shows "\<exists>v target d e. ref = Some v \<and> rf_Transaction v = Some target \<and> tx_status target = Processed
    \<and> referenceAgrees cmd w target \<and> CanReverse (c_Kind cmd) (tx_kind target)
    \<and> tx_amount target = c_Money cmd
    \<and> Kind_Direction (tx_kind target) = Some d \<and> o_LedgerEntry out = Some e
    \<and> entry_delta e = - signed_by d (sint (m_units (tx_amount target)))
    \<and> (\<forall>r \<in> set (rf_Reversals v). \<forall>t. effective_reversal r t \<longrightarrow>
         tx_kind t \<noteq> c_Kind cmd \<and> rv_Reversed r)"
proof -
  from assms(1) have p: "usable_policy (p_policy p)" by (auto simp: NewProcessor_Inr_iff)
  from assms(2) p assms(3) show ?thesis
  proof (cases rule: Submit_cases [where cmd = cmd and now = now])
    case (refused err)
    with assms(4) show ?thesis by simp
  next
    case (recorded tx' w1 out1)
    with assms(4,6) have same: "w1 = w'" "out1 = out" "tx' = tx" by (auto simp: carried_out_def)
    let ?v = "verdict_of (p_policy p) (pending_transaction cmd (w_id w) now) cmd w ref now"
    from recorded(3) have eff:
      "verdict_effect ?v (pending_transaction cmd (w_id w) now) cmd w now tx w' out"
      by (auto simp: same carried_out_def)
    from recorded(2) have cmd: "command_ok cmd" by (simp add: submittable_def)
    from verdict_effect_status [OF eff] assms(7) obtain dir where dir: "?v = Completed dir"
      by (auto split: verdict.splits)
    from verdict_completed [OF dir] obtain c where ev: "evaluateReference cmd w ref = (referenceApply, c)"
      and dd: "dir = operation_direction cmd ref" by blast
    have names: "namesReference cmd"
      using cmd assms(5) by (auto simp: command_ok_def namesReference_def kind_predicates split: if_splits)
    then obtain v target where vt: "ref = Some v" "applicable cmd w v target"
      using evaluateReference_apply_iff [of cmd w ref] ev by blast
    then have can: "CanReverse (c_Kind cmd) (tx_kind target)" and eqm: "Money_Equal (c_Money cmd) (tx_amount target)"
      and found: "rf_Transaction v = Some target" using assms(5) by (auto simp: applicable_def)
    from eqm have amt: "tx_amount target = c_Money cmd"
      by (cases "tx_amount target"; cases "c_Money cmd") (auto simp: Money_Equal_def split: if_splits)
    obtain d d' where d: "Kind_Direction (tx_kind target) = Some d" "Opposite d = Some d'"
      "operation_direction cmd ref = Some d'"
      using can vt(1) found
      by (cases "c_Kind cmd"; cases "tx_kind target")
        (auto simp: operation_direction_def reversalDirection_def)
    with eff dir dd obtain e where mv: "Wallet_move d' (movement_of_command cmd now) w = Inr (e, w')"
      and out: "o_LedgerEntry out = Some e" by (auto simp: verdict_effect_def)
    have "entry_delta e = - signed_by d (sint (m_units (tx_amount target)))"
      using move_entry_links [OF mv] signed_by_Opposite [OF d(2)]
      by (simp add: entry_delta_def amt movement_of_command_def)
    with vt found amt can d(1) out assms(5) show ?thesis by (auto simp: applicable_def)
  qed
qed

theorem reversal_undoes_once_witness:
  "\<exists>w' out e. Submit \<lparr>p_policy = sample_policy\<rparr> (sample_command Refund 500 ''ext-0'')
       (Some sample_wallet) sample_view 20 = (Some w', Inr out)
     \<and> o_LedgerEntry out = Some e \<and> entry_delta e = 500"
proof -
  let ?c = "sample_command Refund 500 ''ext-0''" and ?p = "\<lparr>p_policy = sample_policy\<rparr>"
  have pol: "usable_policy (p_policy ?p)" by (simp add: usable_policy_def sample_policy_def)
  from sample_wallet_ok pol sample_view_ok obtain w' out tx where
    sub: "Submit ?p ?c (Some sample_wallet) sample_view 20 = (Some w', Inr out)"
    and co: "carried_out sample_policy (Completed (Some Credit)) (pending_transaction ?c 13 20) ?c
      sample_wallet 20 tx w' out"
    by (cases rule: Submit_cases [where cmd = ?c and now = 20])
      (use sample_version sample_submittable [OF sample_refund_ok] in \<open>auto simp: sample_refund_verdict\<close>)
  from co have tx: "o_Transaction out = Some tx" "tx_status tx = Processed"
    by (auto simp: carried_out_def verdict_effect_def)
  have "IsReversal (c_Kind ?c)" by (simp add: IsReversal_def)
  from reversal_undoes_once [OF sample_processor sample_wallet_ok sample_view_ok sub this tx] sub
  show ?thesis
    by (auto simp: sample_view_def sample_target_def pending_transaction_def)
qed

text \<open>
  C30: continuing acts on the operation that was recorded, or changes nothing. Take a stored
  transaction recorded from some command, and suppose SHA-256 does not map that command's
  payload and a different one to the same digest. Continuing it with any command either
  returns an error and leaves the wallet untouched, and the transaction too unless the
  wallet's version counter is exhausted; or the two commands agree on every business field,
  and the verdict on them is carried out on the stored transaction, continuing its own wait
  budget, which stays well formed.
\<close>

theorem continue_same_operation:
  assumes "wallet_ok w" "view_ok ref" "resolution_agrees t ref"
    and "tx_live t" "recorded_from c0 t" "0 < now" "tx_updatedAt t \<le> now"
    and no_collision: "payloadHash cmd = payloadHash c0 \<longrightarrow> CanonicalPayload cmd = CanonicalPayload c0"
  shows "case Continue p (Some t) cmd (Some w) ref now of
      (t', w', Inl err) \<Rightarrow> w' = Some w \<and> (t' = Some t \<or> version_exhausted w)
    | (t', w', Inr out) \<Rightarrow>
        same_business cmd c0 \<and> w_playerID w = c_PlayerID cmd \<and> tx_walletID t = w_id w
        \<and> (\<exists>t1 w1. t' = Some t1 \<and> w' = Some w1 \<and> tx_ok t1
             \<and> carried_out (p_policy p) (verdict_of (p_policy p) t cmd w ref now) t cmd w now t1 w1 out)"
proof -
  have "now \<noteq> 0" using assms(6) by simp
  from assms(1-3,5) this no_collision show ?thesis
  proof (cases rule: Continue_cases [where p = p])
    case (carried t1 w1 out)
    from carried_out_ok [OF carried(4) assms(4,7)] Continue_asserts [OF carried(2)] carried
    show ?thesis by auto
  qed auto
qed

theorem continue_same_operation_witness:
  "let c = sample_command Refund 500 ''ext-0'';
       t = parked sample_policy 20 (pending_transaction c 13 15)
   in \<exists>t' w' out. Continue \<lparr>p_policy = sample_policy\<rparr> (Some t) c (Some sample_wallet) sample_view 30
        = (Some t', Some w', Inr out) \<and> tx_ok t'"
proof -
  define c where "c = sample_command Refund 500 ''ext-0''"
  define t0 where "t0 = pending_transaction c 13 15"
  define t where "t = parked sample_policy 20 t0"
  have "MarkPendingReference sample_policy 20 t0 = Inr t"
    by (simp add: MarkPendingReference_Inr_iff sample_policy_def budget_spent_def open_status_def
        t_def t0_def pending_transaction_def)
  then have step: "clocked sample_policy t0 t"
    by (rule clocked_parked) (simp add: t0_def pending_transaction_def)
  have "tx_live t0" unfolding t0_def by (rule pending_live) (simp_all add: c_def sample_refund_ok)
  then have live: "tx_live t" using step by (rule clocked_live)
  have rec: "recorded_from c t"
    by (simp add: recorded_from_def t_def t0_def parked_def pending_transaction_def tx_identity_def)
  have agree: "resolution_agrees t sample_view"
    by (simp add: resolution_agrees_def t_def t0_def parked_def pending_transaction_def
        Tx_ResolvedReferenceID_def external_of_command_def ID_IsZero_def)
  have "assertContinuable \<lparr>p_policy = sample_policy\<rparr> (Some t) c (Some sample_wallet) = Inr ()"
    by (rule assertContinuable_ok)
      (auto simp: t_def t0_def parked_def pending_transaction_def c_def sample_refund_ok
        usable_policy_def sample_policy_def open_status_def Tx_PayloadHash_def external_of_command_def)
  then have "\<not> (\<exists>err. Continue \<lparr>p_policy = sample_policy\<rparr> (Some t) c (Some sample_wallet) sample_view 30
      = (Some t, Some sample_wallet, Inl err))"
    using p_apply_carries [OF same_business_ready [of c c t], of sample_wallet sample_view 30
        "\<lparr>p_policy = sample_policy\<rparr>"] rec agree sample_wallet_ok sample_view_ok sample_version
    by (auto simp: Continue_def same_business_def c_def sample_refund_ok t_def parked_def
        open_status_def sample_policy_def)
  with continue_same_operation [OF sample_wallet_ok sample_view_ok agree live rec, of 30 c
      "\<lparr>p_policy = sample_policy\<rparr>"] sample_version
  show ?thesis
    by (auto simp: Let_def t_def parked_def simp flip: c_def t0_def split: prod.splits sum.splits)
qed

lemma pending_waiting:
  assumes "usable_policy (p_policy p)" "wallet_ok w" "submittable cmd w now" "namesReference cmd"
    "m_currency (c_Money cmd) = Wallet_Currency w"
  shows "waiting p cmd w (pending_transaction cmd (w_id w) now)"
  using assms
  by (auto simp: waiting_def recorded_from_def submittable_def pending_transaction_def
      open_status_def tx_identity_def)

text \<open>
  C31: waiting ends. An operation whose reference never arrives is carried forward at most as
  many times as the policy allows: retried once per instant, at any instants whatever, more
  often than the policy's maximum, it is settled as rejected because its reference was not
  found, and no later retry changes it.
\<close>

theorem waiting_ends:
  assumes "NewProcessor policy = Inr p" "wallet_ok w" "submittable cmd w now" "namesReference cmd"
    and "m_currency (c_Money cmd) = Wallet_Currency w"
    and "0 \<notin> set nows" "MaxAttempts policy < int (length nows)"
  shows "let t = retry p cmd w nows (pending_transaction cmd (w_id w) now)
    in tx_status t = Rejected \<and> tx_failureCode t = ReferenceNotFound \<and> retry p cmd w later t = t"
proof -
  from assms(1) have p: "p_policy p = policy" "usable_policy (p_policy p)"
    by (auto simp: NewProcessor_Inr_iff)
  have "tx_referenceAttempts (pending_transaction cmd (w_id w) now) = 0"
    by (simp add: pending_transaction_def)
  with retry_ends [OF pending_waiting [OF p(2) assms(2-5)] assms(6)] p assms(7)
  have end_state: "tx_status (retry p cmd w nows (pending_transaction cmd (w_id w) now)) = Rejected
    \<and> tx_failureCode (retry p cmd w nows (pending_transaction cmd (w_id w) now)) = ReferenceNotFound"
    by (simp add: usable_policy_def)
  then show ?thesis by (simp add: Let_def retry_terminal IsTerminal_def)
qed

theorem waiting_ends_witness:
  "tx_status (retry \<lparr>p_policy = sample_policy\<rparr> (sample_command Refund 500 ''ext-0'') sample_wallet
     [20, 21, 22] (pending_transaction (sample_command Refund 500 ''ext-0'') 13 15)) = Rejected"
  using waiting_ends [OF sample_processor sample_wallet_ok sample_submittable [OF sample_refund_ok],
      of 15 "[20, 21, 22]"]
  by (simp add: namesReference_def kind_predicates sample_policy_def Wallet_Currency_def Let_def)

end
