(* ===== verification/StoreInv.thy ===== *)
theory StoreInv
  imports UseCases Processing
begin

text \<open>
  The invariant of the store and what the statements do to it: rows are those of well formed
  transactions and wallets, keys are unique, and the ledger of every wallet is a chain of
  entries from nothing to the balance and version the wallet holds.
\<close>

section \<open>Rows of transactions\<close>

lemma row_of_sel [simp]:
  "tr_id (row_of t c n) = Some (tx_id t)"
  "tr_walletID (row_of t c n) = Some (tx_walletID t)"
  "tr_playerID (row_of t c n) = tx_playerID t"
  "tr_currency (row_of t c n) = cur_code (m_currency (tx_amount t))"
  "tr_kind (row_of t c n) = Kind_String (tx_kind t)"
  "tr_status (row_of t c n) = Status_String (tx_status t)"
  "tr_amount (row_of t c n) = m_units (tx_amount t)"
  "tr_correlation (row_of t c n) = c"
  "tr_attempts (row_of t c n) = word_of_int (tx_referenceAttempts t)"
  "tr_createdAt (row_of t c n) = micros (tx_createdAt t)"
  "tr_updatedAt (row_of t c n) = micros (tx_updatedAt t)"
  "tr_nextAttemptAt (row_of t c n) = timeOf n"
  by (simp_all add: transactionArgs_def snapshotOf_eq snapshot_of_def uuidOf_def minorOf_def
      Currency_String_def Let_def)

lemma textOf_nonempty: "s \<noteq> [] \<Longrightarrow> textOf s = Some s"
  by (simp add: textOf_def)

lemma row_of_keys:
  assumes "tx_ok t"
  shows "tr_provider (row_of t c n) = Tx_Provider t"
    "tr_externalID (row_of t c n) = Tx_ExternalTransactionID t"
    "tr_idempotencyKey (row_of t c n) = Tx_IdempotencyKey t"
    "tr_referenceExternal (row_of t c n) = Tx_ReferenceExternalTransactionID t"
    "tr_resolvedReference (row_of t c n) = Tx_ResolvedReferenceID t"
proof -
  have "x_provider x \<noteq> [] \<and> x_externalTransactionID x \<noteq> [] \<and> x_idempotencyKey x \<noteq> []"
    if "tx_external t = Some x" for x
    using assms that by (auto simp: tx_ok_def origin_ok_def opaque_ok_def)
  then show "tr_provider (row_of t c n) = Tx_Provider t"
    "tr_externalID (row_of t c n) = Tx_ExternalTransactionID t"
    "tr_idempotencyKey (row_of t c n) = Tx_IdempotencyKey t"
    "tr_referenceExternal (row_of t c n) = Tx_ReferenceExternalTransactionID t"
    "tr_resolvedReference (row_of t c n) = Tx_ResolvedReferenceID t"
    by (cases "tx_external t"; simp add: transactionArgs_def snapshotOf_eq snapshot_of_def
        snapshot_of_external_def no_external_def textOf_def nullableUUIDOf_def uuidOf_def
        tx_accessors ID_IsZero_def Let_def)+
qed

text \<open>Settling the row of a transaction gives the row of what it became.\<close>

lemma settled_row_row_of:
  assumes "tx_identity t' = tx_identity t"
  shows "settled_row (snapshotOf t') due (row_of t c n) = row_of t' c due"
proof -
  have same: "tx_id t' = tx_id t" "tx_walletID t' = tx_walletID t" "tx_playerID t' = tx_playerID t"
    "tx_kind t' = tx_kind t" "tx_amount t' = tx_amount t" "tx_createdAt t' = tx_createdAt t"
    and x: "map_option (\<lambda>x. x\<lparr>x_resolvedReferenceID := 0\<rparr>) (tx_external t')
      = map_option (\<lambda>x. x\<lparr>x_resolvedReferenceID := 0\<rparr>) (tx_external t)"
    using assms by (simp_all add: tx_identity_def)
  show ?thesis
  proof (cases "tx_external t")
    case None
    with x have "tx_external t' = None" by simp
    with None same show ?thesis
      by (simp add: settled_row_def transactionArgs_def snapshotOf_eq snapshot_of_def
          nullableResolvedReference_def no_external_def Let_def)
  next
    case (Some y)
    with x obtain y' where y': "tx_external t' = Some y'"
      "y'\<lparr>x_resolvedReferenceID := 0\<rparr> = y\<lparr>x_resolvedReferenceID := 0\<rparr>" by auto
    from y'(2) have "x_provider y' = x_provider y" "x_externalTransactionID y' = x_externalTransactionID y"
      "x_idempotencyKey y' = x_idempotencyKey y" "x_payloadHash y' = x_payloadHash y"
      "x_roundID y' = x_roundID y" "x_gameID y' = x_gameID y"
      "x_referenceExternalID y' = x_referenceExternalID y"
      by (cases y; cases y'; simp)+
    with Some y'(1) same show ?thesis
      by (simp add: settled_row_def transactionArgs_def snapshotOf_eq snapshot_of_def
          snapshot_of_external_def nullableResolvedReference_def Let_def)
  qed
qed

text \<open>A stored row: that of a well formed transaction, whatever its trace and its schedule.\<close>

definition row_ok :: "transaction_row \<Rightarrow> bool" where
  "row_ok r \<longleftrightarrow>
     (\<exists>t. tx_live t \<and> waits_ahead t \<and> tx_storable t \<and> r\<lparr>tr_nextAttemptAt := None\<rparr> = row_of t (tr_correlation r) 0)"

lemma row_of_schedule: "(row_of t c n)\<lparr>tr_nextAttemptAt := None\<rparr> = row_of t c 0"
  by (simp add: transactionArgs_def timeOf_def Let_def)

lemma row_of_ok: "tx_live t \<Longrightarrow> waits_ahead t \<Longrightarrow> tx_storable t \<Longrightarrow> row_ok (row_of t c n)"
  unfolding row_ok_def row_of_schedule row_of_sel by blast

lemma row_ok_schedule [simp]: "row_ok (r\<lparr>tr_nextAttemptAt := x\<rparr>) = row_ok r"
  by (simp add: row_ok_def)

lemma row_transaction_schedule: "row_transaction (r\<lparr>tr_nextAttemptAt := x\<rparr>) = row_transaction r"
  by (simp add: row_transaction_def row_snapshot_def cong: option.case_cong)

lemma row_okE:
  assumes "row_ok r"
  obtains t where "tx_live t" "waits_ahead t" "tx_storable t"
    "r = (row_of t (tr_correlation r) 0)\<lparr>tr_nextAttemptAt := tr_nextAttemptAt r\<rparr>"
    "row_transaction r = Inr t"
    "row_stored r = Inr \<lparr>st_Transaction = t, st_Correlation = tr_correlation r\<rparr>"
proof -
  from assms obtain t where t: "tx_live t" "waits_ahead t" "tx_storable t"
    "r\<lparr>tr_nextAttemptAt := None\<rparr> = row_of t (tr_correlation r) 0" by (auto simp: row_ok_def)
  then have "row_transaction (r\<lparr>tr_nextAttemptAt := None\<rparr>) = Inr t" by (simp add: row_transaction_row_of)
  then have tx: "row_transaction r = Inr t" by (simp only: row_transaction_schedule)
  then have "row_stored r = Inr \<lparr>st_Transaction = t, st_Correlation = tr_correlation r\<rparr>"
    by (simp add: row_stored_def)
  moreover have "r = (row_of t (tr_correlation r) 0)\<lparr>tr_nextAttemptAt := tr_nextAttemptAt r\<rparr>"
    unfolding t(4) [symmetric] by simp
  ultimately show ?thesis using that t tx by blast
qed

text \<open>
  A transaction of which only the times are finer than a column: what is read back of its row
  is another, whose row it is too.
\<close>

lemma row_of_ok_kept:
  assumes "tx_live t" "waits_ahead t" "storable_money (tx_amount t)" "attempts_fit (snapshotOf t)" "0 < kept (tx_createdAt t)"
  shows "row_ok (row_of t c n)" "row_transaction (row_of t c n) = Inr (kept_tx t)"
proof -
  have "tx_ok t" "tx_referenceAttempts t < 2 ^ 31"
    using assms(1,4) by (simp_all add: tx_live_def attempts_fit_def snapshotOf_eq snapshot_of_def)
  note kept = kept_tx_storable [OF this(1) assms(3) this(2) assms(5,2)]
  have "tx_live (kept_tx t)" "waits_ahead (kept_tx t)"
    using kept(1) assms(2,5) kept_mono [of "tx_createdAt t" "tx_referenceDeadline t"]
    by (auto simp: tx_live_def tx_storable_def waits_ahead_def kept_tx_def)
  from row_of_ok [OF this kept(1), of c n] show "row_ok (row_of t c n)" by (simp only: row_of_kept_tx [OF kept(2)])
  show "row_transaction (row_of t c n) = Inr (kept_tx t)"
    using row_transaction_row_of [OF kept(1)] by (simp only: row_of_kept_tx [OF kept(2)])
qed

section \<open>Unique keys\<close>

text \<open>No two stored rows collide on a unique index.\<close>

definition collision_free :: "transaction_row list \<Rightarrow> bool" where
  "collision_free rs \<longleftrightarrow> sorted_wrt (\<lambda>r s. transaction_collision r s = None) rs"

lemma transaction_collision_sym:
  assumes "transaction_collision r s = None"
  shows "transaction_collision s r = None"
proof -
  have "sql_eq a b = sql_eq b a" for a b :: "'a option"
    by (auto simp: sql_eq_def)
  then have "sql_eq (tr_provider s) (tr_provider r) = sql_eq (tr_provider r) (tr_provider s)"
    "sql_eq (tr_externalID s) (tr_externalID r) = sql_eq (tr_externalID r) (tr_externalID s)"
    "sql_eq (tr_idempotencyKey s) (tr_idempotencyKey r) = sql_eq (tr_idempotencyKey r) (tr_idempotencyKey s)"
    "sql_eq (tr_resolvedReference s) (tr_resolvedReference r)
       = sql_eq (tr_resolvedReference r) (tr_resolvedReference s)"
    by (auto simp: sql_eq_def)
  then show ?thesis
    using assms unfolding transaction_collision_def
    by (auto split: if_splits)
qed

lemma collision_None_iff: "collision row rs = None \<longleftrightarrow> (\<forall>r \<in> set rs. transaction_collision row r = None)"
  by (simp add: collision_def first_some_None_iff)

lemma collision_free_nth:
  assumes "collision_free rs" "i < length rs" "j < length rs" "i \<noteq> j"
  shows "transaction_collision (rs ! i) (rs ! j) = None"
proof -
  have less: "transaction_collision (rs ! k) (rs ! m) = None" if "k < m" "m < length rs" for k m
    using sorted_wrt_nth_less [OF assms(1) [unfolded collision_free_def] that] by simp
  show ?thesis
  proof (cases "i < j")
    case True
    then show ?thesis using less assms(3) by blast
  next
    case False
    with assms(4) have "j < i" by simp
    from less [OF this assms(2)] show ?thesis by (rule transaction_collision_sym)
  qed
qed

lemma collision_freeI:
  assumes "\<And>i j. i < length rs \<Longrightarrow> j < length rs \<Longrightarrow> i \<noteq> j \<Longrightarrow>
    transaction_collision (rs ! i) (rs ! j) = None"
  shows "collision_free rs"
  unfolding collision_free_def sorted_wrt_iff_nth_less using assms by auto

lemma collision_free_append:
  assumes "collision_free rs" "collision row rs = None"
  shows "collision_free (rs @ [row])"
proof -
  have "transaction_collision r row = None" if "r \<in> set rs" for r
    using assms(2) that unfolding collision_None_iff by (blast intro: transaction_collision_sym)
  with assms(1) show ?thesis
    unfolding collision_free_def by (simp add: sorted_wrt_append)
qed

lemma collision_same_id: "tr_id r = tr_id s \<Longrightarrow> transaction_collision r s \<noteq> None"
  by (simp add: transaction_collision_def)

lemma collision_free_distinct:
  assumes "collision_free rs"
  shows "distinct (map tr_id rs)"
  unfolding distinct_conv_nth
proof (intro allI impI)
  fix i j
  assume ij: "i < length (map tr_id rs)" "j < length (map tr_id rs)" "i \<noteq> j"
  then have "transaction_collision (rs ! i) (rs ! j) = None"
    using collision_free_nth [OF assms] by simp
  then have "tr_id (rs ! i) \<noteq> tr_id (rs ! j)" using collision_same_id by blast
  with ij show "map tr_id rs ! i \<noteq> map tr_id rs ! j" by simp
qed

text \<open>Two rows of a collision-free table that agree on a key are the same row.\<close>

lemma collision_free_eq:
  assumes "collision_free rs" "r \<in> set rs" "s \<in> set rs" "transaction_collision r s \<noteq> None"
  shows "r = s"
proof -
  from assms(2,3) obtain i j where "i < length rs" "j < length rs" "r = rs ! i" "s = rs ! j"
    by (metis in_set_conv_nth)
  with collision_free_nth [OF assms(1), of i j] assms(4) show ?thesis by (cases "i = j") simp_all
qed

lemma find_unique:
  assumes "r \<in> set rs" "P r" "\<And>s. s \<in> set rs \<Longrightarrow> P s \<Longrightarrow> s = r"
  shows "find P rs = Some r"
proof (cases "find P rs")
  case None
  with assms(1,2) show ?thesis by (auto simp: find_None_iff)
next
  case (Some s)
  then have "s \<in> set rs" "P s" by (auto simp: find_Some_iff)
  with assms(3) Some show ?thesis by simp
qed

lemma select_by_key_eq:
  assumes "collision_free (db_transactions st)" "r \<in> set (db_transactions st)"
    "tr_provider r = Some p" "tr_idempotencyKey r = Some k"
  shows "select_by_key p k st = Some r"
  unfolding select_by_key_def
proof (rule find_unique [OF assms(2)])
  fix s
  assume "s \<in> set (db_transactions st)" "tr_provider s = Some p \<and> tr_idempotencyKey s = Some k"
  with assms(3,4) have "transaction_collision s r \<noteq> None"
    by (simp add: transaction_collision_def sql_eq_def)
  then show "s = r"
    using collision_free_eq [OF assms(1) \<open>s \<in> set (db_transactions st)\<close> assms(2)] by blast
qed (use assms in simp)

lemma select_by_external_eq:
  assumes "collision_free (db_transactions st)" "r \<in> set (db_transactions st)"
    "tr_provider r = Some p" "tr_externalID r = Some e"
  shows "select_by_external p e st = Some r"
  unfolding select_by_external_def
proof (rule find_unique [OF assms(2)])
  fix s
  assume "s \<in> set (db_transactions st)" "tr_provider s = Some p \<and> tr_externalID s = Some e"
  with assms(3,4) have "transaction_collision s r \<noteq> None"
    by (simp add: transaction_collision_def sql_eq_def)
  then show "s = r"
    using collision_free_eq [OF assms(1) \<open>s \<in> set (db_transactions st)\<close> assms(2)] by blast
qed (use assms in simp)

lemma select_by_id_eq:
  assumes "collision_free (db_transactions st)" "r \<in> set (db_transactions st)" "tr_id r = Some i"
  shows "find (\<lambda>r. tr_id r = uuidOf i) (db_transactions st) = Some r"
proof (rule find_unique [OF assms(2)])
  fix s
  assume s: "s \<in> set (db_transactions st)" "tr_id s = uuidOf i"
  with assms(3) have "transaction_collision s r \<noteq> None"
    by (simp add: transaction_collision_def uuidOf_def)
  then show "s = r" using collision_free_eq [OF assms(1) s(1) assms(2)] by blast
qed (use assms in \<open>simp add: uuidOf_def\<close>)

lemma find_Some_member: "find P xs = Some x \<Longrightarrow> x \<in> set xs \<and> P x"
  by (induction xs) (auto split: if_splits)

lemma find_None_iff_all: "find P xs = None \<longleftrightarrow> (\<forall>x \<in> set xs. \<not> P x)"
  by (induction xs) auto

text \<open>Replacing a row by one with the same identifier that collides with no other row.\<close>

lemma collision_free_replace:
  assumes "collision_free rs" "tr_id new = i"
    "collision new (filter (\<lambda>r. tr_id r \<noteq> i) rs) = None"
  shows "collision_free (map (\<lambda>r. if tr_id r = i then new else r) rs)"
proof (rule collision_freeI)
  let ?f = "\<lambda>r. if tr_id r = i then new else r"
  fix j k
  assume "j < length (map ?f rs)" "k < length (map ?f rs)" and ne: "j \<noteq> k"
  then have jk: "j < length rs" "k < length rs" by simp_all
  have new: "transaction_collision new (rs ! m) = None" if "m < length rs" "tr_id (rs ! m) \<noteq> i" for m
    using assms(3) that by (auto simp: collision_None_iff)
  have "\<not> (tr_id (rs ! j) = i \<and> tr_id (rs ! k) = i)"
    using collision_free_distinct [OF assms(1)] jk ne by (auto simp: distinct_conv_nth)
  then consider "tr_id (rs ! j) = i" "tr_id (rs ! k) \<noteq> i" | "tr_id (rs ! j) \<noteq> i" "tr_id (rs ! k) = i"
    | "tr_id (rs ! j) \<noteq> i" "tr_id (rs ! k) \<noteq> i" by blast
  then have "transaction_collision (?f (rs ! j)) (?f (rs ! k)) = None"
  proof cases
    case 1
    with new [OF jk(2)] show ?thesis by simp
  next
    case 2
    with transaction_collision_sym [OF new [OF jk(1)]] show ?thesis by simp
  next
    case 3
    with collision_free_nth [OF assms(1) jk ne] show ?thesis by simp
  qed
  then show "transaction_collision (map ?f rs ! j) (map ?f rs ! k) = None" using jk by simp
qed

end
