(* ===== verification/Statements.thy ===== *)
theory Statements
  imports StoreInv Processing Reconcile
begin

text \<open>
  The structure every statement keeps: wallets that rehydrate under unique keys, rows of well
  formed transactions that name a wallet, and for every wallet a chain of ledger entries that
  starts from nothing. \<open>keeps\<close> is what a statement promises: it preserves that structure and
  only ever extends the history.
\<close>

section \<open>The structure of a store\<close>

definition wallet_row_ok :: "wallet_row \<Rightarrow> bool" where
  "wallet_row_ok r \<longleftrightarrow> (\<exists>w. wallet_storable w \<and> r = walletArgs w)"

definition ledger_of :: "uuid option \<Rightarrow> store \<Rightarrow> ledger_row list" where
  "ledger_of i st = filter (\<lambda>r. lr_walletID r = i) (db_ledger st)"

text \<open>The entries of one wallet, as a chain from nothing.\<close>

definition ledger_chained :: "wallet_row \<Rightarrow> ledger_row list \<Rightarrow> bool" where
  "ledger_chained r rows \<longleftrightarrow>
     (\<exists>es v. rows = map ledgerArgs es \<and> (\<forall>e \<in> set es. entry_storable e)
        \<and> chained \<lparr>m_units = 0, m_currency = \<lparr>cur_code = wr_currency r\<rparr>\<rparr> v es \<and> unat v \<le> 1
        \<and> distinct (map le_transactionID es))"

text \<open>
  The outbox numbers the events of each wallet from one, without gaps, in the order of the
  table, and no two rows share an event id.
\<close>

definition outbox_numbered :: "store \<Rightarrow> bool" where
  "outbox_numbered st \<longleftrightarrow>
     map or_sequence (db_outbox st) = [1..<length (db_outbox st) + 1]
     \<and> (\<forall>w. map or_aggregateSequence (filter (\<lambda>r. en_AggregateID (or_envelope r) = w) (db_outbox st))
            = [1..<db_sequences st w + 1])
     \<and> distinct (map (\<lambda>r. en_EventID (or_envelope r)) (db_outbox st))"

lemma outbox_numbered_update [simp]:
  "outbox_numbered (st\<lparr>db_wallets := ws\<rparr>) = outbox_numbered st"
  "outbox_numbered (st\<lparr>db_transactions := ts\<rparr>) = outbox_numbered st"
  "outbox_numbered (st\<lparr>db_ledger := es\<rparr>) = outbox_numbered st"
  "outbox_numbered (st\<lparr>db_inbox := ms\<rparr>) = outbox_numbered st"
  "outbox_numbered (st\<lparr>db_holds := hs\<rparr>) = outbox_numbered st"
  by (simp_all add: outbox_numbered_def)

definition structure_ok :: "store \<Rightarrow> bool" where
  "structure_ok st \<longleftrightarrow>
     (\<forall>r \<in> set (db_wallets st). wallet_row_ok r \<and> ledger_chained r (ledger_of (wr_id r) st))
     \<and> distinct (map wr_id (db_wallets st))
     \<and> distinct (map (\<lambda>r. (wr_playerID r, wr_currency r)) (db_wallets st))
     \<and> (\<forall>r \<in> set (db_transactions st). row_ok r \<and> names_wallet r st)
     \<and> collision_free (db_transactions st)
     \<and> (\<forall>e \<in> set (db_ledger st). \<exists>r \<in> set (db_wallets st). wr_id r = lr_walletID e)
     \<and> outbox_numbered st"

definition store_ok :: "store \<Rightarrow> bool" where
  "store_ok st \<longleftrightarrow> structure_ok st \<and> (\<forall>r \<in> set (db_wallets st). wallet_matches_ledger st r = None)"

lemma structure_okD:
  assumes "structure_ok st"
  shows "\<And>r. r \<in> set (db_wallets st) \<Longrightarrow> wallet_row_ok r"
    "\<And>r. r \<in> set (db_wallets st) \<Longrightarrow> ledger_chained r (ledger_of (wr_id r) st)"
    "distinct (map wr_id (db_wallets st))"
    "distinct (map (\<lambda>r. (wr_playerID r, wr_currency r)) (db_wallets st))"
    "\<And>r. r \<in> set (db_transactions st) \<Longrightarrow> row_ok r"
    "\<And>r. r \<in> set (db_transactions st) \<Longrightarrow> names_wallet r st"
    "collision_free (db_transactions st)"
    "\<And>e. e \<in> set (db_ledger st) \<Longrightarrow> \<exists>r \<in> set (db_wallets st). wr_id r = lr_walletID e"
    "outbox_numbered st"
  using assms unfolding structure_ok_def by blast+

lemma store_okD: "store_ok st \<Longrightarrow> structure_ok st"
  "store_ok st \<Longrightarrow> r \<in> set (db_wallets st) \<Longrightarrow> wallet_matches_ledger st r = None"
  by (auto simp: store_ok_def)

lemma empty_store_ok: "store_ok empty_store"
  by (simp add: store_ok_def structure_ok_def empty_store_def collision_free_def outbox_numbered_def)

text \<open>The structure depends on three tables and the numbering of the outbox.\<close>

lemma structure_ok_cong:
  assumes "db_wallets st' = db_wallets st" "db_transactions st' = db_transactions st"
    "db_ledger st' = db_ledger st" "outbox_numbered st' = outbox_numbered st"
  shows "structure_ok st' = structure_ok st"
  by (simp add: structure_ok_def assms ledger_of_def names_wallet_def)

section \<open>History\<close>

text \<open>The columns of a transaction that no statement changes.\<close>

definition row_identity ::
  "transaction_row \<Rightarrow> uuid option \<times> uuid option \<times> string \<times> string \<times> string \<times> int64 \<times> timestamptz
     \<times> string option \<times> string option \<times> string option \<times> string option \<times> string option" where
  "row_identity r =
     (tr_id r, tr_walletID r, tr_playerID r, tr_currency r, tr_kind r, tr_amount r, tr_createdAt r,
      tr_provider r, tr_externalID r, tr_idempotencyKey r, tr_payloadHash r, tr_referenceExternal r)"

definition row_settled :: "transaction_row \<Rightarrow> bool" where
  "row_settled r \<longleftrightarrow> tr_status r \<in> {''PROCESSED'', ''REJECTED'', ''FAILED''}"

definition wallet_identity :: "wallet_row \<Rightarrow> uuid option \<times> string \<times> string \<times> timestamptz" where
  "wallet_identity r = (wr_id r, wr_playerID r, wr_currency r, wr_createdAt r)"

text \<open>
  A later state of the store: transactions and wallets persist under the same identity, a
  settled transaction is not touched again, a wallet's version only advances, and the ledger,
  the inbox and the outbox are only appended to, the outbox by events nobody published.
\<close>

definition adds_events :: "outbox_row list \<Rightarrow> outbox_row list \<Rightarrow> bool" where
  "adds_events rows rows' \<longleftrightarrow> (\<exists>evs. rows' = rows @ evs \<and> (\<forall>r \<in> set evs. or_publishedAt r = None))"

lemma adds_events_refl [simp]: "adds_events rows rows"
  by (simp add: adds_events_def)

lemma adds_events_trans: "adds_events a b \<Longrightarrow> adds_events b c \<Longrightarrow> adds_events a c"
  by (auto simp: adds_events_def)

definition extends :: "store \<Rightarrow> store \<Rightarrow> bool" where
  "extends st st' \<longleftrightarrow>
     (\<forall>r \<in> set (db_transactions st). \<exists>r' \<in> set (db_transactions st').
        row_identity r' = row_identity r \<and> (row_settled r \<longrightarrow> r' = r))
     \<and> (\<forall>r \<in> set (db_wallets st). \<exists>r' \<in> set (db_wallets st').
          wallet_identity r' = wallet_identity r \<and> sint (wr_version r) \<le> sint (wr_version r'))
     \<and> (\<exists>es. db_ledger st' = db_ledger st @ es)
     \<and> (\<exists>ms. db_inbox st' = db_inbox st @ ms)
     \<and> adds_events (db_outbox st) (db_outbox st')"

lemma extends_refl [simp]: "extends st st"
  by (auto simp: extends_def)

lemma extends_trans:
  assumes "extends a b" "extends b c"
  shows "extends a c"
  unfolding extends_def
proof (intro conjI ballI)
  fix r
  assume "r \<in> set (db_transactions a)"
  then obtain r' where r': "r' \<in> set (db_transactions b)" "row_identity r' = row_identity r"
    "row_settled r \<longrightarrow> r' = r" using assms(1) unfolding extends_def by blast
  then obtain r'' where "r'' \<in> set (db_transactions c)" "row_identity r'' = row_identity r'"
    "row_settled r' \<longrightarrow> r'' = r'" using assms(2) unfolding extends_def by blast
  with r' show "\<exists>r' \<in> set (db_transactions c). row_identity r' = row_identity r \<and> (row_settled r \<longrightarrow> r' = r)"
    by metis
next
  fix r
  assume "r \<in> set (db_wallets a)"
  then obtain r' where r': "r' \<in> set (db_wallets b)" "wallet_identity r' = wallet_identity r"
    "sint (wr_version r) \<le> sint (wr_version r')" using assms(1) unfolding extends_def by blast
  then obtain r'' where "r'' \<in> set (db_wallets c)" "wallet_identity r'' = wallet_identity r'"
    "sint (wr_version r') \<le> sint (wr_version r'')" using assms(2) unfolding extends_def by blast
  with r' show "\<exists>r' \<in> set (db_wallets c).
      wallet_identity r' = wallet_identity r \<and> sint (wr_version r) \<le> sint (wr_version r')"
    by (metis order_trans)
qed (use assms adds_events_trans in \<open>auto simp: extends_def\<close>)

definition keeps :: "store \<Rightarrow> store \<Rightarrow> bool" where
  "keeps st st' \<longleftrightarrow> (structure_ok st \<longrightarrow> structure_ok st' \<and> extends st st')"

lemma keeps_refl [simp]: "keeps st st"
  by (simp add: keeps_def)

lemma keeps_trans [trans]: "keeps a b \<Longrightarrow> keeps b c \<Longrightarrow> keeps a c"
  using extends_trans by (auto simp: keeps_def)

lemma keepsI: "(structure_ok st \<Longrightarrow> structure_ok st' \<and> extends st st') \<Longrightarrow> keeps st st'"
  by (simp add: keeps_def)

section \<open>Statements on the side tables\<close>

lemma side_tables_keep:
  assumes "db_wallets st' = db_wallets st" "db_transactions st' = db_transactions st"
    "db_ledger st' = db_ledger st" "\<exists>ms. db_inbox st' = db_inbox st @ ms"
    "adds_events (db_outbox st) (db_outbox st')" "outbox_numbered st \<Longrightarrow> outbox_numbered st'"
  shows "keeps st st'"
proof (rule keepsI)
  assume ok: "structure_ok st"
  with assms(6) have "outbox_numbered st' = outbox_numbered st" using structure_okD(9) [OF ok] by simp
  from structure_ok_cong [OF assms(1-3) this] ok assms(1-5) show "structure_ok st' \<and> extends st st'"
    by (auto simp: extends_def)
qed

lemma exec_Inr_iff [simp]: "exec stmt st = Inr a \<longleftrightarrow> stmt st = Inr a"
  by (simp add: exec_def split: sum.split)

lemma Inbox_Record_keeps: "Inbox_Record m now st = Inr st' \<Longrightarrow> keeps st st'"
  by (rule side_tables_keep) (auto simp: Inbox_Record_def insert_inbox_def split: if_splits)

text \<open>A new event takes the next number of its wallet and of the table.\<close>

lemma insert_outbox_numbered:
  assumes "insert_outbox env st = Inr st'" "outbox_numbered st"
  shows "outbox_numbered st'"
proof -
  let ?n = "db_sequences st (en_AggregateID env) + 1"
  define row where "row = \<lparr>or_envelope = env, or_sequence = length (db_outbox st) + 1,
    or_aggregateSequence = ?n, or_attempts = 0, or_nextAttemptAt = micros (en_OccurredAt env),
    or_claimedBy = None, or_claimedAt = None, or_claimExpiresAt = None, or_publishedAt = None\<rparr>"
  have row: "or_envelope row = env" "or_sequence row = length (db_outbox st) + 1"
    "or_aggregateSequence row = ?n" by (simp_all add: row_def)
  have st': "db_outbox st' = db_outbox st @ [row]"
    "db_sequences st' = (db_sequences st)(en_AggregateID env := ?n)"
    using assms(1) by (auto simp: insert_outbox_def row_def Let_def split: if_splits)
  have snoc: "[1..<n + 1] @ [n + 1] = [1..<n + 1 + 1]" for n :: nat by simp
  show ?thesis
    unfolding outbox_numbered_def
  proof (intro conjI allI)
    show "map or_sequence (db_outbox st') = [1..<length (db_outbox st') + 1]"
      using assms(2) row(2) st'(1) snoc [of "length (db_outbox st)"] by (simp add: outbox_numbered_def)
  next
    fix w
    have old: "map or_aggregateSequence (filter (\<lambda>r. en_AggregateID (or_envelope r) = w) (db_outbox st))
        = [1..<db_sequences st w + 1]" using assms(2) by (simp add: outbox_numbered_def)
    show "map or_aggregateSequence (filter (\<lambda>r. en_AggregateID (or_envelope r) = w) (db_outbox st'))
        = [1..<db_sequences st' w + 1]"
      using old row(1,3) st' snoc [of "db_sequences st w"] by auto
  next
    show "distinct (map (\<lambda>r. en_EventID (or_envelope r)) (db_outbox st'))"
      using assms row(1) st'(1)
      by (auto simp: outbox_numbered_def insert_outbox_def list_ex_iff Let_def split: if_splits)
  qed
qed

lemma insert_outbox_keeps: "insert_outbox env st = Inr st' \<Longrightarrow> keeps st st'"
  by (rule side_tables_keep)
    (auto simp: insert_outbox_numbered insert_outbox_def adds_events_def Let_def split: if_splits)

lemma Outbox_Append_keeps: "Outbox_Append envs st = Inr st' \<Longrightarrow> keeps st st'"
proof (induction envs arbitrary: st)
  case (Cons env envs)
  from Cons.prems obtain st1 where "insert_outbox env st = Inr st1" "Outbox_Append envs st1 = Inr st'"
    by (auto split: sum.splits)
  with Cons.IH insert_outbox_keeps show ?case by (metis keeps_trans)
qed simp

section \<open>Statements on transactions\<close>

lemma names_wallet_persists:
  assumes "names_wallet r st"
    "\<forall>w \<in> set (db_wallets st). \<exists>w' \<in> set (db_wallets st'). wallet_identity w' = wallet_identity w"
  shows "names_wallet r st'"
proof -
  from assms(1) obtain w where "w \<in> set (db_wallets st)" "wr_id w = tr_walletID r" "wr_playerID w = tr_playerID r"
    by (auto simp: names_wallet_def list_ex_iff)
  with assms(2) obtain w' where "w' \<in> set (db_wallets st')" "wallet_identity w' = wallet_identity w" by blast
  with \<open>wr_id w = _\<close> \<open>wr_playerID w = _\<close> show ?thesis
    by (auto simp: names_wallet_def list_ex_iff wallet_identity_def)
qed

lemma names_wallet_cong:
  assumes "row_identity r = row_identity s" "db_wallets st' = db_wallets st"
  shows "names_wallet r st' = names_wallet s st"
  using assms by (simp add: names_wallet_def row_identity_def)

lemma insert_transaction_keeps:
  assumes "insert_transaction row st = Inr st'" "row_ok row"
  shows "keeps st st'"
proof (rule keepsI)
  assume ok: "structure_ok st"
  from assms(1) have st': "st' = st\<lparr>db_transactions := db_transactions st @ [row]\<rparr>"
    and free: "collision row (db_transactions st) = None" and w: "names_wallet row st"
    by (auto simp: insert_transaction_def split: if_splits option.splits)
  have "collision_free (db_transactions st @ [row])"
    by (rule collision_free_append [OF structure_okD(7) [OF ok] free])
  moreover have "names_wallet r st' = names_wallet r st" for r by (simp add: names_wallet_def st')
  ultimately show "structure_ok st' \<and> extends st st'"
    using ok assms(2) w by (auto simp: structure_ok_def extends_def st' ledger_of_def)
qed

lemma Transactions_Record_keeps:
  assumes "Transactions_Record t c st = Inr st'" "tx_live t" "waits_ahead t" "tx_storable t"
  shows "keeps st st'"
proof -
  from assms(1) have "insert_transaction (row_of t c 0) st = Inr st'"
    by (auto simp: Transactions_Record_def encoded_def insert_transaction_if_new_def split: sum.splits if_splits)
  with row_of_ok [OF assms(2,3,4)] show ?thesis by (rule insert_transaction_keeps [rotated])
qed

text \<open>Changing rows one by one, under conditions on each row.\<close>

lemma map_rows_keeps:
  assumes "structure_ok st" "collision_free (map g (db_transactions st))"
    and "\<And>r. r \<in> set (db_transactions st) \<Longrightarrow>
      row_ok (g r) \<and> row_identity (g r) = row_identity r \<and> (row_settled r \<longrightarrow> g r = r)"
  shows "keeps st (st\<lparr>db_transactions := map g (db_transactions st)\<rparr>)" (is "keeps st ?st")
proof (rule keepsI)
  have "names_wallet (g r) ?st" if "r \<in> set (db_transactions st)" for r
  proof -
    have "names_wallet (g r) ?st = names_wallet r st"
      using assms(3) [OF that] by (intro names_wallet_cong) simp_all
    with structure_okD(6) [OF assms(1) that] show ?thesis by simp
  qed
  moreover have "names_wallet r ?st = names_wallet r st" for r by (simp add: names_wallet_def)
  ultimately show "structure_ok ?st \<and> extends st ?st"
    using assms by (auto simp: structure_ok_def extends_def ledger_of_def)
qed

lemma collision_schedule [simp]:
  "transaction_collision (r\<lparr>tr_nextAttemptAt := x\<rparr>) s = transaction_collision r s"
  "transaction_collision r (s\<lparr>tr_nextAttemptAt := x\<rparr>) = transaction_collision r s"
proof -
  have "processed_reversal (q\<lparr>tr_nextAttemptAt := x\<rparr>) = processed_reversal q" for q
    by (simp add: processed_reversal_def is_reversal_row_def)
  then show "transaction_collision (r\<lparr>tr_nextAttemptAt := x\<rparr>) s = transaction_collision r s"
    "transaction_collision r (s\<lparr>tr_nextAttemptAt := x\<rparr>) = transaction_collision r s"
    by (simp_all add: transaction_collision_def cong: if_cong)
qed

lemma collision_free_schedule:
  "collision_free (map (\<lambda>r. if P r then r\<lparr>tr_nextAttemptAt := x\<rparr> else r) rs) = collision_free rs"
proof -
  have "transaction_collision (if P r then r\<lparr>tr_nextAttemptAt := x\<rparr> else r)
      (if P s then s\<lparr>tr_nextAttemptAt := x\<rparr> else s) = transaction_collision r s" for r s by simp
  then show ?thesis by (simp add: collision_free_def sorted_wrt_map)
qed

lemma reschedule_keeps:
  assumes "\<And>r. P r \<Longrightarrow> tr_status r = ''PENDING_REFERENCE''"
  shows "keeps st (st\<lparr>db_transactions :=
    map (\<lambda>r. if P r then r\<lparr>tr_nextAttemptAt := x\<rparr> else r) (db_transactions st)\<rparr>)" (is "keeps st ?st")
proof (cases "structure_ok st")
  case True
  then show ?thesis
    by (rule map_rows_keeps)
      (use assms structure_okD(5,7) [OF True] in
        \<open>auto simp: collision_free_schedule row_identity_def row_settled_def\<close>)
qed (simp add: keeps_def)

lemma MakeDue_keeps: "MakeDue op now st = Inr (n, st') \<Longrightarrow> keeps st st'"
  using reschedule_keeps [of "waits_on op" st] by (auto simp: MakeDue_def waits_on_def)

lemma Reschedule_keeps: "Reschedule i now st = Inr st' \<Longrightarrow> keeps st st'"
  using reschedule_keeps [of "\<lambda>r. tr_id r = uuidOf i \<and> tr_status r = ''PENDING_REFERENCE''" st "Some (micros now)"]
  by (auto simp: Reschedule_def Let_def split: if_splits)

lemma take_hold_tables:
  assumes "take_hold row st = Inr st'"
  shows "db_wallets st' = db_wallets st" "db_transactions st' = db_transactions st"
    "db_ledger st' = db_ledger st" "db_inbox st' = db_inbox st" "db_outbox st' = db_outbox st"
    "outbox_numbered st' = outbox_numbered st"
  using assms by (auto simp: take_hold_def Let_def split: if_splits)

lemma take_hold_keeps: "take_hold row st = Inr st' \<Longrightarrow> keeps st st'"
  by (rule side_tables_keep) (simp_all add: take_hold_tables)

text \<open>The update of one row, for a change the caller can justify on the row it meets.\<close>

lemma update_transaction_keeps:
  assumes "update_transaction i f st = Inr (n, st')"
    and "\<And>old. structure_ok st \<Longrightarrow> old \<in> set (db_transactions st) \<Longrightarrow> tr_id old = Some i \<Longrightarrow>
      transaction_guard old (f old) = None \<Longrightarrow>
      row_ok (f old) \<and> row_identity (f old) = row_identity old \<and> \<not> row_settled old"
  shows "keeps st st'"
proof (cases "structure_ok st")
  case True
  show ?thesis
  proof (cases "find (\<lambda>r. tr_id r = uuidOf i) (db_transactions st)")
    case None
    with assms(1) show ?thesis by (simp add: update_transaction_def)
  next
    case (Some old)
    then have old: "old \<in> set (db_transactions st)" "tr_id old = Some i"
      by (auto simp: find_Some_iff uuidOf_def)
    from assms(1) Some have guard: "transaction_guard old (f old) = None"
      and free: "collision (f old) (filter (\<lambda>r. tr_id r \<noteq> Some i) (db_transactions st)) = None"
      and st': "st' = replace_transaction (Some i) (f old) st
        \<or> take_hold (f old) (replace_transaction (Some i) (f old) st) = Inr st'"
      by (auto simp: update_transaction_def uuidOf_def Let_def split: option.splits if_splits)
    note new = assms(2) [OF True old guard]
    then have "tr_id (f old) = Some i" using old by (simp add: row_identity_def)
    from collision_free_replace [OF structure_okD(7) [OF True] this free]
    have cf: "collision_free (map (\<lambda>r. if tr_id r = Some i then f old else r) (db_transactions st))" .
    have same: "r = old" if "r \<in> set (db_transactions st)" "tr_id r = Some i" for r
      using collision_free_eq [OF structure_okD(7) [OF True] that(1) old(1)] that old
      by (simp add: collision_same_id)
    have rep: "keeps st (replace_transaction (Some i) (f old) st)"
      unfolding replace_transaction_def
    proof (rule map_rows_keeps [OF True cf])
      fix r
      assume r: "r \<in> set (db_transactions st)"
      show "row_ok (if tr_id r = Some i then f old else r)
        \<and> row_identity (if tr_id r = Some i then f old else r) = row_identity r
        \<and> (row_settled r \<longrightarrow> (if tr_id r = Some i then f old else r) = r)"
      proof (cases "tr_id r = Some i")
        case True
        with same [OF r] new show ?thesis by simp
      next
        case False
        with structure_okD(5) [OF \<open>structure_ok st\<close> r] show ?thesis by simp
      qed
    qed
    from st' show ?thesis
    proof
      assume "st' = replace_transaction (Some i) (f old) st"
      with rep show ?thesis by simp
    next
      assume "take_hold (f old) (replace_transaction (Some i) (f old) st) = Inr st'"
      from keeps_trans [OF rep take_hold_keeps [OF this]] show ?thesis .
    qed
  qed
qed (simp add: keeps_def)

text \<open>An update that changed something left the changed row.\<close>

lemma update_transaction_row:
  assumes "update_transaction i f st = Inr (n, st')" "n \<noteq> 0"
  obtains old where "old \<in> set (db_transactions st)" "tr_id old = Some i" "transaction_guard old (f old) = None"
    "f old \<in> set (db_transactions st')"
proof -
  from assms obtain old where find: "find (\<lambda>r. tr_id r = Some i) (db_transactions st) = Some old"
    by (cases "find (\<lambda>r. tr_id r = Some i) (db_transactions st)")
      (auto simp: update_transaction_def uuidOf_def)
  note old = find_Some_member [OF find]
  from assms(1) find have guard: "transaction_guard old (f old) = None"
    and st': "st' = replace_transaction (Some i) (f old) st
      \<or> take_hold (f old) (replace_transaction (Some i) (f old) st) = Inr st'"
    by (auto simp: update_transaction_def uuidOf_def Let_def split: option.splits if_splits)
  have "f old \<in> set (db_transactions (replace_transaction (Some i) (f old) st))"
    using old by (force simp: replace_transaction_def)
  with st' have "f old \<in> set (db_transactions st')" by (auto simp: take_hold_tables)
  with old guard that show ?thesis by blast
qed

end
