(* ===== verification/Books.thy ===== *)
theory Books
  imports Statements
begin

text \<open>
  The statements that touch wallets and their ledgers, the check at commit, and what
  reconciliation finds in a store that satisfies the invariant.
\<close>

section \<open>Ledgers as chains\<close>

lemma ledgerArgs_sel [simp]:
  "lr_id (ledgerArgs e) = Some (le_id e)" "lr_walletID (ledgerArgs e) = Some (le_walletID e)"
  "lr_transactionID (ledgerArgs e) = Some (le_transactionID e)"
  "lr_currency (ledgerArgs e) = cur_code (m_currency (le_amount e))"
  "lr_balanceBefore (ledgerArgs e) = m_units (le_balanceBefore e)"
  "lr_balanceAfter (ledgerArgs e) = m_units (le_balanceAfter e)"
  "lr_walletVersion (ledgerArgs e) = le_walletVersion e"
  by (simp_all add: ledgerArgs_def uuidOf_def Currency_String_def minorOf_def)

lemma walletArgs_sel [simp]:
  "wr_id (walletArgs w) = Some (w_id w)" "wr_playerID (walletArgs w) = w_playerID w"
  "wr_currency (walletArgs w) = cur_code (Wallet_Currency w)"
  "wr_balance (walletArgs w) = m_units (w_balance w)" "wr_version (walletArgs w) = w_version w"
  "wr_createdAt (walletArgs w) = micros (w_createdAt w)" "wr_updatedAt (walletArgs w) = micros (w_updatedAt w)"
  by (simp_all add: walletArgs_def uuidOf_def Currency_String_def minorOf_def)

lemma ledger_read_rows:
  assumes "\<forall>e \<in> set es. entry_storable e"
  shows "ledger_read (map ledgerArgs es) = Inr es"
proof -
  have "row_entry (ledgerArgs e) = Inr e" if "entry_storable e" for e
    using that by (simp add: row_entry_Inr_iff)
  with assms show ?thesis unfolding ledger_read_def by (induction es) auto
qed

text \<open>Where a chain ends.\<close>

definition end_balance :: "money \<Rightarrow> ledger_entry list \<Rightarrow> money" where
  "end_balance b es = (if es = [] then b else le_balanceAfter (last es))"

definition end_version :: "uint64 \<Rightarrow> ledger_entry list \<Rightarrow> uint64" where
  "end_version v es = (if es = [] then v else le_walletVersion (last es))"

lemma end_simps [simp]:
  "end_balance b [] = b" "end_version v [] = v"
  "end_balance b (e # es) = end_balance (le_balanceAfter e) es"
  "end_version v (e # es) = end_version (le_walletVersion e) es"
  by (auto simp: end_balance_def end_version_def)

lemma chained_snoc:
  "chained b v (es @ [e]) \<longleftrightarrow>
     chained b v es \<and> entry_ok e \<and> le_balanceBefore e = end_balance b es
     \<and> le_walletVersion e = end_version v es + 1 \<and> unat (le_walletVersion e) = unat (end_version v es) + 1"
  by (induction es arbitrary: b v) auto

lemma chained_versions_ge:
  "chained b v es \<Longrightarrow> e \<in> set es \<Longrightarrow> unat v < unat (le_walletVersion e)"
  by (induction es arbitrary: b v) fastforce+

lemma chained_sorted:
  "chained b v es \<Longrightarrow> sorted_wrt (\<lambda>e e'. unat (le_walletVersion e) < unat (le_walletVersion e')) es"
proof (induction es arbitrary: b v)
  case (Cons e es)
  then have c: "chained (le_balanceAfter e) (le_walletVersion e) es" by (auto simp del: One_nat_def)
  with Cons.IH [OF c] chained_versions_ge [OF c] show ?case by simp
qed simp

lemma chained_end_version: "chained b v es \<Longrightarrow> unat (end_version v es) = unat v + length es"
  by (induction es arbitrary: b v) auto

lemma chained_currency:
  assumes "chained b v es"
  shows "m_currency (end_balance b es) = m_currency b"
    and "\<forall>e \<in> set es. entry_ok e \<and> m_currency (le_amount e) = m_currency b"
proof -
  have cur: "m_currency (le_balanceBefore e) = m_currency (le_amount e)"
    "m_currency (le_balanceAfter e) = m_currency (le_amount e)" if "entry_ok e" for e
    using that by (simp_all add: entry_ok_def)
  have "m_currency (end_balance b es) = m_currency b
      \<and> (\<forall>e \<in> set es. entry_ok e \<and> m_currency (le_amount e) = m_currency b)"
    using assms by (induction es arbitrary: b v) (use cur in fastforce)+
  then show "m_currency (end_balance b es) = m_currency b"
    "\<forall>e \<in> set es. entry_ok e \<and> m_currency (le_amount e) = m_currency b" by auto
qed

lemma entry_storable_version: "entry_storable e \<Longrightarrow> sint (le_walletVersion e) = int (unat (le_walletVersion e))"
  using unat_of_nonneg_sint [of "le_walletVersion e"] by (simp add: entry_storable_def sle_int)

text \<open>Entries in the order of their versions.\<close>

abbreviation in_order :: "ledger_entry list \<Rightarrow> bool" where
  "in_order es \<equiv> (\<forall>e \<in> set es. entry_storable e)
     \<and> sorted_wrt (\<lambda>e e'. unat (le_walletVersion e) < unat (le_walletVersion e')) es"

lemma by_version_in_order:
  assumes "in_order es"
  shows "by_version (map ledgerArgs es) = map ledgerArgs es"
proof -
  have "sorted_wrt (\<lambda>e e'. sint (le_walletVersion e) \<le> sint (le_walletVersion e')) es"
    by (rule sorted_wrt_mono_rel [OF _ conjunct2 [OF assms]])
      (use assms in \<open>simp add: entry_storable_version del: of_nat_unat\<close>)
  then have "sorted (map (\<lambda>r. sint (lr_walletVersion r)) (map ledgerArgs es))"
    by (simp add: sorted_wrt_map)
  then show ?thesis unfolding by_version_def by (rule sort_key_id_if_sorted)
qed

lemma by_version_chained:
  assumes "chained b v es" "\<forall>e \<in> set es. entry_storable e"
  shows "by_version (map ledgerArgs es) = map ledgerArgs es"
  by (rule by_version_in_order) (use chained_sorted [OF assms(1)] assms(2) in blast)

lemma last_entry_chained:
  assumes "ledger_of i st = map ledgerArgs es" "chained b v es" "\<forall>e \<in> set es. entry_storable e"
  shows "last_entry i st = (if es = [] then None else Some (ledgerArgs (last es)))"
proof -
  have "last_entry i st = (case rev (map ledgerArgs es) of [] \<Rightarrow> None | r # _ \<Rightarrow> Some r)"
    using by_version_chained [OF assms(2,3)] assms(1) by (simp add: last_entry_def ledger_of_def)
  then show ?thesis by (cases es rule: rev_cases) auto
qed

section \<open>Statements on wallets\<close>

lemma insert_wallet_keeps:
  assumes "insert_wallet (walletArgs w) st = Inr st'" "wallet_storable w"
  shows "keeps st st'"
proof (rule keepsI)
  let ?r = "walletArgs w"
  assume ok: "structure_ok st"
  from assms(1) have st': "st' = st\<lparr>db_wallets := db_wallets st @ [?r]\<rparr>"
    and new: "\<forall>r \<in> set (db_wallets st). wr_id r \<noteq> wr_id ?r"
      "\<forall>r \<in> set (db_wallets st). \<not> (wr_playerID r = wr_playerID ?r \<and> wr_currency r = wr_currency ?r)"
    by (auto simp: insert_wallet_def list_ex_iff split: if_splits option.splits)
  have empty: "ledger_of (wr_id ?r) st = []"
  proof -
    have "lr_walletID e \<noteq> wr_id ?r" if "e \<in> set (db_ledger st)" for e
      using structure_okD(8) [OF ok that] new(1) by fastforce
    then show ?thesis by (simp add: ledger_of_def filter_empty_conv)
  qed
  have "ledger_chained ?r []" unfolding ledger_chained_def by (rule exI [of _ "[]"]) (auto intro: exI [of _ 0])
  moreover have "wallet_row_ok ?r" using assms(2) by (auto simp: wallet_row_ok_def)
  moreover have "ledger_of i st' = ledger_of i st" for i by (simp add: ledger_of_def st')
  moreover have "names_wallet r st'" if "names_wallet r st" for r
    using that by (auto simp: names_wallet_def st')
  ultimately show "structure_ok st' \<and> extends st st'"
    using ok new empty unfolding structure_ok_def extends_def
    by (auto simp: st')
qed

text \<open>The row a movement writes is again that of a wallet.\<close>

lemma moved_row_ok:
  assumes "wallet_storable w" "0 < kept (le_createdAt e)"
    "wallet_checks ((walletArgs w)\<lparr>wr_balance := m_units (le_balanceAfter e), wr_version := le_walletVersion e,
       wr_updatedAt := micros (le_createdAt e)\<rparr>) = None"
  shows "wallet_row_ok ((walletArgs w)\<lparr>wr_balance := m_units (le_balanceAfter e),
    wr_version := le_walletVersion e, wr_updatedAt := micros (le_createdAt e)\<rparr>)"
proof -
  let ?w = "w\<lparr>w_balance := \<lparr>m_units = m_units (le_balanceAfter e), m_currency = m_currency (w_balance w)\<rparr>,
    w_version := le_walletVersion e, w_updatedAt := kept (le_createdAt e)\<rparr>"
  have "0 \<le> sint (m_units (le_balanceAfter e))" "1 \<le> sint (le_walletVersion e)" "micros (w_createdAt w) \<le> micros (le_createdAt e)"
    using assms(3) by (auto simp: wallet_checks_def sless_int split: if_splits)
  moreover from this(3) have "w_createdAt w \<le> kept (le_createdAt e)"
    using assms(1) by (metis instant_of_le_iff kept_def wallet_storable_def)
  moreover from calculation(2) have "le_walletVersion e \<noteq> 0" by auto
  ultimately have "wallet_storable ?w"
    using assms(1,2) by (simp add: wallet_storable_def wallet_ok_def Wallet_Currency_def storable_money_def sle_int)
  moreover have "walletArgs ?w = (walletArgs w)\<lparr>wr_balance := m_units (le_balanceAfter e),
      wr_version := le_walletVersion e, wr_updatedAt := micros (le_createdAt e)\<rparr>"
    by (simp add: walletArgs_def Wallet_Currency_def minorOf_def)
  ultimately show ?thesis by (metis wallet_row_ok_def)
qed

lemma next_version:
  assumes "1 \<le> sint (v :: int64)" "0 \<le> sint (v - 1)"
  shows "sint (v - 1) \<le> sint v"
proof -
  have "sint v - sint (1 :: int64) \<in> int64_range"
    using assms(1) int64_upper [of v] by (simp add: int64_range_def)
  from sint_sub_int64 [OF this] show ?thesis by simp
qed

lemma move_wallet_keeps:
  assumes "move_wallet e st = Inr (n, st')" "0 < kept (le_createdAt e)"
  shows "keeps st st'"
proof (rule keepsI)
  assume ok: "structure_ok st"
  let ?hit = "\<lambda>r. wr_id r = Some (le_walletID e) \<and> wr_version r = le_walletVersion e - 1"
  let ?new = "\<lambda>r. r\<lparr>wr_balance := m_units (le_balanceAfter e), wr_version := le_walletVersion e,
    wr_updatedAt := micros (le_createdAt e)\<rparr>"
  define g :: "wallet_row \<Rightarrow> wallet_row" where "g = (\<lambda>r. if ?hit r then ?new r else r)"
  show "structure_ok st' \<and> extends st st'"
  proof (cases "find ?hit (db_wallets st)")
    case None
    with assms(1) have "st' = st" by (simp add: move_wallet_def uuidOf_def minorOf_def)
    with ok show ?thesis by simp
  next
    case (Some old)
    then have old: "old \<in> set (db_wallets st)" "?hit old" by (auto simp: find_Some_iff)
    from assms(1) Some have st': "st' = st\<lparr>db_wallets := map g (db_wallets st)\<rparr>"
      and checks: "wallet_checks (?new old) = None"
      by (auto simp: move_wallet_def uuidOf_def minorOf_def Let_def g_def split: option.splits)
    have same: "r = old" if "r \<in> set (db_wallets st)" "?hit r" for r
      using that old structure_okD(3) [OF ok] by (metis inj_on_eq_iff distinct_map)
    from structure_okD(1) [OF ok old(1)] obtain w where w: "wallet_storable w" "old = walletArgs w"
      by (auto simp: wallet_row_ok_def)
    have new_ok: "wallet_row_ok (?new old)"
      using moved_row_ok [OF w(1) assms(2)] checks by (simp add: w(2))
    have row: "wallet_row_ok (g r)" if "r \<in> set (db_wallets st)" for r
    proof (cases "?hit r")
      case True
      with same [OF that] new_ok show ?thesis by (simp add: g_def)
    qed (use structure_okD(1) [OF ok that] in \<open>auto simp: g_def\<close>)
    have ident: "wallet_identity (g r) = wallet_identity r" for r by (simp add: g_def wallet_identity_def)
    have version: "sint (wr_version r) \<le> sint (wr_version (g r))" if "r \<in> set (db_wallets st)" for r
    proof (cases "?hit r")
      case True
      then have "r = old" using same that by blast
      moreover have "1 \<le> sint (le_walletVersion e)"
        using checks by (auto simp: wallet_checks_def sless_int split: if_splits)
      moreover have "0 \<le> sint (wr_version old)" using w by (simp add: wallet_storable_def sle_int)
      ultimately show ?thesis using True next_version [of "le_walletVersion e"] by (simp add: g_def)
    qed (auto simp: g_def)
    have ledger: "ledger_chained (g r) rows = ledger_chained r rows" for r rows
      by (simp add: ledger_chained_def g_def)
    have maps: "map wr_id (map g (db_wallets st)) = map wr_id (db_wallets st)"
      "map (\<lambda>r. (wr_playerID r, wr_currency r)) (map g (db_wallets st))
         = map (\<lambda>r. (wr_playerID r, wr_currency r)) (db_wallets st)"
      by (simp_all add: g_def)
    have names: "names_wallet r st'" if "names_wallet r st" for r
      by (rule names_wallet_persists [OF that]) (use ident in \<open>auto simp: st'\<close>)
    have "structure_ok st'"
      unfolding structure_ok_def
    proof (intro conjI ballI)
      fix r'
      assume "r' \<in> set (db_wallets st')"
      then obtain r where r: "r \<in> set (db_wallets st)" "r' = g r" by (auto simp: st')
      then show "wallet_row_ok r'" using row by blast
      have "wr_id r' = wr_id r" using ident [of r] r(2) by (simp add: wallet_identity_def)
      moreover have "ledger_of i st' = ledger_of i st" for i by (simp add: ledger_of_def st')
      ultimately show "ledger_chained r' (ledger_of (wr_id r') st')"
        using structure_okD(2) [OF ok r(1)] r(2) ledger by simp
    next
      have table: "db_wallets st' = map g (db_wallets st)" by (simp add: st')
      show "distinct (map wr_id (db_wallets st'))"
        unfolding table maps by (rule structure_okD(3) [OF ok])
      show "distinct (map (\<lambda>r. (wr_playerID r, wr_currency r)) (db_wallets st'))"
        unfolding table maps by (rule structure_okD(4) [OF ok])
      show "collision_free (db_transactions st')" using structure_okD(7) [OF ok] by (simp add: st')
      show "outbox_numbered st'" using structure_okD(9) [OF ok] by (simp add: st')
    next
      fix r
      assume "r \<in> set (db_transactions st')"
      then show "row_ok r" "names_wallet r st'"
        using structure_okD(5,6) [OF ok] names by (simp_all add: st')
    next
      fix l
      assume "l \<in> set (db_ledger st')"
      then obtain r where "r \<in> set (db_wallets st)" "wr_id r = lr_walletID l"
        using structure_okD(8) [OF ok] by (auto simp: st')
      moreover have "wr_id (g r) = wr_id r" by (simp add: g_def)
      moreover have "g r \<in> set (db_wallets st')" using calculation(1) by (simp add: st')
      ultimately show "\<exists>r \<in> set (db_wallets st'). wr_id r = lr_walletID l" by (intro bexI [of _ "g r"]) simp_all
    qed
    moreover have "extends st st'"
      unfolding extends_def using ident version by (auto simp: st')
    ultimately show ?thesis ..
  qed
qed

section \<open>Statements on the ledger\<close>

lemma structure_wallet_unique:
  assumes "structure_ok st" "r \<in> set (db_wallets st)" "s \<in> set (db_wallets st)" "wr_id r = wr_id s"
  shows "r = s"
  using structure_okD(3) [OF assms(1)] assms(2-4) by (metis inj_on_eq_iff distinct_map)

lemma structure_find_wallet:
  assumes "structure_ok st" "r \<in> set (db_wallets st)"
  shows "find (\<lambda>w. wr_id w = wr_id r) (db_wallets st) = Some r"
  by (rule find_unique [OF assms(2)]) (use structure_wallet_unique [OF assms(1)] assms(2) in auto)

text \<open>What the chain trigger has checked, on a wallet whose ledger is a chain.\<close>

lemma ledger_chain_snoc:
  assumes "structure_ok st" "r \<in> set (db_wallets st)" "wr_id r = Some (le_walletID e)"
    "ledger_chain (ledgerArgs e) st = None" "ledger_checks (ledgerArgs e) = None" "entry_ok e" "whole (le_createdAt e)"
    "\<forall>l \<in> set (ledger_of (wr_id r) st). lr_transactionID l \<noteq> Some (le_transactionID e)"
  shows "ledger_chained r (ledger_of (wr_id r) st @ [ledgerArgs e])"
proof -
  let ?b = "\<lparr>m_units = 0, m_currency = \<lparr>cur_code = wr_currency r\<rparr>\<rparr> :: money"
  from structure_okD(2) [OF assms(1,2)] obtain es v where es: "ledger_of (wr_id r) st = map ledgerArgs es"
    "\<forall>e \<in> set es. entry_storable e" "chained ?b v es" "unat v \<le> 1" "distinct (map le_transactionID es)"
    unfolding ledger_chained_def by blast
  from structure_okD(1) [OF assms(1,2)] obtain w where w: "wallet_storable w" "r = walletArgs w"
    by (auto simp: wallet_row_ok_def)
  have "wallet_currency_of (wr_id r) st = Some (wr_currency r)"
    by (simp add: wallet_currency_of_def structure_find_wallet [OF assms(1,2)])
  with assms(3,4) have cur: "cur_code (m_currency (le_amount e)) = wr_currency r"
    by (auto simp: ledger_chain_def split: if_splits)
  have version: "1 \<le> sint (le_walletVersion e)"
    using assms(5) by (auto simp: ledger_checks_def sless_int split: if_splits)
  have "storable_money (le_amount e)"
    using w cur by (simp add: storable_money_def wallet_storable_def Wallet_Currency_def)
  with assms(6,7) version have st: "entry_storable e" by (simp add: entry_storable_def sle_int)
  have fresh: "le_transactionID e \<notin> set (map le_transactionID es)"
    using assms(8) es(1) by auto
  have money: "m = n" if "m_units m = m_units n" "m_currency m = m_currency n" for m n :: money
    using that by simp
  have mcur: "m_currency (le_balanceBefore e) = \<lparr>cur_code = wr_currency r\<rparr>"
    using assms(6) cur by (cases "m_currency (le_amount e)") (simp add: entry_ok_def)
  note last = last_entry_chained [OF es(1) es(3) es(2)]
  show ?thesis
  proof (cases "es = []")
    case True
    define v' :: uint64 where "v' = le_walletVersion e - 1"
    from True last assms(3,4) have "le_walletVersion e = 1 \<or> le_walletVersion e = 2"
      "m_units (le_balanceBefore e) = 0"
      by (auto simp: ledger_chain_def Let_def split: if_splits)
    then have "unat v' \<le> 1" "unat (le_walletVersion e) = unat v' + 1" "le_balanceBefore e = ?b"
      using mcur by (auto simp: v'_def intro: money)
    then have "chained ?b v' [e]" using assms(6) by (simp add: v'_def)
    with True es(1) st \<open>unat v' \<le> 1\<close> show ?thesis
      unfolding ledger_chained_def by (intro exI [of _ "[e]"] exI [of _ v'] conjI) (simp_all del: chained.simps)
  next
    case False
    let ?l = "last es"
    from False last assms(3,4) have next_version: "le_walletVersion e = le_walletVersion ?l + 1"
      and units: "m_units (le_balanceBefore e) = m_units (le_balanceAfter ?l)"
      by (auto simp: ledger_chain_def split: if_splits)
    from False have ends: "end_balance ?b es = le_balanceAfter ?l" "end_version v es = le_walletVersion ?l"
      by (simp_all add: end_balance_def end_version_def)
    have "m_currency (le_balanceAfter ?l) = \<lparr>cur_code = wr_currency r\<rparr>"
      using chained_currency [OF es(3)] ends(1) by simp
    with units mcur have "le_balanceBefore e = le_balanceAfter ?l" by (intro money) simp_all
    moreover have "unat (le_walletVersion e) = unat (le_walletVersion ?l) + 1"
      using next_version version Suc_version [of "le_walletVersion ?l"] by force
    ultimately have "chained ?b v (es @ [e])"
      using assms(6) next_version ends es(3) by (simp add: chained_snoc)
    with es st fresh show ?thesis
      unfolding ledger_chained_def by (intro exI [of _ "es @ [e]"] exI [of _ v] conjI) simp_all
  qed
qed

lemma insert_whole_entry_keeps:
  assumes "insert_ledger_entry (ledgerArgs e) st = Inr st'" "entry_ok e" "whole (le_createdAt e)"
  shows "keeps st st'"
proof (rule keepsI)
  assume ok: "structure_ok st"
  from assms(1) have st': "st' = st\<lparr>db_ledger := db_ledger st @ [ledgerArgs e]\<rparr>"
    and chain: "ledger_chain (ledgerArgs e) st = None" "ledger_checks (ledgerArgs e) = None"
    and key: "\<forall>l \<in> set (db_ledger st). \<not> (lr_transactionID l = Some (le_transactionID e)
      \<and> lr_walletID l = Some (le_walletID e))"
    by (auto simp: insert_ledger_entry_def list_ex_iff split: if_splits option.splits)
  have of': "ledger_of i st' = ledger_of i st @ (if i = Some (le_walletID e) then [ledgerArgs e] else [])" for i
    by (simp add: ledger_of_def st')
  have "wallet_currency_of (Some (le_walletID e)) st \<noteq> None"
    using chain(1) by (auto simp: ledger_chain_def split: if_splits)
  then obtain r0 where r0: "r0 \<in> set (db_wallets st)" "wr_id r0 = Some (le_walletID e)"
    by (auto simp: wallet_currency_of_def dest: find_Some_member)
  have "ledger_chained r (ledger_of (wr_id r) st')" if r: "r \<in> set (db_wallets st)" for r
  proof (cases "wr_id r = Some (le_walletID e)")
    case True
    have "\<forall>l \<in> set (ledger_of (wr_id r) st). lr_transactionID l \<noteq> Some (le_transactionID e)"
      using key True by (auto simp: ledger_of_def)
    from ledger_chain_snoc [OF ok r True chain assms(2,3) this] True show ?thesis by (simp add: of')
  next
    case False
    with structure_okD(2) [OF ok r] show ?thesis by (simp add: of')
  qed
  moreover have "names_wallet r st' = names_wallet r st" for r by (simp add: names_wallet_def st')
  ultimately show "structure_ok st' \<and> extends st st'"
    using ok r0 by (auto simp: structure_ok_def extends_def st')
qed

text \<open>A finer time is written as the microsecond it completes.\<close>

lemma insert_ledger_entry_keeps:
  assumes "insert_ledger_entry (ledgerArgs e) st = Inr st'" "entry_ok e" "0 < kept (le_createdAt e)"
  shows "keeps st st'"
proof (rule insert_whole_entry_keeps)
  let ?e = "e\<lparr>le_createdAt := kept (le_createdAt e)\<rparr>"
  show "insert_ledger_entry (ledgerArgs ?e) st = Inr st'" using assms(1) by (simp add: ledgerArgs_def)
  show "entry_ok ?e" using assms(2,3) by (simp add: entry_ok_def)
qed simp

section \<open>Commit\<close>

lemma wallet_matches_ledger_cong:
  "ledger_of (wr_id w) st' = ledger_of (wr_id w) st \<Longrightarrow> wallet_matches_ledger st' w = wallet_matches_ledger st w"
  by (simp add: wallet_matches_ledger_def last_entry_def ledger_of_def)

lemma commit_ok:
  assumes "structure_ok st'" "store_ok st" "commit_violation st st' = None"
  shows "store_ok st'"
  unfolding store_ok_def
proof (intro conjI ballI)
  fix w
  assume w: "w \<in> set (db_wallets st')"
  show "wallet_matches_ledger st' w = None"
  proof (cases "w \<in> set (touched st st')")
    case True
    with assms(3) show ?thesis by (simp add: commit_violation_def first_some_None_iff)
  next
    case False
    with w have old: "w \<in> set (db_wallets st)" "ledger_of (wr_id w) st' = ledger_of (wr_id w) st"
      by (auto simp: touched_def ledger_of_def)
    from wallet_matches_ledger_cong [OF old(2)] store_okD(2) [OF assms(2) old(1)] show ?thesis
      by (rule trans)
  qed
qed (fact assms(1))

text \<open>A movement transaction whose statements keep the structure keeps the invariant.\<close>

lemma WithinMovement_ok:
  assumes "store_ok st" "\<And>a st'. fn st = Inr (a, st') \<Longrightarrow> keeps st st'"
  shows "store_ok (snd (WithinMovement fn st))" "extends st (snd (WithinMovement fn st))"
proof -
  have "store_ok (snd (WithinMovement fn st)) \<and> extends st (snd (WithinMovement fn st))"
  proof (cases "fn st")
    case (Inl err)
    with assms(1) show ?thesis by (simp add: WithinMovement_def)
  next
    case (Inr r)
    obtain a st' where r: "r = (a, st')" by force
    with assms(2) Inr have "structure_ok st'" "extends st st'"
      using store_okD(1) [OF assms(1)] by (auto simp: keeps_def)
    with commit_ok [OF this(1) assms(1)] Inr r assms(1) show ?thesis
      by (auto simp: WithinMovement_def split: option.split)
  qed
  then show "store_ok (snd (WithinMovement fn st))" "extends st (snd (WithinMovement fn st))" by auto
qed

section \<open>Reconciliation\<close>

lemma chained_ConsD:
  assumes "chained b v (e # es)"
  shows "chained (le_balanceAfter e) (le_walletVersion e) es"
    "sint (m_units (le_balanceAfter e)) = sint (m_units b) + entry_delta e"
proof -
  from assms show "chained (le_balanceAfter e) (le_walletVersion e) es" unfolding chained.simps by blast
  from assms have "entry_ok e" "le_balanceBefore e = b" unfolding chained.simps by blast+
  then show "sint (m_units (le_balanceAfter e)) = sint (m_units b) + entry_delta e"
    by (auto simp: entry_ok_def entry_delta_def)
qed

lemma chained_sum:
  assumes "chained b v es"
  shows "sint (m_units b) + sum_list (map entry_delta es) = sint (m_units (end_balance b es))"
  using assms
proof (induction es arbitrary: b v)
  case (Cons e es)
  from chained_ConsD [OF Cons.prems] Cons.IH [of "le_balanceAfter e" "le_walletVersion e"] show ?case by simp
qed simp

lemma chained_sums:
  assumes "chained b v es"
  shows "sum_in_range (sint (m_units b)) es"
  using assms
proof (induction es arbitrary: b v)
  case Nil
  then show ?case by (simp add: sum_in_range_def)
next
  case (Cons e es)
  from chained_ConsD [OF Cons.prems] Cons.IH [of "le_balanceAfter e" "le_walletVersion e"]
    sint_in_range [of "m_units b"]
  show ?case by (simp add: sum_in_range_Cons)
qed

text \<open>What a store that satisfies the invariant holds of one wallet.\<close>

lemma store_wallet_book:
  assumes "store_ok st" "r \<in> set (db_wallets st)"
  obtains w es where "wallet_storable w" "r = walletArgs w" "Wallets_ByID (w_id w) st = Inr (Some w)"
    "Ledger_All (w_id w) st = Inr es" "ledger_of (wr_id r) st = map ledgerArgs es"
    "Reconcile (Some w) es = Inr ()" "wallet_units w = sum_list (map entry_delta es)"
    "\<forall>e \<in> set es. entry_storable e" "sorted_wrt (\<lambda>e e'. unat (le_walletVersion e) < unat (le_walletVersion e')) es"
proof -
  note ok = store_okD(1) [OF assms(1)]
  from structure_okD(1) [OF ok assms(2)] obtain w where w: "wallet_storable w" "r = walletArgs w"
    by (auto simp: wallet_row_ok_def)
  then have wok: "wallet_ok w" by (simp add: wallet_storable_def)
  let ?b = "\<lparr>m_units = 0, m_currency = Wallet_Currency w\<rparr> :: money"
  have b: "\<lparr>m_units = 0, m_currency = \<lparr>cur_code = wr_currency r\<rparr>\<rparr> = ?b"
    by (cases "Wallet_Currency w") (simp add: w(2))
  from structure_okD(2) [OF ok assms(2)] obtain es v where es: "ledger_of (wr_id r) st = map ledgerArgs es"
    "\<forall>e \<in> set es. entry_storable e" "chained ?b v es" "distinct (map le_transactionID es)"
    unfolding ledger_chained_def b by blast
  have "find (\<lambda>s. wr_id s = uuidOf (w_id w)) (db_wallets st) = Some r"
    using structure_find_wallet [OF ok assms(2)] w(2) by (simp add: uuidOf_def)
  moreover have "row_wallet r = Inr w" using w by (simp add: row_wallet_Inr_iff)
  ultimately have byid: "Wallets_ByID (w_id w) st = Inr (Some w)"
    by (simp add: Wallets_ByID_def select_wallet_by_id_def wallets_one_def)
  have all: "Ledger_All (w_id w) st = Inr es"
    using es(1) by_version_chained [OF es(3,2)] ledger_read_rows [OF es(2)] w(2)
    by (simp add: Ledger_All_def wallet_entries_def ledger_of_def uuidOf_def)
  have "\<forall>e \<in> set es. le_walletID e = w_id w"
  proof
    fix e
    assume "e \<in> set es"
    then have "ledgerArgs e \<in> set (ledger_of (wr_id r) st)" using es(1) by simp
    then show "le_walletID e = w_id w" by (simp add: ledger_of_def w(2))
  qed
  with chained_currency(2) [OF es(3)] es(4) have book: "book_ok w es" by (simp add: book_ok_def)
  have "m_units (end_balance ?b es) = m_units (w_balance w)"
    using store_okD(2) [OF assms] last_entry_chained [OF es(1,3,2)] w(2)
    by (auto simp: wallet_matches_ledger_def end_balance_def split: if_splits)
  with chained_sum [OF es(3)] have sum: "wallet_units w = sum_list (map entry_delta es)"
    by (simp add: wallet_units_def)
  with Reconcile_book [OF wok book] chained_sums [OF es(3)] have "Reconcile (Some w) es = Inr ()"
    by (simp add: Let_def)
  from that [OF w byid all es(1) this sum es(2) chained_sorted [OF es(3)]] show ?thesis .
qed

end
