(* ===== verification/Cursor.thy ===== *)
theory Cursor
  imports AppErrors
begin

text \<open>
  The ledger cursor (\<^verbatim>\<open>src/internal/app/cursor.go\<close>) and what it uses of \<^verbatim>\<open>encoding/base64\<close>
  and \<^verbatim>\<open>strings\<close>: the unpadded URL alphabet, whose decoder skips line breaks, refuses a single
  left-over character and ignores the spare bits of the last one.
\<close>

section \<open>base64.RawURLEncoding\<close>

text \<open>The alphabet \<^verbatim>\<open>A-Z a-z 0-9 - _\<close>, by the ranges of its codes.\<close>

definition b64_char :: "nat \<Rightarrow> char" where
  "b64_char n =
     char_of (if n < 26 then 65 + n else if n < 52 then 71 + n else if n < 62 then n - 4
              else if n = 62 then 45 else (95 :: nat))"

definition b64_index :: "char \<Rightarrow> nat option" where
  "b64_index ch =
     (let k = (of_char ch :: nat)
      in if 65 \<le> k \<and> k \<le> 90 then Some (k - 65)
         else if 97 \<le> k \<and> k \<le> 122 then Some (k - 71)
         else if 48 \<le> k \<and> k \<le> 57 then Some (k + 4)
         else if k = 45 then Some 62
         else if k = 95 then Some 63
         else None)"

fun b64_sextets :: "nat list \<Rightarrow> nat list" where
  "b64_sextets (a # b # c # r) =
     [a div 4, a mod 4 * 16 + b div 16, b mod 16 * 4 + c div 64, c mod 64] @ b64_sextets r"
| "b64_sextets [a, b] = [a div 4, a mod 4 * 16 + b div 16, b mod 16 * 4]"
| "b64_sextets [a] = [a div 4, a mod 4 * 16]"
| "b64_sextets [] = []"

fun b64_bytes :: "nat list \<Rightarrow> nat list option" where
  "b64_bytes (p # q # r # s # t) =
     map_option (\<lambda>bs. [p * 4 + q div 16, q mod 16 * 16 + r div 4, r mod 4 * 64 + s] @ bs) (b64_bytes t)"
| "b64_bytes [p, q, r] = Some [p * 4 + q div 16, q mod 16 * 16 + r div 4]"
| "b64_bytes [p, q] = Some [p * 4 + q div 16]"
| "b64_bytes [p] = None"
| "b64_bytes [] = Some []"

definition EncodeToString :: "string \<Rightarrow> string" where
  "EncodeToString s = map b64_char (b64_sextets (map of_char s))"

definition line_break :: "char \<Rightarrow> bool" where
  "line_break ch \<longleftrightarrow> ch = CHR 10 \<or> ch = CHR 13"

definition DecodeString :: "string \<Rightarrow> string option" where
  "DecodeString s =
     Option.bind (those (map b64_index (filter (\<lambda>ch. \<not> line_break ch) s))) (\<lambda>ns.
       map_option (map char_of) (b64_bytes ns))"

text \<open>\<^verbatim>\<open>strings.Cut(s, ":")\<close>: what stands before and after the first colon, if there is one.\<close>

definition Cut_colon :: "string \<Rightarrow> (string \<times> string) option" where
  "Cut_colon s =
     (case dropWhile (\<lambda>ch. ch \<noteq> CHR '':'') s of
        [] \<Rightarrow> None
      | _ # r \<Rightarrow> Some (takeWhile (\<lambda>ch. ch \<noteq> CHR '':'') s, r))"

section \<open>The cursor\<close>

definition encodeCursor :: "wallet_id \<Rightarrow> uint64 \<Rightarrow> string" where
  "encodeCursor w version = EncodeToString (uuid_String w @ '':'' @ show_nat (unat version))"

definition bad_cursor :: go_error where
  "bad_cursor = invalidField ''cursor'' InvalidFieldFormat"

definition decodeCursor :: "string \<Rightarrow> wallet_id \<Rightarrow> uint64 eres" where
  "decodeCursor cursor w =
     (if cursor = [] then Inr 0
      else case DecodeString cursor of
             None \<Rightarrow> Inl bad_cursor
           | Some raw \<Rightarrow>
               (case Cut_colon raw of
                  None \<Rightarrow> Inl bad_cursor
                | Some (i, version) \<Rightarrow>
                    if i \<noteq> uuid_String w then Inl bad_cursor
                    else (case ParseUint version of
                            Inl e \<Rightarrow> Inl bad_cursor
                          | Inr after \<Rightarrow> Inr after)))"

section \<open>Facts\<close>

lemma b64_index_char: "n < 64 \<Longrightarrow> b64_index (b64_char n) = Some n"
proof -
  assume "n < 64"
  then consider "n < 26" | "26 \<le> n" "n < 52" | "52 \<le> n" "n < 62" | "n = 62" | "n = 63" by linarith
  then show ?thesis by cases (auto simp: b64_index_def b64_char_def Let_def)
qed

lemma b64_char_no_break: "n < 64 \<Longrightarrow> \<not> line_break (b64_char n)"
proof
  assume n: "n < 64" and "line_break (b64_char n)"
  then have "(of_char (b64_char n) :: nat) = 10 \<or> (of_char (b64_char n) :: nat) = 13"
    by (auto simp: line_break_def)
  with n show False by (auto simp: b64_char_def split: if_splits)
qed

lemma b64_sextets_bound: "\<forall>b \<in> set bs. b < 256 \<Longrightarrow> n \<in> set (b64_sextets bs) \<Longrightarrow> n < 64"
proof (induction bs rule: b64_sextets.induct)
  case (1 a b c r)
  then have "a div 4 < 64" "a mod 4 * 16 + b div 16 < 64" "b mod 16 * 4 + c div 64 < 64" "c mod 64 < 64"
    by (simp_all, arith+)
  with 1 show ?case by auto
next
  case (2 a b)
  then have "a div 4 < 64" "a mod 4 * 16 + b div 16 < 64" "b mod 16 * 4 < 64" by (simp_all, arith+)
  with 2 show ?case by auto
next
  case (3 a)
  then have "a div 4 < 64" "a mod 4 * 16 < 64" by auto
  with 3 show ?case by auto
qed simp

lemma b64_bytes_sextets: "\<forall>b \<in> set bs. b < 256 \<Longrightarrow> b64_bytes (b64_sextets bs) = Some bs"
proof (induction bs rule: b64_sextets.induct)
  case (1 a b c r)
  then have "b64_bytes (b64_sextets r) = Some r" "a < 256" "b < 256" "c < 256" by auto
  then show ?case by auto
qed auto

lemma those_map_Some: "those (map Some xs) = Some xs"
  by (induction xs) auto

lemma DecodeString_EncodeToString: "DecodeString (EncodeToString s) = Some s"
proof -
  define ns where "ns = b64_sextets (map of_char s)"
  have bytes: "\<forall>b \<in> set (map of_char s). b < (256 :: nat)" by auto
  then have small: "\<forall>n \<in> set ns. n < 64" unfolding ns_def using b64_sextets_bound by blast
  then have "filter (\<lambda>ch. \<not> line_break ch) (map b64_char ns) = map b64_char ns"
    by (simp add: filter_id_conv b64_char_no_break)
  moreover have "map b64_index (map b64_char ns) = map Some ns"
    using small by (simp add: b64_index_char)
  moreover have "b64_bytes ns = Some (map of_char s)"
    unfolding ns_def by (rule b64_bytes_sextets [OF bytes])
  moreover have "map char_of (map (of_char :: char \<Rightarrow> nat) s) = s" by (simp add: comp_def)
  ultimately show ?thesis
    by (simp add: DecodeString_def EncodeToString_def those_map_Some flip: ns_def map_map)
qed

lemma Cut_colon_append:
  assumes "CHR '':'' \<notin> set i"
  shows "Cut_colon (i @ '':'' @ r) = Some (i, r)"
proof -
  have "\<forall>ch \<in> set i. ch \<noteq> CHR '':''" using assms by auto
  then have "dropWhile (\<lambda>ch. ch \<noteq> CHR '':'') (i @ '':'' @ r) = '':'' @ r"
    "takeWhile (\<lambda>ch. ch \<noteq> CHR '':'') (i @ '':'' @ r) = i"
    by (simp_all add: dropWhile_append2 takeWhile_append2)
  then show ?thesis by (simp add: Cut_colon_def)
qed

lemma Cut_colon_Some:
  assumes "Cut_colon s = Some (i, r)"
  shows "s = i @ '':'' @ r"
proof -
  obtain ch t where d: "dropWhile (\<lambda>ch. ch \<noteq> CHR '':'') s = ch # t"
    and i: "i = takeWhile (\<lambda>ch. ch \<noteq> CHR '':'') s" "r = t"
    using assms by (auto simp: Cut_colon_def split: list.splits)
  have "ch = CHR '':''" using d hd_dropWhile [of "\<lambda>ch. ch \<noteq> CHR '':''" s] by simp
  then show ?thesis using takeWhile_dropWhile_id [of "\<lambda>ch. ch \<noteq> CHR '':''" s] d i by simp
qed

lemma hex_digit_not_colon: "n < 16 \<Longrightarrow> hex_digit n \<noteq> CHR '':''"
proof
  assume "n < 16" "hex_digit n = CHR '':''"
  then have "(of_char CHR '':'' :: nat) = (if n < 10 then 48 + n else 87 + n)"
    using of_char_hex_digit [of n] by simp
  then show False by (simp split: if_splits)
qed

lemma uuid_String_no_colon: "CHR '':'' \<notin> set (uuid_String u)"
proof -
  have "CHR '':'' \<notin> set (uuid_hex u)"
    using hex_digit_not_colon nibbles_bound by (fastforce simp: uuid_hex_def hex_of_def)
  then show ?thesis by (auto simp: uuid_String_def Let_def dest: in_set_takeD in_set_dropD)
qed

lemma ParseUint_show_nat: "ParseUint (show_nat (unat (v :: uint64))) = Inr v"
proof -
  have "unat v < 2 ^ 64" using unsigned_less [of v] by simp
  then show ?thesis
    using ParseUint_loop_digits [OF show_nat_digits [of "unat v"], of 0] dec_val_show_nat [of "unat v"]
    by (simp add: ParseUint_def dec_val_def Let_def)
qed

lemma decodeCursor_encodeCursor:
  "decodeCursor (encodeCursor w v) w' = (if w' = w then Inr v else Inl bad_cursor)" "encodeCursor w v \<noteq> []"
proof -
  show "encodeCursor w v \<noteq> []"
    using DecodeString_EncodeToString [of "uuid_String w @ '':'' @ show_nat (unat v)"]
    by (auto simp: encodeCursor_def DecodeString_def)
  then show "decodeCursor (encodeCursor w v) w' = (if w' = w then Inr v else Inl bad_cursor)"
    using Cut_colon_append [OF uuid_String_no_colon [of w], of "show_nat (unat v)"]
    by (auto simp: decodeCursor_def encodeCursor_def DecodeString_EncodeToString uuid_String_inj
        ParseUint_show_nat)
qed

text \<open>
  The page cursor is read back exactly: decoding, for a wallet, a cursor that was
  encoded for a wallet and a version yields that version when the two wallets are the same
  and is refused as an invalid field when they are not. No accepted cursor, whatever its
  spelling, names another wallet: what it decodes to is this wallet's identifier, a colon and
  a decimal version.
\<close>

theorem cursor_roundtrip:
  "decodeCursor (encodeCursor w v) w' = (if w' = w then Inr v else Inl bad_cursor)
   \<and> (decodeCursor cursor w = Inr v \<longrightarrow>
        cursor = [] \<and> v = 0
        \<or> (\<exists>version. DecodeString cursor = Some (uuid_String w @ '':'' @ version)
             \<and> ParseUint version = Inr v))"
proof (intro conjI impI)
  show "decodeCursor (encodeCursor w v) w' = (if w' = w then Inr v else Inl bad_cursor)"
    by (rule decodeCursor_encodeCursor)
next
  assume "decodeCursor cursor w = Inr v"
  then show "cursor = [] \<and> v = 0
    \<or> (\<exists>version. DecodeString cursor = Some (uuid_String w @ '':'' @ version) \<and> ParseUint version = Inr v)"
    by (auto simp: decodeCursor_def dest!: Cut_colon_Some split: if_splits option.splits sum.splits)
qed

theorem cursor_roundtrip_witness:
  "decodeCursor (encodeCursor 7 42) 7 = Inr 42 \<and> decodeCursor (encodeCursor 7 42) 8 = Inl bad_cursor"
  using cursor_roundtrip [of 7 42 7] cursor_roundtrip [of 7 42 8] by simp

end
