(* ===== verification/WalletCases.thy ===== *)
theory WalletCases
  imports UseCases Cursor
begin

text \<open>
  The wallet use cases (\<^verbatim>\<open>src/internal/app/wallets.go\<close> and their values of \<^verbatim>\<open>command.go\<close>):
  opening a wallet, reading one, paging its ledger and reconciling it.

  Opening reads the player's wallet before it writes and takes no lock, so the state that
  read sees is an argument of its own, as for a submission. The reads run in one snapshot.
  What the divergence hook is told is returned beside the report.
\<close>

section \<open>Values\<close>

record open_wallet_command =
  oc_Principal :: principal
  oc_Correlation :: string
  oc_PlayerID :: string
  oc_InitialAmount :: string
  oc_Currency :: string

record wallet_view =
  wv_ID :: wallet_id
  wv_PlayerID :: player_id
  wv_Balance :: money
  wv_Version :: uint64
  wv_CreatedAt :: instant
  wv_UpdatedAt :: instant

record ledger_query =
  lq_WalletID :: wallet_id
  lq_Cursor :: string
  lq_Limit :: int

record ledger_page =
  lp_Entries :: "ledger_entry list"
  lp_NextCursor :: string

record divergence =
  dv_WalletID :: wallet_id
  dv_Stored :: money
  dv_Reconstructed :: money
  dv_Difference :: money

record reconciliation =
  rn_Divergence :: divergence
  rn_Consistent :: bool
  rn_CheckedEntries :: nat

definition defaultLedgerPage :: int where
  "defaultLedgerPage = 50"

definition maxLedgerPage :: int where
  "maxLedgerPage = 200"

section \<open>Construction\<close>

text \<open>The dependencies of the service: a nil transaction manager, clock or identifier source is \<open>None\<close>.\<close>

record wallets_deps =
  wsd_tx :: "unit option"
  wsd_clock :: "unit option"
  wsd_ids :: "unit option"
  wsd_observer :: "unit option"

record wallets =
  ws_observer :: "unit option"

definition NewWallets :: "wallets_deps \<Rightarrow> wallets eres" where
  "NewWallets d =
     (if wsd_tx d = None then Inl defect
      else if wsd_clock d = None then Inl defect
      else if wsd_ids d = None then Inl defect
      else Inr \<lparr>ws_observer = wsd_observer d\<rparr>)"

section \<open>Open\<close>

definition viewOf :: "wallet \<Rightarrow> wallet_view" where
  "viewOf w =
     \<lparr>wv_ID = w_id w, wv_PlayerID = w_playerID w, wv_Balance = w_balance w,
      wv_Version = w_version w, wv_CreatedAt = w_createdAt w, wv_UpdatedAt = w_updatedAt w\<rparr>"

text \<open>Identifiers of an opening are minted exactly when there is a balance to record.\<close>

definition open_input :: "ids \<Rightarrow> player_id \<Rightarrow> money \<Rightarrow> open_wallet_input" where
  "open_input ids player balance =
     \<lparr>ow_WalletID = id_Wallet ids, ow_PlayerID = player, ow_InitialBalance = balance,
      ow_TransactionID = (if Money_IsPositive balance then id_Transaction ids else 0),
      ow_LedgerEntryID = (if Money_IsPositive balance then id_LedgerEntry ids else 0)\<rparr>"

definition admit_open :: "open_wallet_command \<Rightarrow> (player_id \<times> money) eres" where
  "admit_open cmd =
     bindE (MayAdministerWallets (oc_Principal cmd)) (\<lambda>_.
       if oc_Correlation cmd = [] then Inl (invalidField ''correlationId'' MissingRequiredField)
       else bindE (classified (NewPlayerID (oc_PlayerID cmd))) (\<lambda>player.
            bindE (classified (Money_Parse (oc_InitialAmount cmd) (oc_Currency cmd))) (\<lambda>balance.
            Inr (player, balance))))"

definition open_body ::
  "ids \<Rightarrow> instant \<Rightarrow> string \<Rightarrow> open_wallet_input \<Rightarrow> store \<Rightarrow> store
     \<Rightarrow> ((wallet_view \<times> operation_result option) \<times> store) eres" where
  "open_body ids now correlation i st_key st =
     bindE (Wallets_ByKey \<lparr>wk_PlayerID = ow_PlayerID i, wk_Currency = m_currency (ow_InitialBalance i)\<rparr> st_key) (\<lambda>existing.
     bindE (classified (OpenWallet i existing now)) (\<lambda>(wallet, out).
     bindE (writer_open wallet out correlation st) (\<lambda>st.
       (case o_Transaction out of
          None \<Rightarrow> Inr ((viewOf wallet, None), st)
        | Some tx \<Rightarrow>
            bindE (emit ids (o_Events out) \<lparr>t_Correlation = correlation, t_Causation = []\<rparr> now st) (\<lambda>st.
            Inr ((viewOf wallet, Some (resultOf tx False)), st))))))"

definition Wallets_Open ::
  "ids \<Rightarrow> instant \<Rightarrow> open_wallet_command \<Rightarrow> store \<Rightarrow> store
     \<Rightarrow> (wallet_view \<times> operation_result option) eres \<times> store" where
  "Wallets_Open ids now cmd st_key st =
     (case admit_open cmd of
        Inl err \<Rightarrow> (Inl err, st)
      | Inr (player, balance) \<Rightarrow>
          (case WithinMovement (open_body ids now (oc_Correlation cmd) (open_input ids player balance) st_key) st of
             (Inr a, st') \<Rightarrow> (Inr a, st')
           | (Inl err, st') \<Rightarrow>
               if errors_Is err ErrWalletExists then (Inl (conflict WalletAlreadyExists (Some err)), st')
               else (Inl (classify err), st')))"

section \<open>Reads\<close>

definition requireWallet :: "wallet_id \<Rightarrow> store \<Rightarrow> wallet eres" where
  "requireWallet i st =
     bindE (Wallets_ByID i st) (\<lambda>found. case found of None \<Rightarrow> Inl notFound | Some w \<Rightarrow> Inr w)"

definition Wallets_View :: "principal \<Rightarrow> wallet_id \<Rightarrow> store \<Rightarrow> wallet_view eres" where
  "Wallets_View p i st =
     bindE (MayAdministerWallets p) (\<lambda>_.
       classify_error (WithinSnapshot (\<lambda>st. bindE (requireWallet i st) (\<lambda>w. Inr (viewOf w))) st))"

definition page_limit :: "int \<Rightarrow> int" where
  "page_limit limit =
     (if limit \<le> 0 then defaultLedgerPage
      else if limit > maxLedgerPage then maxLedgerPage
      else limit)"

definition Wallets_Ledger :: "principal \<Rightarrow> ledger_query \<Rightarrow> store \<Rightarrow> ledger_page eres" where
  "Wallets_Ledger p q st =
     bindE (MayAdministerWallets p) (\<lambda>_.
     bindE (decodeCursor (lq_Cursor q) (lq_WalletID q)) (\<lambda>after.
       (let limit = page_limit (lq_Limit q)
        in classify_error (WithinSnapshot (\<lambda>st.
             bindE (requireWallet (lq_WalletID q) st) (\<lambda>_.
             bindE (Ledger_Page (lq_WalletID q) after limit st) (\<lambda>entries.
             Inr \<lparr>lp_Entries = entries,
                  lp_NextCursor =
                    (if int (length entries) = limit
                     then encodeCursor (lq_WalletID q) (le_walletVersion (last entries))
                     else [])\<rparr>))) st))))"

definition reconcile_report :: "wallet_id \<Rightarrow> wallet \<Rightarrow> ledger_entry list \<Rightarrow> reconciliation eres" where
  "reconcile_report i w entries =
     (case Reconcile (Some w) entries of
        Inr _ \<Rightarrow>
          bindE (classified (Money_Zero (Wallet_Currency w))) (\<lambda>zero.
            Inr \<lparr>rn_Divergence = \<lparr>dv_WalletID = i, dv_Stored = w_balance w,
                                   dv_Reconstructed = w_balance w, dv_Difference = zero\<rparr>,
                 rn_Consistent = True, rn_CheckedEntries = length entries\<rparr>)
      | Inl (Refusal f) \<Rightarrow> Inl (auditFinding (DomainErr f))
      | Inl (Mismatch m) \<Rightarrow>
          bindE (classified (Money_Sub (rc_actual m) (rc_expected m))) (\<lambda>difference.
            Inr \<lparr>rn_Divergence = \<lparr>dv_WalletID = i, dv_Stored = rc_actual m,
                                   dv_Reconstructed = rc_expected m, dv_Difference = difference\<rparr>,
                 rn_Consistent = False, rn_CheckedEntries = length entries\<rparr>))"

text \<open>The report, and what the divergence hook was told.\<close>

definition Wallets_Reconcile ::
  "wallets \<Rightarrow> principal \<Rightarrow> wallet_id \<Rightarrow> store \<Rightarrow> reconciliation eres \<times> divergence option" where
  "Wallets_Reconcile svc p i st =
     (case MayAdministerWallets p of
        Inl err \<Rightarrow> (Inl err, None)
      | Inr _ \<Rightarrow>
          (case classify_error (WithinSnapshot (\<lambda>st.
                  bindE (requireWallet i st) (\<lambda>w.
                  bindE (Ledger_All i st) (\<lambda>entries.
                  reconcile_report i w entries))) st) of
             Inl err \<Rightarrow> (Inl err, None)
           | Inr report \<Rightarrow>
               (Inr report,
                if \<not> rn_Consistent report \<and> ws_observer svc \<noteq> None
                then Some (rn_Divergence report) else None)))"

end
