(* ===== verification/Service.thy ===== *)
theory Service
  imports Books WalletCases
begin

text \<open>
  The service as a system of states: each use case, from any store that satisfies the
  invariant, leaves a store that satisfies it and extends the history. Nothing is assumed of
  the identifiers minted, of the states the reads before a lock saw, or of the order of clock
  readings: what the code does not check, the statements do.
\<close>

section \<open>What the processor does to a transaction\<close>

text \<open>
  Every successful path is a sequence of steps of the transaction's life. What it has waited
  for changes only when it waits again.
\<close>

definition same_wait :: "wager_transaction \<Rightarrow> wager_transaction \<Rightarrow> bool" where
  "same_wait t t' \<longleftrightarrow>
     tx_referenceAttempts t' = tx_referenceAttempts t \<and> tx_referenceDeadline t' = tx_referenceDeadline t"

definition advances :: "reference_policy \<Rightarrow> instant \<Rightarrow> wager_transaction \<Rightarrow> wager_transaction \<Rightarrow> bool" where
  "advances pol now t t' \<longleftrightarrow>
     tx_identity t' = tx_identity t \<and> tx_updatedAt t' = now
     \<and> (tx_status t' \<noteq> PendingReference \<longrightarrow> same_wait t t')
     \<and> (tx_updatedAt t \<le> now \<longrightarrow> (clocked pol)\<^sup>*\<^sup>* t t')"

lemma reject_advances:
  assumes "reject t c now = (t', Inr out)"
  shows "advances pol now t t' \<and> o_Transaction out = Some t' \<and> o_LedgerEntry out = None"
proof -
  from assms have rej: "Tx_Reject c now t = Inr t'" and out: "o_Transaction out = Some t'" "o_LedgerEntry out = None"
    by (auto simp: reject_def split: sum.splits)
  from clocked_rejected [OF rej] have "(clocked pol)\<^sup>*\<^sup>* t t'" if "tx_updatedAt t \<le> now" using that by blast
  with rej out show ?thesis by (auto simp: advances_def Tx_Reject_Inr_iff tx_identity_def same_wait_def)
qed

lemma wait_advances:
  assumes "wait p t now = (t', Inr out)"
  shows "advances (p_policy p) now t t' \<and> o_Transaction out = Some t' \<and> o_LedgerEntry out = None"
proof (cases "ReferenceBudgetExhausted (p_policy p) now t = Inr True")
  case True
  with assms reject_advances [of t ReferenceNotFound now t' out] show ?thesis by (simp add: wait_def)
next
  case False
  with assms have mark: "MarkPendingReference (p_policy p) now t = Inr t'"
    and out: "o_Transaction out = Some t'" "o_LedgerEntry out = None"
    by (auto simp: wait_def simp del: ReferenceBudgetExhausted_Inr_iff split: sum.splits if_splits)
  from clocked_parked [OF mark] have "(clocked (p_policy p))\<^sup>*\<^sup>* t t'" if "tx_updatedAt t \<le> now" using that by blast
  with mark out show ?thesis
    by (auto simp: advances_def MarkPendingReference_Inr_iff tx_identity_def parked_def)
qed

lemma settle_advances:
  assumes "settle t w moved now = (t', Inr out)"
  shows "advances pol now t t' \<and> o_Transaction out = Some t' \<and> o_LedgerEntry out = moved"
proof -
  from assms have mark: "MarkProcessed (w_balance w) now t = Inr t'"
    and out: "o_Transaction out = Some t'" "o_LedgerEntry out = moved"
    by (cases "MarkProcessed (w_balance w) now t"; cases moved; auto simp: settle_def)+
  from clocked_processed [OF mark] have "(clocked pol)\<^sup>*\<^sup>* t t'" if "tx_updatedAt t \<le> now" using that by blast
  with mark out show ?thesis by (auto simp: advances_def MarkProcessed_Inr_iff tx_identity_def same_wait_def)
qed

lemma resolve_named_steps:
  assumes "resolve_named cmd ref t = Inr t'"
  shows "tx_identity t' = tx_identity t \<and> tx_updatedAt t' = tx_updatedAt t \<and> same_wait t t'
    \<and> (clocked pol)\<^sup>*\<^sup>* t t'"
proof (cases "t' = t")
  case False
  with assms obtain i where "ResolveReference i t = Inr t'"
    by (auto simp: resolve_named_def split: if_splits option.splits)
  with clocked_resolved [of i t t' pol] show ?thesis
    by (auto simp: ResolveReference_Inr_iff tx_identity_def same_wait_def)
qed (simp add: same_wait_def)

lemma advances_after:
  assumes "tx_identity t1 = tx_identity t \<and> tx_updatedAt t1 = tx_updatedAt t \<and> same_wait t t1
    \<and> (clocked pol)\<^sup>*\<^sup>* t t1"
    "advances pol now t1 t'"
  shows "advances pol now t t'"
  using assms rtranclp_trans [of "clocked pol" t t1 t'] by (auto simp: advances_def same_wait_def)

text \<open>The entry of an outcome is the one the wallet returned for the movement.\<close>

definition entry_from :: "wallet \<Rightarrow> instant \<Rightarrow> outcome \<Rightarrow> bool" where
  "entry_from w now out \<longleftrightarrow>
     (\<forall>e. o_LedgerEntry out = Some e \<longrightarrow>
        (\<exists>d m w'. Wallet_move d m w = Inr (e, w') \<and> mv_At m = now))"

lemma apply_movement_advances:
  assumes "apply_movement t cmd w ref now = (t', w', Inr out)"
  shows "advances pol now t t' \<and> o_Transaction out = Some t' \<and> entry_from w now out"
proof -
  from assms obtain t1 where t1: "resolve_named cmd ref t = Inr t1"
    by (auto simp: apply_movement_def split: sum.splits)
  note steps = resolve_named_steps [OF t1, of pol]
  from assms t1 obtain dir where dir: "movement cmd ref = Inr dir"
    by (auto simp: apply_movement_def split: sum.splits)
  show ?thesis
  proof (cases dir)
    case None
    with assms t1 dir have "settle t1 w None now = (t', Inr out)"
      by (auto simp: apply_movement_def Let_def prod_eq_iff)
    from settle_advances [OF this, of pol] advances_after [OF steps] show ?thesis
      by (simp add: entry_from_def)
  next
    case (Some d)
    let ?m = "movement_of_command cmd now"
    show ?thesis
    proof (cases "Wallet_move d ?m w")
      case (Inl err)
      with assms t1 dir Some obtain c where "reject t1 c now = (t', Inr out)"
        by (auto simp: apply_movement_def Let_def prod_eq_iff split: option.splits)
      from reject_advances [OF this, of pol] advances_after [OF steps] show ?thesis
        by (simp add: entry_from_def)
    next
      case (Inr ew)
      with assms t1 dir Some have "settle t1 (snd ew) (Some (fst ew)) now = (t', Inr out)"
        by (auto simp: apply_movement_def Let_def prod_eq_iff)
      note settled = settle_advances [OF this, of pol]
      obtain e v where ew: "ew = (e, v)" by force
      have "mv_At ?m = now" by (simp add: movement_of_command_def)
      with Inr ew settled have "entry_from w now out" by (simp add: entry_from_def) blast
      with settled advances_after [OF steps] show ?thesis by blast
    qed
  qed
qed

lemma p_apply_advances:
  assumes "p_apply p t cmd w ref now = (t', w', Inr out)"
  shows "advances (p_policy p) now t t' \<and> o_Transaction out = Some t' \<and> entry_from w now out"
proof -
  consider (rejected) c where "reject t c now = (t', Inr out)" | (waits) "wait p t now = (t', Inr out)"
    | (applied) "apply_movement t cmd w ref now = (t', w', Inr out)"
    using assms
    by (auto simp: p_apply_def Let_def prod_eq_iff split: if_splits prod.splits reference_outcome.splits)
  then show ?thesis
  proof cases
    case rejected
    from reject_advances [OF this, of "p_policy p"] show ?thesis by (simp add: entry_from_def)
  next
    case waits
    from wait_advances [OF this] show ?thesis by (simp add: entry_from_def)
  next
    case applied
    from apply_movement_advances [OF this] show ?thesis .
  qed
qed

lemma Continue_advances:
  assumes "Continue p (Some t) cmd (Some w) ref now = (t1, w1, Inr out)"
  obtains t' where "t1 = Some t'" "o_Transaction out = Some t'" "advances (p_policy p) now t t'"
    "entry_from w now out" "open_status (tx_status t)" "tx_walletID t = w_id w"
proof -
  from assms obtain u where ok: "assertContinuable p (Some t) cmd (Some w) = Inr u"
    by (auto simp: Continue_def split: sum.splits)
  with assms have ap: "p_apply p t cmd w ref now = (fst (p_apply p t cmd w ref now),
      fst (snd (p_apply p t cmd w ref now)), Inr out)" "t1 = Some (fst (p_apply p t cmd w ref now))"
    by (auto simp: Continue_def Let_def prod_eq_iff)
  from p_apply_advances [OF ap(1)] Continue_asserts [OF ok] ap(2) that show ?thesis by blast
qed

section \<open>Settling a stored transaction\<close>

lemma row_identity_settled: "row_identity (settled_row snap due r) = row_identity r"
  by (simp add: row_identity_def settled_row_def)

lemma settled_row_schedule: "settled_row snap due (r\<lparr>tr_nextAttemptAt := x\<rparr>) = settled_row snap due r"
  by (simp add: settled_row_def)

lemma row_ok_transaction:
  assumes "row_ok r" "row_transaction r = Inr t"
  shows "tx_live t" "tx_storable t" "tr_id r = Some (tx_id t)" "tr_status r = Status_String (tx_status t)"
    "tr_updatedAt r = micros (tx_updatedAt t)" "tr_walletID r = Some (tx_walletID t)" "waits_ahead t"
    "r = (row_of t (tr_correlation r) 0)\<lparr>tr_nextAttemptAt := tr_nextAttemptAt r\<rparr>"
proof -
  from assms(1) obtain t0 where t0: "tx_live t0" "waits_ahead t0" "tx_storable t0"
    "r = (row_of t0 (tr_correlation r) 0)\<lparr>tr_nextAttemptAt := tr_nextAttemptAt r\<rparr>" "row_transaction r = Inr t0"
    by (rule row_okE)
  with assms(2) have [simp]: "t0 = t" by simp
  note r = t0(4) [unfolded \<open>t0 = t\<close>]
  show "tx_live t" "tx_storable t" "waits_ahead t" using t0 by simp_all
  show "tr_id r = Some (tx_id t)" "tr_status r = Status_String (tx_status t)"
    "tr_updatedAt r = micros (tx_updatedAt t)" "tr_walletID r = Some (tx_walletID t)"
    by (subst r, simp)+
  show "r = (row_of t (tr_correlation r) 0)\<lparr>tr_nextAttemptAt := tr_nextAttemptAt r\<rparr>" by (rule r)
qed

lemma open_row: "open_status (tx_status t) \<Longrightarrow> tr_status r = Status_String (tx_status t) \<Longrightarrow> \<not> row_settled r"
  by (auto simp: open_status_def row_settled_def)

text \<open>The stored transaction with an identifier, in a store whose structure holds.\<close>

definition stored_as :: "store \<Rightarrow> wager_transaction \<Rightarrow> bool" where
  "stored_as st t \<longleftrightarrow> (\<exists>r \<in> set (db_transactions st). row_transaction r = Inr t)"

lemma stored_unique:
  assumes "structure_ok st" "stored_as st t" "r \<in> set (db_transactions st)" "tr_id r = Some (tx_id t)"
  shows "row_transaction r = Inr t"
proof -
  from assms(2) obtain s where s: "s \<in> set (db_transactions st)" "row_transaction s = Inr t"
    by (auto simp: stored_as_def)
  note row_ok_transaction(3) [OF structure_okD(5) [OF assms(1) s(1)] s(2)]
  with assms(4) have "transaction_collision r s \<noteq> None" by (intro collision_same_id) simp
  from collision_free_eq [OF structure_okD(7) [OF assms(1)] assms(3) s(1) this] s(2) show ?thesis by simp
qed

text \<open>
  The row a settlement writes over the stored one is the row of the settled transaction. The
  clock that was read may be any: the guard of the update has compared it with the last one, so
  it completes a microsecond.
\<close>

lemma settled_row_live:
  assumes "structure_ok st" "stored_as st t" "advances pol now t t'"
    "old \<in> set (db_transactions st)" "tr_id old = Some (tx_id t)"
    "transaction_guard old (settled_row (snapshotOf t') due old) = None" "attempts_fit (snapshotOf t')"
  shows "settled_row (snapshotOf t') due old = row_of t' (tr_correlation old) due" "0 < kept now"
    "row_ok (row_of t' (tr_correlation old) due)" "row_transaction (row_of t' (tr_correlation old) due) = Inr (kept_tx t')"
    "tr_status old = Status_String (tx_status t)"
proof -
  have tx: "row_transaction old = Inr t" by (rule stored_unique [OF assms(1,2,4,5)])
  note row = row_ok_transaction [OF structure_okD(5) [OF assms(1,4)] tx]
  have "settled_row (snapshotOf t') due old = settled_row (snapshotOf t') due (row_of t (tr_correlation old) 0)"
    by (subst row(8)) (rule settled_row_schedule)
  also have "\<dots> = row_of t' (tr_correlation old) due"
    using assms(3) by (intro settled_row_row_of) (simp add: advances_def)
  finally show new: "settled_row (snapshotOf t') due old = row_of t' (tr_correlation old) due" .
  have "micros (tx_updatedAt t) \<le> micros (tx_updatedAt t')"
    using assms(6) new row(5) by (auto simp: transaction_guard_def split: if_splits)
  moreover have read: "whole (tx_updatedAt t)" "whole (tx_createdAt t)" "0 < tx_createdAt t"
    "tx_createdAt t \<le> tx_updatedAt t" "tx_updatedAt t' = now"
    using row(1,2) assms(3) by (simp_all add: tx_live_def tx_storable_def tx_ok_def times_ok_def advances_def)
  ultimately have later: "tx_updatedAt t \<le> now" by (simp add: micros_le_iff)
  with read show "0 < kept now" by (intro kept_positive [of "tx_createdAt t"]) simp_all
  from later assms(3) have steps: "(clocked pol)\<^sup>*\<^sup>* t t'" by (simp add: advances_def)
  have "tx_live t' \<and> waits_ahead t'" by (rule lasting.inv_steps [OF steps]) (simp add: row(1,7))
  moreover have "tx_amount t' = tx_amount t" "tx_createdAt t' = tx_createdAt t"
    using assms(3) by (simp_all add: advances_def tx_identity_def)
  ultimately have t': "tx_live t'" "waits_ahead t'" "storable_money (tx_amount t')" "0 < kept (tx_createdAt t')"
    using row(2) read by (simp_all add: tx_storable_def)
  note stored = row_of_ok_kept [OF t'(1-3) assms(7) t'(4)]
  show "row_ok (row_of t' (tr_correlation old) due)"
    "row_transaction (row_of t' (tr_correlation old) due) = Inr (kept_tx t')" by (rule stored)+
  show "tr_status old = Status_String (tx_status t)" by (rule row(4))
qed

lemma settle_transaction_keeps:
  assumes "update_transaction (tx_id t) (settled_row (snapshotOf t') due) st = Inr (n, st')"
    "stored_as st t" "advances pol now t t'" "open_status (tx_status t)" "attempts_fit (snapshotOf t')"
  shows "keeps st st'"
proof (rule update_transaction_keeps [OF assms(1)])
  fix old
  assume ok: "structure_ok st" and old: "old \<in> set (db_transactions st)" "tr_id old = Some (tx_id t)"
    and guard: "transaction_guard old (settled_row (snapshotOf t') due old) = None"
  note new = settled_row_live [OF ok assms(2,3) old guard assms(5)]
  from new(1,3) have "row_ok (settled_row (snapshotOf t') due old)" by simp
  with row_identity_settled open_row [OF assms(4) new(5)]
  show "row_ok (settled_row (snapshotOf t') due old)
    \<and> row_identity (settled_row (snapshotOf t') due old) = row_identity old \<and> \<not> row_settled old" by blast
qed

lemma entry_from_ok:
  assumes "entry_from w now out" "o_LedgerEntry out = Some e"
  shows "entry_ok e" "le_createdAt e = now"
proof -
  from assms obtain d m w' where move: "Wallet_move d m w = Inr (e, w')" "mv_At m = now" by (auto simp: entry_from_def)
  then show "entry_ok e" using move_entry_links by blast
  from move show "le_createdAt e = now" by (auto simp: Wallet_move_Inr_iff movement_entry_def)
qed

text \<open>A settlement that went through: the row it changed, and the rest it wrote.\<close>

lemma writer_settle_InrE:
  assumes "writer_settle out due st = Inr st'" "o_Transaction out = Some t'" "tx_id t' = tx_id t" "entry_from w now out"
  obtains n st1 where "update_transaction (tx_id t) (settled_row (snapshotOf t') due) st = Inr (n, st1)" "n \<noteq> 0"
    "attempts_fit (snapshotOf t')" "0 < kept now \<Longrightarrow> keeps st1 st'"
proof -
  have [simp]: "s_ID (snapshotOf t') = tx_id t" by (simp add: snapshotOf_eq snapshot_of_def assms(3))
  from assms(1,2) obtain n st1 where
    upd: "update_transaction (tx_id t) (settled_row (snapshotOf t') due) st = Inr (n, st1)" "n \<noteq> 0"
      "attempts_fit (snapshotOf t')"
    and rest: "(case o_LedgerEntry out of None \<Rightarrow> Inr st1 | Some e \<Rightarrow>
        bindE (exec (move_wallet e) st1) (\<lambda>(n, st). if n = 0
          then Inl (AsRetryable (Wrapped [Sentinel ErrLostUpdate])) else exec (insert_ledger_entry (ledgerArgs e)) st))
      = Inr st'"
    by (auto simp: writer_settle_def encoded_def Let_def split: if_splits)
  have "keeps st1 st'" if now: "0 < kept now"
  proof (cases "o_LedgerEntry out")
    case None
    with rest show ?thesis by simp
  next
    case (Some e)
    note e = entry_from_ok [OF assms(4) Some]
    from now e(2) have time: "0 < kept (le_createdAt e)" by simp
    from rest Some obtain n2 st2 where "move_wallet e st1 = Inr (n2, st2)"
      "insert_ledger_entry (ledgerArgs e) st2 = Inr st'"
      by (auto split: if_splits prod.splits)
    from keeps_trans [OF move_wallet_keeps [OF this(1) time] insert_ledger_entry_keeps [OF this(2) e(1) time]]
    show ?thesis .
  qed
  with upd that show ?thesis by blast
qed

text \<open>The row it left is the row of what was settled.\<close>

lemma settlement_row:
  assumes "update_transaction (tx_id t) (settled_row (snapshotOf t') due) st = Inr (n, st')" "n \<noteq> 0"
    "attempts_fit (snapshotOf t')" "stored_as st t" "advances pol now t t'" "structure_ok st"
  obtains c where "row_of t' c due \<in> set (db_transactions st')"
    "row_transaction (row_of t' c due) = Inr (kept_tx t')" "0 < kept now"
proof -
  from assms(1,2) obtain old where old: "old \<in> set (db_transactions st)" "tr_id old = Some (tx_id t)"
    "transaction_guard old (settled_row (snapshotOf t') due old) = None"
    "settled_row (snapshotOf t') due old \<in> set (db_transactions st')" by (rule update_transaction_row)
  note new = settled_row_live [OF assms(6,4,5) old(1-3) assms(3)]
  from that [OF _ new(4,2)] old(4) new(1) show ?thesis by simp
qed

lemma writer_settle_keeps:
  assumes "writer_settle out due st = Inr st'" "o_Transaction out = Some t'"
    "stored_as st t" "advances pol now t t'" "open_status (tx_status t)" "entry_from w now out"
  shows "keeps st st'"
proof (cases "structure_ok st")
  case True
  have "tx_id t' = tx_id t" using assms(4) by (simp add: advances_def tx_identity_def)
  from assms(1,2) this assms(6) obtain n st1 where
    upd: "update_transaction (tx_id t) (settled_row (snapshotOf t') due) st = Inr (n, st1)" "n \<noteq> 0"
      "attempts_fit (snapshotOf t')" and rest: "0 < kept now \<Longrightarrow> keeps st1 st'"
    by (rule writer_settle_InrE) blast
  have "0 < kept now" by (rule settlement_row [OF upd assms(3,4) True])
  from keeps_trans [OF settle_transaction_keeps [OF upd(1) assms(3-5) upd(3)] rest [OF this]] show ?thesis .
qed (simp add: keeps_def)

lemma emit_keeps: "emit ids evs trace now st = Inr st' \<Longrightarrow> keeps st st'"
  using Outbox_Append_keeps by (auto simp: emit_def split: if_splits)

lemma wake_waiters_keeps: "wake_waiters t w now st = Inr (n, st') \<Longrightarrow> keeps st st'"
  using MakeDue_keeps by (auto simp: wake_waiters_def split: if_splits option.splits)

lemma commitOutcome_keeps:
  assumes "commitOutcome svc ids out t' wid now trace st = Inr (r, st')" "o_Transaction out = Some t'"
    "stored_as st t" "advances pol now t t'" "open_status (tx_status t)" "entry_from w now out"
  shows "keeps st st'"
proof -
  from assms(1) obtain due st1 n st2 where "writer_settle out due st = Inr st1"
    "wake_waiters t' wid now st1 = Inr (n, st2)" "emit ids (o_Events out) trace now st2 = Inr st'"
    by (auto simp: commitOutcome_def Let_def split: prod.splits)
  from keeps_trans [OF writer_settle_keeps [OF this(1) assms(2-6)]
      keeps_trans [OF wake_waiters_keeps [OF this(2)] emit_keeps [OF this(3)]]] show ?thesis .
qed

text \<open>What a committed outcome settled is what the store holds, its times to the microsecond.\<close>

lemma commitOutcome_stored:
  assumes "commitOutcome svc ids out t' wid now trace st = Inr (x, st')" "o_Transaction out = Some t'"
    "stored_as st t" "advances pol now t t'" "open_status (tx_status t)" "entry_from w now out" "structure_ok st"
    "IsTerminal (tx_status t')"
  shows "stored_as st' (kept_tx t')"
proof -
  have id: "tx_id t' = tx_id t" using assms(4) by (simp add: advances_def tx_identity_def)
  from assms(1) obtain due st3 m st4 where settle: "writer_settle out due st = Inr st3" and
    wake: "wake_waiters t' wid now st3 = Inr (m, st4)" and emit: "emit ids (o_Events out) trace now st4 = Inr st'"
    by (auto simp: commitOutcome_def Let_def split: prod.splits)
  from settle assms(2) id assms(6) obtain n st2 where
    upd: "update_transaction (tx_id t) (settled_row (snapshotOf t') due) st = Inr (n, st2)" "n \<noteq> 0"
      "attempts_fit (snapshotOf t')"
    and k3: "0 < kept now \<Longrightarrow> keeps st2 st3" by (rule writer_settle_InrE) blast
  from settlement_row [OF upd assms(3,4,7)] obtain c where
    row: "row_of t' c due \<in> set (db_transactions st2)"
      "row_transaction (row_of t' c due) = Inr (kept_tx t')" and now: "0 < kept now" by blast
  have k: "keeps st2 st'"
    by (rule keeps_trans [OF k3 [OF now] keeps_trans [OF wake_waiters_keeps [OF wake] emit_keeps [OF emit]]])
  have str2: "structure_ok st2"
    using settle_transaction_keeps [OF upd(1) assms(3-5) upd(3)] assms(7) by (simp add: keeps_def)
  have "row_settled (row_of t' c due)"
    using assms(8) by (auto simp: row_settled_def IsTerminal_def)
  with row(1) k str2 have "row_of t' c due \<in> set (db_transactions st')"
    unfolding keeps_def extends_def by metis
  with row(2) show ?thesis by (auto simp: stored_as_def)
qed

end
