(* ===== verification/Reachable.thy ===== *)
theory Reachable
  imports Service
begin

text \<open>
  The use cases as steps of one system, and what holds of every store the service can reach:
  each wallet reconciles with its ledger, and history is only ever extended.
\<close>

section \<open>Submit\<close>

lemma classified_Inr_iff [simp]: "classified m = Inr a \<longleftrightarrow> m = Inr a"
  by (cases m) (simp_all add: classified_def)

lemma Money_Parse_storable: "Money_Parse a c = Inr m \<Longrightarrow> storable_money m"
  by (auto simp: Money_Parse_def storable_money_def ParseCurrency_Inr_iff Let_def split: if_splits)

lemma admit_Inr:
  assumes "admit uuid_Parse ids cmd = Inr (command, hash)"
  shows "storable_money (c_Money command)" "command_ok command" "hash = payloadHash command"
    "Principal_Provider (sb_Principal cmd) = Some (c_Provider command)" "sb_Correlation cmd \<noteq> []"
  using assms
  by (auto simp: admit_def Wagering_command_def PayloadHash_def Command_Validate_Inr_iff
      intro: Money_Parse_storable split: if_splits)

lemma claim_inbox_keeps: "claim_inbox cmd now st_inbox st = Inr st' \<Longrightarrow> keeps st st'"
  using Inbox_Record_keeps by (auto simp: claim_inbox_def split: option.splits if_splits)

lemma Transactions_Record_stored:
  assumes "Transactions_Record t c st = Inr st'" "tx_storable t"
  shows "stored_as st' t"
proof -
  from assms(1) have "db_transactions st' = db_transactions st @ [row_of t c 0]"
    by (auto simp: Transactions_Record_def encoded_def insert_transaction_if_new_def insert_transaction_def
        split: sum.splits if_splits option.splits)
  with row_transaction_row_of [OF assms(2)] show ?thesis by (auto simp: stored_as_def)
qed

lemma submit_locked_InrE:
  assumes "submit_locked svc ids now cmd command st = Inr (r, st')"
  obtains w t st1 ref t1 w1 out t' x where
    "LockByID (c_WalletID command) st = Inr (Some w)" "w_playerID w = c_PlayerID command"
    "NewExternalTransaction command (w_id w) now = Inr t"
    "Transactions_Record t (sb_Correlation cmd) st = Inr st1" "reference_of command st1 = Inr ref"
    "Continue (wg_processor svc) (Some t) command (Some w) ref now = (t1, w1, Inr out)"
    "o_Transaction out = Some t'"
    "commitOutcome svc ids out t' (w_id w) now
       \<lparr>t_Correlation = sb_Correlation cmd, t_Causation = causationOf cmd\<rparr> st1 = Inr (x, st')"
    "r = resultOf t' False"
proof -
  from assms obtain found where lock: "LockByID (c_WalletID command) st = Inr found"
    by (auto simp: submit_locked_def)
  with assms obtain w where w: "found = Some w" by (cases found) (auto simp: submit_locked_def)
  note lock = lock [unfolded w]
  from assms lock obtain u where own: "WalletBelongsToPlayer command w = Inr u"
    by (cases "WalletBelongsToPlayer command w") (auto simp: submit_locked_def)
  from assms lock own obtain t st1 ref where
    t: "NewExternalTransaction command (w_id w) now = Inr t" and
    rec: "Transactions_Record t (sb_Correlation cmd) st = Inr st1" and
    ref: "reference_of command st1 = Inr ref"
    by (auto simp: submit_locked_def)
  obtain t1 w1 res where cont: "Continue (wg_processor svc) (Some t) command (Some w) ref now = (t1, w1, res)"
    by (metis prod_cases3)
  with assms lock own t rec ref obtain out where out: "res = Inr out" by (auto simp: submit_locked_def)
  with assms lock own t rec ref cont obtain t' where t': "o_Transaction out = Some t'"
    by (cases "o_Transaction out") (auto simp: submit_locked_def)
  with assms lock own t rec ref cont out obtain x where
    "commitOutcome svc ids out t' (w_id w) now
       \<lparr>t_Correlation = sb_Correlation cmd, t_Causation = causationOf cmd\<rparr> st1 = Inr (x, st')"
    "r = resultOf t' False"
    by (auto simp: submit_locked_def split: prod.splits)
  with that lock own t rec ref cont out t' show ?thesis by simp
qed

lemma submit_locked_keeps:
  assumes "submit_locked svc ids now cmd command st = Inr (r, st')" "clock_time now" "storable_money (c_Money command)"
  shows "keeps st st'"
proof -
  from assms(1) obtain w t st1 ref t1 w1 out t' x where
    t: "NewExternalTransaction command (w_id w) now = Inr t" and
    rec: "Transactions_Record t (sb_Correlation cmd) st = Inr st1" and
    cont: "Continue (wg_processor svc) (Some t) command (Some w) ref now = (t1, w1, Inr out)" and
    out: "o_Transaction out = Some t'" and
    commit: "commitOutcome svc ids out t' (w_id w) now
      \<lparr>t_Correlation = sb_Correlation cmd, t_Causation = causationOf cmd\<rparr> st1 = Inr (x, st')"
    by (rule submit_locked_InrE)
  note clock = clock_timeD [OF assms(2)]
  have live: "tx_live t" by (rule begun_live [OF begun_external [OF t clock(1)]])
  have fields: "tx_referenceDeadline t = 0" "tx_referenceAttempts t = 0" "tx_createdAt t = now" "tx_updatedAt t = now"
    "tx_amount t = c_Money command"
    using t by (simp_all add: NewExternalTransaction_Inr_iff pending_transaction_def)
  then have store: "tx_storable t" "waits_ahead t"
    using live assms(3) clock by (simp_all add: tx_storable_def tx_live_def waits_ahead_def)
  from cont obtain t'' where "o_Transaction out = Some t''" "advances (p_policy (wg_processor svc)) now t t''"
    "entry_from w now out" "open_status (tx_status t)" by (rule Continue_advances)
  with out have adv: "advances (p_policy (wg_processor svc)) now t t'" "entry_from w now out" "open_status (tx_status t)"
    by simp_all
  from keeps_trans [OF Transactions_Record_keeps [OF rec live store(2,1)]
      commitOutcome_keeps [OF commit out Transactions_Record_stored [OF rec store(1)] adv(1,3,2)]] show ?thesis .
qed

lemma submit_body_keeps:
  assumes "submit_body svc ids now_inbox now cmd command hash v st = Inr (r, st')" "clock_time now"
    "storable_money (c_Money command)"
  shows "keeps st st'"
proof -
  from assms(1) obtain st1 where inbox: "claim_inbox cmd now_inbox (vw_inbox v) st = Inr st1"
    and rest: "st' = st1 \<or> submit_locked svc ids now cmd command st1 = Inr (r, st')"
    by (auto simp: submit_body_def split: option.splits)
  from rest have "keeps st1 st'" using submit_locked_keeps [OF _ assms(2,3)] by auto
  with claim_inbox_keeps [OF inbox] show ?thesis by (rule keeps_trans)
qed

lemma Wagering_Submit_ok:
  assumes "store_ok (vw_move v)" "clock_time now" "Wagering_Submit uuid_Parse svc ids now_inbox now cmd v = (ans, st')"
  shows "store_ok st' \<and> extends (vw_move v) st'"
proof (cases "admit uuid_Parse ids cmd")
  case (Inl err)
  with assms show ?thesis by (simp add: Wagering_Submit_def)
next
  case (Inr ch)
  obtain command hash where ch: "ch = (command, hash)" by force
  note money = admit_Inr(1) [OF Inr [unfolded ch]]
  have "st' = snd (submitOnce svc ids now_inbox now cmd command hash v)"
    using assms(3) Inr ch
    by (auto simp: Wagering_Submit_def split: prod.splits sum.splits if_splits)
  moreover have "keeps (vw_move v) st1"
    if "submit_body svc ids now_inbox now cmd command hash v (vw_move v) = Inr (a, st1)" for a st1
    by (rule submit_body_keeps [OF that assms(2) money])
  ultimately show ?thesis
    using WithinMovement_ok [OF assms(1), of "submit_body svc ids now_inbox now cmd command hash v"]
    by (simp add: submitOnce_def)
qed

section \<open>Resume\<close>

lemma failed_row:
  assumes "row_ok old" "row_transaction old = Inr t" "open_status (tx_status t)" "micros (tx_updatedAt t) \<le> micros now"
  shows "row_ok (old\<lparr>tr_status := ''FAILED'', tr_updatedAt := micros now, tr_nextAttemptAt := None\<rparr>)"
proof -
  note row = row_ok_transaction [OF assms(1,2)]
  let ?t = "t\<lparr>tx_status := Failed, tx_updatedAt := kept now\<rparr>"
  have times: "tx_updatedAt t \<le> kept now" "kept now \<noteq> 0"
    using assms(4) row(1,2) kept_mono [of "tx_updatedAt t" now]
    by (auto simp: tx_live_def tx_storable_def tx_ok_def times_ok_def micros_le_iff)
  then have "Tx_Fail (kept now) t = Inr ?t" using assms(3) by (simp add: Tx_Fail_Inr_iff)
  from clocked_live [OF row(1) clocked_failed [OF this times(1)]] have live: "tx_live ?t" .
  then have store: "tx_storable ?t" "waits_ahead ?t"
    using row(2,7) by (simp_all add: tx_storable_def tx_live_def waits_ahead_def)
  have "old\<lparr>tr_status := ''FAILED'', tr_updatedAt := micros now, tr_nextAttemptAt := None\<rparr>
      = row_of ?t (tr_correlation old) 0"
    by (subst row(8)) (simp add: transactionArgs_def snapshotOf_eq snapshot_of_def Tx_Result_def timeOf_def Let_def)
  with row_of_ok [OF live store(2,1)] show ?thesis by simp
qed

lemma Transactions_Fail_keeps:
  assumes "Transactions_Fail t' st = Inr st'" "Tx_Fail now t1 = Inr t'" "tx_id t1 = tx_id t"
    "stored_as st t" "open_status (tx_status t)"
  shows "keeps st st'"
proof -
  from assms(2) have t': "tx_status t' = Failed" "tx_updatedAt t' = now" "tx_id t' = tx_id t"
    using assms(3) by (auto simp: Tx_Fail_Inr_iff)
  from assms(1) t' obtain n where upd: "update_transaction (tx_id t)
      (\<lambda>r. r\<lparr>tr_status := ''FAILED'', tr_updatedAt := micros now, tr_nextAttemptAt := None\<rparr>) st = Inr (n, st')"
    by (auto simp: Transactions_Fail_def split: sum.splits if_splits)
  show ?thesis
  proof (rule update_transaction_keeps [OF upd])
    fix old :: transaction_row
    let ?new = "old\<lparr>tr_status := ''FAILED'', tr_updatedAt := micros now, tr_nextAttemptAt := None\<rparr>"
    assume ok: "structure_ok st" and old: "old \<in> set (db_transactions st)" "tr_id old = Some (tx_id t)"
      and guard: "transaction_guard old ?new = None"
    have tx: "row_transaction old = Inr t" by (rule stored_unique [OF ok assms(4) old])
    note row = row_ok_transaction [OF structure_okD(5) [OF ok old(1)] tx]
    have "micros (tx_updatedAt t) \<le> micros now" using guard row(5) by (auto simp: transaction_guard_def split: if_splits)
    from failed_row [OF structure_okD(5) [OF ok old(1)] tx assms(5) this] open_row [OF assms(5) row(4)]
    show "row_ok ?new \<and> row_identity ?new = row_identity old \<and> \<not> row_settled old"
      by (simp add: row_identity_def)
  qed
qed

lemma cannotCarryForward_keeps:
  assumes "cannotCarryForward svc t1 now st = Inr (out, st')" "tx_id t1 = tx_id t" "stored_as st t"
    "open_status (tx_status t)"
  shows "keeps st st'"
proof -
  from assms(1) consider (failed) t' where "Tx_Fail now t1 = Inr t'" "Transactions_Fail t' st = Inr st'"
    | (later) due where "Reschedule (tx_id t1) due st = Inr st'"
    by (auto simp: cannotCarryForward_def Let_def split: if_splits)
  then show ?thesis
  proof cases
    case failed
    from Transactions_Fail_keeps [OF failed(2,1) assms(2-4)] show ?thesis .
  next
    case later
    then show ?thesis by (rule Reschedule_keeps)
  qed
qed

text \<open>What a row read from the store tells about it.\<close>

lemma transactions_one_stored:
  assumes "transactions_one (find P (db_transactions st)) = Inr (Some stored)"
  obtains r where "r \<in> set (db_transactions st)" "P r" "row_transaction r = Inr (st_Transaction stored)"
    "st_Correlation stored = tr_correlation r"
proof -
  from assms obtain r where r: "find P (db_transactions st) = Some r"
    by (cases "find P (db_transactions st)") (auto simp: transactions_one_def)
  with assms obtain t where "row_stored r = Inr t" "stored = t"
    by (auto simp: transactions_one_def split: sum.splits)
  with find_Some_member [OF r] that show ?thesis
    by (auto simp: row_stored_def split: sum.splits)
qed

lemma LockByID_storable:
  assumes "LockByID i st = Inr (Some w)"
  shows "wallet_storable w" "walletArgs w \<in> set (db_wallets st)" "w_id w = i"
proof -
  from assms obtain r where r: "find (\<lambda>r. wr_id r = uuidOf i) (db_wallets st) = Some r"
    by (cases "find (\<lambda>r. wr_id r = uuidOf i) (db_wallets st)")
      (auto simp: LockByID_def Wallets_ByID_def wallets_one_def select_wallet_by_id_def)
  with assms have "row_wallet r = Inr w"
    by (auto simp: LockByID_def Wallets_ByID_def wallets_one_def select_wallet_by_id_def split: sum.splits)
  with find_Some_member [OF r] show "wallet_storable w" "walletArgs w \<in> set (db_wallets st)" "w_id w = i"
    by (auto simp: row_wallet_Inr_iff uuidOf_def)
qed

text \<open>No path of the processor, an error included, changes the identifier of a transaction.\<close>

lemma steps_keep_id:
  "tx_id (fst (reject t c now)) = tx_id t"
  "tx_id (fst (wait p t now)) = tx_id t"
  "tx_id (fst (settle t w moved now)) = tx_id t"
  "resolve_named cmd ref t = Inr t' \<Longrightarrow> tx_id t' = tx_id t"
proof -
  have id: "Tx_Reject c now t = Inr t1 \<Longrightarrow> tx_id t1 = tx_id t"
    "MarkPendingReference (p_policy p) now t = Inr t1 \<Longrightarrow> tx_id t1 = tx_id t"
    "MarkProcessed (w_balance w) now t = Inr t1 \<Longrightarrow> tx_id t1 = tx_id t" for c t1
    by (auto simp: Tx_Reject_Inr_iff MarkPendingReference_Inr_iff MarkProcessed_Inr_iff parked_def)
  show reject: "tx_id (fst (reject t c now)) = tx_id t" for c
    by (auto simp: reject_def split: sum.split dest: id(1))
  show "tx_id (fst (wait p t now)) = tx_id t"
    by (auto simp: wait_def reject split: sum.split dest: id(2))
  show "tx_id (fst (settle t w moved now)) = tx_id t"
    by (auto simp: settle_def split: sum.split dest: id(3))
  show "tx_id t' = tx_id t" if "resolve_named cmd ref t = Inr t'"
    using resolve_named_steps [OF that] by (simp add: tx_identity_def)
qed

lemma apply_movement_id: "tx_id (fst (apply_movement t cmd w ref now)) = tx_id t"
proof (cases "resolve_named cmd ref t")
  case (Inr t1)
  note id = steps_keep_id(4) [OF Inr]
  show ?thesis
  proof (cases "movement cmd ref")
    case (Inl err)
    with Inr id show ?thesis by (simp add: apply_movement_def)
  next
    case m: (Inr dir)
    with Inr id show ?thesis
      by (cases dir)
        (auto simp: apply_movement_def steps_keep_id(1,3) Let_def split: sum.split option.split)
  qed
qed (simp add: apply_movement_def)

lemma p_apply_id: "tx_id (fst (p_apply p t cmd w ref now)) = tx_id t"
  by (auto simp: p_apply_def steps_keep_id(1,2) apply_movement_id Let_def
      split: prod.split reference_outcome.split)

lemma Continue_id:
  assumes "Continue p (Some t) cmd (Some w) ref now = (t1, w1, res)"
  shows "\<exists>t'. t1 = Some t' \<and> tx_id t' = tx_id t"
  using assms p_apply_id [of p t cmd w ref now] by (auto simp: Continue_def Let_def split: sum.splits)

lemma resume_claimed_keeps:
  assumes "snd (resume_claimed svc ids now w stored st) = Inr (out, st')"
    "stored_as st (st_Transaction stored)" "open_status (tx_status (st_Transaction stored))"
  shows "keeps st st'"
proof -
  let ?t = "st_Transaction stored"
  show ?thesis
  proof (cases "rebuild ids ?t")
    case (Inl err)
    with assms(1) have "cannotCarryForward svc ?t now st = Inr (out, st')"
      by (simp add: resume_claimed_def Let_def)
    from cannotCarryForward_keeps [OF this refl assms(2,3)] show ?thesis .
  next
    case (Inr command)
    with assms(1) obtain ref where ref: "reference_of command st = Inr ref"
      by (cases "reference_of command st") (auto simp: resume_claimed_def Let_def)
    obtain t1 w1 res where cont: "Continue (wg_processor svc) (Some ?t) command (Some w) ref now = (t1, w1, res)"
      by (metis prod_cases3)
    show ?thesis
    proof (cases res)
      case (Inl f)
      with Continue_id [OF cont] obtain t' where t': "t1 = Some t'" "tx_id t' = tx_id ?t" by blast
      with assms(1) Inr ref cont Inl have "cannotCarryForward svc t' now st = Inr (out, st')"
        by (simp add: resume_claimed_def Let_def)
      from cannotCarryForward_keeps [OF this t'(2) assms(2,3)] show ?thesis .
    next
      case o: (Inr o')
      from cont [unfolded o] obtain t' where t': "o_Transaction o' = Some t'"
        "advances (p_policy (wg_processor svc)) now ?t t'" "entry_from w now o'"
        by (rule Continue_advances)
      from assms(1) Inr ref cont o t'(1) obtain x trace where
        "commitOutcome svc ids o' t' (w_id w) now trace st = Inr (x, st')"
        by (auto simp: resume_claimed_def Let_def split: prod.splits)
      from commitOutcome_keeps [OF this t'(1) assms(2) t'(2) assms(3) t'(3)] show ?thesis .
    qed
  qed
qed

lemma resume_body_keeps:
  assumes "snd (resume_body svc ids now st_due st) = Inr (out, st')"
  shows "keeps st st'"
proof (cases "structure_ok st")
  case ok: True
  show ?thesis
  proof (cases "\<exists>candidate w stored. NextDue now st_due = Inr (Some candidate)
      \<and> LockByID (dc_WalletID candidate) st = Inr (Some w)
      \<and> ClaimForUpdate (dc_TransactionID candidate) now st = Inr (Some stored)")
    case True
    then obtain candidate w stored where c: "NextDue now st_due = Inr (Some candidate)"
      "LockByID (dc_WalletID candidate) st = Inr (Some w)"
      "ClaimForUpdate (dc_TransactionID candidate) now st = Inr (Some stored)" by blast
    from c(3) obtain r where r: "r \<in> set (db_transactions st)" "is_due now r"
      "row_transaction r = Inr (st_Transaction stored)"
      unfolding ClaimForUpdate_def by (rule transactions_one_stored) blast
    have "Status_String (tx_status (st_Transaction stored)) = ''PENDING_REFERENCE''"
      using row_ok_transaction(4) [OF structure_okD(5) [OF ok r(1)] r(3)] r(2) by (simp add: is_due_def)
    moreover have "Status_Known (tx_status (st_Transaction stored))"
      using row_transaction_storable [OF r(3)] by (simp add: tx_storable_def tx_ok_def)
    ultimately have "open_status (tx_status (st_Transaction stored))"
      by (cases "tx_status (st_Transaction stored)") (auto simp: open_status_def Status_Known_def statuses_def)
    moreover have "stored_as st (st_Transaction stored)" using r by (auto simp: stored_as_def)
    moreover have "snd (resume_claimed svc ids now w stored st) = Inr (out, st')"
      using assms c by (simp add: resume_body_def)
    ultimately show ?thesis using resume_claimed_keeps by blast
  next
    case False
    with assms have "st' = st"
      by (auto simp: resume_body_def split: sum.splits option.splits)
    then show ?thesis by simp
  qed
qed (simp add: keeps_def)

lemma Wagering_Resume_ok:
  assumes "store_ok st" "Wagering_Resume svc ids now p st_due st = (ans, st', found)"
  shows "store_ok st' \<and> extends st st'"
proof (cases "MayResume p")
  case (Inl err)
  with assms show ?thesis by (simp add: Wagering_Resume_def)
next
  case (Inr u)
  let ?fn = "\<lambda>_ :: store. snd (resume_body svc ids now st_due st)"
  have "st' = snd (WithinMovement ?fn st)"
    using assms(2) Inr
    by (cases "WithinMovement ?fn st") (auto simp: Wagering_Resume_def Let_def split: sum.splits)
  moreover have "keeps st st1" if "?fn st = Inr (a, st1)" for a st1
    by (rule resume_body_keeps [OF that])
  ultimately show ?thesis using WithinMovement_ok [OF assms(1), of ?fn] by simp
qed

section \<open>Open\<close>

lemma writer_open_keeps:
  assumes "writer_open (opened_wallet i now) out c st = Inr st'" "open_input_ok i" "clock_time now"
    "opening_outcome i now out" "storable_money (ow_InitialBalance i)"
  shows "keeps st st'"
proof -
  note clock = clock_timeD [OF assms(3)]
  have w: "wallet_storable (opened_wallet i now)"
    using opened_wallet_ok [OF assms(2), of now] clock assms(5)
    by (simp add: wallet_storable_def) (simp add: opened_wallet_def sle_int)
  from assms(1) obtain st1 where ins: "insert_wallet (walletArgs (opened_wallet i now)) st = Inr st1"
    by (auto simp: writer_open_def)
  note k1 = insert_wallet_keeps [OF ins w]
  show ?thesis
  proof (cases "sint (m_units (ow_InitialBalance i)) = 0")
    case True
    with assms(1,4) ins k1 show ?thesis by (simp add: writer_open_def opening_outcome_def no_outcome_def)
  next
    case False
    let ?t = "opening_transaction i now"
    have out: "o_Transaction out = Some ?t" "o_LedgerEntry out = Some (opening_entry i now)"
      using assms(4) False by (simp_all add: opening_outcome_def)
    have "newOpeningTransaction i now = Inr ?t"
      using assms(2) clock False by (auto simp: newOpeningTransaction_Inr_iff open_input_ok_def opaque_ok_def)
    moreover have "NewPlayerID (ow_PlayerID i) = Inr (ow_PlayerID i)"
      using assms(2) by (simp add: NewPlayerID_def open_input_ok_def)
    ultimately have live: "tx_live ?t" using clock by (intro begun_live begun_opening)
    have "tx_amount ?t = ow_InitialBalance i" "tx_createdAt ?t = now" "tx_updatedAt ?t = now"
      "tx_referenceDeadline ?t = 0" "tx_referenceAttempts ?t = 0" by (simp_all add: opening_transaction_def)
    with live assms(5) clock have "waits_ahead ?t" "tx_storable ?t"
      by (simp_all add: tx_storable_def tx_live_def waits_ahead_def)
    note row = row_of_ok [OF live this]
    have "Wallet_move Credit (opening_credit i now) (empty_wallet i now) = Inr (opening_entry i now, opened_wallet i now)"
      using opening_credit_eq [OF assms(2) False] clock by (simp add: opening_entry_def)
    from move_entry_links [OF this] have e: "entry_ok (opening_entry i now)" ..
    have "le_createdAt (opening_entry i now) = now" by (simp add: opening_entry_def movement_entry_def opening_credit_def)
    with clock have time: "0 < kept (le_createdAt (opening_entry i now))" by simp
    from assms(1) ins out obtain st2 where "insert_transaction (row_of ?t c 0) st1 = Inr st2"
      "insert_ledger_entry (ledgerArgs (opening_entry i now)) st2 = Inr st'"
      by (auto simp: writer_open_def encoded_def split: if_splits)
    from keeps_trans [OF k1 keeps_trans [OF insert_transaction_keeps [OF this(1) row]
        insert_ledger_entry_keeps [OF this(2) e time]]] show ?thesis .
  qed
qed

lemma open_body_keeps:
  assumes "open_body ids now c i st_key st = Inr (a, st')" "clock_time now" "storable_money (ow_InitialBalance i)"
  shows "keeps st st'"
proof -
  from assms(1) obtain existing w out st1 where
    opened: "OpenWallet i existing now = Inr (w, out)" and wr: "writer_open w out c st = Inr st1"
    and rest: "(case o_Transaction out of None \<Rightarrow> Inr ((viewOf w, None), st1)
      | Some tx \<Rightarrow> bindE (emit ids (o_Events out) \<lparr>t_Correlation = c, t_Causation = []\<rparr> now st1)
          (\<lambda>st. Inr ((viewOf w, Some (resultOf tx False)), st))) = Inr (a, st')"
    by (auto simp: open_body_def split: prod.splits)
  have rest: "keeps st1 st'"
  proof (cases "o_Transaction out")
    case None
    with rest have "st' = st1" by simp
    then show ?thesis by simp
  next
    case (Some tx)
    with rest have "emit ids (o_Events out) \<lparr>t_Correlation = c, t_Causation = []\<rparr> now st1 = Inr st'" by simp
    then show ?thesis by (rule emit_keeps)
  qed
  from iffD1 [OF OpenWallet_Inr_iff opened] have i: "open_input_ok i" "w = opened_wallet i now"
    "OpenWallet i None now = Inr (opened_wallet i now, out)" by blast+
  have "opening_outcome i now out" using OpenWallet_outcome [OF i(1), of now] i(3) clock_timeD(1) [OF assms(2)] by auto
  from keeps_trans [OF writer_open_keeps [OF wr [unfolded i(2)] i(1) assms(2) this assms(3)] rest] show ?thesis .
qed

lemma Wallets_Open_ok:
  assumes "store_ok st" "clock_time now" "Wallets_Open ids now cmd st_key st = (ans, st')"
  shows "store_ok st' \<and> extends st st'"
proof (cases "admit_open cmd")
  case (Inl err)
  with assms show ?thesis by (simp add: Wallets_Open_def)
next
  case (Inr pb)
  obtain player balance where pb: "pb = (player, balance)" by force
  let ?fn = "open_body ids now (oc_Correlation cmd) (open_input ids player balance) st_key"
  have "storable_money (ow_InitialBalance (open_input ids player balance))"
    using Inr pb Money_Parse_storable by (auto simp: admit_open_def open_input_def split: if_splits)
  then have "keeps st st1" if "?fn st = Inr (a, st1)" for a st1
    using open_body_keeps [OF that assms(2)] by blast
  moreover have "st' = snd (WithinMovement ?fn st)"
    using assms(3) Inr pb
    by (cases "WithinMovement ?fn st") (auto simp: Wallets_Open_def split: sum.splits if_splits)
  ultimately show ?thesis using WithinMovement_ok [OF assms(1), of ?fn] by simp
qed

section \<open>The service as a transition system\<close>

text \<open>
  One use case, whole: whatever identifiers it minted, whatever its reads before the lock saw,
  and whatever it answered. A submission and an opening are at a reading of the clock of the
  process; a resumption may be at any time, as what it meets in the store is checked against it.
\<close>

inductive service_step :: "(string \<Rightarrow> uuid option) \<Rightarrow> store \<Rightarrow> store \<Rightarrow> bool"
  for uuid_Parse :: "string \<Rightarrow> uuid option" where
  submitted: "Wagering_Submit uuid_Parse svc ids now_inbox now cmd v = (ans, st') \<Longrightarrow> clock_time now \<Longrightarrow>
    service_step uuid_Parse (vw_move v) st'"
| resumed: "Wagering_Resume svc ids now p st_due st = (res, st', found) \<Longrightarrow> service_step uuid_Parse st st'"
| opened: "Wallets_Open ids now open_cmd st_key st = (view, st') \<Longrightarrow> clock_time now \<Longrightarrow> service_step uuid_Parse st st'"

inductive_cases service_stepE: "service_step uuid_Parse st st'"

lemma service_step_ok:
  assumes "service_step uuid_Parse st st'" "store_ok st"
  shows "store_ok st' \<and> extends st st'"
  using assms(1)
proof cases
  case (submitted svc ids now_inbox now cmd v ans)
  with Wagering_Submit_ok [of v now uuid_Parse svc ids now_inbox cmd ans st'] assms(2) show ?thesis by simp
next
  case (resumed svc ids now p st_due res found)
  with Wagering_Resume_ok [OF assms(2)] show ?thesis by blast
next
  case (opened ids now open_cmd st_key view)
  with Wallets_Open_ok [OF assms(2)] show ?thesis by blast
qed

interpretation service: transition_system "\<lambda>st. st = empty_store" "service_step uuid_Parse" store_ok
  by unfold_locales (auto simp: empty_store_ok dest: service_step_ok)

abbreviation reachable_store :: "(string \<Rightarrow> uuid option) \<Rightarrow> store \<Rightarrow> bool" where
  "reachable_store uuid_Parse st \<equiv> (service_step uuid_Parse)\<^sup>*\<^sup>* empty_store st"

lemma reachable_ok: "reachable_store uuid_Parse st \<Longrightarrow> store_ok st"
  by (rule service.inv_reachable [OF refl])

lemma later_ok:
  assumes "(service_step uuid_Parse)\<^sup>*\<^sup>* st st'" "store_ok st"
  shows "store_ok st' \<and> extends st st'"
  using assms
proof (induction rule: rtranclp_induct)
  case (step y z)
  then have "store_ok y" "extends st y" by auto
  with service_step_ok [OF step(2)] extends_trans show ?case by blast
qed simp

end
