(* ===== verification/Replays.thy ===== *)
theory Replays
  imports Reachable
begin

text \<open>
  Submitting the same operation again: what a store records of an operation, that nothing
  after it forgets it, and how a second submission is answered whichever of its reads the
  first one had already become visible to.
\<close>

section \<open>What is recorded of an operation\<close>

definition records :: "store \<Rightarrow> command \<Rightarrow> transaction_id \<Rightarrow> bool" where
  "records st c i \<longleftrightarrow>
     (\<exists>r \<in> set (db_transactions st).
        tr_id r = Some i \<and> tr_provider r = Some (c_Provider c) \<and> tr_externalID r = Some (c_ExternalTransactionID c)
        \<and> tr_idempotencyKey r = Some (c_IdempotencyKey c) \<and> tr_payloadHash r = Some (payloadHash c)
        \<and> tr_walletID r = Some (c_WalletID c) \<and> tr_playerID r = c_PlayerID c)"

lemma records_later:
  assumes "records st c i" "extends st st'"
  shows "records st' c i"
proof -
  from assms(1) obtain r where r: "r \<in> set (db_transactions st)" "tr_id r = Some i"
    "tr_provider r = Some (c_Provider c)" "tr_externalID r = Some (c_ExternalTransactionID c)"
    "tr_idempotencyKey r = Some (c_IdempotencyKey c)" "tr_payloadHash r = Some (payloadHash c)"
    "tr_walletID r = Some (c_WalletID c)" "tr_playerID r = c_PlayerID c" by (auto simp: records_def)
  from assms(2) r(1) obtain r' where "r' \<in> set (db_transactions st')" "row_identity r' = row_identity r"
    unfolding extends_def by blast
  with r show ?thesis unfolding records_def by (intro bexI [of _ r']) (simp_all add: row_identity_def)
qed

lemma records_same_business:
  assumes "records st c0 i" "same_business c c0" "c_IdempotencyKey c = c_IdempotencyKey c0"
  shows "records st c i"
  using assms payloadHash_same_business [OF assms(2)] by (simp add: records_def same_business_def)

lemma row_of_hash: "tx_ok t \<Longrightarrow> tr_payloadHash (row_of t c n) = Tx_PayloadHash t"
  by (cases "tx_external t")
    (auto simp: tx_ok_def origin_ok_def transactionArgs_def snapshotOf_eq snapshot_of_def
      snapshot_of_external_def no_external_def textOf_def Tx_PayloadHash_def Let_def)

text \<open>The stored columns of a row are those of the transaction it holds.\<close>

lemma row_columns:
  assumes "row_ok r" "row_transaction r = Inr t"
  shows "tr_id r = Some (tx_id t)" "tr_provider r = Tx_Provider t" "tr_externalID r = Tx_ExternalTransactionID t"
    "tr_idempotencyKey r = Tx_IdempotencyKey t" "tr_payloadHash r = Tx_PayloadHash t"
    "tr_walletID r = Some (tx_walletID t)" "tr_playerID r = tx_playerID t" "tr_kind r = Kind_String (tx_kind t)"
    "tr_referenceExternal r = Tx_ReferenceExternalTransactionID t"
    "tr_resolvedReference r = Tx_ResolvedReferenceID t"
proof -
  note row = row_ok_transaction [OF assms]
  have ok: "tx_ok t" using row(2) by (simp add: tx_storable_def)
  show "tr_id r = Some (tx_id t)" "tr_provider r = Tx_Provider t" "tr_externalID r = Tx_ExternalTransactionID t"
    "tr_idempotencyKey r = Tx_IdempotencyKey t" "tr_payloadHash r = Tx_PayloadHash t"
    "tr_walletID r = Some (tx_walletID t)" "tr_playerID r = tx_playerID t" "tr_kind r = Kind_String (tx_kind t)"
    "tr_referenceExternal r = Tx_ReferenceExternalTransactionID t"
    "tr_resolvedReference r = Tx_ResolvedReferenceID t"
    by (subst row(8), simp add: row_of_keys [OF ok] row_of_hash [OF ok])+
qed

text \<open>Both lookups find a recorded operation.\<close>

lemma records_read:
  assumes "structure_ok st" "records st c i"
  obtains t where "stored_as st t" "tx_id t = i"
    "\<exists>s. ByIdempotencyKey (c_Provider c) (c_IdempotencyKey c) st = Inr (Some s) \<and> st_Transaction s = t"
    "\<exists>s. ByExternal (c_Provider c) (c_ExternalTransactionID c) st = Inr (Some s) \<and> st_Transaction s = t"
    "Tx_PayloadHash t = Some (payloadHash c)" "Tx_IdempotencyKey t = Some (c_IdempotencyKey c)"
proof -
  from assms(2) obtain r where r: "r \<in> set (db_transactions st)" "tr_id r = Some i"
    "tr_provider r = Some (c_Provider c)" "tr_externalID r = Some (c_ExternalTransactionID c)"
    "tr_idempotencyKey r = Some (c_IdempotencyKey c)" "tr_payloadHash r = Some (payloadHash c)"
    by (auto simp: records_def)
  from structure_okD(5) [OF assms(1) r(1)] obtain t where t: "row_transaction r = Inr t"
    "row_stored r = Inr \<lparr>st_Transaction = t, st_Correlation = tr_correlation r\<rparr>" by (rule row_okE)
  note cols = row_columns [OF structure_okD(5) [OF assms(1) r(1)] t(1)]
  note free = structure_okD(7) [OF assms(1)]
  have "stored_as st t" using r(1) t(1) by (auto simp: stored_as_def)
  moreover have "tx_id t = i" "Tx_PayloadHash t = Some (payloadHash c)"
    "Tx_IdempotencyKey t = Some (c_IdempotencyKey c)" using cols r by simp_all
  moreover have "\<exists>s. ByIdempotencyKey (c_Provider c) (c_IdempotencyKey c) st = Inr (Some s) \<and> st_Transaction s = t"
    using select_by_key_eq [OF free r(1,3,5)] t(2) by (simp add: ByIdempotencyKey_def transactions_one_def)
  moreover have "\<exists>s. ByExternal (c_Provider c) (c_ExternalTransactionID c) st = Inr (Some s) \<and> st_Transaction s = t"
    using select_by_external_eq [OF free r(1,3,4)] t(2) by (simp add: ByExternal_def transactions_one_def)
  ultimately show ?thesis using that by blast
qed

text \<open>
  An earlier state either does not show the operation at all or records it already: a lookup
  that finds something finds this operation.
\<close>

lemma records_earlier:
  assumes "structure_ok st'" "extends st st'" "records st' c i" "r \<in> set (db_transactions st)"
    "tr_provider r = Some (c_Provider c)"
    "tr_idempotencyKey r = Some (c_IdempotencyKey c) \<or> tr_externalID r = Some (c_ExternalTransactionID c)"
  shows "records st c i"
proof -
  from assms(2,4) obtain r' where r': "r' \<in> set (db_transactions st')" "row_identity r' = row_identity r"
    unfolding extends_def by blast
  from assms(3) obtain s where s: "s \<in> set (db_transactions st')" "tr_id s = Some i"
    "tr_provider s = Some (c_Provider c)" "tr_externalID s = Some (c_ExternalTransactionID c)"
    "tr_idempotencyKey s = Some (c_IdempotencyKey c)" "tr_payloadHash s = Some (payloadHash c)"
    "tr_walletID s = Some (c_WalletID c)" "tr_playerID s = c_PlayerID c" by (auto simp: records_def)
  have "transaction_collision s r' \<noteq> None"
    using s r' assms(5,6) by (auto simp: transaction_collision_def sql_eq_def row_identity_def)
  then have "s = r'" by (rule collision_free_eq [OF structure_okD(7) [OF assms(1)] s(1) r'(1)])
  with s r'(2) assms(4) show ?thesis
    unfolding records_def by (intro bexI [of _ r]) (simp_all add: row_identity_def)
qed

lemma select_by_key_member:
  "select_by_key p k st = Some r \<Longrightarrow>
     r \<in> set (db_transactions st) \<and> tr_provider r = Some p \<and> tr_idempotencyKey r = Some k"
  unfolding select_by_key_def by (drule find_Some_member) simp

lemma select_by_external_member:
  "select_by_external p e st = Some r \<Longrightarrow>
     r \<in> set (db_transactions st) \<and> tr_provider r = Some p \<and> tr_externalID r = Some e"
  unfolding select_by_external_def by (drule find_Some_member) simp

section \<open>Replays\<close>

lemma replayOf_same:
  "Tx_PayloadHash (st_Transaction s) = Some hash \<Longrightarrow> replayOf s hash = Inr (resultOf (st_Transaction s) True)"
  by (simp add: replayOf_def AssertSamePayload_def)

lemma replayOf_other:
  "Tx_PayloadHash (st_Transaction s) = Some h \<Longrightarrow> h \<noteq> hash \<Longrightarrow>
   replayOf s hash = Inl (conflict IdempotencyPayloadConflict (Some (DomainErr (New IdempotencyPayloadConflict))))"
  by (simp add: replayOf_def AssertSamePayload_def failure_Is_def)

text \<open>A replay of a recorded operation: its transaction, as some state of the store shows it.\<close>

definition replays :: "operation_result \<Rightarrow> transaction_id \<Rightarrow> store \<Rightarrow> bool" where
  "replays a i st \<longleftrightarrow> (\<exists>t. stored_as st t \<and> tx_id t = i \<and> a = resultOf t True)"

lemma replay_by_key:
  assumes "structure_ok st" "records st c i"
  shows "\<exists>a. replay st st_external c (payloadHash c) = Inr (Some a) \<and> replays a i st"
proof -
  from assms obtain t where t: "stored_as st t" "tx_id t = i"
    "\<exists>s. ByIdempotencyKey (c_Provider c) (c_IdempotencyKey c) st = Inr (Some s) \<and> st_Transaction s = t"
    "Tx_PayloadHash t = Some (payloadHash c)" by (rule records_read)
  then obtain s where "ByIdempotencyKey (c_Provider c) (c_IdempotencyKey c) st = Inr (Some s)" "st_Transaction s = t"
    by blast
  with t replayOf_same [of s "payloadHash c"] show ?thesis by (auto simp: replay_def replays_def)
qed

lemma replay_by_external:
  assumes "structure_ok st" "records st c i" "select_by_key (c_Provider c) (c_IdempotencyKey c) st_key = None"
  shows "\<exists>a. replay st_key st c (payloadHash c) = Inr (Some a) \<and> replays a i st"
proof -
  from assms(1,2) obtain t where t: "stored_as st t" "tx_id t = i"
    "\<exists>s. ByExternal (c_Provider c) (c_ExternalTransactionID c) st = Inr (Some s) \<and> st_Transaction s = t"
    "Tx_PayloadHash t = Some (payloadHash c)" "Tx_IdempotencyKey t = Some (c_IdempotencyKey c)"
    by (rule records_read)
  then obtain s where "ByExternal (c_Provider c) (c_ExternalTransactionID c) st = Inr (Some s)" "st_Transaction s = t"
    by blast
  with t assms(3) replayOf_same [of s "payloadHash c"] show ?thesis
    by (auto simp: replay_def replays_def ByIdempotencyKey_def transactions_one_def)
qed

lemma replay_absent:
  assumes "select_by_key (c_Provider c) (c_IdempotencyKey c) st_key = None"
    "select_by_external (c_Provider c) (c_ExternalTransactionID c) st_external = None"
  shows "replay st_key st_external c hash = Inr None"
  using assms by (simp add: replay_def ByIdempotencyKey_def ByExternal_def transactions_one_def)

lemma resolveDuplicate_replays:
  assumes "structure_ok st" "records st c i"
  shows "\<exists>a. resolveDuplicate st c (payloadHash c) = Inr a \<and> replays a i st"
  using replay_by_key [OF assms, of st] by (auto simp: resolveDuplicate_def WithinSnapshot_def)

text \<open>A second submission that misses the first in both reads collides with its row.\<close>

lemma submit_locked_duplicate:
  assumes "structure_ok st" "records st command i" "command_ok command" "now \<noteq> 0"
    "opaque_id (sb_Correlation cmd)"
  shows "submit_locked svc ids now cmd command st = Inl (Wrapped [Sentinel ErrDuplicateSubmission])"
proof -
  from assms(2) obtain r where r: "r \<in> set (db_transactions st)"
    "tr_provider r = Some (c_Provider command)" "tr_externalID r = Some (c_ExternalTransactionID command)"
    "tr_walletID r = Some (c_WalletID command)" "tr_playerID r = c_PlayerID command" by (auto simp: records_def)
  from structure_okD(6) [OF assms(1) r(1)] r obtain wr where wr: "wr \<in> set (db_wallets st)"
    "wr_id wr = Some (c_WalletID command)" "wr_playerID wr = c_PlayerID command"
    by (auto simp: names_wallet_def list_ex_iff)
  from structure_okD(1) [OF assms(1) wr(1)] obtain w where w: "wallet_storable w" "wr = walletArgs w"
    by (auto simp: wallet_row_ok_def)
  have "find (\<lambda>x. wr_id x = Some (c_WalletID command)) (db_wallets st) = Some wr"
    using structure_find_wallet [OF assms(1) wr(1)] wr(2) by simp
  then have lock: "LockByID (c_WalletID command) st = Inr (Some w)"
    using w iffD2 [OF row_wallet_Inr_iff, of w wr]
    by (simp add: LockByID_def Wallets_ByID_def select_wallet_by_id_def wallets_one_def uuidOf_def)
  have own: "w_playerID w = c_PlayerID command" "w_id w \<noteq> 0"
    using wr(3) w by (simp_all add: wallet_storable_def wallet_ok_def)
  define t where "t = pending_transaction command (w_id w) now"
  have new: "NewExternalTransaction command (w_id w) now = Inr t"
    using assms(3,4) own(2) by (simp add: NewExternalTransaction_Inr_iff t_def)
  have "tx_ok t" unfolding t_def by (rule pending_transaction_ok [OF assms(3) own(2) assms(4)])
  from row_of_keys(1,2) [OF this]
  have keys: "tr_provider (row_of t (sb_Correlation cmd) 0) = Some (c_Provider command)"
    "tr_externalID (row_of t (sb_Correlation cmd) 0) = Some (c_ExternalTransactionID command)"
    by (simp_all add: t_def pending_transaction_def external_of_command_def tx_accessors)
  then have "transaction_collision (row_of t (sb_Correlation cmd) 0) r \<noteq> None"
    using r by (simp add: transaction_collision_def sql_eq_def)
  with r(1) have "collision (row_of t (sb_Correlation cmd) 0) (db_transactions st) \<noteq> None"
    by (auto simp: collision_None_iff)
  moreover have "attempts_fit (snapshotOf t)"
    by (simp add: attempts_fit_def snapshotOf_eq snapshot_of_def t_def pending_transaction_def)
  moreover have "in_wallet_currency (row_of t (sb_Correlation cmd) 0) st"
    by (simp add: in_wallet_currency_def t_def pending_transaction_def)
  ultimately have "Transactions_Record t (sb_Correlation cmd) st = Inl (Wrapped [Sentinel ErrDuplicateSubmission])"
    using assms(5) by (auto simp: Transactions_Record_def encoded_def insert_transaction_if_new_def insert_transaction_def)
  then show ?thesis using lock new own(1) by (simp add: submit_locked_def classified_def WalletBelongsToPlayer_def)
qed

section \<open>Submitting twice\<close>

lemma opaque_idD: "opaque_id s \<Longrightarrow> s \<noteq> []"
  by (simp add: opaque_id_def opaque_ok_def)

text \<open>The same fields, read again: the same command but for the identifiers minted for it.\<close>

lemma command_again:
  assumes "Wagering_command uuid_Parse ids0 f p = Inr c0" 
  shows "Wagering_command uuid_Parse ids f p
    = Inr (c0\<lparr>c_TransactionID := id_Transaction ids,
             c_LedgerEntryID := (if MovesMoney (c_Kind c0) then id_LedgerEntry ids else 0)\<rparr>)"
  using assms by (auto simp: Wagering_command_def)

lemma admit_again:
  assumes "admit uuid_Parse ids0 cmd0 = Inr (c0, h0)" "MaySubmitAs (sb_Principal cmd) = MaySubmitAs (sb_Principal cmd0)"
    "sb_Fields cmd = sb_Fields cmd0" "sb_Correlation cmd \<noteq> []" "id_Transaction ids \<noteq> 0" "id_LedgerEntry ids \<noteq> 0"
  obtains c where "admit uuid_Parse ids cmd = Inr (c, payloadHash c)" "same_business c c0"
    "c_IdempotencyKey c = c_IdempotencyKey c0" "command_ok c"
proof -
  from assms(1) obtain p where p: "NewProvider (of_Provider (sb_Fields cmd0)) = Inr p"
    "MaySubmitAs (sb_Principal cmd0) p = Inr ()" "Wagering_command uuid_Parse ids0 (sb_Fields cmd0) p = Inr c0"
    by (auto simp: admit_def classified_def split: sum.splits if_splits)
  define c where "c = c0\<lparr>c_TransactionID := id_Transaction ids,
    c_LedgerEntryID := (if MovesMoney (c_Kind c0) then id_LedgerEntry ids else 0)\<rparr>"
  have cmd: "Wagering_command uuid_Parse ids (sb_Fields cmd) p = Inr c"
    using command_again [OF p(3)] assms(3) by (simp add: c_def)
  have ok: "command_ok c"
    using admit_Inr(2) [OF assms(1)] assms(5,6) by (auto simp: command_ok_def c_def)
  then have "PayloadHash c = Inr (payloadHash c)" by (simp add: PayloadHash_def Command_Validate_Inr_iff)
  with cmd p(1,2) assms(2-4) have "admit uuid_Parse ids cmd = Inr (c, payloadHash c)"
    by (simp add: admit_def classified_def)
  moreover have "same_business c c0" "c_IdempotencyKey c = c_IdempotencyKey c0"
    by (simp_all add: same_business_def c_def)
  ultimately show ?thesis using that ok by blast
qed

lemma claim_inbox_tables:
  assumes "claim_inbox cmd now st_inbox st = Inr st'"
  shows "db_wallets st' = db_wallets st" "db_transactions st' = db_transactions st"
    "db_ledger st' = db_ledger st" "db_outbox st' = db_outbox st" "db_holds st' = db_holds st"
  using assms
  by (auto simp: claim_inbox_def Inbox_Record_def insert_inbox_def split: option.splits if_splits)

lemma commit_untouched:
  assumes "db_wallets st' = db_wallets st" "db_ledger st' = db_ledger st"
  shows "commit_violation st st' = None"
  using assms by (simp add: commit_violation_def touched_def)

lemma submission_replayed:
  assumes ok: "store_ok (vw_key v)" "store_ok (vw_external v)" "store_ok (vw_move v)" "store_ok (vw_resolve v)"
    and ext: "extends (vw_key v) (vw_move v)" "extends (vw_external v) (vw_move v)"
      "extends (vw_move v) (vw_resolve v)"
    and rec: "records (vw_move v) command i" and cmd: "command_ok command" "now \<noteq> 0" "opaque_id (sb_Correlation cmd)"
    and admit: "admit uuid_Parse ids cmd = Inr (command, payloadHash command)"
    and claim: "claim_inbox cmd now_inbox (vw_inbox v) (vw_move v) = Inr st1"
  shows "\<exists>a st'. Wagering_Submit uuid_Parse svc ids now_inbox now cmd v = (Inr a, st')
    \<and> (st' = vw_move v \<or> st' = st1) \<and> (\<exists>st \<in> {vw_key v, vw_external v, vw_resolve v}. replays a i st)"
proof -
  note move = store_okD(1) [OF ok(3)]
  note tables = claim_inbox_tables [OF claim]
  note commit = commit_untouched [OF tables(1,3)]
  have answered: ?thesis
    if "replay (vw_key v) (vw_external v) command (payloadHash command) = Inr (Some a)"
      "st \<in> {vw_key v, vw_external v, vw_resolve v}" "replays a i st" for a st
  proof -
    have "Wagering_Submit uuid_Parse svc ids now_inbox now cmd v = (Inr a, st1)"
      using admit claim that(1) commit
      by (simp add: Wagering_Submit_def submitOnce_def submit_body_def WithinMovement_def)
    with that(2,3) show ?thesis by blast
  qed
  show ?thesis
  proof (cases "select_by_key (c_Provider command) (c_IdempotencyKey command) (vw_key v)")
    case (Some r)
    note r = select_by_key_member [OF Some]
    have "records (vw_key v) command i" by (rule records_earlier [OF move ext(1) rec]) (use r in blast)+
    from replay_by_key [OF store_okD(1) [OF ok(1)] this] answered show ?thesis by blast
  next
    case key: None
    show ?thesis
    proof (cases "select_by_external (c_Provider command) (c_ExternalTransactionID command) (vw_external v)")
      case (Some r)
      note r = select_by_external_member [OF Some]
      have "records (vw_external v) command i" by (rule records_earlier [OF move ext(2) rec]) (use r in blast)+
      from replay_by_external [OF store_okD(1) [OF ok(2)] this key] answered show ?thesis by blast
    next
      case None
      have "structure_ok st1" "records st1 command i"
        using claim_inbox_keeps [OF claim] move rec tables(2) by (auto simp: keeps_def records_def)
      from submit_locked_duplicate [OF this cmd, of svc ids] claim replay_absent [OF key None]
      have "submitOnce svc ids now_inbox now cmd command (payloadHash command) v
          = (Inl (Wrapped [Sentinel ErrDuplicateSubmission]), vw_move v)"
        by (simp add: submitOnce_def submit_body_def WithinMovement_def)
      moreover obtain a where "resolveDuplicate (vw_resolve v) command (payloadHash command) = Inr a"
        "replays a i (vw_resolve v)"
        using resolveDuplicate_replays [OF store_okD(1) [OF ok(4)] records_later [OF rec ext(3)]] by blast
      ultimately show ?thesis using admit by (auto simp: Wagering_Submit_def)
    qed
  qed
qed

text \<open>The first submission is recorded. An answer names no time, so what is stored answers the same.\<close>

lemma resultOf_kept: "resultOf (kept_tx t) b = resultOf t b"
  by (simp add: resultOf_def kept_tx_def tx_accessors Tx_Result_def Tx_FailureCode_def)

lemma replayOf_flag: "replayOf s hash = Inr a \<Longrightarrow> res_IdempotentReplay a"
  by (auto simp: replayOf_def resultOf_def split: sum.splits if_splits)

lemma replay_flag:
  assumes "replay st_key st_external c hash = Inr (Some a)"
  shows "res_IdempotentReplay a"
proof -
  from assms obtain found where key: "ByIdempotencyKey (c_Provider c) (c_IdempotencyKey c) st_key = Inr found"
    by (auto simp: replay_def)
  show ?thesis
  proof (cases found)
    case (Some s)
    with assms key show ?thesis by (auto simp: replay_def dest: replayOf_flag)
  next
    case None
    with assms key obtain other where "ByExternal (c_Provider c) (c_ExternalTransactionID c) st_external = Inr other"
      by (auto simp: replay_def)
    with assms key None show ?thesis
      by (cases other) (auto simp: replay_def dest: replayOf_flag split: if_splits)
  qed
qed

lemma resolveDuplicate_flag: "resolveDuplicate st c hash = Inr a \<Longrightarrow> res_IdempotentReplay a"
  by (auto simp: resolveDuplicate_def WithinSnapshot_def split: sum.splits option.splits dest: replay_flag)

lemma Transactions_Record_table:
  "Transactions_Record t c st = Inr st' \<Longrightarrow> db_transactions st' = db_transactions st @ [row_of t c 0]"
  by (auto simp: Transactions_Record_def encoded_def insert_transaction_if_new_def insert_transaction_def
      split: sum.splits if_splits option.splits)

lemma submit_locked_records:
  assumes "submit_locked svc ids now cmd command st = Inr (a, st')" "structure_ok st" "clock_time now"
    "storable_money (c_Money command)"
  shows "records st' command (res_TransactionID a)"
    "IsTerminal (res_Status a) \<Longrightarrow> \<exists>t. stored_as st' t \<and> a = resultOf t False"
proof -
  from assms(1) obtain w t st1 ref t1 w1 out t' x where
    lock: "LockByID (c_WalletID command) st = Inr (Some w)" and
    t: "NewExternalTransaction command (w_id w) now = Inr t" and
    rec: "Transactions_Record t (sb_Correlation cmd) st = Inr st1" and
    cont: "Continue (wg_processor svc) (Some t) command (Some w) ref now = (t1, w1, Inr out)" and
    out: "o_Transaction out = Some t'" and
    commit: "commitOutcome svc ids out t' (w_id w) now
      \<lparr>t_Correlation = sb_Correlation cmd, t_Causation = causationOf cmd\<rparr> st1 = Inr (x, st')" and
    a: "a = resultOf t' False"
    by (rule submit_locked_InrE)
  note clock = clock_timeD [OF assms(3)]
  have live: "tx_live t" by (rule begun_live [OF begun_external [OF t clock(1)]])
  have tp: "t = pending_transaction command (c_WalletID command) now"
    using t LockByID_storable(3) [OF lock] by (simp add: NewExternalTransaction_Inr_iff)
  have store: "tx_storable t" "waits_ahead t"
    using live assms(4) clock by (simp_all add: tx_storable_def tx_live_def tp pending_transaction_def waits_ahead_def)
  from cont obtain t'' where "o_Transaction out = Some t''" "advances (p_policy (wg_processor svc)) now t t''"
    "entry_from w now out" "open_status (tx_status t)" by (rule Continue_advances)
  with out have adv: "advances (p_policy (wg_processor svc)) now t t'" "entry_from w now out" "open_status (tx_status t)"
    by simp_all
  have id: "tx_id t' = tx_id t" using adv(1) by (simp add: advances_def tx_identity_def)
  have ok: "tx_ok t" using live by (simp add: tx_live_def)
  have "records st1 command (tx_id t)"
    unfolding records_def Transactions_Record_table [OF rec]
    by (rule bexI [of _ "row_of t (sb_Correlation cmd) 0"])
      (simp_all add: row_of_keys [OF ok] row_of_hash [OF ok],
       simp_all add: tp pending_transaction_def external_of_command_def tx_accessors)
  moreover have str1: "structure_ok st1"
    using Transactions_Record_keeps [OF rec live store(2,1)] assms(2) by (simp add: keeps_def)
  with commitOutcome_keeps [OF commit out Transactions_Record_stored [OF rec store(1)] adv(1,3,2)]
  have "extends st1 st'" by (simp add: keeps_def)
  ultimately show "records st' command (res_TransactionID a)" using records_later id by (simp add: a resultOf_def)
  assume "IsTerminal (res_Status a)"
  then have "IsTerminal (tx_status t')" by (simp add: a resultOf_def)
  from commitOutcome_stored [OF commit out Transactions_Record_stored [OF rec store(1)] adv(1,3,2) str1 this] a
  show "\<exists>t. stored_as st' t \<and> a = resultOf t False"
    by (intro exI [of _ "kept_tx t'"]) (simp add: resultOf_kept)
qed

text \<open>A submission answered afresh recorded its message and its operation.\<close>

lemma fresh_submission:
  assumes "Wagering_Submit uuid_Parse svc ids now_inbox now cmd v = (Inr a, st')" "\<not> res_IdempotentReplay a"
  obtains command hash st1 where "admit uuid_Parse ids cmd = Inr (command, hash)"
    "claim_inbox cmd now_inbox (vw_inbox v) (vw_move v) = Inr st1"
    "submit_locked svc ids now cmd command st1 = Inr (a, st')"
proof -
  from assms(1) obtain command hash where admit: "admit uuid_Parse ids cmd = Inr (command, hash)"
    by (auto simp: Wagering_Submit_def split: sum.splits)
  have "submitOnce svc ids now_inbox now cmd command hash v = (Inr a, st')"
    using assms admit
    by (auto simp: Wagering_Submit_def split: prod.splits sum.splits if_splits dest: resolveDuplicate_flag)
  then have body: "submit_body svc ids now_inbox now cmd command hash v (vw_move v) = Inr (a, st')"
    by (auto simp: submitOnce_def WithinMovement_def split: sum.splits option.splits prod.splits)
  then obtain st1 where "claim_inbox cmd now_inbox (vw_inbox v) (vw_move v) = Inr st1"
    "submit_locked svc ids now cmd command st1 = Inr (a, st')"
    using assms(2) by (auto simp: submit_body_def split: option.splits dest: replay_flag)
  with admit that show ?thesis by blast
qed

lemma submitted_records:
  assumes "store_ok (vw_move v)" "clock_time now" "Wagering_Submit uuid_Parse svc ids now_inbox now cmd v = (Inr a, st')"
    "\<not> res_IdempotentReplay a"
  shows "\<exists>command. admit uuid_Parse ids cmd = Inr (command, payloadHash command) \<and> command_ok command
    \<and> records st' command (res_TransactionID a)
    \<and> (IsTerminal (res_Status a) \<longrightarrow> (\<exists>t. stored_as st' t \<and> a = resultOf t False))"
proof -
  from fresh_submission [OF assms(3,4)] obtain command hash st1 where
    admit: "admit uuid_Parse ids cmd = Inr (command, hash)" and
    claim: "claim_inbox cmd now_inbox (vw_inbox v) (vw_move v) = Inr st1" and
    locked: "submit_locked svc ids now cmd command st1 = Inr (a, st')" .
  note adm = admit_Inr [OF admit]
  have "structure_ok st1"
    using claim_inbox_keeps [OF claim] store_okD(1) [OF assms(1)] by (simp add: keeps_def)
  from submit_locked_records [OF locked this assms(2) adm(1)] admit adm show ?thesis by auto
qed

lemma resubmitted:
  assumes first: "store_ok (vw_move v0)" "clock_time now0"
      "Wagering_Submit uuid_Parse svc0 ids0 now_inbox0 now0 cmd0 v0 = (Inr a0, st0)" "\<not> res_IdempotentReplay a0"
    and again: "MaySubmitAs (sb_Principal cmd) = MaySubmitAs (sb_Principal cmd0)" "sb_Fields cmd = sb_Fields cmd0" "opaque_ok (sb_Correlation cmd)"
      "id_Transaction ids \<noteq> 0" "id_LedgerEntry ids \<noteq> 0" "now \<noteq> 0"
    and order: "store_ok (vw_key v)" "(service_step uuid_Parse)\<^sup>*\<^sup>* (vw_key v) (vw_external v)"
      "(service_step uuid_Parse)\<^sup>*\<^sup>* (vw_external v) (vw_move v)"
      "(service_step uuid_Parse)\<^sup>*\<^sup>* st0 (vw_move v)"
      "(service_step uuid_Parse)\<^sup>*\<^sup>* (vw_move v) (vw_resolve v)"
    and inbox: "claim_inbox cmd now_inbox (vw_inbox v) (vw_move v) = Inr st1"
  shows "\<exists>a st'. Wagering_Submit uuid_Parse svc ids now_inbox now cmd v = (Inr a, st')
    \<and> res_IdempotentReplay a \<and> res_TransactionID a = res_TransactionID a0 \<and> (st' = vw_move v \<or> st' = st1)"
proof -
  from submitted_records [OF first(1,2,3,4)] obtain c0 where
    c0: "admit uuid_Parse ids0 cmd0 = Inr (c0, payloadHash c0)" "records st0 c0 (res_TransactionID a0)" by blast
  from again(3) have corr: "opaque_id (sb_Correlation cmd)" by (simp add: opaque_id_def)
  from c0(1) again(1,2) opaque_idD [OF corr] again(4,5) obtain c where
    c: "admit uuid_Parse ids cmd = Inr (c, payloadHash c)" "same_business c c0"
      "c_IdempotencyKey c = c_IdempotencyKey c0" "command_ok c" by (rule admit_again)
  have ok0: "store_ok st0" using Wagering_Submit_ok [OF first(1,2,3)] by blast
  note ext = later_ok [OF order(2,1)]
  note move = later_ok [OF order(3) conjunct1 [OF ext]]
  note resolve = later_ok [OF order(5) conjunct1 [OF move]]
  have "extends st0 (vw_move v)" using later_ok [OF order(4) ok0] by blast
  from records_same_business [OF records_later [OF c0(2) this] c(2,3)]
  have rec: "records (vw_move v) c (res_TransactionID a0)" .
  have key_move: "extends (vw_key v) (vw_move v)" using ext move extends_trans by blast
  obtain a st' st where "Wagering_Submit uuid_Parse svc ids now_inbox now cmd v = (Inr a, st')"
    "st' = vw_move v \<or> st' = st1" "replays a (res_TransactionID a0) st"
    using submission_replayed [OF order(1) conjunct1 [OF ext] conjunct1 [OF move] conjunct1 [OF resolve]
        key_move conjunct2 [OF move] conjunct2 [OF resolve] rec c(4) again(6) corr c(1) inbox] by blast
  then show ?thesis by (auto simp: replays_def resultOf_def)
qed

end
