(* ===== verification/Progress.thy ===== *)
theory Progress
  imports Replays
begin

text \<open>
  An operation the service has not seen is settled: every statement of the submission, every
  guard of the schema and the check at commit accept what the processor decided.
\<close>

section \<open>Statements that succeed\<close>

text \<open>What makes a new operation new to the store.\<close>

definition unseen :: "command \<Rightarrow> store \<Rightarrow> bool" where
  "unseen c st \<longleftrightarrow>
     (\<forall>r \<in> set (db_transactions st).
        tr_id r \<noteq> Some (c_TransactionID c)
        \<and> (tr_provider r = Some (c_Provider c) \<longrightarrow>
             tr_externalID r \<noteq> Some (c_ExternalTransactionID c)
             \<and> tr_idempotencyKey r \<noteq> Some (c_IdempotencyKey c)))
     \<and> (\<forall>l \<in> set (db_ledger st).
          lr_id l \<noteq> Some (c_LedgerEntryID c) \<and> lr_transactionID l \<noteq> Some (c_TransactionID c))"

text \<open>What a transaction that was recorded from a command keeps of it.\<close>

lemma recorded_columns:
  assumes "tx_identity t = tx_identity (pending_transaction c i now)"
  shows "tx_id t = c_TransactionID c" "tx_kind t = c_Kind c" "tx_walletID t = i" "tx_playerID t = c_PlayerID c"
    "tx_amount t = c_Money c" "tx_createdAt t = now"
    "Tx_Provider t = Some (c_Provider c)" "Tx_ExternalTransactionID t = Some (c_ExternalTransactionID c)"
    "Tx_IdempotencyKey t = Some (c_IdempotencyKey c)"
proof -
  from assms obtain x where x: "tx_external t = Some x" "x\<lparr>x_resolvedReferenceID := 0\<rparr> = external_of_command c"
    by (auto simp: tx_identity_def pending_transaction_def external_of_command_def)
  then have "x_provider x = c_Provider c" "x_externalTransactionID x = c_ExternalTransactionID c"
    "x_idempotencyKey x = c_IdempotencyKey c"
    by (cases x, simp add: external_of_command_def)+
  with x(1) show "Tx_Provider t = Some (c_Provider c)"
    "Tx_ExternalTransactionID t = Some (c_ExternalTransactionID c)"
    "Tx_IdempotencyKey t = Some (c_IdempotencyKey c)" by (simp_all add: tx_accessors)
qed (use assms in \<open>simp_all add: tx_identity_def pending_transaction_def\<close>)

definition plain_kind :: "kind \<Rightarrow> bool" where
  "plain_kind k \<longleftrightarrow> k = Bet \<or> k = Win \<or> k = Loss"

lemma plain_row:
  assumes "plain_kind (tx_kind t)"
  shows "\<not> is_reversal_row (row_of t corr due)" "tr_kind (row_of t corr due) \<noteq> ''OPENING''"
  using assms by (auto simp: plain_kind_def is_reversal_row_def)

text \<open>Its row, in any state, collides with nothing.\<close>

lemma unseen_no_collision:
  assumes "unseen c st" "tx_ok t" "tx_identity t = tx_identity (pending_transaction c i now)" "plain_kind (c_Kind c)"
  shows "collision (row_of t corr due) (db_transactions st) = None"
proof -
  note cols = recorded_columns [OF assms(3)]
  have "plain_kind (tx_kind t)" using assms(4) cols(2) by simp
  note kind = plain_row [OF this, of corr due]
  show ?thesis
    unfolding collision_None_iff
    using assms(1) kind cols
    by (auto simp: transaction_collision_def sql_eq_def unseen_def row_of_keys [OF assms(2)] processed_reversal_def)
qed

lemma record_succeeds:
  assumes "unseen c st" "command_ok c" "plain_kind (c_Kind c)" "walletArgs w \<in> set (db_wallets st)"
    "w_playerID w = c_PlayerID c" "w_id w \<noteq> 0" "now \<noteq> 0" "opaque_id corr"
  shows "Transactions_Record (pending_transaction c (w_id w) now) corr st
    = Inr (st\<lparr>db_transactions := db_transactions st @ [row_of (pending_transaction c (w_id w) now) corr 0]\<rparr>)"
proof -
  let ?t = "pending_transaction c (w_id w) now"
  have "tx_ok ?t" by (rule pending_transaction_ok [OF assms(2,6,7)])
  from unseen_no_collision [OF assms(1) this refl assms(3)]
  have "collision (row_of ?t corr 0) (db_transactions st) = None" .
  moreover have "in_wallet_currency (row_of ?t corr 0) st"
    by (simp add: in_wallet_currency_def pending_transaction_def)
  moreover have "names_wallet (row_of ?t corr 0) st"
    using assms(4,5) by (force simp: names_wallet_def list_ex_iff pending_transaction_def)
  moreover have "attempts_fit (snapshotOf ?t)"
    by (simp add: attempts_fit_def snapshotOf_eq snapshot_of_def pending_transaction_def)
  ultimately show ?thesis using assms(8)
    by (simp add: Transactions_Record_def encoded_def insert_transaction_if_new_def insert_transaction_def)
qed

text \<open>Writing what the processor decided over the row just recorded.\<close>

lemma settle_row_succeeds:
  assumes "unseen c st" "plain_kind (c_Kind c)" "tx_ok t'"
    "tx_identity t' = tx_identity (pending_transaction c i now)" "Tx_ResolvedReferenceID t' = None"
    "tx_status t' \<noteq> Pending" "now \<le> tx_updatedAt t'"
    "tx_status t' = Processed \<Longrightarrow> wallet_currency_of (Some i) st = Some (cur_code (m_currency (c_Money c)))"
    and st1: "st1 = st\<lparr>db_transactions := db_transactions st @ [row_of (pending_transaction c i now) corr 0]\<rparr>"
  shows "update_transaction (tx_id t') (settled_row (snapshotOf t') due) st1
    = Inr (1, st\<lparr>db_transactions := db_transactions st @ [row_of t' corr due]\<rparr>)"
proof -
  let ?t = "pending_transaction c i now" and ?id = "c_TransactionID c"
  note cols = recorded_columns [OF assms(4)]
  have others: "\<forall>r \<in> set (db_transactions st). tr_id r \<noteq> Some ?id" using assms(1) by (auto simp: unseen_def)
  have found: "find (\<lambda>r. tr_id r = uuidOf (tx_id t')) (db_transactions st1) = Some (row_of ?t corr 0)"
    by (rule find_unique) (use others cols(1) in \<open>auto simp: st1 uuidOf_def pending_transaction_def\<close>)
  have rest: "filter (\<lambda>r. tr_id r \<noteq> uuidOf (tx_id t')) (db_transactions st1) = db_transactions st"
    using others cols(1) by (simp add: st1 uuidOf_def pending_transaction_def filter_id_conv)
  have new: "settled_row (snapshotOf t') due (row_of ?t corr 0) = row_of t' corr due"
    by (rule settled_row_row_of [OF assms(4)])
  note kind = plain_row [of t' corr due]
  have known: "Status_Known (tx_status t')" using assms(3) by (simp add: tx_ok_def)
  have pend: "tx_status ?t = Pending" "tx_updatedAt ?t = now"
    "tr_resolvedReference (row_of ?t corr 0) = None"
    by (simp_all add: pending_transaction_def transactionArgs_def snapshotOf_eq snapshot_of_def
        snapshot_of_external_def external_of_command_def nullableUUIDOf_def Let_def)
  have "transaction_guard (row_of ?t corr 0) (row_of t' corr due) = None"
    using assms(6) micros_mono [OF assms(7)] known by (cases "tx_status t'")
      (auto simp: transaction_guard_def row_of_keys [OF assms(3)] assms(5) pend Status_Known_def statuses_def)
  moreover have "in_wallet_currency (row_of t' corr due) st1"
    using assms(8) cols known by (cases "tx_status t'")
      (auto simp: in_wallet_currency_def wallet_currency_of_def st1 Status_Known_def statuses_def)
  moreover have "\<not> takes_hold (row_of ?t corr 0) (row_of t' corr due)"
    using kind(1) cols(2) assms(2) by (simp add: takes_hold_def processed_reversal_def)
  moreover have "replace_transaction (uuidOf (tx_id t')) (row_of t' corr due) st1
      = st\<lparr>db_transactions := db_transactions st @ [row_of t' corr due]\<rparr>"
    using others cols(1) by (simp add: replace_transaction_def st1 uuidOf_def pending_transaction_def map_idI)
  ultimately show ?thesis
    using unseen_no_collision [OF assms(1,3,4,2)]
    by (simp add: update_transaction_def found rest new Let_def)
qed

text \<open>The wallet row of a movement, the entry it writes, and the check at commit.\<close>

lemma store_wallet:
  assumes "structure_ok st" "walletArgs w \<in> set (db_wallets st)"
  shows "find (\<lambda>r. wr_id r = Some (w_id w)) (db_wallets st) = Some (walletArgs w)"
  using structure_find_wallet [OF assms] by simp

definition with_wallet :: "wallet \<Rightarrow> store \<Rightarrow> store" where
  "with_wallet w st =
     st\<lparr>db_wallets := map (\<lambda>r. if wr_id r = Some (w_id w) then walletArgs w else r) (db_wallets st)\<rparr>"

lemma Wallet_move_storable:
  assumes "Wallet_move d m w = Inr (e, w')" "wallet_storable w" "w_updatedAt w \<le> mv_At m" "whole (mv_At m)"
    "sint (w_version w) < sint MaxInt64"
  shows "wallet_storable w'" "entry_storable e" "sint (w_version w') = sint (w_version w) + 1"
    "w_updatedAt w' = mv_At m" "le_createdAt e = mv_At m"
proof -
  note links = move_entry_links [OF assms(1)]
  have w: "wallet_ok w" "storable_money (w_balance w)" "0 \<le> sint (w_version w)"
    using assms(2) by (simp_all add: wallet_storable_def sle_int)
  have "sint (w_version w) + sint (1 :: int64) \<in> int64_range"
    using w(3) assms(5) by (simp add: int64_range_def sint_MaxInt64)
  from sint_add_int64 [OF this] have v: "sint (w_version w + 1) = sint (w_version w) + 1" by simp
  then show "sint (w_version w') = sint (w_version w) + 1" using links by simp
  have cur: "m_currency (w_balance w') = m_currency (w_balance w)" using links by (simp add: Wallet_Currency_def)
  show at: "w_updatedAt w' = mv_At m" "le_createdAt e = mv_At m"
    using assms(1) by (auto simp: Wallet_move_Inr_iff moved_wallet_def movement_entry_def)
  have "wallet_ok w'"
    by (rule moved_wallet_ok [OF assms(1)]) (use w(1) assms(3) in \<open>auto simp: wallet_ok_def\<close>)
  moreover have "whole (w_createdAt w')" using links assms(2) by (simp add: wallet_storable_def)
  ultimately show "wallet_storable w'"
    using links cur v w at assms(4) by (simp add: wallet_storable_def storable_money_def sle_int)
  have "entry_ok e" "le_walletVersion e = w_version w + 1" "le_balanceBefore e = w_balance w" using links by auto
  moreover from this have "m_currency (le_amount e) = m_currency (w_balance w)" by (auto simp: entry_ok_def)
  ultimately show "entry_storable e" using v w at assms(4) by (simp add: entry_storable_def storable_money_def sle_int)
qed

lemma move_wallet_succeeds:
  assumes "structure_ok st" "walletArgs w \<in> set (db_wallets st)" "Wallet_move d m w = Inr (e, w')"
    "wallet_storable w" "w_updatedAt w < mv_At m" "whole (mv_At m)" "sint (w_version w) < sint MaxInt64"
    "db_wallets st2 = db_wallets st"
  shows "move_wallet e st2 = Inr (1, with_wallet w' st2)"
proof -
  note links = move_entry_links [OF assms(3)]
  have le: "w_updatedAt w \<le> mv_At m" using assms(5) by simp
  note ok' = Wallet_move_storable [OF assms(3,4) le assms(6,7)]
  have later: "micros (w_updatedAt w) < micros (mv_At m)" using assms(5,6) by (simp add: micros_less_iff)
  have same: "r = walletArgs w" if "r \<in> set (db_wallets st)" "wr_id r = Some (w_id w)" for r
    using structure_wallet_unique [OF assms(1) that(1) assms(2)] that(2) by simp
  have found: "find (\<lambda>r. wr_id r = Some (w_id w) \<and> wr_version r = w_version w) (db_wallets st) = Some (walletArgs w)"
    by (rule find_unique [OF assms(2)]) (use same in auto)
  have new: "(walletArgs w)\<lparr>wr_balance := m_units (w_balance w'), wr_version := w_version w + 1,
      wr_updatedAt := micros (mv_At m)\<rparr> = walletArgs w'"
    using links ok'(4) by (simp add: walletArgs_def minorOf_def)
  have "entry_ok e" using links by blast
  then have "sint (m_units (w_balance w')) \<noteq> sint (m_units (w_balance w))"
    using links by (cases "le_direction e") (auto simp: entry_ok_def Direction_Known_def)
  then have moved: "m_units (w_balance w') \<noteq> m_units (w_balance w)" by auto
  have guard: "wallet_guard (walletArgs w) (walletArgs w') = None"
    using moved links later ok'(4) by (simp add: wallet_guard_def not_le)
  have checks: "wallet_checks (walletArgs w') = None"
    using ok'(1) micros_mono [of "w_createdAt w" "mv_At m"] assms(4,5) ok'(3,4) links
    by (auto simp: wallet_checks_def wallet_storable_def wallet_ok_def sle_int sless_int not_less)
  have table: "map (\<lambda>r. if wr_id r = Some (w_id w) \<and> wr_version r = w_version w
        then r\<lparr>wr_balance := m_units (w_balance w'), wr_version := w_version w + 1, wr_updatedAt := micros (mv_At m)\<rparr> else r)
      (db_wallets st) = map (\<lambda>r. if wr_id r = Some (w_id w) then walletArgs w' else r) (db_wallets st)"
  proof (rule map_cong [OF refl])
    fix r
    assume r: "r \<in> set (db_wallets st)"
    show "(if wr_id r = Some (w_id w) \<and> wr_version r = w_version w
        then r\<lparr>wr_balance := m_units (w_balance w'), wr_version := w_version w + 1, wr_updatedAt := micros (mv_At m)\<rparr> else r)
      = (if wr_id r = Some (w_id w) then walletArgs w' else r)"
      using same [OF r] new by (cases "wr_id r = Some (w_id w)") simp_all
  qed
  show ?thesis
    using links ok'(5) found guard checks new
    by (simp add: move_wallet_def uuidOf_def minorOf_def with_wallet_def Let_def table assms(8))
qed

lemma entry_ok_checks: "entry_storable e \<Longrightarrow> ledger_checks (ledgerArgs e) = None"
proof -
  assume e: "entry_storable e"
  have "sint (le_walletVersion e) = 0 \<longleftrightarrow> le_walletVersion e = 0" by (rule signed_eq_0_iff)
  with e have "1 \<le> sint (le_walletVersion e)" by (auto simp: entry_storable_def entry_ok_def sle_int)
  with e show ?thesis
    by (cases "le_direction e")
      (auto simp: ledger_checks_def entry_storable_def entry_ok_def Direction_Known_def sle_int sless_int
        ledgerArgs_def minorOf_def)
qed

lemma insert_entry_succeeds:
  assumes ok: "store_ok st" "walletArgs w \<in> set (db_wallets st)" "wallet_storable w"
    and mv: "Wallet_move d m w = Inr (e, w')" "entry_storable e"
    and st2: "db_ledger st2 = db_ledger st" "wallet_currency_of (Some (w_id w)) st2 = Some (cur_code (Wallet_Currency w))"
    and tx: "\<exists>t \<in> set (db_transactions st2). tr_id t = Some (le_transactionID e) \<and> tr_walletID t = Some (w_id w)"
      "\<forall>t \<in> set (db_transactions st2). tr_id t = Some (le_transactionID e) \<longrightarrow> tr_kind t \<noteq> ''OPENING''"
    and fresh: "\<forall>l \<in> set (db_ledger st). lr_id l \<noteq> Some (le_id e) \<and> lr_transactionID l \<noteq> Some (le_transactionID e)"
  shows "insert_ledger_entry (ledgerArgs e) st2 = Inr (st2\<lparr>db_ledger := db_ledger st @ [ledgerArgs e]\<rparr>)"
proof -
  note links = move_entry_links [OF mv(1)]
  have last: "last_entry i st2 = last_entry i st" for i by (simp add: last_entry_def st2(1))
  have "wallet_matches_ledger st (walletArgs w) = None" by (rule store_okD(2) [OF ok(1,2)])
  then have prev: "case last_entry (Some (w_id w)) st of
      None \<Rightarrow> m_units (w_balance w) = 0 \<and> w_version w = 1
    | Some l \<Rightarrow> m_units (w_balance w) = lr_balanceAfter l \<and> w_version w = lr_walletVersion l"
    by (auto simp: wallet_matches_ledger_def split: option.splits if_splits)
  have "entry_ok e" using links by blast
  then have cur: "cur_code (m_currency (le_amount e)) = cur_code (Wallet_Currency w)"
    using links by (auto simp: entry_ok_def Wallet_Currency_def)
  have "\<not> list_ex (\<lambda>t. tr_id t = Some (le_transactionID e) \<and> tr_kind t = ''OPENING'') (db_transactions st2)"
    using tx(2) by (auto simp: list_ex_iff)
  then have "ledger_chain (ledgerArgs e) st2 = None"
    using prev links cur st2(2) by (auto simp: ledger_chain_def last Let_def split: option.splits)
  moreover have "list_ex (\<lambda>t. tr_id t = Some (le_transactionID e) \<and> tr_walletID t = Some (w_id w)) (db_transactions st2)"
    using tx(1) by (auto simp: list_ex_iff)
  moreover have "\<not> list_ex (\<lambda>r. lr_id r = Some (le_id e)) (db_ledger st)"
    "\<not> list_ex (\<lambda>r. lr_transactionID r = Some (le_transactionID e) \<and> lr_walletID r = Some (w_id w)) (db_ledger st)"
    using fresh by (auto simp: list_ex_iff)
  ultimately show ?thesis
    using entry_ok_checks [OF mv(2)] links by (simp add: insert_ledger_entry_def st2(1))
qed

text \<open>Emitting the events of one wallet under new identifiers.\<close>

definition new_events :: "ids \<Rightarrow> nat \<Rightarrow> store \<Rightarrow> bool" where
  "new_events ids n st \<longleftrightarrow>
     (\<forall>k < n. id_Event ids k \<noteq> 0
        \<and> (\<forall>r \<in> set (db_outbox st). en_EventID (or_envelope r) \<noteq> id_Event ids k)
        \<and> (\<forall>j < n. id_Event ids j = id_Event ids k \<longrightarrow> j = k))"

lemma envelopes_from_eq:
  assumes "t_Correlation trace \<noteq> []" "\<forall>k < n + length evs. id_Event ids k \<noteq> 0"
  shows "envelopes_from ids n evs trace now
    = Inr (map (\<lambda>(k, ev). envelope_of ev (id_Event ids k) trace now) (enumerate n evs))"
  using assms(2) by (induction evs arbitrary: n) (auto simp: NewEnvelope_eq assms(1))

lemma append_succeeds:
  assumes "\<forall>env \<in> set envs. en_AggregateID env = i" "distinct (map en_EventID envs)"
    "\<forall>env \<in> set envs. \<forall>r \<in> set (db_outbox st). en_EventID (or_envelope r) \<noteq> en_EventID env"
    "\<exists>w \<in> set (db_wallets st). wr_id w = Some i"
  shows "\<exists>ob sq. Outbox_Append envs st = Inr (st\<lparr>db_outbox := ob, db_sequences := sq\<rparr>)
    \<and> map or_envelope ob = map or_envelope (db_outbox st) @ envs"
  using assms
proof (induction envs arbitrary: st)
  case Nil
  then show ?case by (intro exI [of _ "db_outbox st"] exI [of _ "db_sequences st"]) simp
next
  case (Cons env envs)
  have "\<not> list_ex (\<lambda>r. en_EventID (or_envelope r) = en_EventID env) (db_outbox st)"
    "list_ex (\<lambda>w. wr_id w = uuidOf (en_AggregateID env)) (db_wallets st)"
    using Cons.prems by (auto simp: list_ex_iff uuidOf_def)
  then obtain row sq where ins: "insert_outbox env st = Inr (st\<lparr>db_outbox := db_outbox st @ [row], db_sequences := sq\<rparr>)"
    and row: "or_envelope row = env" by (simp add: insert_outbox_def Let_def)
  have "\<exists>ob sq'. Outbox_Append envs (st\<lparr>db_outbox := db_outbox st @ [row], db_sequences := sq\<rparr>)
      = Inr (st\<lparr>db_outbox := ob, db_sequences := sq'\<rparr>) \<and> map or_envelope ob = map or_envelope (db_outbox st) @ env # envs"
    using Cons.IH [of "st\<lparr>db_outbox := db_outbox st @ [row], db_sequences := sq\<rparr>"] Cons.prems row by auto
  with ins show ?case by (auto simp: exec_def)
qed

lemma emit_succeeds:
  assumes "new_events ids (length evs) st" "\<forall>ev \<in> set evs. snd (payloadFor ev) = i" "t_Correlation trace \<noteq> []"
    "\<exists>w \<in> set (db_wallets st). wr_id w = Some i"
  shows "\<exists>ob sq. emit ids evs trace now st = Inr (st\<lparr>db_outbox := ob, db_sequences := sq\<rparr>)
    \<and> map or_envelope ob = map or_envelope (db_outbox st)
        @ map (\<lambda>(k, ev). envelope_of ev (id_Event ids k) trace now) (enumerate 0 evs)"
proof -
  let ?envs = "map (\<lambda>(k, ev). envelope_of ev (id_Event ids k) trace now) (enumerate 0 evs)"
  have envs: "envelopesFor ids evs trace now = Inr ?envs"
    unfolding envelopesFor_def by (rule envelopes_from_eq) (use assms(1,3) in \<open>auto simp: new_events_def\<close>)
  have "map en_EventID ?envs = map (id_Event ids) [0..<length evs]"
    by (rule nth_equalityI) (auto simp: nth_enumerate_eq)
  moreover have "inj_on (id_Event ids) (set [0..<length evs])"
    using assms(1) by (auto simp: new_events_def inj_on_def)
  ultimately have dist: "distinct (map en_EventID ?envs)" by (simp only: distinct_map) simp
  have "\<exists>ob sq. Outbox_Append ?envs st = Inr (st\<lparr>db_outbox := ob, db_sequences := sq\<rparr>)
      \<and> map or_envelope ob = map or_envelope (db_outbox st) @ ?envs"
  proof (rule append_succeeds [OF _ dist _ assms(4)])
    show "\<forall>env \<in> set ?envs. en_AggregateID env = i"
      using assms(2) by (auto simp: in_set_enumerate_eq)
    show "\<forall>env \<in> set ?envs. \<forall>r \<in> set (db_outbox st). en_EventID (or_envelope r) \<noteq> en_EventID env"
      using assms(1) by (auto simp: in_set_enumerate_eq new_events_def)
  qed
  with envs show ?thesis
    by (cases "?envs = []") (auto simp: emit_def intro!: exI [of _ "db_outbox st"] exI [of _ "db_sequences st"])
qed

section \<open>What the processor decides\<close>

text \<open>Continuing the transaction a submission just recorded is the submission of the domain.\<close>

lemma continue_is_submit:
  assumes "usable_policy (p_policy p)" "submittable c w now" "wallet_ok w" "\<not> version_exhausted w"
    "c_ReferenceExternalTransactionID c = []"
  obtains t' w' out where
    "Continue p (Some (pending_transaction c (w_id w) now)) c (Some w) None now = (Some t', Some w', Inr out)"
    "Submit p c (Some w) None now = (Some w', Inr out)"
    "carried_out (p_policy p) (verdict_of (p_policy p) (pending_transaction c (w_id w) now) c w None now)
       (pending_transaction c (w_id w) now) c w now t' w' out"
proof -
  let ?t = "pending_transaction c (w_id w) now"
  have c: "command_ok c" "w_playerID w = c_PlayerID c" "now \<noteq> 0" using assms(2) by (auto simp: submittable_def)
  have id: "w_id w \<noteq> 0" using assms(3) by (simp add: wallet_ok_def)
  have ok: "assertContinuable p (Some ?t) c (Some w) = Inr ()"
    by (rule assertContinuable_ok)
      (use assms(1) c in \<open>simp_all add: pending_transaction_def open_status_def Tx_PayloadHash_def external_of_command_def\<close>)
  have "ready ?t c w None"
    by (rule same_business_ready [of c c])
      (use c assms(3) in \<open>simp_all add: same_business_def recorded_from_def view_ok_def resolution_agrees_def\<close>,
       simp_all add: pending_transaction_def open_status_def tx_identity_def)
  moreover have "1 \<le> MaxAttempts (p_policy p)" "0 < TTL (p_policy p)"
    using assms(1) by (auto simp: usable_policy_def)
  ultimately obtain t' w' out where ap: "p_apply p ?t c w None now = (t', w', Inr out)"
    and co: "carried_out (p_policy p) (verdict_of (p_policy p) ?t c w None now) ?t c w now t' w' out"
    using p_apply_carries [of ?t c w None now p] c(3) assms(4) by blast
  have "Continue p (Some ?t) c (Some w) None now = (Some t', Some w', Inr out)"
    by (simp add: Continue_def ok ap)
  moreover have "Submit p c (Some w) None now = (Some w', Inr out)"
    using assms(1) c id ap iffD2 [OF NewExternalTransaction_Inr_iff, of c "w_id w" now ?t]
    by (simp add: Submit_def usable_eq WalletBelongsToPlayer_def)
  ultimately show ?thesis using that co by blast
qed

lemma plain_verdict:
  assumes "c_ReferenceExternalTransactionID c = []"
  shows "verdict_of pol t c w None now \<noteq> Parked"
    "verdict_of pol t c w None now = Completed dir \<Longrightarrow> m_currency (c_Money c) = Wallet_Currency w"
  using assms
  by (auto simp: verdict_of_def evaluateReference_def namesReference_def movement_verdict_def Let_def
      split: if_splits option.splits)

lemma described_wallet:
  assumes "event_describes t le ev" "\<forall>e. le = Some e \<longrightarrow> le_walletID e = tx_walletID t"
  shows "snd (payloadFor ev) = tx_walletID t"
  using assms by (cases ev) auto

section \<open>Committing\<close>

lemma with_wallet_same:
  assumes "structure_ok st" "walletArgs w \<in> set (db_wallets st)"
  shows "with_wallet w st = st"
proof -
  have "map (\<lambda>r. if wr_id r = Some (w_id w) then walletArgs w else r) (db_wallets st) = db_wallets st"
    by (rule map_idI) (use structure_wallet_unique [OF assms(1) _ assms(2)] in auto)
  then show ?thesis by (simp add: with_wallet_def)
qed

lemma moved_commits:
  assumes "store_ok st" "structure_ok st'" "db_wallets st' = db_wallets (with_wallet w st)"
    "db_ledger st' = db_ledger st @ [ledgerArgs e]" "le_walletID e = w_id w"
    "le_balanceAfter e = w_balance w" "le_walletVersion e = w_version w" "walletArgs w \<in> set (db_wallets st')"
  shows "commit_violation st st' = None"
proof -
  have "wallet_matches_ledger st' r = None" if r: "r \<in> set (db_wallets st')" for r
  proof (cases "wr_id r = Some (w_id w)")
    case True
    with structure_wallet_unique [OF assms(2) r assms(8)] have r_eq: "r = walletArgs w" by simp
    from structure_okD(2) [OF assms(2) r] obtain es v where es: "ledger_of (Some (w_id w)) st' = map ledgerArgs es"
      "\<forall>e \<in> set es. entry_storable e" "chained \<lparr>m_units = 0, m_currency = \<lparr>cur_code = wr_currency r\<rparr>\<rparr> v es"
      unfolding ledger_chained_def True by blast
    have of': "map ledgerArgs es = ledger_of (Some (w_id w)) st @ [ledgerArgs e]"
      using es(1) assms(4,5) by (simp add: ledger_of_def)
    then have "es \<noteq> []" by auto
    then have "last_entry (Some (w_id w)) st' = Some (last (map ledgerArgs es))"
      using last_entry_chained [OF es(1,3,2)] by (simp add: last_map)
    then show ?thesis using assms(6,7) by (simp add: wallet_matches_ledger_def r_eq of')
  next
    case False
    with r assms(3) have old: "r \<in> set (db_wallets st)" by (auto simp: with_wallet_def)
    have "ledger_of (wr_id r) st' = ledger_of (wr_id r) st"
      using False assms(4,5) by (simp add: ledger_of_def)
    from wallet_matches_ledger_cong [OF this] store_okD(2) [OF assms(1) old] show ?thesis by (rule trans)
  qed
  then show ?thesis by (auto simp: commit_violation_def first_some_None_iff touched_def)
qed

text \<open>
  Everything a submission may rely on: a store in order, the wallet, a valid new operation of
  its player that names no reference, a clock past the wallet's last movement, and room for
  one more version.
\<close>

definition admissible :: "wagering \<Rightarrow> ids \<Rightarrow> instant \<Rightarrow> command \<Rightarrow> wallet \<Rightarrow> store \<Rightarrow> bool" where
  "admissible svc ids now c w st \<longleftrightarrow>
     store_ok st \<and> walletArgs w \<in> set (db_wallets st) \<and> wallet_storable w
     \<and> usable_policy (p_policy (wg_processor svc))
     \<and> command_ok c \<and> storable_money (c_Money c) \<and> plain_kind (c_Kind c) \<and> c_ReferenceExternalTransactionID c = []
     \<and> c_WalletID c = w_id w \<and> c_PlayerID c = w_playerID w \<and> unseen c st \<and> new_events ids 2 st
     \<and> clock_time now \<and> w_updatedAt w < now \<and> sint (w_version w) < sint MaxInt64"

lemma admissibleD:
  assumes "admissible svc ids now c w st"
  shows "store_ok st" "walletArgs w \<in> set (db_wallets st)" "wallet_storable w" "wallet_ok w" "w_id w \<noteq> 0"
    "command_ok c" "plain_kind (c_Kind c)" "unseen c st" "0 < now" "w_updatedAt w < now"
    "sint (w_version w) < sint MaxInt64" "submittable c w now" "\<not> version_exhausted w" "structure_ok st"
    "LockByID (c_WalletID c) st = Inr (Some w)" "clock_time now" "whole now"
proof -
  show *: "store_ok st" "walletArgs w \<in> set (db_wallets st)" "wallet_storable w"
    "command_ok c" "plain_kind (c_Kind c)" "unseen c st" "clock_time now" "w_updatedAt w < now"
    "sint (w_version w) < sint MaxInt64" using assms by (auto simp: admissible_def)
  then show "0 < now" "whole now" by (simp_all add: clock_timeD)
  then show "structure_ok st" "wallet_ok w" "w_id w \<noteq> 0" "submittable c w now"
    using assms by (auto simp: store_ok_def wallet_storable_def wallet_ok_def admissible_def submittable_def)
  show "\<not> version_exhausted w"
  proof
    assume "version_exhausted w"
    then have "w_version w = - 1" by (simp add: version_exhausted_def add_eq_0_iff2)
    with *(3) show False by (simp add: wallet_storable_def sle_int)
  qed
  have "row_wallet (walletArgs w) = Inr w" using *(3) by (simp add: row_wallet_Inr_iff)
  with store_wallet [OF \<open>structure_ok st\<close> *(2)] assms show "LockByID (c_WalletID c) st = Inr (Some w)"
    by (simp add: LockByID_def Wallets_ByID_def select_wallet_by_id_def wallets_one_def uuidOf_def admissible_def)
qed

lemma carried_plain:
  assumes "admissible svc ids now c w st"
    "carried_out pol (verdict_of pol (pending_transaction c (w_id w) now) c w None now)
       (pending_transaction c (w_id w) now) c w now t' w' out"
  shows "tx_live t'" "tx_ok t'" "tx_identity t' = tx_identity (pending_transaction c (w_id w) now)"
    "tx_status t' = Processed \<or> tx_status t' = Rejected" "tx_updatedAt t' = now" "o_Transaction out = Some t'"
    "Tx_ResolvedReferenceID t' = None"
    "tx_status t' = Processed \<Longrightarrow> m_currency (c_Money c) = Wallet_Currency w"
    "w' = w \<and> o_LedgerEntry out = None
     \<or> (\<exists>d e. Wallet_move d (movement_of_command c now) w = Inr (e, w') \<and> o_LedgerEntry out = Some e)"
    "length (o_Events out) \<le> 2" "\<forall>ev \<in> set (o_Events out). snd (payloadFor ev) = w_id w"
proof -
  let ?t = "pending_transaction c (w_id w) now" and ?v = "verdict_of pol (pending_transaction c (w_id w) now) c w None now"
  note adm = admissibleD [OF assms(1)]
  have ref: "c_ReferenceExternalTransactionID c = []" using assms(1) by (simp add: admissible_def)
  have live: "tx_live ?t" by (rule pending_live [OF adm(6,5,9)])
  have "tx_updatedAt ?t \<le> now" by (simp add: pending_transaction_def)
  from carried_out_ok [OF assms(2) live this] show "tx_live t'" and ok: "tx_ok t'" by auto
  from assms(2) show ident: "tx_identity t' = tx_identity ?t" and "tx_updatedAt t' = now"
    and "o_Transaction out = Some t'" by (auto simp: carried_out_def)
  have eff: "verdict_effect ?v ?t c w now t' w' out" using assms(2) by (simp add: carried_out_def)
  note status = verdict_effect_status [OF eff]
  show "tx_status t' = Processed \<or> tx_status t' = Rejected"
    using status plain_verdict(1) [OF ref] by (cases ?v) auto
  show "tx_status t' = Processed \<Longrightarrow> m_currency (c_Money c) = Wallet_Currency w"
    using status plain_verdict(2) [OF ref] by (cases ?v) auto
  show entry: "w' = w \<and> o_LedgerEntry out = None
     \<or> (\<exists>d e. Wallet_move d (movement_of_command c now) w = Inr (e, w') \<and> o_LedgerEntry out = Some e)"
    using eff by (auto simp: verdict_effect_def split: verdict.splits option.splits)
  have "length (map EventType (o_Events out)) \<le> 2"
    using eff by (auto simp: verdict_effect_def split: verdict.splits option.splits)
  then show "length (o_Events out) \<le> 2" by simp
  from ident obtain x where x: "tx_external t' = Some x" "x\<lparr>x_resolvedReferenceID := 0\<rparr> = external_of_command c"
    by (auto simp: tx_identity_def pending_transaction_def external_of_command_def)
  then have "x_referenceExternalID x = []" using ref by (cases x) (simp add: external_of_command_def)
  with ok x(1) show "Tx_ResolvedReferenceID t' = None"
    by (auto simp: Tx_ResolvedReferenceID_def tx_ok_def reference_ok_def ID_IsZero_def)
  have wal: "tx_walletID t' = w_id w" by (rule recorded_columns(3) [OF ident])
  have "\<forall>e. o_LedgerEntry out = Some e \<longrightarrow> le_walletID e = tx_walletID t'"
    using entry move_entry_links wal by fastforce
  then show "\<forall>ev \<in> set (o_Events out). snd (payloadFor ev) = w_id w"
    using assms(2) described_wallet wal by (auto simp: carried_out_def list_all_iff)
qed

lemma carried_wallet:
  assumes "admissible svc ids now c w st"
    "carried_out pol (verdict_of pol (pending_transaction c (w_id w) now) c w None now)
       (pending_transaction c (w_id w) now) c w now t' w' out"
  shows "w_id w' = w_id w \<and> wallet_storable w'"
proof (cases "o_LedgerEntry out")
  case None
  with carried_plain(9) [OF assms] admissibleD(3) [OF assms(1)] show ?thesis by auto
next
  case (Some e)
  note adm = admissibleD [OF assms(1)]
  from Some carried_plain(9) [OF assms] obtain d where mv: "Wallet_move d (movement_of_command c now) w = Inr (e, w')"
    by auto
  have "w_updatedAt w \<le> mv_At (movement_of_command c now)" "whole (mv_At (movement_of_command c now))"
    using adm(10,17) by (simp_all add: movement_of_command_def)
  from Wallet_move_storable(1) [OF mv adm(3) this adm(11)] move_entry_links [OF mv] show ?thesis by simp
qed

definition settled_store :: "wallet \<Rightarrow> ledger_entry option \<Rightarrow> transaction_row \<Rightarrow> store \<Rightarrow> store" where
  "settled_store w' e row st =
     (with_wallet w' st)
       \<lparr>db_transactions := db_transactions st @ [row],
        db_ledger := db_ledger st @ (case e of None \<Rightarrow> [] | Some e \<Rightarrow> [ledgerArgs e])\<rparr>"

lemma settle_succeeds:
  assumes "admissible svc ids now c w st"
    "carried_out pol (verdict_of pol (pending_transaction c (w_id w) now) c w None now)
       (pending_transaction c (w_id w) now) c w now t' w' out"
    "attempts_fit (snapshotOf t')"
  shows "writer_settle out 0
      (st\<lparr>db_transactions := db_transactions st @ [row_of (pending_transaction c (w_id w) now) corr 0]\<rparr>)
    = Inr (settled_store w' (o_LedgerEntry out) (row_of t' corr 0) st)"
proof -
  note adm = admissibleD [OF assms(1)]
  note co = carried_plain [OF assms(1,2)]
  note cols = recorded_columns [OF co(3)]
  let ?st1 = "st\<lparr>db_transactions := db_transactions st @ [row_of (pending_transaction c (w_id w) now) corr 0]\<rparr>"
  let ?st2 = "st\<lparr>db_transactions := db_transactions st @ [row_of t' corr 0]\<rparr>"
  have cur: "wallet_currency_of (Some (w_id w)) st = Some (cur_code (Wallet_Currency w))"
    by (simp add: wallet_currency_of_def store_wallet [OF adm(14,2)])
  have upd: "update_transaction (tx_id t') (settled_row (snapshotOf t') 0) ?st1 = Inr (1, ?st2)"
    by (rule settle_row_succeeds [OF adm(8,7) co(2,3,7)]) (use co(4,5,8) cur in auto)
  have sid: "s_ID (snapshotOf t') = tx_id t'" by (simp add: snapshotOf_eq snapshot_of_def)
  consider (still) "w' = w" "o_LedgerEntry out = None"
    | (moved) d e where "Wallet_move d (movement_of_command c now) w = Inr (e, w')" "o_LedgerEntry out = Some e"
    using co(9) by (elim disjE exE conjE)
  then show ?thesis
  proof cases
    case still
    with upd co(6) with_wallet_same [OF adm(14,2)] show ?thesis
      by (simp add: writer_settle_def encoded_def Let_def assms(3) sid settled_store_def)
  next
    case moved
    note links = move_entry_links [OF moved(1)]
    have mt: "mv_At (movement_of_command c now) = now" by (simp add: movement_of_command_def)
    have le: "w_updatedAt w \<le> mv_At (movement_of_command c now)" using adm(10) mt by simp
    have whole: "whole (mv_At (movement_of_command c now))" using adm(17) mt by simp
    note st' = Wallet_move_storable [OF moved(1) adm(3) le whole adm(11)]
    have tid: "le_transactionID e = c_TransactionID c" "le_id e = c_LedgerEntryID c"
      using links by (simp_all add: movement_of_command_def)
    have mv: "move_wallet e ?st2 = Inr (1, with_wallet w' ?st2)"
      by (rule move_wallet_succeeds [OF adm(14,2) moved(1) adm(3)]) (use adm(10,11) mt whole in simp_all)
    have cur': "wallet_currency_of (Some (w_id w)) (with_wallet w' ?st2) = Some (cur_code (Wallet_Currency w))"
    proof -
      have "find (\<lambda>r. wr_id r = Some (w_id w)) (db_wallets (with_wallet w' ?st2)) = Some (walletArgs w')"
        by (rule find_unique) (use adm(2) links in \<open>auto simp: with_wallet_def image_iff split: if_splits\<close>)
      then show ?thesis using links by (simp add: wallet_currency_of_def)
    qed
    have "insert_ledger_entry (ledgerArgs e) (with_wallet w' ?st2)
        = Inr ((with_wallet w' ?st2)\<lparr>db_ledger := db_ledger st @ [ledgerArgs e]\<rparr>)"
    proof (rule insert_entry_succeeds [OF adm(1,2,3) moved(1) st'(2) _ cur'])
      show "\<forall>l \<in> set (db_ledger st). lr_id l \<noteq> Some (le_id e) \<and> lr_transactionID l \<noteq> Some (le_transactionID e)"
        using adm(8) tid by (simp add: unseen_def)
      have row: "tr_id (row_of t' corr 0) = Some (le_transactionID e)" "tr_walletID (row_of t' corr 0) = Some (w_id w)"
        using cols tid by simp_all
      then show "\<exists>t \<in> set (db_transactions (with_wallet w' ?st2)). tr_id t = Some (le_transactionID e) \<and> tr_walletID t = Some (w_id w)"
        by (simp add: with_wallet_def)
      have "tr_kind (row_of t' corr 0) \<noteq> ''OPENING''" by (rule plain_row(2)) (use cols(2) adm(7) in simp)
      then show "\<forall>t \<in> set (db_transactions (with_wallet w' ?st2)). tr_id t = Some (le_transactionID e) \<longrightarrow> tr_kind t \<noteq> ''OPENING''"
        using adm(8) tid by (auto simp: with_wallet_def unseen_def)
    qed (simp add: with_wallet_def)
    moreover have "(with_wallet w' ?st2)\<lparr>db_ledger := db_ledger st @ [ledgerArgs e]\<rparr>
        = settled_store w' (Some e) (row_of t' corr 0) st"
      by (simp add: settled_store_def with_wallet_def)
    ultimately have "insert_ledger_entry (ledgerArgs e) (with_wallet w' ?st2) = Inr (settled_store w' (Some e) (row_of t' corr 0) st)"
      by simp
    with upd mv co(6) moved(2) show ?thesis by (simp add: writer_settle_def encoded_def Let_def assms(3) sid)
  qed
qed

lemma wake_succeeds:
  obtains n ts where "wake_waiters t i now st = Inr (n, st\<lparr>db_transactions := ts\<rparr>)"
    "set (filter (\<lambda>r. tr_status r \<noteq> ''PENDING_REFERENCE'') (db_transactions st)) \<subseteq> set ts"
proof (cases "tx_status t = Processed \<and> Tx_ExternalTransactionID t \<noteq> None")
  case False
  then have "wake_waiters t i now st = Inr (0, st\<lparr>db_transactions := db_transactions st\<rparr>)"
    by (auto simp: wake_waiters_def split: option.splits)
  then show ?thesis by (rule that) simp
next
  case True
  then obtain x where x: "Tx_ExternalTransactionID t = Some x" by auto
  let ?op = "\<lparr>so_WalletID = i, so_Provider = textFrom (Tx_Provider t), so_External = x\<rparr>"
  define ts where "ts = map (\<lambda>r. if waits_on ?op r then r\<lparr>tr_nextAttemptAt := Some (micros now)\<rparr> else r) (db_transactions st)"
  have "wake_waiters t i now st
      = Inr (length (filter (waits_on ?op) (db_transactions st)), st\<lparr>db_transactions := ts\<rparr>)"
    using True x by (simp add: wake_waiters_def MakeDue_def ts_def)
  moreover have "set (filter (\<lambda>r. tr_status r \<noteq> ''PENDING_REFERENCE'') (db_transactions st)) \<subseteq> set ts"
    by (force simp: ts_def waits_on_def)
  ultimately show ?thesis by (rule that)
qed

lemma new_events_fewer: "new_events ids n st \<Longrightarrow> m \<le> n \<Longrightarrow> db_outbox st' = db_outbox st \<Longrightarrow> new_events ids m st'"
  by (simp add: new_events_def)

lemma locked_succeeds:
  assumes "admissible svc ids now c w st" "opaque_id (sb_Correlation cmd)"
  obtains t' w' out st' where
    "Submit (wg_processor svc) c (Some w) None now = (Some w', Inr out)" "o_Transaction out = Some t'"
    "submit_locked svc ids now cmd c st = Inr (resultOf t' False, st')" "commit_violation st st' = None"
    "db_wallets st' = db_wallets (with_wallet w' st)" "stored_as st' t'" "structure_ok st'"
    "walletArgs w' \<in> set (db_wallets st')" "wallet_storable w'" "w_id w' = w_id w"
    "db_ledger st' = db_ledger st @ (case o_LedgerEntry out of None \<Rightarrow> [] | Some e \<Rightarrow> [ledgerArgs e])"
    "map or_envelope (db_outbox st') = map or_envelope (db_outbox st)
       @ map (\<lambda>(k, ev). envelope_of ev (id_Event ids k)
           \<lparr>t_Correlation = sb_Correlation cmd, t_Causation = causationOf cmd\<rparr> now) (enumerate 0 (o_Events out))"
    "tx_status t' = Processed \<or> tx_status t' = Rejected" "tx_id t' = c_TransactionID c"
proof -
  let ?t = "pending_transaction c (w_id w) now" and ?p = "wg_processor svc" and ?corr = "sb_Correlation cmd"
  let ?trace = "\<lparr>t_Correlation = ?corr, t_Causation = causationOf cmd\<rparr>"
  let ?st1 = "st\<lparr>db_transactions := db_transactions st @ [row_of ?t ?corr 0]\<rparr>"
  note adm = admissibleD [OF assms(1)]
  have ref: "c_ReferenceExternalTransactionID c = []" and player: "w_playerID w = c_PlayerID c"
    and pol: "usable_policy (p_policy ?p)" and evs: "new_events ids 2 st"
    using assms(1) by (simp_all add: admissible_def)
  from continue_is_submit [OF pol adm(12,4,13) ref] obtain t' w' out where
    cont: "Continue ?p (Some ?t) c (Some w) None now = (Some t', Some w', Inr out)"
    and sub: "Submit ?p c (Some w) None now = (Some w', Inr out)"
    and co: "carried_out (p_policy ?p) (verdict_of (p_policy ?p) ?t c w None now) ?t c w now t' w' out" .
  note plain = carried_plain [OF assms(1) co]
  have waited: "tx_referenceAttempts t' = 0" "tx_referenceDeadline t' = 0"
  proof -
    from cont have "advances (p_policy ?p) now ?t t'"
      by (rule Continue_advances) (use plain(6) in simp)
    then show "tx_referenceAttempts t' = 0" "tx_referenceDeadline t' = 0"
      using plain(4) by (auto simp: advances_def same_wait_def pending_transaction_def)
  qed
  then have fit: "attempts_fit (snapshotOf t')"
    by (simp add: attempts_fit_def snapshotOf_eq snapshot_of_def)
  define st2 where "st2 = settled_store w' (o_LedgerEntry out) (row_of t' ?corr 0) st"
  have settle: "writer_settle out 0 ?st1 = Inr st2"
    unfolding st2_def by (rule settle_succeeds [OF assms(1) co fit])
  obtain n ts where wake: "wake_waiters t' (w_id w) now st2 = Inr (n, st2\<lparr>db_transactions := ts\<rparr>)"
    and ts: "set (filter (\<lambda>r. tr_status r \<noteq> ''PENDING_REFERENCE'') (db_transactions st2)) \<subseteq> set ts"
    by (rule wake_succeeds)
  have w': "w_id w' = w_id w" "wallet_storable w'"
    using carried_wallet [OF assms(1) co] by simp_all
  have row': "walletArgs w' \<in> set (db_wallets (with_wallet w' st))"
    using adm(2) w'(1) by (force simp: with_wallet_def)
  let ?st3 = "st2\<lparr>db_transactions := ts\<rparr>"
  have tables: "db_wallets ?st3 = db_wallets (with_wallet w' st)" "db_outbox ?st3 = db_outbox st"
    "db_ledger ?st3 = db_ledger st @ (case o_LedgerEntry out of None \<Rightarrow> [] | Some e \<Rightarrow> [ledgerArgs e])"
    by (simp_all add: st2_def settled_store_def with_wallet_def)
  have "\<exists>ob sq. emit ids (o_Events out) ?trace now ?st3 = Inr (?st3\<lparr>db_outbox := ob, db_sequences := sq\<rparr>)
      \<and> map or_envelope ob = map or_envelope (db_outbox ?st3)
          @ map (\<lambda>(k, ev). envelope_of ev (id_Event ids k) ?trace now) (enumerate 0 (o_Events out))"
    by (rule emit_succeeds [OF new_events_fewer [OF evs plain(10) tables(2)] plain(11)])
      (use opaque_idD [OF assms(2)] row' tables(1) w'(1) in \<open>auto intro!: bexI [of _ "walletArgs w'"]\<close>)
  then obtain ob sq where emit: "emit ids (o_Events out) ?trace now ?st3 = Inr (?st3\<lparr>db_outbox := ob, db_sequences := sq\<rparr>)"
    and ob: "map or_envelope ob = map or_envelope (db_outbox st)
          @ map (\<lambda>(k, ev). envelope_of ev (id_Event ids k) ?trace now) (enumerate 0 (o_Events out))"
    using tables(2) by auto
  define st' where "st' = ?st3\<lparr>db_outbox := ob, db_sequences := sq\<rparr>"
  have due: "next_attempt svc t' now = 0" using plain(4) by (auto simp: next_attempt_def)
  have "commitOutcome svc ids out t' (w_id w) now ?trace ?st1 = Inr ((n, 0), st')"
    using settle wake emit by (simp add: commitOutcome_def due Let_def st'_def)
  moreover have "NewExternalTransaction c (w_id w) now = Inr ?t"
    using adm(5,6,9) by (simp add: NewExternalTransaction_Inr_iff)
  moreover have "Transactions_Record ?t ?corr st = Inr ?st1"
    by (rule record_succeeds [OF adm(8,6,7,2) player adm(5)]) (use adm(9) assms(2) in simp_all)
  ultimately have locked: "submit_locked svc ids now cmd c st = Inr (resultOf t' False, st')"
    using adm(15) player cont plain(6)
    by (simp add: submit_locked_def WalletBelongsToPlayer_def reference_of_def ref classified_def)
  have "storable_money (c_Money c)" using assms(1) by (simp add: admissible_def)
  from submit_locked_keeps [OF locked adm(16) this] adm(14) have str: "structure_ok st'" by (simp add: keeps_def)
  have row: "row_of t' ?corr 0 \<in> set (db_transactions st')"
    using ts plain(4) by (auto simp: st'_def st2_def settled_store_def)
  have "tx_storable t'"
    using plain(2,5) recorded_columns(5,6) [OF plain(3)] waited adm(17) assms(1)
    by (simp add: tx_storable_def admissible_def)
  then have "stored_as st' t'" using row row_transaction_row_of by (auto simp: stored_as_def)
  moreover have tables': "db_wallets st' = db_wallets (with_wallet w' st)"
    "db_ledger st' = db_ledger st @ (case o_LedgerEntry out of None \<Rightarrow> [] | Some e \<Rightarrow> [ledgerArgs e])"
    using tables by (simp_all add: st'_def)
  moreover have "commit_violation st st' = None"
  proof (cases "o_LedgerEntry out")
    case None
    with plain(9) have "w' = w" by auto
    with None tables' with_wallet_same [OF adm(14,2)] show ?thesis by (intro commit_untouched) simp_all
  next
    case (Some e)
    with plain(9) obtain d where mv: "Wallet_move d (movement_of_command c now) w = Inr (e, w')" by auto
    show ?thesis
      by (rule moved_commits [OF adm(1) str tables'(1)])
        (use Some tables' row' move_entry_links [OF mv] in auto)
  qed
  ultimately show ?thesis
    using sub plain(4,6) locked str w' row' ob recorded_columns(1) [OF plain(3)]
    by (intro that [of w' out t' st']) (simp_all add: st'_def)
qed

section \<open>The whole submission\<close>

lemma claim_inbox_admissible:
  assumes "admissible svc ids now c w st" "claim_inbox cmd now_inbox st_inbox st = Inr st1"
  shows "admissible svc ids now c w st1"
proof -
  note tables = claim_inbox_tables [OF assms(2)]
  have ok: "store_ok st" by (rule admissibleD(1) [OF assms(1)])
  have "structure_ok st1"
    using claim_inbox_keeps [OF assms(2)] store_okD(1) [OF ok] by (simp add: keeps_def)
  from commit_ok [OF this ok commit_untouched [OF tables(1,3)]] have "store_ok st1" .
  with assms(1) tables show ?thesis by (simp add: admissible_def unseen_def new_events_def)
qed

lemma unseen_not_replayed:
  assumes "unseen c st"
  shows "replay st st c hash = Inr None"
proof (rule replay_absent)
  show "select_by_key (c_Provider c) (c_IdempotencyKey c) st = None"
    using assms by (auto simp: select_by_key_def find_None_iff unseen_def)
  show "select_by_external (c_Provider c) (c_ExternalTransactionID c) st = None"
    using assms by (auto simp: select_by_external_def find_None_iff unseen_def)
qed

lemma submit_succeeds:
  assumes "admit uuid_Parse ids cmd = Inr (c, hash)" "admissible svc ids now c w st"
    "claim_inbox cmd now_inbox st st = Inr st1" "opaque_id (sb_Correlation cmd)"
  obtains t' w' out st' where
    "Submit (wg_processor svc) c (Some w) None now = (Some w', Inr out)" "o_Transaction out = Some t'"
    "Wagering_Submit uuid_Parse svc ids now_inbox now cmd (alone st) = (Inr (resultOf t' False), st')"
    "tx_status t' = Processed \<or> tx_status t' = Rejected" "tx_id t' = c_TransactionID c"
    "\<exists>s. Transactions_ByID (c_TransactionID c) st' = Inr (Some s) \<and> st_Transaction s = t'"
    "Wallets_ByID (w_id w) st' = Inr (Some w')"
    "db_ledger st' = db_ledger st @ (case o_LedgerEntry out of None \<Rightarrow> [] | Some e \<Rightarrow> [ledgerArgs e])"
    "map or_envelope (db_outbox st') = map or_envelope (db_outbox st)
       @ map (\<lambda>(k, ev). envelope_of ev (id_Event ids k)
           \<lparr>t_Correlation = sb_Correlation cmd, t_Causation = causationOf cmd\<rparr> now) (enumerate 0 (o_Events out))"
proof -
  note adm = admit_Inr [OF assms(1)]
  note tables = claim_inbox_tables [OF assms(3)]
  from claim_inbox_admissible [OF assms(2,3)] assms(4) obtain t' w' out st' where
    sub: "Submit (wg_processor svc) c (Some w) None now = (Some w', Inr out)" "o_Transaction out = Some t'" and
    locked: "submit_locked svc ids now cmd c st1 = Inr (resultOf t' False, st')" and
    commit: "commit_violation st1 st' = None" and
    wallets: "walletArgs w' \<in> set (db_wallets st')" "wallet_storable w'" "w_id w' = w_id w" and
    str: "structure_ok st'" and stored: "stored_as st' t'" and
    logs: "db_ledger st' = db_ledger st1 @ (case o_LedgerEntry out of None \<Rightarrow> [] | Some e \<Rightarrow> [ledgerArgs e])"
      "map or_envelope (db_outbox st') = map or_envelope (db_outbox st1)
       @ map (\<lambda>(k, ev). envelope_of ev (id_Event ids k)
           \<lparr>t_Correlation = sb_Correlation cmd, t_Causation = causationOf cmd\<rparr> now) (enumerate 0 (o_Events out))" and
    t': "tx_status t' = Processed \<or> tx_status t' = Rejected" "tx_id t' = c_TransactionID c"
    by (rule locked_succeeds)
  have "commit_violation st st' = None"
    using commit tables(1,3) by (simp add: commit_violation_def touched_def)
  with locked assms(1,3) unseen_not_replayed [OF admissibleD(8) [OF assms(2)], of hash]
  have run: "Wagering_Submit uuid_Parse svc ids now_inbox now cmd (alone st) = (Inr (resultOf t' False), st')"
    by (simp add: Wagering_Submit_def submitOnce_def submit_body_def WithinMovement_def alone_def)
  have "row_wallet (walletArgs w') = Inr w'" using wallets(2) by (simp add: row_wallet_Inr_iff)
  with store_wallet [OF str wallets(1)] have wal: "Wallets_ByID (w_id w) st' = Inr (Some w')"
    using wallets(3) by (simp add: Wallets_ByID_def select_wallet_by_id_def wallets_one_def uuidOf_def)
  from stored obtain r where r: "r \<in> set (db_transactions st')" "row_transaction r = Inr t'"
    by (auto simp: stored_as_def)
  have "tr_id r = Some (c_TransactionID c)"
    using row_ok_transaction(3) [OF structure_okD(5) [OF str r(1)] r(2)] t'(2) by simp
  from select_by_id_eq [OF structure_okD(7) [OF str] r(1) this]
  have "Transactions_ByID (c_TransactionID c) st' = Inr (Some \<lparr>st_Transaction = t', st_Correlation = tr_correlation r\<rparr>)"
    using r(2) by (simp add: Transactions_ByID_def transactions_one_def row_stored_def)
  then show ?thesis using that [OF sub run t' _ wal] logs tables by auto
qed

end
