(* ===== verification/Samples.thy ===== *)
theory Samples
  imports Progress
begin

text \<open>
  Concrete values at which the guarantees of the service are applied: a store with one opened
  wallet, a provider's bet as the HTTP layer would hand it over, and a second delivery of it.
\<close>

text \<open>The times are whole microseconds.\<close>

lemma sample_times [simp]: "kept 10000 = 10000" "kept 20000 = 20000" "kept 30000 = 30000"
  by (simp_all add: whole_literal)

lemma sample_clock [simp]: "clock_time 10000" "clock_time 20000" "clock_time 30000"
  by (simp_all add: clock_time_def systemClock_Now_def)

lemma sample_correlation_opaque [simp]: "opaque_ok ''req-1''" "opaque_ok ''req-2''" "opaque_ok ''msg-1''"
  by (rule opaque_ok_ascii; simp)+

section \<open>A sample store\<close>

text \<open>A wallet opened with ten units.\<close>

definition sample_store :: store where
  "sample_store = empty_store
     \<lparr>db_wallets := [walletArgs (opened_wallet sample_opening 10000)],
      db_transactions := [row_of (opening_transaction sample_opening 10000) ''req-0'' 0],
      db_ledger := [ledgerArgs (opening_entry sample_opening 10000)]\<rparr>"

lemma brl_storable [simp]: "storable_money (brl n)"
  by (simp add: storable_money_def brl_def supportedCurrencies_def)

lemma sample_opening_facts:
  "tx_live (opening_transaction sample_opening 10000)" "tx_storable (opening_transaction sample_opening 10000)"
  "wallet_storable (opened_wallet sample_opening 10000)" "entry_storable (opening_entry sample_opening 10000)"
  "waits_ahead (opening_transaction sample_opening 10000)"
  "chained \<lparr>m_units = 0, m_currency = \<lparr>cur_code = ''BRL''\<rparr>\<rparr> 0 [opening_entry sample_opening 10000]"
proof -
  have fields: "ow_PlayerID sample_opening = ''player-1''" "ow_InitialBalance sample_opening = brl 1000"
    "ow_TransactionID sample_opening = 5" "ow_WalletID sample_opening = 13"
    by (simp_all add: sample_opening_def)
  have new: "newOpeningTransaction sample_opening 10000 = Inr (opening_transaction sample_opening 10000)"
    by (simp add: newOpeningTransaction_Inr_iff fields)
  show live: "tx_live (opening_transaction sample_opening 10000)"
    by (rule begun_live [OF begun_opening [OF new]]) (simp_all add: NewPlayerID_def fields)
  then show "tx_storable (opening_transaction sample_opening 10000)"
    "waits_ahead (opening_transaction sample_opening 10000)"
    by (simp add: tx_storable_def tx_live_def, simp add: opening_transaction_def fields)
      (simp add: waits_ahead_def opening_transaction_def)
  show "wallet_storable (opened_wallet sample_opening 10000)"
    using opened_wallet_ok [OF sample_opening_ok, of 10000]
    by (simp add: wallet_storable_def) (simp add: opened_wallet_def fields sle_int)
  have "sint (m_units (ow_InitialBalance sample_opening)) \<noteq> 0" by (simp add: fields)
  from opening_credit_eq [OF sample_opening_ok this, of 10000]
  have "Wallet_move Credit (opening_credit sample_opening 10000) (empty_wallet sample_opening 10000)
      = Inr (opening_entry sample_opening 10000, opened_wallet sample_opening 10000)"
    by (simp add: opening_entry_def)
  from move_entry_links [OF this]
  have e: "entry_ok (opening_entry sample_opening 10000)" "le_walletVersion (opening_entry sample_opening 10000) = 1"
    "le_balanceBefore (opening_entry sample_opening 10000) = \<lparr>m_units = 0, m_currency = \<lparr>cur_code = ''BRL''\<rparr>\<rparr>"
    "le_amount (opening_entry sample_opening 10000) = brl 1000" "le_createdAt (opening_entry sample_opening 10000) = 10000"
    by (simp_all add: empty_wallet_def opening_credit_def fields)
      (simp add: opening_entry_def movement_entry_def opening_credit_def)
  then show "entry_storable (opening_entry sample_opening 10000)" by (simp add: entry_storable_def sle_int)
  show "chained \<lparr>m_units = 0, m_currency = \<lparr>cur_code = ''BRL''\<rparr>\<rparr> 0 [opening_entry sample_opening 10000]"
    using e by simp
qed

lemma sample_entry_fields [simp]:
  "le_walletID (opening_entry sample_opening 10000) = 13" "le_walletVersion (opening_entry sample_opening 10000) = 1"
  "le_balanceAfter (opening_entry sample_opening 10000) = brl 1000"
  by (simp_all add: opening_entry_def movement_entry_def opening_credit_def empty_wallet_def
      sample_opening_def balance_after_def wallet_units_def brl_def Wallet_Currency_def int64_of_def
      moved_wallet_def)

lemma sample_store_fields [simp]:
  "db_wallets sample_store = [walletArgs (opened_wallet sample_opening 10000)]"
  "db_transactions sample_store = [row_of (opening_transaction sample_opening 10000) ''req-0'' 0]"
  "db_ledger sample_store = [ledgerArgs (opening_entry sample_opening 10000)]"
  by (simp_all add: sample_store_def)

lemma sample_wallet_row [simp]:
  "w_id (opened_wallet sample_opening 10000) = 13" "w_playerID (opened_wallet sample_opening 10000) = ''player-1''"
  "w_balance (opened_wallet sample_opening 10000) = brl 1000" "w_version (opened_wallet sample_opening 10000) = 1"
  by (simp_all add: opened_wallet_def sample_opening_def)

lemma sample_store_ok: "store_ok sample_store"
proof -
  let ?w = "walletArgs (opened_wallet sample_opening 10000)"
  have led: "ledger_of (wr_id ?w) sample_store = map ledgerArgs [opening_entry sample_opening 10000]"
    by (simp add: ledger_of_def)
  have "ledger_chained ?w (ledger_of (wr_id ?w) sample_store)"
    unfolding ledger_chained_def led
    by (rule exI [of _ "[opening_entry sample_opening 10000]"], rule exI [of _ 0])
      (use sample_opening_facts(4,6) in \<open>simp add: Wallet_Currency_def\<close>)
  moreover have "wallet_row_ok ?w" using sample_opening_facts(3) by (auto simp: wallet_row_ok_def)
  moreover have "row_ok (row_of (opening_transaction sample_opening 10000) ''req-0'' 0)"
    by (rule row_of_ok [OF sample_opening_facts(1,5,2)])
  moreover have "names_wallet (row_of (opening_transaction sample_opening 10000) ''req-0'' 0) sample_store"
    by (simp add: names_wallet_def opening_transaction_def sample_opening_def opened_wallet_def)
  moreover have "collision_free (db_transactions sample_store)" by (simp add: collision_free_def)
  moreover have "outbox_numbered sample_store"
    by (simp add: outbox_numbered_def sample_store_def empty_store_def)
  ultimately have "structure_ok sample_store" by (simp add: structure_ok_def)
  moreover have "wallet_matches_ledger sample_store ?w = None"
    using last_entry_chained [OF led sample_opening_facts(6)] sample_opening_facts(4)
    by (simp add: wallet_matches_ledger_def)
  ultimately show ?thesis by (simp add: store_ok_def)
qed

definition sample_admin :: principal where
  "sample_admin = \<lparr>pr_kind = ServicePrincipal, pr_provider = [], pr_subject = ''ops''\<rparr>"

lemma sample_wallet_read: "Wallets_ByID 13 sample_store = Inr (Some (opened_wallet sample_opening 10000))"
  using iffD2 [OF row_wallet_Inr_iff, OF conjI, OF sample_opening_facts(3) refl]
  by (simp add: Wallets_ByID_def select_wallet_by_id_def wallets_one_def uuidOf_def)

section \<open>A sample submission\<close>

definition sample_parse :: "string \<Rightarrow> uuid option" where
  "sample_parse s = (if s = ''w13'' then Some 13 else None)"

definition sample_submission :: "string \<Rightarrow> string \<Rightarrow> submit_operation" where
  "sample_submission amount correlation =
     \<lparr>sb_Principal = \<lparr>pr_kind = ProviderPrincipal, pr_provider = ''acme'', pr_subject = ''acme-client''\<rparr>,
      sb_Correlation = correlation, sb_Inbox = None,
      sb_Fields = \<lparr>of_Provider = ''acme'', of_ExternalTransactionID = ''ext-1'', of_IdempotencyKey = ''key-1'',
        of_PlayerID = ''player-1'', of_WalletID = ''w13'', of_RoundID = ''round-1'', of_GameID = ''game-1'',
        of_Kind = ''BET'', of_Amount = amount, of_Currency = ''BRL'',
        of_ReferenceExternalTransactionID = []\<rparr>\<rparr>"

definition sample_ids :: "transaction_id \<Rightarrow> ids" where
  "sample_ids i = \<lparr>id_Wallet = 13, id_Transaction = i, id_LedgerEntry = 12, id_Event = (\<lambda>n. if n = 0 then 51 else 52)\<rparr>"

definition sample_service :: wagering where
  "sample_service =
     \<lparr>wg_processor = \<lparr>p_policy = sample_policy\<rparr>,
      wg_backoff = \<lparr>bo_Initial = 1000, bo_Factor = Num 2, bo_Max = 60000\<rparr>, wg_arith = exact_arith\<rparr>"

lemma sample_amounts: "Money_Parse ''5.00'' ''BRL'' = Inr (brl 500)" "Money_Parse ''6.00'' ''BRL'' = Inr (brl 600)"
proof -
  have "show_units 500 = ''5.00''" "show_units 600 = ''6.00''"
    by (simp_all add: show_units_def show_nat.simps two_digits_def char_of_def bit_Suc_0_iff)
  with parseAmount_show_units [of 500] parseAmount_show_units [of 600]
  have "parseAmount ''5.00'' = Inr 500" "parseAmount ''6.00'' = Inr 600" by simp_all
  moreover have "ParseCurrency ''BRL'' = Inr \<lparr>cur_code = ''BRL''\<rparr>"
    by (simp add: ParseCurrency_Inr_iff supportedCurrencies_def)
  ultimately show "Money_Parse ''5.00'' ''BRL'' = Inr (brl 500)" "Money_Parse ''6.00'' ''BRL'' = Inr (brl 600)"
    by (simp_all add: Money_Parse_def brl_def)
qed

lemma sample_admitted:
  assumes "Money_Parse amount ''BRL'' = Inr (brl n)" "0 < sint n" "i \<noteq> 0" "corr \<noteq> []"
  shows "admit sample_parse (sample_ids i) (sample_submission amount corr)
    = Inr ((sample_command Bet n [])\<lparr>c_TransactionID := i\<rparr>, payloadHash ((sample_command Bet n [])\<lparr>c_TransactionID := i\<rparr>))"
proof -
  have opaque: "parseOpaque s f = Inr s" if "opaque_ok s" for s f using that by simp
  have "command_ok ((sample_command Bet n [])\<lparr>c_TransactionID := i\<rparr>)"
    using assms(2,3) by (simp add: command_ok_def sample_command_def brl_def kind_predicates)
  then have "PayloadHash ((sample_command Bet n [])\<lparr>c_TransactionID := i\<rparr>)
      = Inr (payloadHash ((sample_command Bet n [])\<lparr>c_TransactionID := i\<rparr>))"
    by (simp add: PayloadHash_def Command_Validate_Inr_iff)
  moreover have "ParseKind ''BET'' = Inr Bet" by (simp add: ParseKind_def kindOf_def kinds_def Kind_Known_def)
  moreover have "ParseWalletID sample_parse ''w13'' = Inr 13"
    by (simp add: ParseWalletID_def parseUUID_def sample_parse_def)
  ultimately show ?thesis
    using assms(1,4)
    by (simp add: admit_def sample_submission_def sample_ids_def classified_def Wagering_command_def
        NewProvider_def opaque MaySubmitAs_def opaque_constructors sample_command_def kind_predicates)
qed

text \<open>The bet is new to the sample store, and settled there.\<close>

lemma sample_admissible:
  "admissible sample_service (sample_ids 11) 20000 (sample_command Bet 500 []) (opened_wallet sample_opening 10000) sample_store"
proof -
  let ?o = "opening_transaction sample_opening 10000"
  have ok: "tx_ok ?o" using sample_opening_facts(1) by (simp add: tx_live_def)
  have ext: "tx_external ?o = None" "tx_id ?o = 5" by (simp_all add: opening_transaction_def sample_opening_def)
  have "unseen (sample_command Bet 500 []) sample_store"
    using ext by (simp add: unseen_def row_of_keys [OF ok] tx_accessors)
      (simp add: opening_entry_def movement_entry_def opening_credit_def sample_opening_def sample_command_def)
  moreover have "new_events (sample_ids 11) 2 sample_store"
    by (auto simp: new_events_def sample_ids_def sample_store_def empty_store_def less_2_cases_iff)
  ultimately show ?thesis
    using sample_store_ok sample_opening_facts(3) sample_bet_ok sample_processor
    by (simp add: admissible_def plain_kind_def sample_service_def usable_policy_def sample_policy_def sint_MaxInt64)
      (simp add: opened_wallet_def)
qed

lemma sample_submitted:
  obtains t' w' st' where
    "Wagering_Submit sample_parse sample_service (sample_ids 11) 20000 20000 (sample_submission ''5.00'' ''req-1'') (alone sample_store)
       = (Inr (resultOf t' False), st')"
    "IsTerminal (tx_status t')" "tx_id t' = 11" "store_ok st'"
    "\<exists>s. Transactions_ByID 11 st' = Inr (Some s) \<and> st_Transaction s = t'"
    "Wallets_ByID 13 st' = Inr (Some w')" "service_step sample_parse sample_store st'"
proof -
  have admit: "admit sample_parse (sample_ids 11) (sample_submission ''5.00'' ''req-1'')
      = Inr (sample_command Bet 500 [], payloadHash (sample_command Bet 500 []))"
    using sample_admitted [OF sample_amounts(1), of 11 "''req-1''"] by (simp add: sample_command_def)
  have "claim_inbox (sample_submission ''5.00'' ''req-1'') 20000 sample_store sample_store = Inr sample_store"
    by (simp add: claim_inbox_def sample_submission_def)
  from admit sample_admissible this obtain t' w' st' where
    run: "Wagering_Submit sample_parse sample_service (sample_ids 11) 20000 20000 (sample_submission ''5.00'' ''req-1'') (alone sample_store)
       = (Inr (resultOf t' False), st')" and
    t': "tx_status t' = Processed \<or> tx_status t' = Rejected" "tx_id t' = 11"
      "\<exists>s. Transactions_ByID 11 st' = Inr (Some s) \<and> st_Transaction s = t'" "Wallets_ByID 13 st' = Inr (Some w')"
    by (rule submit_succeeds) (auto simp: opaque_id_def sample_submission_def)
  have step: "service_step sample_parse sample_store st'"
    using service_step.submitted [OF run] by (simp add: alone_def)
  with service_step_ok [OF this sample_store_ok] run t' show ?thesis
    by (intro that [of t' st' w']) (auto simp: IsTerminal_def)
qed

lemma sample_recorded:
  obtains st where "store_ok st" "records st (sample_command Bet 500 []) 11"
proof -
  have admit: "admit sample_parse (sample_ids 11) (sample_submission ''5.00'' ''req-1'')
      = Inr (sample_command Bet 500 [], payloadHash (sample_command Bet 500 []))"
    using sample_admitted [OF sample_amounts(1), of 11 "''req-1''"] by (simp add: sample_command_def)
  obtain t' st where run: "Wagering_Submit sample_parse sample_service (sample_ids 11) 20000 20000
      (sample_submission ''5.00'' ''req-1'') (alone sample_store) = (Inr (resultOf t' False), st)"
    "tx_id t' = 11" "store_ok st" by (rule sample_submitted)
  with submitted_records [OF _ _ run(1)] sample_store_ok admit that show ?thesis
    by (auto simp: alone_def resultOf_def)
qed

lemma sample_stored:
  obtains t' st where "\<exists>s. Transactions_ByID 11 st = Inr (Some s) \<and> st_Transaction s = t'"
    "Transactions_ByID 99 st = Inr None" "Tx_Provider t' = Some ''acme''"
proof -
  let ?st = "sample_store\<lparr>db_transactions := [row_of (pending_transaction (sample_command Bet 500 []) 13 20000) ''req-1'' 0]\<rparr>"
  let ?t = "pending_transaction (sample_command Bet 500 []) 13 20000"
  have "tx_ok ?t" by (rule pending_transaction_ok [OF sample_bet_ok]) simp_all
  then have "tx_storable ?t" by (simp add: tx_storable_def pending_transaction_def)
  from row_transaction_row_of [OF this] have "\<exists>s. Transactions_ByID 11 ?st = Inr (Some s) \<and> st_Transaction s = ?t"
    by (simp add: Transactions_ByID_def transactions_one_def row_stored_def uuidOf_def) (simp add: pending_transaction_def)
  moreover have "Transactions_ByID 99 ?st = Inr None"
    by (simp add: Transactions_ByID_def transactions_one_def uuidOf_def pending_transaction_def)
  moreover have "Tx_Provider ?t = Some ''acme''"
    by (simp add: pending_transaction_def external_of_command_def tx_accessors)
  ultimately show ?thesis by (rule that)
qed

end
