(* ===== verification/Paging.thy ===== *)
theory Paging
  imports Books WalletCases
begin

text \<open>
  Reading a ledger page by page: what one page holds, and the walk of a client that follows
  the cursors until there is none.
\<close>

section \<open>One page\<close>

definition version_before :: "nat \<Rightarrow> ledger_entry list \<Rightarrow> uint64" where
  "version_before k es = (if k = 0 then 0 else le_walletVersion (es ! (k - 1)))"

lemma entry_version_pos: "entry_storable e \<Longrightarrow> 0 < unat (le_walletVersion e)"
  by (auto simp: entry_storable_def entry_ok_def unat_gt_0)

lemma after_version:
  assumes "in_order es" "k \<le> length es"
  shows "filter (\<lambda>e. unat (version_before k es) < unat (le_walletVersion e)) es = drop k es"
proof -
  have less: "unat (le_walletVersion (es ! i)) < unat (le_walletVersion (es ! j))" if "i < j" "j < length es" for i j
    using assms(1) that by (auto simp: sorted_wrt_iff_nth_less)
  have low: "\<not> unat (version_before k es) < unat (le_walletVersion e)" if "e \<in> set (take k es)" for e
  proof -
    from that assms(2) obtain i where i: "i < k" "i < length es" "e = es ! i" by (auto simp: in_set_conv_nth)
    then consider "i = k - 1" | "i < k - 1" "k - 1 < length es" using assms(2) by linarith
    then show ?thesis
      using i less [of i "k - 1"] by cases (simp_all add: version_before_def)
  qed
  have high: "unat (version_before k es) < unat (le_walletVersion e)" if "e \<in> set (drop k es)" for e
  proof (cases "k = 0")
    case True
    have "e \<in> set es" using that by (auto dest: in_set_dropD)
    with True assms(1) entry_version_pos show ?thesis by (simp add: version_before_def)
  next
    case False
    from that obtain j where "j < length es - k" "e = es ! (k + j)"
      by (auto simp: in_set_conv_nth)
    with False less [of "k - 1" "k + j"] show ?thesis by (simp add: version_before_def)
  qed
  have "filter (\<lambda>e. unat (version_before k es) < unat (le_walletVersion e)) (take k es @ drop k es) = drop k es"
    unfolding filter_append using low high by (simp add: filter_empty_conv)
  then show ?thesis by simp
qed

lemma in_order_drop: "in_order es \<Longrightarrow> in_order (drop k es)"
  by (auto dest: in_set_dropD intro: sorted_wrt_drop)

lemma Ledger_Page_in_order:
  assumes "in_order es" "k \<le> length es" "wallet_entries i st = map ledgerArgs es"
  shows "Ledger_Page i (version_before k es) limit st = Inr (take (nat limit) (drop k es))"
proof -
  have bound: "0 \<le> sint (version_before k es)"
  proof (cases "k = 0")
    case False
    then have "es ! (k - 1) \<in> set es" using assms(2) by simp
    with assms(1) False show ?thesis by (simp add: version_before_def entry_storable_def sle_int)
  qed (simp add: version_before_def)
  then have unat: "sint (version_before k es) = int (unat (version_before k es))"
    using unat_of_nonneg_sint [of "version_before k es"] by simp
  then have cap: "version_before k es \<le> maxVersion"
    using int64_upper [of "version_before k es"] by (simp add: word_le_def maxVersion_def)
  have "filter (\<lambda>r. version_before k es <s lr_walletVersion r) (map ledgerArgs es) = map ledgerArgs (drop k es)"
  proof -
    have "(version_before k es <s le_walletVersion e) = (unat (version_before k es) < unat (le_walletVersion e))"
      if "e \<in> set es" for e
      using that assms(1) unat by (simp add: word_sless_alt entry_storable_version del: of_nat_unat)
    then have "filter (\<lambda>e. version_before k es <s le_walletVersion e) es = drop k es"
      using after_version [OF assms(1,2)] by (metis (no_types, lifting) filter_cong)
    then show ?thesis by (simp add: filter_map comp_def)
  qed
  then show ?thesis
    using cap assms(3) by_version_in_order [OF in_order_drop [OF assms(1), of k]] in_order_drop [OF assms(1), of k]
    by (simp add: Ledger_Page_def take_map) (rule ledger_read_rows, auto dest: in_set_takeD)
qed

section \<open>The whole walk\<close>

text \<open>
  A client that asks for pages of one size and follows the cursor of each until a page has
  none, within a number of requests.
\<close>

fun walk_ledger :: "nat \<Rightarrow> principal \<Rightarrow> wallet_id \<Rightarrow> int \<Rightarrow> string \<Rightarrow> store \<Rightarrow> ledger_entry list eres option" where
  "walk_ledger 0 p i limit cursor st = None"
| "walk_ledger (Suc n) p i limit cursor st =
     (case Wallets_Ledger p \<lparr>lq_WalletID = i, lq_Cursor = cursor, lq_Limit = limit\<rparr> st of
        Inl err \<Rightarrow> Some (Inl err)
      | Inr page \<Rightarrow>
          if lp_NextCursor page = [] then Some (Inr (lp_Entries page))
          else map_option (\<lambda>rest. bindE rest (\<lambda>es. Inr (lp_Entries page @ es)))
                 (walk_ledger n p i limit (lp_NextCursor page) st))"

definition cursor_before :: "wallet_id \<Rightarrow> nat \<Rightarrow> ledger_entry list \<Rightarrow> string" where
  "cursor_before i k es = (if k = 0 then [] else encodeCursor i (version_before k es))"

lemma page_limit_bounds: "1 \<le> page_limit limit" "page_limit limit \<le> maxLedgerPage"
  by (auto simp: page_limit_def defaultLedgerPage_def maxLedgerPage_def)

lemma Wallets_Ledger_page:
  assumes "in_order es" "k \<le> length es" "wallet_entries i st = map ledgerArgs es" "pr_kind p = ServicePrincipal"
    "Wallets_ByID i st = Inr (Some w)" and page_def: "page = take (nat (page_limit limit)) (drop k es)"
  shows "Wallets_Ledger p \<lparr>lq_WalletID = i, lq_Cursor = cursor_before i k es, lq_Limit = limit\<rparr> st
    = Inr \<lparr>lp_Entries = page,
           lp_NextCursor = (if length page = nat (page_limit limit) then cursor_before i (k + length page) es else [])\<rparr>"
proof -
  have "decodeCursor (cursor_before i k es) i = Inr (version_before k es)"
    by (cases "k = 0") (simp add: cursor_before_def version_before_def decodeCursor_def,
      simp add: cursor_before_def decodeCursor_encodeCursor)
  moreover have "Ledger_Page i (version_before k es) (page_limit limit) st = Inr page"
    unfolding page_def by (rule Ledger_Page_in_order [OF assms(1-3)])
  moreover have "int (length page) = page_limit limit \<longleftrightarrow> length page = nat (page_limit limit)"
    using page_limit_bounds(1) [of limit] by auto
  moreover have "encodeCursor i (le_walletVersion (last page)) = cursor_before i (k + length page) es"
    if "length page = nat (page_limit limit)"
  proof -
    have ne: "0 < length page" using that page_limit_bounds(1) [of limit] by simp
    then have "last page = page ! (length page - 1)" by (simp add: last_conv_nth)
    also have "\<dots> = es ! (k + (length page - 1))"
      unfolding page_def by (subst nth_take) (use ne assms(2) in \<open>auto simp: page_def\<close>)
    finally show ?thesis using ne by (simp add: cursor_before_def version_before_def)
  qed
  ultimately show ?thesis
    using assms(4,5)
    by (simp add: Wallets_Ledger_def MayAdministerWallets_def WithinSnapshot_def requireWallet_def classify_error_def Let_def)
qed

lemma walk_ledger_from:
  assumes "in_order es" "wallet_entries i st = map ledgerArgs es" "pr_kind p = ServicePrincipal"
    "Wallets_ByID i st = Inr (Some w)" "k \<le> length es"
  shows "walk_ledger (Suc ((length es - k) div nat (page_limit limit))) p i limit (cursor_before i k es) st
    = Some (Inr (drop k es))"
  using assms(5)
proof (induction "length es - k" arbitrary: k rule: less_induct)
  case less
  define m where "m = nat (page_limit limit)"
  have m: "0 < m" using page_limit_bounds(1) [of limit] by (simp add: m_def)
  define page where "page = take m (drop k es)"
  have run: "Wallets_Ledger p \<lparr>lq_WalletID = i, lq_Cursor = cursor_before i k es, lq_Limit = limit\<rparr> st
    = Inr \<lparr>lp_Entries = page, lp_NextCursor = (if length page = m then cursor_before i (k + length page) es else [])\<rparr>"
    using Wallets_Ledger_page [OF assms(1) less.prems assms(2-4) page_def [unfolded m_def]] by (simp add: m_def)
  show ?case
  proof (cases "length page = m")
    case True
    then have le: "k + m \<le> length es" "length es - (k + m) < length es - k"
      using m less.prems by (auto simp: page_def)
    have "cursor_before i (k + m) es \<noteq> []" using m by (simp add: cursor_before_def decodeCursor_encodeCursor(2))
    moreover have "Suc ((length es - (k + m)) div m) = (length es - k) div m"
      using le(1) m by (simp add: le_div_geq)
    moreover have "page @ drop (k + m) es = drop k es"
      using append_take_drop_id [of m "drop k es"] by (simp add: page_def add.commute)
    ultimately show ?thesis
      using less.hyps [OF le(2,1)] run True by (simp add: m_def [symmetric])
  next
    case False
    then have "page = drop k es" by (simp add: page_def)
    with False run show ?thesis by simp
  qed
qed

end
