(* ===== verification/Guarantees.thy ===== *)
theory Guarantees
  imports Samples Paging
begin

text \<open>
  What the service guarantees its callers: a new operation is settled as the domain decides,
  a repeated one is answered from the record, the books balance, and history is permanent.
\<close>

section \<open>Settled rows\<close>

lemma settled_row_iff:
  assumes "row_ok r" "row_transaction r = Inr t"
  shows "row_settled r \<longleftrightarrow> IsTerminal (tx_status t)"
proof -
  have "Status_Known (tx_status t)"
    using row_ok_transaction(2) [OF assms] by (simp add: tx_storable_def tx_ok_def)
  then show ?thesis
    using row_ok_transaction(4) [OF assms]
    by (cases "tx_status t") (auto simp: row_settled_def IsTerminal_def Status_Known_def statuses_def)
qed

lemma stored_row_later:
  assumes "store_ok st" "extends st st'" "store_ok st'" "r \<in> set (db_transactions st)" "row_settled r"
  shows "find (\<lambda>x. tr_id x = tr_id r) (db_transactions st') = Some r"
proof -
  have "r \<in> set (db_transactions st')" using assms(2,4,5) unfolding extends_def by blast
  moreover have "row_ok r" by (rule structure_okD(5) [OF store_okD(1) [OF assms(1)] assms(4)])
  then obtain i where "tr_id r = Some i" by (rule row_okE) (use \<open>row_ok r\<close> row_ok_transaction(3) in blast)
  ultimately show ?thesis
    using select_by_id_eq [OF structure_okD(7) [OF store_okD(1) [OF assms(3)]]] by (simp add: uuidOf_def)
qed

lemma settled_stays_stored:
  assumes "store_ok st" "extends st st'" "store_ok st'" "stored_as st t" "IsTerminal (tx_status t)" "stored_as st' t'"
    "tx_id t' = tx_id t"
  shows "t' = t"
proof -
  from assms(4) obtain r where r: "r \<in> set (db_transactions st)" "row_transaction r = Inr t"
    by (auto simp: stored_as_def)
  note ok = structure_okD(5) [OF store_okD(1) [OF assms(1)] r(1)]
  have "row_settled r" using settled_row_iff [OF ok r(2)] assms(5) by simp
  with assms(2) r(1) have "r \<in> set (db_transactions st')" unfolding extends_def by blast
  moreover have "tr_id r = Some (tx_id t')"
    unfolding assms(7) by (rule row_ok_transaction(3) [OF ok r(2)])
  ultimately have "row_transaction r = Inr t'"
    by (rule stored_unique [OF store_okD(1) [OF assms(3)] assms(6)])
  then show ?thesis unfolding r(2) by simp
qed

section \<open>Submitting\<close>

text \<open>
  C8: an admissible new operation is settled, exactly as the domain decides. Submit a valid
  bet, win or loss that names no reference, on an existing wallet of its player, in a store in
  order, with nothing else running. Five things are supposed that the service does not check
  for itself and a guard of the schema would refuse otherwise: the store has met neither the
  operation nor any identifier minted for it and for its two events; the clock reads past the
  wallet's last movement; the version of the wallet has room for one more; the correlation is
  one the column accepts; and the message, when there is one, can be recorded. The policy is
  one the processor can use. Then, whatever the amount and the balance, the submission is not
  refused. The answer is the transaction the domain's own submission yields, processed or
  rejected; the wallet the store then holds is the wallet that submission leaves; the ledger
  gains its entry, if it has one, and the outbox exactly its events, in order, under the
  submission's correlation.
\<close>

theorem new_operation_settled:
  assumes "admit uuid_Parse ids cmd = Inr (c, hash)" "admissible svc ids now c w st"
    "claim_inbox cmd now_inbox st st = Inr st1" "opaque_ok (sb_Correlation cmd)"
  shows "\<exists>w' out t' st'. Submit (wg_processor svc) c (Some w) None now = (Some w', Inr out)
    \<and> o_Transaction out = Some t'
    \<and> Wagering_Submit uuid_Parse svc ids now_inbox now cmd (alone st) = (Inr (resultOf t' False), st')
    \<and> (tx_status t' = Processed \<or> tx_status t' = Rejected)
    \<and> (\<exists>s. Transactions_ByID (c_TransactionID c) st' = Inr (Some s) \<and> st_Transaction s = t')
    \<and> Wallets_ByID (w_id w) st' = Inr (Some w')
    \<and> db_ledger st' = db_ledger st @ (case o_LedgerEntry out of None \<Rightarrow> [] | Some e \<Rightarrow> [ledgerArgs e])
    \<and> map or_envelope (db_outbox st') = map or_envelope (db_outbox st)
        @ map (\<lambda>(k, ev). envelope_of ev (id_Event ids k)
            \<lparr>t_Correlation = sb_Correlation cmd, t_Causation = causationOf cmd\<rparr> now) (enumerate 0 (o_Events out))"
  using submit_succeeds [OF assms(1-3)] assms(4) unfolding opaque_id_def by metis

theorem new_operation_settled_witness:
  "\<exists>a st' w'. Wagering_Submit sample_parse sample_service (sample_ids 11) 20000 20000 (sample_submission ''5.00'' ''req-1'')
     (alone sample_store) = (Inr a, st') \<and> IsTerminal (res_Status a) \<and> Wallets_ByID 13 st' = Inr (Some w')"
proof -
  have "admit sample_parse (sample_ids 11) (sample_submission ''5.00'' ''req-1'')
      = Inr (sample_command Bet 500 [], payloadHash (sample_command Bet 500 []))"
    using sample_admitted [OF sample_amounts(1), of 11 "''req-1''"] by (simp add: sample_command_def)
  moreover have "claim_inbox (sample_submission ''5.00'' ''req-1'') 20000 sample_store sample_store = Inr sample_store"
    by (simp add: claim_inbox_def sample_submission_def)
  moreover have corr: "opaque_ok (sb_Correlation (sample_submission ''5.00'' ''req-1''))"
    by (simp add: sample_submission_def)
  ultimately obtain t' st' w' where
    "Wagering_Submit sample_parse sample_service (sample_ids 11) 20000 20000 (sample_submission ''5.00'' ''req-1'')
       (alone sample_store) = (Inr (resultOf t' False), st')"
    "tx_status t' = Processed \<or> tx_status t' = Rejected"
    "Wallets_ByID (w_id (opened_wallet sample_opening 10000)) st' = Inr (Some w')"
    using new_operation_settled [OF _ sample_admissible] corr by blast
  then show ?thesis by (fastforce simp: resultOf_def IsTerminal_def)
qed

text \<open>
  C2: a submission is carried out once. Suppose a submission was answered, and the same
  fields are submitted again by the same principal, with any correlation the column accepts and
  whatever identifiers the second call mints, in any interleaving with other work: each read the second
  call makes before the lock may or may not see the first, and other calls may commit between
  them. The second call is always answered, and answered as a replay of the first call's
  transaction; all it can have written is that its own message was handled.
\<close>

theorem resubmission_is_replayed:
  assumes first: "store_ok (vw_move v0)" "clock_time now0"
      "Wagering_Submit uuid_Parse svc0 ids0 now_inbox0 now0 cmd0 v0 = (Inr a0, st0)" "\<not> res_IdempotentReplay a0"
    and again: "sb_Principal cmd = sb_Principal cmd0" "sb_Fields cmd = sb_Fields cmd0"
      "opaque_ok (sb_Correlation cmd)" "id_Transaction ids \<noteq> 0" "id_LedgerEntry ids \<noteq> 0" "now \<noteq> 0"
    and order: "store_ok (vw_key v)" "(service_step uuid_Parse)\<^sup>*\<^sup>* (vw_key v) (vw_external v)"
      "(service_step uuid_Parse)\<^sup>*\<^sup>* (vw_external v) (vw_move v)"
      "(service_step uuid_Parse)\<^sup>*\<^sup>* st0 (vw_move v)"
      "(service_step uuid_Parse)\<^sup>*\<^sup>* (vw_move v) (vw_resolve v)"
    and inbox: "claim_inbox cmd now_inbox (vw_inbox v) (vw_move v) = Inr st1"
  shows "\<exists>a st'. Wagering_Submit uuid_Parse svc ids now_inbox now cmd v = (Inr a, st')
    \<and> res_IdempotentReplay a \<and> res_TransactionID a = res_TransactionID a0 \<and> (st' = vw_move v \<or> st' = st1)"
  by (rule resubmitted [OF first _ again(2-6) order inbox]) (simp add: again(1))

theorem resubmission_is_replayed_witness:
  "\<exists>a0 st0 a. Wagering_Submit sample_parse sample_service (sample_ids 11) 20000 20000 (sample_submission ''5.00'' ''req-1'')
       (alone sample_store) = (Inr a0, st0)
     \<and> Wagering_Submit sample_parse sample_service (sample_ids 21) 30000 30000 (sample_submission ''5.00'' ''req-2'')
         (alone st0) = (Inr a, st0)
     \<and> res_IdempotentReplay a \<and> res_TransactionID a = 11"
proof -
  obtain t' st0 where
    run: "Wagering_Submit sample_parse sample_service (sample_ids 11) 20000 20000 (sample_submission ''5.00'' ''req-1'')
       (alone sample_store) = (Inr (resultOf t' False), st0)" "tx_id t' = 11" "store_ok st0"
    by (rule sample_submitted)
  have "claim_inbox (sample_submission ''5.00'' ''req-2'') 30000 st0 st0 = Inr st0"
    by (simp add: claim_inbox_def sample_submission_def)
  with resubmission_is_replayed [OF _ _ run(1), where v = "alone st0" and cmd = "sample_submission ''5.00'' ''req-2''"
      and ids = "sample_ids 21" and now = 30000 and now_inbox = 30000 and svc = sample_service] sample_store_ok run
  show ?thesis by (auto simp: alone_def sample_submission_def sample_ids_def resultOf_def)
qed

text \<open>
  A retry gets the first answer. When the first submission was settled and the same
  fields come again, at any later moment and with nothing racing the retry, the answer is the
  first answer, field by field, marked as a replay, and the store is untouched but for the
  message.
\<close>

theorem retry_repeats_answer:
  assumes first: "store_ok (vw_move v0)" "clock_time now0"
      "Wagering_Submit uuid_Parse svc0 ids0 now_inbox0 now0 cmd0 v0 = (Inr a0, st0)" "\<not> res_IdempotentReplay a0"
      "IsTerminal (res_Status a0)"
    and again: "sb_Principal cmd = sb_Principal cmd0" "sb_Fields cmd = sb_Fields cmd0" "sb_Correlation cmd \<noteq> []"
      "id_Transaction ids \<noteq> 0" "id_LedgerEntry ids \<noteq> 0"
    and later: "(service_step uuid_Parse)\<^sup>*\<^sup>* st0 st" "claim_inbox cmd now_inbox st st = Inr st1"
  shows "Wagering_Submit uuid_Parse svc ids now_inbox now cmd (alone st) = (Inr (a0\<lparr>res_IdempotentReplay := True\<rparr>), st1)"
proof -
  from submitted_records [OF first(1,2,3,4)] first(5) obtain c0 t0 where
    c0: "admit uuid_Parse ids0 cmd0 = Inr (c0, payloadHash c0)" "records st0 c0 (res_TransactionID a0)"
      "stored_as st0 t0" "a0 = resultOf t0 False" by blast
  have "MaySubmitAs (sb_Principal cmd) = MaySubmitAs (sb_Principal cmd0)" by (simp add: again(1))
  with c0(1) obtain c where
    c: "admit uuid_Parse ids cmd = Inr (c, payloadHash c)" "same_business c c0"
      "c_IdempotencyKey c = c_IdempotencyKey c0" using again(2-5) by (rule admit_again)
  have ok0: "store_ok st0" using Wagering_Submit_ok [OF first(1,2,3)] by blast
  note st = later_ok [OF later(1) ok0]
  from records_same_business [OF records_later [OF c0(2) conjunct2 [OF st]] c(2,3)]
  have "records st c (res_TransactionID a0)" .
  from replay_by_key [OF store_okD(1) [OF conjunct1 [OF st]] this] obtain a where
    a: "replay st st c (payloadHash c) = Inr (Some a)" "replays a (res_TransactionID a0) st" by blast
  then obtain t where t: "stored_as st t" "tx_id t = tx_id t0" "a = resultOf t True"
    by (auto simp: replays_def c0(4) resultOf_def)
  have "t = t0"
    by (rule settled_stays_stored [OF ok0 conjunct2 [OF st] conjunct1 [OF st] c0(3) _ t(1,2)])
      (use first(5) c0(4) in \<open>simp add: resultOf_def\<close>)
  then have "a = a0\<lparr>res_IdempotentReplay := True\<rparr>" using t(3) c0(4) by (simp add: resultOf_def)
  moreover have "commit_violation st st1 = None"
    using commit_untouched claim_inbox_tables [OF later(2)] by blast
  ultimately show ?thesis
    using c(1) later(2) a(1)
    by (simp add: Wagering_Submit_def submitOnce_def submit_body_def WithinMovement_def alone_def)
qed

theorem retry_repeats_answer_witness:
  "\<exists>a st0. Wagering_Submit sample_parse sample_service (sample_ids 11) 20000 20000 (sample_submission ''5.00'' ''req-1'')
       (alone sample_store) = (Inr a, st0)
     \<and> Wagering_Submit sample_parse sample_service (sample_ids 21) 30000 30000 (sample_submission ''5.00'' ''req-2'')
         (alone st0) = (Inr (a\<lparr>res_IdempotentReplay := True\<rparr>), st0)"
proof -
  obtain t' st0 where
    run: "Wagering_Submit sample_parse sample_service (sample_ids 11) 20000 20000 (sample_submission ''5.00'' ''req-1'')
       (alone sample_store) = (Inr (resultOf t' False), st0)" "IsTerminal (tx_status t')"
    by (rule sample_submitted)
  have "claim_inbox (sample_submission ''5.00'' ''req-2'') 30000 st0 st0 = Inr st0"
    by (simp add: claim_inbox_def sample_submission_def)
  with retry_repeats_answer [OF _ _ run(1), where st = st0 and cmd = "sample_submission ''5.00'' ''req-2''"
      and ids = "sample_ids 21" and now = 30000 and now_inbox = 30000 and svc = sample_service] sample_store_ok run
  show ?thesis by (simp add: alone_def sample_submission_def sample_ids_def) (auto simp: resultOf_def)
qed

text \<open>
  C14: an idempotency key names one payload. When a provider uses a key it has used before,
  the service compares fingerprints: the same fingerprint is answered with the recorded
  transaction as a replay, any other is refused as a payload conflict and writes nothing, not
  even that the message was handled.
\<close>

theorem key_names_one_payload:
  assumes "store_ok st" "records st c0 i" "admit uuid_Parse ids cmd = Inr (c, hash)"
    "c_Provider c = c_Provider c0" "c_IdempotencyKey c = c_IdempotencyKey c0" "claim_inbox cmd now_inbox st st = Inr st1"
  shows "\<exists>t. stored_as st t \<and> tx_id t = i
    \<and> Wagering_Submit uuid_Parse svc ids now_inbox now cmd (alone st) =
        (if hash = payloadHash c0 then (Inr (resultOf t True), st1)
         else (Inl (conflict IdempotencyPayloadConflict (Some (DomainErr (New IdempotencyPayloadConflict)))), st))"
proof -
  from records_read [OF store_okD(1) [OF assms(1)] assms(2)] obtain t s where
    t: "stored_as st t" "tx_id t = i" "Tx_PayloadHash t = Some (payloadHash c0)" and
    s: "ByIdempotencyKey (c_Provider c0) (c_IdempotencyKey c0) st = Inr (Some s)" "st_Transaction s = t"
    by metis
  have commit: "commit_violation st st1 = None"
    using commit_untouched claim_inbox_tables [OF assms(6)] by blast
  show ?thesis
  proof (cases "hash = payloadHash c0")
    case True
    then have "replay st st c hash = Inr (Some (resultOf t True))"
      using s t(3) assms(4,5) replayOf_same [of s hash] by (simp add: replay_def)
    with True assms(3,6) t commit show ?thesis
      by (intro exI [of _ t])
        (simp add: Wagering_Submit_def submitOnce_def submit_body_def WithinMovement_def alone_def)
  next
    case False
    then have "replay st st c hash
        = Inl (conflict IdempotencyPayloadConflict (Some (DomainErr (New IdempotencyPayloadConflict))))"
      using s t(3) assms(4,5) replayOf_other [of s "payloadHash c0" hash] by (simp add: replay_def)
    with False assms(3,6) t show ?thesis
      by (intro exI [of _ t])
        (simp add: Wagering_Submit_def submitOnce_def submit_body_def WithinMovement_def alone_def
          conflict_def newError_def classify_def)
  qed
qed

theorem key_names_one_payload_witness:
  "\<exists>st t. stored_as st t \<and> tx_id t = 11
     \<and> Wagering_Submit sample_parse sample_service (sample_ids 21) 30000 30000 (sample_submission ''6.00'' ''req-2'') (alone st) =
         (if payloadHash ((sample_command Bet 600 [])\<lparr>c_TransactionID := 21\<rparr>) = payloadHash (sample_command Bet 500 [])
          then (Inr (resultOf t True), st)
          else (Inl (conflict IdempotencyPayloadConflict (Some (DomainErr (New IdempotencyPayloadConflict)))), st))"
proof -
  obtain st where st: "store_ok st" "records st (sample_command Bet 500 []) 11" by (rule sample_recorded)
  have admit: "admit sample_parse (sample_ids 21) (sample_submission ''6.00'' ''req-2'')
      = Inr ((sample_command Bet 600 [])\<lparr>c_TransactionID := 21\<rparr>, payloadHash ((sample_command Bet 600 [])\<lparr>c_TransactionID := 21\<rparr>))"
    by (rule sample_admitted [OF sample_amounts(2)]) simp_all
  have same: "c_Provider ((sample_command Bet 600 [])\<lparr>c_TransactionID := 21\<rparr>) = c_Provider (sample_command Bet 500 [])"
    "c_IdempotencyKey ((sample_command Bet 600 [])\<lparr>c_TransactionID := 21\<rparr>) = c_IdempotencyKey (sample_command Bet 500 [])"
    by (simp_all add: sample_command_def)
  have "claim_inbox (sample_submission ''6.00'' ''req-2'') 30000 st st = Inr st"
    by (simp add: claim_inbox_def sample_submission_def)
  from key_names_one_payload [OF st admit same this, of sample_service 30000] show ?thesis by blast
qed

section \<open>Reconciliation\<close>

lemma wallet_zero:
  assumes "wallet_storable w"
  shows "Money_Zero (Wallet_Currency w) = Inr \<lparr>m_units = 0, m_currency = Wallet_Currency w\<rparr>"
proof -
  have "[] \<notin> set supportedCurrencies" by (simp add: supportedCurrencies_def)
  then have "\<not> Currency_IsZero (Wallet_Currency w)"
    using assms by (auto simp: Currency_IsZero_def wallet_storable_def storable_money_def Wallet_Currency_def)
  then show ?thesis by (simp add: Money_Zero_def)
qed

text \<open>
  C1: whatever the service did, the books balance. Take a store in order, as the empty one is,
  and run any sequence of submissions, resumptions and openings on it, each with whatever
  identifiers, clock readings and racing reads it met: every wallet the store then holds has a
  ledger whose movements add up to its balance exactly, and the reconciliation a service
  principal asks for reports it consistent, counts every entry and tells the divergence hook
  nothing.
\<close>

theorem service_reconciles:
  assumes "store_ok st0" "(service_step uuid_Parse)\<^sup>*\<^sup>* st0 st" "pr_kind p = ServicePrincipal"
    "Wallets_ByID i st = Inr (Some w)"
  shows "\<exists>es. Ledger_All i st = Inr es \<and> wallet_units w = sum_list (map entry_delta es)
    \<and> Wallets_Reconcile svc p i st =
        (Inr \<lparr>rn_Divergence = \<lparr>dv_WalletID = i, dv_Stored = w_balance w, dv_Reconstructed = w_balance w,
                dv_Difference = \<lparr>m_units = 0, m_currency = Wallet_Currency w\<rparr>\<rparr>,
              rn_Consistent = True, rn_CheckedEntries = length es\<rparr>, None)"
proof -
  have ok: "store_ok st" using later_ok [OF assms(2,1)] by blast
  have lock: "LockByID i st = Inr (Some w)" using assms(4) by (simp add: LockByID_def)
  note w = LockByID_storable [OF lock]
  from ok w(2) obtain w' es where es: "walletArgs w = walletArgs w'" "Wallets_ByID (w_id w') st = Inr (Some w')"
    "Ledger_All (w_id w') st = Inr es" "Reconcile (Some w') es = Inr ()"
    "wallet_units w' = sum_list (map entry_delta es)" by (rule store_wallet_book)
  have "w_id w' = i" using arg_cong [OF es(1), of wr_id] w(3) by simp
  with es assms(4) have "w' = w" "Ledger_All i st = Inr es" by simp_all
  with es assms(3,4) wallet_zero [OF w(1)] show ?thesis
    by (simp add: Wallets_Reconcile_def WithinSnapshot_def requireWallet_def reconcile_report_def
        classified_def classify_error_def MayAdministerWallets_def)
qed

theorem service_reconciles_witness:
  "\<exists>st w es report. service_step sample_parse sample_store st \<and> Wallets_ByID 13 st = Inr (Some w)
     \<and> Ledger_All 13 st = Inr es \<and> wallet_units w = sum_list (map entry_delta es)
     \<and> Wallets_Reconcile \<lparr>ws_observer = Some ()\<rparr> sample_admin 13 st = (Inr report, None) \<and> rn_Consistent report"
proof -
  obtain w' st' where st': "Wallets_ByID 13 st' = Inr (Some w')" "service_step sample_parse sample_store st'"
    by (rule sample_submitted)
  have "pr_kind sample_admin = ServicePrincipal" by (simp add: sample_admin_def)
  from service_reconciles [OF sample_store_ok r_into_rtranclp [of "service_step sample_parse", OF st'(2)] this st'(1),
      of "\<lparr>ws_observer = Some ()\<rparr>"]
  show ?thesis using st' by fastforce
qed

section \<open>Permanence\<close>

text \<open>
  C9: a settled operation is answered the same for ever. Once the service has told a
  principal that an operation was processed, rejected or failed, no later submission,
  resumption or opening changes that answer: not its status, its balance, its failure code or
  any other field.
\<close>

theorem settled_answer_is_final:
  assumes "store_ok st" "(service_step uuid_Parse)\<^sup>*\<^sup>* st st'"
    "TransactionByID p i st = Inr a" "IsTerminal (res_Status a)"
  shows "TransactionByID p i st' = Inr a"
proof -
  note later = later_ok [OF assms(2,1)]
  from assms(3) obtain s where s: "Transactions_ByID i st = Inr (Some s)" and
    a: "scopedResult p (Some s) = Inr a"
    by (auto simp: TransactionByID_def classify_error_def WithinSnapshot_def scopedResult_def
        split: sum.splits option.splits)
  from s [unfolded Transactions_ByID_def] obtain r where r: "r \<in> set (db_transactions st)" "tr_id r = uuidOf i"
    "row_transaction r = Inr (st_Transaction s)" "st_Correlation s = tr_correlation r"
    by (rule transactions_one_stored)
  have "res_Status a = tx_status (st_Transaction s)"
    using a by (auto simp: scopedResult_def resultOf_def split: option.splits if_splits)
  then have "row_settled r"
    using settled_row_iff [OF structure_okD(5) [OF store_okD(1) [OF assms(1)] r(1)] r(3)] assms(4) by simp
  from stored_row_later [OF assms(1) _ _ r(1) this] later r
  have "Transactions_ByID i st' = Inr (Some s)"
    by (simp add: Transactions_ByID_def transactions_one_def row_stored_def)
  with a show ?thesis by (simp add: TransactionByID_def WithinSnapshot_def classify_error_def)
qed

theorem settled_answer_is_final_witness:
  "\<exists>st a. service_step sample_parse sample_store st \<and> IsTerminal (res_Status a)
     \<and> TransactionByID sample_admin 11 st = Inr a"
proof -
  obtain t' st' where st': "IsTerminal (tx_status t')" "store_ok st'" "service_step sample_parse sample_store st'"
    "\<exists>s. Transactions_ByID 11 st' = Inr (Some s) \<and> st_Transaction s = t'"
    by (rule sample_submitted)
  then have "TransactionByID sample_admin 11 st' = Inr (resultOf t' False)"
    by (auto simp: TransactionByID_def WithinSnapshot_def classify_error_def scopedResult_def
        Principal_Provider_def sample_admin_def)
  moreover have "IsTerminal (res_Status (resultOf t' False))" using st'(1) by (simp add: resultOf_def)
  ultimately show ?thesis
    using settled_answer_is_final [OF st'(2) rtranclp.rtrancl_refl [of "service_step sample_parse"]] st'(3) by blast
qed

text \<open>
  C15: the ledger of a wallet is only appended to. Whatever ran in between, the entries a
  wallet had are the first entries it has, unchanged and in the same order, and the wallet is
  the same player's, in the same currency, at a version no lower.
\<close>

theorem ledger_only_grows:
  assumes "store_ok st" "(service_step uuid_Parse)\<^sup>*\<^sup>* st st'" "Wallets_ByID i st = Inr (Some w)"
  shows "\<exists>w' es new. Wallets_ByID i st' = Inr (Some w') \<and> w_playerID w' = w_playerID w
    \<and> Wallet_Currency w' = Wallet_Currency w \<and> sint (w_version w) \<le> sint (w_version w')
    \<and> Ledger_All i st = Inr es \<and> Ledger_All i st' = Inr (es @ new)"
proof -
  note later = later_ok [OF assms(2,1)]
  have lock: "LockByID i st = Inr (Some w)" using assms(3) by (simp add: LockByID_def)
  note w = LockByID_storable [OF lock]
  from later w(2) obtain r' where r': "r' \<in> set (db_wallets st')"
    "wallet_identity r' = wallet_identity (walletArgs w)" "sint (w_version w) \<le> sint (wr_version r')"
    unfolding extends_def by fastforce
  from later r'(1) obtain w' es' where book': "r' = walletArgs w'" "Wallets_ByID (w_id w') st' = Inr (Some w')"
    "Ledger_All (w_id w') st' = Inr es'" "ledger_of (wr_id r') st' = map ledgerArgs es'"
    "\<forall>e \<in> set es'. entry_storable e" by (metis store_wallet_book)
  from assms(1) w(2) obtain v es where book: "walletArgs w = walletArgs v"
    "Ledger_All (w_id v) st = Inr es" "ledger_of (wr_id (walletArgs w)) st = map ledgerArgs es"
    "\<forall>e \<in> set es. entry_storable e" by (rule store_wallet_book)
  have id: "w_id w' = i" "w_id v = i" "w_playerID w' = w_playerID w" "Wallet_Currency w' = Wallet_Currency w"
    using r'(2) book'(1) arg_cong [OF book(1), of wr_id] w(3)
    by (auto simp: wallet_identity_def intro: currency.equality)
  obtain more where "ledger_of (wr_id (walletArgs w)) st' = map ledgerArgs es @ more"
    using later book(3) by (auto simp: extends_def ledger_of_def)
  with book'(1,4) id have more: "map ledgerArgs es' = map ledgerArgs es @ more" using w(3) by simp
  then have "map ledgerArgs (take (length es) es') = map ledgerArgs es"
    by (simp add: take_map [symmetric])
  moreover have "\<forall>e \<in> set (take (length es) es'). entry_storable e" using book'(5) by (auto dest: in_set_takeD)
  ultimately have "take (length es) es' = es" using ledger_read_rows book(4) by (metis sum.inject(2))
  then have "es' = es @ drop (length es) es'" by (metis append_take_drop_id)
  then obtain new where "es' = es @ new" by blast
  moreover have "sint (w_version w) \<le> sint (w_version w')" using r'(3) book'(1) by simp
  ultimately show ?thesis
    using book(2) book'(2,3) id by (intro exI [of _ w'] exI [of _ es] exI [of _ new]) simp
qed

theorem ledger_only_grows_witness:
  "\<exists>st w es new. service_step sample_parse sample_store st \<and> Wallets_ByID 13 st = Inr (Some w)
     \<and> 1 \<le> sint (w_version w) \<and> Ledger_All 13 sample_store = Inr es \<and> Ledger_All 13 st = Inr (es @ new)"
proof -
  obtain st' where step: "service_step sample_parse sample_store st'" by (rule sample_submitted)
  from ledger_only_grows [OF sample_store_ok r_into_rtranclp [of "service_step sample_parse", OF step] sample_wallet_read]
  show ?thesis using step by auto
qed

section \<open>Events\<close>

text \<open>
  Events are numbered without gaps and never reordered. Whatever the service did, the
  outbox rows are numbered one, two, three in the order of the table, the rows of each wallet
  are numbered the same way among themselves, and a row once there stays where it is.
\<close>

theorem events_numbered_without_gaps:
  assumes "store_ok st0" "(service_step uuid_Parse)\<^sup>*\<^sup>* st0 st"
  shows "(\<exists>new. db_outbox st = db_outbox st0 @ new)
    \<and> map or_sequence (db_outbox st) = [1..<length (db_outbox st) + 1]
    \<and> (let of_wallet = filter (\<lambda>r. en_AggregateID (or_envelope r) = w) (db_outbox st)
       in map or_aggregateSequence of_wallet = [1..<length of_wallet + 1])"
proof -
  note later = later_ok [OF assms(2,1)]
  have num: "outbox_numbered st" using structure_okD(9) store_okD(1) later by blast
  let ?of = "filter (\<lambda>r. en_AggregateID (or_envelope r) = w) (db_outbox st)"
  from num have seq: "map or_aggregateSequence ?of = [1..<db_sequences st w + 1]"
    by (simp add: outbox_numbered_def)
  then have "length ?of = db_sequences st w" by (metis add_diff_cancel_right' length_map length_upt)
  with seq num later show ?thesis by (auto simp: extends_def adds_events_def outbox_numbered_def Let_def)
qed

theorem events_numbered_without_gaps_witness:
  "\<exists>st. service_step sample_parse sample_store st
     \<and> map or_sequence (db_outbox st) = [1..<length (db_outbox st) + 1]"
proof -
  obtain st where step: "service_step sample_parse sample_store st" by (rule sample_submitted)
  from events_numbered_without_gaps [OF sample_store_ok r_into_rtranclp [of "service_step sample_parse", OF step], of 13]
  show ?thesis using step by blast
qed

section \<open>Reading\<close>

text \<open>
  What belongs to another provider looks like what does not exist. A provider that reads
  an operation by its identifier is answered only with its own; the refusal for another
  provider's operation shows the class and code the refusal for a missing one shows.
\<close>

theorem foreign_operation_looks_missing:
  assumes "Principal_Provider p = Some q" "Transactions_ByID i st = Inr (Some s)"
  shows "case TransactionByID p i st of
      Inr a \<Rightarrow> a = resultOf (st_Transaction s) False \<and> res_ProviderID a = q
    | Inl err \<Rightarrow> Tx_Provider (st_Transaction s) \<noteq> Some q
        \<and> (\<forall>j. Transactions_ByID j st = Inr None \<longrightarrow> TransactionByID p j st = Inl notFound \<and> shown err = shown notFound)"
proof -
  have missing: "TransactionByID p j st = Inl notFound" if "Transactions_ByID j st = Inr None" for j
    using that by (simp add: TransactionByID_def classify_error_def WithinSnapshot_def scopedResult_def
        classify_def app_constructors)
  show ?thesis
    using assms missing
    by (auto simp: TransactionByID_def classify_error_def WithinSnapshot_def scopedResult_def classify_def
        app_constructors shown_def App_CodeOf_def resultOf_def textFrom_def)
qed

theorem foreign_operation_looks_missing_witness:
  "\<exists>st err. TransactionByID \<lparr>pr_kind = ProviderPrincipal, pr_provider = ''other'', pr_subject = ''s''\<rparr> 11 st = Inl err
     \<and> shown err = shown notFound"
proof -
  let ?p = "\<lparr>pr_kind = ProviderPrincipal, pr_provider = ''other'', pr_subject = ''s''\<rparr>"
  obtain t' st where st: "\<exists>s. Transactions_ByID 11 st = Inr (Some s) \<and> st_Transaction s = t'"
    "Transactions_ByID 99 st = Inr None" "Tx_Provider t' = Some ''acme''" by (rule sample_stored)
  then obtain s where s: "Transactions_ByID 11 st = Inr (Some s)" "st_Transaction s = t'" by blast
  have p: "Principal_Provider ?p = Some ''other''" by (simp add: Principal_Provider_def)
  from s st(3) obtain err where err: "TransactionByID ?p 11 st = Inl err"
    by (auto simp: TransactionByID_def classify_error_def WithinSnapshot_def scopedResult_def p)
  with foreign_operation_looks_missing [OF p s(1)] st(2) show ?thesis by auto
qed

text \<open>
  C36: reading a ledger page by page ends and misses nothing. Whatever page size a client asks
  for, following the cursors from the start ends after one request more than the number of
  full pages, and the pages together are the whole ledger of the wallet, each entry once, in
  order.
\<close>

theorem ledger_walk_ends_complete:
  assumes "store_ok st0" "(service_step uuid_Parse)\<^sup>*\<^sup>* st0 st" "pr_kind p = ServicePrincipal"
    "Wallets_ByID i st = Inr (Some w)"
  shows "\<exists>es. Ledger_All i st = Inr es
    \<and> walk_ledger (length es div nat (page_limit limit) + 1) p i limit [] st = Some (Inr es)"
proof -
  have ok: "store_ok st" using later_ok [OF assms(2,1)] by blast
  have lock: "LockByID i st = Inr (Some w)" using assms(4) by (simp add: LockByID_def)
  note w = LockByID_storable [OF lock]
  from ok w(2) obtain w' es where es: "walletArgs w = walletArgs w'" "Ledger_All (w_id w') st = Inr es"
    "ledger_of (wr_id (walletArgs w)) st = map ledgerArgs es" "in_order es" by (metis store_wallet_book)
  have "w_id w' = i" using arg_cong [OF es(1), of wr_id] w(3) by simp
  moreover have "wallet_entries i st = map ledgerArgs es"
    using es(3) w(3) by (simp add: wallet_entries_def ledger_of_def uuidOf_def)
  from walk_ledger_from [OF es(4) this assms(3,4), of 0 limit]
  have "walk_ledger (length es div nat (page_limit limit) + 1) p i limit [] st = Some (Inr es)"
    by (simp add: cursor_before_def)
  ultimately show ?thesis using es(2) by blast
qed

theorem ledger_walk_ends_complete_witness:
  "\<exists>es n. Ledger_All 13 sample_store = Inr es \<and> walk_ledger n sample_admin 13 1 [] sample_store = Some (Inr es)"
proof -
  have "pr_kind sample_admin = ServicePrincipal" by (simp add: sample_admin_def)
  from ledger_walk_ends_complete [OF sample_store_ok rtranclp.rtrancl_refl [of "service_step sample_parse"] this
      sample_wallet_read, of 1] show ?thesis by blast
qed

end
