(* ===== verification/Go_Text.thy ===== *)
theory Go_Text
  imports Go_Stdlib
begin

text \<open>
  More of Go's standard library: \<^verbatim>\<open>strings\<close> on the bytes of a string, and \<^verbatim>\<open>time\<close> in nanoseconds
  from the zero time.
\<close>

section \<open>Strings\<close>

definition HasPrefix :: "string \<Rightarrow> string \<Rightarrow> bool" where
  "HasPrefix s p \<longleftrightarrow> take (length p) s = p"

definition HasSuffix :: "string \<Rightarrow> string \<Rightarrow> bool" where
  "HasSuffix s p \<longleftrightarrow> HasPrefix (rev s) (rev p)"

fun strings_Contains :: "string \<Rightarrow> string \<Rightarrow> bool" where
  "strings_Contains [] p = HasPrefix [] p"
| "strings_Contains (c # cs) p = (HasPrefix (c # cs) p \<or> strings_Contains cs p)"

text \<open>
  \<^verbatim>\<open>strings.TrimSpace\<close>. White space is one byte of ASCII or the encoding of one of the code points
  of \<open>IsSpace\<close>; a byte that belongs to no valid encoding is not white space. The last code point
  of a string is found from the nearest byte that can start one, so it is white space exactly when
  one of the encodings is a suffix.
\<close>

definition space_bytes :: "nat list list" where
  "space_bytes =
     map (\<lambda>b. [b]) [9, 10, 11, 12, 13, 32] @ [[0xC2, 0x85], [0xC2, 0xA0], [0xE1, 0x9A, 0x80]]
     @ map (\<lambda>b. [0xE2, 0x80, b]) [0x80 ..< 0x8B] @ [[0xE2, 0x80, 0xA8], [0xE2, 0x80, 0xA9], [0xE2, 0x80, 0xAF],
     [0xE2, 0x81, 0x9F], [0xE3, 0x80, 0x80]]"

definition spaces :: "string list" where
  "spaces = map (map char_of) space_bytes"

fun trim_fuel :: "string list \<Rightarrow> nat \<Rightarrow> string \<Rightarrow> string" where
  "trim_fuel ws 0 s = s"
| "trim_fuel ws (Suc n) s =
     (case find (HasPrefix s) ws of None \<Rightarrow> s | Some w \<Rightarrow> trim_fuel ws n (drop (length w) s))"

definition trim_left :: "string list \<Rightarrow> string \<Rightarrow> string" where
  "trim_left ws s = trim_fuel ws (length s) s"

definition strings_TrimSpace :: "string \<Rightarrow> string" where
  "strings_TrimSpace s = rev (trim_left (map rev spaces) (rev (trim_left spaces s)))"

text \<open>\<^verbatim>\<open>strings.Cut\<close> at one byte.\<close>

definition Cut :: "char \<Rightarrow> string \<Rightarrow> string \<times> string \<times> bool" where
  "Cut ch s =
     (case dropWhile (\<lambda>x. x \<noteq> ch) s of
        [] \<Rightarrow> (s, [], False)
      | _ # r \<Rightarrow> (takeWhile (\<lambda>x. x \<noteq> ch) s, r, True))"

definition lower_byte :: "char \<Rightarrow> char" where
  "lower_byte ch = (if CHR ''A'' \<le> ch \<and> ch \<le> CHR ''Z'' then char_of ((of_char ch :: nat) + 32) else ch)"

text \<open>\<^verbatim>\<open>strings.EqualFold\<close> against letters no code point past ASCII folds to.\<close>

definition EqualFold :: "string \<Rightarrow> string \<Rightarrow> bool" where
  "EqualFold s t \<longleftrightarrow> map lower_byte s = map lower_byte t"

section \<open>Time\<close>

definition Second :: duration where "Second = 1000000000"

text \<open>
  \<^verbatim>\<open>time.Unix\<close> moves a count of seconds from 1970 to the zero time in 64 bits, and wraps there;
  \<^verbatim>\<open>Add\<close> saturates at the last second that has a representation.
\<close>

definition unixToInternal :: int64 where
  "unixToInternal = 62135596800"

definition time_Unix :: "int64 \<Rightarrow> instant" where
  "time_Unix s = sint (s + unixToInternal) * Second"

definition time_Add :: "instant \<Rightarrow> duration \<Rightarrow> instant" where
  "time_Add t d =
     (let sum = t + d; s = sum div Second
      in if s > 2 ^ 63 - 1 then (2 ^ 63 - 1) * Second + sum mod Second
         else if s < - (2 ^ 63) then - (2 ^ 63 - 1) * Second + sum mod Second
         else sum)"

section \<open>Facts\<close>

lemma trim_left_none:
  assumes "s = [] \<or> find (HasPrefix s) ws = None"
  shows "trim_left ws s = s"
  using assms by (cases "length s") (auto simp: trim_left_def)

lemma HasPrefix_hd: "HasPrefix s w \<Longrightarrow> w \<noteq> [] \<Longrightarrow> s \<noteq> [] \<and> hd s = hd w"
  by (cases s; cases w) (auto simp: HasPrefix_def)

text \<open>A string that starts and ends with a printing character of ASCII is not trimmed.\<close>

lemma TrimSpace_printing:
  assumes "33 \<le> (of_char (hd s) :: nat)" "(of_char (hd s) :: nat) < 127"
    "33 \<le> (of_char (last s) :: nat)" "(of_char (last s) :: nat) < 127" "s \<noteq> []"
  shows "strings_TrimSpace s = s"
proof -
  define first final :: "nat list" where "first = [9, 10, 11, 12, 13, 32, 0xC2, 0xE1, 0xE2, 0xE3]"
    and "final = [9, 10, 11, 12, 13, 32, 0x85, 0xA0, 0x80, 0xA8, 0xA9, 0xAF, 0x9F] @ [0x80 ..< 0x8B]"
  have "\<forall>w \<in> set space_bytes. w \<noteq> [] \<and> hd w \<in> set first \<and> last w \<in> set final \<and> (\<forall>b \<in> set w. b < 256)"
    by (simp add: space_bytes_def first_def final_def upt_rec)
  then have ends: "w \<noteq> [] \<and> of_char (hd w) \<in> set first \<and> of_char (hd (rev w)) \<in> set final" if "w \<in> set spaces" for w
    using that by (auto simp: spaces_def hd_map last_map hd_rev)
  have apart: "(33 \<le> b \<longrightarrow> b < 127 \<longrightarrow> b \<notin> set first) \<and> (33 \<le> b \<longrightarrow> b < 127 \<longrightarrow> b \<notin> set final)" for b
    by (auto simp: first_def final_def)
  have none: "find (HasPrefix s) spaces = None"
    using ends apart [of "of_char (hd s)"] assms(1,2) HasPrefix_hd [of s] by (fastforce simp: find_None_iff)
  have "hd (rev s) = last s" by (simp add: hd_rev)
  then have "find (HasPrefix (rev s)) (map rev spaces) = None"
    using ends apart [of "of_char (last s)"] assms(3,4) HasPrefix_hd [of "rev s"] by (fastforce simp: find_None_iff)
  then show ?thesis by (simp add: strings_TrimSpace_def trim_left_none none)
qed

end
