(* ===== verification/Sqs.thy ===== *)
theory Sqs
  imports AppErrors Go_Text
begin

text \<open>
  The queue adapter but for its sending side (\<^verbatim>\<open>src/internal/adapters/sqs\<close>: \<^verbatim>\<open>attributes.go\<close>,
  \<^verbatim>\<open>errors.go\<close>, \<^verbatim>\<open>config.go\<close>, \<^verbatim>\<open>queue.go\<close>, \<^verbatim>\<open>receive.go\<close>, \<^verbatim>\<open>health.go\<close>).

  The SDK's client is a parameter: a record of its calls, each on a state \<open>'q\<close> of the service
  that the adapter does not see. A map of attributes is a list of pairs in some order; nothing
  the adapter decides depends on it. A string is the bytes of a Go string.
\<close>

section \<open>Message attributes\<close>

type_synonym attributes = "(string \<times> string) list"

definition stringType :: string where "stringType = ''String''"
definition maxAttributeNameBytes :: nat where "maxAttributeNameBytes = 256"
definition maxAttributes :: nat where "maxAttributes = 10"
definition awsPrefix :: string where "awsPrefix = ''AWS.''"
definition amazonPrefix :: string where "amazonPrefix = ''Amazon.''"

text \<open>A byte past ASCII is part of a rune none of the cases admits.\<close>

definition attribute_rune :: "char \<Rightarrow> bool" where
  "attribute_rune r \<longleftrightarrow>
     (CHR ''a'' \<le> r \<and> r \<le> CHR ''z'') \<or> (CHR ''A'' \<le> r \<and> r \<le> CHR ''Z'')
     \<or> (CHR ''0'' \<le> r \<and> r \<le> CHR ''9'') \<or> r = CHR ''_'' \<or> r = CHR ''-'' \<or> r = CHR ''.''"

definition checkAttributeName :: "string \<Rightarrow> unit eres" where
  "checkAttributeName name =
     (if name = [] then Inl (Wrapped [])
      else if length name > maxAttributeNameBytes then Inl (Wrapped [])
      else if HasPrefix name awsPrefix \<or> HasPrefix name amazonPrefix then Inl (Wrapped [])
      else if HasPrefix name ''.'' \<or> HasSuffix name ''.'' \<or> strings_Contains name ''..'' then Inl (Wrapped [])
      else if list_all attribute_rune name then Inr ()
      else Inl (Wrapped []))"

fun checkAttributes_loop :: "attributes \<Rightarrow> unit eres" where
  "checkAttributes_loop [] = Inr ()"
| "checkAttributes_loop ((name, value) # rest) =
     (case checkAttributeName name of
        Inl err \<Rightarrow> Inl err
      | Inr _ \<Rightarrow> if value = [] then Inl (Wrapped []) else checkAttributes_loop rest)"

definition checkAttributes :: "attributes \<Rightarrow> unit eres" where
  "checkAttributes attributes =
     (if length attributes > maxAttributes then Inl (Wrapped []) else checkAttributes_loop attributes)"

record message_attribute_value =
  DataType :: "string option"
  StringValue :: "string option"

definition encodeAttributes :: "attributes \<Rightarrow> (string \<times> message_attribute_value) list" where
  "encodeAttributes attributes =
     (if attributes = [] then []
      else map (\<lambda>(name, value). (name, \<lparr>DataType = Some stringType, StringValue = Some value\<rparr>)) attributes)"

definition decodeAttributes :: "(string \<times> message_attribute_value) list \<Rightarrow> attributes" where
  "decodeAttributes attributes =
     List.map_filter (\<lambda>(name, value). map_option (Pair name) (StringValue value)) attributes"

definition lengthPrefixBytes :: nat where "lengthPrefixBytes = 4"
definition transportFlagBytes :: nat where "transportFlagBytes = 1"

definition attributesSize :: "attributes \<Rightarrow> nat" where
  "attributesSize attributes =
     sum_list (map (\<lambda>(name, value).
       (lengthPrefixBytes + length name) + (lengthPrefixBytes + length stringType)
       + transportFlagBytes + (lengthPrefixBytes + length value)) attributes)"

section \<open>Errors of the SDK\<close>

datatype fault = FaultUnknown | FaultServer | FaultClient

text \<open>
  What the adapter looks at in an error of the SDK: whether a context's end is in its chain, the
  API error (its code and its fault), the HTTP status, whether a connection failed, whether the
  network timed out, and whether the queue does not exist.
\<close>

record sdk_error =
  sdk_context :: bool
  sdk_api :: "(string \<times> fault) option"
  sdk_status :: "int option"
  sdk_connection :: bool
  sdk_timeout :: bool
  sdk_noQueue :: bool

definition throttlingCodes :: "string list" where
  "throttlingCodes =
     [''ThrottlingException'', ''Throttling'', ''RequestThrottled'', ''RequestThrottledException'',
      ''TooManyRequestsException'', ''RequestLimitExceeded'', ''ProvisionedThroughputExceededException'',
      ''SlowDown'', ''KMS.ThrottlingException'', ''OverLimit'']"

definition retryableStatuses :: "int list" where
  "retryableStatuses = [408, 429]"

definition entryFaultCodes :: "string list" where
  "entryFaultCodes =
     [''InvalidMessageContents'', ''InvalidParameterValue'', ''InvalidParameterValueException'',
      ''MissingRequiredParameterException'', ''InvalidAttributeName'', ''InvalidAttributeValue'',
      ''AWS.SimpleQueueService.InvalidBatchEntryId'', ''AWS.SimpleQueueService.BatchRequestTooLong'',
      ''AWS.SimpleQueueService.UnsupportedOperation'']"

definition sqs_retryable :: "sdk_error \<Rightarrow> bool" where
  "sqs_retryable err =
     (if sdk_context err then True
      else if (case sdk_api err of Some (c, _) \<Rightarrow> c \<in> set throttlingCodes | None \<Rightarrow> False) then True
      else if (case sdk_status err of
                 Some s \<Rightarrow> 500 \<le> s \<or> s \<in> set retryableStatuses | None \<Rightarrow> False) then True
      else (case sdk_api err of
              Some (_, f) \<Rightarrow> f = FaultServer
            | None \<Rightarrow>
                if sdk_connection err then True
                else if sdk_timeout err then True
                else False))"

text \<open>The error of a call; the error of the SDK inside it is not looked at again.\<close>

definition sqs_fail :: "sdk_error option \<Rightarrow> go_error option" where
  "sqs_fail err =
     (case err of
        None \<Rightarrow> None
      | Some e \<Rightarrow>
          if sqs_retryable e then Some (AsRetryable (Wrapped [])) else Some (AsUnretryable (Wrapped [])))"

abbreviation sqs_failed :: "sdk_error \<Rightarrow> go_error" where
  "sqs_failed e \<equiv> (if sqs_retryable e then AsRetryable (Wrapped []) else AsUnretryable (Wrapped []))"

definition entryFailure :: "string \<Rightarrow> string \<Rightarrow> bool \<Rightarrow> go_error" where
  "entryFailure c message senderFault =
     (if c \<in> set throttlingCodes then AsRetryable (Wrapped [])
      else if c \<in> set entryFaultCodes \<or> senderFault then AsUnretryable (Wrapped [])
      else AsRetryable (Wrapped []))"

definition queue_missing :: "sdk_error \<Rightarrow> bool" where
  "queue_missing err = sdk_noQueue err"

section \<open>The client\<close>

record send_entry =
  se_Id :: string
  se_MessageBody :: string
  se_MessageGroupId :: string
  se_MessageDeduplicationId :: string
  se_MessageAttributes :: "(string \<times> message_attribute_value) list"

record batch_success =
  bs_Id :: "string option"
  bs_MessageId :: "string option"

record batch_refusal =
  br_Id :: "string option"
  br_Code :: "string option"
  br_Message :: "string option"
  br_SenderFault :: bool

record send_output =
  Successful :: "batch_success list"
  Failed_entries :: "batch_refusal list"

record receive_input =
  ri_QueueUrl :: string
  ri_MaxNumberOfMessages :: "32 word"
  ri_WaitTimeSeconds :: "32 word"
  ri_VisibilityTimeout :: "32 word"
  ri_MessageAttributeNames :: "string list"
  ri_MessageSystemAttributeNames :: "string list"

record sdk_message =
  sm_MessageId :: "string option"
  sm_ReceiptHandle :: "string option"
  sm_Body :: "string option"
  sm_MessageAttributes :: "(string \<times> message_attribute_value) list"
  sm_Attributes :: "(string \<times> string) list"

record 'q sqs_client =
  cl_GetQueueUrl :: "string \<Rightarrow> 'q \<Rightarrow> (sdk_error + string option) \<times> 'q"
  cl_GetQueueAttributes :: "string \<Rightarrow> string list \<Rightarrow> 'q \<Rightarrow> sdk_error option"
  cl_SendMessageBatch :: "string \<Rightarrow> send_entry list \<Rightarrow> 'q \<Rightarrow> (sdk_error + send_output) \<times> 'q"
  cl_ReceiveMessage :: "receive_input \<Rightarrow> 'q \<Rightarrow> (sdk_error + sdk_message list) \<times> 'q"
  cl_DeleteMessage :: "string \<Rightarrow> string \<Rightarrow> 'q \<Rightarrow> sdk_error option \<times> 'q"
  cl_ChangeMessageVisibility :: "string \<Rightarrow> string \<Rightarrow> 32 word \<Rightarrow> 'q \<Rightarrow> sdk_error option \<times> 'q"

text \<open>\<^verbatim>\<open>aws.ToString\<close> and \<^verbatim>\<open>aws.ToInt32\<close>: a nil pointer is the zero value.\<close>

definition ToString :: "string option \<Rightarrow> string" where
  "ToString s = (case s of None \<Rightarrow> [] | Some x \<Rightarrow> x)"

definition ToInt32 :: "32 word option \<Rightarrow> 32 word" where
  "ToInt32 w = (case w of None \<Rightarrow> 0 | Some x \<Rightarrow> x)"

section \<open>Configuration\<close>

definition maxReceiveBatch :: int where "maxReceiveBatch = 10"
definition maxWaitTime :: duration where "maxWaitTime = 20 * Second"
definition maxVisibilityTimeout :: duration where "maxVisibilityTimeout = 12 * 3600 * Second"
definition defaultMaxMessages :: int where "defaultMaxMessages = maxReceiveBatch"
definition defaultWaitTime :: duration where "defaultWaitTime = maxWaitTime"
definition defaultResolveTimeout :: duration where "defaultResolveTimeout = 5 * Second"

lemmas sqs_bounds =
  Second_def maxReceiveBatch_def maxWaitTime_def maxVisibilityTimeout_def defaultMaxMessages_def
  defaultWaitTime_def defaultResolveTimeout_def

record 'q queue_config =
  qc_Client :: "'q sqs_client option"
  qc_Name :: string
  qc_ResolveTimeout :: duration
  qc_MaxMessages :: int
  qc_WaitTime :: duration
  qc_VisibilityTimeout :: duration

record 'q queue_settings =
  qs_client :: "'q sqs_client"
  qs_name :: string
  qs_resolveTimeout :: duration
  qs_maxMessages :: "32 word"
  qs_waitTime :: "32 word"
  qs_visibilityTimeout :: "32 word option"

text \<open>The conversion to \<^verbatim>\<open>int32\<close> keeps the low 32 bits. A division of Go truncates, as \<open>div\<close> does above zero.\<close>

definition sqs_seconds :: "duration \<Rightarrow> 32 word" where
  "sqs_seconds d = word_of_int (d div Second)"

definition queue_resolve :: "'q queue_config \<Rightarrow> 'q queue_settings eres" where
  "queue_resolve c =
     (case qc_Client c of
        None \<Rightarrow> Inl (Wrapped [])
      | Some client \<Rightarrow>
          if qc_Name c = [] then Inl (Wrapped [])
          else if qc_ResolveTimeout c < 0 then Inl (Wrapped [])
          else if qc_MaxMessages c < 0 \<or> qc_MaxMessages c > maxReceiveBatch then Inl (Wrapped [])
          else if qc_WaitTime c < 0 \<or> qc_WaitTime c > maxWaitTime then Inl (Wrapped [])
          else if qc_WaitTime c mod Second \<noteq> 0 then Inl (Wrapped [])
          else if qc_VisibilityTimeout c < 0 \<or> qc_VisibilityTimeout c > maxVisibilityTimeout then Inl (Wrapped [])
          else if qc_VisibilityTimeout c mod Second \<noteq> 0 then Inl (Wrapped [])
          else Inr
            \<lparr>qs_client = client, qs_name = qc_Name c,
             qs_resolveTimeout =
               (if qc_ResolveTimeout c = 0 then defaultResolveTimeout else qc_ResolveTimeout c),
             qs_maxMessages =
               word_of_int (if qc_MaxMessages c = 0 then defaultMaxMessages else qc_MaxMessages c),
             qs_waitTime =
               sqs_seconds (if qc_WaitTime c = 0 then defaultWaitTime else qc_WaitTime c),
             qs_visibilityTimeout =
               (if 0 < qc_VisibilityTimeout c then Some (sqs_seconds (qc_VisibilityTimeout c)) else None)\<rparr>)"

section \<open>The handle on a queue\<close>

record 'q queue =
  q_settings :: "'q queue_settings"
  q_url :: "string option"

definition NewQueue :: "'q queue_config \<Rightarrow> 'q queue eres" where
  "NewQueue cfg =
     bindE (queue_resolve cfg) (\<lambda>s. Inr \<lparr>q_settings = s, q_url = None\<rparr>)"

definition Queue_OnStart :: "'q queue \<Rightarrow> 'q \<Rightarrow> go_error option \<times> 'q queue \<times> 'q" where
  "Queue_OnStart q s =
     (case cl_GetQueueUrl (qs_client (q_settings q)) (qs_name (q_settings q)) s of
        (Inl err, s') \<Rightarrow> (sqs_fail (Some err), q, s')
      | (Inr url, s') \<Rightarrow> (None, q\<lparr>q_url := url\<rparr>, s'))"

definition Queue_Name :: "'q queue \<Rightarrow> string" where
  "Queue_Name q = qs_name (q_settings q)"

definition queue_resolved :: "'q queue \<Rightarrow> string eres" where
  "queue_resolved q =
     (case q_url q of
        None \<Rightarrow> Inl (AsUnretryable (Wrapped [Sentinel ErrNotResolved]))
      | Some url \<Rightarrow> Inr url)"

record queue_message =
  qm_MessageID :: string
  qm_ReceiptHandle :: string
  qm_Body :: string
  qm_Attributes :: attributes
  qm_ReceiveCount :: int

text \<open>\<^verbatim>\<open>strconv.Atoi\<close> agrees with \<^verbatim>\<open>ParseInt\<close> in base ten at 64 bits.\<close>

definition receiveCount :: "(string \<times> string) list \<Rightarrow> int" where
  "receiveCount attributes =
     (case map_of attributes ''ApproximateReceiveCount'' of
        None \<Rightarrow> 1
      | Some raw \<Rightarrow>
          (case ParseInt raw of
             Inl _ \<Rightarrow> 1
           | Inr n \<Rightarrow> if sint n < 1 then 1 else sint n))"

definition message_of :: "sdk_message \<Rightarrow> queue_message" where
  "message_of m =
     \<lparr>qm_MessageID = ToString (sm_MessageId m), qm_ReceiptHandle = ToString (sm_ReceiptHandle m),
      qm_Body = ToString (sm_Body m), qm_Attributes = decodeAttributes (sm_MessageAttributes m),
      qm_ReceiveCount = receiveCount (sm_Attributes m)\<rparr>"

definition Queue_Receive :: "'q queue \<Rightarrow> 'q \<Rightarrow> queue_message list eres \<times> 'q" where
  "Queue_Receive q s =
     (case queue_resolved q of
        Inl err \<Rightarrow> (Inl err, s)
      | Inr url \<Rightarrow>
          (let settings = q_settings q;
               input = \<lparr>ri_QueueUrl = url, ri_MaxNumberOfMessages = qs_maxMessages settings,
                  ri_WaitTimeSeconds = qs_waitTime settings,
                  ri_VisibilityTimeout = ToInt32 (qs_visibilityTimeout settings),
                  ri_MessageAttributeNames = [''All''],
                  ri_MessageSystemAttributeNames = [''ApproximateReceiveCount'']\<rparr>
           in case cl_ReceiveMessage (qs_client settings) input s of
                (Inl err, s') \<Rightarrow> (Inl (sqs_failed err), s')
              | (Inr received, s') \<Rightarrow> (Inr (map message_of received), s')))"

definition Queue_Delete :: "'q queue \<Rightarrow> string \<Rightarrow> 'q \<Rightarrow> go_error option \<times> 'q" where
  "Queue_Delete q receiptHandle s =
     (case queue_resolved q of
        Inl err \<Rightarrow> (Some err, s)
      | Inr url \<Rightarrow>
          if receiptHandle = [] then (Some (AsUnretryable (Wrapped [])), s)
          else (case cl_DeleteMessage (qs_client (q_settings q)) url receiptHandle s of
                  (err, s') \<Rightarrow> (sqs_fail err, s')))"

definition Queue_ChangeVisibility :: "'q queue \<Rightarrow> string \<Rightarrow> duration \<Rightarrow> 'q \<Rightarrow> go_error option \<times> 'q" where
  "Queue_ChangeVisibility q receiptHandle dur s =
     (case queue_resolved q of
        Inl err \<Rightarrow> (Some err, s)
      | Inr url \<Rightarrow>
          if receiptHandle = [] then (Some (AsUnretryable (Wrapped [])), s)
          else if dur < 0 \<or> dur > maxVisibilityTimeout then (Some (AsUnretryable (Wrapped [])), s)
          else if dur mod Second \<noteq> 0 then (Some (AsUnretryable (Wrapped [])), s)
          else (case cl_ChangeMessageVisibility (qs_client (q_settings q)) url receiptHandle (sqs_seconds dur) s of
                  (err, s') \<Rightarrow> (sqs_fail err, s')))"

definition Queue_Release :: "'q queue \<Rightarrow> string \<Rightarrow> 'q \<Rightarrow> go_error option \<times> 'q" where
  "Queue_Release q receiptHandle s = Queue_ChangeVisibility q receiptHandle 0 s"

record 'q queue_health =
  qh_queue :: "'q queue"
  qh_timeout :: duration

definition NewHealth :: "'q queue option \<Rightarrow> duration \<Rightarrow> 'q queue_health eres" where
  "NewHealth q timeout =
     (case q of
        None \<Rightarrow> Inl (Wrapped [])
      | Some q \<Rightarrow> if timeout \<le> 0 then Inl (Wrapped []) else Inr \<lparr>qh_queue = q, qh_timeout = timeout\<rparr>)"

definition Health_Ready :: "'q queue_health \<Rightarrow> 'q \<Rightarrow> go_error option" where
  "Health_Ready h s =
     (case queue_resolved (qh_queue h) of
        Inl err \<Rightarrow> Some err
      | Inr url \<Rightarrow>
          sqs_fail (cl_GetQueueAttributes (qs_client (q_settings (qh_queue h))) url [''QueueArn''] s))"

section \<open>Facts\<close>

lemma sqs_fail_Some [simp]: "sqs_fail (Some e) = Some (sqs_failed e)"
  by (simp add: sqs_fail_def)

lemma class_of_As [simp]:
  "class_of (AsRetryable (Wrapped es)) = Retryable"
  "class_of (AsUnretryable (Wrapped es)) = Unretryable"
  by (simp_all add: AsRetryable_def AsUnretryable_def isClassified_def)

lemma decode_encode_attributes [simp]: "decodeAttributes (encodeAttributes attributes) = attributes"
proof -
  have "List.map_filter (\<lambda>(name, value). map_option (Pair name) (StringValue value))
      (map (\<lambda>(name, value). (name, \<lparr>DataType = Some stringType, StringValue = Some value\<rparr>)) as) = as" for as :: attributes
    by (induction as) (auto simp: List.map_filter_simps)
  then show ?thesis by (auto simp: decodeAttributes_def encodeAttributes_def List.map_filter_simps)
qed

lemma checkAttributes_loop_iff:
  "checkAttributes_loop as = Inr () \<longleftrightarrow> (\<forall>(name, value) \<in> set as. checkAttributeName name = Inr () \<and> value \<noteq> [])"
  by (induction as rule: checkAttributes_loop.induct) (auto split: sum.split)

lemma sint_sqs_seconds:
  assumes "0 \<le> d" "d \<le> maxVisibilityTimeout"
  shows "sint (sqs_seconds d) = d div Second"
proof -
  have "d div Second \<le> maxVisibilityTimeout div Second"
    by (rule zdiv_mono1 [OF assms(2)]) (simp add: Second_def)
  then have "0 \<le> d div Second \<and> d div Second \<le> 43200"
    using assms(1) by (simp add: sqs_bounds pos_imp_zdiv_nonneg_iff)
  then show ?thesis
    by (simp add: sqs_seconds_def signed_of_int signed_take_bit_int_eq_self)
qed

lemma receiveCount_pos: "1 \<le> receiveCount attributes"
  by (simp add: receiveCount_def split: option.split sum.split)

end
