(* ===== verification/Workers.thy ===== *)
theory Workers
  imports Backoff Sqs
begin

text \<open>
  What the three worker loops share (\<^verbatim>\<open>src/internal/workers/backoff.go\<close>, and the helpers of
  \<^verbatim>\<open>consumer.go\<close> and \<^verbatim>\<open>trace.go\<close>): the delay before work is looked at again, whole seconds, defaults, and the
  started and stopped flags of a worker. Instants and durations count nanoseconds.
\<close>

section \<open>Backoff\<close>

type_synonym worker_backoff = backoff_policy

definition zero_backoff :: worker_backoff where
  "zero_backoff = \<lparr>bo_Initial = 0, bo_Factor = Num 0, bo_Max = 0\<rparr>"

definition worker_backoff_validate :: "worker_backoff \<Rightarrow> unit eres" where
  "worker_backoff_validate b =
     (if bo_Initial b \<le> 0 then Inl (Wrapped [])
      else if bo_Factor b = NaN then Inl (Wrapped [])
      else if float_less (bo_Factor b) (Num 1) then Inl (Wrapped [])
      else if bo_Max b < bo_Initial b then Inl (Wrapped [])
      else Inr ())"

definition float_ge :: "float64 \<Rightarrow> float64 \<Rightarrow> bool" where
  "float_ge x y \<longleftrightarrow> x \<noteq> NaN \<and> y \<noteq> NaN \<and> \<not> float_less x y"

definition backoff_after :: "float_arith \<Rightarrow> worker_backoff \<Rightarrow> int \<Rightarrow> duration" where
  "backoff_after fa b attempt =
     (let delay = float_mul fa (fa_round fa (of_int (bo_Initial b)))
                    (fa_pow fa (bo_Factor b) (max attempt 1 - 1))
      in if float_ge delay (fa_round fa (of_int (bo_Max b))) then bo_Max b else Duration_of fa delay)"

text \<open>\<^verbatim>\<open>Truncate\<close> rounds towards zero to a multiple; past one second there is nothing negative here.\<close>

definition wholeSeconds :: "duration \<Rightarrow> duration" where
  "wholeSeconds d =
     (if d \<le> Second then Second
      else (d + Second - 1) - (d + Second - 1) mod Second)"

definition orDefault :: "int \<Rightarrow> int \<Rightarrow> int" where
  "orDefault v fallback = (if v = 0 then fallback else v)"

definition orDefaultDuration :: "duration \<Rightarrow> duration \<Rightarrow> duration" where
  "orDefaultDuration v fallback = (if v = 0 then fallback else v)"

definition defaultDrainTimeout :: duration where "defaultDrainTimeout = 20 * Second"
definition releaseBudget :: duration where "releaseBudget = 10 * Second"

text \<open>The attributes trace context rides in beside a body (\<^verbatim>\<open>trace.go\<close>).\<close>

definition correlationAttribute :: string where "correlationAttribute = ''correlationId''"
definition causationAttribute :: string where "causationAttribute = ''causationId''"

section \<open>Starting and stopping\<close>

text \<open>The flags a worker guards with its mutex, and what its \<^verbatim>\<open>Start\<close> and \<^verbatim>\<open>Stop\<close> make of them.\<close>

record lifecycle =
  lc_started :: bool
  lc_stopped :: bool

definition new_lifecycle :: lifecycle where
  "new_lifecycle = \<lparr>lc_started = False, lc_stopped = False\<rparr>"

definition begin_start :: "lifecycle \<Rightarrow> unit eres \<times> lifecycle" where
  "begin_start lc =
     (if lc_stopped lc then (Inl (Wrapped []), lc)
      else if lc_started lc then (Inl (Wrapped []), lc)
      else (Inr (), lc\<lparr>lc_started := True\<rparr>))"

text \<open>Whether this call is the one that stops the worker.\<close>

definition begin_stop :: "lifecycle \<Rightarrow> bool \<times> lifecycle" where
  "begin_stop lc =
     (if \<not> lc_started lc \<or> lc_stopped lc then (False, lc) else (True, lc\<lparr>lc_stopped := True\<rparr>))"

section \<open>Facts\<close>

lemma worker_backoff_validD:
  assumes "worker_backoff_validate b = Inr ()"
  shows "0 < bo_Initial b" "bo_Factor b \<noteq> NaN" "\<not> float_less (bo_Factor b) (Num 1)" "bo_Initial b \<le> bo_Max b"
  using assms by (auto simp: worker_backoff_validate_def split: if_splits)

lemma worker_backoff_valid_iff: "worker_backoff_validate b = Inr () \<longleftrightarrow> backoff_validate b = Inr ()"
  by (simp add: worker_backoff_validate_def backoff_validate_def)

lemma backoff_after_between:
  assumes "arith_ok fa" "worker_backoff_validate b = Inr ()" "bo_Max b \<le> 2 ^ 53"
  shows "bo_Initial b \<le> backoff_after fa b n \<and> backoff_after fa b n \<le> bo_Max b"
proof -
  note v = worker_backoff_validD [OF assms(2)]
  have small: "x \<in> int64_range" if "0 < i" "i \<le> x" "x \<le> m" "m \<le> 2 ^ 53" for i x m :: int
    using that by (simp add: int64_range_def)
  let ?d = "float_mul fa (fa_round fa (of_int (bo_Initial b))) (fa_pow fa (bo_Factor b) (max n 1 - 1))"
  have mx: "fa_round fa (of_int (bo_Max b)) = Num (of_int (bo_Max b))"
    using arith_exact [OF assms(1) _ assms(3)] v by simp
  have "backoff_validate b = Inr ()" using assms(2) worker_backoff_valid_iff by simp
  moreover have "bo_Initial b \<le> 2 ^ 53" "0 \<le> max n 1 - 1" using v(4) assms(3) by linarith+
  ultimately consider "?d = PosInf" | y where "?d = Num y" "of_int (bo_Initial b) \<le> y"
    using scaled_at_least [OF assms(1)] by blast
  then show ?thesis
  proof cases
    case 1
    with mx v show ?thesis by (simp add: backoff_after_def float_ge_def)
  next
    case 2
    show ?thesis
    proof (cases "y < of_int (bo_Max b)")
      case True
      have "0 \<le> y" using 2(2) v(1) by (meson of_int_0_le_iff less_imp_le order_trans)
      moreover have "bo_Initial b \<le> \<lfloor>y\<rfloor>" using 2(2) by (simp add: le_floor_iff)
      moreover have "\<lfloor>y\<rfloor> \<le> bo_Max b" using True by (simp add: floor_le_iff)
      moreover have "\<lfloor>y\<rfloor> \<in> int64_range" by (rule small [OF v(1) calculation(2,3) assms(3)])
      ultimately show ?thesis using True 2(1) mx
        by (simp add: backoff_after_def float_ge_def Duration_of_def Let_def)
    next
      case False
      with 2(1) mx v show ?thesis by (simp add: backoff_after_def float_ge_def)
    qed
  qed
qed

lemma wholeSeconds_props:
  shows "wholeSeconds d mod Second = 0" "Second \<le> wholeSeconds d" "d \<le> wholeSeconds d"
    "0 \<le> d \<Longrightarrow> wholeSeconds d < d + Second \<or> wholeSeconds d = Second"
proof -
  have s: "(0 :: int) < Second" by (simp add: Second_def)
  have m: "0 \<le> x mod Second" "x mod Second < Second" for x using s by simp_all
  show "wholeSeconds d mod Second = 0" by (simp add: wholeSeconds_def minus_mod_eq_mult_div)
  show "d \<le> wholeSeconds d" using m [of "d + Second - 1"] by (simp add: wholeSeconds_def)
  then show "Second \<le> wholeSeconds d" by (simp add: wholeSeconds_def split: if_splits)
  show "wholeSeconds d < d + Second \<or> wholeSeconds d = Second" if "0 \<le> d"
    using m [of "d + Second - 1"] by (auto simp: wholeSeconds_def)
qed

text \<open>A worker runs at most once, and does not run again once it was stopped.\<close>

inductive lifecycle_step :: "lifecycle \<Rightarrow> lifecycle \<Rightarrow> bool" where
  start: "begin_start lc = (r, lc') \<Longrightarrow> lifecycle_step lc lc'"
| stop: "begin_stop lc = (b, lc') \<Longrightarrow> lifecycle_step lc lc'"

lemma lifecycle_stopped_started:
  assumes "lifecycle_step\<^sup>*\<^sup>* new_lifecycle lc" "lc_stopped lc"
  shows "lc_started lc"
  using assms
proof (induction rule: rtranclp_induct)
  case (step lc lc')
  then show ?case
    by (auto simp: begin_start_def begin_stop_def elim!: lifecycle_step.cases split: if_splits)
qed (simp add: new_lifecycle_def)

lemma lifecycle_once:
  assumes "lifecycle_step\<^sup>*\<^sup>* lc lc'" "lc_started lc"
  shows "fst (begin_start lc') = Inl (Wrapped [])"
proof -
  have "lc_started lc'" using assms
    by (induction rule: rtranclp_induct)
      (auto simp: begin_start_def begin_stop_def elim!: lifecycle_step.cases split: if_splits)
  then show ?thesis by (simp add: begin_start_def)
qed

end
