(* ===== verification/SqsSend.thy ===== *)
theory SqsSend
  imports Sqs "HOL-Library.Sublist"
begin

text \<open>
  Sending a batch (\<^verbatim>\<open>src/internal/adapters/sqs/send.go\<close>): what is refused before it is sent, how
  messages are packed into calls, and how the outcome of each call is put back where it
  belongs. Results are positional.
\<close>

section \<open>Messages and results\<close>

definition maxBatchEntries :: nat where "maxBatchEntries = 10"
definition maxBatchBytes :: nat where "maxBatchBytes = 256 * 1024"
definition maxFifoIDBytes :: nat where "maxFifoIDBytes = 128"

record outbound =
  ob_Body :: string
  ob_GroupID :: string
  ob_DeduplicationID :: string
  ob_Attributes :: attributes

record send_result =
  sr_MessageID :: string
  sr_Err :: "go_error option"

definition Sent :: "send_result \<Rightarrow> bool" where
  "Sent r \<longleftrightarrow> sr_Err r = None"

record send_plan =
  p_index :: nat
  p_size :: nat
  p_entry :: send_entry

text \<open>The zero value of a result.\<close>

definition no_result :: send_result where
  "no_result = \<lparr>sr_MessageID = [], sr_Err = None\<rparr>"

definition outbound_entry :: "outbound \<Rightarrow> nat \<Rightarrow> (send_entry \<times> nat) eres" where
  "outbound_entry m index =
     (let weight = length (ob_Body m) + attributesSize (ob_Attributes m)
      in if ob_Body m = [] then Inl (AsUnretryable (Wrapped []))
         else if ob_GroupID m = [] then Inl (AsUnretryable (Wrapped []))
         else if length (ob_GroupID m) > maxFifoIDBytes then Inl (AsUnretryable (Wrapped []))
         else if ob_DeduplicationID m = [] then Inl (AsUnretryable (Wrapped []))
         else if length (ob_DeduplicationID m) > maxFifoIDBytes then Inl (AsUnretryable (Wrapped []))
         else if weight > maxBatchBytes then Inl (AsUnretryable (Wrapped []))
         else (case checkAttributes (ob_Attributes m) of
                 Inl err \<Rightarrow> Inl (AsUnretryable err)
               | Inr _ \<Rightarrow>
                   Inr (\<lparr>se_Id = show_nat index, se_MessageBody = ob_Body m,
                         se_MessageGroupId = ob_GroupID m,
                         se_MessageDeduplicationId = ob_DeduplicationID m,
                         se_MessageAttributes = encodeAttributes (ob_Attributes m)\<rparr>, weight)))"

section \<open>Packing\<close>

text \<open>The loop that checks each message, from position \<open>i\<close> on.\<close>

fun plan_messages :: "nat \<Rightarrow> outbound list \<Rightarrow> send_result list \<times> send_plan list" where
  "plan_messages i [] = ([], [])"
| "plan_messages i (m # ms) =
     (let (results, plans) = plan_messages (Suc i) ms
      in case outbound_entry m i of
           Inl err \<Rightarrow> (no_result\<lparr>sr_Err := Some err\<rparr> # results, plans)
         | Inr (entry, weight) \<Rightarrow>
             (no_result # results, \<lparr>p_index = i, p_size = weight, p_entry = entry\<rparr> # plans))"

fun chunk_loop :: "send_plan list \<Rightarrow> send_plan list \<Rightarrow> nat \<Rightarrow> send_plan list list" where
  "chunk_loop [] current weight = (if current \<noteq> [] then [current] else [])"
| "chunk_loop (p # ps) current weight =
     (let full = (length current = maxBatchEntries \<or> weight + p_size p > maxBatchBytes)
      in if full \<and> current \<noteq> []
         then current # chunk_loop ps [p] (p_size p)
         else chunk_loop ps (current @ [p]) (weight + p_size p))"

definition chunk :: "send_plan list \<Rightarrow> send_plan list list" where
  "chunk plans = chunk_loop plans [] 0"

definition entriesOf :: "send_plan list \<Rightarrow> send_entry list" where
  "entriesOf batch = map p_entry batch"

section \<open>Outcomes\<close>

definition set_err :: "nat \<Rightarrow> go_error \<Rightarrow> send_result list \<Rightarrow> send_result list" where
  "set_err i err results = results[i := (results ! i)\<lparr>sr_Err := Some err\<rparr>]"

text \<open>Only this batch's own positions are accepted.\<close>

definition mine :: "send_plan list \<Rightarrow> string option \<Rightarrow> nat option" where
  "mine batch raw =
     (case ParseInt (ToString raw) of
        Inl _ \<Rightarrow> None
      | Inr index \<Rightarrow>
          if 0 \<le> sint index \<and> nat (sint index) \<in> p_index ` set batch then Some (nat (sint index)) else None)"

definition record_success ::
  "send_plan list \<Rightarrow> batch_success \<Rightarrow> send_result list \<times> nat list \<Rightarrow> send_result list \<times> nat list" where
  "record_success batch ok acc =
     (case mine batch (bs_Id ok) of
        None \<Rightarrow> acc
      | Some i \<Rightarrow>
          ((fst acc)[i := \<lparr>sr_MessageID = ToString (bs_MessageId ok), sr_Err = None\<rparr>], i # snd acc))"

definition record_refusal ::
  "send_plan list \<Rightarrow> batch_refusal \<Rightarrow> send_result list \<times> nat list \<Rightarrow> send_result list \<times> nat list" where
  "record_refusal batch refused acc =
     (case mine batch (br_Id refused) of
        None \<Rightarrow> acc
      | Some i \<Rightarrow>
          ((fst acc)[i := \<lparr>sr_MessageID = [],
              sr_Err = Some (entryFailure (ToString (br_Code refused)) (ToString (br_Message refused))
                               (br_SenderFault refused))\<rparr>], i # snd acc))"

definition record_outcomes :: "send_result list \<Rightarrow> send_plan list \<Rightarrow> send_output \<Rightarrow> send_result list" where
  "record_outcomes results batch sent =
     (let (results, answered) =
            fold (record_refusal batch) (Failed_entries sent)
              (fold (record_success batch) (Successful sent) (results, []))
      in fold (\<lambda>p results. if p_index p \<in> set answered then results
                 else set_err (p_index p) (AsRetryable (Wrapped [])) results) batch results)"

definition fail_batch :: "go_error \<Rightarrow> send_plan list \<Rightarrow> send_result list \<Rightarrow> send_result list" where
  "fail_batch failure batch results = fold (\<lambda>p. set_err (p_index p) failure) batch results"

definition send_abort :: "send_result list \<Rightarrow> send_plan list list \<Rightarrow> go_error \<Rightarrow> send_result list" where
  "send_abort results remaining cause =
     fold (fail_batch (AsRetryable (Wrapped [Sentinel ErrSendAborted, cause]))) remaining results"

section \<open>Sending\<close>

fun send_batches ::
  "'q sqs_client \<Rightarrow> string \<Rightarrow> send_plan list list \<Rightarrow> send_result list \<Rightarrow> 'q \<Rightarrow> send_result list \<times> 'q" where
  "send_batches client url [] results s = (results, s)"
| "send_batches client url (batch # rest) results s =
     (case cl_SendMessageBatch client url (entriesOf batch) s of
        (Inl err, s') \<Rightarrow>
          (let failure = sqs_failed err
           in (send_abort (fail_batch failure batch results) rest failure, s'))
      | (Inr sent, s') \<Rightarrow> send_batches client url rest (record_outcomes results batch sent) s')"

definition SendBatch :: "'q queue \<Rightarrow> outbound list \<Rightarrow> 'q \<Rightarrow> send_result list eres \<times> 'q" where
  "SendBatch q messages s =
     (if messages = [] then (Inr [], s)
      else (case queue_resolved q of
              Inl err \<Rightarrow> (Inl err, s)
            | Inr url \<Rightarrow>
                (let (results, plans) = plan_messages 0 messages;
                     (results, s') = send_batches (qs_client (q_settings q)) url (chunk plans) results s
                 in (Inr results, s'))))"

section \<open>Packing keeps everything, in order, within the bounds\<close>

abbreviation batch_weight :: "send_plan list \<Rightarrow> nat" where
  "batch_weight batch \<equiv> sum_list (map p_size batch)"

lemma chunk_loop_concat: "concat (chunk_loop ps current weight) = current @ ps"
  by (induction ps current weight rule: chunk_loop.induct) (auto simp: Let_def)

lemma concat_chunk [simp]: "concat (chunk plans) = plans"
  by (simp add: chunk_def chunk_loop_concat)

lemma chunk_loop_bounds:
  assumes "\<forall>p \<in> set ps. p_size p \<le> maxBatchBytes" "length current \<le> maxBatchEntries"
    "weight = batch_weight current" "weight \<le> maxBatchBytes"
  shows "\<forall>b \<in> set (chunk_loop ps current weight).
    b \<noteq> [] \<and> length b \<le> maxBatchEntries \<and> batch_weight b \<le> maxBatchBytes"
  using assms
proof (induction ps current weight rule: chunk_loop.induct)
  case (2 p ps current weight)
  let ?full = "length current = maxBatchEntries \<or> weight + p_size p > maxBatchBytes"
  show ?case
  proof (cases "?full \<and> current \<noteq> []")
    case True
    have "\<forall>b \<in> set (chunk_loop ps [p] (p_size p)).
        b \<noteq> [] \<and> length b \<le> maxBatchEntries \<and> batch_weight b \<le> maxBatchBytes"
      by (rule "2.IH"(1) [OF refl True]) (use "2.prems" in \<open>simp_all add: maxBatchEntries_def\<close>)
    with True "2.prems" show ?thesis by (simp add: Let_def)
  next
    case False
    then have fits: "length current < maxBatchEntries" "weight + p_size p \<le> maxBatchBytes"
      using "2.prems" by (cases "current = []"; auto simp: maxBatchEntries_def)+
    have "\<forall>b \<in> set (chunk_loop ps (current @ [p]) (weight + p_size p)).
        b \<noteq> [] \<and> length b \<le> maxBatchEntries \<and> batch_weight b \<le> maxBatchBytes"
      by (rule "2.IH"(2) [OF refl False]) (use "2.prems" fits in simp_all)
    with False show ?thesis by (simp only: chunk_loop.simps Let_def if_False)
  qed
qed auto

lemma chunk_bounds:
  assumes "\<forall>p \<in> set plans. p_size p \<le> maxBatchBytes" "b \<in> set (chunk plans)"
  shows "b \<noteq> []" "length b \<le> maxBatchEntries" "batch_weight b \<le> maxBatchBytes"
  using chunk_loop_bounds [OF assms(1), of "[]" 0] assms(2) by (auto simp: chunk_def maxBatchEntries_def)

section \<open>The plan of a send\<close>

definition planned :: "nat \<times> outbound \<Rightarrow> send_plan list" where
  "planned im =
     (case outbound_entry (snd im) (fst im) of
        Inl err \<Rightarrow> [] | Inr (e, w) \<Rightarrow> [\<lparr>p_index = fst im, p_size = w, p_entry = e\<rparr>])"

definition refused_at :: "nat \<times> outbound \<Rightarrow> send_result" where
  "refused_at im =
     (case outbound_entry (snd im) (fst im) of
        Inl err \<Rightarrow> no_result\<lparr>sr_Err := Some err\<rparr> | Inr _ \<Rightarrow> no_result)"

lemma plan_messages_eq:
  "plan_messages i ms = (map refused_at (enumerate i ms), concat (map planned (enumerate i ms)))"
  by (induction i ms rule: plan_messages.induct)
    (auto simp: planned_def refused_at_def Let_def split: sum.split prod.split)

lemma outbound_entry_InrD:
  assumes "outbound_entry m i = Inr (e, w)"
  shows "se_Id e = show_nat i" "se_MessageBody e = ob_Body m" "se_MessageGroupId e = ob_GroupID m"
    "se_MessageDeduplicationId e = ob_DeduplicationID m" "w \<le> maxBatchBytes"
    "w = length (ob_Body m) + attributesSize (ob_Attributes m)"
    "decodeAttributes (se_MessageAttributes e) = ob_Attributes m"
  using assms by (auto simp: outbound_entry_def Let_def split: if_splits sum.splits)

lemma outbound_entry_limits:
  "outbound_entry m i = Inr (e, w) \<Longrightarrow> se_MessageBody e \<noteq> []
     \<and> se_MessageGroupId e \<noteq> [] \<and> length (se_MessageGroupId e) \<le> maxFifoIDBytes
     \<and> se_MessageDeduplicationId e \<noteq> [] \<and> length (se_MessageDeduplicationId e) \<le> maxFifoIDBytes
     \<and> checkAttributes (decodeAttributes (se_MessageAttributes e)) = Inr ()"
  by (auto simp: outbound_entry_def Let_def split: if_splits sum.splits)

lemma plannedD:
  assumes "p \<in> set (concat (map planned (enumerate i ms)))"
  shows "i \<le> p_index p" "p_index p < i + length ms"
    "outbound_entry (ms ! (p_index p - i)) (p_index p) = Inr (p_entry p, p_size p)"
  using assms by (auto simp: planned_def in_set_enumerate_eq split: sum.splits)

lemma planned_index_sorted:
  "sorted_wrt (<) (map p_index (concat (map planned (enumerate i ms))))"
proof (induction ms arbitrary: i)
  case (Cons m ms)
  have "\<forall>p \<in> set (concat (map planned (enumerate (Suc i) ms))). i < p_index p"
    using plannedD(1) Suc_le_eq by blast
  then show ?case using Cons.IH [of "Suc i"]
    by (auto simp: planned_def sorted_wrt_append split: sum.split)
qed simp

abbreviation entry_view :: "send_entry \<Rightarrow> string \<times> string \<times> string \<times> attributes" where
  "entry_view e \<equiv> (se_MessageGroupId e, se_MessageDeduplicationId e, se_MessageBody e,
     decodeAttributes (se_MessageAttributes e))"

abbreviation message_view :: "outbound \<Rightarrow> string \<times> string \<times> string \<times> attributes" where
  "message_view m \<equiv> (ob_GroupID m, ob_DeduplicationID m, ob_Body m, ob_Attributes m)"

text \<open>What the service takes of a message, and the only messages a send puts in a call.\<close>

definition acceptable :: "outbound \<Rightarrow> bool" where
  "acceptable m \<longleftrightarrow>
     ob_Body m \<noteq> [] \<and> ob_GroupID m \<noteq> [] \<and> length (ob_GroupID m) \<le> 128
     \<and> ob_DeduplicationID m \<noteq> [] \<and> length (ob_DeduplicationID m) \<le> 128
     \<and> length (ob_Body m) + attributesSize (ob_Attributes m) \<le> 256 * 1024
     \<and> checkAttributes (ob_Attributes m) = Inr ()"

lemma outbound_entry_acceptable: "(\<exists>x. outbound_entry m i = Inr x) \<longleftrightarrow> acceptable m"
  by (auto simp: outbound_entry_def acceptable_def maxFifoIDBytes_def maxBatchBytes_def Let_def split: sum.splits)

lemma outbound_entry_refused:
  assumes "\<not> acceptable m"
  shows "\<exists>c. outbound_entry m i = Inl (AsUnretryable c)"
proof -
  obtain err where err: "outbound_entry m i = Inl err"
    using assms outbound_entry_acceptable [of m i] by (cases "outbound_entry m i") auto
  then show ?thesis by (auto simp: outbound_entry_def Let_def split: if_splits sum.splits)
qed

lemma planned_accepted:
  "map entry_view (entriesOf (concat (map planned (enumerate i ms)))) = map message_view (filter acceptable ms)"
proof (induction ms arbitrary: i)
  case (Cons m ms)
  show ?case
  proof (cases "outbound_entry m i")
    case (Inl err)
    then have "\<not> acceptable m" using outbound_entry_acceptable [of m i] by auto
    with Inl Cons.IH [of "Suc i"] show ?thesis by (simp add: planned_def)
  next
    case (Inr ew)
    then obtain e w where ew: "outbound_entry m i = Inr (e, w)" by (cases ew) auto
    then have "acceptable m" using outbound_entry_acceptable [of m i] by blast
    with Cons.IH [of "Suc i"] ew outbound_entry_InrD [OF ew] show ?thesis
      by (simp add: planned_def entriesOf_def)
  qed
qed (simp add: entriesOf_def)

section \<open>The outcome of a call\<close>

lemma length_set_err [simp]: "length (set_err i err rs) = length rs"
  by (simp add: set_err_def)

lemma nth_set_err: "j < length rs \<Longrightarrow> set_err i err rs ! j = (if i = j then (rs ! j)\<lparr>sr_Err := Some err\<rparr> else rs ! j)"
  by (auto simp: set_err_def nth_list_update)

lemma length_fold_set_err [simp]:
  "length (fold (\<lambda>p rs. if P p then rs else set_err (p_index p) err rs) batch rs) = length rs"
  by (induction batch arbitrary: rs) auto

lemma fold_set_err:
  assumes "j < length rs"
  shows "fold (\<lambda>p rs. if P p then rs else set_err (p_index p) err rs) batch rs ! j
     = (if \<exists>p \<in> set batch. \<not> P p \<and> p_index p = j then (rs ! j)\<lparr>sr_Err := Some err\<rparr> else rs ! j)"
  using assms
proof (induction batch arbitrary: rs)
  case (Cons p batch)
  then show ?case by (auto simp: nth_set_err)
qed simp

lemma fail_batch_eq: "fail_batch err batch rs = fold (\<lambda>p rs. if False then rs else set_err (p_index p) err rs) batch rs"
  by (simp add: fail_batch_def)

lemma length_fail_batch [simp]: "length (fail_batch err batch rs) = length rs"
  unfolding fail_batch_eq by (rule length_fold_set_err)

lemma fail_batch_nth:
  "j < length rs \<Longrightarrow> fail_batch err batch rs ! j
     = (if j \<in> p_index ` set batch then (rs ! j)\<lparr>sr_Err := Some err\<rparr> else rs ! j)"
  unfolding fail_batch_eq by (subst fold_set_err) auto

lemma length_send_abort [simp]: "length (send_abort rs batches err) = length rs"
  unfolding send_abort_def by (induction batches arbitrary: rs) auto

lemma send_abort_nth:
  "j < length rs \<Longrightarrow> send_abort rs batches err ! j
     = (if j \<in> p_index ` set (concat batches)
        then (rs ! j)\<lparr>sr_Err := Some (AsRetryable (Wrapped [Sentinel ErrSendAborted, err]))\<rparr> else rs ! j)"
  unfolding send_abort_def by (induction batches arbitrary: rs) (auto simp: fail_batch_nth)

lemma length_fold_success [simp]: "length (fst (fold (record_success batch) oks acc)) = length (fst acc)"
  by (induction oks arbitrary: acc) (auto simp: record_success_def split: option.split)

lemma length_fold_refusal [simp]: "length (fst (fold (record_refusal batch) rfs acc)) = length (fst acc)"
  by (induction rfs arbitrary: acc) (auto simp: record_refusal_def split: option.split)

lemma length_record_outcomes [simp]: "length (record_outcomes results batch sent) = length results"
  by (simp add: record_outcomes_def case_prod_beta)

lemma fold_success_nth:
  assumes "j < length (fst acc)"
  shows "set (snd (fold (record_success batch) oks acc))
      = {i. \<exists>ok \<in> set oks. mine batch (bs_Id ok) = Some i} \<union> set (snd acc)
    \<and> (if \<exists>ok \<in> set oks. mine batch (bs_Id ok) = Some j
       then Sent (fst (fold (record_success batch) oks acc) ! j)
       else fst (fold (record_success batch) oks acc) ! j = fst acc ! j)"
  using assms
proof (induction oks arbitrary: acc)
  case (Cons ok oks)
  let ?acc = "record_success batch ok acc"
  have "length (fst ?acc) = length (fst acc)"
    "set (snd ?acc) = {i. mine batch (bs_Id ok) = Some i} \<union> set (snd acc)"
    "if mine batch (bs_Id ok) = Some j then Sent (fst ?acc ! j) else fst ?acc ! j = fst acc ! j"
    using Cons.prems by (auto simp: record_success_def Sent_def split: option.split)
  with Cons.IH [of ?acc] Cons.prems show ?case by (auto split: if_splits)
qed simp

lemma fold_refusal_nth:
  assumes "j < length (fst acc)"
  shows "set (snd (fold (record_refusal batch) rfs acc))
      = {i. \<exists>rf \<in> set rfs. mine batch (br_Id rf) = Some i} \<union> set (snd acc)
    \<and> (if \<exists>rf \<in> set rfs. mine batch (br_Id rf) = Some j
       then \<not> Sent (fst (fold (record_refusal batch) rfs acc) ! j)
       else fst (fold (record_refusal batch) rfs acc) ! j = fst acc ! j)"
  using assms
proof (induction rfs arbitrary: acc)
  case (Cons rf rfs)
  let ?acc = "record_refusal batch rf acc"
  have "length (fst ?acc) = length (fst acc)"
    "set (snd ?acc) = {i. mine batch (br_Id rf) = Some i} \<union> set (snd acc)"
    "if mine batch (br_Id rf) = Some j then \<not> Sent (fst ?acc ! j) else fst ?acc ! j = fst acc ! j"
    using Cons.prems by (auto simp: record_refusal_def Sent_def split: option.split)
  with Cons.IH [of ?acc] Cons.prems show ?case by (auto split: if_splits)
qed simp

lemma mine_SomeD: "mine batch raw = Some i \<Longrightarrow> i \<in> p_index ` set batch"
  by (auto simp: mine_def split: sum.splits if_splits)

text \<open>Within a call, an entry counts as sent exactly when the service said so and did not say otherwise.\<close>

definition accepted_at :: "send_plan list \<Rightarrow> send_output \<Rightarrow> nat \<Rightarrow> bool" where
  "accepted_at batch sent j \<longleftrightarrow>
     (\<exists>ok \<in> set (Successful sent). mine batch (bs_Id ok) = Some j)
     \<and> \<not> (\<exists>rf \<in> set (Failed_entries sent). mine batch (br_Id rf) = Some j)"

lemma record_outcomes_nth:
  assumes "j < length rs"
  shows "j \<in> p_index ` set batch \<Longrightarrow> Sent (record_outcomes rs batch sent ! j) \<longleftrightarrow> accepted_at batch sent j"
    "j \<notin> p_index ` set batch \<Longrightarrow> record_outcomes rs batch sent ! j = rs ! j"
proof -
  let ?one = "fold (record_success batch) (Successful sent) (rs, [])"
  let ?two = "fold (record_refusal batch) (Failed_entries sent) ?one"
  let ?rest = "\<lambda>p rs. if p_index p \<in> set (snd ?two) then rs
      else set_err (p_index p) (AsRetryable (Wrapped [])) rs"
  have eq: "record_outcomes rs batch sent = fold ?rest batch (fst ?two)"
    by (simp add: record_outcomes_def case_prod_beta)
  note one = fold_success_nth [of j "(rs, [])" batch "Successful sent", simplified fst_conv snd_conv, OF assms]
  have j1: "j < length (fst ?one)" using assms by simp
  note two = fold_refusal_nth [OF j1, of batch "Failed_entries sent"]
  have j2: "j < length (fst ?two)" using j1 by simp
  note three = fold_set_err [OF j2, of "\<lambda>p. p_index p \<in> set (snd ?two)" "AsRetryable (Wrapped [])" batch]
  show "record_outcomes rs batch sent ! j = rs ! j" if "j \<notin> p_index ` set batch"
    unfolding eq using three one two that mine_SomeD by (auto split: if_splits)
  show "Sent (record_outcomes rs batch sent ! j) \<longleftrightarrow> accepted_at batch sent j" if "j \<in> p_index ` set batch"
    unfolding eq three accepted_at_def using one two that by (auto simp: Sent_def split: if_splits)
qed

section \<open>The contract of the service\<close>

text \<open>
  What the adapter relies on of a FIFO queue. \<open>wire\<close> is what the queue holds and has held, in
  the order it took it. A call, answered or not, adds some of its entries in the order of the
  request. An entry reported as successful is one of the request's, under the id it was given,
  and the queue has a message under its deduplication id: this one, or the one it took before.
\<close>

definition fifo_contract :: "'q sqs_client \<Rightarrow> ('q \<Rightarrow> send_entry list) \<Rightarrow> bool" where
  "fifo_contract client wire \<longleftrightarrow>
     (\<forall>url es s r s'. cl_SendMessageBatch client url es s = (r, s') \<longrightarrow>
        (\<exists>new. wire s' = wire s @ new \<and> subseq new es)
        \<and> (\<forall>sent. r = Inr sent \<longrightarrow>
             (\<forall>ok \<in> set (Successful sent). \<exists>e \<in> set es. bs_Id ok = Some (se_Id e)
                \<and> se_MessageDeduplicationId e \<in> se_MessageDeduplicationId ` set (wire s'))))"

lemma fifo_contractD:
  assumes "fifo_contract client wire" "cl_SendMessageBatch client url es s = (r, s')"
  shows "\<exists>new. wire s' = wire s @ new \<and> subseq new es"
    "r = Inr sent \<Longrightarrow> ok \<in> set (Successful sent) \<Longrightarrow> \<exists>e \<in> set es. bs_Id ok = Some (se_Id e)
       \<and> se_MessageDeduplicationId e \<in> se_MessageDeduplicationId ` set (wire s')"
  using assms unfolding fifo_contract_def by blast+

text \<open>The plans of a send: each entry is named by its position, and no two share one.\<close>

definition plans_ok :: "nat \<Rightarrow> send_plan list \<Rightarrow> bool" where
  "plans_ok n plans \<longleftrightarrow>
     distinct (map p_index plans) \<and> (\<forall>p \<in> set plans. p_index p < n \<and> se_Id (p_entry p) = show_nat (p_index p))"

lemma ParseInt_show_nat: "ParseInt (show_nat n) = (if n < 2 ^ 63 then Inr (of_nat n) else Inl ErrRange)"
  by (simp add: ParseInt_digits show_nat_digits dec_val_show_nat)

lemma sint_of_nat64: "n < 2 ^ 63 \<Longrightarrow> sint (of_nat n :: int64) = int n"
  using sint_word_of_int64 [of "int n"] by (simp add: int64_range_def)

lemma mine_show_nat:
  assumes "mine batch (Some (show_nat n)) = Some i"
  shows "i = n"
  using assms by (auto simp: mine_def ToString_def ParseInt_show_nat sint_of_nat64 split: if_splits)

lemma accepted_on_wire:
  assumes "fifo_contract client wire" "cl_SendMessageBatch client url (entriesOf batch) s = (Inr sent, s')"
    "plans_ok n batch" "p \<in> set batch" "accepted_at batch sent (p_index p)"
  shows "se_MessageDeduplicationId (p_entry p) \<in> se_MessageDeduplicationId ` set (wire s')"
proof -
  from assms(5) obtain ok where ok: "ok \<in> set (Successful sent)" "mine batch (bs_Id ok) = Some (p_index p)"
    by (auto simp: accepted_at_def)
  from fifo_contractD(2) [OF assms(1,2) refl ok(1)] obtain p' where p': "p' \<in> set batch"
    "bs_Id ok = Some (se_Id (p_entry p'))"
    "se_MessageDeduplicationId (p_entry p') \<in> se_MessageDeduplicationId ` set (wire s')"
    by (auto simp: entriesOf_def)
  have "p_index p = p_index p'"
    using ok(2) p'(1,2) assms(3) by (auto simp: plans_ok_def intro: mine_show_nat)
  then have "p = p'"
    using assms(3,4) p'(1) by (auto simp: plans_ok_def distinct_map inj_on_def)
  with p'(3) show ?thesis by simp
qed

lemma send_batches_ok:
  assumes "fifo_contract client wire" "plans_ok (length results) (concat batches)"
    "send_batches client url batches results s = (results', s')"
  shows "length results' = length results
    \<and> (\<exists>new. wire s' = wire s @ new \<and> subseq new (entriesOf (concat batches)))
    \<and> (\<forall>j < length results. j \<notin> p_index ` set (concat batches) \<longrightarrow> results' ! j = results ! j)
    \<and> (\<forall>p \<in> set (concat batches). Sent (results' ! p_index p) \<longrightarrow>
         se_MessageDeduplicationId (p_entry p) \<in> se_MessageDeduplicationId ` set (wire s'))"
  using assms(2,3)
proof (induction batches arbitrary: results s)
  case (Cons batch rest)
  let ?dedup = "se_MessageDeduplicationId"
  have ok: "plans_ok (length results) batch" "plans_ok (length results) (concat rest)"
    "p_index ` set batch \<inter> p_index ` set (concat rest) = {}"
    using Cons.prems(1) by (auto simp: plans_ok_def)
  obtain r s1 where call: "cl_SendMessageBatch client url (entriesOf batch) s = (r, s1)"
    by (cases "cl_SendMessageBatch client url (entriesOf batch) s") auto
  obtain new where new: "wire s1 = wire s @ new" "subseq new (entriesOf batch)"
    using fifo_contractD(1) [OF assms(1) call] by blast
  have index: "p_index p < length results" if "p \<in> set batch \<union> set (concat rest)" for p
    using that ok(1,2) by (auto simp: plans_ok_def)
  show ?case
  proof (cases r)
    case (Inl err)
    let ?mid = "fail_batch (sqs_failed err) batch results"
    have eq: "results' = send_abort ?mid rest (sqs_failed err)" "s' = s1"
      using Cons.prems(2) call Inl by (auto simp: Let_def)
    have "\<not> Sent (results' ! p_index p)" if "p \<in> set batch \<union> set (concat rest)" for p
      using index [OF that] that by (auto simp: eq(1) send_abort_nth fail_batch_nth Sent_def)
    moreover have "results' ! j = results ! j"
      if "j < length results" "j \<notin> p_index ` set (concat (batch # rest))" for j
      using that by (auto simp: eq(1) send_abort_nth fail_batch_nth)
    moreover have "subseq new (entriesOf (concat (batch # rest)))"
      using new(2) by (simp add: entriesOf_def subseq_rev_drop_many)
    ultimately show ?thesis using new(1) eq by auto
  next
    case (Inr sent)
    let ?mid = "record_outcomes results batch sent"
    have "send_batches client url rest ?mid s1 = (results', s')"
      using Cons.prems(2) call Inr by simp
    note IH = Cons.IH [OF _ this, unfolded length_record_outcomes, OF ok(2)]
    then obtain more where more: "wire s' = wire s1 @ more" "subseq more (entriesOf (concat rest))" by blast
    have "subseq (new @ more) (entriesOf (concat (batch # rest)))"
      using list_emb_append_mono [OF new(2) more(2)] by (simp add: entriesOf_def)
    moreover have "results' ! j = results ! j"
      if "j < length results" "j \<notin> p_index ` set (concat (batch # rest))" for j
    proof -
      have "j \<notin> p_index ` set batch" "j \<notin> p_index ` set (concat rest)" using that(2) by auto
      with IH that(1) record_outcomes_nth(2) [OF that(1), of batch sent] show ?thesis by metis
    qed
    moreover have "?dedup (p_entry p) \<in> ?dedup ` set (wire s')" if "p \<in> set batch" "Sent (results' ! p_index p)" for p
    proof -
      have "results' ! p_index p = ?mid ! p_index p" using IH index [of p] ok(3) that(1) by auto
      with that have "accepted_at batch sent (p_index p)"
        using record_outcomes_nth(1) [of "p_index p" results batch sent] index [of p] by auto
      from accepted_on_wire [OF assms(1) call [unfolded Inr] ok(1) that(1) this] more(1)
      show ?thesis by auto
    qed
    ultimately show ?thesis using IH new(1) more(1) by auto
  qed
qed (simp add: entriesOf_def)

lemma SendBatch_InrE:
  assumes "SendBatch q messages s = (Inr results, s')" "messages \<noteq> []"
  obtains url where "q_url q = Some url"
    "send_batches (qs_client (q_settings q)) url (chunk (concat (map planned (enumerate 0 messages))))
       (map refused_at (enumerate 0 messages)) s = (results, s')"
  using assms
  by (auto simp: SendBatch_def plan_messages_eq queue_resolved_def split: prod.splits option.splits sum.splits)

lemma plans_ok_planned: "plans_ok (length messages) (concat (map planned (enumerate 0 messages)))"
proof -
  have "distinct (map p_index (concat (map planned (enumerate 0 messages))))"
    using planned_index_sorted [of 0 messages] strict_sorted_iff by blast
  moreover have "p_index p < length messages \<and> se_Id (p_entry p) = show_nat (p_index p)"
    if "p \<in> set (concat (map planned (enumerate 0 messages)))" for p
    using plannedD(2,3) [OF that] outbound_entry_InrD(1) by auto
  ultimately show ?thesis by (simp add: plans_ok_def)
qed

lemma planned_at: "j < length ms \<Longrightarrow> j \<in> p_index ` set (concat (map planned (enumerate 0 ms))) \<longleftrightarrow> acceptable (ms ! j)"
proof -
  assume j: "j < length ms"
  show ?thesis
  proof
    assume "j \<in> p_index ` set (concat (map planned (enumerate 0 ms)))"
    then obtain p where p: "p \<in> set (concat (map planned (enumerate 0 ms)))" "j = p_index p" by auto
    then show "acceptable (ms ! j)" using plannedD(3) [OF p(1)] outbound_entry_acceptable [of "ms ! j" j] by auto
  next
    assume "acceptable (ms ! j)"
    then obtain e w where "outbound_entry (ms ! j) j = Inr (e, w)"
      using outbound_entry_acceptable [of "ms ! j" j] by auto
    then have "\<lparr>p_index = j, p_size = w, p_entry = e\<rparr> \<in> set (planned (j, ms ! j))"
      by (simp add: planned_def)
    moreover have "(j, ms ! j) \<in> set (enumerate 0 ms)"
      using j by (simp add: in_set_enumerate_eq)
    ultimately have "\<lparr>p_index = j, p_size = w, p_entry = e\<rparr> \<in> set (concat (map planned (enumerate 0 ms)))"
      by (simp only: set_concat set_map) blast
    then show "j \<in> p_index ` set (concat (map planned (enumerate 0 ms)))" by (metis imageI send_plan.select_convs(1))
  qed
qed

lemma SendBatch_results:
  assumes "fifo_contract (qs_client (q_settings q)) wire" "SendBatch q messages s = (Inr results, s')"
  shows "length results = length messages"
    "\<exists>new. wire s' = wire s @ new \<and> subseq (map entry_view new) (map message_view (filter acceptable messages))"
    "j < length messages \<Longrightarrow> \<not> acceptable (messages ! j) \<Longrightarrow> \<exists>c. sr_Err (results ! j) = Some (AsUnretryable c)"
    "j < length messages \<Longrightarrow> Sent (results ! j) \<Longrightarrow> acceptable (messages ! j)
       \<and> ob_DeduplicationID (messages ! j) \<in> se_MessageDeduplicationId ` set (wire s')"
proof -
  let ?dedup = "se_MessageDeduplicationId"
  let ?plans = "concat (map planned (enumerate 0 messages))"
  have all: "length results = length messages
    \<and> (\<exists>new. wire s' = wire s @ new \<and> subseq (map entry_view new) (map message_view (filter acceptable messages)))
    \<and> (\<forall>j < length messages. (\<not> acceptable (messages ! j) \<longrightarrow> (\<exists>c. sr_Err (results ! j) = Some (AsUnretryable c)))
         \<and> (Sent (results ! j) \<longrightarrow> acceptable (messages ! j) \<and> ob_DeduplicationID (messages ! j) \<in> ?dedup ` set (wire s')))"
  proof (cases "messages = []")
    case False
    from SendBatch_InrE [OF assms(2) False] obtain url where
      run: "send_batches (qs_client (q_settings q)) url (chunk ?plans) (map refused_at (enumerate 0 messages)) s = (results, s')"
      by blast
    note ok = send_batches_ok [OF assms(1) _ run, simplified concat_chunk length_map length_enumerate, OF plans_ok_planned]
    then obtain new where new: "wire s' = wire s @ new" "subseq new (entriesOf ?plans)" by blast
    have sub: "subseq (map entry_view new) (map message_view (filter acceptable messages))"
      using subseq_map [OF new(2), of entry_view] unfolding planned_accepted .
    have refused: "\<exists>c. sr_Err (results ! j) = Some (AsUnretryable c)"
      if j: "j < length messages" "\<not> acceptable (messages ! j)" for j
    proof -
      obtain c where c: "outbound_entry (messages ! j) j = Inl (AsUnretryable c)"
        using outbound_entry_refused [OF j(2)] by blast
      have "results ! j = refused_at (j, messages ! j)"
        using ok j planned_at [OF j(1)] by (simp add: nth_enumerate_eq)
      with c have "sr_Err (results ! j) = Some (AsUnretryable c)" by (simp add: refused_at_def)
      then show ?thesis by blast
    qed
    have sent: "acceptable (messages ! j) \<and> ob_DeduplicationID (messages ! j) \<in> ?dedup ` set (wire s')"
      if j: "j < length messages" "Sent (results ! j)" for j
    proof -
      have acc: "acceptable (messages ! j)" using refused [OF j(1)] j(2) by (auto simp: Sent_def)
      with planned_at [OF j(1)] obtain p where p: "p \<in> set ?plans" "j = p_index p" by blast
      have "?dedup (p_entry p) \<in> ?dedup ` set (wire s')" using ok j p by blast
      with acc plannedD(3) [OF p(1)] outbound_entry_InrD(4) p(2) show ?thesis by auto
    qed
    show ?thesis using ok new(1) sub refused sent by blast
  qed (use assms(2) in \<open>auto simp: SendBatch_def intro: exI [of _ "[]"]\<close>)
  show "length results = length messages" using all by blast
  show "\<exists>new. wire s' = wire s @ new \<and> subseq (map entry_view new) (map message_view (filter acceptable messages))"
    using all by blast
  show "j < length messages \<Longrightarrow> \<not> acceptable (messages ! j) \<Longrightarrow> \<exists>c. sr_Err (results ! j) = Some (AsUnretryable c)"
    using all by blast
  show "j < length messages \<Longrightarrow> Sent (results ! j) \<Longrightarrow> acceptable (messages ! j)
       \<and> ob_DeduplicationID (messages ! j) \<in> ?dedup ` set (wire s')" using all by blast
qed

lemma SendBatch_ok:
  assumes "fifo_contract (qs_client (q_settings q)) wire" "SendBatch q messages s = (Inr results, s')"
  shows "length results = length messages
    \<and> (\<exists>new. wire s' = wire s @ new \<and> subseq (map entry_view new) (map message_view messages))
    \<and> (\<forall>j < length messages. Sent (results ! j) \<longrightarrow>
         ob_DeduplicationID (messages ! j) \<in> se_MessageDeduplicationId ` set (wire s'))"
proof -
  obtain new where new: "wire s' = wire s @ new"
    "subseq (map entry_view new) (map message_view (filter acceptable messages))"
    using SendBatch_results(2) [OF assms] by blast
  have "subseq (map entry_view new) (map message_view messages)"
    using new(2) subseq_map [OF subseq_filter_left] by (rule subseq_order.order_trans)
  with new(1) SendBatch_results(1,4) [OF assms] show ?thesis by blast
qed

section \<open>The calls a send makes\<close>

text \<open>
  To speak of the calls themselves, the client is wrapped: the wrapped one does what the client
  does and writes down the entries of every call to \<^verbatim>\<open>SendMessageBatch\<close>.
\<close>

definition recording :: "'q sqs_client \<Rightarrow> ('q \<times> send_entry list list) sqs_client" where
  "recording client =
     \<lparr>cl_GetQueueUrl = (\<lambda>name (s, calls). case cl_GetQueueUrl client name s of (r, s') \<Rightarrow> (r, s', calls)),
      cl_GetQueueAttributes = (\<lambda>url names (s, calls). cl_GetQueueAttributes client url names s),
      cl_SendMessageBatch = (\<lambda>url es (s, calls).
        case cl_SendMessageBatch client url es s of (r, s') \<Rightarrow> (r, s', calls @ [es])),
      cl_ReceiveMessage = (\<lambda>input (s, calls). case cl_ReceiveMessage client input s of (r, s') \<Rightarrow> (r, s', calls)),
      cl_DeleteMessage = (\<lambda>url handle (s, calls).
        case cl_DeleteMessage client url handle s of (r, s') \<Rightarrow> (r, s', calls)),
      cl_ChangeMessageVisibility = (\<lambda>url handle t (s, calls).
        case cl_ChangeMessageVisibility client url handle t s of (r, s') \<Rightarrow> (r, s', calls))\<rparr>"

definition recording_queue :: "'q queue \<Rightarrow> ('q \<times> send_entry list list) queue" where
  "recording_queue q =
     \<lparr>q_settings =
        \<lparr>qs_client = recording (qs_client (q_settings q)), qs_name = qs_name (q_settings q),
         qs_resolveTimeout = qs_resolveTimeout (q_settings q), qs_maxMessages = qs_maxMessages (q_settings q),
         qs_waitTime = qs_waitTime (q_settings q), qs_visibilityTimeout = qs_visibilityTimeout (q_settings q)\<rparr>,
      q_url = q_url q\<rparr>"

lemma recording_send [simp]:
  "cl_SendMessageBatch (recording client) url es (s, calls)
   = (fst (cl_SendMessageBatch client url es s), snd (cl_SendMessageBatch client url es s), calls @ [es])"
  by (simp add: recording_def case_prod_beta)

lemma recording_queue_simps [simp]:
  "qs_client (q_settings (recording_queue q)) = recording (qs_client (q_settings q))"
  "q_url (recording_queue q) = q_url q"
  by (simp_all add: recording_queue_def)

text \<open>A service that answers every call.\<close>

definition answers_all :: "'q sqs_client \<Rightarrow> bool" where
  "answers_all client \<longleftrightarrow> (\<forall>url es s. \<exists>sent s'. cl_SendMessageBatch client url es s = (Inr sent, s'))"

lemma send_batches_calls:
  assumes "send_batches (recording client) url batches results (s, calls) = (results', s', calls')"
  shows "send_batches client url batches results s = (results', s')
    \<and> (\<exists>k. calls' = calls @ map entriesOf (take k batches) \<and> (answers_all client \<longrightarrow> k = length batches))"
  using assms
proof (induction batches arbitrary: results s calls)
  case (Cons batch rest)
  obtain r s1 where call: "cl_SendMessageBatch client url (entriesOf batch) s = (r, s1)"
    by (cases "cl_SendMessageBatch client url (entriesOf batch) s")
  show ?case
  proof (cases r)
    case (Inl err)
    with call have "\<not> answers_all client" unfolding answers_all_def by (metis Inl_Inr_False prod.inject)
    with Cons.prems call Inl show ?thesis by (auto simp: Let_def intro!: exI [of _ 1])
  next
    case (Inr sent)
    with Cons.prems call have "send_batches (recording client) url rest (record_outcomes results batch sent)
        (s1, calls @ [entriesOf batch]) = (results', s', calls')" by simp
    from Cons.IH [OF this] obtain k where k: "send_batches client url rest (record_outcomes results batch sent) s1 = (results', s')"
      "calls' = (calls @ [entriesOf batch]) @ map entriesOf (take k rest)" "answers_all client \<longrightarrow> k = length rest"
      by blast
    then have "calls' = calls @ map entriesOf (take (Suc k) (batch # rest))
        \<and> (answers_all client \<longrightarrow> Suc k = length (batch # rest))" by simp
    moreover have "send_batches client url (batch # rest) results s = (results', s')" using k(1) call Inr by simp
    ultimately show ?thesis by blast
  qed
qed simp

lemma SendBatch_calls:
  assumes "SendBatch (recording_queue q) messages (s, []) = (outcome, s', calls)"
  shows "SendBatch q messages s = (outcome, s')
    \<and> (\<exists>k. calls = map entriesOf (take k (chunk (concat (map planned (enumerate 0 messages)))))
         \<and> (q_url q \<noteq> None \<and> answers_all (qs_client (q_settings q)) \<longrightarrow>
              k = length (chunk (concat (map planned (enumerate 0 messages))))))"
proof (cases "messages = [] \<or> q_url q = None")
  case True
  then show ?thesis
  proof (cases "messages = []")
    case True
    with assms show ?thesis by (auto simp: SendBatch_def chunk_def)
  next
    case False
    with True assms show ?thesis by (auto simp: SendBatch_def queue_resolved_def intro!: exI [of _ 0])
  qed
next
  case False
  then obtain url where url: "q_url q = Some url" by auto
  let ?chunks = "chunk (concat (map planned (enumerate 0 messages)))"
  let ?start = "map refused_at (enumerate 0 messages)"
  obtain results t' where run: "send_batches (recording (qs_client (q_settings q))) url ?chunks ?start (s, []) = (results, t')"
    by (cases "send_batches (recording (qs_client (q_settings q))) url ?chunks ?start (s, [])")
  with False url assms have eq: "outcome = Inr results" "t' = (s', calls)"
    by (auto simp: SendBatch_def queue_resolved_def plan_messages_eq)
  from send_batches_calls [OF run [unfolded eq(2)]] obtain k where
    "send_batches (qs_client (q_settings q)) url ?chunks ?start s = (results, s')"
    "calls = map entriesOf (take k ?chunks)" "answers_all (qs_client (q_settings q)) \<longrightarrow> k = length ?chunks" by auto
  with False url eq(1) show ?thesis by (auto simp: SendBatch_def queue_resolved_def plan_messages_eq)
qed

end
