(* ===== verification/Claims.thy ===== *)
theory Claims
  imports Statements
begin

text \<open>
  The publisher's side of the outbox (\<^verbatim>\<open>src/internal/adapters/postgres/publisher.go\<close>): taking
  a batch of due events under a claim that expires, recording a publication, putting an event
  back, and handing every claim back at shutdown. Each call is one statement on its own.

  A statement may also fail on the wire. Nobody then knows whether it ran, so a call takes
  what became of it: it was answered, it was lost before it ran, or it ran and the answer was
  lost.
\<close>

section \<open>Values\<close>

datatype delivery = Answered | Lost driver_error | Unanswered driver_error

record claimed_event =
  ce_EventID :: event_id
  ce_AggregateID :: wallet_id
  ce_AggregateSequence :: nat
  ce_EventType :: string
  ce_EventVersion :: int
  ce_Payload :: envelope
  ce_OccurredAt :: instant
  ce_Attempts :: int

record claim_request =
  cr_By :: string
  cr_Limit :: int
  cr_At :: instant
  cr_Hold :: duration

definition claim_validate :: "claim_request \<Rightarrow> unit eres" where
  "claim_validate r =
     (if cr_By r = [] then Inl (Wrapped [])
      else if cr_Limit r \<le> 0 then Inl (Wrapped [])
      else if cr_At r = zero_time then Inl (Wrapped [])
      else if cr_Hold r \<le> 0 then Inl (Wrapped [])
      else Inr ())"

text \<open>A pool that was never given is \<open>None\<close>.\<close>

definition NewOutboxClaims :: "unit option \<Rightarrow> unit eres" where
  "NewOutboxClaims pool = (case pool of None \<Rightarrow> Inl (Wrapped []) | Some p \<Rightarrow> Inr p)"

section \<open>Statements\<close>

definition delivered :: "delivery \<Rightarrow> ('a \<times> store) \<Rightarrow> store \<Rightarrow> 'a eres \<times> store" where
  "delivered d r st =
     (case d of
        Answered \<Rightarrow> (Inr (fst r), snd r)
      | Lost err \<Rightarrow> (Inl (pg_fail err), st)
      | Unanswered err \<Rightarrow> (Inl (pg_fail err), snd r))"

text \<open>An event nobody published, of the same wallet, with a lower number.\<close>

definition blocks :: "outbox_row \<Rightarrow> outbox_row \<Rightarrow> bool" where
  "blocks o' p \<longleftrightarrow>
     en_AggregateID (or_envelope p) = en_AggregateID (or_envelope o') \<and> or_publishedAt p = None
     \<and> or_aggregateSequence p < or_aggregateSequence o'"

definition claimable :: "instant \<Rightarrow> outbox_row list \<Rightarrow> outbox_row \<Rightarrow> bool" where
  "claimable now rows r \<longleftrightarrow>
     or_publishedAt r = None \<and> or_nextAttemptAt r \<le> micros now
     \<and> (case or_claimExpiresAt r of None \<Rightarrow> True | Some t \<Rightarrow> t \<le> micros now)
     \<and> \<not> list_ex (blocks r) rows"

text \<open>
  The rows one claim takes: due first, then in the order of the table, rows another publisher
  has locked at this moment skipped, up to the limit.
\<close>

definition claim_rows :: "(outbox_row \<Rightarrow> bool) \<Rightarrow> instant \<Rightarrow> int \<Rightarrow> outbox_row list \<Rightarrow> outbox_row list" where
  "claim_rows locked now limit rows =
     take (nat limit)
       (sort_key (\<lambda>r. (or_nextAttemptAt r, or_sequence r))
         (filter (\<lambda>r. claimable now rows r \<and> \<not> locked r) rows))"

definition taken :: "claim_request \<Rightarrow> outbox_row \<Rightarrow> outbox_row" where
  "taken req r =
     r\<lparr>or_claimedBy := Some (cr_By req), or_claimedAt := Some (micros (cr_At req)),
       or_claimExpiresAt := Some (micros (cr_At req + cr_Hold req)), or_attempts := or_attempts r + 1\<rparr>"

text \<open>
  The table refuses a row whose count of claims has run out of its four bytes, and a claim that
  runs out at the microsecond it is taken.
\<close>

definition maxInt32 :: int32 where
  "maxInt32 = 0x7FFFFFFF"

definition claim_refusal :: "claim_request \<Rightarrow> outbox_row \<Rightarrow> driver_error option" where
  "claim_refusal req r =
     (if or_attempts r = maxInt32 then Some OtherDriverError
      else if \<not> micros (cr_At req) < micros (cr_At req + cr_Hold req)
      then Some (check_violation ''outbox_claim_expires_after_it_is_taken'')
      else None)"

text \<open>When an event happened, as its column keeps it.\<close>

abbreviation or_occurredAt :: "outbox_row \<Rightarrow> timestamptz" where
  "or_occurredAt r \<equiv> micros (en_OccurredAt (or_envelope r))"

definition event_of :: "outbox_row \<Rightarrow> claimed_event" where
  "event_of r =
     \<lparr>ce_EventID = en_EventID (or_envelope r), ce_AggregateID = en_AggregateID (or_envelope r),
      ce_AggregateSequence = or_aggregateSequence r, ce_EventType = en_EventType (or_envelope r),
      ce_EventVersion = en_EventVersion (or_envelope r), ce_Payload = or_envelope r,
      ce_OccurredAt = instant_of (or_occurredAt r), ce_Attempts = sint (or_attempts r)\<rparr>"

definition row_event :: "outbox_row \<Rightarrow> event_id" where
  "row_event r = en_EventID (or_envelope r)"

definition update_events :: "(outbox_row \<Rightarrow> bool) \<Rightarrow> (outbox_row \<Rightarrow> outbox_row) \<Rightarrow> store \<Rightarrow> store" where
  "update_events hit f st = st\<lparr>db_outbox := map (\<lambda>r. if hit r then f r else r) (db_outbox st)\<rparr>"

text \<open>
  The order in which an update returns its rows is not specified: \<open>returned\<close> is whatever the
  server chose.
\<close>

definition claimOutbox ::
  "(outbox_row \<Rightarrow> bool) \<Rightarrow> (claimed_event list \<Rightarrow> claimed_event list) \<Rightarrow> claim_request \<Rightarrow> store
     \<Rightarrow> driver_error + claimed_event list \<times> store" where
  "claimOutbox locked returned req st =
     (let rows = claim_rows locked (cr_At req) (cr_Limit req) (db_outbox st);
          ids = map row_event rows
      in case first_some (map (claim_refusal req) rows) of
           Some err \<Rightarrow> Inl err
         | None \<Rightarrow>
             Inr (returned (map (\<lambda>r. event_of (taken req r)) rows),
               update_events (\<lambda>r. row_event r \<in> set ids) (taken req) st))"

definition Claim ::
  "delivery \<Rightarrow> (outbox_row \<Rightarrow> bool) \<Rightarrow> (claimed_event list \<Rightarrow> claimed_event list) \<Rightarrow> claim_request \<Rightarrow> store
     \<Rightarrow> claimed_event list eres \<times> store" where
  "Claim d locked returned req st =
     (case claim_validate req of
        Inl err \<Rightarrow> (Inl (AsUnretryable err), st)
      | Inr _ \<Rightarrow>
          (case claimOutbox locked returned req st of
             Inl err \<Rightarrow> (Inl (pg_fail err), st)
           | Inr r \<Rightarrow> delivered d r st))"

definition OldestUnpublished :: "delivery \<Rightarrow> store \<Rightarrow> (instant \<times> bool) eres" where
  "OldestUnpublished d st =
     (let waiting = filter (\<lambda>r. or_publishedAt r = None) (db_outbox st);
          oldest = (if waiting = [] then None
                    else Some (Min (set (map or_occurredAt waiting))))
      in fst (delivered d ((case oldest of None \<Rightarrow> (zero_time, False) | Some t \<Rightarrow> (instant_of t, True)), st) st))"

definition unclaimed :: "outbox_row \<Rightarrow> outbox_row" where
  "unclaimed r = r\<lparr>or_claimedBy := None, or_claimedAt := None, or_claimExpiresAt := None\<rparr>"

text \<open>Recording a publication: an event is not published before it happened.\<close>

definition markPublished :: "event_id \<Rightarrow> instant \<Rightarrow> store \<Rightarrow> driver_error + nat \<times> store" where
  "markPublished i now st =
     (let hit = (\<lambda>r. row_event r = i \<and> or_publishedAt r = None);
          rows = filter hit (db_outbox st)
      in if list_ex (\<lambda>r. micros now < or_occurredAt r) rows
         then Inl (check_violation ''outbox_published_after_it_occurred'')
         else Inr (length rows, update_events hit (\<lambda>r. unclaimed (r\<lparr>or_publishedAt := Some (micros now)\<rparr>)) st))"

definition MarkPublished :: "delivery \<Rightarrow> event_id \<Rightarrow> instant \<Rightarrow> store \<Rightarrow> bool eres \<times> store" where
  "MarkPublished d i now st =
     (case markPublished i now st of
        Inl err \<Rightarrow> (Inl (pg_fail err), st)
      | Inr (n, st') \<Rightarrow> delivered d (0 < n, st') st)"

definition rescheduleEvent :: "string \<Rightarrow> event_id \<Rightarrow> instant \<Rightarrow> store \<Rightarrow> nat \<times> store" where
  "rescheduleEvent by i now st =
     (let hit = (\<lambda>r. row_event r = i \<and> or_publishedAt r = None
                   \<and> (or_claimedBy r = Some by \<or> or_claimedBy r = None))
      in (length (filter hit (db_outbox st)),
          update_events hit (\<lambda>r. unclaimed (r\<lparr>or_nextAttemptAt := micros now\<rparr>)) st))"

definition Events_Reschedule :: "delivery \<Rightarrow> string \<Rightarrow> event_id \<Rightarrow> instant \<Rightarrow> store \<Rightarrow> bool eres \<times> store" where
  "Events_Reschedule d by i now st =
     (if by = [] then (Inl (AsUnretryable (Wrapped [])), st)
      else (let r = rescheduleEvent by i now st in delivered d (0 < fst r, snd r) st))"

definition releaseClaims :: "string \<Rightarrow> store \<Rightarrow> nat \<times> store" where
  "releaseClaims by st =
     (let hit = (\<lambda>r. or_claimedBy r = Some by \<and> or_publishedAt r = None)
      in (length (filter hit (db_outbox st)), update_events hit unclaimed st))"

definition ReleaseClaims :: "delivery \<Rightarrow> string \<Rightarrow> store \<Rightarrow> nat eres \<times> store" where
  "ReleaseClaims d by st =
     (if by = [] then (Inl (AsUnretryable (Wrapped [])), st)
      else delivered d (releaseClaims by st) st)"

section \<open>What the publisher's statements leave alone\<close>

text \<open>The columns of an event no statement of a publisher touches.\<close>

definition event_key :: "outbox_row \<Rightarrow> envelope \<times> nat \<times> nat" where
  "event_key r = (or_envelope r, or_sequence r, or_aggregateSequence r)"

abbreviation event_wallet :: "outbox_row \<Rightarrow> wallet_id" where
  "event_wallet r \<equiv> en_AggregateID (or_envelope r)"

lemma event_key_simps [simp]:
  "event_key (taken req r) = event_key r"
  "event_key (unclaimed r) = event_key r"
  "event_key (r\<lparr>or_publishedAt := p\<rparr>) = event_key r"
  "event_key (r\<lparr>or_nextAttemptAt := n\<rparr>) = event_key r"
  by (simp_all add: event_key_def taken_def unclaimed_def)

lemma event_key_eqD:
  assumes "event_key r = event_key r'"
  shows "or_envelope r = or_envelope r'" "or_sequence r = or_sequence r'"
    "or_aggregateSequence r = or_aggregateSequence r'" "row_event r = row_event r'"
  using assms by (simp_all add: event_key_def row_event_def)

text \<open>A store that differs from another in the progress of its publications only.\<close>

definition same_books :: "store \<Rightarrow> store \<Rightarrow> bool" where
  "same_books st st' \<longleftrightarrow>
     db_wallets st' = db_wallets st \<and> db_transactions st' = db_transactions st \<and> db_ledger st' = db_ledger st
     \<and> db_inbox st' = db_inbox st \<and> db_holds st' = db_holds st \<and> db_sequences st' = db_sequences st
     \<and> map event_key (db_outbox st') = map event_key (db_outbox st)"

lemma same_books_refl [simp]: "same_books st st"
  by (simp add: same_books_def)

lemma same_books_update:
  "(\<And>r. event_key (f r) = event_key r) \<Longrightarrow> same_books st (update_events hit f st)"
  by (simp add: same_books_def update_events_def)

lemma same_books_columns:
  assumes "same_books st st'"
  shows "map or_sequence (db_outbox st') = map or_sequence (db_outbox st)"
    "map row_event (db_outbox st') = map row_event (db_outbox st)"
    "map or_aggregateSequence (filter (\<lambda>r. event_wallet r = w) (db_outbox st'))
     = map or_aggregateSequence (filter (\<lambda>r. event_wallet r = w) (db_outbox st))"
proof -
  have keys: "map event_key (db_outbox st') = map event_key (db_outbox st)"
    using assms by (simp add: same_books_def)
  have "map g (map event_key (db_outbox st')) = map g (map event_key (db_outbox st))" for g :: "_ \<Rightarrow> 'a"
    by (simp only: keys)
  from this [of "\<lambda>k. fst (snd k)"] show "map or_sequence (db_outbox st') = map or_sequence (db_outbox st)"
    by (simp add: event_key_def comp_def)
  from arg_cong [OF keys, of "map (\<lambda>k. en_EventID (fst k))"]
  show "map row_event (db_outbox st') = map row_event (db_outbox st)"
    by (simp add: event_key_def row_event_def [abs_def] comp_def)
  from arg_cong [OF keys, of "\<lambda>ks. map (\<lambda>k. snd (snd k)) (filter (\<lambda>k. en_AggregateID (fst k) = w) ks)"]
  show "map or_aggregateSequence (filter (\<lambda>r. event_wallet r = w) (db_outbox st'))
     = map or_aggregateSequence (filter (\<lambda>r. event_wallet r = w) (db_outbox st))"
    by (simp add: event_key_def filter_map comp_def)
qed

lemma same_books_ok: "same_books st st' \<Longrightarrow> store_ok st \<Longrightarrow> store_ok st'"
proof -
  assume same: "same_books st st'" and ok: "store_ok st"
  have tables: "db_wallets st' = db_wallets st" "db_transactions st' = db_transactions st"
    "db_ledger st' = db_ledger st" "db_sequences st' = db_sequences st"
    using same by (simp_all add: same_books_def)
  have "length (db_outbox st') = length (db_outbox st)"
    using arg_cong [OF same_books_columns(1) [OF same], of length] by simp
  then have num: "outbox_numbered st' = outbox_numbered st"
    unfolding outbox_numbered_def row_event_def [abs_def, symmetric]
    by (simp only: same_books_columns [OF same] tables(4))
  from structure_ok_cong [OF tables(1,2,3) num] ok show "store_ok st'"
    using tables
    by (simp add: store_ok_def wallet_matches_ledger_def last_entry_def ledger_of_def)
qed

section \<open>What a claim takes\<close>

lemma claim_rows_set:
  assumes "r \<in> set (claim_rows locked now limit rows)"
  shows "r \<in> set rows" "claimable now rows r" "\<not> locked r"
  using in_set_takeD [OF assms [unfolded claim_rows_def]] by auto

lemma claim_rows_length: "length (claim_rows locked now limit rows) \<le> nat limit"
  by (simp add: claim_rows_def)

lemma claim_rows_distinct: "distinct rows \<Longrightarrow> distinct (claim_rows locked now limit rows)"
  by (simp add: claim_rows_def)

text \<open>Two events of one wallet in the outbox carry different numbers.\<close>

lemma numbered_unique:
  assumes "outbox_numbered st" "r \<in> set (db_outbox st)" "r' \<in> set (db_outbox st)"
    "event_wallet r = event_wallet r'" "or_aggregateSequence r = or_aggregateSequence r'"
  shows "r = r'"
proof -
  let ?of = "filter (\<lambda>x. event_wallet x = event_wallet r) (db_outbox st)"
  have "map or_aggregateSequence ?of = [1..<db_sequences st (event_wallet r) + 1]"
    using assms(1) by (simp add: outbox_numbered_def)
  then have "distinct (map or_aggregateSequence ?of)" by (metis distinct_upt)
  then have "inj_on or_aggregateSequence (set ?of)" by (simp add: distinct_map)
  with assms(2-5) show ?thesis by (auto simp: inj_on_def)
qed

lemma event_unique:
  assumes "outbox_numbered st" "r \<in> set (db_outbox st)" "r' \<in> set (db_outbox st)" "row_event r = row_event r'"
  shows "r = r'"
  using assms by (auto simp: outbox_numbered_def distinct_map inj_on_def row_event_def)

lemma claimable_unblocked:
  assumes "claimable now rows r" "p \<in> set rows" "event_wallet p = event_wallet r"
    "or_aggregateSequence p < or_aggregateSequence r"
  shows "or_publishedAt p \<noteq> None"
  using assms by (auto simp: claimable_def blocks_def list_ex_iff)

lemma claimable_one_per_wallet:
  assumes "outbox_numbered st" "r \<in> set (db_outbox st)" "r' \<in> set (db_outbox st)"
    "claimable now (db_outbox st) r" "claimable now (db_outbox st) r'" "event_wallet r = event_wallet r'"
  shows "r = r'"
proof (rule numbered_unique [OF assms(1-3,6)])
  have "\<not> or_aggregateSequence p < or_aggregateSequence q"
    if "p \<in> set (db_outbox st)" "claimable now (db_outbox st) p" "claimable now (db_outbox st) q"
      "event_wallet p = event_wallet q" for p q
    using claimable_unblocked [OF that(3,1,4)] that(2) by (auto simp: claimable_def)
  from this [of r r'] this [of r' r] assms show "or_aggregateSequence r = or_aggregateSequence r'"
    by simp
qed

lemma claim_rows_one_per_wallet:
  assumes "outbox_numbered st"
  shows "distinct (map event_wallet (claim_rows locked now limit (db_outbox st)))"
proof -
  have "distinct (db_outbox st)"
    using assms by (simp add: outbox_numbered_def distinct_map)
  then show ?thesis
    unfolding distinct_map
    by (auto simp: inj_on_def claim_rows_distinct dest: claim_rows_set
        intro!: claimable_one_per_wallet [OF assms])
qed

lemma event_of_simps [simp]:
  "ce_EventID (event_of (taken req r)) = row_event r"
  "ce_AggregateID (event_of (taken req r)) = event_wallet r"
  "ce_AggregateSequence (event_of (taken req r)) = or_aggregateSequence r"
  "ce_Payload (event_of (taken req r)) = or_envelope r"
  by (simp_all add: event_of_def taken_def row_event_def)

lemma claimOutbox_InrD:
  assumes "claimOutbox locked returned req st = Inr r"
  shows "fst r = returned (map (\<lambda>r. event_of (taken req r)) (claim_rows locked (cr_At req) (cr_Limit req) (db_outbox st)))"
    "snd r = update_events (\<lambda>r. row_event r \<in> row_event ` set (claim_rows locked (cr_At req) (cr_Limit req) (db_outbox st)))
       (taken req) st"
  using assms
  by (cases "first_some (map (claim_refusal req) (claim_rows locked (cr_At req) (cr_Limit req) (db_outbox st)))";
      auto simp: claimOutbox_def Let_def)+

lemma claimOutbox_same_books: "claimOutbox locked returned req st = Inr r \<Longrightarrow> same_books st (snd r)"
  by (simp add: claimOutbox_InrD(2) same_books_update)

lemma delivered_same_books:
  "same_books st (snd r) \<Longrightarrow> same_books st (snd (delivered d r st))"
  by (simp add: delivered_def split: delivery.split)

lemma Claim_same_books: "same_books st (snd (Claim d locked returned req st))"
  by (auto simp: Claim_def intro: claimOutbox_same_books delivered_same_books split: sum.split)

lemma MarkPublished_same_books: "same_books st (snd (MarkPublished d i now st))"
  by (auto simp: MarkPublished_def markPublished_def Let_def same_books_update
      intro!: delivered_same_books split: sum.split if_splits)

lemma Events_Reschedule_same_books: "same_books st (snd (Events_Reschedule d by i now st))"
  by (simp add: Events_Reschedule_def rescheduleEvent_def Let_def same_books_update delivered_same_books)

lemma ReleaseClaims_same_books: "same_books st (snd (ReleaseClaims d by st))"
  by (simp add: ReleaseClaims_def releaseClaims_def Let_def same_books_update delivered_same_books)

lemmas publisher_same_books =
  Claim_same_books MarkPublished_same_books Events_Reschedule_same_books ReleaseClaims_same_books

end
