(* ===== verification/Publishing.thy ===== *)
theory Publishing
  imports Workers SqsSend Claims
begin

text \<open>
  The outbox publisher (\<^verbatim>\<open>src/internal/workers/publisher.go\<close>): its configuration, one turn of its
  loop, the pace of the loop, and starting and stopping.

  A turn acts on the database and on the queue while others do. \<open>te_others k\<close> is whatever
  everybody else did to both between the statements of the turn: before the send, and before
  the write about each event. \<open>render\<close> is the document \<^verbatim>\<open>jsonb\<close> reads back for a stored
  envelope, and \<open>te_carried\<close> what the propagator injects for an event's span. Logging, counting
  and spans are left out.
\<close>

section \<open>Configuration\<close>

definition defaultClaimBatch :: int where "defaultClaimBatch = 10"
definition maxClaimBatch :: int where "maxClaimBatch = 10"
definition defaultClaimHold :: duration where "defaultClaimHold = 30 * Second"
definition defaultPollInterval :: duration where "defaultPollInterval = Second"

definition defaultPublisherBackoff :: worker_backoff where
  "defaultPublisherBackoff = \<lparr>bo_Initial = 2 * Second, bo_Factor = Num 2, bo_Max = 5 * 60 * Second\<rparr>"

text \<open>A dependency that was not given is \<open>None\<close>; the clock and the logger are only looked at for that.\<close>

record 'q publisher_config =
  pc_Outbox :: "unit option"
  pc_Queue :: "'q queue option"
  pc_Clock :: "unit option"
  pc_Name :: string
  pc_Batch :: int
  pc_Hold :: duration
  pc_Interval :: duration
  pc_Backoff :: worker_backoff
  pc_DrainTimeout :: duration
  pc_Logger :: "unit option"

record 'q publisher =
  pb_queue :: "'q queue"
  pb_name :: string
  pb_batch :: int
  pb_hold :: duration
  pb_interval :: duration
  pb_drain :: duration
  pb_backoff :: worker_backoff
  pb_lifecycle :: lifecycle

definition NewPublisher :: "'q publisher_config \<Rightarrow> 'q publisher eres" where
  "NewPublisher cfg =
     (if pc_Outbox cfg = None then Inl (Wrapped [])
      else (case pc_Queue cfg of
        None \<Rightarrow> Inl (Wrapped [])
      | Some queue \<Rightarrow>
          if pc_Clock cfg = None then Inl (Wrapped [])
          else if pc_Logger cfg = None then Inl (Wrapped [])
          else if pc_Name cfg = [] then Inl (Wrapped [])
          else if pc_Batch cfg < 0 then Inl (Wrapped [])
          else if pc_Hold cfg < 0 then Inl (Wrapped [])
          else if pc_Interval cfg < 0 then Inl (Wrapped [])
          else if pc_DrainTimeout cfg < 0 then Inl (Wrapped [])
          else if pc_Batch cfg > maxClaimBatch then Inl (Wrapped [])
          else (let backoff = (if pc_Backoff cfg = zero_backoff then defaultPublisherBackoff else pc_Backoff cfg)
                in case worker_backoff_validate backoff of
                     Inl err \<Rightarrow> Inl err
                   | Inr _ \<Rightarrow>
                       Inr \<lparr>pb_queue = queue, pb_name = pc_Name cfg,
                         pb_batch = orDefault (pc_Batch cfg) defaultClaimBatch,
                         pb_hold = orDefaultDuration (pc_Hold cfg) defaultClaimHold,
                         pb_interval = orDefaultDuration (pc_Interval cfg) defaultPollInterval,
                         pb_drain = orDefaultDuration (pc_DrainTimeout cfg) defaultDrainTimeout,
                         pb_backoff = backoff, pb_lifecycle = new_lifecycle\<rparr>)))"

section \<open>Messages\<close>

text \<open>The members of the stored envelope that also ride beside the body.\<close>

definition traceOf :: "envelope \<Rightarrow> attributes" where
  "traceOf env =
     (if en_CorrelationID env \<noteq> [] then [(correlationAttribute, en_CorrelationID env)] else [])
     @ (if en_CausationID env \<noteq> [] then [(causationAttribute, en_CausationID env)] else [])"

text \<open>The carried names win a collision.\<close>

definition besideTheBody :: "attributes \<Rightarrow> attributes \<Rightarrow> attributes" where
  "besideTheBody stored carried =
     (if stored = [] \<and> carried = [] then []
      else filter (\<lambda>(name, _). name \<notin> fst ` set carried) stored @ carried)"

definition outbound_of ::
  "(envelope \<Rightarrow> string) \<Rightarrow> (claimed_event \<Rightarrow> attributes) \<Rightarrow> claimed_event \<Rightarrow> outbound" where
  "outbound_of render carried event =
     \<lparr>ob_Body = render (ce_Payload event), ob_GroupID = uuid_String (ce_AggregateID event),
      ob_DeduplicationID = uuid_String (ce_EventID event),
      ob_Attributes = besideTheBody (traceOf (ce_Payload event)) (carried event)\<rparr>"

section \<open>A turn\<close>

record 'q world =
  wd_store :: store
  wd_queue :: 'q

record 'q turn_env =
  te_now :: instant
  te_done :: instant
  te_claim :: delivery
  te_locked :: "outbox_row \<Rightarrow> bool"
  te_returned :: "claimed_event list \<Rightarrow> claimed_event list"
  te_carried :: "claimed_event \<Rightarrow> attributes"
  te_write :: "nat \<Rightarrow> delivery"
  te_others :: "nat \<Rightarrow> 'q world \<Rightarrow> 'q world"

definition publisher_mark :: "delivery \<Rightarrow> claimed_event \<Rightarrow> instant \<Rightarrow> 'q world \<Rightarrow> 'q world" where
  "publisher_mark d event now w =
     w\<lparr>wd_store := snd (MarkPublished d (ce_EventID event) now (wd_store w))\<rparr>"

definition publisher_reschedule ::
  "float_arith \<Rightarrow> 'q publisher \<Rightarrow> delivery \<Rightarrow> claimed_event \<Rightarrow> instant \<Rightarrow> 'q world \<Rightarrow> 'q world" where
  "publisher_reschedule fa p d event now w =
     (let delay = backoff_after fa (pb_backoff p) (ce_Attempts event)
      in w\<lparr>wd_store := snd (Events_Reschedule d (pb_name p) (ce_EventID event) (now + delay) (wd_store w))\<rparr>)"

fun rescheduleAll ::
  "float_arith \<Rightarrow> 'q publisher \<Rightarrow> 'q turn_env \<Rightarrow> nat \<Rightarrow> claimed_event list \<Rightarrow> 'q world \<Rightarrow> 'q world" where
  "rescheduleAll fa p te i [] w = w"
| "rescheduleAll fa p te i (event # rest) w =
     rescheduleAll fa p te (Suc i) rest
       (publisher_reschedule fa p (te_write te i) event (te_done te) (te_others te (Suc i) w))"

fun record_results ::
  "float_arith \<Rightarrow> 'q publisher \<Rightarrow> 'q turn_env \<Rightarrow> nat \<Rightarrow> (claimed_event \<times> send_result) list \<Rightarrow> 'q world
     \<Rightarrow> nat \<times> 'q world" where
  "record_results fa p te i [] w = (0, w)"
| "record_results fa p te i ((event, result) # rest) w =
     (let w = te_others te (Suc i) w
      in if Sent result
         then (let (sent, w') = record_results fa p te (Suc i) rest
                                  (publisher_mark (te_write te i) event (te_done te) w)
               in (Suc sent, w'))
         else record_results fa p te (Suc i) rest
                (publisher_reschedule fa p (te_write te i) event (te_done te) w))"

text \<open>How many events the turn claimed and how many of them reached the queue.\<close>

definition publisher_turn ::
  "float_arith \<Rightarrow> (envelope \<Rightarrow> string) \<Rightarrow> 'q publisher \<Rightarrow> 'q turn_env \<Rightarrow> 'q world \<Rightarrow> (nat \<times> nat) eres \<times> 'q world" where
  "publisher_turn fa render p te w =
     (case Claim (te_claim te) (te_locked te) (te_returned te)
             \<lparr>cr_By = pb_name p, cr_Limit = pb_batch p, cr_At = te_now te, cr_Hold = pb_hold p\<rparr> (wd_store w) of
        (Inl err, st) \<Rightarrow> (Inl err, w\<lparr>wd_store := st\<rparr>)
      | (Inr batch, st) \<Rightarrow>
          if batch = [] then (Inr (0, 0), w\<lparr>wd_store := st\<rparr>)
          else (let w = te_others te 0 (w\<lparr>wd_store := st\<rparr>);
                    messages = map (outbound_of render (te_carried te)) batch
                in case SendBatch (pb_queue p) messages (wd_queue w) of
                     (Inl err, q) \<Rightarrow>
                       (Inr (length batch, 0), rescheduleAll fa p te 0 batch (w\<lparr>wd_queue := q\<rparr>))
                   | (Inr results, q) \<Rightarrow>
                       if length results \<noteq> length batch
                       then (Inr (length batch, 0), rescheduleAll fa p te 0 batch (w\<lparr>wd_queue := q\<rparr>))
                       else (let (sent, w') = record_results fa p te 0 (zip batch results) (w\<lparr>wd_queue := q\<rparr>)
                             in (Inr (length batch, sent), w'))))"

section \<open>The loop\<close>

text \<open>
  What a turn does to the count of failures, and how long the loop waits after it; zero is
  going straight round.
\<close>

definition publisher_pace :: "float_arith \<Rightarrow> 'q publisher \<Rightarrow> nat \<Rightarrow> (nat \<times> nat) eres \<Rightarrow> nat \<times> duration" where
  "publisher_pace fa p failures outcome =
     (if (case outcome of Inl _ \<Rightarrow> True | Inr (claimed, published) \<Rightarrow> 0 < claimed \<and> published = 0)
      then (Suc failures, backoff_after fa (pb_backoff p) (int (Suc failures)))
      else if (case outcome of Inl _ \<Rightarrow> False | Inr (claimed, published) \<Rightarrow> int claimed \<ge> pb_batch p)
      then (0, 0)
      else (0, pb_interval p))"

text \<open>
  The loop until its context ends, which is after the turns \<open>tes\<close>; the result is what each
  turn came to and how long the loop waited after it.
\<close>

fun publisher_run ::
  "float_arith \<Rightarrow> (envelope \<Rightarrow> string) \<Rightarrow> 'q publisher \<Rightarrow> 'q turn_env list \<Rightarrow> nat \<Rightarrow> 'q world
     \<Rightarrow> ((nat \<times> nat) eres \<times> duration) list \<times> 'q world" where
  "publisher_run fa render p [] failures w = ([], w)"
| "publisher_run fa render p (te # tes) failures w =
     (let (outcome, w') = publisher_turn fa render p te w;
          (failures', pause) = publisher_pace fa p failures outcome;
          (rest, w'') = publisher_run fa render p tes failures' w'
      in ((outcome, pause) # rest, w''))"

section \<open>Starting and stopping\<close>

definition Publisher_Start :: "'q publisher \<Rightarrow> unit eres \<times> 'q publisher" where
  "Publisher_Start p =
     (let (r, lc) = begin_start (pb_lifecycle p) in (r, p\<lparr>pb_lifecycle := lc\<rparr>))"

text \<open>
  Stopping: \<open>drained\<close> says whether the turn in progress came back within the deadline. The
  claims are handed back either way.
\<close>

definition Publisher_Stop :: "bool \<Rightarrow> delivery \<Rightarrow> 'q publisher \<Rightarrow> store \<Rightarrow> unit eres \<times> 'q publisher \<times> store" where
  "Publisher_Stop drained d p st =
     (let (first, lc) = begin_stop (pb_lifecycle p); p' = p\<lparr>pb_lifecycle := lc\<rparr>
      in if \<not> first then (Inr (), p', st)
         else (case ReleaseClaims d (pb_name p) st of
                 (Inl err, st') \<Rightarrow> (Inl (Wrapped [err]), p', st')
               | (Inr released, st') \<Rightarrow>
                   if \<not> drained then (Inl (Wrapped []), p', st') else (Inr (), p', st')))"

end
