(* ===== verification/Delivery.thy ===== *)
theory Delivery
  imports Publishing Reachable
begin

text \<open>
  What the publisher guarantees whoever reads the outbound queue, whatever the number of
  publishers and however their statements interleave with each other and with the service.

  A fleet is the database, the queue and what each publisher has in hand. Its steps are the
  service's own operations and the single statements and sends of publishers; a publisher's
  turn is shown to be a sequence of its own steps, with the steps of others in between. That
  events are sent in their order is asked of no step: it follows from what a claim takes.
\<close>

section \<open>Events and the wire\<close>

text \<open>\<open>es\<close> are the messages the queue took, in the order it took them.\<close>

abbreviation sent_ids :: "send_entry list \<Rightarrow> string set" where
  "sent_ids es \<equiv> se_MessageDeduplicationId ` set es"

definition row_sent :: "send_entry list \<Rightarrow> outbox_row \<Rightarrow> bool" where
  "row_sent es r \<longleftrightarrow> uuid_String (row_event r) \<in> sent_ids es"

definition earlier_sent :: "outbox_row list \<Rightarrow> send_entry list \<Rightarrow> outbox_row \<Rightarrow> bool" where
  "earlier_sent rows es r \<longleftrightarrow>
     (\<forall>p \<in> set rows. event_wallet p = event_wallet r \<and> or_aggregateSequence p < or_aggregateSequence r \<longrightarrow> row_sent es p)"

definition carries :: "(envelope \<Rightarrow> string) \<Rightarrow> send_entry \<Rightarrow> outbox_row \<Rightarrow> bool" where
  "carries render e r \<longleftrightarrow>
     se_MessageDeduplicationId e = uuid_String (row_event r) \<and> se_MessageGroupId e = uuid_String (event_wallet r)
     \<and> se_MessageBody e = render (or_envelope r)"

definition wire_ordered :: "(envelope \<Rightarrow> string) \<Rightarrow> outbox_row list \<Rightarrow> send_entry list \<Rightarrow> bool" where
  "wire_ordered render rows es \<longleftrightarrow>
     (\<forall>k < length es. \<exists>r \<in> set rows. carries render (es ! k) r \<and> earlier_sent rows (take k es) r)"

text \<open>An event somebody may still send: everything before it was sent.\<close>

definition held_ok :: "outbox_row list \<Rightarrow> send_entry list \<Rightarrow> claimed_event \<Rightarrow> bool" where
  "held_ok rows es ev \<longleftrightarrow>
     (\<exists>r \<in> set rows. ce_EventID ev = row_event r \<and> ce_AggregateID ev = event_wallet r
        \<and> ce_Payload ev = or_envelope r \<and> earlier_sent rows es r)"

definition world_ok :: "(envelope \<Rightarrow> string) \<Rightarrow> ('q \<Rightarrow> send_entry list) \<Rightarrow> 'q world \<Rightarrow> bool" where
  "world_ok render wire w \<longleftrightarrow>
     store_ok (wd_store w)
     \<and> (\<forall>r \<in> set (db_outbox (wd_store w)). or_publishedAt r \<noteq> None \<longrightarrow> row_sent (wire (wd_queue w)) r)
     \<and> wire_ordered render (db_outbox (wd_store w)) (wire (wd_queue w))"

section \<open>Later rows carry higher numbers\<close>

lemma sorted_wrt_filter_iff:
  "sorted_wrt R (filter P xs) \<longleftrightarrow> sorted_wrt (\<lambda>a b. P a \<and> P b \<longrightarrow> R a b) xs"
  by (induction xs) auto

lemma numbered_sorted:
  assumes "outbox_numbered st"
  shows "sorted_wrt (\<lambda>a b. event_wallet a = event_wallet b \<longrightarrow> or_aggregateSequence a < or_aggregateSequence b) (db_outbox st)"
proof -
  have "sorted_wrt (\<lambda>a b. event_wallet a = w \<and> event_wallet b = w \<longrightarrow> or_aggregateSequence a < or_aggregateSequence b)
      (db_outbox st)" for w
  proof -
    have "map or_aggregateSequence (filter (\<lambda>r. event_wallet r = w) (db_outbox st)) = [1..<db_sequences st w + 1]"
      using assms by (simp add: outbox_numbered_def)
    then have "sorted_wrt (<) (map or_aggregateSequence (filter (\<lambda>r. event_wallet r = w) (db_outbox st)))"
      by (simp only: sorted_wrt_upt)
    then show ?thesis unfolding sorted_wrt_map sorted_wrt_filter_iff by (simp add: conj_commute)
  qed
  then show ?thesis by (simp add: sorted_wrt_iff_nth_less)
qed

text \<open>The rows of a later store: the same events, then new ones.\<close>

definition key_extends :: "outbox_row list \<Rightarrow> outbox_row list \<Rightarrow> bool" where
  "key_extends rows rows' \<longleftrightarrow> (\<exists>evs. map event_key rows' = map event_key rows @ evs)"

lemma key_extends_refl [simp]: "key_extends rows rows"
  by (simp add: key_extends_def)

lemma key_extends_trans: "key_extends a b \<Longrightarrow> key_extends b c \<Longrightarrow> key_extends a c"
  by (auto simp: key_extends_def)

lemma key_extends_books: "same_books st st' \<Longrightarrow> key_extends (db_outbox st) (db_outbox st')"
  by (simp add: key_extends_def same_books_def)

lemma key_extends_service: "extends st st' \<Longrightarrow> key_extends (db_outbox st) (db_outbox st')"
  by (auto simp: key_extends_def extends_def adds_events_def)

lemma key_extends_row:
  assumes "key_extends rows rows'" "r \<in> set rows"
  shows "\<exists>r' \<in> set rows'. event_key r' = event_key r"
proof -
  from assms(1) obtain evs where "map event_key rows' = map event_key rows @ evs" by (auto simp: key_extends_def)
  then have "event_key r \<in> set (map event_key rows')" using assms(2) by simp
  then show ?thesis by auto
qed

lemma earlier_sent_later:
  assumes "earlier_sent rows es r" "r \<in> set rows" "key_extends rows (db_outbox st')" "outbox_numbered st'"
    "sent_ids es \<subseteq> sent_ids es'" "event_key r' = event_key r"
  shows "earlier_sent (db_outbox st') es' r'"
  unfolding earlier_sent_def
proof (intro ballI impI, elim conjE)
  fix p
  assume p: "p \<in> set (db_outbox st')" "event_wallet p = event_wallet r'" "or_aggregateSequence p < or_aggregateSequence r'"
  note key = event_key_eqD [OF assms(6)]
  from assms(3) obtain old new where rows': "db_outbox st' = old @ new" "map event_key old = map event_key rows"
    by (auto simp: key_extends_def map_eq_append_conv)
  have "r \<in> set rows \<Longrightarrow> \<exists>q \<in> set old. event_key q = event_key r"
    using rows'(2) by (metis imageE imageI list.set_map)
  then obtain q where q: "q \<in> set old" "event_key q = event_key r" using assms(2) by blast
  show "row_sent es' p"
  proof (cases "p \<in> set old")
    case True
    then obtain p0 where p0: "p0 \<in> set rows" "event_key p0 = event_key p"
      using rows'(2) by (metis imageE imageI list.set_map)
    from event_key_eqD [OF p0(2)] p key have "row_sent es p0"
      using assms(1) p0(1) unfolding earlier_sent_def by auto
    with event_key_eqD(4) [OF p0(2)] assms(5) show ?thesis by (auto simp: row_sent_def)
  next
    case False
    with p(1) rows'(1) have "p \<in> set new" by simp
    with q numbered_sorted [OF assms(4)] have "event_wallet q = event_wallet p \<longrightarrow> or_aggregateSequence q < or_aggregateSequence p"
      unfolding rows'(1) by (auto simp: sorted_wrt_append)
    with event_key_eqD [OF q(2)] key p(2,3) show ?thesis by auto
  qed
qed

lemma carries_key: "event_key r' = event_key r \<Longrightarrow> carries render e r' = carries render e r"
  by (simp add: carries_def event_key_eqD [of r' r])

lemma wire_ordered_later:
  assumes "wire_ordered render rows es" "key_extends rows (db_outbox st')" "outbox_numbered st'"
  shows "wire_ordered render (db_outbox st') es"
  unfolding wire_ordered_def
proof (intro allI impI)
  fix k
  assume "k < length es"
  with assms(1) obtain r where r: "r \<in> set rows" "carries render (es ! k) r" "earlier_sent rows (take k es) r"
    unfolding wire_ordered_def by blast
  obtain r' where r': "r' \<in> set (db_outbox st')" "event_key r' = event_key r"
    using key_extends_row [OF assms(2) r(1)] by blast
  with earlier_sent_later [OF r(3,1) assms(2,3) subset_refl r'(2)] carries_key r(2)
  show "\<exists>r \<in> set (db_outbox st'). carries render (es ! k) r \<and> earlier_sent (db_outbox st') (take k es) r" by blast
qed

lemma held_ok_later:
  assumes "held_ok rows es ev" "key_extends rows (db_outbox st')" "outbox_numbered st'" "sent_ids es \<subseteq> sent_ids es'"
  shows "held_ok (db_outbox st') es' ev"
proof -
  from assms(1) obtain r where r: "r \<in> set rows" "ce_EventID ev = row_event r" "ce_AggregateID ev = event_wallet r"
    "ce_Payload ev = or_envelope r" "earlier_sent rows es r" unfolding held_ok_def by blast
  obtain r' where r': "r' \<in> set (db_outbox st')" "event_key r' = event_key r"
    using key_extends_row [OF assms(2) r(1)] by blast
  from earlier_sent_later [OF r(5,1) assms(2-4) r'(2)] r(2-4) event_key_eqD [OF r'(2)] show ?thesis
    unfolding held_ok_def by (intro bexI [OF _ r'(1)]) simp
qed

section \<open>Which events are marked published\<close>

definition published_events :: "outbox_row list \<Rightarrow> event_id set" where
  "published_events rows = set (map row_event (filter (\<lambda>r. or_publishedAt r \<noteq> None) rows))"

lemma published_sent_iff:
  "(\<forall>r \<in> set rows. or_publishedAt r \<noteq> None \<longrightarrow> row_sent es r) \<longleftrightarrow> uuid_String ` published_events rows \<subseteq> sent_ids es"
  by (auto simp: published_events_def row_sent_def)

lemma published_map:
  assumes "\<And>r. or_publishedAt (g r) = or_publishedAt r" "\<And>r. row_event (g r) = row_event r"
  shows "published_events (map g rows) = published_events rows"
  by (simp add: published_events_def filter_map comp_def assms)

lemma published_update:
  assumes "\<And>r. hit r \<Longrightarrow> or_publishedAt (f r) = or_publishedAt r" "\<And>r. event_key (f r) = event_key r"
  shows "published_events (db_outbox (update_events hit f st)) = published_events (db_outbox st)"
proof -
  have "published_events (map (\<lambda>r. if hit r then f r else r) (db_outbox st)) = published_events (db_outbox st)"
    by (rule published_map) (simp_all add: assms(1) event_key_eqD(4) [OF assms(2)])
  then show ?thesis by (simp add: update_events_def)
qed

lemma published_delivered:
  "published_events (db_outbox (snd r)) = published_events (db_outbox st) \<Longrightarrow>
   published_events (db_outbox (snd (delivered d r st))) = published_events (db_outbox st)"
  by (simp add: delivered_def split: delivery.split)

lemma or_publishedAt_simps [simp]:
  "or_publishedAt (taken req r) = or_publishedAt r"
  "or_publishedAt (unclaimed r) = or_publishedAt r"
  by (simp_all add: taken_def unclaimed_def)

lemma Claim_published: "published_events (db_outbox (snd (Claim d locked returned req st))) = published_events (db_outbox st)"
proof -
  have "published_events (db_outbox (snd (delivered d r st))) = published_events (db_outbox st)"
    if "claimOutbox locked returned req st = Inr r" for r
    using claimOutbox_InrD(2) [OF that] by (intro published_delivered) (simp add: published_update)
  then show ?thesis by (simp add: Claim_def split: sum.split)
qed

lemma Events_Reschedule_published:
  "published_events (db_outbox (snd (Events_Reschedule d by i now st))) = published_events (db_outbox st)"
  by (simp add: Events_Reschedule_def rescheduleEvent_def Let_def published_delivered published_update)

lemma ReleaseClaims_published:
  "published_events (db_outbox (snd (ReleaseClaims d by st))) = published_events (db_outbox st)"
  by (simp add: ReleaseClaims_def releaseClaims_def Let_def published_delivered published_update)

lemma markPublished_published:
  "markPublished i now st = Inr (n, st') \<Longrightarrow> published_events (db_outbox st') \<subseteq> insert i (published_events (db_outbox st))"
  by (auto simp: markPublished_def Let_def published_events_def update_events_def row_event_def unclaimed_def
      split: if_splits)

lemma MarkPublished_published:
  "published_events (db_outbox (snd (MarkPublished d i now st))) \<subseteq> insert i (published_events (db_outbox st))"
  using markPublished_published [of i now st]
  by (cases "markPublished i now st") (auto simp: MarkPublished_def delivered_def split: delivery.splits prod.splits)

lemma service_published:
  assumes "extends st st'"
  shows "published_events (db_outbox st') = published_events (db_outbox st)"
  using assms by (force simp: extends_def adds_events_def published_events_def)

section \<open>A fleet of publishers\<close>

text \<open>
  Publishers are numbered, and \<open>P i\<close> is the \<open>i\<close>-th. Between two of its statements a publisher
  has in hand what the last one left it: nothing, a batch it claimed and has not sent, what the
  queue said of each event and is not written down yet, or the events of a failed send it has
  still to put back. A fleet is the database and the queue, and what each publisher has in hand.
\<close>

datatype hands =
    Idle
  | Claimed "claimed_event list"
  | Recording "(claimed_event \<times> send_result) list"
  | Putting "claimed_event list"

record 'q fleet =
  fl_world :: "'q world"
  fl_hands :: "nat \<Rightarrow> hands"

definition after_claim :: "claimed_event list eres \<Rightarrow> hands" where
  "after_claim r = (case r of Inl _ \<Rightarrow> Idle | Inr batch \<Rightarrow> if batch = [] then Idle else Claimed batch)"

definition after_send :: "claimed_event list \<Rightarrow> send_result list eres \<Rightarrow> hands" where
  "after_send batch r =
     (case r of
        Inl _ \<Rightarrow> Putting batch
      | Inr results \<Rightarrow> if length results \<noteq> length batch then Putting batch else Recording (zip batch results))"

text \<open>
  One step of a fleet: an operation of the service, whole; a single statement or send of one
  publisher, made with what it has in hand; a publisher's turn ending, or its process with it,
  at any point; its claims handed back at shutdown, whether or not a turn is in progress; or
  the queue being consumed. \<open>wire\<close> reads off a state of the queue what it took. Nothing is asked
  of the times read, of the rows others have locked, of what the propagator injects, nor of
  which statements are lost or unanswered, and no step asks whether its event's turn has come.
\<close>

inductive fleet_step ::
  "float_arith \<Rightarrow> (string \<Rightarrow> uuid option) \<Rightarrow> (envelope \<Rightarrow> string) \<Rightarrow> (nat \<Rightarrow> 'q publisher) \<Rightarrow> ('q \<Rightarrow> send_entry list)
     \<Rightarrow> 'q fleet \<Rightarrow> 'q fleet \<Rightarrow> bool"
  for fa :: float_arith and uuid_Parse :: "string \<Rightarrow> uuid option" and render :: "envelope \<Rightarrow> string"
    and P :: "nat \<Rightarrow> 'q publisher" and wire :: "'q \<Rightarrow> send_entry list" where
  served: "service_step uuid_Parse (wd_store (fl_world f)) st' \<Longrightarrow>
    fleet_step fa uuid_Parse render P wire f (f\<lparr>fl_world := (fl_world f)\<lparr>wd_store := st'\<rparr>\<rparr>)"
| claims: "fl_hands f i = Idle \<Longrightarrow> \<forall>es. mset (returned es) = mset es \<Longrightarrow>
    Claim d locked returned
      \<lparr>cr_By = pb_name (P i), cr_Limit = pb_batch (P i), cr_At = now, cr_Hold = pb_hold (P i)\<rparr>
      (wd_store (fl_world f)) = (r, st') \<Longrightarrow>
    fleet_step fa uuid_Parse render P wire f
      (f\<lparr>fl_world := (fl_world f)\<lparr>wd_store := st'\<rparr>, fl_hands := (fl_hands f)(i := after_claim r)\<rparr>)"
| sends: "fl_hands f i = Claimed batch \<Longrightarrow>
    SendBatch (pb_queue (P i)) (map (outbound_of render carried) batch) (wd_queue (fl_world f)) = (r, q') \<Longrightarrow>
    fleet_step fa uuid_Parse render P wire f
      (f\<lparr>fl_world := (fl_world f)\<lparr>wd_queue := q'\<rparr>, fl_hands := (fl_hands f)(i := after_send batch r)\<rparr>)"
| records: "fl_hands f i = Recording ((event, result) # rest) \<Longrightarrow>
    fleet_step fa uuid_Parse render P wire f
      (f\<lparr>fl_world := (if Sent result then publisher_mark d event now (fl_world f)
                      else publisher_reschedule fa (P i) d event now (fl_world f)),
         fl_hands := (fl_hands f)(i := Recording rest)\<rparr>)"
| puts: "fl_hands f i = Putting (event # rest) \<Longrightarrow>
    fleet_step fa uuid_Parse render P wire f
      (f\<lparr>fl_world := publisher_reschedule fa (P i) d event now (fl_world f),
         fl_hands := (fl_hands f)(i := Putting rest)\<rparr>)"
| rests: "fleet_step fa uuid_Parse render P wire f (f\<lparr>fl_hands := (fl_hands f)(i := Idle)\<rparr>)"
| releases: "fleet_step fa uuid_Parse render P wire f
    (f\<lparr>fl_world := (fl_world f)\<lparr>wd_store := snd (ReleaseClaims d (pb_name (P i)) (wd_store (fl_world f)))\<rparr>\<rparr>)"
| consumed: "wire q' = wire (wd_queue (fl_world f)) \<Longrightarrow>
    fleet_step fa uuid_Parse render P wire f (f\<lparr>fl_world := (fl_world f)\<lparr>wd_queue := q'\<rparr>\<rparr>)"

text \<open>What a step may do to what a publisher relies on.\<close>

definition advances :: "('q \<Rightarrow> send_entry list) \<Rightarrow> 'q world \<Rightarrow> 'q world \<Rightarrow> bool" where
  "advances wire w w' \<longleftrightarrow>
     key_extends (db_outbox (wd_store w)) (db_outbox (wd_store w'))
     \<and> (\<exists>new. wire (wd_queue w') = wire (wd_queue w) @ new)"

lemma advances_refl [simp]: "advances wire w w"
  by (simp add: advances_def)

lemma advances_trans: "advances wire a b \<Longrightarrow> advances wire b c \<Longrightarrow> advances wire a c"
  using key_extends_trans by (fastforce simp: advances_def)

lemma world_okD:
  assumes "world_ok render wire w"
  shows "store_ok (wd_store w)" "outbox_numbered (wd_store w)"
    "uuid_String ` published_events (db_outbox (wd_store w)) \<subseteq> sent_ids (wire (wd_queue w))"
    "wire_ordered render (db_outbox (wd_store w)) (wire (wd_queue w))"
  using assms structure_okD(9) [OF store_okD(1)] unfolding world_ok_def published_sent_iff by blast+

lemma world_ok_store:
  assumes "world_ok render wire w" "store_ok st'" "key_extends (db_outbox (wd_store w)) (db_outbox st')"
    "uuid_String ` published_events (db_outbox st') \<subseteq> sent_ids (wire (wd_queue w))"
  shows "world_ok render wire (w\<lparr>wd_store := st'\<rparr>) \<and> advances wire w (w\<lparr>wd_store := st'\<rparr>)"
proof -
  have "outbox_numbered st'" using assms(2) structure_okD(9) store_okD(1) by blast
  from wire_ordered_later [OF world_okD(4) [OF assms(1)] assms(3) this] assms(2-4) show ?thesis
    unfolding world_ok_def published_sent_iff advances_def by simp
qed

lemma world_ok_publisher:
  assumes "world_ok render wire w" "same_books (wd_store w) st'"
    "published_events (db_outbox st') \<subseteq> P \<union> published_events (db_outbox (wd_store w))"
    "uuid_String ` P \<subseteq> sent_ids (wire (wd_queue w))"
  shows "world_ok render wire (w\<lparr>wd_store := st'\<rparr>) \<and> advances wire w (w\<lparr>wd_store := st'\<rparr>)"
  by (rule world_ok_store [OF assms(1) same_books_ok [OF assms(2) world_okD(1) [OF assms(1)]] key_extends_books [OF assms(2)]])
    (use assms(3,4) world_okD(3) [OF assms(1)] in blast)

lemma earlier_sent_mono: "earlier_sent rows es r \<Longrightarrow> sent_ids es \<subseteq> sent_ids es' \<Longrightarrow> earlier_sent rows es' r"
  by (auto simp: earlier_sent_def row_sent_def)

lemma SendBatch_Inl_same: "SendBatch queue messages q = (Inl err, q') \<Longrightarrow> q' = q"
  by (auto simp: SendBatch_def Let_def case_prod_beta split: if_splits sum.splits)

lemma wire_ordered_append:
  assumes "wire_ordered render rows es" "\<And>e. e \<in> set new \<Longrightarrow> \<exists>r \<in> set rows. carries render e r \<and> earlier_sent rows es r"
  shows "wire_ordered render rows (es @ new)"
  unfolding wire_ordered_def
proof (intro allI impI)
  fix k
  assume k: "k < length (es @ new)"
  show "\<exists>r \<in> set rows. carries render ((es @ new) ! k) r \<and> earlier_sent rows (take k (es @ new)) r"
  proof (cases "k < length es")
    case True
    with assms(1) show ?thesis by (auto simp: wire_ordered_def nth_append)
  next
    case False
    then have "(es @ new) ! k \<in> set new" "sent_ids es \<subseteq> sent_ids (take k (es @ new))"
      using k by (auto simp: nth_append)
    with assms(2) earlier_sent_mono show ?thesis by blast
  qed
qed

lemma world_ok_sent:
  assumes "fifo_contract client wire" "world_ok render wire w" "qs_client (q_settings queue) = client"
    "\<forall>ev \<in> set evs. held_ok (db_outbox (wd_store w)) (wire (wd_queue w)) ev"
    "SendBatch queue (map (outbound_of render carried) evs) (wd_queue w) = (r, q')"
  shows "world_ok render wire (w\<lparr>wd_queue := q'\<rparr>) \<and> advances wire w (w\<lparr>wd_queue := q'\<rparr>)"
proof (cases r)
  case (Inl err)
  with SendBatch_Inl_same [OF assms(5) [unfolded Inl]] assms(2) show ?thesis by simp
next
  case (Inr results)
  from SendBatch_ok [of queue wire, unfolded assms(3), OF assms(1) assms(5) [unfolded Inr]]
  obtain new where new: "wire q' = wire (wd_queue w) @ new"
    "subseq (map entry_view new) (map message_view (map (outbound_of render carried) evs))" by blast
  have "\<exists>r \<in> set (db_outbox (wd_store w)). carries render e r \<and> earlier_sent (db_outbox (wd_store w)) (wire (wd_queue w)) r"
    if "e \<in> set new" for e
  proof -
    have "entry_view e \<in> set (map entry_view new)" using that by simp
    from list_emb_set [OF new(2) this] obtain ev where ev: "ev \<in> set evs"
      "entry_view e = message_view (outbound_of render carried ev)" by auto
    with assms(4) show ?thesis by (fastforce simp: held_ok_def carries_def outbound_of_def)
  qed
  from wire_ordered_append [OF world_okD(4) [OF assms(2)] this] new(1) world_okD(1,3) [OF assms(2)] show ?thesis
    unfolding world_ok_def published_sent_iff advances_def by (simp add: image_Un) blast
qed

lemma advances_held:
  assumes "advances wire w w'" "world_ok render wire w'" "held_ok (db_outbox (wd_store w)) (wire (wd_queue w)) ev"
  shows "held_ok (db_outbox (wd_store w')) (wire (wd_queue w')) ev"
  by (rule held_ok_later [OF assms(3) _ world_okD(2) [OF assms(2)]])
    (use assms(1) in \<open>auto simp: advances_def\<close>)

lemma advances_sent: "advances wire w w' \<Longrightarrow> sent_ids (wire (wd_queue w)) \<subseteq> sent_ids (wire (wd_queue w'))"
  by (auto simp: advances_def)

section \<open>A claim takes events in their turn\<close>

lemma Claim_InrD:
  assumes "Claim d locked returned req st = (Inr batch, st')"
  shows "batch = returned (map (\<lambda>r. event_of (taken req r)) (claim_rows locked (cr_At req) (cr_Limit req) (db_outbox st)))"
    "claim_validate req = Inr ()"
  using assms
  by (auto simp: Claim_def delivered_def split: sum.splits delivery.splits dest: claimOutbox_InrD(1))

lemma Claim_held:
  assumes "world_ok render wire w" "Claim d locked returned req (wd_store w) = (Inr batch, st')"
    "\<And>es. mset (returned es) = mset es" "ev \<in> set batch"
  shows "held_ok (db_outbox st') (wire (wd_queue w)) ev"
proof -
  let ?rows = "db_outbox (wd_store w)"
  have "set (returned es) = set es" for es using assms(3) by (metis set_mset_mset)
  with assms(4) obtain r where r: "r \<in> set (claim_rows locked (cr_At req) (cr_Limit req) ?rows)"
    "ev = event_of (taken req r)" unfolding Claim_InrD(1) [OF assms(2)] by auto
  note row = claim_rows_set [OF r(1)]
  have "row_sent (wire (wd_queue w)) p"
    if "p \<in> set ?rows" "event_wallet p = event_wallet r" "or_aggregateSequence p < or_aggregateSequence r" for p
    using claimable_unblocked [OF row(2) that] assms(1) that(1) unfolding world_ok_def by blast
  then have "held_ok ?rows (wire (wd_queue w)) ev" using row(1) r(2)
    by (auto simp: held_ok_def earlier_sent_def)
  moreover have same: "same_books (wd_store w) st'"
    using Claim_same_books [of "wd_store w" d locked returned req] assms(2) by simp
  moreover have "outbox_numbered st'"
    using same_books_ok [OF same world_okD(1) [OF assms(1)]] structure_okD(9) store_okD(1) by blast
  ultimately show ?thesis using held_ok_later key_extends_books by blast
qed

section \<open>What a fleet keeps\<close>

text \<open>What a publisher has in hand may be sent, and what it will mark was sent.\<close>

definition hand_ok :: "('q \<Rightarrow> send_entry list) \<Rightarrow> 'q world \<Rightarrow> hands \<Rightarrow> bool" where
  "hand_ok wire w h =
     (case h of
        Claimed batch \<Rightarrow> \<forall>ev \<in> set batch. held_ok (db_outbox (wd_store w)) (wire (wd_queue w)) ev
      | Recording outcomes \<Rightarrow>
          \<forall>x \<in> set outcomes. Sent (snd x) \<longrightarrow> uuid_String (ce_EventID (fst x)) \<in> sent_ids (wire (wd_queue w))
      | _ \<Rightarrow> True)"

lemma hand_ok_simps [simp]:
  "hand_ok wire w Idle" "hand_ok wire w (Putting evs)"
  "hand_ok wire w (Claimed batch) \<longleftrightarrow> (\<forall>ev \<in> set batch. held_ok (db_outbox (wd_store w)) (wire (wd_queue w)) ev)"
  "hand_ok wire w (Recording outcomes) \<longleftrightarrow>
     (\<forall>x \<in> set outcomes. Sent (snd x) \<longrightarrow> uuid_String (ce_EventID (fst x)) \<in> sent_ids (wire (wd_queue w)))"
  by (simp_all add: hand_ok_def)

definition fleet_ok :: "(envelope \<Rightarrow> string) \<Rightarrow> ('q \<Rightarrow> send_entry list) \<Rightarrow> 'q fleet \<Rightarrow> bool" where
  "fleet_ok render wire f \<longleftrightarrow> world_ok render wire (fl_world f) \<and> (\<forall>i. hand_ok wire (fl_world f) (fl_hands f i))"

lemma hand_ok_later:
  assumes "hand_ok wire w h" "advances wire w w'" "world_ok render wire w'"
  shows "hand_ok wire w' h"
  using assms(1) advances_held [OF assms(2,3)] advances_sent [OF assms(2)] by (cases h) auto

lemma fleet_ok_step:
  assumes "fleet_ok render wire f" "world_ok render wire w' \<and> advances wire (fl_world f) w'" "hand_ok wire w' h"
  shows "fleet_ok render wire (f\<lparr>fl_world := w', fl_hands := (fl_hands f)(i := h)\<rparr>)"
  using assms hand_ok_later [of wire "fl_world f" _ w' render] by (simp add: fleet_ok_def)

lemma fleet_ok_same_hands:
  assumes "fleet_ok render wire f" "world_ok render wire w' \<and> advances wire (fl_world f) w'"
  shows "fleet_ok render wire (f\<lparr>fl_world := w'\<rparr>)"
  using assms hand_ok_later [of wire "fl_world f" _ w' render] by (simp add: fleet_ok_def)

text \<open>What each statement does to the database.\<close>

lemma claim_world:
  assumes "world_ok render wire w" "Claim d locked returned req (wd_store w) = (r, st')"
  shows "world_ok render wire (w\<lparr>wd_store := st'\<rparr>) \<and> advances wire w (w\<lparr>wd_store := st'\<rparr>)"
  using world_ok_publisher [OF assms(1) Claim_same_books, of d locked returned req "{}"] assms(2)
  by (simp add: Claim_published [of d locked returned req "wd_store w", unfolded assms(2), simplified])

lemma mark_world:
  assumes "world_ok render wire w" "uuid_String (ce_EventID ev) \<in> sent_ids (wire (wd_queue w))"
  shows "world_ok render wire (publisher_mark d ev now w) \<and> advances wire w (publisher_mark d ev now w)"
  unfolding publisher_mark_def
  by (rule world_ok_publisher [OF assms(1) MarkPublished_same_books, of _ _ _ "{ce_EventID ev}"])
    (use MarkPublished_published assms(2) in auto)

lemma put_back_world:
  assumes "world_ok render wire w"
  shows "world_ok render wire (publisher_reschedule fa p d ev now w) \<and> advances wire w (publisher_reschedule fa p d ev now w)"
  unfolding publisher_reschedule_def Let_def
  by (rule world_ok_publisher [OF assms Events_Reschedule_same_books, of _ _ _ _ "{}"])
    (simp_all add: Events_Reschedule_published)

lemma after_send_ok:
  assumes "fifo_contract (qs_client (q_settings queue)) wire"
    "SendBatch queue (map (outbound_of render carried) batch) q = (r, q')" "wd_queue w = q'"
  shows "hand_ok wire w (after_send batch r)"
proof (cases r)
  case (Inr results)
  from SendBatch_ok [OF assms(1) assms(2) [unfolded Inr]]
  have "\<forall>j < length batch. Sent (results ! j) \<longrightarrow> uuid_String (ce_EventID (batch ! j)) \<in> sent_ids (wire q')"
    by (simp add: outbound_of_def)
  then show ?thesis by (auto simp: Inr after_send_def assms(3) set_zip)
qed (simp add: after_send_def)

lemma fleet_step_ok:
  assumes "\<forall>i. fifo_contract (qs_client (q_settings (pb_queue (P i)))) wire"
    "fleet_step fa uuid_Parse render P wire f f'" "fleet_ok render wire f"
  shows "fleet_ok render wire f'"
  using assms(2)
proof cases
  note world = assms(3) [unfolded fleet_ok_def, THEN conjunct1]
  have hand: "hand_ok wire (fl_world f) (fl_hands f i)" for i using assms(3) by (simp add: fleet_ok_def)
  {
    case (served st')
    note ok = service_step_ok [OF served(2) world_okD(1) [OF world]]
    show ?thesis unfolding served(1)
      by (rule fleet_ok_same_hands [OF assms(3) world_ok_store [OF world]])
        (use ok world_okD(3) [OF world] in \<open>auto simp: key_extends_service service_published\<close>)
  next
    case (claims i returned d locked now r st')
    have "hand_ok wire ((fl_world f)\<lparr>wd_store := st'\<rparr>) (after_claim r)"
      using Claim_held [OF world, of d locked returned _ _ st'] claims(3,4)
      by (cases r) (auto simp: after_claim_def)
    with claim_world [OF world claims(4)] show ?thesis unfolding claims(1) by (rule fleet_ok_step [OF assms(3)])
  next
    case (sends i batch carried r q')
    have "world_ok render wire ((fl_world f)\<lparr>wd_queue := q'\<rparr>)
        \<and> advances wire (fl_world f) ((fl_world f)\<lparr>wd_queue := q'\<rparr>)"
      by (rule world_ok_sent [OF assms(1) [rule_format, of i] world refl _ sends(3)]) (use hand [of i] sends(2) in simp)
    moreover have "hand_ok wire ((fl_world f)\<lparr>wd_queue := q'\<rparr>) (after_send batch r)"
      using after_send_ok [OF assms(1) [rule_format, of i] sends(3)] by simp
    ultimately show ?thesis unfolding sends(1) by (rule fleet_ok_step [OF assms(3)])
  next
    case (records i event result rest d now)
    let ?w = "if Sent result then publisher_mark d event now (fl_world f)
      else publisher_reschedule fa (P i) d event now (fl_world f)"
    have held: "hand_ok wire (fl_world f) (Recording ((event, result) # rest))" using hand [of i] records(2) by simp
    then have ok: "world_ok render wire ?w \<and> advances wire (fl_world f) ?w"
      using mark_world [OF world] put_back_world [OF world] by simp
    from hand_ok_later [OF held conjunct2 [OF ok] conjunct1 [OF ok]] have "hand_ok wire ?w (Recording rest)" by simp
    with ok show ?thesis unfolding records(1) by (rule fleet_ok_step [OF assms(3)])
  next
    case (puts i event rest d now)
    show ?thesis unfolding puts(1) by (rule fleet_ok_step [OF assms(3) put_back_world [OF world]]) simp
  next
    case (rests i)
    show ?thesis unfolding rests using assms(3) by (simp add: fleet_ok_def)
  next
    case (releases d i)
    show ?thesis unfolding releases
      by (rule fleet_ok_same_hands [OF assms(3)], rule world_ok_publisher [OF world ReleaseClaims_same_books, of _ _ "{}"])
        (simp_all add: ReleaseClaims_published)
  next
    case (consumed q')
    show ?thesis unfolding consumed(1)
      by (rule fleet_ok_same_hands [OF assms(3)]) (use world consumed(2) in \<open>simp add: world_ok_def advances_def\<close>)
  }
qed

text \<open>A fleet to start from: nobody has anything in hand, and nothing was sent or marked.\<close>

definition fleet_start :: "('q \<Rightarrow> send_entry list) \<Rightarrow> 'q fleet \<Rightarrow> bool" where
  "fleet_start wire f \<longleftrightarrow>
     store_ok (wd_store (fl_world f)) \<and> wire (wd_queue (fl_world f)) = []
     \<and> (\<forall>r \<in> set (db_outbox (wd_store (fl_world f))). or_publishedAt r = None) \<and> (\<forall>i. fl_hands f i = Idle)"

lemma fleet_start_ok: "fleet_start wire f \<Longrightarrow> fleet_ok render wire f"
  by (simp add: fleet_start_def fleet_ok_def world_ok_def wire_ordered_def)

text \<open>The steps of publishers whose queues are first in, first out.\<close>

definition fifo_step ::
  "float_arith \<Rightarrow> (string \<Rightarrow> uuid option) \<Rightarrow> (envelope \<Rightarrow> string) \<Rightarrow> (nat \<Rightarrow> 'q publisher) \<Rightarrow> ('q \<Rightarrow> send_entry list)
     \<Rightarrow> 'q fleet \<Rightarrow> 'q fleet \<Rightarrow> bool" where
  "fifo_step fa uuid_Parse render P wire f f' \<longleftrightarrow>
     (\<forall>i. fifo_contract (qs_client (q_settings (pb_queue (P i)))) wire) \<and> fleet_step fa uuid_Parse render P wire f f'"

interpretation fleets: transition_system "fleet_start wire" "fifo_step fa uuid_Parse render P wire" "fleet_ok render wire"
  by unfold_locales (auto simp: fifo_step_def fleet_start_ok intro: fleet_step_ok)

lemma fleet_steps_ok:
  assumes "\<forall>i. fifo_contract (qs_client (q_settings (pb_queue (P i)))) wire"
    "(fleet_step fa uuid_Parse render P wire)\<^sup>*\<^sup>* f f'" "fleet_ok render wire f"
  shows "fleet_ok render wire f'"
proof -
  have "(fifo_step fa uuid_Parse render P wire)\<^sup>*\<^sup>* f f'"
    using assms(2) by (rule rtranclp_mono [THEN predicate2D, rotated]) (use assms(1) in \<open>auto simp: fifo_step_def\<close>)
  from fleets.inv_steps [OF this assms(3)] show ?thesis .
qed

section \<open>A turn is a sequence of steps\<close>

text \<open>
  The steps of everybody but one publisher leave what it has in hand alone. What its turn meets
  between its statements are such steps, and rows come back from a claim in some order.
\<close>

definition others_step ::
  "float_arith \<Rightarrow> (string \<Rightarrow> uuid option) \<Rightarrow> (envelope \<Rightarrow> string) \<Rightarrow> (nat \<Rightarrow> 'q publisher) \<Rightarrow> ('q \<Rightarrow> send_entry list)
     \<Rightarrow> nat \<Rightarrow> 'q fleet \<Rightarrow> 'q fleet \<Rightarrow> bool" where
  "others_step fa uuid_Parse render P wire i f f' \<longleftrightarrow>
     fleet_step fa uuid_Parse render P wire f f' \<and> fl_hands f' i = fl_hands f i"

definition turn_env_ok ::
  "float_arith \<Rightarrow> (string \<Rightarrow> uuid option) \<Rightarrow> (envelope \<Rightarrow> string) \<Rightarrow> (nat \<Rightarrow> 'q publisher) \<Rightarrow> ('q \<Rightarrow> send_entry list)
     \<Rightarrow> nat \<Rightarrow> 'q turn_env \<Rightarrow> bool" where
  "turn_env_ok fa uuid_Parse render P wire i te \<longleftrightarrow>
     (\<forall>es. mset (te_returned te es) = mset es)
     \<and> (\<forall>k f. fleet_ok render wire f \<longrightarrow>
          (\<exists>f'. (others_step fa uuid_Parse render P wire i)\<^sup>*\<^sup>* f f' \<and> fl_world f' = te_others te k (fl_world f)))"

lemma others_steps:
  assumes "(others_step fa uuid_Parse render P wire i)\<^sup>*\<^sup>* f f'"
  shows "(fleet_step fa uuid_Parse render P wire)\<^sup>*\<^sup>* f f' \<and> fl_hands f' i = fl_hands f i"
  using assms by (induction rule: rtranclp_induct) (auto simp: others_step_def intro: rtranclp.rtrancl_into_rtrancl)

lemma meets_others:
  assumes "turn_env_ok fa uuid_Parse render P wire i te" "fleet_ok render wire f"
  obtains f' where "(fleet_step fa uuid_Parse render P wire)\<^sup>*\<^sup>* f f'" "fl_world f' = te_others te k (fl_world f)"
    "fl_hands f' i = fl_hands f i"
proof -
  from assms obtain f' where "(others_step fa uuid_Parse render P wire i)\<^sup>*\<^sup>* f f'"
    "fl_world f' = te_others te k (fl_world f)" unfolding turn_env_ok_def by blast
  with others_steps that show ?thesis by blast
qed

lemma rests_step:
  "\<exists>f'. (fleet_step fa uuid_Parse render P wire)\<^sup>*\<^sup>* f f' \<and> fl_world f' = fl_world f \<and> fl_hands f' i = Idle"
  by (rule exI [of _ "f\<lparr>fl_hands := (fl_hands f)(i := Idle)\<rparr>"]) (auto intro: rests)

lemma rescheduleAll_steps:
  assumes "\<forall>i. fifo_contract (qs_client (q_settings (pb_queue (P i)))) wire"
    "turn_env_ok fa uuid_Parse render P wire i te" "fleet_ok render wire f" "fl_hands f i = Putting evs"
  shows "\<exists>f'. (fleet_step fa uuid_Parse render P wire)\<^sup>*\<^sup>* f f'
    \<and> fl_world f' = rescheduleAll fa (P i) te k evs (fl_world f) \<and> fl_hands f' i = Idle"
  using assms(3,4)
proof (induction evs arbitrary: k f)
  case Nil
  then show ?case using rests_step [of fa uuid_Parse render P wire f i] by simp
next
  case (Cons ev evs)
  let ?steps = "(fleet_step fa uuid_Parse render P wire)\<^sup>*\<^sup>*"
  obtain f1 where f1: "?steps f f1" "fl_world f1 = te_others te (Suc k) (fl_world f)" "fl_hands f1 i = Putting (ev # evs)"
    using meets_others [OF assms(2) Cons.prems(1)] Cons.prems(2) by metis
  define f2 where "f2 = f1\<lparr>fl_world := publisher_reschedule fa (P i) (te_write te k) ev (te_done te) (fl_world f1),
    fl_hands := (fl_hands f1)(i := Putting evs)\<rparr>"
  have "fleet_step fa uuid_Parse render P wire f1 f2" unfolding f2_def by (rule puts [of f1, OF f1(3)])
  with f1(1) have steps: "?steps f f2" by (rule rtranclp.rtrancl_into_rtrancl)
  have "fl_hands f2 i = Putting evs" by (simp add: f2_def)
  from Cons.IH [OF fleet_steps_ok [OF assms(1) steps Cons.prems(1)] this, of "Suc k"] obtain f3 where
    "?steps f2 f3" "fl_world f3 = rescheduleAll fa (P i) te (Suc k) evs (fl_world f2)" "fl_hands f3 i = Idle" by blast
  with rtranclp_trans [OF steps] show ?case by (intro exI [of _ f3]) (simp add: f2_def f1(2))
qed

lemma record_results_steps:
  assumes "\<forall>i. fifo_contract (qs_client (q_settings (pb_queue (P i)))) wire"
    "turn_env_ok fa uuid_Parse render P wire i te" "fleet_ok render wire f" "fl_hands f i = Recording outcomes"
  shows "\<exists>f'. (fleet_step fa uuid_Parse render P wire)\<^sup>*\<^sup>* f f'
    \<and> fl_world f' = snd (record_results fa (P i) te k outcomes (fl_world f)) \<and> fl_hands f' i = Idle"
  using assms(3,4)
proof (induction outcomes arbitrary: k f)
  case Nil
  then show ?case using rests_step [of fa uuid_Parse render P wire f i] by simp
next
  case (Cons x outcomes)
  obtain ev res where x: "x = (ev, res)" by force
  let ?steps = "(fleet_step fa uuid_Parse render P wire)\<^sup>*\<^sup>*"
  obtain f1 where f1: "?steps f f1" "fl_world f1 = te_others te (Suc k) (fl_world f)"
    "fl_hands f1 i = Recording ((ev, res) # outcomes)"
    using meets_others [OF assms(2) Cons.prems(1)] Cons.prems(2) x by metis
  define f2 where "f2 = f1\<lparr>fl_world := (if Sent res then publisher_mark (te_write te k) ev (te_done te) (fl_world f1)
      else publisher_reschedule fa (P i) (te_write te k) ev (te_done te) (fl_world f1)),
    fl_hands := (fl_hands f1)(i := Recording outcomes)\<rparr>"
  have "fleet_step fa uuid_Parse render P wire f1 f2" unfolding f2_def by (rule records [of f1, OF f1(3)])
  with f1(1) have steps: "?steps f f2" by (rule rtranclp.rtrancl_into_rtrancl)
  have "fl_hands f2 i = Recording outcomes" by (simp add: f2_def)
  from Cons.IH [OF fleet_steps_ok [OF assms(1) steps Cons.prems(1)] this, of "Suc k"] obtain f3 where
    "?steps f2 f3" "fl_world f3 = snd (record_results fa (P i) te (Suc k) outcomes (fl_world f2))" "fl_hands f3 i = Idle"
    by blast
  with rtranclp_trans [OF steps] show ?case
    by (intro exI [of _ f3]) (simp add: f2_def f1(2) x Let_def case_prod_beta)
qed

text \<open>What is left of a turn once its batch was sent.\<close>

lemma sent_steps:
  assumes "\<forall>i. fifo_contract (qs_client (q_settings (pb_queue (P i)))) wire"
    "turn_env_ok fa uuid_Parse render P wire i te" "fleet_ok render wire f" "fl_hands f i = after_send batch r"
  shows "\<exists>f'. (fleet_step fa uuid_Parse render P wire)\<^sup>*\<^sup>* f f'
    \<and> fl_world f' = (case r of Inl err \<Rightarrow> rescheduleAll fa (P i) te 0 batch (fl_world f)
        | Inr results \<Rightarrow> if length results \<noteq> length batch then rescheduleAll fa (P i) te 0 batch (fl_world f)
            else snd (record_results fa (P i) te 0 (zip batch results) (fl_world f)))
    \<and> fl_hands f' i = Idle"
proof (cases "\<exists>results. r = Inr results \<and> length results = length batch")
  case True
  then obtain results where r: "r = Inr results" "length results = length batch" by blast
  with assms(4) have "fl_hands f i = Recording (zip batch results)" by (simp add: after_send_def)
  from record_results_steps [OF assms(1-3) this, of 0] r show ?thesis by simp
next
  case False
  then have "after_send batch r = Putting batch" by (cases r) (auto simp: after_send_def)
  with assms(4) have "fl_hands f i = Putting batch" by simp
  from rescheduleAll_steps [OF assms(1-3) this, of 0] False show ?thesis by (cases r) auto
qed

lemma turn_steps:
  assumes "\<forall>i. fifo_contract (qs_client (q_settings (pb_queue (P i)))) wire"
    "turn_env_ok fa uuid_Parse render P wire i te" "fleet_ok render wire f" "fl_hands f i = Idle"
    "publisher_turn fa render (P i) te (fl_world f) = (outcome, w')"
  shows "\<exists>f'. (fleet_step fa uuid_Parse render P wire)\<^sup>*\<^sup>* f f' \<and> fl_world f' = w' \<and> fl_hands f' i = Idle"
proof -
  let ?steps = "(fleet_step fa uuid_Parse render P wire)\<^sup>*\<^sup>*"
  let ?p = "P i" and ?w = "fl_world f"
  let ?req = "\<lparr>cr_By = pb_name ?p, cr_Limit = pb_batch ?p, cr_At = te_now te, cr_Hold = pb_hold ?p\<rparr>"
  obtain r st where claim: "Claim (te_claim te) (te_locked te) (te_returned te) ?req (wd_store ?w) = (r, st)" by force
  define f1 where "f1 = f\<lparr>fl_world := ?w\<lparr>wd_store := st\<rparr>, fl_hands := (fl_hands f)(i := after_claim r)\<rparr>"
  have "fleet_step fa uuid_Parse render P wire f f1"
    unfolding f1_def by (rule claims [where P = P and i = i, OF assms(4) _ claim])
      (use assms(2) in \<open>simp add: turn_env_ok_def\<close>)
  then have step1: "?steps f f1" by blast
  note ok1 = fleet_steps_ok [OF assms(1) step1 assms(3)]
  show ?thesis
  proof (cases "\<exists>batch. r = Inr batch \<and> batch \<noteq> []")
    case False
    then have "after_claim r = Idle" by (cases r) (auto simp: after_claim_def)
    moreover have "w' = ?w\<lparr>wd_store := st\<rparr>"
      using False assms(5) claim by (auto simp: publisher_turn_def split: sum.splits if_splits)
    ultimately show ?thesis using step1 by (intro exI [of _ f1]) (simp add: f1_def)
  next
    case True
    then obtain batch where batch: "r = Inr batch" "batch \<noteq> []" by blast
    then have "fl_hands f1 i = Claimed batch" by (simp add: f1_def after_claim_def)
    with meets_others [OF assms(2) ok1] obtain f2 where f2: "?steps f1 f2"
      "fl_world f2 = te_others te 0 (fl_world f1)" "fl_hands f2 i = Claimed batch" by metis
    obtain sr q where send:
      "SendBatch (pb_queue ?p) (map (outbound_of render (te_carried te)) batch) (wd_queue (fl_world f2)) = (sr, q)" by force
    define f3 where "f3 = f2\<lparr>fl_world := (fl_world f2)\<lparr>wd_queue := q\<rparr>, fl_hands := (fl_hands f2)(i := after_send batch sr)\<rparr>"
    have "fleet_step fa uuid_Parse render P wire f2 f3" unfolding f3_def by (rule sends [where P = P and i = i, OF f2(3) send])
    with rtranclp_trans [OF step1 f2(1)] have step3: "?steps f f3" by (rule rtranclp.rtrancl_into_rtrancl)
    have "fl_hands f3 i = after_send batch sr" by (simp add: f3_def)
    from sent_steps [OF assms(1,2) fleet_steps_ok [OF assms(1) step3 assms(3)] this] obtain f4 where
      f4: "?steps f3 f4" "fl_world f4 = (case sr of Inl err \<Rightarrow> rescheduleAll fa ?p te 0 batch (fl_world f3)
        | Inr results \<Rightarrow> if length results \<noteq> length batch then rescheduleAll fa ?p te 0 batch (fl_world f3)
            else snd (record_results fa ?p te 0 (zip batch results) (fl_world f3)))" "fl_hands f4 i = Idle" by blast
    have "fl_world f2 = te_others te 0 (?w\<lparr>wd_store := st\<rparr>)" by (simp add: f2(2) f1_def)
    then have "fl_world f4 = w'"
      using assms(5) claim batch send
      by (auto simp: publisher_turn_def f4(2) f3_def Let_def case_prod_beta split: sum.splits if_splits)
    with rtranclp_trans [OF step3 f4(1)] f4(3) show ?thesis by blast
  qed
qed

end
