(* ===== verification/Publication.thy ===== *)
theory Publication
  imports Delivery
begin

text \<open>
  The properties of the outbound side: what a send reports, how it is packed, the order in
  which a wallet's events reach the queue, what a turn of the publisher does when nothing
  fails, and the pace of its loop.
\<close>

section \<open>A queue to try them on\<close>

text \<open>A queue that takes every entry it has not had and reports all of them as successful.\<close>

definition sample_client :: "send_entry list sqs_client" where
  "sample_client =
     \<lparr>cl_GetQueueUrl = (\<lambda>name q. (Inr (Some name), q)),
      cl_GetQueueAttributes = (\<lambda>url names q. None),
      cl_SendMessageBatch = (\<lambda>url es q.
        (Inr \<lparr>Successful = map (\<lambda>e. \<lparr>bs_Id = Some (se_Id e), bs_MessageId = Some (se_Id e)\<rparr>) es, Failed_entries = []\<rparr>,
         q @ filter (\<lambda>e. se_MessageDeduplicationId e \<notin> sent_ids q) es)),
      cl_ReceiveMessage = (\<lambda>input q. (Inr [], q)),
      cl_DeleteMessage = (\<lambda>url handle q. (None, q)),
      cl_ChangeMessageVisibility = (\<lambda>url handle t q. (None, q))\<rparr>"

definition sample_queue :: "send_entry list queue" where
  "sample_queue =
     \<lparr>q_settings = \<lparr>qs_client = sample_client, qs_name = ''events.fifo'', qs_resolveTimeout = 5 * Second,
        qs_maxMessages = 10, qs_waitTime = 20, qs_visibilityTimeout = None\<rparr>,
      q_url = Some ''events.fifo''\<rparr>"

lemma sample_contract: "fifo_contract sample_client (\<lambda>q. q)"
  by (auto simp: fifo_contract_def sample_client_def image_iff)

lemma sample_queue_client [simp]: "qs_client (q_settings sample_queue) = sample_client"
  by (simp add: sample_queue_def)

text \<open>An event left behind by a publisher that died, in a world where nothing was sent.\<close>

definition sample_envelope :: envelope where
  "sample_envelope =
     \<lparr>en_EventID = 7, en_EventType = ''WagerTransactionPendingReference'', en_EventVersion = 1,
      en_AggregateType = aggregateWallet, en_AggregateID = 13, en_CorrelationID = ''req-1'', en_CausationID = [],
      en_OccurredAt = 5000,
      en_Data = PendingPayload \<lparr>qp_transactionId = ''t'', qp_walletId = ''w'', qp_playerId = ''p'', qp_kind = ''WIN'',
        qp_referenceExternalTransactionId = ''bet'', qp_attempts = 0, qp_externalTransactionId = ''win''\<rparr>\<rparr>"

definition sample_row :: outbox_row where
  "sample_row =
     \<lparr>or_envelope = sample_envelope, or_sequence = 1, or_aggregateSequence = 1, or_attempts = 1, or_nextAttemptAt = micros 5000,
      or_claimedBy = Some ''publisher-0'', or_claimedAt = Some (micros 6000), or_claimExpiresAt = Some (micros 20000),
      or_publishedAt = None\<rparr>"

definition sample_world :: "send_entry list world" where
  "sample_world =
     \<lparr>wd_store = empty_store\<lparr>db_outbox := [sample_row], db_sequences := (\<lambda>w. if w = 13 then 1 else 0)\<rparr>, wd_queue = []\<rparr>"

definition sample_publisher :: "send_entry list publisher" where
  "sample_publisher =
     \<lparr>pb_queue = sample_queue, pb_name = ''publisher-1'', pb_batch = 10, pb_hold = 30000, pb_interval = Second,
      pb_drain = Second, pb_backoff = defaultPublisherBackoff, pb_lifecycle = new_lifecycle\<rparr>"

definition sample_turn :: "send_entry list turn_env" where
  "sample_turn =
     \<lparr>te_now = 30000, te_done = 31000, te_claim = Answered, te_locked = (\<lambda>_. False), te_returned = (\<lambda>es. es),
      te_carried = (\<lambda>_. []), te_write = (\<lambda>_. Answered), te_others = (\<lambda>_ w. w)\<rparr>"

abbreviation sample_render :: "envelope \<Rightarrow> string" where
  "sample_render \<equiv> \<lambda>_. ''{}''"

lemma sample_store_ok': "store_ok (wd_store sample_world)"
proof -
  have "outbox_numbered (wd_store sample_world)"
    by (simp add: outbox_numbered_def sample_world_def sample_row_def sample_envelope_def empty_store_def)
  then show ?thesis
    by (simp add: store_ok_def structure_ok_def sample_world_def empty_store_def collision_free_def)
qed

lemma sample_world_ok: "world_ok sample_render (\<lambda>q. q) sample_world"
proof -
  have "db_outbox (wd_store sample_world) = [sample_row]" "wd_queue sample_world = []" "or_publishedAt sample_row = None"
    by (simp_all add: sample_world_def sample_row_def)
  with sample_store_ok' show ?thesis by (simp add: world_ok_def wire_ordered_def)
qed

text \<open>Any number of publishers like it, none of them with anything in hand.\<close>

definition sample_fleet :: "send_entry list fleet" where
  "sample_fleet = \<lparr>fl_world = sample_world, fl_hands = (\<lambda>_. Idle)\<rparr>"

lemma sample_fleet_simps [simp]: "fl_world sample_fleet = sample_world" "fl_hands sample_fleet i = Idle"
  by (simp_all add: sample_fleet_def)

lemma sample_fleet_start: "fleet_start (\<lambda>q. q) sample_fleet"
proof -
  have "db_outbox (wd_store sample_world) = [sample_row]" "wd_queue sample_world = []" "or_publishedAt sample_row = None"
    by (simp_all add: sample_world_def sample_row_def)
  with sample_store_ok' show ?thesis by (simp add: fleet_start_def)
qed

lemma sample_contracts: "\<forall>i::nat. fifo_contract (qs_client (q_settings (pb_queue sample_publisher))) (\<lambda>q. q)"
  by (simp add: sample_publisher_def sample_contract)

definition sample_message :: "string \<Rightarrow> outbound" where
  "sample_message i = \<lparr>ob_Body = ''{}'', ob_GroupID = ''wallet'', ob_DeduplicationID = i, ob_Attributes = []\<rparr>"

section \<open>Sending\<close>

lemma planned_weight:
  assumes "p \<in> set (concat (map planned (enumerate i ms)))"
  shows "p_size p = length (se_MessageBody (p_entry p)) + attributesSize (decodeAttributes (se_MessageAttributes (p_entry p)))"
    "p_size p \<le> maxBatchBytes" "se_Id (p_entry p) = show_nat (p_index p)"
  using outbound_entry_InrD [OF plannedD(3) [OF assms]] by simp_all

lemma planned_names: "distinct (map se_Id (entriesOf (concat (map planned (enumerate 0 ms)))))"
proof -
  let ?plans = "concat (map planned (enumerate 0 ms))"
  have "map se_Id (entriesOf ?plans) = map show_nat (map p_index ?plans)"
    using planned_weight(3) [of _ 0 ms] unfolding entriesOf_def map_map by (intro map_cong) simp_all
  moreover have "inj show_nat" by (metis dec_val_show_nat injI)
  moreover have "distinct (map p_index ?plans)" using plans_ok_planned by (simp add: plans_ok_def)
  ultimately show ?thesis by (simp only: distinct_map) (auto simp: inj_on_def)
qed

lemma planned_call_bounds:
  assumes "batch \<in> set (chunk (concat (map planned (enumerate 0 ms))))"
  shows "entriesOf batch \<noteq> [] \<and> length (entriesOf batch) \<le> 10
    \<and> sum_list (map (\<lambda>e. length (se_MessageBody e) + attributesSize (decodeAttributes (se_MessageAttributes e)))
        (entriesOf batch)) \<le> 256 * 1024"
proof -
  let ?plans = "concat (map planned (enumerate 0 ms))"
  have "set batch \<subseteq> set ?plans" using assms set_concat [of "chunk ?plans"] unfolding concat_chunk by blast
  then have "map (\<lambda>e. length (se_MessageBody e) + attributesSize (decodeAttributes (se_MessageAttributes e)))
      (entriesOf batch) = map p_size batch"
    using planned_weight(1) [of _ 0 ms] unfolding entriesOf_def map_map map_eq_conv comp_apply
    by (metis subsetD)
  moreover have "\<forall>p \<in> set ?plans. p_size p \<le> maxBatchBytes" using planned_weight(2) by blast
  note chunk_bounds [OF this assms]
  ultimately show ?thesis by (simp only: maxBatchEntries_def maxBatchBytes_def) (simp add: entriesOf_def)
qed

text \<open>
  C32: a send tells the truth, message by message. Whatever the queue answers, call by call and
  entry by entry, there is one result per message, in the order of the messages. What the send
  added to the queue are messages the service takes, unaltered, in the order they were given: a
  message it does not take never gets there, and its result is an error no repetition changes.
  A message reported as sent is one the service takes, and its deduplication id is on the
  queue: either it was before the send, or the queue now holds, exactly as it was given, this
  message or another of the batch under the same id.
\<close>

theorem send_reports_truthfully:
  assumes "fifo_contract (qs_client (q_settings queue)) wire" "SendBatch queue messages q = (Inr results, q')"
  shows "length results = length messages
    \<and> (\<exists>new. wire q' = wire q @ new
         \<and> subseq (map entry_view new) (map message_view (filter acceptable messages))
         \<and> (\<forall>j < length messages.
              (\<not> acceptable (messages ! j) \<longrightarrow> (\<exists>c. sr_Err (results ! j) = Some (AsUnretryable c)))
              \<and> (Sent (results ! j) \<longrightarrow> acceptable (messages ! j)
                   \<and> (ob_DeduplicationID (messages ! j) \<in> sent_ids (wire q)
                      \<or> (\<exists>k < length messages. ob_DeduplicationID (messages ! k) = ob_DeduplicationID (messages ! j)
                           \<and> message_view (messages ! k) \<in> entry_view ` set new)))))"
proof -
  note ok = SendBatch_results [OF assms]
  obtain new where new: "wire q' = wire q @ new"
    "subseq (map entry_view new) (map message_view (filter acceptable messages))" using ok(2) by blast
  have "ob_DeduplicationID (messages ! j) \<in> sent_ids (wire q)
      \<or> (\<exists>k < length messages. ob_DeduplicationID (messages ! k) = ob_DeduplicationID (messages ! j)
           \<and> message_view (messages ! k) \<in> entry_view ` set new)"
    if j: "j < length messages" "Sent (results ! j)" for j
  proof (cases "ob_DeduplicationID (messages ! j) \<in> sent_ids (wire q)")
    case False
    with ok(4) [OF j] new(1) obtain e where e: "e \<in> set new"
      "se_MessageDeduplicationId e = ob_DeduplicationID (messages ! j)" by auto
    have "entry_view e \<in> set (map entry_view new)" using e(1) by simp
    from list_emb_set [OF new(2) this] obtain m where m: "m \<in> set messages" "entry_view e = message_view m" by auto
    then obtain k where k: "k < length messages" "messages ! k = m" by (meson in_set_conv_nth)
    have "message_view (messages ! k) \<in> entry_view ` set new" using e(1) m(2) k(2) by (intro image_eqI [of _ _ e]) simp_all
    moreover have "ob_DeduplicationID (messages ! k) = ob_DeduplicationID (messages ! j)" using e(2) m(2) k(2) by simp
    ultimately show ?thesis using k(1) by blast
  qed simp
  with ok(3,4) have "\<forall>j < length messages.
      (\<not> acceptable (messages ! j) \<longrightarrow> (\<exists>c. sr_Err (results ! j) = Some (AsUnretryable c)))
      \<and> (Sent (results ! j) \<longrightarrow> acceptable (messages ! j)
           \<and> (ob_DeduplicationID (messages ! j) \<in> sent_ids (wire q)
              \<or> (\<exists>k < length messages. ob_DeduplicationID (messages ! k) = ob_DeduplicationID (messages ! j)
                   \<and> message_view (messages ! k) \<in> entry_view ` set new)))" by simp
  with ok(1) new show ?thesis by (intro conjI exI [of _ new]) simp_all
qed

lemma sample_sends: "\<exists>results q'. SendBatch sample_queue [sample_message ''a'', sample_message []] [] = (Inr results, q')"
  by (simp add: SendBatch_def queue_resolved_def sample_queue_def case_prod_beta)

lemma sample_acceptable: "acceptable (sample_message ''a'')" "\<not> acceptable (sample_message [])"
  by (simp_all add: acceptable_def sample_message_def attributesSize_def checkAttributes_def)

theorem send_reports_truthfully_witness:
  "\<exists>results q'. SendBatch sample_queue [sample_message ''a'', sample_message []] [] = (Inr results, q')
     \<and> length results = 2 \<and> \<not> Sent (results ! 1)
     \<and> subseq (map entry_view q') [message_view (sample_message ''a'')]"
proof -
  obtain results q' where run: "SendBatch sample_queue [sample_message ''a'', sample_message []] [] = (Inr results, q')"
    using sample_sends by blast
  from send_reports_truthfully [of sample_queue "\<lambda>q. q", unfolded sample_queue_client, OF sample_contract run]
  show ?thesis using run sample_acceptable by (auto simp: Sent_def All_less_Suc numeral_2_eq_2)
qed

text \<open>
  C40: every call keeps within what the service accepts. Watch the calls of a whole send, which
  watching does not change: every one carries between one and ten entries and at most 256 KiB
  as the service weighs them; no two entries, of one call or of two, are under one name; every
  entry has a body, its group and deduplication ids are between one and 128 bytes, and its
  attributes are ones the service takes. One call after the other, the entries are the messages
  the service takes, each once, unaltered and in their order, from the first to the last one a
  call was made for; and when the queue is resolved and answers every call, to the very last.
\<close>

theorem send_within_bounds:
  assumes "SendBatch (recording_queue queue) messages (q, []) = (outcome, q', calls)"
  shows "SendBatch queue messages q = (outcome, q')
    \<and> (\<forall>call \<in> set calls. call \<noteq> [] \<and> length call \<le> 10
         \<and> sum_list (map (\<lambda>e. length (se_MessageBody e) + attributesSize (decodeAttributes (se_MessageAttributes e))) call)
             \<le> 256 * 1024)
    \<and> distinct (map se_Id (concat calls))
    \<and> (\<forall>e \<in> set (concat calls). se_MessageBody e \<noteq> []
         \<and> 0 < length (se_MessageGroupId e) \<and> length (se_MessageGroupId e) \<le> 128
         \<and> 0 < length (se_MessageDeduplicationId e) \<and> length (se_MessageDeduplicationId e) \<le> 128
         \<and> checkAttributes (decodeAttributes (se_MessageAttributes e)) = Inr ())
    \<and> prefix (map entry_view (concat calls)) (map message_view (filter acceptable messages))
    \<and> (q_url queue \<noteq> None \<and> answers_all (qs_client (q_settings queue)) \<longrightarrow>
         map entry_view (concat calls) = map message_view (filter acceptable messages))"
proof -
  let ?plans = "concat (map planned (enumerate 0 messages))"
  from SendBatch_calls [OF assms] obtain k where
    run: "SendBatch queue messages q = (outcome, q')" and calls: "calls = map entriesOf (take k (chunk ?plans))"
    and all: "q_url queue \<noteq> None \<and> answers_all (qs_client (q_settings queue)) \<longrightarrow> k = length (chunk ?plans)" by blast
  define rest where "rest = concat (map entriesOf (drop k (chunk ?plans)))"
  have "concat calls @ rest = concat (map entriesOf (chunk ?plans))"
    unfolding calls rest_def by (simp flip: concat_append map_append)
  also have "\<dots> = entriesOf ?plans"
    using arg_cong [OF concat_chunk [of ?plans], of entriesOf] by (simp only: entriesOf_def [abs_def] map_concat)
  finally have split: "entriesOf ?plans = concat calls @ rest" by simp
  have "distinct (map se_Id (entriesOf ?plans))" by (rule planned_names)
  then have names: "distinct (map se_Id (concat calls))" unfolding split by simp
  have views: "map message_view (filter acceptable messages) = map entry_view (concat calls) @ map entry_view rest"
    unfolding planned_accepted [symmetric, of messages 0] split by simp
  have full: "rest = []" if "q_url queue \<noteq> None \<and> answers_all (qs_client (q_settings queue))"
    using all that by (simp add: rest_def)
  have fields: "se_MessageBody e \<noteq> [] \<and> 0 < length (se_MessageGroupId e) \<and> length (se_MessageGroupId e) \<le> 128
      \<and> 0 < length (se_MessageDeduplicationId e) \<and> length (se_MessageDeduplicationId e) \<le> 128
      \<and> checkAttributes (decodeAttributes (se_MessageAttributes e)) = Inr ()" if "e \<in> set (concat calls)" for e
  proof -
    have "entry_view e \<in> message_view ` set (filter acceptable messages)"
      using that arg_cong [OF views, of set] by auto
    then show ?thesis by (auto simp: acceptable_def)
  qed
  have bounds: "call \<noteq> [] \<and> length call \<le> 10 \<and> sum_list (map (\<lambda>e. length (se_MessageBody e)
      + attributesSize (decodeAttributes (se_MessageAttributes e))) call) \<le> 256 * 1024" if "call \<in> set calls" for call
  proof -
    from that calls obtain batch where "batch \<in> set (chunk ?plans)" "call = entriesOf batch"
      by (auto dest: in_set_takeD)
    then show ?thesis using planned_call_bounds [of batch messages] by simp
  qed
  show ?thesis using run bounds names fields views full by (simp add: prefix_def)
qed

theorem send_within_bounds_witness:
  "\<exists>outcome q' calls. SendBatch (recording_queue sample_queue) [sample_message ''a'', sample_message ''b''] ([], [])
       = (outcome, q', calls)
     \<and> map entry_view (concat calls) = [message_view (sample_message ''a''), message_view (sample_message ''b'')]"
proof -
  have "answers_all sample_client" by (simp add: answers_all_def sample_client_def)
  moreover have "q_url sample_queue \<noteq> None" by (simp add: sample_queue_def)
  moreover have "acceptable (sample_message ''b'')"
    by (simp add: acceptable_def sample_message_def attributesSize_def checkAttributes_def)
  moreover obtain outcome q' calls where run:
    "SendBatch (recording_queue sample_queue) [sample_message ''a'', sample_message ''b''] ([], []) = (outcome, q', calls)"
    using prod_cases3 by blast
  ultimately show ?thesis using send_within_bounds [OF run] sample_acceptable(1) by auto
qed

section \<open>Order\<close>

text \<open>
  C6: a wallet's events reach the queue in the order of their numbers, and an event is marked
  published only once it is there. Start from an outbox nobody published from and a queue that
  took nothing, and let any number of publishers claim, send, mark, put back and release, one
  statement or send at a time, in any interleaving with each other and with the service, with
  clocks that disagree, claims that expire, processes that stop at any point and answers that
  are lost: every message on the queue is an event of the outbox, under its wallet as the group
  and its event id as the deduplication id, with the stored envelope as its body; every event
  of the same wallet with a lower number was on the queue before it; and every event marked
  published is on the queue.
\<close>

theorem events_sent_in_order:
  assumes "\<forall>i. fifo_contract (qs_client (q_settings (pb_queue (P i)))) wire" "fleet_start wire f0"
    "(fleet_step fa uuid_Parse render P wire)\<^sup>*\<^sup>* f0 f" "w = fl_world f"
  shows "(\<forall>k < length (wire (wd_queue w)). \<exists>r \<in> set (db_outbox (wd_store w)).
      se_MessageGroupId (wire (wd_queue w) ! k) = uuid_String (en_AggregateID (or_envelope r))
      \<and> se_MessageDeduplicationId (wire (wd_queue w) ! k) = uuid_String (en_EventID (or_envelope r))
      \<and> se_MessageBody (wire (wd_queue w) ! k) = render (or_envelope r)
      \<and> (\<forall>p \<in> set (db_outbox (wd_store w)).
           en_AggregateID (or_envelope p) = en_AggregateID (or_envelope r) \<and> or_aggregateSequence p < or_aggregateSequence r \<longrightarrow>
           (\<exists>j < k. se_MessageDeduplicationId (wire (wd_queue w) ! j) = uuid_String (en_EventID (or_envelope p)))))
    \<and> (\<forall>r \<in> set (db_outbox (wd_store w)). or_publishedAt r \<noteq> None \<longrightarrow>
         (\<exists>j < length (wire (wd_queue w)).
            se_MessageDeduplicationId (wire (wd_queue w) ! j) = uuid_String (en_EventID (or_envelope r))))"
proof -
  have ok: "world_ok render wire w"
    using fleet_steps_ok [OF assms(1,3) fleet_start_ok [OF assms(2)]] assms(4) by (simp add: fleet_ok_def)
  have among: "uuid_String (row_event p) \<in> sent_ids (take k (wire (wd_queue w))) \<Longrightarrow>
      \<exists>j < k. j < length (wire (wd_queue w)) \<and> se_MessageDeduplicationId (wire (wd_queue w) ! j) = uuid_String (row_event p)" for p k
    by (auto simp: in_set_conv_nth) metis
  have "\<exists>r \<in> set (db_outbox (wd_store w)). carries render (wire (wd_queue w) ! k) r
      \<and> earlier_sent (db_outbox (wd_store w)) (take k (wire (wd_queue w))) r" if "k < length (wire (wd_queue w))" for k
    using world_okD(4) [OF ok] that unfolding wire_ordered_def by blast
  moreover have "row_sent (wire (wd_queue w)) r" if "r \<in> set (db_outbox (wd_store w))" "or_publishedAt r \<noteq> None" for r
    using ok that unfolding world_ok_def by blast
  ultimately show ?thesis
    using among [where k = "length (wire (wd_queue w))"] among
    unfolding carries_def earlier_sent_def row_sent_def row_event_def take_all_iff [THEN iffD2, OF order_refl]
    by meson
qed

section \<open>A turn in which nothing fails\<close>

text \<open>The service takes every entry it is given.\<close>

definition accepts_all :: "'q sqs_client \<Rightarrow> bool" where
  "accepts_all client \<longleftrightarrow>
     (\<forall>url es s. \<exists>sent s'. cl_SendMessageBatch client url es s = (Inr sent, s') \<and> Failed_entries sent = []
        \<and> (\<forall>e \<in> set es. \<exists>ok \<in> set (Successful sent). bs_Id ok = Some (se_Id e)))"

lemma mine_own:
  assumes "p \<in> set batch" "p_index p < 2 ^ 63"
  shows "mine batch (Some (show_nat (p_index p))) = Some (p_index p)"
  using assms by (auto simp: mine_def ToString_def ParseInt_show_nat sint_of_nat64)

lemma send_batches_all:
  assumes "accepts_all client" "plans_ok n (concat batches)" "n < 2 ^ 63" "length results = n"
    "send_batches client url batches results s = (results', s')"
    "\<forall>j < n. Sent (results ! j) \<or> j \<in> p_index ` set (concat batches)"
  shows "length results' = n \<and> (\<forall>j < n. Sent (results' ! j))"
  using assms(2,4-6)
proof (induction batches arbitrary: results s)
  case (Cons batch rest)
  from assms(1) obtain sent s1 where call: "cl_SendMessageBatch client url (entriesOf batch) s = (Inr sent, s1)"
    "Failed_entries sent = []" "\<forall>e \<in> set (entriesOf batch). \<exists>ok \<in> set (Successful sent). bs_Id ok = Some (se_Id e)"
    unfolding accepts_all_def by metis
  have ok: "plans_ok n (concat rest)" "\<And>p. p \<in> set batch \<Longrightarrow> p_index p < n \<and> se_Id (p_entry p) = show_nat (p_index p)"
    using Cons.prems(1) by (auto simp: plans_ok_def)
  have accepted: "accepted_at batch sent (p_index p)" if "p \<in> set batch" for p
  proof -
    have "p_entry p \<in> set (entriesOf batch)" using that by (simp add: entriesOf_def)
    with call(3) ok(2) [OF that] have "\<exists>o' \<in> set (Successful sent). bs_Id o' = Some (show_nat (p_index p))" by metis
    moreover have "p_index p < 2 ^ 63" using ok(2) [OF that] assms(3) by linarith
    ultimately show ?thesis using mine_own [OF that] call(2) unfolding accepted_at_def by (metis empty_iff empty_set)
  qed
  have "\<forall>j < n. Sent (record_outcomes results batch sent ! j) \<or> j \<in> p_index ` set (concat rest)"
  proof (intro allI impI)
    fix j
    assume j: "j < n"
    show "Sent (record_outcomes results batch sent ! j) \<or> j \<in> p_index ` set (concat rest)"
    proof (cases "j \<in> p_index ` set batch")
      case True
      with record_outcomes_nth(1) [of j results batch sent] accepted j Cons.prems(2) show ?thesis by auto
    next
      case False
      with record_outcomes_nth(2) [of j results batch sent] Cons.prems(2,4) j show ?thesis by auto
    qed
  qed
  from Cons.IH [OF ok(1) _ _ this] Cons.prems(2,3) call(1) show ?case by simp
qed simp

lemma SendBatch_all:
  assumes "accepts_all (qs_client (q_settings queue))" "q_url queue = Some url" "length messages < 2 ^ 63"
    "\<forall>i < length messages. \<exists>x. outbound_entry (messages ! i) i = Inr x"
  shows "\<exists>results q'. SendBatch queue messages q = (Inr results, q') \<and> length results = length messages
    \<and> (\<forall>j < length messages. Sent (results ! j))"
proof (cases "messages = []")
  case False
  let ?plans = "concat (map planned (enumerate 0 messages))"
  obtain results q' where run: "send_batches (qs_client (q_settings queue)) url (chunk ?plans)
      (map refused_at (enumerate 0 messages)) q = (results, q')"
    by (cases "send_batches (qs_client (q_settings queue)) url (chunk ?plans) (map refused_at (enumerate 0 messages)) q")
  have "\<forall>j < length messages. Sent (map refused_at (enumerate 0 messages) ! j)"
    using assms(4) by (auto simp: nth_enumerate_eq refused_at_def no_result_def Sent_def)
  with send_batches_all [OF assms(1) _ assms(3) _ run] plans_ok_planned [of messages]
  have "length results = length messages \<and> (\<forall>j < length messages. Sent (results ! j))" by simp
  with run False assms(2) show ?thesis
    by (simp add: SendBatch_def queue_resolved_def plan_messages_eq)
qed (simp add: SendBatch_def)

text \<open>Marking one event after another marks them all.\<close>

abbreviation marked_row :: "instant \<Rightarrow> outbox_row \<Rightarrow> outbox_row" where
  "marked_row now r \<equiv> unclaimed (r\<lparr>or_publishedAt := Some (micros now)\<rparr>)"

lemma MarkPublished_answered:
  assumes "\<forall>r \<in> set (db_outbox st). en_OccurredAt (or_envelope r) \<le> now"
  shows "snd (MarkPublished Answered i now st)
    = update_events (\<lambda>r. row_event r = i \<and> or_publishedAt r = None) (marked_row now) st"
proof -
  have "\<not> list_ex (\<lambda>r. micros now < or_occurredAt r)
      (filter (\<lambda>r. row_event r = i \<and> or_publishedAt r = None) (db_outbox st))"
    using assms micros_mono by (force simp: list_ex_iff not_less)
  then show ?thesis by (simp add: MarkPublished_def markPublished_def delivered_def Let_def)
qed

lemma row_event_marked [simp]: "row_event (marked_row now r) = row_event r"
  by (simp add: row_event_def unclaimed_def)

lemma update_events_compose:
  "update_events (\<lambda>r. P r \<and> or_publishedAt r = None) (marked_row now)
     (update_events (\<lambda>r. Q r \<and> or_publishedAt r = None) (marked_row now) st)
   = update_events (\<lambda>r. (P r \<or> Q r) \<and> or_publishedAt r = None) (marked_row now) st"
proof -
  have "(if P r' \<and> or_publishedAt r' = None then marked_row now r' else r')
      = (if (P r \<or> Q r) \<and> or_publishedAt r = None then marked_row now r else r)"
    if "r' = (if Q r \<and> or_publishedAt r = None then marked_row now r else r)" for r r'
    unfolding that by (cases "Q r \<and> or_publishedAt r = None"; cases "P r") (simp_all add: unclaimed_def)
  then show ?thesis by (simp add: update_events_def)
qed

lemma update_events_nothing [simp]: "update_events (\<lambda>r. False) f st = st"
  by (simp add: update_events_def)

lemma record_results_all:
  assumes "\<forall>x \<in> set outcomes. Sent (snd x)" "\<And>k. te_write te k = Answered" "\<And>k. te_others te k = (\<lambda>w. w)"
    "\<forall>r \<in> set (db_outbox (wd_store w)). en_OccurredAt (or_envelope r) \<le> te_done te"
  shows "record_results fa p te i outcomes w = (length outcomes,
    w\<lparr>wd_store := update_events (\<lambda>r. row_event r \<in> (ce_EventID \<circ> fst) ` set outcomes \<and> or_publishedAt r = None)
        (marked_row (te_done te)) (wd_store w)\<rparr>)"
  using assms(1,4)
proof (induction outcomes arbitrary: i w)
  case (Cons o' outcomes)
  obtain ev res where o': "o' = (ev, res)" by (cases o')
  let ?hit = "\<lambda>r. row_event r = ce_EventID ev \<and> or_publishedAt r = None"
  let ?w = "w\<lparr>wd_store := update_events ?hit (marked_row (te_done te)) (wd_store w)\<rparr>"
  have mark: "publisher_mark Answered ev (te_done te) w = ?w"
    using MarkPublished_answered [OF Cons.prems(2)] by (simp add: publisher_mark_def)
  have "\<forall>r \<in> set (db_outbox (wd_store ?w)). en_OccurredAt (or_envelope r) \<le> te_done te"
    using Cons.prems(2) by (auto simp: update_events_def unclaimed_def)
  from Cons.IH [OF _ this, of "Suc i"] Cons.prems(1)
  have "record_results fa p te (Suc i) outcomes ?w = (length outcomes, ?w\<lparr>wd_store :=
      update_events (\<lambda>r. row_event r \<in> (ce_EventID \<circ> fst) ` set outcomes \<and> or_publishedAt r = None)
        (marked_row (te_done te)) (wd_store ?w)\<rparr>)" by simp
  with Cons.prems(1) show ?case
    by (simp add: o' assms(2,3) mark update_events_compose disj_commute)
qed simp

text \<open>A message the adapter does not refuse.\<close>

definition publishable :: "(envelope \<Rightarrow> string) \<Rightarrow> (claimed_event \<Rightarrow> attributes) \<Rightarrow> outbox_row \<Rightarrow> bool" where
  "publishable render carried r \<longleftrightarrow>
     (\<forall>ev i. ce_EventID ev = row_event r \<and> ce_AggregateID ev = event_wallet r \<and> ce_Payload ev = or_envelope r \<longrightarrow>
        (\<exists>x. outbound_entry (outbound_of render carried ev) i = Inr x))"

text \<open>
  What a turn needs in order to go through: every call is answered, the queue takes its messages,
  claims last at least the microsecond the columns tell apart, and no event was claimed as often
  as its four-byte count can say.
\<close>

definition smooth_turn :: "(envelope \<Rightarrow> string) \<Rightarrow> 'q publisher \<Rightarrow> 'q turn_env \<Rightarrow> 'q world \<Rightarrow> bool" where
  "smooth_turn render p te w \<longleftrightarrow>
     pb_name p \<noteq> [] \<and> 0 < pb_batch p \<and> pb_batch p \<le> maxClaimBatch \<and> 1000 \<le> pb_hold p
     \<and> te_now te \<noteq> zero_time \<and> te_claim te = Answered \<and> (\<forall>k. te_write te k = Answered)
     \<and> (\<forall>k. te_others te k = (\<lambda>w. w)) \<and> (\<forall>es. mset (te_returned te es) = mset es)
     \<and> accepts_all (qs_client (q_settings (pb_queue p))) \<and> q_url (pb_queue p) \<noteq> None
     \<and> (\<forall>r \<in> set (db_outbox (wd_store w)). en_OccurredAt (or_envelope r) \<le> te_done te \<and> or_attempts r \<noteq> maxInt32)
     \<and> (\<forall>r \<in> set (db_outbox (wd_store w)). publishable render (te_carried te) r)"

abbreviation turn_rows :: "'q publisher \<Rightarrow> 'q turn_env \<Rightarrow> 'q world \<Rightarrow> outbox_row list" where
  "turn_rows p te w \<equiv> claim_rows (te_locked te) (te_now te) (pb_batch p) (db_outbox (wd_store w))"

lemma turn_publishes:
  assumes "smooth_turn render p te w" "outbox_numbered (wd_store w)"
  shows "\<exists>w'. publisher_turn fa render p te w = (Inr (length (turn_rows p te w), length (turn_rows p te w)), w')
    \<and> (\<forall>r \<in> set (turn_rows p te w). \<exists>r' \<in> set (db_outbox (wd_store w')).
         event_key r' = event_key r \<and> or_publishedAt r' = Some (micros (te_done te)) \<and> or_claimedBy r' = None)"
proof -
  let ?req = "\<lparr>cr_By = pb_name p, cr_Limit = pb_batch p, cr_At = te_now te, cr_Hold = pb_hold p\<rparr>"
  let ?rows = "turn_rows p te w"
  let ?batch = "te_returned te (map (\<lambda>r. event_of (taken ?req r)) ?rows)"
  let ?st = "update_events (\<lambda>r. row_event r \<in> set (map row_event ?rows)) (taken ?req) (wd_store w)"
  note smooth = assms(1) [unfolded smooth_turn_def]
  have kept: "claim_refusal ?req r = None" if "r \<in> set ?rows" for r
  proof -
    have "or_attempts r \<noteq> maxInt32" using claim_rows_set(1) [OF that] smooth by blast
    moreover have "micros (te_now te) < micros (te_now te + pb_hold p)" using smooth by (intro micros_later) simp
    ultimately show ?thesis by (simp add: claim_refusal_def)
  qed
  then have "first_some (map (claim_refusal ?req) ?rows) = None" by (simp add: first_some_None_iff)
  with smooth have claim: "Claim (te_claim te) (te_locked te) (te_returned te) ?req (wd_store w) = (Inr ?batch, ?st)"
    by (simp add: Claim_def claim_validate_def delivered_def claimOutbox_def Let_def)
  have mset: "mset ?batch = mset (map (\<lambda>r. event_of (taken ?req r)) ?rows)" using smooth by blast
  then have len: "length ?batch = length ?rows" by (metis length_map size_mset)
  have batch: "\<exists>r \<in> set ?rows. ev = event_of (taken ?req r)" if "ev \<in> set ?batch" for ev
    using that mset by (metis (no_types, lifting) imageE list.set_map set_mset_mset)
  have ids: "ce_EventID ` set ?batch = row_event ` set ?rows"
    using arg_cong [OF mset, of "\<lambda>M. ce_EventID ` set_mset M"] by (simp add: image_image)
  show ?thesis
  proof (cases "?rows = []")
    case True
    with claim len show ?thesis by (simp add: publisher_turn_def)
  next
    case False
    let ?messages = "map (outbound_of render (te_carried te)) ?batch"
    have nonempty: "?batch \<noteq> []" using False len by (metis length_0_conv)
    have "\<exists>x. outbound_entry (outbound_of render (te_carried te) ev) i = Inr x" if "ev \<in> set ?batch" for ev i
    proof -
      from batch [OF that] obtain r where r: "r \<in> set ?rows" "ev = event_of (taken ?req r)" by blast
      with claim_rows_set(1) [OF r(1)] smooth have "publishable render (te_carried te) r" by blast
      then show ?thesis unfolding publishable_def r(2) by simp
    qed
    then have "\<forall>i < length ?messages. \<exists>x. outbound_entry (?messages ! i) i = Inr x" by simp
    moreover have "length ?messages < 2 ^ 63"
    proof -
      have "pb_batch p \<le> 10" using smooth by (simp add: maxClaimBatch_def)
      then have "length ?rows \<le> 10"
        using claim_rows_length [of "te_locked te" "te_now te" "pb_batch p" "db_outbox (wd_store w)"] by linarith
      with len show ?thesis by simp
    qed
    moreover obtain url where "q_url (pb_queue p) = Some url" using smooth by auto
    ultimately obtain results q where send: "SendBatch (pb_queue p) ?messages (wd_queue w) = (Inr results, q)"
      "length results = length ?batch" "\<forall>j < length ?batch. Sent (results ! j)"
      using SendBatch_all [of "pb_queue p" url ?messages "wd_queue w"] smooth by auto
    let ?w = "w\<lparr>wd_store := ?st, wd_queue := q\<rparr>"
    have "record_results fa p te 0 (zip ?batch results) ?w = (length (zip ?batch results),
        ?w\<lparr>wd_store := update_events (\<lambda>r. row_event r \<in> (ce_EventID \<circ> fst) ` set (zip ?batch results) \<and> or_publishedAt r = None)
          (marked_row (te_done te)) (wd_store ?w)\<rparr>)"
    proof (rule record_results_all)
      show "\<forall>x \<in> set (zip ?batch results). Sent (snd x)" using send(2,3) by (auto simp: set_zip)
      show "te_write te k = Answered" "te_others te k = (\<lambda>w. w)" for k using smooth by simp_all
      have "\<forall>r \<in> set (db_outbox (wd_store w)). en_OccurredAt (or_envelope r) \<le> te_done te" using smooth by blast
      then show "\<forall>r \<in> set (db_outbox (wd_store ?w)). en_OccurredAt (or_envelope r) \<le> te_done te"
        by (auto simp: update_events_def taken_def)
    qed
    moreover have "(ce_EventID \<circ> fst) ` set (zip ?batch results) = row_event ` set ?rows"
    proof -
      have "(ce_EventID \<circ> fst) ` set (zip ?batch results) = ce_EventID ` set (map fst (zip ?batch results))"
        by (simp add: image_comp)
      also have "map fst (zip ?batch results) = ?batch" using send(2) by simp
      finally show ?thesis unfolding ids .
    qed
    ultimately have turn: "publisher_turn fa render p te w = (Inr (length ?rows, length ?rows),
        ?w\<lparr>wd_store := update_events (\<lambda>r. row_event r \<in> row_event ` set ?rows \<and> or_publishedAt r = None)
          (marked_row (te_done te)) ?st\<rparr>)"
      using claim send len nonempty smooth by (simp add: publisher_turn_def Let_def)
    have "\<exists>r' \<in> set (db_outbox (update_events (\<lambda>r. row_event r \<in> row_event ` set ?rows \<and> or_publishedAt r = None)
          (marked_row (te_done te)) ?st)).
        event_key r' = event_key r \<and> or_publishedAt r' = Some (micros (te_done te)) \<and> or_claimedBy r' = None"
      if r: "r \<in> set ?rows" for r
    proof -
      have "r \<in> set (db_outbox (wd_store w))" "or_publishedAt r = None"
        using claim_rows_set [OF r] by (auto simp: claimable_def)
      then have "marked_row (te_done te) (taken ?req r) \<in> set (db_outbox (update_events
          (\<lambda>r. row_event r \<in> row_event ` set ?rows \<and> or_publishedAt r = None) (marked_row (te_done te)) ?st))"
        using r by (force simp: update_events_def row_event_def taken_def)
      then show ?thesis by (rule bexI [rotated]) (simp add: unclaimed_def taken_def event_key_def)
    qed
    with turn show ?thesis by simp
  qed
qed

section \<open>An event that is due is published\<close>

text \<open>
  C16: an event is not lost. Take an event nobody marked published whose predecessors of the
  same wallet are, which is due, and whose claim, if anybody has one, has run out: it may have
  been left by a publisher that died before its send, or between its send and its mark. A turn
  in which the calls are answered and the queue takes what it is given (\<open>smooth_turn\<close>) claims it, if there is
  room in the batch for every event that can be claimed; it then is on the queue under its
  event id, and marked published with its claim handed back.
\<close>

theorem due_event_is_published:
  assumes "fifo_contract (qs_client (q_settings (pb_queue p))) wire" "world_ok render wire w"
    "smooth_turn render p te w" "r \<in> set (db_outbox (wd_store w))" "or_publishedAt r = None" "\<not> te_locked te r"
    "\<forall>q \<in> set (db_outbox (wd_store w)). en_AggregateID (or_envelope q) = en_AggregateID (or_envelope r)
       \<and> or_aggregateSequence q < or_aggregateSequence r \<longrightarrow> or_publishedAt q \<noteq> None"
    "or_nextAttemptAt r \<le> micros (te_now te)" "\<forall>t. or_claimExpiresAt r = Some t \<longrightarrow> t \<le> micros (te_now te)"
    "int (length (filter (claimable (te_now te) (db_outbox (wd_store w))) (db_outbox (wd_store w)))) \<le> pb_batch p"
  shows "\<exists>n w'. publisher_turn fa render p te w = (Inr (n, n), w')
    \<and> (\<exists>r' \<in> set (db_outbox (wd_store w')). or_envelope r' = or_envelope r \<and> or_publishedAt r' = Some (micros (te_done te))
         \<and> or_claimedBy r' = None)
    \<and> uuid_String (en_EventID (or_envelope r)) \<in> sent_ids (wire (wd_queue w'))"
proof -
  let ?rows = "db_outbox (wd_store w)"
  have "claimable (te_now te) ?rows r"
    using assms(5,7-9) by (auto simp: claimable_def blocks_def list_ex_iff split: option.split)
  moreover have "length (filter (\<lambda>r. claimable (te_now te) ?rows r \<and> \<not> te_locked te r) ?rows) \<le> nat (pb_batch p)"
  proof -
    have "filter (\<lambda>r. claimable (te_now te) ?rows r \<and> \<not> te_locked te r) ?rows
        = filter (\<lambda>r. \<not> te_locked te r) (filter (claimable (te_now te) ?rows) ?rows)" by (simp add: conj_commute)
    then have "length (filter (\<lambda>r. claimable (te_now te) ?rows r \<and> \<not> te_locked te r) ?rows)
        \<le> length (filter (claimable (te_now te) ?rows) ?rows)" by (metis length_filter_le)
    with assms(10) show ?thesis by linarith
  qed
  ultimately have r: "r \<in> set (turn_rows p te w)" using assms(4,6) by (simp add: claim_rows_def)
  from turn_publishes [OF assms(3) world_okD(2) [OF assms(2)]] obtain n w' r' where
    turn: "publisher_turn fa render p te w = (Inr (n, n), w')" and r': "r' \<in> set (db_outbox (wd_store w'))"
      "event_key r' = event_key r" "or_publishedAt r' = Some (micros (te_done te))" "or_claimedBy r' = None"
    using r by meson
  let ?f = "\<lparr>fl_world = w, fl_hands = (\<lambda>_. Idle)\<rparr>"
  have "turn_env_ok fa (\<lambda>_. None) render (\<lambda>_. p) wire 0 te"
    using assms(3) by (auto simp: turn_env_ok_def smooth_turn_def)
  from turn_steps [OF _ this, of ?f] assms(1,2) turn obtain f' where
    "(fleet_step fa (\<lambda>_. None) render (\<lambda>_. p) wire)\<^sup>*\<^sup>* ?f f'" "fl_world f' = w'"
    by (auto simp: fleet_ok_def)
  with fleet_steps_ok [of "\<lambda>_. p" wire fa "\<lambda>_. None" render ?f f'] assms(1,2)
  have "world_ok render wire w'" by (simp add: fleet_ok_def)
  with r'(1,3) have "row_sent (wire (wd_queue w')) r'" unfolding world_ok_def by blast
  with turn r' event_key_eqD [OF r'(2)] show ?thesis by (auto simp: row_sent_def row_event_def)
qed

lemma sample_accepts: "accepts_all sample_client"
  by (auto simp: accepts_all_def sample_client_def)

lemma uuid_String_nonempty [simp]: "uuid_String u \<noteq> []"
  using length_uuid_String [of u] by (metis list.size(3) zero_neq_numeral)

lemma sample_attributes: "checkAttributes [(''correlationId'', ''req-1'')] = Inr ()"
  by code_simp

lemma sample_publishable: "publishable sample_render (\<lambda>_. []) sample_row"
  by (auto simp: publishable_def sample_row_def outbound_entry_def outbound_of_def besideTheBody_def traceOf_def
      sample_envelope_def maxFifoIDBytes_def maxBatchBytes_def attributesSize_def lengthPrefixBytes_def
      stringType_def transportFlagBytes_def correlationAttribute_def causationAttribute_def sample_attributes Let_def)

lemma sample_smooth: "smooth_turn sample_render sample_publisher sample_turn sample_world"
proof -
  have "db_outbox (wd_store sample_world) = [sample_row]" "en_OccurredAt (or_envelope sample_row) = 5000" "or_attempts sample_row = 1"
    by (simp_all add: sample_world_def sample_row_def sample_envelope_def)
  then show ?thesis
    using sample_publishable sample_accepts
    by (simp add: smooth_turn_def sample_publisher_def sample_turn_def sample_queue_def maxClaimBatch_def maxInt32_def)
qed

theorem due_event_is_published_witness:
  "\<exists>n w'. publisher_turn exact_arith sample_render sample_publisher sample_turn sample_world = (Inr (n, n), w')
     \<and> (\<exists>r' \<in> set (db_outbox (wd_store w')). or_publishedAt r' = Some (micros 31000))"
proof -
  have "\<exists>n w'. publisher_turn exact_arith sample_render sample_publisher sample_turn sample_world = (Inr (n, n), w')
      \<and> (\<exists>r' \<in> set (db_outbox (wd_store w')). or_envelope r' = or_envelope sample_row
           \<and> or_publishedAt r' = Some (micros (te_done sample_turn)) \<and> or_claimedBy r' = None)
      \<and> uuid_String (en_EventID (or_envelope sample_row)) \<in> sent_ids (wd_queue w')"
    by (rule due_event_is_published [where wire = "\<lambda>q. q", OF _ sample_world_ok sample_smooth])
      (simp_all add: sample_contract sample_publisher_def sample_world_def sample_row_def sample_turn_def micros_mono)
  then show ?thesis by (auto simp: sample_turn_def)
qed

section \<open>Turns and steps\<close>




lemma sample_turn_ok: "turn_env_ok fa uuid_Parse render P wire i sample_turn"
  by (auto simp: turn_env_ok_def sample_turn_def)

lemma sample_published:
  "\<exists>n w. publisher_turn exact_arith sample_render sample_publisher sample_turn sample_world = (Inr (n, n), w)
     \<and> (\<exists>r \<in> set (db_outbox (wd_store w)). or_publishedAt r = Some (micros 31000))"
proof -
  have now: "te_done sample_turn = 31000" by (simp add: sample_turn_def)
  have row: "sample_row \<in> set (turn_rows sample_publisher sample_turn sample_world)"
    by (simp add: claim_rows_def sample_world_def sample_turn_def sample_publisher_def claimable_def blocks_def
        sample_row_def micros_def less_eq_timestamptz_def)
  show ?thesis
    using turn_publishes [OF sample_smooth world_okD(2) [OF sample_world_ok], of exact_arith] row now
    by metis
qed


theorem events_sent_in_order_witness:
  "\<exists>f. (fleet_step exact_arith (\<lambda>_. None) sample_render (\<lambda>_. sample_publisher) (\<lambda>q. q))\<^sup>*\<^sup>* sample_fleet f
     \<and> (\<exists>r \<in> set (db_outbox (wd_store (fl_world f))). or_publishedAt r = Some (micros 31000)
          \<and> (\<exists>j < length (wd_queue (fl_world f)).
               se_MessageDeduplicationId (wd_queue (fl_world f) ! j) = uuid_String (en_EventID (or_envelope r))))"
proof -
  obtain n w where turn: "publisher_turn exact_arith sample_render sample_publisher sample_turn sample_world = (Inr (n, n), w)"
    and r: "\<exists>r \<in> set (db_outbox (wd_store w)). or_publishedAt r = Some (micros 31000)"
    using sample_published by blast
  from turn_steps [where P = "\<lambda>_. sample_publisher" and f = sample_fleet and i = 0,
      OF sample_contracts sample_turn_ok fleet_start_ok [OF sample_fleet_start], of exact_arith sample_render] turn
  obtain f where f: "(fleet_step exact_arith (\<lambda>_. None) sample_render (\<lambda>_. sample_publisher) (\<lambda>q. q))\<^sup>*\<^sup>* sample_fleet f"
    "fl_world f = w" by auto
  from events_sent_in_order [where P = "\<lambda>_. sample_publisher", OF sample_contracts sample_fleet_start f(1) refl] r f
  show ?thesis by (metis option.distinct(1))
qed

section \<open>Pace\<close>

lemma publisher_run_pace:
  "(outcome, pause) \<in> set (fst (publisher_run fa render p tes failures w)) \<Longrightarrow>
   \<exists>failures. pause = snd (publisher_pace fa p failures outcome)"
proof (induction tes arbitrary: failures w)
  case (Cons te tes)
  let ?turn = "publisher_turn fa render p te w"
  let ?pace = "publisher_pace fa p failures (fst ?turn)"
  from Cons.prems consider "(outcome, pause) = (fst ?turn, snd ?pace)"
    | "(outcome, pause) \<in> set (fst (publisher_run fa render p tes (fst ?pace) (snd ?turn)))"
    by (auto simp: Let_def case_prod_beta)
  then show ?case
  proof cases
    case 1
    then show ?thesis by auto
  qed (rule Cons.IH)
qed simp

text \<open>
  The publisher's loop never spins. Build a publisher with a maximum delay of up to
  \<open>2 ^ 53\<close> nanoseconds, about a hundred days, and run it for any number of turns: after a turn
  that claimed events and published none, or whose claim failed, it waits at least its initial
  and at most its maximum delay, however many failed in a row and whatever the factor; it goes
  straight round only after a turn that filled its batch and published something; and
  otherwise it waits its interval, which is positive.
\<close>

theorem publisher_never_spins:
  assumes "NewPublisher cfg = Inr p" "arith_ok fa" "bo_Max (pb_backoff p) \<le> 2 ^ 53"
    "publisher_run fa render p tes failures w = (outcomes, w')" "(outcome, pause) \<in> set outcomes"
  shows "if (case outcome of Inl _ \<Rightarrow> True | Inr (claimed, published) \<Rightarrow> 0 < claimed \<and> published = 0)
    then 0 < bo_Initial (pb_backoff p) \<and> bo_Initial (pb_backoff p) \<le> pause \<and> pause \<le> bo_Max (pb_backoff p)
    else if pause = 0 then \<exists>claimed published. outcome = Inr (claimed, published) \<and> pb_batch p \<le> int claimed \<and> 0 < published
    else 0 < pause \<and> pause = pb_interval p"
proof -
  have valid: "worker_backoff_validate (pb_backoff p) = Inr ()" and positive: "0 < pb_interval p" "0 < pb_batch p"
    using assms(1)
    by (auto simp: NewPublisher_def Let_def orDefault_def orDefaultDuration_def defaultPollInterval_def
        defaultClaimBatch_def Second_def split: if_splits option.splits sum.splits)
  note delay = backoff_after_between [OF assms(2) valid assms(3)]
  obtain f where pause: "pause = snd (publisher_pace fa p f outcome)"
    using publisher_run_pace [of outcome pause fa render p tes failures w] assms(4,5) by auto
  let ?stuck = "case outcome of Inl _ \<Rightarrow> True | Inr (claimed, published) \<Rightarrow> 0 < claimed \<and> published = 0"
  show ?thesis
  proof (cases ?stuck)
    case True
    with pause have "pause = backoff_after fa (pb_backoff p) (int (Suc f))" by (simp add: publisher_pace_def)
    with True delay [of "int (Suc f)"] worker_backoff_validD(1) [OF valid] show ?thesis by simp
  next
    case False
    obtain c n where o': "outcome = Inr (c, n)" using False by (cases outcome) auto
    have progress: "c = 0 \<or> 0 < n" using False o' by auto
    from o' have "pause = (if pb_batch p \<le> int c then 0 else pb_interval p)"
      using pause progress by (auto simp: publisher_pace_def)
    with o' progress positive False show ?thesis by auto
  qed
qed

lemma sample_built:
  "NewPublisher \<lparr>pc_Outbox = Some (), pc_Queue = Some sample_queue, pc_Clock = Some (), pc_Name = ''publisher-1'',
      pc_Batch = 0, pc_Hold = 30000, pc_Interval = 0, pc_Backoff = zero_backoff, pc_DrainTimeout = Second,
      pc_Logger = Some ()\<rparr> = Inr sample_publisher"
  by (simp add: NewPublisher_def maxClaimBatch_def worker_backoff_validate_def defaultPublisherBackoff_def Let_def
      orDefault_def orDefaultDuration_def sample_publisher_def defaultClaimBatch_def defaultPollInterval_def Second_def)

theorem publisher_never_spins_witness:
  "\<exists>n pause w'. publisher_run exact_arith sample_render sample_publisher [sample_turn] 0 sample_world
       = ([(Inr (n, n), pause)], w')
     \<and> (pause = 0 \<or> pause = Second)"
proof -
  obtain n w' where turn: "publisher_turn exact_arith sample_render sample_publisher sample_turn sample_world = (Inr (n, n), w')"
    using turn_publishes [OF sample_smooth world_okD(2) [OF sample_world_ok]] by blast
  let ?pause = "snd (publisher_pace exact_arith sample_publisher 0 (Inr (n, n)))"
  have run: "publisher_run exact_arith sample_render sample_publisher [sample_turn] 0 sample_world
      = ([(Inr (n, n), ?pause)], w')" by (simp add: turn case_prod_beta)
  have "bo_Max (pb_backoff sample_publisher) \<le> 2 ^ 53"
    by (simp add: sample_publisher_def defaultPublisherBackoff_def Second_def)
  from publisher_never_spins [OF sample_built exact_arith_ok this run, of "Inr (n, n)" ?pause] run
  show ?thesis by (auto simp: sample_publisher_def split: if_splits)
qed

end
