(* ===== verification/Consumer.thy ===== *)
theory Consumer
  imports Workers UseCases
begin

text \<open>
  The consumer of the inbound queue (\<^verbatim>\<open>src/internal/workers/envelope.go\<close>, \<^verbatim>\<open>trace.go\<close>,
  \<^verbatim>\<open>consumer.go\<close>): reading a message, submitting it, and deciding what becomes of it.

  \<open>decode\<close> is the strict JSON decoder of the standard library. Submitting is a parameter, a
  function on a state \<open>'s\<close>, and so is the queue's client, on a state \<open>'q\<close>; the loops are
  functions of what they meet: whether their context has ended, and what others did meanwhile.
  Logging, counting and spans are left out.
\<close>

section \<open>Messages\<close>

record inbound_operation =
  io_Provider :: string
  io_ExternalTransactionID :: string
  io_IdempotencyKey :: string
  io_PlayerID :: string
  io_WalletID :: string
  io_RoundID :: string
  io_GameID :: string
  io_Kind :: string
  io_Amount :: string
  io_Currency :: string
  io_ReferenceExternalTransactionID :: string

record inbound_envelope =
  ie_MessageID :: string
  ie_Type :: string
  ie_OccurredAt :: instant
  ie_Data :: inbound_operation

definition MessageType :: string where
  "MessageType = ''WagerTransactionRequested''"

datatype decode_error = ErrUnknownName | ErrDuplicateName | OtherDecodeError

definition describeDecode :: "decode_error \<Rightarrow> go_error" where
  "describeDecode err =
     (case err of ErrUnknownName \<Rightarrow> Wrapped [] | ErrDuplicateName \<Rightarrow> Wrapped [] | OtherDecodeError \<Rightarrow> Wrapped [])"

definition maxOpaqueIDBytes :: nat where "maxOpaqueIDBytes = 128"

definition opaqueID :: "string \<Rightarrow> bool" where
  "opaqueID s =
     (if s = [] \<or> length s > maxOpaqueIDBytes then False
      else (case runes s of
              None \<Rightarrow> False
            | Some rs \<Rightarrow> if TrimSpace rs \<noteq> rs then False else \<not> list_ex (\<lambda>r. r < 32 \<or> r = 127) rs))"

definition envelope_validate :: "inbound_envelope \<Rightarrow> unit eres" where
  "envelope_validate e =
     (if ie_MessageID e = [] then Inl (Wrapped [])
      else if \<not> opaqueID (ie_MessageID e) then Inl (Wrapped [])
      else if ie_Type e = [] then Inl (Wrapped [])
      else if ie_Type e \<noteq> MessageType then Inl (Wrapped [])
      else if ie_OccurredAt e = zero_time then Inl (Wrapped [])
      else if io_WalletID (ie_Data e) = [] then Inl (Wrapped [])
      else Inr ())"

definition parseEnvelope :: "(string \<Rightarrow> decode_error + inbound_envelope) \<Rightarrow> string \<Rightarrow> inbound_envelope eres" where
  "parseEnvelope decode body =
     (case decode body of
        Inl err \<Rightarrow> Inl (describeDecode err)
      | Inr e \<Rightarrow> (case envelope_validate e of Inl err \<Rightarrow> Inl err | Inr _ \<Rightarrow> Inr e))"

definition envelope_fields :: "inbound_envelope \<Rightarrow> operation_fields" where
  "envelope_fields e =
     \<lparr>of_Provider = io_Provider (ie_Data e), of_ExternalTransactionID = io_ExternalTransactionID (ie_Data e),
      of_IdempotencyKey = io_IdempotencyKey (ie_Data e), of_PlayerID = io_PlayerID (ie_Data e),
      of_WalletID = io_WalletID (ie_Data e), of_RoundID = io_RoundID (ie_Data e), of_GameID = io_GameID (ie_Data e),
      of_Kind = io_Kind (ie_Data e), of_Amount = io_Amount (ie_Data e), of_Currency = io_Currency (ie_Data e),
      of_ReferenceExternalTransactionID = io_ReferenceExternalTransactionID (ie_Data e)\<rparr>"

definition bodyHash :: "string \<Rightarrow> string" where
  "bodyHash body = sha256_hex body"

definition usableCorrelation :: "string \<Rightarrow> bool" where
  "usableCorrelation correlation = opaqueID correlation"

section \<open>Configuration\<close>

definition defaultConcurrency :: int where "defaultConcurrency = 4"
definition maxVisibility :: duration where "maxVisibility = 12 * 3600 * Second"

definition defaultConsumerBackoff :: worker_backoff where
  "defaultConsumerBackoff = \<lparr>bo_Initial = 2 * Second, bo_Factor = Num 2, bo_Max = 60 * Second\<rparr>"

record 'q consumer_config =
  cc_Queue :: "'q queue option"
  cc_Wagering :: "unit option"
  cc_Name :: string
  cc_Concurrency :: int
  cc_Backoff :: worker_backoff
  cc_DrainTimeout :: duration
  cc_MaxReceiveCount :: int
  cc_Logger :: "unit option"

record 'q consumer =
  co_queue :: "'q queue"
  co_name :: string
  co_concurrency :: int
  co_backoff :: worker_backoff
  co_drain :: duration
  co_maxReceives :: int
  co_lifecycle :: lifecycle

definition NewConsumer :: "'q consumer_config \<Rightarrow> 'q consumer eres" where
  "NewConsumer cfg =
     (case cc_Queue cfg of
        None \<Rightarrow> Inl (Wrapped [])
      | Some queue \<Rightarrow>
          if cc_Wagering cfg = None then Inl (Wrapped [])
          else if cc_Logger cfg = None then Inl (Wrapped [])
          else if cc_Name cfg = [] then Inl (Wrapped [])
          else if \<not> opaqueID (cc_Name cfg) then Inl (Wrapped [])
          else if cc_Concurrency cfg < 0 then Inl (Wrapped [])
          else if cc_DrainTimeout cfg < 0 then Inl (Wrapped [])
          else if cc_MaxReceiveCount cfg < 0 then Inl (Wrapped [])
          else (let backoff = (if cc_Backoff cfg = zero_backoff then defaultConsumerBackoff else cc_Backoff cfg)
                in case worker_backoff_validate backoff of
                     Inl err \<Rightarrow> Inl err
                   | Inr _ \<Rightarrow>
                       if bo_Max backoff > maxVisibility then Inl (Wrapped [])
                       else Inr \<lparr>co_queue = queue, co_name = cc_Name cfg,
                         co_concurrency = orDefault (cc_Concurrency cfg) defaultConcurrency,
                         co_backoff = backoff,
                         co_drain = orDefaultDuration (cc_DrainTimeout cfg) defaultDrainTimeout,
                         co_maxReceives = cc_MaxReceiveCount cfg, co_lifecycle = new_lifecycle\<rparr>))"

section \<open>One message\<close>

datatype disposition = Settled | Deferred | Poisoned | Abandoned

definition transient_class :: "error_class \<Rightarrow> bool" where
  "transient_class c \<longleftrightarrow> c = Retryable \<or> c = NotFound"

text \<open>A lookup that finds nothing yields the empty string, which is no usable correlation.\<close>

definition correlationOf :: "inbound_envelope \<Rightarrow> queue_message \<Rightarrow> string \<times> bool" where
  "correlationOf e m =
     (let supplied = ToString (map_of (qm_Attributes m) correlationAttribute);
          carried = (map_of (qm_Attributes m) correlationAttribute \<noteq> None)
      in if usableCorrelation supplied then (supplied, False) else (ie_MessageID e, carried))"

definition consumer_submission :: "'q consumer \<Rightarrow> inbound_envelope \<Rightarrow> queue_message \<Rightarrow> submit_operation eres" where
  "consumer_submission c e m =
     (case NewProvider (io_Provider (ie_Data e)) of
        Inl err \<Rightarrow> Inl (DomainErr err)
      | Inr provider \<Rightarrow>
          (case NewProviderPrincipal provider (co_name c) of
             Inl err \<Rightarrow> Inl err
           | Inr pr \<Rightarrow>
               Inr \<lparr>sb_Principal = pr, sb_Correlation = fst (correlationOf e m),
                 sb_Inbox = Some \<lparr>im_Consumer = co_name c, im_MessageID = ie_MessageID e, im_BodyHash = bodyHash (qm_Body m)\<rparr>,
                 sb_Fields = envelope_fields e\<rparr>))"

definition lastDelivery :: "'q consumer \<Rightarrow> queue_message \<Rightarrow> bool" where
  "lastDelivery c m \<longleftrightarrow> co_maxReceives c > 0 \<and> qm_ReceiveCount m \<ge> co_maxReceives c"

type_synonym 's submitter = "submit_operation \<Rightarrow> 's \<Rightarrow> operation_result eres \<times> 's"

text \<open>\<open>cancelled\<close> says whether the context had ended when a submission came back refused.\<close>

definition consumer_handle ::
  "float_arith \<Rightarrow> (string \<Rightarrow> decode_error + inbound_envelope) \<Rightarrow> 'q consumer \<Rightarrow> 's submitter \<Rightarrow> bool
     \<Rightarrow> queue_message \<Rightarrow> 's \<Rightarrow> (disposition \<times> duration) \<times> 's" where
  "consumer_handle fa decode c submit cancelled m s =
     (case parseEnvelope decode (qm_Body m) of
        Inl err \<Rightarrow> ((Poisoned, 0), s)
      | Inr e \<Rightarrow>
          (case consumer_submission c e m of
             Inl err \<Rightarrow> ((Poisoned, 0), s)
           | Inr submission \<Rightarrow>
               (case submit submission s of
                  (Inr result, s') \<Rightarrow> ((Settled, 0), s')
                | (Inl err, s') \<Rightarrow>
                    if cancelled then ((Abandoned, 0), s')
                    else if \<not> transient_class (class_of err) then ((Poisoned, 0), s')
                    else ((Deferred, wholeSeconds (backoff_after fa (co_backoff c) (qm_ReceiveCount m))), s'))))"

section \<open>A batch\<close>

text \<open>\<open>cw_held\<close> are the receipt handles of \<^verbatim>\<open>heldMessages\<close>, each once.\<close>

record ('s, 'q) consumer_world =
  cw_state :: 's
  cw_queue :: 'q
  cw_held :: "string list"

definition held_take :: "queue_message list \<Rightarrow> string list \<Rightarrow> string list" where
  "held_take messages held = fold (\<lambda>m held. List.insert (qm_ReceiptHandle m) held) messages held"

definition held_done :: "string \<Rightarrow> string list \<Rightarrow> string list" where
  "held_done receiptHandle held = removeAll receiptHandle held"

definition held_drain :: "string list \<Rightarrow> string list \<times> string list" where
  "held_drain held = (held, [])"

definition consumer_acknowledge :: "'q consumer \<Rightarrow> queue_message \<Rightarrow> ('s, 'q) consumer_world \<Rightarrow> ('s, 'q) consumer_world" where
  "consumer_acknowledge c m w =
     w\<lparr>cw_queue := snd (Queue_Delete (co_queue c) (qm_ReceiptHandle m) (cw_queue w)),
       cw_held := held_done (qm_ReceiptHandle m) (cw_held w)\<rparr>"

definition consumer_hide :: "'q consumer \<Rightarrow> duration \<Rightarrow> queue_message \<Rightarrow> ('s, 'q) consumer_world \<Rightarrow> ('s, 'q) consumer_world" where
  "consumer_hide c dur m w =
     w\<lparr>cw_queue := snd (Queue_ChangeVisibility (co_queue c) (qm_ReceiptHandle m) dur (cw_queue w)),
       cw_held := held_done (qm_ReceiptHandle m) (cw_held w)\<rparr>"

definition consumer_leave :: "queue_message \<Rightarrow> ('s, 'q) consumer_world \<Rightarrow> ('s, 'q) consumer_world" where
  "consumer_leave m w = w\<lparr>cw_held := held_done (qm_ReceiptHandle m) (cw_held w)\<rparr>"

text \<open>
  What handling the message at a position meets: whether the context had ended before it,
  what others did to the state before it, the submission, and whether the context had ended
  when it was refused.
\<close>

record 's message_env =
  me_stopped :: bool
  me_others :: "'s \<Rightarrow> 's"
  me_submit :: "'s submitter"
  me_cancelled :: bool

fun handleBatch ::
  "float_arith \<Rightarrow> (string \<Rightarrow> decode_error + inbound_envelope) \<Rightarrow> 'q consumer \<Rightarrow> (nat \<Rightarrow> 's message_env) \<Rightarrow> nat
     \<Rightarrow> queue_message list \<Rightarrow> ('s, 'q) consumer_world \<Rightarrow> disposition list \<times> ('s, 'q) consumer_world" where
  "handleBatch fa decode c env i [] w = ([], w)"
| "handleBatch fa decode c env i (m # behind) w =
     (if me_stopped (env i) then ([], w)
      else (let ((decided, dur), s) =
                  consumer_handle fa decode c (me_submit (env i)) (me_cancelled (env i)) m
                    (me_others (env i) (cw_state w));
                w = w\<lparr>cw_state := s\<rparr>
            in case decided of
                 Settled \<Rightarrow>
                   (let (ds, w') = handleBatch fa decode c env (Suc i) behind (consumer_acknowledge c m w)
                    in (Settled # ds, w'))
               | Deferred \<Rightarrow> ([Deferred], fold (consumer_hide c dur) (m # behind) w)
               | Poisoned \<Rightarrow> ([Poisoned], fold consumer_leave (m # behind) w)
               | Abandoned \<Rightarrow> ([Abandoned], w)))"

section \<open>The receiving loop\<close>

text \<open>
  One pass of a receiver: the count of failed receives, and how long it waits before the next
  pass. \<open>polling\<close> says whether the polling context still stands after a failed receive;
  without it the loop returns.
\<close>

definition receive_pass ::
  "float_arith \<Rightarrow> (string \<Rightarrow> decode_error + inbound_envelope) \<Rightarrow> 'q consumer \<Rightarrow> bool \<Rightarrow> (nat \<Rightarrow> 's message_env) \<Rightarrow> nat
     \<Rightarrow> ('s, 'q) consumer_world \<Rightarrow> (nat \<times> duration) option \<times> disposition list \<times> ('s, 'q) consumer_world" where
  "receive_pass fa decode c polling env failures w =
     (case Queue_Receive (co_queue c) (cw_queue w) of
        (Inl err, q) \<Rightarrow>
          if \<not> polling then (None, [], w\<lparr>cw_queue := q\<rparr>)
          else (Some (Suc failures, backoff_after fa (co_backoff c) (int (Suc failures))), [], w\<lparr>cw_queue := q\<rparr>)
      | (Inr messages, q) \<Rightarrow>
          if messages = [] then (Some (0, 0), [], w\<lparr>cw_queue := q\<rparr>)
          else (let (ds, w') = handleBatch fa decode c env 0 messages
                      (w\<lparr>cw_queue := q, cw_held := held_take messages (cw_held w)\<rparr>)
                in (Some (0, 0), ds, w')))"

section \<open>Starting and stopping\<close>

definition Consumer_Start :: "'q consumer \<Rightarrow> unit eres \<times> 'q consumer" where
  "Consumer_Start c = (let (r, lc) = begin_start (co_lifecycle c) in (r, c\<lparr>co_lifecycle := lc\<rparr>))"

fun release_all :: "'q consumer \<Rightarrow> string list \<Rightarrow> 'q \<Rightarrow> nat \<times> 'q" where
  "release_all c [] q = (0, q)"
| "release_all c (handle # rest) q =
     (case Queue_Release (co_queue c) handle q of
        (Some err, q') \<Rightarrow> release_all c rest q'
      | (None, q') \<Rightarrow> (let (n, q'') = release_all c rest q' in (Suc n, q'')))"

definition releaseHeld :: "'q consumer \<Rightarrow> ('s, 'q) consumer_world \<Rightarrow> nat \<times> ('s, 'q) consumer_world" where
  "releaseHeld c w =
     (let (handles, held) = held_drain (cw_held w);
          (n, q) = release_all c handles (cw_queue w)
      in (n, w\<lparr>cw_queue := q, cw_held := held\<rparr>))"

text \<open>
  Stopping: \<open>late\<close> are the receivers that had not returned when the drain deadline passed, and
  \<open>w\<close> the world once it did or they all had.
\<close>

definition Consumer_Stop ::
  "string list \<Rightarrow> 'q consumer \<Rightarrow> ('s, 'q) consumer_world \<Rightarrow> unit eres \<times> 'q consumer \<times> ('s, 'q) consumer_world" where
  "Consumer_Stop late c w =
     (let (first, lc) = begin_stop (co_lifecycle c); c' = c\<lparr>co_lifecycle := lc\<rparr>
      in if \<not> first then (Inr (), c', w)
         else (let (released, w') = releaseHeld c w
               in if late = [] then (Inr (), c', w') else (Inl (Wrapped []), c', w')))"

section \<open>Facts\<close>

lemma opaqueID_iff: "opaqueID s \<longleftrightarrow> opaque_ok s"
  by (auto simp: opaqueID_def opaque_ok_def maxOpaqueIDBytes_def maxOpaqueLength_def asciiSpace_def asciiDelete_def
      not_less split: option.split)

lemma parseEnvelope_InrD:
  assumes "parseEnvelope decode body = Inr e"
  shows "decode body = Inr e" "opaqueID (ie_MessageID e)" "ie_MessageID e \<noteq> []" "ie_Type e = MessageType"
    "ie_OccurredAt e \<noteq> zero_time" "io_WalletID (ie_Data e) \<noteq> []"
  using assms by (auto simp: parseEnvelope_def envelope_validate_def split: sum.splits if_splits)

lemma consumer_submission_InrD:
  assumes "consumer_submission c e m = Inr cmd"
  shows "sb_Fields cmd = envelope_fields e" "sb_Correlation cmd = fst (correlationOf e m)"
    "sb_Inbox cmd = Some \<lparr>im_Consumer = co_name c, im_MessageID = ie_MessageID e, im_BodyHash = bodyHash (qm_Body m)\<rparr>"
    "sb_Principal cmd = \<lparr>pr_kind = ProviderPrincipal, pr_provider = io_Provider (ie_Data e), pr_subject = co_name c\<rparr>"
  using assms
  by (auto simp: consumer_submission_def NewProviderPrincipal_def NewProvider_def split: sum.splits if_splits)

lemma correlationOf_usable:
  assumes "parseEnvelope decode body = Inr e"
  shows "opaqueID (fst (correlationOf e m))" "fst (correlationOf e m) \<noteq> []"
proof -
  show "opaqueID (fst (correlationOf e m))"
    using parseEnvelope_InrD(2) [OF assms] by (simp add: correlationOf_def usableCorrelation_def Let_def)
  then show "fst (correlationOf e m) \<noteq> []" by (auto simp: opaqueID_def)
qed

text \<open>Two deliveries of one body differ in their correlation at most.\<close>

lemma redelivered_submission:
  assumes "parseEnvelope decode (qm_Body m) = Inr e" "consumer_submission c e m = Inr cmd" "qm_Body m' = qm_Body m"
  shows "\<exists>cmd'. consumer_submission c e m' = Inr cmd' \<and> sb_Principal cmd' = sb_Principal cmd
    \<and> sb_Fields cmd' = sb_Fields cmd \<and> sb_Inbox cmd' = sb_Inbox cmd \<and> opaque_ok (sb_Correlation cmd')"
proof -
  let ?cmd = "cmd\<lparr>sb_Correlation := fst (correlationOf e m')\<rparr>"
  have "consumer_submission c e m' = Inr ?cmd"
    using assms(2,3) by (auto simp: consumer_submission_def split: sum.splits)
  with correlationOf_usable(1) [OF assms(1), unfolded opaqueID_iff] show ?thesis by (intro exI [of _ ?cmd]) simp
qed

end
