(* ===== verification/Ingestion.thy ===== *)
theory Ingestion
  imports Consumer Samples
begin

text \<open>
  What the consumer promises of a message: it is applied before it is deleted, in order, once;
  a message that is kept left no trace; a delay is one the queue accepts; and a shutdown gives
  back what it did not decide about.

  The consumer relies on the application through two laws, the assumptions of \<open>submitter\<close>: a
  refused submission writes nothing, and an operation submitted again is answered from the
  record. The wagering use case keeps both.
\<close>

section \<open>What the consumer relies on\<close>

text \<open>The same operation of the same message, submitted again: only the correlation may differ.\<close>

definition same_submission :: "submit_operation \<Rightarrow> submit_operation \<Rightarrow> bool" where
  "same_submission cmd cmd' \<longleftrightarrow>
     sb_Principal cmd' = sb_Principal cmd \<and> sb_Fields cmd' = sb_Fields cmd \<and> sb_Inbox cmd' = sb_Inbox cmd
     \<and> opaque_ok (sb_Correlation cmd')"

locale submitter =
  fixes submit :: "'e \<Rightarrow> submit_operation \<Rightarrow> 's \<Rightarrow> operation_result eres \<times> 's"
    and env_ok :: "'e \<Rightarrow> bool"
    and good :: "'s \<Rightarrow> bool"
    and later :: "'s \<Rightarrow> 's \<Rightarrow> bool"
  assumes refused_writes_nothing: "submit e cmd s = (Inl err, s') \<Longrightarrow> s' = s"
    and answered_again: "\<lbrakk>good s; env_ok e; env_ok e'; submit e cmd s = (Inr a, s1); \<not> res_IdempotentReplay a;
      later s1 s2; same_submission cmd cmd'; sb_Inbox cmd \<noteq> None\<rbrakk> \<Longrightarrow>
      \<exists>a'. submit e' cmd' s2 = (Inr a', s2) \<and> res_IdempotentReplay a' \<and> res_TransactionID a' = res_TransactionID a"
begin

lemma handle_kept:
  assumes "consumer_handle fa decode c (submit e) cancelled m s = ((d, dur), s')" "d \<noteq> Settled"
  shows "s' = s"
  using assms refused_writes_nothing
  by (auto simp: consumer_handle_def split: sum.splits prod.splits if_splits)

lemma handle_settled:
  assumes "consumer_handle fa decode c (submit e) cancelled m s = ((Settled, dur), s')"
  obtains env cmd a where "parseEnvelope decode (qm_Body m) = Inr env" "consumer_submission c env m = Inr cmd"
    "submit e cmd s = (Inr a, s')"
  using assms by (auto simp: consumer_handle_def split: sum.splits prod.splits if_splits)

lemma redelivered:
  assumes "good s" "env_ok e" "env_ok e'" "parseEnvelope decode (qm_Body m) = Inr env"
    "consumer_submission c env m = Inr cmd" "submit e cmd s = (Inr a, s1)" "\<not> res_IdempotentReplay a" "later s1 s2"
    "qm_Body m' = qm_Body m"
  shows "consumer_handle fa decode c (submit e) cancelled m s = ((Settled, 0), s1)"
    "consumer_handle fa decode c (submit e') cancelled' m' s2 = ((Settled, 0), s2)"
proof -
  show "consumer_handle fa decode c (submit e) cancelled m s = ((Settled, 0), s1)"
    by (simp add: consumer_handle_def assms(4,5,6))
  from redelivered_submission [OF assms(4,5,9)] obtain cmd' where cmd': "consumer_submission c env m' = Inr cmd'"
    "same_submission cmd cmd'" unfolding same_submission_def by blast
  have "sb_Inbox cmd \<noteq> None" using consumer_submission_InrD(3) [OF assms(5)] by simp
  from answered_again [OF assms(1-3,6-8) cmd'(2) this] obtain a' where "submit e' cmd' s2 = (Inr a', s2)" by blast
  with cmd'(1) assms(4,9) show "consumer_handle fa decode c (submit e') cancelled' m' s2 = ((Settled, 0), s2)"
    by (simp add: consumer_handle_def)
qed

end

section \<open>The use case is such a submitter\<close>

text \<open>What one call of the use case draws on: the service, the identifiers it mints, its two readings of the clock.\<close>

record call_env =
  ca_service :: wagering
  ca_ids :: ids
  ca_nowInbox :: instant
  ca_now :: instant

definition call_env_ok :: "call_env \<Rightarrow> bool" where
  "call_env_ok e \<longleftrightarrow> clock_time (ca_now e) \<and> id_Transaction (ca_ids e) \<noteq> 0 \<and> id_LedgerEntry (ca_ids e) \<noteq> 0"

definition submit_alone :: "(string \<Rightarrow> uuid option) \<Rightarrow> call_env \<Rightarrow> submit_operation \<Rightarrow> store \<Rightarrow> operation_result eres \<times> store" where
  "submit_alone uuid_Parse e cmd st =
     Wagering_Submit uuid_Parse (ca_service e) (ca_ids e) (ca_nowInbox e) (ca_now e) cmd (alone st)"

lemma Wagering_Submit_refused:
  assumes "Wagering_Submit uuid_Parse svc ids now_inbox now cmd v = (Inl err, st')"
  shows "st' = vw_move v"
  using assms
  by (auto simp: Wagering_Submit_def submitOnce_def WithinMovement_def split: sum.splits prod.splits if_splits option.splits)

lemma find_append_cases: "find P (xs @ ys) = (case find P xs of None \<Rightarrow> find P ys | Some r \<Rightarrow> Some r)"
  by (induction xs) auto

text \<open>The message a first submission recorded is found again, with the body it was recorded with.\<close>

lemma claim_inbox_found:
  assumes "claim_inbox cmd now st st = Inr st1" "sb_Inbox cmd = Some m"
  shows "\<exists>r. find (\<lambda>r. ir_consumer r = im_Consumer m \<and> ir_messageID r = im_MessageID m) (db_inbox st1) = Some r
    \<and> ir_bodyHash r = im_BodyHash m"
proof -
  let ?mine = "\<lambda>r. ir_consumer r = im_Consumer m \<and> ir_messageID r = im_MessageID m"
  show ?thesis
  proof (cases "find ?mine (db_inbox st)")
    case None
    from None assms have "\<exists>row. db_inbox st1 = db_inbox st @ [row] \<and> ?mine row \<and> ir_bodyHash row = im_BodyHash m"
      by (auto simp: claim_inbox_def Inbox_Find_def InboxMessage_Key_def Inbox_Record_def insert_inbox_def split: if_splits)
    with None show ?thesis by (auto simp: find_append_cases)
  next
    case (Some r)
    with assms show ?thesis
      by (auto simp: claim_inbox_def Inbox_Find_def InboxMessage_Key_def split: if_splits)
  qed
qed

lemma find_prefix: "find P xs = Some r \<Longrightarrow> find P (xs @ ys) = Some r"
  by (simp add: find_append_cases)

lemma claim_inbox_again:
  assumes "claim_inbox cmd now st st = Inr st1" "sb_Inbox cmd = Some m" "extends st1 st2" "sb_Inbox cmd' = Some m"
  shows "claim_inbox cmd' now' st2 st2 = Inr st2"
proof -
  from claim_inbox_found [OF assms(1,2)] obtain r where
    r: "find (\<lambda>r. ir_consumer r = im_Consumer m \<and> ir_messageID r = im_MessageID m) (db_inbox st1) = Some r"
      "ir_bodyHash r = im_BodyHash m" by blast
  from assms(3) obtain ms where "db_inbox st2 = db_inbox st1 @ ms" by (auto simp: extends_def)
  with find_prefix [OF r(1)] r(2) assms(4) show ?thesis
    by (simp add: claim_inbox_def Inbox_Find_def InboxMessage_Key_def)
qed

lemma submitted_inbox:
  assumes "store_ok st" "clock_time now" "Wagering_Submit uuid_Parse svc ids now_inbox now cmd (alone st) = (Inr a, st1)"
    "\<not> res_IdempotentReplay a" "sb_Inbox cmd = Some m" "extends st1 st2" "sb_Inbox cmd' = Some m"
  shows "claim_inbox cmd' now' st2 st2 = Inr st2"
proof -
  from fresh_submission [OF assms(3,4)] obtain command hash sti where
    admit: "admit uuid_Parse ids cmd = Inr (command, hash)" and claim: "claim_inbox cmd now_inbox st st = Inr sti"
    and locked: "submit_locked svc ids now cmd command sti = Inr (a, st1)" by (auto simp: alone_def)
  have "structure_ok sti" using claim_inbox_keeps [OF claim] store_okD(1) [OF assms(1)] by (simp add: keeps_def)
  with submit_locked_keeps [OF locked assms(2) admit_Inr(1) [OF admit]] have "extends sti st1" by (simp add: keeps_def)
  from claim_inbox_again [OF claim assms(5) extends_trans [OF this assms(6)] assms(7)] show ?thesis .
qed

interpretation wagering: submitter "submit_alone uuid_Parse" call_env_ok store_ok "(service_step uuid_Parse)\<^sup>*\<^sup>*"
  for uuid_Parse
proof
  fix e cmd s err s'
  assume "submit_alone uuid_Parse e cmd s = (Inl err, s')"
  then show "s' = s" unfolding submit_alone_def by (auto dest: Wagering_Submit_refused simp: alone_def)
next
  fix s e e' cmd a s1 s2 cmd'
  assume a: "store_ok s" "call_env_ok e" "call_env_ok e'" "submit_alone uuid_Parse e cmd s = (Inr a, s1)"
    "\<not> res_IdempotentReplay a" "(service_step uuid_Parse)\<^sup>*\<^sup>* s1 s2" "same_submission cmd cmd'" "sb_Inbox cmd \<noteq> None"
  note first = a(4) [unfolded submit_alone_def]
  have now: "clock_time (ca_now e)" using a(2) by (simp add: call_env_ok_def)
  have ok1: "store_ok s1" using Wagering_Submit_ok [OF _ now first] a(1) by (simp add: alone_def)
  note later = later_ok [OF a(6) ok1]
  have inbox: "claim_inbox cmd' (ca_nowInbox e') s2 s2 = Inr s2"
    using submitted_inbox [OF a(1) now first a(5) _ conjunct2 [OF later]] a(7,8) by (auto simp: same_submission_def)
  have "\<exists>a' st'. Wagering_Submit uuid_Parse (ca_service e') (ca_ids e') (ca_nowInbox e') (ca_now e') cmd' (alone s2) = (Inr a', st')
      \<and> res_IdempotentReplay a' \<and> res_TransactionID a' = res_TransactionID a \<and> (st' = vw_move (alone s2) \<or> st' = s2)"
    by (rule resubmitted [OF _ now first a(5)])
      (use a(1,3,6,7) later inbox in \<open>auto simp: alone_def same_submission_def call_env_ok_def clock_timeD\<close>)
  then show "\<exists>a'. submit_alone uuid_Parse e' cmd' s2 = (Inr a', s2) \<and> res_IdempotentReplay a'
      \<and> res_TransactionID a' = res_TransactionID a"
    by (auto simp: submit_alone_def alone_def)
qed

section \<open>A batch, message by message\<close>

text \<open>The state once the messages from position \<open>i\<close> on have been handled, one after the other.\<close>

fun state_after ::
  "float_arith \<Rightarrow> (string \<Rightarrow> decode_error + inbound_envelope) \<Rightarrow> 'q consumer \<Rightarrow> (nat \<Rightarrow> 's message_env) \<Rightarrow> nat
     \<Rightarrow> queue_message list \<Rightarrow> 's \<Rightarrow> 's" where
  "state_after fa decode c env i [] s = s"
| "state_after fa decode c env i (m # ms) s =
     state_after fa decode c env (Suc i) ms
       (snd (consumer_handle fa decode c (me_submit (env i)) (me_cancelled (env i)) m (me_others (env i) s)))"

abbreviation delete_all :: "'q consumer \<Rightarrow> queue_message list \<Rightarrow> 'q \<Rightarrow> 'q" where
  "delete_all c ms q \<equiv> fold (\<lambda>m. snd \<circ> Queue_Delete (co_queue c) (qm_ReceiptHandle m)) ms q"

abbreviation hide_all :: "'q consumer \<Rightarrow> duration \<Rightarrow> queue_message list \<Rightarrow> 'q \<Rightarrow> 'q" where
  "hide_all c dur ms q \<equiv> fold (\<lambda>m. snd \<circ> Queue_ChangeVisibility (co_queue c) (qm_ReceiptHandle m) dur) ms q"

lemma fold_hide:
  "cw_state (fold (consumer_hide c dur) ms w) = cw_state w"
  "cw_queue (fold (consumer_hide c dur) ms w) = hide_all c dur ms (cw_queue w)"
  "set (cw_held (fold (consumer_hide c dur) ms w)) = set (cw_held w) - qm_ReceiptHandle ` set ms"
  by (induction ms arbitrary: w) (auto simp: consumer_hide_def held_done_def)

lemma fold_leave:
  "cw_state (fold consumer_leave ms w) = cw_state w"
  "cw_queue (fold consumer_leave ms w) = cw_queue w"
  "set (cw_held (fold consumer_leave ms w)) = set (cw_held w) - qm_ReceiptHandle ` set ms"
  by (induction ms arbitrary: w) (auto simp: consumer_leave_def held_done_def)

lemma handle_not_deferred:
  "consumer_handle fa decode c sub cancelled m s = ((d, dur), s') \<Longrightarrow> d = Deferred \<Longrightarrow>
   dur = wholeSeconds (backoff_after fa (co_backoff c) (qm_ReceiveCount m))"
  by (auto simp: consumer_handle_def split: sum.splits prod.splits if_splits)

text \<open>How a batch ends: all of it settled or the context gone, or at a message that is kept.\<close>

definition batch_end :: "disposition list \<Rightarrow> nat \<Rightarrow> bool" where
  "batch_end ds k \<longleftrightarrow> ds = replicate k Settled \<or> (\<exists>d. d \<noteq> Settled \<and> ds = replicate k Settled @ [d])"

lemma handleBatch_spec:
  assumes "handleBatch fa decode c env i ms w = (ds, w')"
  shows "\<exists>k. batch_end ds k \<and> length ds \<le> length ms
    \<and> cw_state w' = state_after fa decode c env i (take (length ds) ms)
        (cw_state w)
    \<and> cw_queue w' = (if last (Settled # ds) = Deferred
         then hide_all c (wholeSeconds (backoff_after fa (co_backoff c) (qm_ReceiveCount (ms ! k)))) (drop k ms)
                (delete_all c (take k ms) (cw_queue w))
         else delete_all c (take k ms) (cw_queue w))
    \<and> set (cw_held w') = set (cw_held w) - qm_ReceiptHandle `
         set (if last (Settled # ds) \<in> {Deferred, Poisoned} then ms else take k ms)"
  using assms
proof (induction ms arbitrary: i w ds w')
  case Nil
  then show ?case by (intro exI [of _ 0]) (auto simp: batch_end_def)
next
  case (Cons m behind)
  show ?case
  proof (cases "me_stopped (env i)")
    case True
    with Cons.prems show ?thesis by (intro exI [of _ 0]) (auto simp: batch_end_def)
  next
    case running: False
    obtain d dur s where h: "consumer_handle fa decode c (me_submit (env i)) (me_cancelled (env i)) m
        (me_others (env i) (cw_state w)) = ((d, dur), s)" by (metis prod.exhaust)
    show ?thesis
    proof (cases d)
      case Settled
      let ?w = "consumer_acknowledge c m (w\<lparr>cw_state := s\<rparr>)"
      obtain ds' w'' where rest: "handleBatch fa decode c env (Suc i) behind ?w = (ds', w'')" by (cases "handleBatch fa decode c env (Suc i) behind ?w")
      with Cons.prems running h Settled have eq: "ds = disposition.Settled # ds'" "w' = w''" by auto
      from Cons.IH [OF rest] obtain k where k: "batch_end ds' k" "length ds' \<le> length behind"
        "cw_state w'' = state_after fa decode c env (Suc i) (take (length ds') behind) (cw_state ?w)"
        "cw_queue w'' = (if last (disposition.Settled # ds') = Deferred
           then hide_all c (wholeSeconds (backoff_after fa (co_backoff c) (qm_ReceiveCount (behind ! k)))) (drop k behind)
                  (delete_all c (take k behind) (cw_queue ?w))
           else delete_all c (take k behind) (cw_queue ?w))"
        "set (cw_held w'') = set (cw_held ?w) - qm_ReceiptHandle `
           set (if last (disposition.Settled # ds') \<in> {Deferred, Poisoned} then behind else take k behind)" by blast
      have "batch_end ds (Suc k)" using k(1) by (auto simp: batch_end_def eq)
      moreover have "last (disposition.Settled # ds) = last (disposition.Settled # ds')" by (simp add: eq)
      ultimately show ?thesis using k(2-5) eq h
        by (intro exI [of _ "Suc k"]) (auto simp: consumer_acknowledge_def held_done_def)
    next
      case Deferred
      with Cons.prems running h have eq: "ds = [disposition.Deferred]" "w' = fold (consumer_hide c dur) (m # behind) (w\<lparr>cw_state := s\<rparr>)"
        by auto
      from handle_not_deferred [OF h Deferred] show ?thesis
        unfolding eq fold_hide by (intro exI [of _ 0]) (simp add: batch_end_def h fold_hide comp_def)
    next
      case Poisoned
      with Cons.prems running h have eq: "ds = [disposition.Poisoned]" "w' = fold consumer_leave (m # behind) (w\<lparr>cw_state := s\<rparr>)"
        by auto
      show ?thesis unfolding eq fold_leave by (intro exI [of _ 0]) (simp add: batch_end_def h fold_leave)
    next
      case Abandoned
      with Cons.prems running h show ?thesis by (intro exI [of _ 0]) (auto simp: batch_end_def)
    qed
  qed
qed

lemma state_after_snoc:
  "state_after fa decode c env i (ms @ [m]) s =
     snd (consumer_handle fa decode c (me_submit (env (i + length ms))) (me_cancelled (env (i + length ms))) m
       (me_others (env (i + length ms)) (state_after fa decode c env i ms s)))"
  by (induction ms arbitrary: i s) simp_all

lemma handleBatch_nth:
  assumes "handleBatch fa decode c env i ms w = (ds, w')" "j < length ds"
  shows "ds ! j = fst (fst (consumer_handle fa decode c (me_submit (env (i + j))) (me_cancelled (env (i + j))) (ms ! j)
    (me_others (env (i + j)) (state_after fa decode c env i (take j ms) (cw_state w)))))"
  using assms
proof (induction ms arbitrary: i w ds w' j)
  case (Cons m behind)
  from Cons.prems have running: "\<not> me_stopped (env i)" by auto
  obtain d dur s where h: "consumer_handle fa decode c (me_submit (env i)) (me_cancelled (env i)) m
      (me_others (env i) (cw_state w)) = ((d, dur), s)" by (metis prod.exhaust)
  show ?case
  proof (cases j)
    case 0
    with Cons.prems running h show ?thesis by (cases d) (auto simp: case_prod_beta Let_def)
  next
    case (Suc j')
    let ?w = "consumer_acknowledge c m (w\<lparr>cw_state := s\<rparr>)"
    from Cons.prems running h Suc obtain ds' where ds: "ds = d # ds'" "d = Settled"
      "handleBatch fa decode c env (Suc i) behind ?w = (ds', w')"
      by (cases d) (auto simp: case_prod_beta Let_def)
    have "cw_state ?w = s" by (simp add: consumer_acknowledge_def)
    with Cons.IH [OF ds(3), of j'] Cons.prems(2) ds(1,2) Suc h show ?thesis by simp
  qed
qed simp

text \<open>
  C37: a batch is applied in order, and nothing past a message that is kept. Whatever the
  messages, the failures and the moment the consumer is stopped, there is a number \<open>k\<close> such
  that the first \<open>k\<close> messages, and no others, were deleted, each after its operation was
  submitted, in the state the one before it left, and answered; at most one more message was
  handled, and it was not settled. If that one failed for now, it and everything behind it are
  hidden for the same time, its backoff in whole seconds; if it can never be handled, the
  queue is left alone. Only messages that were not decided about are still held.
\<close>

theorem batch_handled_in_order:
  assumes "handleBatch fa decode c env 0 ms w = (ds, w')"
  shows "\<exists>k \<le> length ms. (ds = replicate k Settled \<or> (\<exists>d. d \<noteq> Settled \<and> ds = replicate k Settled @ [d]))
    \<and> length ds \<le> length ms
    \<and> (\<forall>j < k. \<exists>e cmd a. parseEnvelope decode (qm_Body (ms ! j)) = Inr e \<and> consumer_submission c e (ms ! j) = Inr cmd
         \<and> me_submit (env j) cmd (me_others (env j) (state_after fa decode c env 0 (take j ms) (cw_state w)))
           = (Inr a, state_after fa decode c env 0 (take (Suc j) ms) (cw_state w)))
    \<and> cw_state w' = state_after fa decode c env 0 (take (length ds) ms) (cw_state w)
    \<and> cw_queue w' = (if last (Settled # ds) = Deferred
         then hide_all c (wholeSeconds (backoff_after fa (co_backoff c) (qm_ReceiveCount (ms ! k)))) (drop k ms)
                (delete_all c (take k ms) (cw_queue w))
         else delete_all c (take k ms) (cw_queue w))
    \<and> set (cw_held w') = set (cw_held w) - qm_ReceiptHandle `
         set (if last (Settled # ds) \<in> {Deferred, Poisoned} then ms else take k ms)"
proof -
  from handleBatch_spec [OF assms] obtain k where k: "batch_end ds k" "length ds \<le> length ms"
    and rest: "cw_state w' = state_after fa decode c env 0 (take (length ds) ms) (cw_state w)"
      "cw_queue w' = (if last (Settled # ds) = Deferred
         then hide_all c (wholeSeconds (backoff_after fa (co_backoff c) (qm_ReceiveCount (ms ! k)))) (drop k ms)
                (delete_all c (take k ms) (cw_queue w))
         else delete_all c (take k ms) (cw_queue w))"
      "set (cw_held w') = set (cw_held w) - qm_ReceiptHandle `
         set (if last (Settled # ds) \<in> {Deferred, Poisoned} then ms else take k ms)" by blast
  have le: "k \<le> length ms" using k by (auto simp: batch_end_def)
  have "\<exists>e cmd a. parseEnvelope decode (qm_Body (ms ! j)) = Inr e \<and> consumer_submission c e (ms ! j) = Inr cmd
      \<and> me_submit (env j) cmd (me_others (env j) (state_after fa decode c env 0 (take j ms) (cw_state w)))
        = (Inr a, state_after fa decode c env 0 (take (Suc j) ms) (cw_state w))" if j: "j < k" for j
  proof -
    let ?s = "me_others (env j) (state_after fa decode c env 0 (take j ms) (cw_state w))"
    have len: "j < length ds" "ds ! j = Settled" using k(1) j by (auto simp: batch_end_def nth_append)
    have "take (Suc j) ms = take j ms @ [ms ! j]" using j le by (simp add: take_Suc_conv_app_nth)
    with state_after_snoc [of fa decode c env 0 "take j ms" "ms ! j" "cw_state w"] j le
    have "snd (consumer_handle fa decode c (me_submit (env j)) (me_cancelled (env j)) (ms ! j) ?s)
        = state_after fa decode c env 0 (take (Suc j) ms) (cw_state w)" by (simp add: min_def)
    moreover have "fst (fst (consumer_handle fa decode c (me_submit (env j)) (me_cancelled (env j)) (ms ! j) ?s)) = Settled"
      using handleBatch_nth [OF assms len(1)] len(2) by simp
    ultimately show ?thesis
      by (auto simp: consumer_handle_def split: sum.splits prod.splits if_splits)
  qed
  with k rest le show ?thesis unfolding batch_end_def by blast
qed

text \<open>
  C4: a message is applied once, however often it is delivered. Take a message whose
  operation, submitted under the consumer's inbox identity, was answered afresh. Its first
  delivery is settled; and a later delivery of the same body, with any attributes and any
  receive count, at any later moment of the service, is settled too and changes nothing at
  all: not the wallet, not the ledger, not the outbox, not the inbox. A delivery that does not
  settle, whatever the reason, changed nothing either.
\<close>

theorem message_applied_once:
  assumes "store_ok st" "call_env_ok e" "call_env_ok e'" "parseEnvelope decode (qm_Body m) = Inr env"
    "consumer_submission c env m = Inr cmd" "submit_alone uuid_Parse e cmd st = (Inr a, st1)"
    "\<not> res_IdempotentReplay a" "(service_step uuid_Parse)\<^sup>*\<^sup>* st1 st2" "qm_Body m' = qm_Body m"
  shows "consumer_handle fa decode c (submit_alone uuid_Parse e) cancelled m st = ((Settled, 0), st1)
    \<and> consumer_handle fa decode c (submit_alone uuid_Parse e') cancelled' m' st2 = ((Settled, 0), st2)
    \<and> (\<forall>st d dur st'. consumer_handle fa decode c (submit_alone uuid_Parse e) cancelled m st = ((d, dur), st') \<and> d \<noteq> Settled
         \<longrightarrow> st' = st)"
  using wagering.redelivered [OF assms] wagering.handle_kept by blast

text \<open>
  A message that failed for now is hidden for a time the queue accepts. Build a consumer;
  whatever the receive count, the delay before the next delivery is a whole number of seconds,
  at least one and at most the twelve hours the queue allows, and no less than the initial
  delay of the backoff: changing the visibility is never refused for the duration.
\<close>

theorem hidden_within_bounds:
  assumes "NewConsumer cfg = Inr c" "arith_ok fa"
    "consumer_handle fa decode c submit cancelled m s = ((Deferred, dur), s')"
  shows "dur mod Second = 0 \<and> Second \<le> dur \<and> dur \<le> maxVisibilityTimeout \<and> bo_Initial (co_backoff c) \<le> dur
    \<and> (q_url (co_queue c) = Some url \<and> qm_ReceiptHandle m \<noteq> [] \<longrightarrow>
       Queue_ChangeVisibility (co_queue c) (qm_ReceiptHandle m) dur q
         = (case cl_ChangeMessageVisibility (qs_client (q_settings (co_queue c))) url (qm_ReceiptHandle m) (sqs_seconds dur) q of
              (err, q') \<Rightarrow> (sqs_fail err, q'))
       \<and> sint (sqs_seconds dur) = dur div Second)"
proof -
  have valid: "worker_backoff_validate (co_backoff c) = Inr ()" and mx: "bo_Max (co_backoff c) \<le> maxVisibility"
    using assms(1) by (auto simp: NewConsumer_def Let_def split: if_splits option.splits sum.splits)
  have "bo_Max (co_backoff c) \<le> 2 ^ 53" using mx by (simp add: maxVisibility_def Second_def)
  note between = backoff_after_between [OF assms(2) valid this, of "qm_ReceiveCount m"]
  have dur: "dur = wholeSeconds (backoff_after fa (co_backoff c) (qm_ReceiveCount m))"
    using handle_not_deferred [OF assms(3)] by simp
  note whole = wholeSeconds_props [of "backoff_after fa (co_backoff c) (qm_ReceiveCount m)", folded dur]
  have bounds: "0 \<le> dur" "dur \<le> maxVisibilityTimeout"
  proof -
    show "0 \<le> dur" using whole(2) by (simp add: Second_def)
    obtain k where k: "dur = Second * k" using whole(1) by (auto simp: mod_eq_0_iff_dvd)
    have "dur < maxVisibilityTimeout + Second \<or> dur = Second"
      using whole(4) between mx worker_backoff_validD(1) [OF valid] by (auto simp: maxVisibility_def maxVisibilityTimeout_def)
    then show "dur \<le> maxVisibilityTimeout" unfolding k sqs_bounds by auto
  qed
  from whole between bounds show ?thesis
    by (auto simp: Queue_ChangeVisibility_def queue_resolved_def sint_sqs_seconds)
qed

section \<open>A sample message\<close>

definition sample_inbound :: inbound_envelope where
  "sample_inbound =
     \<lparr>ie_MessageID = ''msg-1'', ie_Type = MessageType, ie_OccurredAt = 15,
      ie_Data = \<lparr>io_Provider = ''acme'', io_ExternalTransactionID = ''ext-1'', io_IdempotencyKey = ''key-1'',
        io_PlayerID = ''player-1'', io_WalletID = ''w13'', io_RoundID = ''round-1'', io_GameID = ''game-1'',
        io_Kind = ''BET'', io_Amount = ''5.00'', io_Currency = ''BRL'', io_ReferenceExternalTransactionID = []\<rparr>\<rparr>"

definition sample_decode :: "string \<Rightarrow> decode_error + inbound_envelope" where
  "sample_decode body = (if body = ''bet'' then Inr sample_inbound else Inl OtherDecodeError)"

definition sample_delivery :: "int \<Rightarrow> queue_message" where
  "sample_delivery n =
     \<lparr>qm_MessageID = ''q-1'', qm_ReceiptHandle = ''r-1'', qm_Body = ''bet'', qm_Attributes = [], qm_ReceiveCount = n\<rparr>"

definition idle_client :: "unit sqs_client" where
  "idle_client =
     \<lparr>cl_GetQueueUrl = (\<lambda>name q. (Inr (Some name), q)), cl_GetQueueAttributes = (\<lambda>url names q. None),
      cl_SendMessageBatch = (\<lambda>url es q. (Inr \<lparr>Successful = [], Failed_entries = []\<rparr>, q)),
      cl_ReceiveMessage = (\<lambda>input q. (Inr [], q)), cl_DeleteMessage = (\<lambda>url handle q. (None, q)),
      cl_ChangeMessageVisibility = (\<lambda>url handle t q. (None, q))\<rparr>"

definition sample_consumer :: "unit consumer" where
  "sample_consumer =
     \<lparr>co_queue = \<lparr>q_settings = \<lparr>qs_client = idle_client, qs_name = ''wagers.fifo'', qs_resolveTimeout = 5 * Second,
        qs_maxMessages = 10, qs_waitTime = 20, qs_visibilityTimeout = None\<rparr>, q_url = Some ''wagers.fifo''\<rparr>,
      co_name = ''consumer-1'', co_concurrency = 4, co_backoff = defaultConsumerBackoff, co_drain = 20 * Second,
      co_maxReceives = 5, co_lifecycle = new_lifecycle\<rparr>"

definition sample_call :: "transaction_id \<Rightarrow> instant \<Rightarrow> call_env" where
  "sample_call i now = \<lparr>ca_service = sample_service, ca_ids = sample_ids i, ca_nowInbox = now, ca_now = now\<rparr>"

lemma sample_queue_names: "opaqueID ''msg-1''" "opaqueID ''consumer-1''"
  unfolding opaqueID_iff by (rule opaque_ok_ascii; simp)+

lemma sample_not_blank: "\<not> blank ''acme''" "\<not> blank ''consumer-1''"
  by (simp_all add: blank_def runes_ascii TrimSpace_def IsSpace_def)

lemma sample_parsed: "parseEnvelope sample_decode (qm_Body (sample_delivery n)) = Inr sample_inbound"
  by (simp add: parseEnvelope_def sample_decode_def sample_delivery_def envelope_validate_def sample_inbound_def
      sample_queue_names MessageType_def)

definition sample_command_of_queue :: submit_operation where
  "sample_command_of_queue =
     (sample_submission ''5.00'' ''msg-1'')
       \<lparr>sb_Principal := \<lparr>pr_kind = ProviderPrincipal, pr_provider = ''acme'', pr_subject = ''consumer-1''\<rparr>,
        sb_Inbox := Some \<lparr>im_Consumer = ''consumer-1'', im_MessageID = ''msg-1'', im_BodyHash = bodyHash ''bet''\<rparr>\<rparr>"

lemma sample_submission_of_queue:
  "consumer_submission sample_consumer sample_inbound (sample_delivery n) = Inr sample_command_of_queue"
proof -
  have "\<not> opaqueID []" by (simp add: opaqueID_def)
  moreover have "NewProvider ''acme'' = Inr ''acme''" by (simp add: NewProvider_def)
  moreover have "NewProviderPrincipal ''acme'' ''consumer-1''
      = Inr \<lparr>pr_kind = ProviderPrincipal, pr_provider = ''acme'', pr_subject = ''consumer-1''\<rparr>"
    using sample_not_blank by (simp add: NewProviderPrincipal_def)
  ultimately show ?thesis
    by (simp add: consumer_submission_def sample_inbound_def sample_consumer_def
        correlationOf_def sample_delivery_def usableCorrelation_def ToString_def sample_command_of_queue_def
        sample_submission_def envelope_fields_def)
qed

lemma sample_applied:
  obtains t st where "submit_alone sample_parse (sample_call 11 20000) sample_command_of_queue sample_store = (Inr (resultOf t False), st)"
    "tx_id t = 11"
proof -
  have "admit sample_parse (sample_ids 11) sample_command_of_queue = admit sample_parse (sample_ids 11) (sample_submission ''5.00'' ''msg-1'')"
    by (simp add: admit_def MaySubmitAs_def sample_command_of_queue_def sample_submission_def)
  also have "\<dots> = Inr (sample_command Bet 500 [], payloadHash (sample_command Bet 500 []))"
    using sample_admitted [OF sample_amounts(1), of 11 "''msg-1''"] by (simp add: sample_command_def)
  finally have admit: "admit sample_parse (sample_ids 11) sample_command_of_queue
      = Inr (sample_command Bet 500 [], payloadHash (sample_command Bet 500 []))" .
  have "opaque_id ''consumer-1''" "opaque_id ''msg-1''"
    using sample_queue_names by (auto simp: opaque_id_def opaqueID_iff)
  then have "\<exists>st1. claim_inbox sample_command_of_queue 20000 sample_store sample_store = Inr st1"
    by (simp add: claim_inbox_def sample_command_of_queue_def Inbox_Find_def Inbox_Record_def exec_def insert_inbox_def
        sample_store_def empty_store_def)
  then obtain st1 where claim: "claim_inbox sample_command_of_queue 20000 sample_store sample_store = Inr st1" by blast
  have corr: "opaque_id (sb_Correlation sample_command_of_queue)"
    using \<open>opaque_id ''msg-1''\<close> by (simp add: sample_command_of_queue_def sample_submission_def)
  obtain t st where "Wagering_Submit sample_parse sample_service (sample_ids 11) 20000 20000 sample_command_of_queue (alone sample_store)
      = (Inr (resultOf t False), st)" "tx_id t = c_TransactionID (sample_command Bet 500 [])"
    by (rule submit_succeeds [OF admit sample_admissible claim corr]) blast
  with that show ?thesis by (simp add: submit_alone_def sample_call_def sample_command_def)
qed

theorem message_applied_once_witness:
  "\<exists>st. consumer_handle exact_arith sample_decode sample_consumer (submit_alone sample_parse (sample_call 11 20000)) False
       (sample_delivery 1) sample_store = ((Settled, 0), st)
     \<and> consumer_handle exact_arith sample_decode sample_consumer (submit_alone sample_parse (sample_call 21 30000)) False
       (sample_delivery 2) st = ((Settled, 0), st)"
proof -
  obtain t st where run: "submit_alone sample_parse (sample_call 11 20000) sample_command_of_queue sample_store = (Inr (resultOf t False), st)"
    by (rule sample_applied)
  have "call_env_ok (sample_call 11 20000)" "call_env_ok (sample_call 21 30000)"
    by (simp_all add: call_env_ok_def sample_call_def sample_ids_def)
  note applied = message_applied_once [OF sample_store_ok this sample_parsed sample_submission_of_queue run]
  have "\<not> res_IdempotentReplay (resultOf t False)" "qm_Body (sample_delivery 2) = qm_Body (sample_delivery 1)"
    by (simp_all add: resultOf_def sample_delivery_def)
  from applied [OF this(1) rtranclp.rtrancl_refl this(2)] show ?thesis by blast
qed

theorem batch_handled_in_order_witness:
  "\<exists>ds w'. handleBatch exact_arith sample_decode sample_consumer
       (\<lambda>_. \<lparr>me_stopped = False, me_others = (\<lambda>s. s), me_submit = submit_alone sample_parse (sample_call 11 20000), me_cancelled = False\<rparr>)
       0 [sample_delivery 1, (sample_delivery 1)\<lparr>qm_Body := ''?''\<rparr>] \<lparr>cw_state = sample_store, cw_queue = (), cw_held = [''r-1'']\<rparr> = (ds, w')
     \<and> length ds \<le> 2"
proof -
  let ?run = "handleBatch exact_arith sample_decode sample_consumer
       (\<lambda>_. \<lparr>me_stopped = False, me_others = (\<lambda>s. s), me_submit = submit_alone sample_parse (sample_call 11 20000), me_cancelled = False\<rparr>)
       0 [sample_delivery 1, (sample_delivery 1)\<lparr>qm_Body := ''?''\<rparr>] \<lparr>cw_state = sample_store, cw_queue = (), cw_held = [''r-1'']\<rparr>"
  obtain ds w' where run: "?run = (ds, w')" by (cases ?run)
  have "length ds \<le> length [sample_delivery 1, (sample_delivery 1)\<lparr>qm_Body := ''?''\<rparr>]"
    using batch_handled_in_order [OF run] by blast
  then have "length ds \<le> 2" by simp
  with run show ?thesis by blast
qed

definition sample_consumer_config :: "unit consumer_config" where
  "sample_consumer_config =
     \<lparr>cc_Queue = Some (co_queue sample_consumer), cc_Wagering = Some (), cc_Name = ''consumer-1'', cc_Concurrency = 0,
      cc_Backoff = zero_backoff, cc_DrainTimeout = 0, cc_MaxReceiveCount = 5, cc_Logger = Some ()\<rparr>"

lemma sample_consumer_built: "NewConsumer sample_consumer_config = Inr sample_consumer"
  by (simp add: NewConsumer_def sample_consumer_config_def sample_queue_names worker_backoff_validate_def defaultConsumerBackoff_def
      Let_def maxVisibility_def Second_def sample_consumer_def orDefault_def orDefaultDuration_def defaultConcurrency_def
      defaultDrainTimeout_def)

theorem hidden_within_bounds_witness:
  "\<exists>dur. consumer_handle exact_arith sample_decode sample_consumer (\<lambda>cmd s. (Inl notFound, s)) False (sample_delivery 3) ()
       = ((Deferred, dur), ())
     \<and> Second \<le> dur \<and> dur \<le> maxVisibilityTimeout"
proof -
  have "\<exists>dur. consumer_handle exact_arith sample_decode sample_consumer (\<lambda>cmd s. (Inl notFound, s)) False (sample_delivery 3) ()
      = ((Deferred, dur), ())"
    by (simp add: consumer_handle_def sample_parsed sample_submission_of_queue transient_class_def)
  then obtain dur where run: "consumer_handle exact_arith sample_decode sample_consumer (\<lambda>cmd s. (Inl notFound, s)) False
      (sample_delivery 3) () = ((Deferred, dur), ())" by blast
  from hidden_within_bounds [OF sample_consumer_built exact_arith_ok run] run show ?thesis by blast
qed

end
