(* ===== verification/ReferenceWorker.thy ===== *)
theory ReferenceWorker
  imports Workers UseCases
begin

text \<open>
  The reference worker (\<^verbatim>\<open>src/internal/workers/reference.go\<close>): its configuration, one turn on
  the application's resume door, the pace of its loop, and starting and stopping. The door is
  whatever \<open>Resumer\<close> the worker was given, a function of the principal and of the state it acts
  on. Logging, counting and spans are left out.
\<close>

section \<open>Configuration\<close>

definition defaultResumeInterval :: duration where "defaultResumeInterval = Second"

definition defaultResumeBackoff :: worker_backoff where
  "defaultResumeBackoff = \<lparr>bo_Initial = 2 * Second, bo_Factor = Num 2, bo_Max = 60 * Second\<rparr>"

text \<open>The door and the logger are only looked at for being given.\<close>

record reference_config =
  rc_Wagering :: "unit option"
  rc_Name :: string
  rc_Interval :: duration
  rc_Backoff :: worker_backoff
  rc_DrainTimeout :: duration
  rc_Logger :: "unit option"

record reference_worker =
  rw_principal :: principal
  rw_name :: string
  rw_interval :: duration
  rw_drain :: duration
  rw_backoff :: worker_backoff
  rw_lifecycle :: lifecycle

definition NewReferenceWorker :: "reference_config \<Rightarrow> reference_worker eres" where
  "NewReferenceWorker cfg =
     (if rc_Wagering cfg = None then Inl (Wrapped [])
      else if rc_Logger cfg = None then Inl (Wrapped [])
      else if rc_Interval cfg < 0 then Inl (Wrapped [])
      else if rc_DrainTimeout cfg < 0 then Inl (Wrapped [])
      else (case NewServicePrincipal (rc_Name cfg) of
              Inl err \<Rightarrow> Inl (Wrapped [err])
            | Inr pr \<Rightarrow>
                (let backoff = (if rc_Backoff cfg = zero_backoff then defaultResumeBackoff else rc_Backoff cfg)
                 in case worker_backoff_validate backoff of
                      Inl err \<Rightarrow> Inl err
                    | Inr _ \<Rightarrow>
                        Inr \<lparr>rw_principal = pr, rw_name = rc_Name cfg,
                          rw_interval = orDefaultDuration (rc_Interval cfg) defaultResumeInterval,
                          rw_drain = orDefaultDuration (rc_DrainTimeout cfg) defaultDrainTimeout,
                          rw_backoff = backoff, rw_lifecycle = new_lifecycle\<rparr>)))"

section \<open>The loop\<close>

text \<open>Whether the turn claimed anything.\<close>

definition reference_turn ::
  "(principal \<Rightarrow> 's \<Rightarrow> resume_outcome eres \<times> 's) \<Rightarrow> reference_worker \<Rightarrow> 's \<Rightarrow> bool eres \<times> 's" where
  "reference_turn resume w s =
     (case resume (rw_principal w) s of
        (Inl err, s') \<Rightarrow> (Inl err, s')
      | (Inr outcome, s') \<Rightarrow> if \<not> ro_Claimed outcome then (Inr False, s') else (Inr True, s'))"

text \<open>What a turn does to the count of failures, and how long the loop waits; zero is going straight round.\<close>

definition reference_pace :: "float_arith \<Rightarrow> reference_worker \<Rightarrow> nat \<Rightarrow> bool eres \<Rightarrow> nat \<times> duration" where
  "reference_pace fa w failures outcome =
     (case outcome of
        Inl _ \<Rightarrow> (Suc failures, backoff_after fa (rw_backoff w) (int (Suc failures)))
      | Inr claimed \<Rightarrow> if claimed then (0, 0) else (0, rw_interval w))"

text \<open>
  The loop until its context ends, which is after as many turns as there are doors: \<open>doors\<close> is
  the door as each turn finds it, with its clock and identifiers.
\<close>

fun reference_run ::
  "float_arith \<Rightarrow> reference_worker \<Rightarrow> (principal \<Rightarrow> 's \<Rightarrow> resume_outcome eres \<times> 's) list \<Rightarrow> nat \<Rightarrow> 's
     \<Rightarrow> (bool eres \<times> duration) list \<times> 's" where
  "reference_run fa w [] failures s = ([], s)"
| "reference_run fa w (resume # doors) failures s =
     (let (outcome, s') = reference_turn resume w s;
          (failures', pause) = reference_pace fa w failures outcome;
          (rest, s'') = reference_run fa w doors failures' s'
      in ((outcome, pause) # rest, s''))"

section \<open>Starting and stopping\<close>

definition ReferenceWorker_Start :: "reference_worker \<Rightarrow> unit eres \<times> reference_worker" where
  "ReferenceWorker_Start w =
     (let (r, lc) = begin_start (rw_lifecycle w) in (r, w\<lparr>rw_lifecycle := lc\<rparr>))"

text \<open>\<open>drained\<close> says whether the turn in progress came back within the deadline.\<close>

definition ReferenceWorker_Stop :: "bool \<Rightarrow> reference_worker \<Rightarrow> unit eres \<times> reference_worker" where
  "ReferenceWorker_Stop drained w =
     (let (first, lc) = begin_stop (rw_lifecycle w); w' = w\<lparr>rw_lifecycle := lc\<rparr>
      in if \<not> first then (Inr (), w')
         else if \<not> drained then (Inl (Wrapped []), w') else (Inr (), w'))"

end
