(* ===== verification/Resumption.thy ===== *)
theory Resumption
  imports ReferenceWorker Samples
begin

text \<open>
  The reference worker on the service it drives: a claimed turn settles its operation or puts
  it off, so the loop comes to rest, and it rests only when nothing is due.
\<close>

section \<open>What a turn does to the parked operations\<close>

definition parked_row :: "transaction_row \<Rightarrow> bool" where
  "parked_row r \<longleftrightarrow> tr_status r = ''PENDING_REFERENCE''"

definition parked_rows :: "store \<Rightarrow> transaction_row list" where
  "parked_rows st = filter parked_row (db_transactions st)"

definition due_rows :: "instant \<Rightarrow> store \<Rightarrow> transaction_row list" where
  "due_rows now st = filter (is_due now) (db_transactions st)"

lemma filter_map_le:
  assumes "\<And>r. r \<in> set rs \<Longrightarrow> P (g r) \<Longrightarrow> P r"
  shows "length (filter P (map g rs)) \<le> length (filter P rs)"
  using assms by (induction rs) (auto simp: le_SucI)

lemma filter_map_less:
  assumes "\<And>r. r \<in> set rs \<Longrightarrow> P (g r) \<Longrightarrow> P r" "s \<in> set rs" "P s" "\<not> P (g s)"
  shows "length (filter P (map g rs)) < length (filter P rs)"
  using assms
proof (induction rs)
  case (Cons r rs)
  have le: "length (filter P (map g rs)) \<le> length (filter P rs)" by (rule filter_map_le) (use Cons.prems(1) in auto)
  show ?case
  proof (cases "s = r")
    case True
    with le Cons.prems(3,4) show ?thesis by simp
  next
    case False
    with Cons have "length (filter P (map g rs)) < length (filter P rs)" by auto
    with Cons.prems(1) [of r] show ?thesis by auto
  qed
qed simp

text \<open>
  An operation is carried forward when it is settled, or put off past the instant while no other
  operation falls due.
\<close>

definition carries :: "instant \<Rightarrow> transaction_id \<Rightarrow> transaction_row list \<Rightarrow> (transaction_row \<Rightarrow> transaction_row) \<Rightarrow> bool" where
  "carries now i rows g \<longleftrightarrow>
     (\<forall>r \<in> set rows. parked_row (g r) \<longrightarrow> parked_row r)
     \<and> ((\<forall>r \<in> set rows. tr_id r = Some i \<longrightarrow> \<not> parked_row (g r))
        \<or> (\<forall>r \<in> set rows. (is_due now (g r) \<longrightarrow> is_due now r) \<and> (tr_id r = Some i \<longrightarrow> \<not> is_due now (g r))))"

lemma due_parked: "is_due now r \<Longrightarrow> parked_row r"
  by (simp add: is_due_def parked_row_def)

lemma due_le_parked: "length (due_rows now st) \<le> length (parked_rows st)"
  unfolding due_rows_def parked_rows_def
  by (induction "db_transactions st" rule: list.induct) (use due_parked in \<open>auto simp: length_filter_conv_card intro!: card_mono\<close>)

text \<open>What falls with every operation carried forward.\<close>

definition work_left :: "instant \<Rightarrow> store \<Rightarrow> nat" where
  "work_left now st = (let n = length (parked_rows st) in n * n + length (due_rows now st))"

lemma carries_less:
  assumes "carries now i (db_transactions st) g" "db_transactions st' = map g (db_transactions st)"
    "s \<in> set (db_transactions st)" "tr_id s = Some i" "is_due now s"
  shows "work_left now st' < work_left now st"
proof -
  have le: "length (parked_rows st') \<le> length (parked_rows st)"
    unfolding parked_rows_def assms(2) by (rule filter_map_le) (use assms(1) in \<open>auto simp: carries_def\<close>)
  from assms(1) consider (settled) "\<forall>r \<in> set (db_transactions st). tr_id r = Some i \<longrightarrow> \<not> parked_row (g r)"
    | (later) "\<forall>r \<in> set (db_transactions st). (is_due now (g r) \<longrightarrow> is_due now r) \<and> (tr_id r = Some i \<longrightarrow> \<not> is_due now (g r))"
    by (auto simp: carries_def)
  then show ?thesis
  proof cases
    case settled
    have "length (parked_rows st') < length (parked_rows st)"
      unfolding parked_rows_def assms(2)
      by (rule filter_map_less [of _ _ _ s]) (use assms settled due_parked in \<open>auto simp: carries_def\<close>)
    then obtain m where m: "length (parked_rows st) = Suc m" "length (parked_rows st') \<le> m"
      by (cases "length (parked_rows st)") auto
    then have "length (parked_rows st') * length (parked_rows st') \<le> m * m" by (simp add: mult_le_mono)
    moreover have "length (due_rows now st') \<le> m" using due_le_parked [of now st'] m(2) by linarith
    ultimately show ?thesis using m(1) by (simp add: work_left_def Let_def)
  next
    case later
    have "length (due_rows now st') < length (due_rows now st)"
      unfolding due_rows_def assms(2) by (rule filter_map_less [of _ _ _ s]) (use assms later in auto)
    with mult_le_mono [OF le le] show ?thesis by (simp add: work_left_def Let_def)
  qed
qed

section \<open>The statements of a turn\<close>

lemma id_unique:
  assumes "structure_ok st" "r \<in> set (db_transactions st)" "s \<in> set (db_transactions st)" "tr_id r = tr_id s"
    "tr_id s = Some i"
  shows "r = s"
  using collision_free_eq [OF structure_okD(7) [OF assms(1)] assms(2,3)] collision_same_id assms(4,5) by metis

lemma update_transaction_rows:
  assumes "update_transaction i f st = Inr (n, st')" "n \<noteq> 0" "structure_ok st"
  shows "db_transactions st' = map (\<lambda>r. if tr_id r = Some i then f r else r) (db_transactions st)"
proof -
  from assms obtain old where find: "find (\<lambda>r. tr_id r = Some i) (db_transactions st) = Some old"
    by (cases "find (\<lambda>r. tr_id r = Some i) (db_transactions st)")
      (auto simp: update_transaction_def uuidOf_def)
  note old = find_Some_member [OF find]
  from assms(1) find have "st' = replace_transaction (Some i) (f old) st
      \<or> take_hold (f old) (replace_transaction (Some i) (f old) st) = Inr st'"
    by (auto simp: update_transaction_def uuidOf_def Let_def split: option.splits if_splits)
  then have "db_transactions st' = map (\<lambda>r. if tr_id r = Some i then f old else r) (db_transactions st)"
    by (auto simp: take_hold_tables replace_transaction_def)
  moreover have "r = old" if "r \<in> set (db_transactions st)" "tr_id r = Some i" for r
    using id_unique [OF assms(3) that(1)] old that(2) by auto
  ultimately show ?thesis by auto
qed

lemma move_wallet_rows: "move_wallet e st = Inr (n, st') \<Longrightarrow> db_transactions st' = db_transactions st"
  by (auto simp: move_wallet_def Let_def split: option.splits)

lemma insert_ledger_entry_rows: "insert_ledger_entry row st = Inr st' \<Longrightarrow> db_transactions st' = db_transactions st"
  by (auto simp: insert_ledger_entry_def split: option.splits if_splits)

lemma Outbox_Append_rows: "Outbox_Append envs st = Inr st' \<Longrightarrow> db_transactions st' = db_transactions st"
proof (induction envs arbitrary: st)
  case (Cons env envs)
  then obtain st1 where st1: "insert_outbox env st = Inr st1" "Outbox_Append envs st1 = Inr st'"
    by (auto split: sum.splits)
  from st1(1) have "db_transactions st1 = db_transactions st"
    by (auto simp: insert_outbox_def Let_def split: if_splits)
  with Cons.IH [OF st1(2)] show ?case by simp
qed simp

lemma emit_rows: "emit ids evs trace now st = Inr st' \<Longrightarrow> db_transactions st' = db_transactions st"
  by (auto simp: emit_def dest: Outbox_Append_rows split: if_splits)

lemma writer_settle_rows:
  assumes "writer_settle out due st = Inr st'" "o_Transaction out = Some t" "structure_ok st"
  shows "db_transactions st' = map (\<lambda>r. if tr_id r = Some (tx_id t) then settled_row (snapshotOf t) due r else r) (db_transactions st)"
proof -
  have [simp]: "s_ID (snapshotOf t) = tx_id t" by (simp add: snapshotOf_eq snapshot_of_def)
  from assms(1,2) obtain n st1 where
    upd: "update_transaction (tx_id t) (settled_row (snapshotOf t) due) st = Inr (n, st1)" "n \<noteq> 0"
    and rest: "(case o_LedgerEntry out of None \<Rightarrow> Inr st1 | Some e \<Rightarrow>
        bindE (exec (move_wallet e) st1) (\<lambda>(n, st). if n = 0
          then Inl (AsRetryable (Wrapped [Sentinel ErrLostUpdate])) else exec (insert_ledger_entry (ledgerArgs e)) st))
      = Inr st'"
    by (auto simp: writer_settle_def encoded_def Let_def split: if_splits)
  have "db_transactions st' = db_transactions st1"
    using rest by (auto split: option.splits if_splits prod.splits dest!: move_wallet_rows insert_ledger_entry_rows)
  with update_transaction_rows [OF upd assms(3)] show ?thesis by simp
qed

lemma wake_waiters_rows:
  assumes "wake_waiters t i now st = Inr (n, st')"
  obtains g where "db_transactions st' = map g (db_transactions st)" "\<forall>r. tr_status (g r) = tr_status r"
    "tx_status t \<noteq> Processed \<longrightarrow> (\<forall>r. g r = r)"
proof (cases "tx_status t = Processed \<and> Tx_ExternalTransactionID t \<noteq> None")
  case True
  then obtain op where "MakeDue op now st = Inr (n, st')" using assms by (auto simp: wake_waiters_def)
  then show ?thesis
    by (intro that [of "\<lambda>r. if waits_on op r then r\<lparr>tr_nextAttemptAt := Some (micros now)\<rparr> else r"]) (use True in \<open>auto simp: MakeDue_def\<close>)
next
  case False
  with assms have "st' = st" by (auto simp: wake_waiters_def split: if_splits option.splits)
  then show ?thesis by (intro that [of "\<lambda>r. r"]) auto
qed

section \<open>A claimed turn makes progress\<close>

text \<open>
  The column keeps microseconds, so a delay has to be one to put anything off. A deadline that
  was read back is at a whole one.
\<close>

definition schedule_ok :: "wagering \<Rightarrow> bool" where
  "schedule_ok svc \<longleftrightarrow>
     arith_ok (wg_arith svc) \<and> backoff_validate (wg_backoff svc) = Inr () \<and> bo_Max (wg_backoff svc) \<le> 2 ^ 52
     \<and> 1000 \<le> bo_Initial (wg_backoff svc)"

lemma next_after:
  assumes "schedule_ok svc" "deadline = zero_time \<or> now < deadline \<and> whole deadline"
  shows "micros now < micros (backoff_next (wg_arith svc) (wg_backoff svc) attempts now deadline i)"
proof -
  from next_within [of "wg_arith svc" "wg_backoff svc" deadline now attempts i] assms obtain due where
    due: "now + bo_Initial (wg_backoff svc) \<le> due"
      "backoff_next (wg_arith svc) (wg_backoff svc) attempts now deadline i
        = (if deadline \<noteq> zero_time then min due deadline else due)"
    by (auto simp: schedule_ok_def)
  have "micros now < micros due" using due(1) assms(1) by (intro micros_later) (simp add: schedule_ok_def)
  with due(2) assms(2) show ?thesis by (auto simp: min_def micros_less_iff)
qed

text \<open>No path moves a deadline that is set.\<close>

definition same_deadline :: "wager_transaction \<Rightarrow> wager_transaction \<Rightarrow> bool" where
  "same_deadline t t' \<longleftrightarrow> (tx_referenceDeadline t \<noteq> 0 \<longrightarrow> tx_referenceDeadline t' = tx_referenceDeadline t)"

lemma steps_keep_deadline:
  "same_deadline t (fst (reject t c now))" "same_deadline t (fst (wait p t now))"
  "same_deadline t (fst (settle t w moved now))"
  "resolve_named cmd ref t = Inr t' \<Longrightarrow> same_deadline t t'"
proof -
  have rejected: "Tx_Reject c now t = Inr t1 \<Longrightarrow> same_deadline t t1"
    and parked: "MarkPendingReference (p_policy p) now t = Inr t1 \<Longrightarrow> same_deadline t t1"
    and settled: "MarkProcessed (w_balance w) now t = Inr t1 \<Longrightarrow> same_deadline t t1" for c t1
    by (auto simp: same_deadline_def Tx_Reject_Inr_iff MarkPendingReference_Inr_iff MarkProcessed_Inr_iff parked_def)
  have same: "same_deadline t t" by (simp add: same_deadline_def)
  show reject: "same_deadline t (fst (reject t c now))" for c
    by (auto simp: reject_def same split: sum.split dest: rejected)
  show "same_deadline t (fst (wait p t now))"
    by (auto simp: wait_def reject same split: sum.split dest: parked)
  show "same_deadline t (fst (settle t w moved now))"
    by (auto simp: settle_def same split: sum.split dest: settled)
  show "same_deadline t t'" if "resolve_named cmd ref t = Inr t'"
    using resolve_named_steps [OF that] by (simp add: same_deadline_def same_wait_def)
qed

lemma apply_movement_deadline: "same_deadline t (fst (apply_movement t cmd w ref now))"
proof (cases "resolve_named cmd ref t")
  case (Inl err)
  then show ?thesis by (simp add: apply_movement_def same_deadline_def)
next
  case (Inr t1)
  have step: "same_deadline t t'" if "same_deadline t1 t'" for t'
    using that steps_keep_deadline(4) [OF Inr] by (auto simp: same_deadline_def)
  show ?thesis
  proof (cases "movement cmd ref")
    case (Inl err)
    with Inr steps_keep_deadline(4) [OF Inr] show ?thesis by (simp add: apply_movement_def)
  next
    case m: (Inr dir)
    with Inr show ?thesis
      by (cases dir)
        (auto simp: apply_movement_def Let_def same_deadline_def [of t1 t1]
          intro!: step steps_keep_deadline(1,3) split: sum.split option.split)
  qed
qed

lemma p_apply_deadline: "same_deadline t (fst (p_apply p t cmd w ref now))"
  by (auto simp: p_apply_def steps_keep_deadline(1,2) apply_movement_deadline Let_def
      split: prod.split reference_outcome.split)

lemma Continue_deadline:
  assumes "Continue p (Some t) cmd (Some w) ref now = (Some t', w', res)"
  shows "same_deadline t t'"
  using assms p_apply_deadline [of t p cmd w ref now]
  by (auto simp: Continue_def Let_def same_deadline_def split: sum.splits)

lemma p_apply_status:
  assumes "p_apply p t cmd w ref now = (t', w', Inr out)"
  shows "tx_status t' \<in> {Rejected, Processed} \<or> tx_status t' = PendingReference \<and> now < tx_referenceDeadline t'"
proof -
  have rejects: "tx_status (fst (reject s c now)) = Rejected" if "snd (reject s c now) = Inr o1" for s c o1
    using that by (cases "Tx_Reject c now s") (auto simp: reject_def dest: Tx_Reject_Inr_iff [THEN iffD1])
  have settles: "tx_status (fst (settle s w1 moved now)) = Processed" if "snd (settle s w1 moved now) = Inr o1"
    for s w1 moved o1
    using that by (cases "MarkProcessed (w_balance w1) now s") (auto simp: settle_def dest: MarkProcessed_Inr_iff [THEN iffD1])
  consider (rejected) c where "reject t c now = (t', Inr out)" | (waits) "wait p t now = (t', Inr out)"
    | (applied) "apply_movement t cmd w ref now = (t', w', Inr out)"
    using assms(1)
    by (auto simp: p_apply_def Let_def prod_eq_iff split: if_splits prod.splits reference_outcome.splits)
  then show ?thesis
  proof cases
    case waits
    show ?thesis
    proof (cases "ReferenceBudgetExhausted (p_policy p) now t = Inr True")
      case True
      with waits rejects [of t ReferenceNotFound out] show ?thesis by (simp add: wait_def)
    next
      case False
      with waits have "MarkPendingReference (p_policy p) now t = Inr t'"
        by (auto simp: wait_def simp del: ReferenceBudgetExhausted_Inr_iff split: sum.splits if_splits)
      then show ?thesis by (auto simp: MarkPendingReference_Inr_iff parked_def budget_spent_def)
    qed
  next
    case applied
    then show ?thesis
      by (auto simp: apply_movement_def Let_def prod_eq_iff split: sum.splits option.splits if_splits prod.splits
          dest!: rejects settles)
  next
    case (rejected c)
    with rejects [of t c out] show ?thesis by simp
  qed
qed

lemma settled_carries:
  assumes "structure_ok st" "old \<in> set (db_transactions st)" "tr_id old = Some (tx_id t)" "is_due now old"
    "tx_status t \<in> {Rejected, Processed} \<or> tx_status t = PendingReference \<and> micros now < micros due"
    "\<forall>r. tr_status (g r) = tr_status r" "tx_status t \<noteq> Processed \<longrightarrow> (\<forall>r. g r = r)"
  shows "carries now (tx_id t) (db_transactions st)
    (\<lambda>r. g (if tr_id r = Some (tx_id t) then settled_row (snapshotOf t) due r else r))"
proof -
  have same: "r = old" if "r \<in> set (db_transactions st)" "tr_id r = Some (tx_id t)" for r
    using id_unique [OF assms(1) that(1) assms(2)] assms(3) that(2) by simp
  have status: "tr_status (settled_row (snapshotOf t) due r) = Status_String (tx_status t)" for r
    by (simp add: settled_row_def snapshotOf_eq snapshot_of_def)
  have later: "\<not> is_due now (settled_row (snapshotOf t) due r)" if "tx_status t = PendingReference" for r
    using assms(5) that by (auto simp: is_due_def settled_row_def timeOf_def not_le)
  show ?thesis
  proof (cases "tx_status t = PendingReference")
    case True
    then have id: "g r = r" for r using assms(7) by simp
    show ?thesis using same assms(4) later [OF True] due_parked by (auto simp: carries_def id)
  next
    case False
    with assms(5) have "Status_String (tx_status t) \<noteq> ''PENDING_REFERENCE''" by auto
    then show ?thesis using assms(6) status by (auto simp: carries_def parked_row_def)
  qed
qed

lemma committed_carries:
  assumes "commitOutcome svc ids out t i now trace st = Inr (x, st')" "o_Transaction out = Some t"
    "structure_ok st" "old \<in> set (db_transactions st)" "tr_id old = Some (tx_id t)" "is_due now old" "schedule_ok svc"
    "tx_status t \<in> {Rejected, Processed} \<or> tx_status t = PendingReference \<and> now < tx_referenceDeadline t"
    "whole (tx_referenceDeadline t)"
  shows "work_left now st' < work_left now st"
proof -
  let ?due = "next_attempt svc t now"
  from assms(1) obtain st1 n st2 where settle: "writer_settle out ?due st = Inr st1"
    and wake: "wake_waiters t i now st1 = Inr (n, st2)" and emit: "emit ids (o_Events out) trace now st2 = Inr st'"
    by (auto simp: commitOutcome_def Let_def split: prod.splits)
  from wake obtain g where g: "db_transactions st2 = map g (db_transactions st1)" "\<forall>r. tr_status (g r) = tr_status r"
    "tx_status t \<noteq> Processed \<longrightarrow> (\<forall>r. g r = r)" by (rule wake_waiters_rows)
  let ?g = "\<lambda>r. g (if tr_id r = Some (tx_id t) then settled_row (snapshotOf t) ?due r else r)"
  have "db_transactions st' = map ?g (db_transactions st)"
    using emit_rows [OF emit] g(1) writer_settle_rows [OF settle assms(2,3)] by simp
  moreover have "tx_status t \<in> {Rejected, Processed} \<or> tx_status t = PendingReference \<and> micros now < micros ?due"
    using assms(8,9) next_after [OF assms(7)]
    by (auto simp: next_attempt_def Tx_ReferenceDeadline_def flaggedTime_def)
  from settled_carries [OF assms(3-6) this g(2,3)] have "carries now (tx_id t) (db_transactions st) ?g" .
  ultimately show ?thesis using carries_less assms(4-6) by blast
qed

lemma put_off_carries:
  assumes "cannotCarryForward svc t now st = Inr (out, st')"
    "structure_ok st" "old \<in> set (db_transactions st)" "tr_id old = Some (tx_id t)" "is_due now old" "schedule_ok svc"
    "whole (tx_referenceDeadline t)"
  shows "work_left now st' < work_left now st"
proof -
  from assms(1) consider (failed) t' where "Tx_Fail now t = Inr t'" "Transactions_Fail t' st = Inr st'"
    | (later) "Reschedule (tx_id t) (backoff_next (wg_arith svc) (wg_backoff svc) (tx_referenceAttempts t) now
        (flaggedTime (Tx_ReferenceDeadline t)) (tx_id t)) st = Inr st'"
        "Tx_ReferenceDeadline t = None \<or> now < flaggedTime (Tx_ReferenceDeadline t)"
    by (auto simp: cannotCarryForward_def Let_def split: if_splits)
  then show ?thesis
  proof cases
    case failed
    let ?f = "\<lambda>r. r\<lparr>tr_status := ''FAILED'', tr_updatedAt := micros now, tr_nextAttemptAt := None\<rparr>"
    from failed(1) have "tx_status t' = Failed" "tx_updatedAt t' = now" "tx_id t' = tx_id t" by (auto simp: Tx_Fail_Inr_iff)
    with failed(2) obtain n where "update_transaction (tx_id t) ?f st = Inr (n, st')" "n \<noteq> 0"
      by (auto simp: Transactions_Fail_def split: sum.splits if_splits)
    from update_transaction_rows [OF this assms(2)]
    have rows: "db_transactions st' = map (\<lambda>r. if tr_id r = Some (tx_id t) then ?f r else r) (db_transactions st)" .
    have "carries now (tx_id t) (db_transactions st) (\<lambda>r. if tr_id r = Some (tx_id t) then ?f r else r)"
      by (auto simp: carries_def parked_row_def)
    from carries_less [OF this rows assms(3-5)] show ?thesis .
  next
    case later
    let ?due = "backoff_next (wg_arith svc) (wg_backoff svc) (tx_referenceAttempts t) now
        (flaggedTime (Tx_ReferenceDeadline t)) (tx_id t)"
    have due: "micros now < micros ?due"
      using later(2) assms(7) by (intro next_after [OF assms(6)])
        (auto simp: flaggedTime_def Tx_ReferenceDeadline_def split: if_splits)
    let ?f = "\<lambda>r. if tr_id r = Some (tx_id t) \<and> tr_status r = ''PENDING_REFERENCE'' then r\<lparr>tr_nextAttemptAt := Some (micros ?due)\<rparr> else r"
    from later(1) have rows: "db_transactions st' = map ?f (db_transactions st)"
      by (auto simp: Reschedule_def Let_def uuidOf_def split: if_splits)
    have "carries now (tx_id t) (db_transactions st) ?f"
      using due by (auto simp: carries_def parked_row_def is_due_def not_le)
    from carries_less [OF this rows assms(3-5)] show ?thesis .
  qed
qed

lemma resume_claimed_claims:
  assumes "snd (resume_claimed svc ids now w stored st) = Inr (out, st')"
  shows "ro_Claimed out"
  using assms
  by (auto simp: resume_claimed_def cannotCarryForward_def no_resume_def Let_def
      split: sum.splits prod.splits option.splits if_splits)

lemma parked_deadline:
  assumes "row_ok r" "row_transaction r = Inr t" "is_due now r"
  shows "tx_referenceDeadline t \<noteq> 0" "whole (tx_referenceDeadline t)"
proof -
  note row = row_ok_transaction(2,4) [OF assms(1,2)]
  then have "tx_status t = PendingReference"
    using assms(3) by (cases "tx_status t") (auto simp: is_due_def tx_storable_def tx_ok_def Status_Known_def statuses_def)
  then show "tx_referenceDeadline t \<noteq> 0" "whole (tx_referenceDeadline t)"
    using row(1) by (auto simp: tx_storable_def tx_ok_def wait_ok_def)
qed

lemma claimed_progress:
  assumes "snd (resume_claimed svc ids now w stored st) = Inr (out, st')" "structure_ok st" "schedule_ok svc"
    "old \<in> set (db_transactions st)" "is_due now old" "row_transaction old = Inr (st_Transaction stored)"
  shows "work_left now st' < work_left now st"
proof -
  let ?t = "st_Transaction stored"
  have id: "tr_id old = Some (tx_id ?t)"
    by (rule row_ok_transaction(3) [OF structure_okD(5) [OF assms(2,4)] assms(6)])
  have set: "tx_referenceDeadline ?t \<noteq> 0" "whole (tx_referenceDeadline ?t)"
    using parked_deadline [OF structure_okD(5) [OF assms(2,4)] assms(6,5)] .
  show ?thesis
  proof (cases "rebuild ids ?t")
    case (Inl err)
    with assms(1) have "cannotCarryForward svc ?t now st = Inr (out, st')"
      by (simp add: resume_claimed_def Let_def)
    from put_off_carries [OF this assms(2,4) id assms(5,3) set(2)] show ?thesis .
  next
    case (Inr command)
    with assms(1) obtain ref where ref: "reference_of command st = Inr ref"
      by (cases "reference_of command st") (auto simp: resume_claimed_def Let_def)
    obtain t1 w1 res where cont: "Continue (wg_processor svc) (Some ?t) command (Some w) ref now = (t1, w1, res)"
      by (metis prod_cases3)
    from Continue_id [OF cont] obtain t' where t': "t1 = Some t'" "tx_id t' = tx_id ?t" by blast
    note id' = id [folded t'(2)]
    have set': "whole (tx_referenceDeadline t')"
      using Continue_deadline [OF cont [unfolded t'(1)]] set by (simp add: same_deadline_def)
    show ?thesis
    proof (cases res)
      case (Inl f)
      with assms(1) Inr ref cont t' have "cannotCarryForward svc t' now st = Inr (out, st')"
        by (simp add: resume_claimed_def Let_def)
      from put_off_carries [OF this assms(2,4) id' assms(5,3) set'] show ?thesis .
    next
      case o: (Inr o')
      from cont [unfolded o] t'(1) have t: "o_Transaction o' = Some t'" by (auto elim: Continue_advances)
      from assms(1) Inr ref cont o t obtain x trace where
        commit: "commitOutcome svc ids o' t' (w_id w) now trace st = Inr (x, st')"
        by (auto simp: resume_claimed_def Let_def split: prod.splits)
      have "tx_status t' \<in> {Rejected, Processed} \<or> tx_status t' = PendingReference \<and> now < tx_referenceDeadline t'"
      proof -
        from cont [unfolded o t'(1)] have "p_apply (wg_processor svc) ?t command w ref now
            = (t', fst (snd (p_apply (wg_processor svc) ?t command w ref now)), Inr o')"
          by (auto simp: Continue_def Let_def prod_eq_iff split: sum.splits)
        from p_apply_status [OF this] show ?thesis .
      qed
      from committed_carries [OF commit t assms(2,4) id' assms(5,3) this set'] show ?thesis .
    qed
  qed
qed

text \<open>A turn that claimed nothing looked at the due rows and there were none.\<close>

lemma NextDue_Some:
  assumes "NextDue now st = Inr (Some c)" "structure_ok st"
  obtains r i where "r \<in> set (db_transactions st)" "is_due now r" "tr_id r = Some i" "dc_TransactionID c = i"
proof -
  from assms(1) obtain r rs where sorted: "sort_key (\<lambda>r. (timeFrom (tr_nextAttemptAt r), idFrom (tr_id r)))
      (filter (is_due now) (db_transactions st)) = r # rs" and c: "dc_TransactionID c = idFrom (tr_id r)"
    by (auto simp: NextDue_def split: list.splits)
  have "r \<in> set (sort_key (\<lambda>r. (timeFrom (tr_nextAttemptAt r), idFrom (tr_id r))) (filter (is_due now) (db_transactions st)))"
    by (simp only: sorted list.set_intros)
  then have r: "r \<in> set (db_transactions st)" "is_due now r" by simp_all
  note row = structure_okD(5) [OF assms(2) r(1)]
  from row obtain t where "row_transaction r = Inr t" by (rule row_okE)
  from row_ok_transaction(3) [OF row this] r c that show ?thesis by (simp add: idFrom_def)
qed

lemma NextDue_None:
  assumes "NextDue now st = Inr None"
  shows "due_rows now st = []"
proof -
  have "sort_key (\<lambda>r. (timeFrom (tr_nextAttemptAt r), idFrom (tr_id r))) (filter (is_due now) (db_transactions st)) = []"
    using assms by (simp add: NextDue_def split: list.splits)
  from arg_cong [OF this, of length] show ?thesis by (simp add: due_rows_def)
qed

definition resume_door ::
  "wagering \<Rightarrow> instant \<Rightarrow> ids \<Rightarrow> principal \<Rightarrow> store \<Rightarrow> resume_outcome eres \<times> store" where
  "resume_door svc now ids p st =
     (case Wagering_Resume svc ids now p st st of (r, st', _) \<Rightarrow> (r, st'))"

lemma resume_body_progress:
  assumes "snd (resume_body svc ids now st st) = Inr (out, st')" "structure_ok st" "schedule_ok svc"
  shows "if ro_Claimed out then work_left now st' < work_left now st else due_rows now st = [] \<and> st' = st"
proof (cases "NextDue now st")
  case (Inr c)
  show ?thesis
  proof (cases c)
    case None
    with Inr assms(1) NextDue_None [of now st] show ?thesis by (auto simp: resume_body_def no_resume_def)
  next
    case (Some candidate)
    note next_due = Inr [unfolded Some]
    from assms(1) next_due obtain w where w: "LockByID (dc_WalletID candidate) st = Inr (Some w)"
      by (auto simp: resume_body_def split: sum.splits option.splits)
    obtain r i where r: "r \<in> set (db_transactions st)" "is_due now r" "tr_id r = Some i" "dc_TransactionID candidate = i"
      using NextDue_Some [OF next_due assms(2)] .
    have "find (\<lambda>r. tr_id r = uuidOf (dc_TransactionID candidate) \<and> is_due now r) (db_transactions st) \<noteq> None"
      using r by (auto simp: find_None_iff_all uuidOf_def)
    then have "ClaimForUpdate (dc_TransactionID candidate) now st \<noteq> Inr None"
      by (auto simp: ClaimForUpdate_def transactions_one_def split: sum.splits)
    with assms(1) next_due w obtain stored where claim: "ClaimForUpdate (dc_TransactionID candidate) now st = Inr (Some stored)"
      by (auto simp: resume_body_def split: sum.splits option.splits)
    with assms(1) next_due w have run: "snd (resume_claimed svc ids now w stored st) = Inr (out, st')"
      by (simp add: resume_body_def)
    from claim obtain old where old: "old \<in> set (db_transactions st)" "is_due now old"
      "row_transaction old = Inr (st_Transaction stored)"
      unfolding ClaimForUpdate_def by (rule transactions_one_stored) blast
    from claimed_progress [OF run assms(2,3) old] resume_claimed_claims [OF run] show ?thesis by simp
  qed
qed (use assms(1) in \<open>simp add: resume_body_def\<close>)

lemma resume_door_progress:
  assumes "resume_door svc now ids p st = (Inr out, st')" "store_ok st" "schedule_ok svc"
  shows "if ro_Claimed out then work_left now st' < work_left now st else due_rows now st = [] \<and> st' = st"
proof -
  from assms(1) obtain u where may: "MayResume p = Inr u"
    by (cases "MayResume p") (auto simp: resume_door_def Wagering_Resume_def)
  let ?r = "resume_body svc ids now st st"
  from assms(1) may have "WithinMovement (\<lambda>_. snd ?r) st = (Inr out, st')"
    by (cases "WithinMovement (\<lambda>_. snd ?r) st")
      (auto simp: resume_door_def Wagering_Resume_def Let_def split: sum.splits)
  then have "snd ?r = Inr (out, st')"
    by (auto simp: WithinMovement_def split: sum.splits option.splits)
  from resume_body_progress [OF this store_okD(1) [OF assms(2)] assms(3)] show ?thesis .
qed

lemma resume_door_ok: "resume_door svc now ids p st = (r, st') \<Longrightarrow> store_ok st \<Longrightarrow> store_ok st'"
  using Wagering_Resume_ok [of st svc ids now p st r st']
  by (auto simp: resume_door_def split: prod.splits)

section \<open>The loop comes to rest\<close>

lemma run_rests:
  assumes "store_ok st" "schedule_ok svc" "work_left now st < length idss"
  shows "\<exists>k \<le> work_left now st.
    \<exists>outcome pause f more. fst (reference_run fa w (map (resume_door svc now) idss) failures st)
        = replicate k (Inr True, 0) @ (outcome, pause) # more
      \<and> outcome \<noteq> Inr True \<and> pause = snd (reference_pace fa w f outcome)
      \<and> (outcome = Inr False \<longrightarrow>
           due_rows now (snd (reference_run fa w (map (resume_door svc now) (take k idss)) failures st)) = [])"
  using assms
proof (induction idss arbitrary: st failures)
  case (Cons ids idss)
  obtain r st' where turn: "resume_door svc now ids (rw_principal w) st = (r, st')" by force
  show ?case
  proof (cases "\<exists>out. r = Inr out \<and> ro_Claimed out")
    case True
    then obtain out where out: "r = Inr out" "ro_Claimed out" by blast
    from resume_door_progress [OF turn [unfolded out(1)] Cons.prems(1,2)] out(2)
    have less: "work_left now st' < work_left now st" by simp
    with Cons.prems(3) have "work_left now st' < length idss" by simp
    from Cons.IH [OF resume_door_ok [OF turn Cons.prems(1)] Cons.prems(2) this, of 0] obtain k outcome pause f more where
      k: "k \<le> work_left now st'"
      "fst (reference_run fa w (map (resume_door svc now) idss) 0 st') = replicate k (Inr True, 0) @ (outcome, pause) # more"
      "outcome \<noteq> Inr True" "pause = snd (reference_pace fa w f outcome)"
      "outcome = Inr False \<longrightarrow> due_rows now (snd (reference_run fa w (map (resume_door svc now) (take k idss)) 0 st')) = []"
      by blast
    have step: "reference_turn (resume_door svc now ids) w st = (Inr True, st')"
      using turn out by (simp add: reference_turn_def)
    have "fst (reference_run fa w (map (resume_door svc now) (ids # idss)) failures st)
        = replicate (Suc k) (Inr True, 0) @ (outcome, pause) # more"
      using k(2) step by (simp add: reference_pace_def case_prod_beta)
    moreover have "snd (reference_run fa w (map (resume_door svc now) (take (Suc k) (ids # idss))) failures st)
        = snd (reference_run fa w (map (resume_door svc now) (take k idss)) 0 st')"
      using step by (simp add: reference_pace_def case_prod_beta)
    moreover have "Suc k \<le> work_left now st" using k(1) less by simp
    ultimately show ?thesis using k(3-5) by metis
  next
    case False
    let ?outcome = "case r of Inl err \<Rightarrow> Inl err | Inr out \<Rightarrow> Inr (ro_Claimed out)"
    have step: "reference_turn (resume_door svc now ids) w st = (?outcome, st')"
      using turn by (simp add: reference_turn_def split: sum.split)
    then have "\<exists>more. fst (reference_run fa w (map (resume_door svc now) (ids # idss)) failures st)
        = (?outcome, snd (reference_pace fa w failures ?outcome)) # more"
      by (simp split: prod.split)
    moreover have "?outcome \<noteq> Inr True" using False by (auto split: sum.splits)
    moreover have "due_rows now st = []" if "?outcome = Inr False"
    proof -
      from that obtain out where out: "r = Inr out" "\<not> ro_Claimed out" by (auto split: sum.splits)
      from resume_door_progress [OF turn [unfolded out(1)] Cons.prems(1,2)] out(2) show ?thesis by simp
    qed
    ultimately show ?thesis by (intro exI [of _ "0 :: nat"]) fastforce
  qed
qed simp

lemma work_left_bound: "work_left now st \<le> length (parked_rows st) * (length (parked_rows st) + 1)"
  using due_le_parked [of now st] by (simp add: work_left_def Let_def)

text \<open>
  C21: the reference worker never spins and never gives up early. Let a worker alone with the
  service at one instant, with \<open>n\<close> operations parked, under a schedule whose delays start at a
  microsecond or more, the least a column can put an operation off by. However the operations
  wake one another, it goes straight round at most \<open>n * (n + 1)\<close> times: within that many turns comes one that
  claims nothing or fails, and the worker then waits, its interval or a delay between its
  initial and its maximum. A turn that claims nothing finds nothing due, so when the worker
  waits its interval every operation that was due has been settled or put off.
\<close>

theorem reference_worker_rests:
  assumes "NewReferenceWorker cfg = Inr w" "arith_ok fa" "bo_Max (rw_backoff w) \<le> 2 ^ 53"
    "arith_ok (wg_arith svc)" "backoff_validate (wg_backoff svc) = Inr ()" "bo_Max (wg_backoff svc) \<le> 2 ^ 52"
    "1000 \<le> bo_Initial (wg_backoff svc)" "store_ok st" "n = length (parked_rows st)" "n * (n + 1) < length idss"
  shows "\<exists>k \<le> n * (n + 1). \<exists>outcome pause more.
    fst (reference_run fa w (map (resume_door svc now) idss) failures st)
        = replicate k (Inr True, 0) @ (outcome, pause) # more
    \<and> 0 < pause
    \<and> (case outcome of
         Inl err \<Rightarrow> bo_Initial (rw_backoff w) \<le> pause \<and> pause \<le> bo_Max (rw_backoff w)
       | Inr claimed \<Rightarrow> \<not> claimed \<and> pause = rw_interval w
           \<and> due_rows now (snd (reference_run fa w (map (resume_door svc now) (take k idss)) failures st)) = [])"
proof -
  have valid: "worker_backoff_validate (rw_backoff w) = Inr ()" and positive: "0 < rw_interval w"
    using assms(1)
    by (auto simp: NewReferenceWorker_def Let_def orDefaultDuration_def defaultResumeInterval_def Second_def
        split: if_splits sum.splits)
  note delay = backoff_after_between [OF assms(2) valid assms(3)] and initial = worker_backoff_validD(1) [OF valid]
  have "schedule_ok svc" using assms(4-7) by (simp add: schedule_ok_def)
  moreover have bound: "work_left now st \<le> n * (n + 1)" using work_left_bound assms(9) by simp
  with assms(10) have "work_left now st < length idss" by simp
  ultimately obtain k outcome pause f more where k: "k \<le> work_left now st"
      "fst (reference_run fa w (map (resume_door svc now) idss) failures st) = replicate k (Inr True, 0) @ (outcome, pause) # more"
      "outcome \<noteq> Inr True" "pause = snd (reference_pace fa w f outcome)"
      "outcome = Inr False \<longrightarrow> due_rows now (snd (reference_run fa w (map (resume_door svc now) (take k idss)) failures st)) = []"
    using run_rests [OF assms(8)] by metis
  have "0 < pause \<and> (case outcome of
         Inl err \<Rightarrow> bo_Initial (rw_backoff w) \<le> pause \<and> pause \<le> bo_Max (rw_backoff w)
       | Inr claimed \<Rightarrow> \<not> claimed \<and> pause = rw_interval w
           \<and> due_rows now (snd (reference_run fa w (map (resume_door svc now) (take k idss)) failures st)) = [])"
  proof (cases outcome)
    case (Inl err)
    with k(4) delay [of "int (Suc f)"] initial show ?thesis by (simp add: reference_pace_def)
  next
    case (Inr claimed)
    with k(3) have "\<not> claimed" by auto
    with Inr k(4,5) positive show ?thesis by (simp add: reference_pace_def)
  qed
  with k(1,2) bound order_trans show ?thesis by blast
qed

text \<open>A refund that waits for a bet nobody has submitted yet, due at 21000.\<close>

definition waiting_policy :: reference_policy where
  "waiting_policy = \<lparr>MaxAttempts = 2, TTL = 60000\<rparr>"

definition waiting_refund :: wager_transaction where
  "waiting_refund = parked waiting_policy 20000 (pending_transaction (sample_command Refund 500 ''ext-0'') 13 20000)"

definition waiting_store :: store where
  "waiting_store = sample_store\<lparr>db_transactions := db_transactions sample_store @ [row_of waiting_refund ''req-1'' 21000]\<rparr>"

lemma waiting_store_ok: "store_ok waiting_store"
proof -
  let ?t = "pending_transaction (sample_command Refund 500 ''ext-0'') 13 20000"
  have "NewExternalTransaction (sample_command Refund 500 ''ext-0'') 13 20000 = Inr ?t"
    using sample_refund_ok by (simp add: NewExternalTransaction_Inr_iff)
  from begun_live [OF begun_external [OF this]] have start: "tx_live ?t" by simp
  have "MarkPendingReference waiting_policy 20000 ?t = Inr waiting_refund"
    by (simp add: MarkPendingReference_Inr_iff waiting_refund_def waiting_policy_def pending_transaction_def open_status_def
        budget_spent_def)
  from clocked_live [OF start clocked_parked [OF this]] have live: "tx_live waiting_refund"
    by (simp add: pending_transaction_def)
  moreover have "waits_ahead waiting_refund"
    by (simp add: waits_ahead_def waiting_refund_def waiting_policy_def parked_def pending_transaction_def)
  moreover from live have "tx_storable waiting_refund"
    by (simp add: tx_storable_def tx_live_def)
      (simp add: waiting_refund_def waiting_policy_def parked_def pending_transaction_def whole_literal)
  ultimately have row: "row_ok (row_of waiting_refund ''req-1'' 21000)" by (rule row_of_ok)
  note fields = waiting_refund_def parked_def pending_transaction_def opening_transaction_def
  have "in_wallet_currency (row_of waiting_refund ''req-1'' 21000) sample_store"
    by (simp add: in_wallet_currency_def fields)
  moreover have "names_wallet (row_of waiting_refund ''req-1'' 21000) sample_store"
    by (simp add: names_wallet_def fields)
  moreover have "collision (row_of waiting_refund ''req-1'' 21000) (db_transactions sample_store) = None"
  proof -
    let ?o = "opening_transaction sample_opening 10000"
    have "tx_ok ?o" using sample_opening_facts(1) by (simp add: tx_live_def)
    note keys = row_of_keys [OF this]
    have o: "tx_external ?o = None" "tx_id ?o = 5" "tx_kind ?o = Opening"
      by (simp_all add: opening_transaction_def sample_opening_def)
    have "tx_id waiting_refund = 11" "tx_status waiting_refund = PendingReference" "tx_kind waiting_refund = Refund"
      by (simp_all add: fields)
    then show ?thesis using o
      by (simp add: collision_def transaction_collision_def keys tx_accessors sql_eq_def processed_reversal_def)
  qed
  ultimately have "insert_transaction (row_of waiting_refund ''req-1'' 21000) sample_store = Inr waiting_store"
    by (simp add: insert_transaction_def waiting_store_def opaque_id_def)
  from insert_transaction_keeps [OF this row] have "structure_ok waiting_store"
    using store_okD(1) [OF sample_store_ok] by (simp add: keeps_def)
  moreover have "wallet_matches_ledger waiting_store r = wallet_matches_ledger sample_store r" for r
    by (rule wallet_matches_ledger_cong) (simp add: ledger_of_def waiting_store_def)
  moreover have "db_wallets waiting_store = db_wallets sample_store" by (simp add: waiting_store_def)
  ultimately show ?thesis using store_okD(2) [OF sample_store_ok] unfolding store_ok_def by metis
qed

definition sample_reference_config :: reference_config where
  "sample_reference_config =
     \<lparr>rc_Wagering = Some (), rc_Name = ''acme'', rc_Interval = 0, rc_Backoff = zero_backoff, rc_DrainTimeout = 0,
      rc_Logger = Some ()\<rparr>"

theorem reference_worker_rests_witness:
  "\<exists>w. NewReferenceWorker sample_reference_config = Inr w
     \<and> length (due_rows 25000 waiting_store) = 1
     \<and> (\<exists>k \<le> 2. \<exists>outcome pause more.
          fst (reference_run exact_arith w (map (resume_door sample_service 25000) [sample_ids 31, sample_ids 32, sample_ids 33]) 0
            waiting_store) = replicate k (Inr True, 0) @ (outcome, pause) # more \<and> 0 < pause)"
proof -
  have name: "\<not> blank ''acme''" by (simp add: blank_def runes_ascii TrimSpace_def IsSpace_def)
  obtain w where w: "NewReferenceWorker sample_reference_config = Inr w" "rw_backoff w = defaultResumeBackoff"
    using name
    by (simp add: NewReferenceWorker_def sample_reference_config_def NewServicePrincipal_def worker_backoff_validate_def
        defaultResumeBackoff_def Let_def Second_def)
  have small: "bo_Max (rw_backoff w) \<le> 2 ^ 53" by (simp add: w(2) defaultResumeBackoff_def Second_def)
  have svc: "arith_ok (wg_arith sample_service)" "backoff_validate (wg_backoff sample_service) = Inr ()"
    "bo_Max (wg_backoff sample_service) \<le> 2 ^ 52"
    "1000 \<le> bo_Initial (wg_backoff sample_service)"
    by (simp_all add: sample_service_def exact_arith_ok backoff_validate_def)
  have status: "tx_status waiting_refund = PendingReference" by (simp add: waiting_refund_def parked_def)
  have rows: "length (parked_rows waiting_store) = 1" "length (due_rows 25000 waiting_store) = 1"
    by (simp_all add: parked_rows_def parked_row_def due_rows_def is_due_def waiting_store_def status opening_transaction_def
        timeOf_def micros_def less_eq_timestamptz_def)
  have "1 * (1 + 1) < length [sample_ids 31, sample_ids 32, sample_ids 33]" by simp
  note rests = reference_worker_rests [OF w(1) exact_arith_ok small svc waiting_store_ok rows(1) [symmetric] this]
  obtain k outcome pause more where "k \<le> 1 * (1 + 1)"
    "fst (reference_run exact_arith w (map (resume_door sample_service 25000) [sample_ids 31, sample_ids 32, sample_ids 33]) 0
       waiting_store) = replicate k (Inr True, 0) @ (outcome, pause) # more" "0 < pause"
    using rests [of 25000 0] by blast
  moreover from this(1) have "k \<le> 2" by simp
  ultimately show ?thesis using w(1) rows(2) by blast
qed

end
