(* ===== verification/Oidc.thy ===== *)
theory Oidc
  imports Principal Go_Text
begin

text \<open>
  The token adapter (\<^verbatim>\<open>src/internal/adapters/oidc\<close>): the checked configuration, the cache of the
  issuer's signing keys, the claims of a token, and the principal a bearer credential stands for.

  The JOSE library, the decoders and \<^verbatim>\<open>url.Parse\<close> are a parameter, the record \<open>libraries\<close>; the
  issuer on the network is another, what one GET of an address answers. A key is a value of an
  arbitrary type, a map of keys a list of pairs. An instant counts nanoseconds.
\<close>

section \<open>The libraries\<close>

record jws_header =
  jh_Algorithm :: "string option"
  jh_KeyID :: "string option"

record 'k jwk =
  jk_KeyID :: "string option"
  jk_Symmetric :: bool
  jk_Use :: "string option"
  jk_Public :: "'k option"

record url =
  u_Scheme :: string
  u_Host :: string
  u_Port :: string
  u_Hostname :: string

record token_claims =
  tk_Issuer :: string
  tk_Subject :: string
  tk_Audience :: "string list"
  tk_ExpiresAt :: "int64 option"
  tk_NotBefore :: "int64 option"
  tk_IssuedAt :: "int64 option"
  tk_Roles :: "string list"
  tk_ProviderID :: string

text \<open>
  \<open>jo_Parse\<close> answers the protected headers of the signatures of a message, \<open>jo_Verify\<close> the payload
  a signature stands behind, \<open>jo_Lookup\<close> the spelling of an algorithm and whether it is symmetric.
\<close>

record 'k libraries =
  jo_Parse :: "string \<Rightarrow> jws_header list option"
  jo_Verify :: "string \<Rightarrow> string \<Rightarrow> 'k \<Rightarrow> string option"
  jo_KeyAlgorithm :: "'k \<Rightarrow> string option"
  jo_ParseSet :: "string \<Rightarrow> 'k jwk list option"
  jo_Lookup :: "string \<Rightarrow> (string \<times> bool) option"
  li_url_Parse :: "string \<Rightarrow> url option"
  li_claims :: "string \<Rightarrow> token_claims option"
  li_metadata :: "string \<Rightarrow> (string \<times> string) option"

type_synonym network = "string \<Rightarrow> (int \<times> string) eres"

section \<open>Refusals\<close>

definition oidc_refuse :: "sentinel \<Rightarrow> go_error list \<Rightarrow> go_error" where
  "oidc_refuse why causes = Wrapped (Sentinel why # causes @ [AppErr Unauthorized no_code [] None])"

section \<open>Configuration\<close>

definition defaultClockSkew :: duration where "defaultClockSkew = 30 * Second"
definition maxClockSkew :: duration where "maxClockSkew = 5 * 60 * Second"
definition defaultFetchTimeout :: duration where "defaultFetchTimeout = 5 * Second"
definition defaultMinRefreshInterval :: duration where "defaultMinRefreshInterval = 30 * Second"

definition defaultAlgorithms :: "string list" where
  "defaultAlgorithms =
     [''RS256'', ''RS384'', ''RS512'', ''PS256'', ''PS384'', ''PS512'', ''ES256'', ''ES384'', ''ES512'']"

definition NoSignature :: string where "NoSignature = ''none''"

text \<open>The HTTP client is only looked at for being given; a nil clock is the system's.\<close>

record oidc_config =
  og_Issuer :: string
  og_Audience :: string
  og_JWKSURI :: string
  og_HTTPClient :: "unit option"
  og_Algorithms :: "string list"
  og_ClockSkew :: duration
  og_FetchTimeout :: duration
  og_MinRefreshInterval :: duration

text \<open>The table of algorithms maps each name to the algorithm it spells, so it is kept as its names.\<close>

record oidc_settings =
  os_issuer :: string
  os_audience :: string
  os_jwksURI :: string
  os_algorithms :: "string list"
  os_skew :: duration
  os_fetchTimeout :: duration
  os_minInterval :: duration

definition checkAbsolute :: "'k libraries \<Rightarrow> string \<Rightarrow> unit eres" where
  "checkAbsolute lib raw =
     (case li_url_Parse lib raw of
        None \<Rightarrow> Inl (Wrapped [])
      | Some parsed \<Rightarrow>
          if u_Host parsed = [] \<or> (u_Scheme parsed \<noteq> ''http'' \<and> u_Scheme parsed \<noteq> ''https'')
          then Inl (Wrapped []) else Inr ())"

definition checkIssuer :: "'k libraries \<Rightarrow> string \<Rightarrow> unit eres" where
  "checkIssuer lib issuer =
     (if issuer = [] then Inl (Wrapped [])
      else if HasSuffix issuer ''/'' then Inl (Wrapped [])
      else checkAbsolute lib issuer)"

fun check_names :: "'k libraries \<Rightarrow> string list \<Rightarrow> string list \<Rightarrow> string list eres" where
  "check_names lib [] allowed = Inr allowed"
| "check_names lib (name # names) allowed =
     (case jo_Lookup lib name of
        None \<Rightarrow> Inl (Wrapped [])
      | Some (alg, symmetric) \<Rightarrow>
          if symmetric \<or> alg = NoSignature then Inl (Wrapped [])
          else check_names lib names (alg # allowed))"

definition checkAlgorithms :: "'k libraries \<Rightarrow> string list \<Rightarrow> string list eres" where
  "checkAlgorithms lib names = check_names lib (if names = [] then defaultAlgorithms else names) []"

definition oidc_resolve :: "'k libraries \<Rightarrow> oidc_config \<Rightarrow> oidc_settings eres" where
  "oidc_resolve lib c =
     (let issuer = strings_TrimSpace (og_Issuer c); audience = strings_TrimSpace (og_Audience c);
          jwksURI = strings_TrimSpace (og_JWKSURI c)
      in bindE (checkIssuer lib issuer) (\<lambda>_.
         if audience = [] then Inl (Wrapped [])
         else bindE (if jwksURI \<noteq> [] then checkAbsolute lib jwksURI else Inr ()) (\<lambda>_.
         if og_HTTPClient c = None then Inl (Wrapped [])
         else bindE (checkAlgorithms lib (og_Algorithms c)) (\<lambda>algorithms.
         if og_ClockSkew c < 0 then Inl (Wrapped [])
         else if og_ClockSkew c > maxClockSkew then Inl (Wrapped [])
         else if og_FetchTimeout c < 0 then Inl (Wrapped [])
         else if og_MinRefreshInterval c < 0 then Inl (Wrapped [])
         else Inr \<lparr>os_issuer = issuer, os_audience = audience, os_jwksURI = jwksURI, os_algorithms = algorithms,
                os_skew = (if og_ClockSkew c = 0 then defaultClockSkew else og_ClockSkew c),
                os_fetchTimeout = (if og_FetchTimeout c = 0 then defaultFetchTimeout else og_FetchTimeout c),
                os_minInterval =
                  (if og_MinRefreshInterval c = 0 then defaultMinRefreshInterval else og_MinRefreshInterval c)\<rparr>))))"

section \<open>The key set\<close>

definition discoveryPath :: string where "discoveryPath = ''/.well-known/openid-configuration''"
definition maxDocumentBytes :: nat where "maxDocumentBytes = 2 ^ 20"
definition signingUse :: string where "signingUse = ''sig''"

text \<open>\<open>ks_inflight\<close> says that a fetch is running, which the channel of the source stands for.\<close>

record 'k key_set =
  ks_issuer :: string
  ks_minInterval :: duration
  ks_uri :: string
  ks_keys :: "(string \<times> 'k) list"
  ks_lastFetch :: instant
  ks_inflight :: bool

definition newKeySet :: "oidc_settings \<Rightarrow> 'k key_set" where
  "newKeySet s =
     \<lparr>ks_issuer = os_issuer s, ks_minInterval = os_minInterval s, ks_uri = os_jwksURI s, ks_keys = [],
      ks_lastFetch = zero_time, ks_inflight = False\<rparr>"

text \<open>The keys of a document, in its order; the first entry under an identifier is kept.\<close>

fun verifying_keys_loop :: "'k jwk list \<Rightarrow> (string \<times> 'k) list \<Rightarrow> (string \<times> 'k) list" where
  "verifying_keys_loop [] keys = keys"
| "verifying_keys_loop (key # rest) keys =
     (case jk_KeyID key of
        None \<Rightarrow> verifying_keys_loop rest keys
      | Some kid \<Rightarrow>
          if blank kid then verifying_keys_loop rest keys
          else if kid \<in> fst ` set keys then verifying_keys_loop rest keys
          else if jk_Symmetric key then verifying_keys_loop rest keys
          else if (case jk_Use key of None \<Rightarrow> False | Some use \<Rightarrow> use \<noteq> signingUse) then verifying_keys_loop rest keys
          else (case jk_Public key of
                  None \<Rightarrow> verifying_keys_loop rest keys
                | Some public \<Rightarrow> verifying_keys_loop rest (keys @ [(kid, public)])))"

definition verifyingKeys :: "'k libraries \<Rightarrow> string \<Rightarrow> (string \<times> 'k) list eres" where
  "verifyingKeys lib document =
     (case jo_ParseSet lib document of
        None \<Rightarrow> Inl (Wrapped [])
      | Some entries \<Rightarrow>
          (let keys = verifying_keys_loop entries []
           in if keys = [] then Inl (Wrapped []) else Inr keys))"

definition defaultPort :: "string \<Rightarrow> string" where
  "defaultPort scheme = (if scheme = ''http'' then ''80'' else if scheme = ''https'' then ''443'' else [])"

definition authority :: "url \<Rightarrow> string" where
  "authority u =
     (if u_Port u \<noteq> [] \<and> defaultPort (u_Scheme u) = u_Port u then u_Hostname u else u_Host u)"

definition sameOrigin :: "'k libraries \<Rightarrow> string \<Rightarrow> string \<Rightarrow> bool" where
  "sameOrigin lib a b =
     (case (li_url_Parse lib a, li_url_Parse lib b) of
        (Some x, Some y) \<Rightarrow> u_Scheme x = u_Scheme y \<and> authority x = authority y
      | _ \<Rightarrow> False)"

definition oidc_get :: "network \<Rightarrow> string \<Rightarrow> string eres" where
  "oidc_get net uri =
     (case net uri of
        Inl err \<Rightarrow> Inl err
      | Inr (status, content) \<Rightarrow>
          if status \<noteq> 200 then Inl (Wrapped [])
          else (let body = take (maxDocumentBytes + 1) content
                in if length body > maxDocumentBytes then Inl (Wrapped []) else Inr body))"

definition discover :: "'k libraries \<Rightarrow> network \<Rightarrow> 'k key_set \<Rightarrow> string eres" where
  "discover lib net s =
     (case oidc_get net (ks_issuer s @ discoveryPath) of
        Inl err \<Rightarrow> Inl (Wrapped [err])
      | Inr body \<Rightarrow>
          (case li_metadata lib body of
             None \<Rightarrow> Inl (Wrapped [])
           | Some (issuer, jwksURI) \<Rightarrow>
               if issuer \<noteq> ks_issuer s then Inl (Wrapped [])
               else bindE (checkAbsolute lib jwksURI) (\<lambda>_.
                    if \<not> sameOrigin lib (ks_issuer s) jwksURI then Inl (Wrapped []) else Inr jwksURI)))"

definition resolveURI :: "'k libraries \<Rightarrow> network \<Rightarrow> 'k key_set \<Rightarrow> string eres \<times> 'k key_set" where
  "resolveURI lib net s =
     (if ks_uri s \<noteq> [] then (Inr (ks_uri s), s)
      else (case discover lib net s of
              Inl err \<Rightarrow> (Inl err, s)
            | Inr discovered \<Rightarrow> (Inr discovered, s\<lparr>ks_uri := discovered\<rparr>)))"

definition fetch_keys :: "'k libraries \<Rightarrow> network \<Rightarrow> 'k key_set \<Rightarrow> (string \<times> 'k) list eres \<times> 'k key_set" where
  "fetch_keys lib net s =
     (case resolveURI lib net s of
        (Inl err, s') \<Rightarrow> (Inl err, s')
      | (Inr uri, s') \<Rightarrow>
          (case oidc_get net uri of
             Inl err \<Rightarrow> (Inl (Wrapped [err]), s')
           | Inr body \<Rightarrow>
               (case verifyingKeys lib body of
                  Inl err \<Rightarrow> (Inl (Wrapped [err]), s')
                | Inr keys \<Rightarrow> (Inr keys, s'))))"

definition prime :: "'k libraries \<Rightarrow> network \<Rightarrow> instant \<Rightarrow> 'k key_set \<Rightarrow> unit eres \<times> 'k key_set" where
  "prime lib net now s =
     (case fetch_keys lib net s of
        (Inl err, s') \<Rightarrow> (Inl err, s')
      | (Inr keys, s') \<Rightarrow> (Inr (), s'\<lparr>ks_keys := keys, ks_lastFetch := now\<rparr>))"

definition cached :: "'k key_set \<Rightarrow> string \<Rightarrow> 'k option" where
  "cached s kid = map_of (ks_keys s) kid"

text \<open>Joins the fetch that is running, starts one, or declines; whether this call started it is the answer.\<close>

definition startRefresh :: "instant \<Rightarrow> 'k key_set \<Rightarrow> bool eres \<times> 'k key_set" where
  "startRefresh now s =
     (if ks_inflight s then (Inr False, s)
      else (let s = (if now < ks_lastFetch s then s\<lparr>ks_lastFetch := now\<rparr> else s)
            in if ks_lastFetch s \<noteq> zero_time \<and> now - ks_lastFetch s < ks_minInterval s
               then (Inl (Sentinel ErrRefreshDeclined), s)
               else (Inr True, s\<lparr>ks_inflight := True\<rparr>)))"

definition runRefresh :: "'k libraries \<Rightarrow> network \<Rightarrow> instant \<Rightarrow> 'k key_set \<Rightarrow> 'k key_set" where
  "runRefresh lib net now s =
     (case fetch_keys lib net s of
        (r, s') \<Rightarrow>
          (let s' = s'\<lparr>ks_lastFetch := now, ks_inflight := False\<rparr>
           in case r of Inl _ \<Rightarrow> s' | Inr keys \<Rightarrow> s'\<lparr>ks_keys := keys\<rparr>))"

text \<open>
  What a caller meets: the instant its clock reads, and what waiting for the fetch comes to, which
  is the end of its own context or the key set as the fetch and everybody else left it.
\<close>

record 'k key_env =
  ke_now :: instant
  ke_wait :: "'k key_set \<Rightarrow> driver_error + 'k key_set"
  ke_cancelled :: bool

definition keySet_key :: "'k key_env \<Rightarrow> string \<Rightarrow> 'k key_set \<Rightarrow> 'k eres \<times> 'k key_set" where
  "keySet_key env kid s =
     (case cached s kid of
        Some key \<Rightarrow> (Inr key, s)
      | None \<Rightarrow>
          (case startRefresh (ke_now env) s of
             (Inl err, s1) \<Rightarrow> (Inl err, s1)
           | (Inr _, s1) \<Rightarrow>
               (case ke_wait env s1 of
                  Inl ended \<Rightarrow> (Inl (DriverErr ended), s1)
                | Inr s2 \<Rightarrow>
                    (case cached s2 kid of
                       Some key \<Rightarrow> (Inr key, s2)
                     | None \<Rightarrow> (Inl (Wrapped [Sentinel ErrUnknownKey]), s2)))))"

section \<open>Claims\<close>

definition providerRoleName :: string where "providerRoleName = ''provider''"
definition internalRoleName :: string where "internalRoleName = ''internal''"

definition decodeClaims :: "'k libraries \<Rightarrow> string \<Rightarrow> token_claims eres" where
  "decodeClaims lib payload =
     (case li_claims lib payload of
        None \<Rightarrow> Inl (oidc_refuse ErrTokenRejected [Wrapped []])
      | Some c \<Rightarrow> Inr c)"

definition claims_validate :: "instant \<Rightarrow> string \<Rightarrow> string \<Rightarrow> duration \<Rightarrow> token_claims \<Rightarrow> unit eres" where
  "claims_validate now issuer wanted skew c =
     (if tk_Issuer c \<noteq> issuer then Inl (oidc_refuse ErrTokenRejected [])
      else if wanted \<notin> set (tk_Audience c) then Inl (oidc_refuse ErrTokenRejected [])
      else if blank (tk_Subject c) then Inl (oidc_refuse ErrTokenRejected [])
      else (case tk_ExpiresAt c of
              None \<Rightarrow> Inl (oidc_refuse ErrTokenRejected [])
            | Some exp \<Rightarrow>
                if now > time_Add (time_Unix exp) skew then Inl (oidc_refuse ErrTokenRejected [])
                else if (case tk_NotBefore c of None \<Rightarrow> False | Some nbf \<Rightarrow> now < time_Add (time_Unix nbf) (- skew))
                then Inl (oidc_refuse ErrTokenRejected [])
                else if (case tk_IssuedAt c of None \<Rightarrow> False | Some iat \<Rightarrow> now < time_Add (time_Unix iat) (- skew))
                then Inl (oidc_refuse ErrTokenRejected [])
                else Inr ()))"

definition claims_principal :: "token_claims \<Rightarrow> principal eres" where
  "claims_principal c =
     (let isProvider = providerRoleName \<in> set (tk_Roles c); isInternal = internalRoleName \<in> set (tk_Roles c)
      in if isProvider \<and> isInternal then Inl (oidc_refuse ErrPrincipalUnresolved [])
         else if isProvider
         then (case NewProvider (tk_ProviderID c) of
                 Inl err \<Rightarrow> Inl (oidc_refuse ErrPrincipalUnresolved [DomainErr err])
               | Inr provider \<Rightarrow>
                   (case NewProviderPrincipal provider (tk_Subject c) of
                      Inl err \<Rightarrow> Inl (oidc_refuse ErrPrincipalUnresolved [err])
                    | Inr pr \<Rightarrow> Inr pr))
         else if isInternal
         then (case NewServicePrincipal (tk_Subject c) of
                 Inl err \<Rightarrow> Inl (oidc_refuse ErrPrincipalUnresolved [err])
               | Inr pr \<Rightarrow> Inr pr)
         else Inl (oidc_refuse ErrPrincipalUnresolved []))"

section \<open>The authenticator\<close>

definition maxCredentialBytes :: nat where "maxCredentialBytes = 8192"
definition bearerScheme :: string where "bearerScheme = ''Bearer''"

definition NewAuthenticator :: "'k libraries \<Rightarrow> oidc_config \<Rightarrow> (oidc_settings \<times> 'k key_set) eres" where
  "NewAuthenticator lib cfg = bindE (oidc_resolve lib cfg) (\<lambda>resolved. Inr (resolved, newKeySet resolved))"

definition oidc_verify ::
  "'k libraries \<Rightarrow> oidc_settings \<Rightarrow> 'k key_env \<Rightarrow> string \<Rightarrow> 'k key_set \<Rightarrow> string eres \<times> 'k key_set" where
  "oidc_verify lib st env bearer s =
     (let bearer = strings_TrimSpace bearer; rejected = (\<lambda>causes. Inl (oidc_refuse ErrTokenRejected causes))
      in if bearer = [] then (rejected [], s)
         else if length bearer > maxCredentialBytes then (rejected [], s)
         else if length (filter (\<lambda>ch. ch = CHR ''.'') bearer) \<noteq> 2 then (rejected [], s)
         else (case jo_Parse lib bearer of
                 None \<Rightarrow> (rejected [Wrapped []], s)
               | Some signatures \<Rightarrow>
                   (case signatures of
                      [header] \<Rightarrow>
                        (case jh_Algorithm header of
                           None \<Rightarrow> (rejected [], s)
                         | Some algorithm \<Rightarrow>
                             if algorithm \<notin> set (os_algorithms st) then (rejected [], s)
                             else (case jh_KeyID header of
                                     None \<Rightarrow> (rejected [], s)
                                   | Some kid \<Rightarrow>
                                       if blank kid then (rejected [], s)
                                       else (case keySet_key env kid s of
                                               (Inl err, s') \<Rightarrow>
                                                 if ke_cancelled env then (Inl (AsRetryable (Wrapped [err])), s')
                                                 else (Inl (oidc_refuse ErrKeyUnavailable [err]), s')
                                             | (Inr key, s') \<Rightarrow>
                                                 if (case jo_KeyAlgorithm lib key of None \<Rightarrow> False | Some declared \<Rightarrow> declared \<noteq> algorithm)
                                                 then (rejected [], s')
                                                 else (case jo_Verify lib bearer algorithm key of
                                                         None \<Rightarrow> (rejected [Wrapped []], s')
                                                       | Some payload \<Rightarrow> (Inr payload, s')))))
                    | _ \<Rightarrow> (rejected [], s))))"

definition Authenticate ::
  "'k libraries \<Rightarrow> oidc_settings \<Rightarrow> 'k key_env \<Rightarrow> instant \<Rightarrow> string \<Rightarrow> 'k key_set \<Rightarrow> principal eres \<times> 'k key_set" where
  "Authenticate lib st env now bearer s =
     (case oidc_verify lib st env bearer s of
        (Inl err, s') \<Rightarrow> (Inl err, s')
      | (Inr payload, s') \<Rightarrow>
          (bindE (decodeClaims lib payload) (\<lambda>c.
           bindE (claims_validate now (os_issuer st) (os_audience st) (os_skew st) c) (\<lambda>_.
           claims_principal c)), s'))"

definition BearerToken :: "string \<Rightarrow> string eres" where
  "BearerToken header =
     (case Cut (CHR '' '') (strings_TrimSpace header) of
        (scheme, credential, found) \<Rightarrow>
          (let credential = strings_TrimSpace credential
           in if \<not> found \<or> \<not> EqualFold scheme bearerScheme \<or> credential = []
              then Inl (oidc_refuse ErrTokenRejected []) else Inr credential))"

end
