(* ===== verification/Http.thy ===== *)
theory Http
  imports WalletCases Oidc
begin

text \<open>
  The HTTP adapter (\<^verbatim>\<open>src/internal/adapters/http\<close>): the correlation of a request, routing,
  authentication, the seven handlers and the two health endpoints, the views an answer is made of,
  and the one shape of a refusal.

  A request is its method, its escaped path, its query and header lookups and its body. An answer
  is a status, headers and the value whose JSON is sent; the JSON decoder of a body, bounded as
  \<^verbatim>\<open>MaxBytesReader\<close> bounds it, and whether the encoder can render a value are parameters, and so is
  the authenticator. The services are a record of calls on a state \<open>'s\<close>. The sentence a refusal
  writes about itself is not modelled, only that it is the one shown: \<open>Said\<close>. Logging, counting
  and spans are left out.
\<close>

section \<open>Requests and answers\<close>

record request =
  rq_Method :: string
  rq_Path :: string
  rq_Query :: "string \<Rightarrow> string"
  rq_Header :: "string \<Rightarrow> string"
  rq_Body :: string

record money_view =
  mv_Amount :: string
  mv_Currency :: string

record operation_view =
  ov_TransactionID :: string
  ov_ExternalTransactionID :: string
  ov_Kind :: string
  ov_Status :: string
  ov_Money :: money_view
  ov_Balance :: "money_view option"
  ov_FailureCode :: string
  ov_IdempotentReplay :: bool

record wallet_answer =
  wa_ID :: string
  wa_PlayerID :: string
  wa_Balance :: money_view
  wa_Version :: uint64
  wa_CreatedAt :: instant
  wa_UpdatedAt :: instant
  wa_Opening :: "operation_view option"

record entry_view =
  ev_ID :: string
  ev_WalletID :: string
  ev_TransactionID :: string
  ev_Direction :: string
  ev_Money :: money_view
  ev_BalanceBefore :: money_view
  ev_BalanceAfter :: money_view
  ev_WalletVersion :: uint64
  ev_CreatedAt :: instant

record ledger_answer =
  la_WalletID :: string
  la_Entries :: "entry_view list"
  la_NextCursor :: string

record reconciliation_view =
  rv_WalletID :: string
  rv_StoredBalance :: money_view
  rv_CalculatedBalance :: money_view
  rv_Difference :: money_view
  rv_Consistent :: bool
  rv_CheckedEntries :: nat

text \<open>
  The message of a refusal: the sentence the refusal wrote about itself, behind the field it names,
  or a fixed one.
\<close>

datatype message = Said string | Fixed string

record error_body =
  eb_Code :: string
  eb_Message :: message
  eb_CorrelationID :: string

datatype http_body =
    ErrorBody error_body
  | OperationBody operation_view
  | WalletBody wallet_answer
  | LedgerBody ledger_answer
  | ReconciliationBody reconciliation_view
  | HealthBody string "(string \<times> string) list option"

text \<open>A payload is the JSON of a value, the constant of last resort, or nothing.\<close>

datatype payload = Json http_body | LastResort | NoPayload

record response =
  rp_Status :: int
  rp_Headers :: "(string \<times> string) list"
  rp_Payload :: payload

record money_input =
  mi_Amount :: string
  mi_Currency :: string

record submit_request =
  sr_Provider :: string
  sr_ExternalTransactionID :: string
  sr_PlayerID :: string
  sr_WalletID :: string
  sr_RoundID :: string
  sr_GameID :: string
  sr_Kind :: string
  sr_Money :: money_input
  sr_ReferenceExternalTransactionID :: string

record open_wallet_request =
  or_PlayerID :: string
  or_InitialBalance :: money_input

datatype body_error = MaxBytesError | UnknownName | DuplicateName | UnreadableBody

record 's services =
  sv_Submit :: "submit_operation \<Rightarrow> 's \<Rightarrow> operation_result eres \<times> 's"
  sv_TransactionByID :: "principal \<Rightarrow> transaction_id \<Rightarrow> 's \<Rightarrow> operation_result eres"
  sv_TransactionByExternalID :: "principal \<Rightarrow> provider \<Rightarrow> external_id \<Rightarrow> 's \<Rightarrow> operation_result eres"
  sv_Open :: "open_wallet_command \<Rightarrow> 's \<Rightarrow> (wallet_view \<times> operation_result option) eres \<times> 's"
  sv_ByID :: "principal \<Rightarrow> wallet_id \<Rightarrow> 's \<Rightarrow> wallet_view eres"
  sv_Ledger :: "principal \<Rightarrow> ledger_query \<Rightarrow> 's \<Rightarrow> ledger_page eres"
  sv_Reconcile :: "principal \<Rightarrow> wallet_id \<Rightarrow> 's \<Rightarrow> reconciliation eres"

text \<open>
  What the API was built from, and what is outside it as one request meets it: the identifier a new
  correlation is minted from, what the authenticator makes of a credential, and what each readiness check answers.
\<close>

record 's api =
  ap_services :: "'s services"
  ap_authenticate :: "string \<Rightarrow> principal eres"
  ap_readiness :: "(string \<times> go_error option) list"
  ap_maxBody :: int
  ap_uuid_Parse :: "string \<Rightarrow> uuid option"
  ap_decodeSubmit :: "int \<Rightarrow> string \<Rightarrow> body_error + submit_request"
  ap_decodeOpen :: "int \<Rightarrow> string \<Rightarrow> body_error + open_wallet_request"
  ap_marshals :: "http_body \<Rightarrow> bool"
  ap_minted :: uuid

text \<open>A dependency that was not given is \<open>None\<close>.\<close>

record api_config =
  ac_Wagering :: "unit option"
  ac_Wallets :: "unit option"
  ac_Authenticator :: "unit option"
  ac_Readiness :: "(string \<times> unit option) list"
  ac_ReadinessTimeout :: duration
  ac_MaxBodyBytes :: int
  ac_Logger :: "unit option"

definition api_New :: "api_config \<Rightarrow> unit eres" where
  "api_New cfg =
     (if ac_Wagering cfg = None then Inl (Wrapped [])
      else if ac_Wallets cfg = None then Inl (Wrapped [])
      else if ac_Authenticator cfg = None then Inl (Wrapped [])
      else if ac_Logger cfg = None then Inl (Wrapped [])
      else if ac_MaxBodyBytes cfg \<le> 0 then Inl (Wrapped [])
      else if ac_ReadinessTimeout cfg \<le> 0 then Inl (Wrapped [])
      else if list_ex (\<lambda>(name, check). check = None) (ac_Readiness cfg) then Inl (Wrapped [])
      else Inr ())"

section \<open>Views\<close>

definition moneyOf :: "money \<Rightarrow> money_view" where
  "moneyOf m = \<lparr>mv_Amount = Amount m, mv_Currency = Currency_String (m_currency m)\<rparr>"

definition operationOf :: "operation_result \<Rightarrow> operation_view" where
  "operationOf r =
     \<lparr>ov_TransactionID = uuid_String (res_TransactionID r), ov_ExternalTransactionID = res_ExternalTransactionID r,
      ov_Kind = Kind_String (res_Kind r), ov_Status = Status_String (res_Status r), ov_Money = moneyOf (res_Money r),
      ov_Balance = map_option moneyOf (res_Balance r), ov_FailureCode = code_String (res_FailureCode r),
      ov_IdempotentReplay = res_IdempotentReplay r\<rparr>"

definition walletOf :: "wallet_view \<Rightarrow> wallet_answer" where
  "walletOf v =
     \<lparr>wa_ID = uuid_String (wv_ID v), wa_PlayerID = wv_PlayerID v, wa_Balance = moneyOf (wv_Balance v),
      wa_Version = wv_Version v, wa_CreatedAt = wv_CreatedAt v, wa_UpdatedAt = wv_UpdatedAt v, wa_Opening = None\<rparr>"

definition entryOf :: "ledger_entry \<Rightarrow> entry_view" where
  "entryOf e =
     \<lparr>ev_ID = uuid_String (le_id e), ev_WalletID = uuid_String (le_walletID e),
      ev_TransactionID = uuid_String (le_transactionID e), ev_Direction = Direction_String (le_direction e),
      ev_Money = moneyOf (le_amount e), ev_BalanceBefore = moneyOf (le_balanceBefore e),
      ev_BalanceAfter = moneyOf (le_balanceAfter e), ev_WalletVersion = le_walletVersion e, ev_CreatedAt = le_createdAt e\<rparr>"

definition ledgerPageOf :: "wallet_id \<Rightarrow> ledger_page \<Rightarrow> ledger_answer" where
  "ledgerPageOf i page =
     \<lparr>la_WalletID = uuid_String i, la_Entries = map entryOf (lp_Entries page), la_NextCursor = lp_NextCursor page\<rparr>"

definition reconciliationOf :: "reconciliation \<Rightarrow> reconciliation_view" where
  "reconciliationOf r =
     (let d = rn_Divergence r
      in \<lparr>rv_WalletID = uuid_String (dv_WalletID d), rv_StoredBalance = moneyOf (dv_Stored d),
          rv_CalculatedBalance = moneyOf (dv_Reconstructed d), rv_Difference = moneyOf (dv_Difference d),
          rv_Consistent = rn_Consistent r, rv_CheckedEntries = rn_CheckedEntries r\<rparr>)"

section \<open>Refusals\<close>

definition codeNotFound :: string where "codeNotFound = ''NOT_FOUND''"
definition codeMethodNotAllowed :: string where "codeMethodNotAllowed = ''METHOD_NOT_ALLOWED''"
definition codeContentTooLarge :: string where "codeContentTooLarge = ''CONTENT_TOO_LARGE''"
definition retryAfter :: string where "retryAfter = ''1''"

definition unauthenticatedMessage :: string where "unauthenticatedMessage = ''the request carries no usable credential''"
definition forbiddenMessage :: string where "forbiddenMessage = ''the caller may not do this''"
definition invalidMessage :: string where "invalidMessage = ''the request was refused as malformed''"
definition conflictMessage :: string where "conflictMessage = ''the request contradicts something already recorded''"
definition notFoundMessage :: string where "notFoundMessage = ''there is no such resource''"
definition retryableMessage :: string where "retryableMessage = ''the service is temporarily unable to answer, try again''"
definition unretryableMessage :: string where "unretryableMessage = ''the request could not be completed''"
definition auditMessage :: string where
  "auditMessage = ''the stored records for this wallet disagree and need operator attention''"
definition tooLargeMessage :: string where "tooLargeMessage = ''the request body is larger than this service accepts''"
definition renderFailureMessage :: string where "renderFailureMessage = ''the response could not be rendered''"

fun class_String :: "error_class \<Rightarrow> string" where
  "class_String Invalid = ''INVALID''"
| "class_String ClassRejected = ''REJECTED''"
| "class_String Conflict = ''CONFLICT''"
| "class_String Audit = ''AUDIT''"
| "class_String Unauthorized = ''UNAUTHORIZED''"
| "class_String NotFound = ''NOT_FOUND''"
| "class_String Retryable = ''RETRYABLE''"
| "class_String Unretryable = ''UNRETRYABLE''"

definition statusFor :: "error_class \<Rightarrow> int" where
  "statusFor c =
     (case c of
        Invalid \<Rightarrow> 400
      | Unauthorized \<Rightarrow> 403
      | NotFound \<Rightarrow> 404
      | Conflict \<Rightarrow> 409
      | Retryable \<Rightarrow> 503
      | _ \<Rightarrow> 500)"

definition codeFor :: "go_error \<Rightarrow> error_class \<Rightarrow> string" where
  "codeFor err c = (case App_CodeOf err of Some k \<Rightarrow> code_String k | None \<Rightarrow> class_String c)"

text \<open>
  Whether an error has words of its own, and the field they are about. Every \<^verbatim>\<open>app.Error\<close> and
  \<^verbatim>\<open>failure.Error\<close> that reaches this point was built with a message.
\<close>

definition words :: "go_error \<Rightarrow> string option" where
  "words err =
     (case AsAppError err of
        Some (c, k, field) \<Rightarrow> Some field
      | None \<Rightarrow> map_option err_Field (AsFailure err))"

definition messageFor :: "go_error \<Rightarrow> error_class \<Rightarrow> message" where
  "messageFor err c =
     (case (if c \<in> {Invalid, Conflict, NotFound, Unauthorized} then words err else None) of
        Some field \<Rightarrow> Said field
      | None \<Rightarrow>
          (case c of
             Invalid \<Rightarrow> Fixed invalidMessage
           | Conflict \<Rightarrow> Fixed conflictMessage
           | NotFound \<Rightarrow> Fixed notFoundMessage
           | Unauthorized \<Rightarrow> Fixed forbiddenMessage
           | Retryable \<Rightarrow> Fixed retryableMessage
           | Audit \<Rightarrow> Fixed auditMessage
           | _ \<Rightarrow> Fixed unretryableMessage))"

section \<open>Rendering\<close>

definition contentTypeJSON :: string where "contentTypeJSON = ''application/json''"
definition correlationHeader :: string where "correlationHeader = ''X-Correlation-Id''"

definition writeRenderFailure :: "'s api \<Rightarrow> string \<Rightarrow> (string \<times> string) list \<Rightarrow> response" where
  "writeRenderFailure a corr headers =
     (let body = ErrorBody \<lparr>eb_Code = class_String Unretryable, eb_Message = Fixed renderFailureMessage, eb_CorrelationID = corr\<rparr>
      in \<lparr>rp_Status = 500, rp_Headers = headers @ [(''Content-Type'', contentTypeJSON)],
          rp_Payload = (if ap_marshals a body then Json body else LastResort)\<rparr>)"

definition writeJSON :: "'s api \<Rightarrow> string \<Rightarrow> (string \<times> string) list \<Rightarrow> int \<Rightarrow> http_body \<Rightarrow> response" where
  "writeJSON a corr headers status body =
     (if \<not> ap_marshals a body then writeRenderFailure a corr headers
      else \<lparr>rp_Status = status, rp_Headers = headers @ [(''Content-Type'', contentTypeJSON)], rp_Payload = Json body\<rparr>)"

definition writeError :: "'s api \<Rightarrow> string \<Rightarrow> (string \<times> string) list \<Rightarrow> int \<Rightarrow> string \<Rightarrow> message \<Rightarrow> response" where
  "writeError a corr headers status code msg =
     writeJSON a corr (if status = 503 then headers @ [(''Retry-After'', retryAfter)] else headers) status
       (ErrorBody \<lparr>eb_Code = code, eb_Message = msg, eb_CorrelationID = corr\<rparr>)"

definition refuse :: "'s api \<Rightarrow> string \<Rightarrow> (string \<times> string) list \<Rightarrow> int \<Rightarrow> string \<Rightarrow> string \<Rightarrow> response" where
  "refuse a corr headers status code msg = writeError a corr headers status code (Fixed msg)"

definition api_fail :: "'s api \<Rightarrow> string \<Rightarrow> go_error \<Rightarrow> response" where
  "api_fail a corr err =
     (if errors_Is err errTooLarge then refuse a corr [] 413 codeContentTooLarge tooLargeMessage
      else (let c = class_of err in writeError a corr [] (statusFor c) (codeFor err c) (messageFor err c)))"

definition unauthenticated :: "'s api \<Rightarrow> string \<Rightarrow> response" where
  "unauthenticated a corr =
     writeError a corr [(''WWW-Authenticate'', ''Bearer realm=\"wagering\"'')] 401 (class_String Unauthorized)
       (Fixed unauthenticatedMessage)"

definition submissionStatus :: "operation_result \<Rightarrow> int" where
  "submissionStatus r =
     (case res_Status r of
        PendingReference \<Rightarrow> 202
      | Rejected \<Rightarrow> 422
      | _ \<Rightarrow> 200)"

section \<open>Correlation\<close>

definition maxCorrelationBytes :: nat where "maxCorrelationBytes = 128"

definition checkCorrelation :: "string \<Rightarrow> unit eres" where
  "checkCorrelation correlation =
     (let refuse = Inl (DomainErr (WithField (New InvalidFieldFormat) correlationHeader))
      in case runes correlation of
           None \<Rightarrow> refuse
         | Some rs \<Rightarrow>
             if TrimSpace rs \<noteq> rs then refuse
             else if list_ex (\<lambda>r. r < asciiSpace \<or> r = asciiDelete) rs then refuse
             else Inr ())"

text \<open>The correlation, whether a supplied one was replaced, and the refusal if there is one.\<close>

definition http_correlationOf :: "'s api \<Rightarrow> request \<Rightarrow> string \<times> bool \<times> go_error option" where
  "http_correlationOf a r =
     (let supplied = rq_Header r correlationHeader; fresh = uuid_String (ap_minted a)
      in if supplied = [] then (fresh, False, None)
         else if length supplied > maxCorrelationBytes then (fresh, True, None)
         else (case checkCorrelation supplied of
                 Inl err \<Rightarrow> (fresh, False, Some err)
               | Inr _ \<Rightarrow> (supplied, False, None)))"

section \<open>Bodies\<close>

definition malformedBody :: go_error where
  "malformedBody = DomainErr (WithField (New InvalidFieldFormat) ''body'')"

definition decodeBody :: "(int \<Rightarrow> string \<Rightarrow> body_error + 'b) \<Rightarrow> 's api \<Rightarrow> request \<Rightarrow> 'b eres" where
  "decodeBody decode a r =
     (case decode (ap_maxBody a) (rq_Body r) of
        Inr body \<Rightarrow> Inr body
      | Inl MaxBytesError \<Rightarrow> Inl (Sentinel errTooLarge)
      | Inl UnknownName \<Rightarrow> Inl malformedBody
      | Inl DuplicateName \<Rightarrow> Inl malformedBody
      | Inl UnreadableBody \<Rightarrow> Inl malformedBody)"

section \<open>Handlers\<close>

definition idempotencyKeyHeader :: string where "idempotencyKeyHeader = ''Idempotency-Key''"

definition submission_of :: "string \<Rightarrow> principal \<Rightarrow> string \<Rightarrow> submit_request \<Rightarrow> submit_operation" where
  "submission_of corr p key body =
     \<lparr>sb_Principal = p, sb_Correlation = corr, sb_Inbox = None,
      sb_Fields =
        \<lparr>of_Provider = sr_Provider body, of_ExternalTransactionID = sr_ExternalTransactionID body, of_IdempotencyKey = key,
         of_PlayerID = sr_PlayerID body, of_WalletID = sr_WalletID body, of_RoundID = sr_RoundID body,
         of_GameID = sr_GameID body, of_Kind = sr_Kind body, of_Amount = mi_Amount (sr_Money body),
         of_Currency = mi_Currency (sr_Money body),
         of_ReferenceExternalTransactionID = sr_ReferenceExternalTransactionID body\<rparr>\<rparr>"

definition submitOperation :: "'s api \<Rightarrow> string \<Rightarrow> request \<Rightarrow> principal \<Rightarrow> 's \<Rightarrow> response \<times> 's" where
  "submitOperation a corr r p s =
     (let key = rq_Header r idempotencyKeyHeader
      in if key = [] then (api_fail a corr (DomainErr (WithField (New MissingRequiredField) idempotencyKeyHeader)), s)
         else (case decodeBody (ap_decodeSubmit a) a r of
                 Inl err \<Rightarrow> (api_fail a corr err, s)
               | Inr body \<Rightarrow>
                   (case sv_Submit (ap_services a) (submission_of corr p key body) s of
                      (Inr result, s') \<Rightarrow>
                        (writeJSON a corr [] (submissionStatus result) (OperationBody (operationOf result)), s')
                    | (Inl err, s') \<Rightarrow> (api_fail a corr err, s'))))"

definition readOperation :: "'s api \<Rightarrow> string \<Rightarrow> string \<Rightarrow> principal \<Rightarrow> 's \<Rightarrow> response" where
  "readOperation a corr transactionId p s =
     (case ParseTransactionID (ap_uuid_Parse a) transactionId of
        Inl err \<Rightarrow> api_fail a corr (DomainErr err)
      | Inr i \<Rightarrow>
          (case sv_TransactionByID (ap_services a) p i s of
             Inl err \<Rightarrow> api_fail a corr err
           | Inr result \<Rightarrow> writeJSON a corr [] 200 (OperationBody (operationOf result))))"

definition readProviderOperation :: "'s api \<Rightarrow> string \<Rightarrow> string \<Rightarrow> string \<Rightarrow> principal \<Rightarrow> 's \<Rightarrow> response" where
  "readProviderOperation a corr providerId externalTransactionId p s =
     (case NewProvider providerId of
        Inl err \<Rightarrow> api_fail a corr (DomainErr err)
      | Inr provider \<Rightarrow>
          (case NewExternalTransactionID externalTransactionId of
             Inl err \<Rightarrow> api_fail a corr (DomainErr err)
           | Inr external \<Rightarrow>
               (case sv_TransactionByExternalID (ap_services a) p provider external s of
                  Inl err \<Rightarrow> api_fail a corr err
                | Inr result \<Rightarrow> writeJSON a corr [] 200 (OperationBody (operationOf result)))))"

definition openWallet :: "'s api \<Rightarrow> string \<Rightarrow> request \<Rightarrow> principal \<Rightarrow> 's \<Rightarrow> response \<times> 's" where
  "openWallet a corr r p s =
     (case decodeBody (ap_decodeOpen a) a r of
        Inl err \<Rightarrow> (api_fail a corr err, s)
      | Inr body \<Rightarrow>
          (case sv_Open (ap_services a)
             \<lparr>oc_Principal = p, oc_Correlation = corr, oc_PlayerID = or_PlayerID body,
              oc_InitialAmount = mi_Amount (or_InitialBalance body), oc_Currency = mi_Currency (or_InitialBalance body)\<rparr> s of
             (Inl err, s') \<Rightarrow> (api_fail a corr err, s')
           | (Inr (view, opening), s') \<Rightarrow>
               (writeJSON a corr [(''Location'', ''/wallets/'' @ uuid_String (wv_ID view))] 201
                  (WalletBody ((walletOf view)\<lparr>wa_Opening := map_option operationOf opening\<rparr>)), s')))"

definition readWallet :: "'s api \<Rightarrow> string \<Rightarrow> string \<Rightarrow> principal \<Rightarrow> 's \<Rightarrow> response" where
  "readWallet a corr walletId p s =
     (case ParseWalletID (ap_uuid_Parse a) walletId of
        Inl err \<Rightarrow> api_fail a corr (DomainErr err)
      | Inr i \<Rightarrow>
          (case sv_ByID (ap_services a) p i s of
             Inl err \<Rightarrow> api_fail a corr err
           | Inr view \<Rightarrow> writeJSON a corr [] 200 (WalletBody (walletOf view))))"

definition limitOf :: "request \<Rightarrow> int eres" where
  "limitOf r =
     (let raw = rq_Query r ''limit''
      in if raw = [] then Inr 0
         else (case ParseInt raw of
                 Inl _ \<Rightarrow> Inl (DomainErr (WithField (New InvalidFieldFormat) ''limit''))
               | Inr n \<Rightarrow> Inr (sint n)))"

definition readLedger :: "'s api \<Rightarrow> string \<Rightarrow> request \<Rightarrow> string \<Rightarrow> principal \<Rightarrow> 's \<Rightarrow> response" where
  "readLedger a corr r walletId p s =
     (case ParseWalletID (ap_uuid_Parse a) walletId of
        Inl err \<Rightarrow> api_fail a corr (DomainErr err)
      | Inr i \<Rightarrow>
          (case limitOf r of
             Inl err \<Rightarrow> api_fail a corr err
           | Inr limit \<Rightarrow>
               (case sv_Ledger (ap_services a) p
                  \<lparr>lq_WalletID = i, lq_Cursor = rq_Query r ''cursor'', lq_Limit = limit\<rparr> s of
                  Inl err \<Rightarrow> api_fail a corr err
                | Inr page \<Rightarrow> writeJSON a corr [] 200 (LedgerBody (ledgerPageOf i page)))))"

definition reconcileWallet :: "'s api \<Rightarrow> string \<Rightarrow> string \<Rightarrow> principal \<Rightarrow> 's \<Rightarrow> response" where
  "reconcileWallet a corr walletId p s =
     (case ParseWalletID (ap_uuid_Parse a) walletId of
        Inl err \<Rightarrow> api_fail a corr (DomainErr err)
      | Inr i \<Rightarrow>
          (case sv_Reconcile (ap_services a) p i s of
             Inl err \<Rightarrow> api_fail a corr err
           | Inr report \<Rightarrow> writeJSON a corr [] 200 (ReconciliationBody (reconciliationOf report))))"

section \<open>Health\<close>

definition api_live :: "'s api \<Rightarrow> string \<Rightarrow> response" where
  "api_live a corr = writeJSON a corr [] 200 (HealthBody ''alive'' None)"

definition api_ready :: "'s api \<Rightarrow> string \<Rightarrow> response" where
  "api_ready a corr =
     (let checks = map (\<lambda>(name, err). (name, if err \<noteq> None then ''failed'' else ''ok'')) (ap_readiness a);
          ready = list_all (\<lambda>(name, err). err = None) (ap_readiness a)
      in if \<not> ready then writeJSON a corr [(''Retry-After'', retryAfter)] 503 (HealthBody ''unready'' (Some checks))
         else writeJSON a corr [] 200 (HealthBody ''ready'' (Some checks)))"

section \<open>Routing\<close>

text \<open>
  \<^verbatim>\<open>http.ServeMux\<close>: patterns of literal segments and wildcards, matched against the segments of the
  escaped path, each unescaped. A pattern for GET also answers HEAD; a path that needs cleaning is
  redirected to its clean form; a path known under other methods names them.
\<close>

datatype segment = Lit string | Wild

datatype endpoint =
    OpenWalletRoute | ReadWalletRoute | ReadLedgerRoute | ReconcileWalletRoute
  | SubmitOperationRoute | ReadOperationRoute | ReadProviderOperationRoute | LiveRoute | ReadyRoute

definition routes :: "(string \<times> segment list \<times> endpoint) list" where
  "routes =
     [(''POST'', [Lit ''wallets''], OpenWalletRoute),
      (''GET'', [Lit ''wallets'', Wild], ReadWalletRoute),
      (''GET'', [Lit ''wallets'', Wild, Lit ''ledger''], ReadLedgerRoute),
      (''POST'', [Lit ''wallets'', Wild, Lit ''reconciliation''], ReconcileWalletRoute),
      (''POST'', [Lit ''wagering'', Lit ''transactions''], SubmitOperationRoute),
      (''GET'', [Lit ''wagering'', Lit ''transactions'', Wild], ReadOperationRoute),
      (''GET'', [Lit ''providers'', Wild, Lit ''wagering'', Lit ''transactions'', Wild], ReadProviderOperationRoute),
      (''GET'', [Lit ''health'', Lit ''live''], LiveRoute),
      (''GET'', [Lit ''health'', Lit ''ready''], ReadyRoute)]"

fun split_slash :: "string \<Rightarrow> string list" where
  "split_slash [] = [[]]"
| "split_slash (c # cs) =
     (if c = CHR ''/'' then [] # split_slash cs
      else (case split_slash cs of [] \<Rightarrow> [[c]] | seg # segs \<Rightarrow> (c # seg) # segs))"

definition hex_value :: "char \<Rightarrow> nat option" where
  "hex_value ch =
     (let n = (of_char ch :: nat)
      in if 48 \<le> n \<and> n \<le> 57 then Some (n - 48)
         else if 97 \<le> n \<and> n \<le> 102 then Some (n - 87)
         else if 65 \<le> n \<and> n \<le> 70 then Some (n - 55)
         else None)"

fun PathUnescape :: "string \<Rightarrow> string option" where
  "PathUnescape [] = Some []"
| "PathUnescape (c # cs) =
     (if c \<noteq> CHR ''%'' then map_option (\<lambda>s. c # s) (PathUnescape cs)
      else (case cs of
              h # l # rest \<Rightarrow>
                (case (hex_value h, hex_value l) of
                   (Some x, Some y) \<Rightarrow> map_option (\<lambda>s. char_of (16 * x + y) # s) (PathUnescape rest)
                 | _ \<Rightarrow> None)
            | _ \<Rightarrow> None))"

definition unescape_segment :: "string \<Rightarrow> string" where
  "unescape_segment seg = (case PathUnescape seg of None \<Rightarrow> seg | Some s \<Rightarrow> s)"

text \<open>The segments a pattern's wildcards match; an empty last segment is a trailing slash, which no pattern here has.\<close>

fun match_segments :: "segment list \<Rightarrow> string list \<Rightarrow> string list option" where
  "match_segments [] [] = Some []"
| "match_segments (Lit l # ps) (s # ss) = (if unescape_segment s = l then match_segments ps ss else None)"
| "match_segments (Wild # ps) (s # ss) =
     (if s = [] then None else map_option (\<lambda>ws. unescape_segment s # ws) (match_segments ps ss))"
| "match_segments _ _ = None"

text \<open>\<^verbatim>\<open>cleanPath\<close>: empty, dot and dot-dot segments go, a trailing slash stays.\<close>

fun clean_segments :: "string list \<Rightarrow> string list \<Rightarrow> string list" where
  "clean_segments [] out = rev out"
| "clean_segments (s # ss) out =
     (if s = [] \<or> s = ''.'' then clean_segments ss out
      else if s = ''..'' then clean_segments ss (tl out)
      else clean_segments ss (s # out))"

definition join_segments :: "string list \<Rightarrow> string" where
  "join_segments segs = concat (map (\<lambda>s. CHR ''/'' # s) segs)"

definition cleanPath :: "string \<Rightarrow> string" where
  "cleanPath path =
     (let rooted = (if path = [] then ''/'' else if hd path = CHR ''/'' then path else CHR ''/'' # path);
          np = join_segments (clean_segments (split_slash rooted) []);
          np = (if np = [] then ''/'' else np)
      in if last rooted = CHR ''/'' \<and> np \<noteq> ''/'' then np @ ''/'' else np)"

definition method_matches :: "string \<Rightarrow> string \<Rightarrow> bool" where
  "method_matches m pat \<longleftrightarrow> m = pat \<or> (m = ''HEAD'' \<and> pat = ''GET'')"

datatype mux_answer =
    Dispatch endpoint "string list"
  | NoRoute
  | WrongMethod "string list"
  | Redirect string

definition mux_match :: "string \<Rightarrow> string \<Rightarrow> mux_answer" where
  "mux_match m path =
     (if m \<noteq> ''CONNECT'' \<and> cleanPath path \<noteq> path then Redirect (cleanPath path)
      else (let segs = tl (split_slash path);
                hits = filter (\<lambda>(pm, pat, ep). match_segments pat segs \<noteq> None) routes
            in case find (\<lambda>(pm, pat, ep). method_matches m pm) hits of
                 Some (pm, pat, ep) \<Rightarrow> Dispatch ep (case match_segments pat segs of None \<Rightarrow> [] | Some ws \<Rightarrow> ws)
               | None \<Rightarrow>
                   if hits = [] then NoRoute
                   else WrongMethod (concat (map (\<lambda>(pm, pat, ep). if pm = ''GET'' then [''GET'', ''HEAD''] else [pm]) hits))))"

text \<open>A route that needs a principal.\<close>

definition authenticated :: "'s api \<Rightarrow> string \<Rightarrow> request \<Rightarrow> (principal \<Rightarrow> 's \<Rightarrow> response \<times> 's) \<Rightarrow> 's \<Rightarrow> response \<times> 's" where
  "authenticated a corr r h s =
     (case BearerToken (rq_Header r ''Authorization'') of
        Inl err \<Rightarrow> (unauthenticated a corr, s)
      | Inr credential \<Rightarrow>
          (case ap_authenticate a credential of
             Inl err \<Rightarrow> if class_of err \<noteq> Unauthorized then (api_fail a corr err, s) else (unauthenticated a corr, s)
           | Inr p \<Rightarrow> h p s))"

definition dispatch :: "'s api \<Rightarrow> string \<Rightarrow> request \<Rightarrow> endpoint \<Rightarrow> string list \<Rightarrow> 's \<Rightarrow> response \<times> 's" where
  "dispatch a corr r ep vals s =
     (let v = (\<lambda>i. if i < length vals then vals ! i else [])
      in case ep of
           OpenWalletRoute \<Rightarrow> authenticated a corr r (openWallet a corr r) s
         | ReadWalletRoute \<Rightarrow> authenticated a corr r (\<lambda>p s. (readWallet a corr (v 0) p s, s)) s
         | ReadLedgerRoute \<Rightarrow> authenticated a corr r (\<lambda>p s. (readLedger a corr r (v 0) p s, s)) s
         | ReconcileWalletRoute \<Rightarrow> authenticated a corr r (\<lambda>p s. (reconcileWallet a corr (v 0) p s, s)) s
         | SubmitOperationRoute \<Rightarrow> authenticated a corr r (submitOperation a corr r) s
         | ReadOperationRoute \<Rightarrow> authenticated a corr r (\<lambda>p s. (readOperation a corr (v 0) p s, s)) s
         | ReadProviderOperationRoute \<Rightarrow>
             authenticated a corr r (\<lambda>p s. (readProviderOperation a corr (v 0) (v 1) p s, s)) s
         | LiveRoute \<Rightarrow> (api_live a corr, s)
         | ReadyRoute \<Rightarrow> (api_ready a corr, s))"

text \<open>The mux's own answers, restated on their way out.\<close>

definition restated :: "'s api \<Rightarrow> string \<Rightarrow> request \<Rightarrow> mux_answer \<Rightarrow> 's \<Rightarrow> response \<times> 's" where
  "restated a corr r answer s =
     (case answer of
        Dispatch ep vals \<Rightarrow> dispatch a corr r ep vals s
      | NoRoute \<Rightarrow> (refuse a corr [] 404 codeNotFound ''no route answers this path'', s)
      | WrongMethod allow \<Rightarrow>
          (refuse a corr [(''Allow'', concat (map (\<lambda>m. m @ '', '') (butlast allow)) @ last allow)] 405 codeMethodNotAllowed
             (''this path does not answer '' @ rq_Method r), s)
      | Redirect location \<Rightarrow>
          (\<lparr>rp_Status = 307, rp_Headers = [(''Location'', location)], rp_Payload = NoPayload\<rparr>, s))"

definition ServeHTTP :: "'s api \<Rightarrow> request \<Rightarrow> 's \<Rightarrow> response \<times> 's" where
  "ServeHTTP a r s =
     (case http_correlationOf a r of
        (corr, replaced, refused) \<Rightarrow>
          (let (answer, s') =
                 (case refused of
                    Some err \<Rightarrow> (api_fail a corr err, s)
                  | None \<Rightarrow> restated a corr r (mux_match (rq_Method r) (rq_Path r)) s)
           in (answer\<lparr>rp_Headers := (correlationHeader, corr) # rp_Headers answer\<rparr>, s')))"

end
