(* ===== verification/Tokens.thy ===== *)
theory Tokens
  imports Oidc
begin

text \<open>
  What an accepted credential proves, how the key cache changes, and how often it may ask the
  issuer.
\<close>

section \<open>The key cache as a system of states\<close>

text \<open>
  \<open>serves uri body\<close> says that the address answers with the document at some time. A fetch uses the
  network as it is then.
\<close>

definition honest :: "(string \<Rightarrow> string \<Rightarrow> bool) \<Rightarrow> network \<Rightarrow> bool" where
  "honest serves net \<longleftrightarrow> (\<forall>uri content. net uri = Inr (200, content) \<longrightarrow> serves uri content)"

inductive key_step :: "'k libraries \<Rightarrow> (string \<Rightarrow> string \<Rightarrow> bool) \<Rightarrow> 'k key_set \<Rightarrow> 'k key_set \<Rightarrow> bool"
  for lib :: "'k libraries" and serves :: "string \<Rightarrow> string \<Rightarrow> bool" where
  started: "startRefresh now s = (r, s') \<Longrightarrow> key_step lib serves s s'"
| finished: "ks_inflight s \<Longrightarrow> honest serves net \<Longrightarrow> key_step lib serves s (runRefresh lib net now s)"
| primed: "honest serves net \<Longrightarrow> prime lib net now s = (r, s') \<Longrightarrow> key_step lib serves s s'"

text \<open>Where keys may be read: the configured address, or without one an address on the issuer's own origin.\<close>

definition trusted :: "'k libraries \<Rightarrow> oidc_settings \<Rightarrow> string \<Rightarrow> bool" where
  "trusted lib st uri \<longleftrightarrow>
     (if os_jwksURI st \<noteq> [] then uri = os_jwksURI st else sameOrigin lib (os_issuer st) uri)"

text \<open>A key an address publishes for signing, under an identifier, as its public half.\<close>

definition publishes ::
  "'k libraries \<Rightarrow> (string \<Rightarrow> string \<Rightarrow> bool) \<Rightarrow> string \<Rightarrow> string \<Rightarrow> 'k \<Rightarrow> bool" where
  "publishes lib serves uri kid key \<longleftrightarrow>
     (\<exists>document entries entry. serves uri document \<and> jo_ParseSet lib document = Some entries \<and> entry \<in> set entries
        \<and> jk_KeyID entry = Some kid \<and> \<not> jk_Symmetric entry
        \<and> jk_Use entry \<in> {None, Some signingUse} \<and> jk_Public entry = Some key)"

definition keys_ok :: "'k libraries \<Rightarrow> (string \<Rightarrow> string \<Rightarrow> bool) \<Rightarrow> oidc_settings \<Rightarrow> (string \<times> 'k) list \<Rightarrow> bool" where
  "keys_ok lib serves st keys \<longleftrightarrow>
     (\<forall>(kid, key) \<in> set keys. \<exists>uri. trusted lib st uri \<and> publishes lib serves uri kid key)"

definition key_set_ok :: "'k libraries \<Rightarrow> (string \<Rightarrow> string \<Rightarrow> bool) \<Rightarrow> oidc_settings \<Rightarrow> 'k key_set \<Rightarrow> bool" where
  "key_set_ok lib serves st s \<longleftrightarrow>
     ks_issuer s = os_issuer st \<and> (ks_uri s = [] \<longrightarrow> os_jwksURI st = []) \<and> (ks_uri s \<noteq> [] \<longrightarrow> trusted lib st (ks_uri s))
     \<and> keys_ok lib serves st (ks_keys s)"

lemma verifying_keys_loop_from:
  assumes "(kid, key) \<in> set (verifying_keys_loop entries keys)"
  shows "(kid, key) \<in> set keys \<or> (\<exists>entry \<in> set entries. jk_KeyID entry = Some kid \<and> \<not> jk_Symmetric entry
    \<and> jk_Use entry \<in> {None, Some signingUse} \<and> jk_Public entry = Some key)"
  using assms
proof (induction entries arbitrary: keys)
  case (Cons e entries)
  let ?kept = "\<exists>k p. jk_KeyID e = Some k \<and> \<not> jk_Symmetric e \<and> jk_Use e \<in> {None, Some signingUse} \<and> jk_Public e = Some p
      \<and> verifying_keys_loop (e # entries) keys = verifying_keys_loop entries (keys @ [(k, p)])"
  have "?kept \<or> verifying_keys_loop (e # entries) keys = verifying_keys_loop entries keys"
    by (auto split: option.splits)
  then show ?case
  proof
    assume ?kept
    with Cons.IH Cons.prems show ?thesis by fastforce
  next
    assume "verifying_keys_loop (e # entries) keys = verifying_keys_loop entries keys"
    with Cons.IH Cons.prems show ?thesis by fastforce
  qed
qed simp

lemma oidc_get_served:
  assumes "oidc_get net uri = Inr body" "honest serves net"
  shows "serves uri body"
proof -
  from assms(1) obtain content where "net uri = Inr (200, content)" "body = take (maxDocumentBytes + 1) content"
    "length body \<le> maxDocumentBytes"
    by (auto simp: oidc_get_def Let_def split: sum.splits if_splits)
  moreover from this(2,3) have "length content \<le> maxDocumentBytes" by (simp add: min_def split: if_splits)
  ultimately show ?thesis using assms(2) by (simp add: honest_def)
qed

lemma verifyingKeys_ok:
  assumes "verifyingKeys lib body = Inr keys" "serves uri body" "trusted lib st uri"
  shows "keys_ok lib serves st keys"
proof -
  from assms(1) obtain entries where e: "jo_ParseSet lib body = Some entries" "keys = verifying_keys_loop entries []"
    by (auto simp: verifyingKeys_def Let_def split: option.splits if_splits)
  have "publishes lib serves uri kid key" if "(kid, key) \<in> set keys" for kid key
    using verifying_keys_loop_from [of kid key entries "[]"] that e assms(2) unfolding publishes_def by auto
  with assms(3) show ?thesis by (auto simp: keys_ok_def)
qed

lemma resolveURI_ok:
  assumes "resolveURI lib net s = (r, s')" "key_set_ok lib serves st s"
  shows "key_set_ok lib serves st s'" "r = Inr uri \<Longrightarrow> trusted lib st uri"
    "ks_keys s' = ks_keys s" "ks_lastFetch s' = ks_lastFetch s" "ks_inflight s' = ks_inflight s" "ks_minInterval s' = ks_minInterval s"
  using assms
  by (auto simp: resolveURI_def key_set_ok_def trusted_def discover_def split: if_splits sum.splits option.splits)

lemma fetch_keys_ok:
  assumes "fetch_keys lib net s = (r, s')" "key_set_ok lib serves st s" "honest serves net"
  shows "key_set_ok lib serves st s'" "r = Inr keys \<Longrightarrow> keys_ok lib serves st keys"
    "ks_lastFetch s' = ks_lastFetch s" "ks_inflight s' = ks_inflight s" "ks_minInterval s' = ks_minInterval s"
proof -
  obtain q s1 where q: "resolveURI lib net s = (q, s1)" by force
  note ok = resolveURI_ok [OF q assms(2)]
  have s': "s' = s1" using assms(1) q by (auto simp: fetch_keys_def split: sum.splits)
  show "key_set_ok lib serves st s'" "ks_lastFetch s' = ks_lastFetch s" "ks_inflight s' = ks_inflight s"
    "ks_minInterval s' = ks_minInterval s" using ok s' by simp_all
  show "keys_ok lib serves st keys" if "r = Inr keys"
  proof -
    from that assms(1) q obtain uri body where "q = Inr uri" "oidc_get net uri = Inr body" "verifyingKeys lib body = Inr keys"
      by (auto simp: fetch_keys_def split: sum.splits)
    with verifyingKeys_ok oidc_get_served assms(3) ok(2) show ?thesis by metis
  qed
qed

lemma startRefresh_keeps:
  "startRefresh now s = (r, s') \<Longrightarrow> key_set_ok lib serves st s \<Longrightarrow> key_set_ok lib serves st s'"
  by (auto simp: startRefresh_def key_set_ok_def Let_def split: if_splits)

lemma key_step_ok:
  assumes "key_step lib serves s s'" "key_set_ok lib serves st s"
  shows "key_set_ok lib serves st s'"
  using assms(1)
proof cases
  case (started now r)
  with assms(2) show ?thesis by (rule startRefresh_keeps [rotated])
next
  case (finished net now)
  obtain r s1 where f: "fetch_keys lib net s = (r, s1)" by force
  note ok = fetch_keys_ok [OF f assms(2) finished(3)]
  show ?thesis using finished(1) f ok(1) ok(2)
    by (cases r) (auto simp: runRefresh_def Let_def key_set_ok_def)
next
  case (primed net now r)
  obtain q s1 where f: "fetch_keys lib net s = (q, s1)" by force
  note ok = fetch_keys_ok [OF f assms(2) primed(1)]
  show ?thesis using primed(2) f ok(1) ok(2)
    by (cases q) (auto simp: prime_def key_set_ok_def)
qed

lemma new_key_set_ok: "key_set_ok lib serves st (newKeySet st)"
  by (simp add: newKeySet_def key_set_ok_def keys_ok_def trusted_def)

interpretation keys: transition_system "\<lambda>s. s = newKeySet st" "key_step lib serves" "key_set_ok lib serves st"
  by unfold_locales (auto intro: new_key_set_ok key_step_ok)

section \<open>An accepted credential\<close>

lemma check_names_allowed:
  assumes "check_names lib names acc = Inr allowed" "alg \<in> set allowed"
  shows "alg \<in> set acc \<or> (alg \<noteq> NoSignature \<and> (\<exists>name. jo_Lookup lib name = Some (alg, False)))"
  using assms
proof (induction names arbitrary: acc)
  case (Cons name names)
  then obtain a where "jo_Lookup lib name = Some (a, False)" "a \<noteq> NoSignature" "check_names lib names (a # acc) = Inr allowed"
    by (auto split: option.splits prod.splits if_splits)
  with Cons.IH [of "a # acc"] Cons.prems(2) show ?case by auto
qed simp

lemma NewAuthenticator_InrD:
  assumes "NewAuthenticator lib cfg = Inr (st, s)"
  shows "s = newKeySet st" "\<And>alg. alg \<in> set (os_algorithms st) \<Longrightarrow>
    alg \<noteq> NoSignature \<and> (\<exists>name. jo_Lookup lib name = Some (alg, False))"
    "0 < os_skew st" "os_skew st \<le> maxClockSkew" "0 < os_minInterval st"
proof -
  from assms have st: "oidc_resolve lib cfg = Inr st" and s: "s = newKeySet st"
    by (auto simp: NewAuthenticator_def)
  show "s = newKeySet st" by (rule s)
  from st obtain algs where algs: "checkAlgorithms lib (og_Algorithms cfg) = Inr algs" "os_algorithms st = algs"
    by (auto simp: oidc_resolve_def Let_def split: if_splits)
  show "alg \<noteq> NoSignature \<and> (\<exists>name. jo_Lookup lib name = Some (alg, False))" if "alg \<in> set (os_algorithms st)" for alg
    using check_names_allowed [of lib _ "[]" algs alg] algs that by (auto simp: checkAlgorithms_def)
  show "0 < os_skew st" "os_skew st \<le> maxClockSkew" "0 < os_minInterval st"
    using st by (auto simp: oidc_resolve_def Let_def defaultClockSkew_def maxClockSkew_def defaultMinRefreshInterval_def
        Second_def split: if_splits)
qed

definition waits_well :: "'k libraries \<Rightarrow> (string \<Rightarrow> string \<Rightarrow> bool) \<Rightarrow> 'k key_env \<Rightarrow> bool" where
  "waits_well lib serves env \<longleftrightarrow>
     (\<forall>s s'. ke_wait env s = Inr s' \<longrightarrow> (key_step lib serves)\<^sup>*\<^sup>* s s')
     \<and> ((\<exists>s e. ke_wait env s = Inl e) \<longrightarrow> ke_cancelled env)"

lemma keySet_key_steps:
  assumes "keySet_key env kid s = (r, s')" "waits_well lib serves env"
  shows "(key_step lib serves)\<^sup>*\<^sup>* s s'" "r = Inr key \<Longrightarrow> (kid, key) \<in> set (ks_keys s')"
proof -
  have start: "key_step lib serves s s1" if "startRefresh (ke_now env) s = (x, s1)" for x s1
    using that by (rule started)
  show "(key_step lib serves)\<^sup>*\<^sup>* s s'"
  proof (cases "cached s kid")
    case (Some k)
    with assms(1) show ?thesis by (simp add: keySet_key_def)
  next
    case None
    obtain x s1 where x: "startRefresh (ke_now env) s = (x, s1)" by force
    have "s' = s1 \<or> ke_wait env s1 = Inr s'"
      using assms(1) None x by (auto simp: keySet_key_def split: sum.splits option.splits)
    with start [OF x] assms(2) show ?thesis unfolding waits_well_def
      by (metis converse_rtranclp_into_rtranclp r_into_rtranclp)
  qed
  show "(kid, key) \<in> set (ks_keys s')" if "r = Inr key"
    using assms(1) that by (auto simp: keySet_key_def cached_def split: sum.splits option.splits prod.splits dest: map_of_SomeD)
qed

lemma oidc_verify_InrE:
  assumes "oidc_verify lib st env bearer s = (Inr payload, s')"
  obtains kid key alg where "alg \<in> set (os_algorithms st)" "keySet_key env kid s = (Inr key, s')"
    "jo_Verify lib (strings_TrimSpace bearer) alg key = Some payload"
    "\<exists>header. jo_Parse lib (strings_TrimSpace bearer) = Some [header] \<and> jh_Algorithm header = Some alg \<and> jh_KeyID header = Some kid"
proof -
  from assms obtain header where header: "jo_Parse lib (strings_TrimSpace bearer) = Some [header]"
    by (auto simp: oidc_verify_def Let_def split: if_splits option.splits list.splits)
  with assms obtain alg kid where alg: "jh_Algorithm header = Some alg" "alg \<in> set (os_algorithms st)" "jh_KeyID header = Some kid"
    by (auto simp: oidc_verify_def Let_def split: if_splits option.splits)
  obtain r s1 where r: "keySet_key env kid s = (r, s1)" by force
  from assms header alg r obtain key where "r = Inr key" "s1 = s'" "jo_Verify lib (strings_TrimSpace bearer) alg key = Some payload"
    by (cases r) (auto simp: oidc_verify_def Let_def split: if_splits option.splits)
  with that alg header r show ?thesis by blast
qed

lemma claims_principal_InrD:
  assumes "claims_principal c = Inr p"
  shows "pr_subject p = tk_Subject c"
    "pr_kind p = ProviderPrincipal \<and> pr_provider p = tk_ProviderID c \<and> opaque_ok (tk_ProviderID c)
       \<and> providerRoleName \<in> set (tk_Roles c) \<and> internalRoleName \<notin> set (tk_Roles c)
     \<or> pr_kind p = ServicePrincipal \<and> providerRoleName \<notin> set (tk_Roles c) \<and> internalRoleName \<in> set (tk_Roles c)"
proof -
  have provider: "q = tk_ProviderID c \<and> opaque_ok (tk_ProviderID c)" if "NewProvider (tk_ProviderID c) = Inr q" for q
    using that by (simp add: NewProvider_def)
  show "pr_subject p = tk_Subject c"
    using assms by (auto simp: claims_principal_def NewProviderPrincipal_def NewServicePrincipal_def Let_def
        split: if_splits sum.splits)
  show "pr_kind p = ProviderPrincipal \<and> pr_provider p = tk_ProviderID c \<and> opaque_ok (tk_ProviderID c)
       \<and> providerRoleName \<in> set (tk_Roles c) \<and> internalRoleName \<notin> set (tk_Roles c)
     \<or> pr_kind p = ServicePrincipal \<and> providerRoleName \<notin> set (tk_Roles c) \<and> internalRoleName \<in> set (tk_Roles c)"
    using assms
    by (auto simp: claims_principal_def NewProviderPrincipal_def NewServicePrincipal_def Let_def
        split: if_splits sum.splits dest: provider)
qed

text \<open>What a credential has to be for the issuer to vouch for a principal.\<close>

definition vouched ::
  "'k libraries \<Rightarrow> (string \<Rightarrow> string \<Rightarrow> bool) \<Rightarrow> oidc_settings \<Rightarrow> instant \<Rightarrow> string \<Rightarrow> principal \<Rightarrow> bool" where
  "vouched lib serves st now bearer p \<longleftrightarrow>
    (\<exists>alg kid key uri payload c.
    (\<exists>name. jo_Lookup lib name = Some (alg, False)) \<and> alg \<noteq> NoSignature
    \<and> trusted lib st uri \<and> publishes lib serves uri kid key
    \<and> (\<exists>header. jo_Parse lib (strings_TrimSpace bearer) = Some [header] \<and> jh_Algorithm header = Some alg
         \<and> jh_KeyID header = Some kid)
    \<and> jo_Verify lib (strings_TrimSpace bearer) alg key = Some payload
    \<and> li_claims lib payload = Some c \<and> tk_Issuer c = os_issuer st \<and> os_audience st \<in> set (tk_Audience c)
    \<and> (\<exists>exp. tk_ExpiresAt c = Some exp \<and> now \<le> time_Add (time_Unix exp) (os_skew st)) \<and> os_skew st \<le> maxClockSkew
    \<and> pr_subject p = tk_Subject c
    \<and> (pr_kind p = ProviderPrincipal \<and> pr_provider p = tk_ProviderID c \<and> opaque_ok (tk_ProviderID c)
         \<and> providerRoleName \<in> set (tk_Roles c) \<and> internalRoleName \<notin> set (tk_Roles c)
       \<or> pr_kind p = ServicePrincipal \<and> providerRoleName \<notin> set (tk_Roles c) \<and> internalRoleName \<in> set (tk_Roles c)))"

lemma accepted_vouched:
  assumes "NewAuthenticator lib cfg = Inr (st, s0)" "(key_step lib serves)\<^sup>*\<^sup>* s0 s" "waits_well lib serves env"
    "Authenticate lib st env now bearer s = (Inr p, s')"
  shows "vouched lib serves st now bearer p"
proof -
  note built = NewAuthenticator_InrD [OF assms(1)]
  from assms(4) obtain payload c where verify: "oidc_verify lib st env bearer s = (Inr payload, s')"
    and c: "li_claims lib payload = Some c" and valid: "claims_validate now (os_issuer st) (os_audience st) (os_skew st) c = Inr ()"
    and p: "claims_principal c = Inr p"
    by (auto simp: Authenticate_def decodeClaims_def split: sum.splits prod.splits option.splits)
  from verify obtain kid key alg where v: "alg \<in> set (os_algorithms st)" "keySet_key env kid s = (Inr key, s')"
    "jo_Verify lib (strings_TrimSpace bearer) alg key = Some payload"
    "\<exists>header. jo_Parse lib (strings_TrimSpace bearer) = Some [header] \<and> jh_Algorithm header = Some alg \<and> jh_KeyID header = Some kid"
    by (rule oidc_verify_InrE)
  note steps = keySet_key_steps [OF v(2) assms(3)]
  have "key_set_ok lib serves st s'"
    by (rule keys.inv_steps [OF rtranclp_trans [OF assms(2) steps(1)]]) (simp add: built(1) new_key_set_ok)
  then have "keys_ok lib serves st (ks_keys s')" by (simp add: key_set_ok_def)
  with steps(2) [OF refl] obtain uri where uri: "trusted lib st uri" "publishes lib serves uri kid key"
    by (auto simp: keys_ok_def)
  have "tk_Issuer c = os_issuer st" "os_audience st \<in> set (tk_Audience c)"
    "\<exists>exp. tk_ExpiresAt c = Some exp \<and> now \<le> time_Add (time_Unix exp) (os_skew st)"
    using valid by (auto simp: claims_validate_def not_less split: if_splits option.splits)
  with built(2) [OF v(1)] built(4) uri v(3,4) c claims_principal_InrD [OF p] show ?thesis
    unfolding vouched_def by blast
qed

text \<open>
  C18: a credential is accepted only on the issuer's word. Take an authenticator the configuration
  allows, its key cache in any state its refreshes can reach, and a credential it accepts. Then
  exactly one signature was checked, by an asymmetric algorithm of the allow-list and never by
  \<open>none\<close>, with the public half of a key published for signing at a trusted address under the
  identifier the token names; the verified claims name the configured issuer and audience and have
  not expired by more than the skew, which is at most five minutes; and the principal is the one
  the claims grant: the provider they name, or the service, by the one role they carry.
\<close>

theorem accepted_token_verified:
  assumes "NewAuthenticator lib cfg = Inr (st, s0)" "(key_step lib serves)\<^sup>*\<^sup>* s0 s" "waits_well lib serves env"
    "Authenticate lib st env now bearer s = (Inr p, s')"
  shows "\<exists>alg kid key uri payload c.
    (\<exists>name. jo_Lookup lib name = Some (alg, False)) \<and> alg \<noteq> NoSignature
    \<and> trusted lib st uri \<and> publishes lib serves uri kid key
    \<and> (\<exists>header. jo_Parse lib (strings_TrimSpace bearer) = Some [header] \<and> jh_Algorithm header = Some alg
         \<and> jh_KeyID header = Some kid)
    \<and> jo_Verify lib (strings_TrimSpace bearer) alg key = Some payload
    \<and> li_claims lib payload = Some c \<and> tk_Issuer c = os_issuer st \<and> os_audience st \<in> set (tk_Audience c)
    \<and> (\<exists>exp. tk_ExpiresAt c = Some exp \<and> now \<le> time_Add (time_Unix exp) (os_skew st)) \<and> os_skew st \<le> maxClockSkew
    \<and> pr_subject p = tk_Subject c
    \<and> (pr_kind p = ProviderPrincipal \<and> pr_provider p = tk_ProviderID c \<and> opaque_ok (tk_ProviderID c)
         \<and> providerRoleName \<in> set (tk_Roles c) \<and> internalRoleName \<notin> set (tk_Roles c)
       \<or> pr_kind p = ServicePrincipal \<and> providerRoleName \<notin> set (tk_Roles c) \<and> internalRoleName \<in> set (tk_Roles c))"
  using accepted_vouched [OF assms] unfolding vouched_def .

section \<open>The rate of fetches\<close>

text \<open>
  A run of the cache under a clock that does not go back: the instants at which a request started a
  fetch, the clock, and the cache. A fetch, successful or not, ends later.
\<close>

inductive fetch_run :: "'k libraries \<Rightarrow> 'k key_set \<Rightarrow> instant list \<Rightarrow> instant \<Rightarrow> 'k key_set \<Rightarrow> bool"
  for lib :: "'k libraries" and s0 :: "'k key_set" where
  new: "fetch_run lib s0 [] 0 s0"
| asked: "fetch_run lib s0 ts clock s \<Longrightarrow> clock \<le> now \<Longrightarrow> 0 < now \<Longrightarrow> startRefresh now s = (r, s') \<Longrightarrow>
    fetch_run lib s0 (if r = Inr True then ts @ [now] else ts) now s'"
| fetched: "fetch_run lib s0 ts clock s \<Longrightarrow> clock \<le> now \<Longrightarrow> 0 < now \<Longrightarrow> ks_inflight s \<Longrightarrow>
    fetch_run lib s0 ts now (runRefresh lib net now s)"
| primed_again: "fetch_run lib s0 ts clock s \<Longrightarrow> clock \<le> now \<Longrightarrow> 0 < now \<Longrightarrow> \<not> ks_inflight s \<Longrightarrow>
    fetch_run lib s0 ts now (snd (prime lib net now s))"

lemma fetch_keys_frame:
  "ks_lastFetch (snd (fetch_keys lib net s)) = ks_lastFetch s" "ks_inflight (snd (fetch_keys lib net s)) = ks_inflight s"
  "ks_minInterval (snd (fetch_keys lib net s)) = ks_minInterval s"
  by (auto simp: fetch_keys_def resolveURI_def split: sum.split prod.split)

lemma refresh_frame:
  "ks_lastFetch (runRefresh lib net now s) = now" "\<not> ks_inflight (runRefresh lib net now s)"
  "ks_minInterval (runRefresh lib net now s) = ks_minInterval s"
  "ks_lastFetch (snd (prime lib net now s)) \<in> {now, ks_lastFetch s}" "ks_inflight (snd (prime lib net now s)) = ks_inflight s"
  "ks_minInterval (snd (prime lib net now s)) = ks_minInterval s"
  using fetch_keys_frame [of lib net s]
  by (cases "fetch_keys lib net s"; auto simp: runRefresh_def prime_def Let_def split: sum.split)+

definition gaps :: "duration \<Rightarrow> instant list \<Rightarrow> bool" where
  "gaps m ts \<longleftrightarrow> (\<forall>i. Suc i < length ts \<longrightarrow> ts ! i + m \<le> ts ! Suc i)"

lemma gaps_snoc:
  assumes "gaps m ts" "ts = [] \<or> last ts + m \<le> t"
  shows "gaps m (ts @ [t])"
  unfolding gaps_def
proof (intro allI impI)
  fix i
  assume i: "Suc i < length (ts @ [t])"
  show "(ts @ [t]) ! i + m \<le> (ts @ [t]) ! Suc i"
  proof (cases "Suc i < length ts")
    case True
    with assms(1) show ?thesis by (simp add: gaps_def nth_append)
  next
    case False
    with i have "length ts = Suc i" by simp
    moreover from this have "last ts = ts ! i" by (cases ts rule: rev_cases) (auto simp: nth_append)
    ultimately show ?thesis using assms(2) by (auto simp: nth_append)
  qed
qed

lemma gaps_nth: "gaps m ts \<Longrightarrow> i \<le> j \<Longrightarrow> j < length ts \<Longrightarrow> ts ! i + int (j - i) * m \<le> ts ! j"
proof (induction j)
  case (Suc j)
  show ?case
  proof (cases "i = Suc j")
    case False
    with Suc have "ts ! i + int (j - i) * m \<le> ts ! j" by simp
    moreover have "ts ! j + m \<le> ts ! Suc j" using Suc.prems by (simp add: gaps_def)
    moreover have "int (Suc j - i) * m = int (j - i) * m + m" using False Suc.prems by (simp add: Suc_diff_le algebra_simps)
    ultimately show ?thesis by linarith
  qed simp
qed simp

lemma fetch_run_gaps:
  assumes "fetch_run lib s0 ts clock s" "ks_lastFetch s0 = 0" "\<not> ks_inflight s0"
  shows "gaps (ks_minInterval s0) ts \<and> ks_minInterval s = ks_minInterval s0 \<and> ks_lastFetch s \<le> clock
    \<and> (ts \<noteq> [] \<longrightarrow> 0 < last ts \<and> last ts \<le> clock \<and> (ks_inflight s \<or> last ts \<le> ks_lastFetch s)) \<and> (ks_inflight s \<longrightarrow> ts \<noteq> [])"
  using assms(1)
proof induction
  case new
  with assms(2,3) show ?case by (simp add: gaps_def)
next
  case (asked ts clock s now r s')
  show ?case
  proof (cases "r = Inr True")
    case True
    with asked.hyps(4) have idle: "\<not> ks_inflight s" and s': "ks_inflight s'" "ks_minInterval s' = ks_minInterval s"
      "ks_lastFetch s' \<le> now" "ks_lastFetch s = 0 \<or> ks_minInterval s \<le> now - ks_lastFetch s"
      using asked by (auto simp: startRefresh_def Let_def split: if_splits)
    have "ts = [] \<or> last ts + ks_minInterval s0 \<le> now"
      using asked.IH idle s'(4) by linarith
    with asked.IH s' True asked.hyps(3) show ?thesis by (simp add: gaps_snoc)
  next
    case False
    with asked.hyps(4) have "ks_inflight s' = ks_inflight s" "ks_minInterval s' = ks_minInterval s" "ks_lastFetch s' = ks_lastFetch s"
      using asked.IH asked.hyps(2) by (auto simp: startRefresh_def Let_def split: if_splits)
    with asked.IH asked.hyps(2) False show ?thesis by auto
  qed
next
  case (fetched ts clock s now net)
  with refresh_frame(1-3) [of lib net now s] show ?case by auto
next
  case (primed_again ts clock s now net)
  with refresh_frame(4-6) [of lib net now s] show ?case by auto
qed

text \<open>
  C25: presenting unknown key identifiers cannot hammer the identity provider. However requests
  arrive, whether the fetches they start succeed or fail, and however often start-up reads the keys
  in between, the starts of two fetches are as many minimum intervals apart as there are fetches
  between them, and the interval of every configured authenticator is positive.
\<close>

theorem fetches_rate_limited:
  assumes "NewAuthenticator lib cfg = Inr (st, s0)" "fetch_run lib s0 ts clock s" "i \<le> j" "j < length ts"
  shows "ts ! i + int (j - i) * os_minInterval st \<le> ts ! j \<and> 0 < os_minInterval st"
proof -
  note built = NewAuthenticator_InrD [OF assms(1)]
  have "gaps (os_minInterval st) ts" using fetch_run_gaps [OF assms(2)] by (simp add: built(1) newKeySet_def)
  from gaps_nth [OF this assms(3,4)] built(5) show ?thesis by blast
qed

section \<open>Refusals\<close>

lemma class_of_refuse:
  assumes "\<forall>e \<in> set causes. AsAppError e = None \<or> (\<exists>k f. AsAppError e = Some (Unauthorized, k, f))"
  shows "class_of (oidc_refuse why causes) = Unauthorized"
proof -
  have "\<exists>k f. first_some (map AsAppError (causes @ [AppErr Unauthorized no_code [] None])) = Some (Unauthorized, k, f)"
    using assms by (induction causes) (auto split: option.splits)
  then show ?thesis by (auto simp: class_of_def oidc_refuse_def)
qed

lemma keySet_key_InlD:
  assumes "keySet_key env kid s = (Inl err, s')"
  shows "AsAppError err = None"
  using assms by (auto simp: keySet_key_def startRefresh_def Let_def split: sum.splits option.splits if_splits)

lemma NewPrincipal_Inl: 
  "NewProviderPrincipal q sub = Inl err \<Longrightarrow> err = unauthorized" "NewServicePrincipal sub = Inl err \<Longrightarrow> err = unauthorized"
  by (auto simp: NewProviderPrincipal_def NewServicePrincipal_def split: if_splits)

lemma claims_principal_Inl:
  assumes "claims_principal c = Inl err"
  shows "class_of err = Unauthorized"
proof -
  have "class_of (oidc_refuse w []) = Unauthorized" "class_of (oidc_refuse w [DomainErr f]) = Unauthorized"
    "class_of (oidc_refuse w [unauthorized]) = Unauthorized" for w f
    by (rule class_of_refuse; simp add: unauthorized_def newError_def)+
  with assms show ?thesis
    by (auto simp: claims_principal_def Let_def split: if_splits sum.splits dest!: NewPrincipal_Inl)
qed

lemma oidc_verify_Inl:
  assumes "oidc_verify lib st env bearer s = (Inl err, s')"
  shows "class_of err = Unauthorized \<or> ke_cancelled env \<and> class_of err = Retryable"
proof -
  have refused: "class_of (oidc_refuse w []) = Unauthorized" "class_of (oidc_refuse w [Wrapped []]) = Unauthorized" for w
    by (rule class_of_refuse; simp)+
  have key: "class_of (oidc_refuse w [e]) = Unauthorized" "class_of (AsRetryable (Wrapped [e])) = Retryable"
    if "keySet_key env kid s = (Inl e, s1)" for w kid e s1
    using keySet_key_InlD [OF that] class_of_refuse [of "[e]" w] by (simp_all add: AsRetryable_def isClassified_def class_of_def)
  show ?thesis using assms
    by (auto simp: oidc_verify_def Let_def refused split: if_splits option.splits list.splits sum.splits prod.splits dest: key)
qed

lemma Authenticate_Inl:
  assumes "Authenticate lib st env now bearer s = (Inl err, s')"
  shows "class_of err = Unauthorized \<or> ke_cancelled env \<and> class_of err = Retryable"
proof -
  have refused: "class_of (oidc_refuse w []) = Unauthorized" "class_of (oidc_refuse w [Wrapped []]) = Unauthorized" for w
    by (rule class_of_refuse; simp)+
  have valid: "class_of e = Unauthorized" if "claims_validate now i a k c = Inl e" for i a k c e
    using that refused by (auto simp: claims_validate_def split: if_splits option.splits)
  show ?thesis
  proof (cases "oidc_verify lib st env bearer s")
    case (Pair r s1)
    show ?thesis
    proof (cases r)
      case (Inl e)
      with Pair assms oidc_verify_Inl [of lib st env bearer s err s'] show ?thesis by (simp add: Authenticate_def)
    next
      case (Inr payload)
      with Pair assms refused valid claims_principal_Inl show ?thesis
        by (auto simp: Authenticate_def decodeClaims_def bindE_Inl_iff split: option.splits)
    qed
  qed
qed

section \<open>A sample issuer\<close>

definition sample_claims :: token_claims where
  "sample_claims =
     \<lparr>tk_Issuer = ''https://idp'', tk_Subject = ''acme-client'', tk_Audience = [''wagering''], tk_ExpiresAt = Some 100,
      tk_NotBefore = None, tk_IssuedAt = None, tk_Roles = [''provider''], tk_ProviderID = ''acme''\<rparr>"

definition sample_libraries :: "unit libraries" where
  "sample_libraries =
     \<lparr>jo_Parse = (\<lambda>s. Some [\<lparr>jh_Algorithm = Some ''RS256'', jh_KeyID = Some ''k1''\<rparr>]),
      jo_Verify = (\<lambda>s alg key. Some ''claims''), jo_KeyAlgorithm = (\<lambda>key. Some ''RS256''),
      jo_ParseSet = (\<lambda>document. Some [\<lparr>jk_KeyID = Some ''k1'', jk_Symmetric = False, jk_Use = Some ''sig'', jk_Public = Some ()\<rparr>]),
      jo_Lookup = (\<lambda>name. Some (name, False)),
      li_url_Parse = (\<lambda>raw. Some \<lparr>u_Scheme = ''https'', u_Host = ''idp'', u_Port = [], u_Hostname = ''idp''\<rparr>),
      li_claims = (\<lambda>payload. Some sample_claims), li_metadata = (\<lambda>body. None)\<rparr>"

definition sample_oidc :: oidc_config where
  "sample_oidc =
     \<lparr>og_Issuer = ''https://idp'', og_Audience = ''wagering'', og_JWKSURI = ''https://idp/keys'', og_HTTPClient = Some (),
      og_Algorithms = [''RS256''], og_ClockSkew = 0, og_FetchTimeout = 0, og_MinRefreshInterval = 0\<rparr>"

definition sample_issuer_settings :: oidc_settings where
  "sample_issuer_settings =
     \<lparr>os_issuer = ''https://idp'', os_audience = ''wagering'', os_jwksURI = ''https://idp/keys'', os_algorithms = [''RS256''],
      os_skew = defaultClockSkew, os_fetchTimeout = defaultFetchTimeout, os_minInterval = defaultMinRefreshInterval\<rparr>"

definition sample_network :: network where
  "sample_network uri = (if uri = ''https://idp/keys'' then Inr (200, ''keys'') else Inl (Wrapped []))"

definition sample_env :: "unit key_env" where
  "sample_env =
     \<lparr>ke_now = 50, ke_wait = (\<lambda>s. if ks_inflight s then Inr (runRefresh sample_libraries sample_network 51 s) else Inr s),
      ke_cancelled = False\<rparr>"

lemma sample_authenticator: "NewAuthenticator sample_libraries sample_oidc = Inr (sample_issuer_settings, newKeySet sample_issuer_settings)"
proof -
  have "strings_TrimSpace ''https://idp'' = ''https://idp''" "strings_TrimSpace ''wagering'' = ''wagering''"
    "strings_TrimSpace ''https://idp/keys'' = ''https://idp/keys''"
    by (rule TrimSpace_printing; simp)+
  then show ?thesis
    by (simp add: NewAuthenticator_def oidc_resolve_def sample_oidc_def checkIssuer_def checkAbsolute_def sample_libraries_def
        HasSuffix_def HasPrefix_def checkAlgorithms_def NoSignature_def maxClockSkew_def Second_def sample_issuer_settings_def)
qed

lemma sample_refreshed:
  "ks_keys (runRefresh sample_libraries sample_network now (s\<lparr>ks_uri := ''https://idp/keys''\<rparr>)) = [(''k1'', ())]"
proof -
  have "\<not> blank ''k1''" by (simp add: blank_def runes_ascii TrimSpace_def IsSpace_def)
  then have "verifyingKeys sample_libraries ''keys'' = Inr [(''k1'', ())]"
    by (simp add: verifyingKeys_def sample_libraries_def signingUse_def)
  then show ?thesis
    by (simp add: runRefresh_def fetch_keys_def resolveURI_def oidc_get_def sample_network_def maxDocumentBytes_def Let_def)
qed

lemma sample_key:
  "keySet_key sample_env ''k1'' (newKeySet sample_issuer_settings)
     = (Inr (), runRefresh sample_libraries sample_network 51 ((newKeySet sample_issuer_settings)\<lparr>ks_inflight := True\<rparr>))"
proof -
  let ?s = "(newKeySet sample_issuer_settings :: unit key_set)\<lparr>ks_inflight := True\<rparr>"
  have start: "startRefresh 50 (newKeySet sample_issuer_settings :: unit key_set) = (Inr True, ?s)"
    by (simp add: startRefresh_def newKeySet_def)
  have "?s = ?s\<lparr>ks_uri := ''https://idp/keys''\<rparr>" by (simp add: newKeySet_def sample_issuer_settings_def)
  then have "ks_keys (runRefresh sample_libraries sample_network 51 ?s) = [(''k1'', ())]"
    using sample_refreshed [of 51 ?s] by simp
  then have "cached (runRefresh sample_libraries sample_network 51 ?s) ''k1'' = Some ()"
    by (simp add: cached_def)
  moreover have "cached (newKeySet sample_issuer_settings :: unit key_set) ''k1'' = None" by (simp add: cached_def newKeySet_def)
  ultimately show ?thesis using start by (simp add: keySet_key_def sample_env_def)
qed

lemma sample_accepted:
  "\<exists>s'. Authenticate sample_libraries sample_issuer_settings sample_env 60 ''a.b.c'' (newKeySet sample_issuer_settings)
     = (Inr \<lparr>pr_kind = ProviderPrincipal, pr_provider = ''acme'', pr_subject = ''acme-client''\<rparr>, s')"
proof -
  have trim: "strings_TrimSpace ''a.b.c'' = ''a.b.c''" by (rule TrimSpace_printing; simp)
  have blank: "\<not> blank ''k1''" "\<not> blank ''acme''" "\<not> blank ''acme-client''"
    by (simp_all add: blank_def runes_ascii TrimSpace_def IsSpace_def)
  have "sint (100 + unixToInternal) = 62135596900" by (simp add: unixToInternal_def)
  then have exp: "\<not> time_Add (time_Unix 100) defaultClockSkew < 60"
    by (simp add: time_Unix_def time_Add_def defaultClockSkew_def Second_def Let_def)
  obtain s' where verify: "oidc_verify sample_libraries sample_issuer_settings sample_env ''a.b.c'' (newKeySet sample_issuer_settings)
      = (Inr ''claims'', s')"
    using trim blank(1) sample_key
    by (simp add: oidc_verify_def Let_def maxCredentialBytes_def)
      (simp add: sample_libraries_def sample_issuer_settings_def)
  have "claims_validate 60 ''https://idp'' ''wagering'' defaultClockSkew sample_claims = Inr ()"
    using exp blank by (simp add: claims_validate_def sample_claims_def)
  moreover have "NewProvider ''acme'' = Inr ''acme''"
    unfolding NewProvider_def parseOpaque_Inr_iff by (rule conjI [OF opaque_ok_ascii refl]; simp)
  then have "claims_principal sample_claims = Inr \<lparr>pr_kind = ProviderPrincipal, pr_provider = ''acme'', pr_subject = ''acme-client''\<rparr>"
    using blank by (simp add: claims_principal_def sample_claims_def providerRoleName_def internalRoleName_def NewProviderPrincipal_def)
  ultimately show ?thesis using verify
    by (simp add: Authenticate_def decodeClaims_def) (simp add: sample_libraries_def sample_issuer_settings_def)
qed

definition sample_serves :: "string \<Rightarrow> string \<Rightarrow> bool" where
  "sample_serves uri body \<longleftrightarrow> uri = ''https://idp/keys'' \<and> body = ''keys''"

lemma sample_waits: "waits_well sample_libraries sample_serves sample_env"
proof -
  have "honest sample_serves sample_network" by (simp add: honest_def sample_serves_def sample_network_def)
  then show ?thesis by (auto simp: waits_well_def sample_env_def intro: finished split: if_splits)
qed

theorem accepted_token_verified_witness:
  "\<exists>p s' kid key. Authenticate sample_libraries sample_issuer_settings sample_env 60 ''a.b.c'' (newKeySet sample_issuer_settings) = (Inr p, s')
     \<and> publishes sample_libraries sample_serves ''https://idp/keys'' kid key \<and> pr_subject p = tk_Subject sample_claims"
proof -
  obtain s' where run: "Authenticate sample_libraries sample_issuer_settings sample_env 60 ''a.b.c'' (newKeySet sample_issuer_settings)
     = (Inr \<lparr>pr_kind = ProviderPrincipal, pr_provider = ''acme'', pr_subject = ''acme-client''\<rparr>, s')" (is "_ = (Inr ?p, s')")
    using sample_accepted by blast
  from accepted_token_verified [OF sample_authenticator rtranclp.rtrancl_refl sample_waits run]
  obtain uri kid key payload c where "trusted sample_libraries sample_issuer_settings uri"
    "publishes sample_libraries sample_serves uri kid key" "li_claims sample_libraries payload = Some c" "pr_subject ?p = tk_Subject c"
    by blast
  moreover have "c = sample_claims" using calculation(3) by (simp add: sample_libraries_def)
  moreover have "uri = ''https://idp/keys''" using calculation(1) by (simp add: trusted_def sample_issuer_settings_def)
  ultimately show ?thesis using run by blast
qed

lemma sample_fetch_run: "\<exists>s. fetch_run sample_libraries (newKeySet sample_issuer_settings) [50, 40 * Second] (40 * Second) s"
proof -
  let ?s = "(newKeySet sample_issuer_settings :: unit key_set)\<lparr>ks_inflight := True\<rparr>"
  let ?t = "runRefresh sample_libraries sample_network 51 ?s"
  have start: "startRefresh 50 (newKeySet sample_issuer_settings :: unit key_set) = (Inr True, ?s)"
    by (simp add: startRefresh_def newKeySet_def)
  from asked [OF new [of sample_libraries "newKeySet sample_issuer_settings"] _ _ start]
  have "fetch_run sample_libraries (newKeySet sample_issuer_settings) [50] 50 ?s" by simp
  from fetched [OF this, of 51 sample_network]
  have run: "fetch_run sample_libraries (newKeySet sample_issuer_settings) [50] 51 ?t" by simp
  have "startRefresh (40 * Second) ?t = (Inr True, ?t\<lparr>ks_inflight := True\<rparr>)"
    using refresh_frame(1-3) [of sample_libraries sample_network 51 ?s]
    by (simp add: startRefresh_def newKeySet_def sample_issuer_settings_def defaultMinRefreshInterval_def Second_def)
  from asked [OF run _ _ this] show ?thesis by (auto simp: Second_def)
qed

theorem fetches_rate_limited_witness:
  "\<exists>s. fetch_run sample_libraries (newKeySet sample_issuer_settings) [50, 40 * Second] (40 * Second) s
     \<and> 50 + os_minInterval sample_issuer_settings \<le> 40 * Second"
proof -
  obtain s where run: "fetch_run sample_libraries (newKeySet sample_issuer_settings) [50, 40 * Second] (40 * Second) s"
    using sample_fetch_run by blast
  from fetches_rate_limited [OF sample_authenticator run, of 0 1] run show ?thesis by auto
qed

end
