(* ===== verification/Api.thy ===== *)
theory Api
  imports Http Ingestion Tokens
begin

text \<open>
  What the HTTP adapter promises its callers and the application behind it: the shape of every
  answer, what a request without a credential can do, which requests can change anything, and
  how an operation that was already applied is answered.
\<close>

section \<open>Correlations\<close>

lemma hex_digit_printing: "n < 16 \<Longrightarrow> 33 \<le> (of_char (hex_digit n) :: nat) \<and> (of_char (hex_digit n) :: nat) < 127"
  using of_char_hex_digit [of n] by (simp split: if_splits)

lemma uuid_String_opaque: "opaque_ok (uuid_String u)"
proof (rule opaque_ok_ascii)
  have "list_all (\<lambda>c. 33 \<le> (of_char c :: nat) \<and> (of_char c :: nat) < 127) (uuid_hex u)"
    using hex_digit_printing nibbles_bound by (fastforce simp: list_all_iff uuid_hex_def hex_of_def)
  then show "list_all (\<lambda>c. 33 \<le> (of_char c :: nat) \<and> (of_char c :: nat) < 127) (uuid_String u)"
    by (auto simp: uuid_String_def Let_def list_all_iff dest: in_set_takeD in_set_dropD)
  have "length (uuid_String u) = 36" by simp
  then show "uuid_String u \<noteq> []" "length (uuid_String u) \<le> 128" by (auto simp del: length_uuid_String)
qed

lemma checked_opaque:
  "checkCorrelation s = Inr u \<Longrightarrow> s \<noteq> [] \<Longrightarrow> length s \<le> maxCorrelationBytes \<Longrightarrow> opaque_ok s"
  by (auto simp: checkCorrelation_def opaque_ok_def maxCorrelationBytes_def maxOpaqueLength_def Let_def
      split: if_splits option.splits)

lemma correlation_opaque:
  assumes "http_correlationOf a r = (corr, replaced, refused)"
  shows "opaque_ok corr"
proof (cases "corr = uuid_String (ap_minted a)")
  case False
  with assms show ?thesis
    by (auto simp: http_correlationOf_def Let_def not_less intro!: checked_opaque split: if_splits sum.splits)
qed (simp add: uuid_String_opaque)

section \<open>Answers\<close>

text \<open>
  A response as the contract has it, for a request under a correlation: an answer to what was asked,
  a redirect to the clean form of a path, or a refusal in the one shape a refusal has, under the
  request's correlation. Only the service being unable to answer for now asks to try again.
\<close>

definition refusal_statuses :: "int list" where
  "refusal_statuses = [400, 401, 403, 404, 405, 409, 413, 500, 503]"

definition answer_ok :: "string \<Rightarrow> response \<Rightarrow> bool" where
  "answer_ok corr rp \<longleftrightarrow>
     (case rp_Payload rp of
        Json (ErrorBody b) \<Rightarrow> rp_Status rp \<in> set refusal_statuses \<and> eb_CorrelationID b = corr
      | Json (OperationBody v) \<Rightarrow> rp_Status rp \<in> {200, 202, 422}
      | Json (WalletBody v) \<Rightarrow> rp_Status rp \<in> {200, 201}
      | Json (LedgerBody v) \<Rightarrow> rp_Status rp = 200
      | Json (ReconciliationBody v) \<Rightarrow> rp_Status rp = 200
      | Json (HealthBody status checks) \<Rightarrow> rp_Status rp \<in> {200, 503}
      | LastResort \<Rightarrow> rp_Status rp = 500
      | NoPayload \<Rightarrow> rp_Status rp = 307 \<and> (\<exists>location. (''Location'', location) \<in> set (rp_Headers rp)))
     \<and> (rp_Status rp = 503 \<longrightarrow> (''Retry-After'', retryAfter) \<in> set (rp_Headers rp))
     \<and> (rp_Status rp = 401 \<longrightarrow> fst ` set (rp_Headers rp) \<inter> {''WWW-Authenticate''} \<noteq> {})
     \<and> (rp_Payload rp \<noteq> NoPayload \<longrightarrow> (''Content-Type'', contentTypeJSON) \<in> set (rp_Headers rp))"

lemma writeRenderFailure_ok: "answer_ok corr (writeRenderFailure a corr headers)"
  by (simp add: answer_ok_def writeRenderFailure_def Let_def refusal_statuses_def)

lemma writeJSON_ok:
  assumes "answer_ok corr \<lparr>rp_Status = status, rp_Headers = headers @ [(''Content-Type'', contentTypeJSON)], rp_Payload = Json body\<rparr>"
  shows "answer_ok corr (writeJSON a corr headers status body)"
  using assms by (simp add: writeJSON_def writeRenderFailure_ok)

lemma writeError_ok:
  assumes "status \<in> set refusal_statuses" "status \<noteq> 401 \<or> ''WWW-Authenticate'' \<in> fst ` set headers"
  shows "answer_ok corr (writeError a corr headers status code msg)"
  unfolding writeError_def by (rule writeJSON_ok) (use assms in \<open>auto simp: answer_ok_def\<close>)

lemma api_fail_ok: "answer_ok corr (api_fail a corr err)"
  by (cases "class_of err")
    (simp_all add: api_fail_def refuse_def Let_def statusFor_def writeError_ok refusal_statuses_def)

lemma unauthenticated_ok: "answer_ok corr (unauthenticated a corr)"
  unfolding unauthenticated_def by (rule writeError_ok) (simp_all add: refusal_statuses_def)

lemma written_ok:
  "status \<in> {200, 202, 422} \<Longrightarrow> answer_ok corr (writeJSON a corr [] status (OperationBody v))"
  "status \<in> {200, 201} \<Longrightarrow> answer_ok corr (writeJSON a corr headers status (WalletBody w))"
  "answer_ok corr (writeJSON a corr [] 200 (LedgerBody l))"
  "answer_ok corr (writeJSON a corr [] 200 (ReconciliationBody rc))"
  by (rule writeJSON_ok; auto simp: answer_ok_def)+

lemma health_ok: "answer_ok corr (api_live a corr)" "answer_ok corr (api_ready a corr)"
proof -
  show "answer_ok corr (api_live a corr)" unfolding api_live_def by (rule writeJSON_ok) (simp add: answer_ok_def)
  have "answer_ok corr (writeJSON a corr [(''Retry-After'', retryAfter)] 503 (HealthBody status checks))"
    "answer_ok corr (writeJSON a corr [] 200 (HealthBody status checks))" for status checks
    by (rule writeJSON_ok; simp add: answer_ok_def)+
  then show "answer_ok corr (api_ready a corr)" by (simp add: api_ready_def Let_def)
qed

lemma submitOperation_ok: "answer_ok corr (fst (submitOperation a corr r p s))"
  by (auto simp: submitOperation_def Let_def submissionStatus_def intro!: api_fail_ok written_ok
      split: sum.splits prod.splits status.splits)

lemma openWallet_ok: "answer_ok corr (fst (openWallet a corr r p s))"
  by (auto simp: openWallet_def intro!: api_fail_ok written_ok split: sum.splits prod.splits)

lemma reads_ok:
  "answer_ok corr (readOperation a corr i p s)" "answer_ok corr (readProviderOperation a corr q x p s)"
  "answer_ok corr (readWallet a corr i p s)" "answer_ok corr (readLedger a corr r i p s)"
  "answer_ok corr (reconcileWallet a corr i p s)"
  by (auto simp: readOperation_def readProviderOperation_def readWallet_def readLedger_def reconcileWallet_def
      intro!: api_fail_ok written_ok split: sum.splits)

lemma authenticated_ok:
  assumes "\<forall>p s. answer_ok corr (fst (h p s))"
  shows "answer_ok corr (fst (authenticated a corr r h s))"
  using assms by (auto simp: authenticated_def api_fail_ok unauthenticated_ok split: sum.splits)

lemma dispatch_ok: "answer_ok corr (fst (dispatch a corr r ep vals s))"
  by (cases ep) (auto simp: dispatch_def Let_def health_ok reads_ok submitOperation_ok openWallet_ok intro!: authenticated_ok)

lemma restated_ok: "answer_ok corr (fst (restated a corr r answer s))"
proof (cases answer)
  case (Redirect location)
  then show ?thesis by (simp add: restated_def answer_ok_def)
qed (simp_all add: restated_def dispatch_ok refuse_def writeError_ok refusal_statuses_def)

lemma answer_ok_header: "answer_ok corr rp \<Longrightarrow> answer_ok corr (rp\<lparr>rp_Headers := h # rp_Headers rp\<rparr>)"
  by (auto simp: answer_ok_def split: payload.splits http_body.splits)

text \<open>
  C22: every answer has the contract's shape, whatever was asked. Whatever the request, the services
  behind the API and the state they are in, the answer carries exactly the correlation the request
  is carried out under, which is the caller's own unless it has to be replaced, and is always a
  value the store's identifier columns take; and it is an answer of the kind asked for under a
  status of its kind, a redirect that says where to, or a refusal in the one shape with one of the
  refusals' statuses and that correlation. Trying again is asked for whenever the answer is that
  the service cannot answer for now, and a credential whenever there was no usable one.
\<close>

theorem answers_well_formed:
  "\<exists>corr. opaque_ok corr \<and> fst (http_correlationOf a r) = corr
     \<and> (corr = rq_Header r correlationHeader \<or> corr = uuid_String (ap_minted a))
     \<and> hd (rp_Headers (fst (ServeHTTP a r s))) = (correlationHeader, corr)
     \<and> answer_ok corr (fst (ServeHTTP a r s))"
proof -
  obtain corr replaced refused where c: "http_correlationOf a r = (corr, replaced, refused)" by (metis prod_cases3)
  have "corr = rq_Header r correlationHeader \<or> corr = uuid_String (ap_minted a)"
    using c by (auto simp: http_correlationOf_def Let_def split: if_splits sum.splits)
  moreover have "answer_ok corr (fst (ServeHTTP a r s)) \<and> hd (rp_Headers (fst (ServeHTTP a r s))) = (correlationHeader, corr)"
    by (cases refused)
      (simp_all add: ServeHTTP_def c case_prod_beta Let_def answer_ok_header api_fail_ok restated_ok)
  ultimately show ?thesis using c correlation_opaque [OF c] by auto
qed

section \<open>What a request can change\<close>

lemma mux_dispatches:
  assumes "mux_match m path = Dispatch ep vals"
  shows "\<exists>pm pat. (pm, pat, ep) \<in> set routes \<and> method_matches m pm"
proof -
  let ?hits = "filter (\<lambda>(pm, pat, ep). match_segments pat (tl (split_slash path)) \<noteq> None) routes"
  from assms obtain pm pat where "find (\<lambda>(pm, pat, ep). method_matches m pm) ?hits = Some (pm, pat, ep)"
    by (auto simp: mux_match_def Let_def split: if_splits option.splits)
  then show ?thesis by (fastforce dest: find_Some_member)
qed

lemma writing_routes:
  assumes "mux_match m path = Dispatch ep vals" "ep \<in> {OpenWalletRoute, SubmitOperationRoute}"
  shows "m = ''POST''"
  using mux_dispatches [OF assms(1)] assms(2) by (auto simp: routes_def method_matches_def)

text \<open>Only the two writing handlers change anything, behind a principal.\<close>

lemma served_change:
  assumes "ServeHTTP a r s = (answer, s')" "s' \<noteq> s"
  obtains corr replaced ep vals cred p where "http_correlationOf a r = (corr, replaced, None)"
    "mux_match (rq_Method r) (rq_Path r) = Dispatch ep vals"
    "BearerToken (rq_Header r ''Authorization'') = Inr cred" "ap_authenticate a cred = Inr p"
    "ep = OpenWalletRoute \<and> s' = snd (openWallet a corr r p s) \<or> ep = SubmitOperationRoute \<and> s' = snd (submitOperation a corr r p s)"
proof -
  obtain corr replaced refused where c: "http_correlationOf a r = (corr, replaced, refused)" by (metis prod_cases3)
  have none: "refused = None" using assms c by (cases refused) (auto simp: ServeHTTP_def)
  then have s': "s' = snd (restated a corr r (mux_match (rq_Method r) (rq_Path r)) s)"
    using assms(1) c by (auto simp: ServeHTTP_def case_prod_beta Let_def)
  then obtain ep vals where ep: "mux_match (rq_Method r) (rq_Path r) = Dispatch ep vals"
    using assms(2) by (cases "mux_match (rq_Method r) (rq_Path r)") (auto simp: restated_def)
  have snd_auth: "snd (authenticated a corr r h s) \<noteq> s \<Longrightarrow> \<exists>cred p. BearerToken (rq_Header r ''Authorization'') = Inr cred
      \<and> ap_authenticate a cred = Inr p \<and> snd (authenticated a corr r h s) = snd (h p s) \<and> snd (h p s) \<noteq> s" for h
    by (auto simp: authenticated_def split: sum.splits if_splits)
  from s' ep have d: "s' = snd (dispatch a corr r ep vals s)" by (simp add: restated_def)
  have "\<exists>cred p. BearerToken (rq_Header r ''Authorization'') = Inr cred \<and> ap_authenticate a cred = Inr p
      \<and> (ep = OpenWalletRoute \<and> s' = snd (openWallet a corr r p s) \<or> ep = SubmitOperationRoute \<and> s' = snd (submitOperation a corr r p s))"
    using assms(2) d by (cases ep) (auto simp: dispatch_def Let_def dest!: snd_auth)
  with c none ep that show ?thesis by blast
qed

lemma submitOperation_change:
  assumes "snd (submitOperation a corr r p s) \<noteq> s"
  obtains body where "decodeBody (ap_decodeSubmit a) a r = Inr body" "rq_Header r idempotencyKeyHeader \<noteq> []"
    "snd (submitOperation a corr r p s)
       = snd (sv_Submit (ap_services a) (submission_of corr p (rq_Header r idempotencyKeyHeader) body) s)"
  using assms
  by (auto simp: submitOperation_def Let_def split: if_splits sum.splits prod.splits)

lemma openWallet_change:
  assumes "snd (openWallet a corr r p s) \<noteq> s"
  obtains cmd where "oc_Principal cmd = p" "snd (openWallet a corr r p s) = snd (sv_Open (ap_services a) cmd s)"
proof (cases "decodeBody (ap_decodeOpen a) a r")
  case (Inl err)
  with assms show ?thesis by (simp add: openWallet_def)
next
  case (Inr body)
  let ?cmd = "\<lparr>oc_Principal = p, oc_Correlation = corr, oc_PlayerID = or_PlayerID body,
    oc_InitialAmount = mi_Amount (or_InitialBalance body), oc_Currency = mi_Currency (or_InitialBalance body)\<rparr>"
  from Inr have "snd (openWallet a corr r p s) = snd (sv_Open (ap_services a) ?cmd s)"
    by (auto simp: openWallet_def split: sum.splits prod.splits)
  then show ?thesis by (intro that [of ?cmd]) simp_all
qed

section \<open>What the API relies on\<close>

text \<open>
  The application behind the API: what it refuses it leaves untouched, it writes for a principal
  only what that principal may write, and an operation it has recorded it answers from the record,
  whoever the caller with the same rights is and whichever way it came.
\<close>

locale application = submitter "\<lambda>e. sv_Submit (serve e)" env_ok good later
  for serve :: "'e \<Rightarrow> 's services" and env_ok :: "'e \<Rightarrow> bool" and good :: "'s \<Rightarrow> bool" and later :: "'s \<Rightarrow> 's \<Rightarrow> bool" +
  assumes refused_opens_nothing: "sv_Open (serve e) oc s = (Inl err, s') \<Longrightarrow> s' = s"
    and submits_for: "sv_Submit (serve e) cmd s = (Inr a, s') \<Longrightarrow>
      pr_kind (sb_Principal cmd) = ProviderPrincipal \<and> pr_provider (sb_Principal cmd) = of_Provider (sb_Fields cmd)"
    and opens_for: "sv_Open (serve e) oc s = (Inr v, s') \<Longrightarrow> pr_kind (oc_Principal oc) = ServicePrincipal"
    and answered_anywhere: "\<lbrakk>good s; env_ok e; env_ok e'; sv_Submit (serve e) cmd s = (Inr a, s1); \<not> res_IdempotentReplay a;
      later s1 s2; MaySubmitAs (sb_Principal cmd') = MaySubmitAs (sb_Principal cmd); sb_Fields cmd' = sb_Fields cmd;
      opaque_ok (sb_Correlation cmd'); sb_Inbox cmd' = None\<rbrakk> \<Longrightarrow>
      \<exists>a'. sv_Submit (serve e') cmd' s2 = (Inr a', s2) \<and> res_IdempotentReplay a' \<and> res_TransactionID a' = res_TransactionID a"
begin

lemma change_authorised:
  assumes "ap_services a = serve e" "ServeHTTP a r s = (answer, s')" "s' \<noteq> s"
  obtains cred p ep vals where "BearerToken (rq_Header r ''Authorization'') = Inr cred" "ap_authenticate a cred = Inr p"
    "rq_Method r = ''POST''" "mux_match (rq_Method r) (rq_Path r) = Dispatch ep vals"
    "ep = OpenWalletRoute \<and> pr_kind p = ServicePrincipal
     \<or> ep = SubmitOperationRoute \<and> pr_kind p = ProviderPrincipal \<and> rq_Header r idempotencyKeyHeader \<noteq> []
       \<and> (\<exists>body. decodeBody (ap_decodeSubmit a) a r = Inr body \<and> pr_provider p = sr_Provider body)"
proof -
  from assms(2,3) obtain corr replaced ep vals cred p where
    served: "mux_match (rq_Method r) (rq_Path r) = Dispatch ep vals"
      "BearerToken (rq_Header r ''Authorization'') = Inr cred" "ap_authenticate a cred = Inr p"
    and s': "ep = OpenWalletRoute \<and> s' = snd (openWallet a corr r p s)
      \<or> ep = SubmitOperationRoute \<and> s' = snd (submitOperation a corr r p s)" by (rule served_change)
  have post: "rq_Method r = ''POST''" using writing_routes [OF served(1)] s' by blast
  have opened: "pr_kind p = ServicePrincipal" if "snd (openWallet a corr r p s) \<noteq> s"
    using that
  proof (rule openWallet_change)
    fix cmd
    assume "oc_Principal cmd = p" "snd (openWallet a corr r p s) = snd (sv_Open (ap_services a) cmd s)"
    with that show ?thesis using refused_opens_nothing opens_for assms(1)
      by (cases "sv_Open (serve e) cmd s"; cases "fst (sv_Open (serve e) cmd s)") fastforce+
  qed
  have submitted: "pr_kind p = ProviderPrincipal \<and> rq_Header r idempotencyKeyHeader \<noteq> []
      \<and> (\<exists>body. decodeBody (ap_decodeSubmit a) a r = Inr body \<and> pr_provider p = sr_Provider body)"
    if "snd (submitOperation a corr r p s) \<noteq> s"
    using that
  proof (rule submitOperation_change)
    fix body
    let ?cmd = "submission_of corr p (rq_Header r idempotencyKeyHeader) body"
    assume b: "decodeBody (ap_decodeSubmit a) a r = Inr body" "rq_Header r idempotencyKeyHeader \<noteq> []"
      "snd (submitOperation a corr r p s) = snd (sv_Submit (ap_services a) ?cmd s)"
    obtain ans s1 where run: "sv_Submit (serve e) ?cmd s = (ans, s1)" by (cases "sv_Submit (serve e) ?cmd s")
    with b(3) that assms(1) refused_writes_nothing obtain res where "ans = Inr res" by (cases ans) auto
    from submits_for [OF run [unfolded this]] b(1,2) show ?thesis by (simp add: submission_of_def)
  qed
  from s' assms(3) opened submitted have "ep = OpenWalletRoute \<and> pr_kind p = ServicePrincipal
     \<or> ep = SubmitOperationRoute \<and> pr_kind p = ProviderPrincipal \<and> rq_Header r idempotencyKeyHeader \<noteq> []
       \<and> (\<exists>body. decodeBody (ap_decodeSubmit a) a r = Inr body \<and> pr_provider p = sr_Provider body)" by blast
  with served post that show ?thesis by blast
qed

lemma answered_over_http:
  assumes "good s" "env_ok e" "env_ok e'" "sv_Submit (serve e) cmd s = (Inr ans, s1)" "\<not> res_IdempotentReplay ans" "later s1 s2"
    and request: "ap_services a = serve e'" "http_correlationOf a r = (corr, replaced, None)"
      "mux_match (rq_Method r) (rq_Path r) = Dispatch SubmitOperationRoute vals"
      "BearerToken (rq_Header r ''Authorization'') = Inr cred" "ap_authenticate a cred = Inr p"
      "rq_Header r idempotencyKeyHeader \<noteq> []" "decodeBody (ap_decodeSubmit a) a r = Inr body"
    and same: "MaySubmitAs p = MaySubmitAs (sb_Principal cmd)"
      "sb_Fields (submission_of corr p (rq_Header r idempotencyKeyHeader) body) = sb_Fields cmd"
    and marshals: "\<forall>v. ap_marshals a (OperationBody v)"
  shows "\<exists>v. ServeHTTP a r s2 = (\<lparr>rp_Status = submissionStatus v,
      rp_Headers = [(correlationHeader, corr), (''Content-Type'', contentTypeJSON)],
      rp_Payload = Json (OperationBody (operationOf v))\<rparr>, s2)
    \<and> res_IdempotentReplay v \<and> res_TransactionID v = res_TransactionID ans"
proof -
  let ?cmd = "submission_of corr p (rq_Header r idempotencyKeyHeader) body"
  have corr: "opaque_ok corr" by (rule correlation_opaque [OF request(2)])
  have "\<exists>v. sv_Submit (serve e') ?cmd s2 = (Inr v, s2) \<and> res_IdempotentReplay v \<and> res_TransactionID v = res_TransactionID ans"
    by (rule answered_anywhere [OF assms(1-6)]) (use same corr in \<open>simp_all add: submission_of_def\<close>)
  then obtain v where v: "sv_Submit (serve e') ?cmd s2 = (Inr v, s2)" "res_IdempotentReplay v"
    "res_TransactionID v = res_TransactionID ans" by blast
  have "submitOperation a corr r p s2 = (writeJSON a corr [] (submissionStatus v) (OperationBody (operationOf v)), s2)"
    using request(6,7) v(1) by (simp add: submitOperation_def request(1))
  then show ?thesis using request v marshals
    by (intro exI [of _ v]) (simp add: ServeHTTP_def restated_def dispatch_def authenticated_def writeJSON_def)
qed

end

section \<open>The use cases are such an application\<close>

text \<open>The services as the API is given them, each call on the store as it stands.\<close>

definition store_services :: "(string \<Rightarrow> uuid option) \<Rightarrow> wallets \<Rightarrow> call_env \<Rightarrow> store services" where
  "store_services uuid_Parse wallets e =
     \<lparr>sv_Submit = submit_alone uuid_Parse e,
      sv_TransactionByID = TransactionByID,
      sv_TransactionByExternalID = TransactionByExternalID,
      sv_Open = (\<lambda>oc st. Wallets_Open (ca_ids e) (ca_now e) oc st st),
      sv_ByID = Wallets_View,
      sv_Ledger = Wallets_Ledger,
      sv_Reconcile = (\<lambda>p i st. fst (Wallets_Reconcile wallets p i st))\<rparr>"

lemma Wallets_Open_refused: "Wallets_Open ids now oc st_key st = (Inl err, st') \<Longrightarrow> st' = st"
  by (auto simp: Wallets_Open_def WithinMovement_def split: sum.splits prod.splits if_splits option.splits)

lemma Wallets_Open_for:
  "Wallets_Open ids now oc st_key st = (Inr v, st') \<Longrightarrow> pr_kind (oc_Principal oc) = ServicePrincipal"
  by (cases "MayAdministerWallets (oc_Principal oc)")
    (auto simp: Wallets_Open_def admit_open_def MayAdministerWallets_def split: if_splits)

lemma admit_for:
  assumes "admit uuid_Parse ids cmd = Inr c"
  shows "pr_kind (sb_Principal cmd) = ProviderPrincipal \<and> pr_provider (sb_Principal cmd) = of_Provider (sb_Fields cmd)"
proof -
  from assms obtain q where "NewProvider (of_Provider (sb_Fields cmd)) = Inr q" "MaySubmitAs (sb_Principal cmd) q = Inr ()"
    by (auto simp: admit_def classified_def split: sum.splits if_splits)
  then show ?thesis by (auto simp: NewProvider_def MaySubmitAs_def split: if_splits)
qed

lemma resubmitted_alone:
  assumes "store_ok s" "call_env_ok e" "call_env_ok e'" "submit_alone uuid_Parse e cmd s = (Inr a, s1)"
    "\<not> res_IdempotentReplay a" "(service_step uuid_Parse)\<^sup>*\<^sup>* s1 s2"
    "MaySubmitAs (sb_Principal cmd') = MaySubmitAs (sb_Principal cmd)" "sb_Fields cmd' = sb_Fields cmd"
    "opaque_ok (sb_Correlation cmd')" "sb_Inbox cmd' = None"
  shows "\<exists>a'. submit_alone uuid_Parse e' cmd' s2 = (Inr a', s2) \<and> res_IdempotentReplay a'
    \<and> res_TransactionID a' = res_TransactionID a"
proof -
  note first = assms(4) [unfolded submit_alone_def]
  have now: "clock_time (ca_now e)" using assms(2) by (simp add: call_env_ok_def)
  have ok1: "store_ok s1" using Wagering_Submit_ok [OF _ now first] assms(1) by (simp add: alone_def)
  note later = later_ok [OF assms(6) ok1]
  have inbox: "claim_inbox cmd' (ca_nowInbox e') s2 s2 = Inr s2" using assms(10) by (simp add: claim_inbox_def)
  have "\<exists>a' st'. Wagering_Submit uuid_Parse (ca_service e') (ca_ids e') (ca_nowInbox e') (ca_now e') cmd' (alone s2) = (Inr a', st')
      \<and> res_IdempotentReplay a' \<and> res_TransactionID a' = res_TransactionID a \<and> (st' = vw_move (alone s2) \<or> st' = s2)"
    by (rule resubmitted [OF _ now first assms(5)])
      (use assms later inbox in \<open>auto simp: alone_def call_env_ok_def clock_timeD\<close>)
  then show ?thesis by (auto simp: submit_alone_def alone_def)
qed

interpretation web: application "store_services uuid_Parse wallets" call_env_ok store_ok "(service_step uuid_Parse)\<^sup>*\<^sup>*"
  for uuid_Parse wallets
proof
  fix e cmd s err s'
  assume "sv_Submit (store_services uuid_Parse wallets e) cmd s = (Inl err, s')"
  then show "s' = s" by (simp add: store_services_def wagering.refused_writes_nothing)
next
  fix s e e' cmd a s1 s2 cmd'
  assume "store_ok s" "call_env_ok e" "call_env_ok e'" "sv_Submit (store_services uuid_Parse wallets e) cmd s = (Inr a, s1)"
    "\<not> res_IdempotentReplay a" "(service_step uuid_Parse)\<^sup>*\<^sup>* s1 s2" "same_submission cmd cmd'" "sb_Inbox cmd \<noteq> None"
  then show "\<exists>a'. sv_Submit (store_services uuid_Parse wallets e') cmd' s2 = (Inr a', s2) \<and> res_IdempotentReplay a'
      \<and> res_TransactionID a' = res_TransactionID a"
    using wagering.answered_again [of s e e' uuid_Parse cmd a s1 s2 cmd'] by (simp add: store_services_def)
next
  fix e oc s err s'
  assume "sv_Open (store_services uuid_Parse wallets e) oc s = (Inl err, s')"
  then show "s' = s" by (auto simp: store_services_def dest: Wallets_Open_refused)
next
  fix e cmd s a s'
  assume "sv_Submit (store_services uuid_Parse wallets e) cmd s = (Inr a, s')"
  then have "\<exists>c. admit uuid_Parse (ca_ids e) cmd = Inr c"
    by (auto simp: store_services_def submit_alone_def Wagering_Submit_def split: sum.splits)
  then show "pr_kind (sb_Principal cmd) = ProviderPrincipal \<and> pr_provider (sb_Principal cmd) = of_Provider (sb_Fields cmd)"
    using admit_for by blast
next
  fix e oc s v s'
  assume "sv_Open (store_services uuid_Parse wallets e) oc s = (Inr v, s')"
  then show "pr_kind (oc_Principal oc) = ServicePrincipal" by (auto simp: store_services_def dest: Wallets_Open_for)
next
  fix s e e' a s1 s2 and cmd cmd' :: submit_operation
  assume "store_ok s" "call_env_ok e" "call_env_ok e'" "sv_Submit (store_services uuid_Parse wallets e) cmd s = (Inr a, s1)"
    "\<not> res_IdempotentReplay a" "(service_step uuid_Parse)\<^sup>*\<^sup>* s1 s2"
    "MaySubmitAs (sb_Principal cmd') = MaySubmitAs (sb_Principal cmd)" "sb_Fields cmd' = sb_Fields cmd"
    "opaque_ok (sb_Correlation cmd')" "sb_Inbox cmd' = None"
  then show "\<exists>a'. sv_Submit (store_services uuid_Parse wallets e') cmd' s2 = (Inr a', s2) \<and> res_IdempotentReplay a'
      \<and> res_TransactionID a' = res_TransactionID a"
    using resubmitted_alone [of s e e' uuid_Parse cmd a s1 s2 cmd'] by (simp add: store_services_def)
qed

section \<open>Without a credential\<close>

text \<open>Nothing is rendered from the services, and a route that needs a principal does not reach them without one.\<close>

lemma render_services [simp]:
  "writeRenderFailure (a\<lparr>ap_services := sv\<rparr>) = writeRenderFailure a"
  "writeJSON (a\<lparr>ap_services := sv\<rparr>) = writeJSON a"
  "writeError (a\<lparr>ap_services := sv\<rparr>) = writeError a"
  "refuse (a\<lparr>ap_services := sv\<rparr>) = refuse a"
  "api_fail (a\<lparr>ap_services := sv\<rparr>) = api_fail a"
  "unauthenticated (a\<lparr>ap_services := sv\<rparr>) = unauthenticated a"
  "api_live (a\<lparr>ap_services := sv\<rparr>) = api_live a"
  "api_ready (a\<lparr>ap_services := sv\<rparr>) = api_ready a"
  "http_correlationOf (a\<lparr>ap_services := sv\<rparr>) = http_correlationOf a"
proof -
  show failure: "writeRenderFailure (a\<lparr>ap_services := sv\<rparr>) = writeRenderFailure a"
    by (intro ext) (simp add: writeRenderFailure_def)
  then show json: "writeJSON (a\<lparr>ap_services := sv\<rparr>) = writeJSON a" by (intro ext) (simp add: writeJSON_def)
  then show error: "writeError (a\<lparr>ap_services := sv\<rparr>) = writeError a" by (intro ext) (simp add: writeError_def)
  then show refuse: "refuse (a\<lparr>ap_services := sv\<rparr>) = refuse a" by (intro ext) (simp add: refuse_def)
  with error show "api_fail (a\<lparr>ap_services := sv\<rparr>) = api_fail a" by (intro ext) (simp add: api_fail_def)
  from error show "unauthenticated (a\<lparr>ap_services := sv\<rparr>) = unauthenticated a" by (intro ext) (simp add: unauthenticated_def)
  from json show "api_live (a\<lparr>ap_services := sv\<rparr>) = api_live a" by (intro ext) (simp add: api_live_def)
  from json show "api_ready (a\<lparr>ap_services := sv\<rparr>) = api_ready a" by (intro ext) (simp add: api_ready_def Let_def)
  show "http_correlationOf (a\<lparr>ap_services := sv\<rparr>) = http_correlationOf a" by (intro ext) (simp add: http_correlationOf_def)
qed

definition without_principal :: "'s api \<Rightarrow> request \<Rightarrow> bool" where
  "without_principal a r \<longleftrightarrow>
     (case BearerToken (rq_Header r ''Authorization'') of
        Inl err \<Rightarrow> True
      | Inr cred \<Rightarrow> \<exists>err. ap_authenticate a cred = Inl err \<and> class_of err = Unauthorized)"

lemma authenticated_refused:
  "without_principal a r \<Longrightarrow> authenticated (a\<lparr>ap_services := sv\<rparr>) corr r h s = (unauthenticated a corr, s)"
  by (auto simp: without_principal_def authenticated_def split: sum.splits)

lemma dispatch_refused:
  assumes "without_principal a r"
  shows "dispatch (a\<lparr>ap_services := sv\<rparr>) corr r ep vals s =
    (if ep = LiveRoute then api_live a corr else if ep = ReadyRoute then api_ready a corr else unauthenticated a corr, s)"
  by (cases ep) (simp_all add: dispatch_def Let_def authenticated_refused [OF assms])

lemma restated_refused:
  assumes "without_principal a r"
  shows "\<exists>answer. \<forall>sv s. restated (a\<lparr>ap_services := sv\<rparr>) corr r m s = (answer, s)"
  by (cases m) (simp_all add: restated_def dispatch_refused [OF assms])

lemma ServeHTTP_refused:
  assumes "without_principal a r"
  shows "\<exists>answer. \<forall>sv s. ServeHTTP (a\<lparr>ap_services := sv\<rparr>) r s = (answer, s)"
proof -
  obtain corr replaced refused where c: "http_correlationOf a r = (corr, replaced, refused)" by (metis prod_cases3)
  obtain answer where "\<forall>sv s. restated (a\<lparr>ap_services := sv\<rparr>) corr r (mux_match (rq_Method r) (rq_Path r)) s = (answer, s)"
    using restated_refused [OF assms] by blast
  with c show ?thesis by (cases refused) (auto simp: ServeHTTP_def)
qed

lemma ServeHTTP_unauthenticated:
  assumes "without_principal a r" "http_correlationOf a r = (corr, replaced, None)"
    "mux_match (rq_Method r) (rq_Path r) = Dispatch ep vals" "ep \<notin> {LiveRoute, ReadyRoute}"
  shows "fst (ServeHTTP a r s)
    = (unauthenticated a corr)\<lparr>rp_Headers := (correlationHeader, corr) # rp_Headers (unauthenticated a corr)\<rparr>"
  using dispatch_refused [OF assms(1), of "ap_services a" corr ep vals s] assms(2-4)
  by (simp add: ServeHTTP_def restated_def)

text \<open>
  C19: a request without a principal learns nothing and changes nothing. Put any authenticator of
  the OIDC adapter in front of the API, and take a request with no bearer credential or with one
  the authenticator does not accept, whose caller is still there. There is one answer to it, the
  same whatever the services behind the API are and whatever state they are in, and the state is
  left as it is; and on every route but the two health checks, under a correlation that is not
  refused, it is the same refusal whatever was wrong with the credential.
\<close>

theorem unauthenticated_learns_nothing:
  assumes "ap_authenticate a = (\<lambda>cred. fst (Authenticate lib st env now cred ks))" "\<not> ke_cancelled env"
    "\<forall>cred. BearerToken (rq_Header r ''Authorization'') = Inr cred \<longrightarrow> (\<nexists>p. fst (Authenticate lib st env now cred ks) = Inr p)"
  shows "(\<exists>answer. \<forall>sv s. ServeHTTP (a\<lparr>ap_services := sv\<rparr>) r s = (answer, s))
    \<and> (http_correlationOf a r = (corr, replaced, None)
       \<and> mux_match (rq_Method r) (rq_Path r) = Dispatch ep vals \<and> ep \<notin> {LiveRoute, ReadyRoute}
       \<and> (\<forall>b. ap_marshals a (ErrorBody b)) \<longrightarrow>
       fst (ServeHTTP a r s) =
         \<lparr>rp_Status = 401,
          rp_Headers = [(correlationHeader, corr), (''WWW-Authenticate'', ''Bearer realm=\"wagering\"''),
            (''Content-Type'', contentTypeJSON)],
          rp_Payload = Json (ErrorBody \<lparr>eb_Code = ''UNAUTHORIZED'', eb_Message = Fixed unauthenticatedMessage,
            eb_CorrelationID = corr\<rparr>)\<rparr>)"
proof -
  have without: "without_principal a r"
  proof (cases "BearerToken (rq_Header r ''Authorization'')")
    case (Inr cred)
    with assms(3) obtain err ks' where run: "Authenticate lib st env now cred ks = (Inl err, ks')"
      by (cases "Authenticate lib st env now cred ks"; cases "fst (Authenticate lib st env now cred ks)") auto
    from Authenticate_Inl [OF run] assms(1,2) run Inr show ?thesis by (simp add: without_principal_def)
  qed (simp add: without_principal_def)
  from ServeHTTP_refused [OF this] ServeHTTP_unauthenticated [OF this] show ?thesis
    by (auto simp: unauthenticated_def writeError_def writeJSON_def)
qed

text \<open>
  C7: a request changes the books only on the issuer's word and within what it grants. Put an
  authenticator the configuration allows in front of the API, its key cache in any state its
  refreshes can reach, and the use cases behind it. If serving a request leaves the store any
  different, the request was a POST that carried a bearer credential the issuer vouched for, and
  either it opened a wallet for a principal of the service's own, or it submitted, under an
  idempotency key, an operation of the very provider the credential names.
\<close>

theorem changes_on_the_issuers_word:
  assumes "NewAuthenticator lib cfg = Inr (ost, ks0)" "(key_step lib serves)\<^sup>*\<^sup>* ks0 ks" "waits_well lib serves env"
    "ap_authenticate a = (\<lambda>cred. fst (Authenticate lib ost env now cred ks))"
    "ap_services a = store_services uuid_Parse wallets e" "ServeHTTP a r st = (answer, st')" "st' \<noteq> st"
  shows "\<exists>cred p ep vals. BearerToken (rq_Header r ''Authorization'') = Inr cred \<and> vouched lib serves ost now cred p
    \<and> rq_Method r = ''POST'' \<and> mux_match (rq_Method r) (rq_Path r) = Dispatch ep vals
    \<and> (ep = OpenWalletRoute \<and> pr_kind p = ServicePrincipal
       \<or> ep = SubmitOperationRoute \<and> pr_kind p = ProviderPrincipal \<and> rq_Header r idempotencyKeyHeader \<noteq> []
         \<and> (\<exists>body. decodeBody (ap_decodeSubmit a) a r = Inr body \<and> pr_provider p = sr_Provider body))"
proof -
  from assms(5-7) obtain cred p ep vals where c: "BearerToken (rq_Header r ''Authorization'') = Inr cred"
    "ap_authenticate a cred = Inr p" "rq_Method r = ''POST''" "mux_match (rq_Method r) (rq_Path r) = Dispatch ep vals"
    "ep = OpenWalletRoute \<and> pr_kind p = ServicePrincipal
     \<or> ep = SubmitOperationRoute \<and> pr_kind p = ProviderPrincipal \<and> rq_Header r idempotencyKeyHeader \<noteq> []
       \<and> (\<exists>body. decodeBody (ap_decodeSubmit a) a r = Inr body \<and> pr_provider p = sr_Provider body)"
    by (rule web.change_authorised)
  from c(2) assms(4) obtain ks' where "Authenticate lib ost env now cred ks = (Inr p, ks')"
    by (cases "Authenticate lib ost env now cred ks") auto
  from accepted_vouched [OF assms(1-3) this] c show ?thesis by blast
qed

text \<open>
  C5: an operation that was applied is answered, not applied again, whichever way it came. Suppose
  an operation was answered afresh, submitted by a consumer from a queue or by the API. Submit the
  same fields over HTTP, under the same idempotency key and for a principal with the same rights,
  at any later moment of the service and with whatever correlation the API accepts: the answer is
  the recorded transaction, marked as a replay, under the status its state has, and the store is
  left exactly as it is.
\<close>

theorem applied_once_whichever_way:
  assumes first: "store_ok st" "call_env_ok e" "call_env_ok e'" "submit_alone uuid_Parse e cmd st = (Inr ans, st1)"
      "\<not> res_IdempotentReplay ans" "(service_step uuid_Parse)\<^sup>*\<^sup>* st1 st2"
    and request: "ap_services a = store_services uuid_Parse wallets e'" "http_correlationOf a r = (corr, replaced, None)"
      "mux_match (rq_Method r) (rq_Path r) = Dispatch SubmitOperationRoute vals"
      "BearerToken (rq_Header r ''Authorization'') = Inr cred" "ap_authenticate a cred = Inr p"
      "rq_Header r idempotencyKeyHeader \<noteq> []" "decodeBody (ap_decodeSubmit a) a r = Inr body"
    and same: "MaySubmitAs p = MaySubmitAs (sb_Principal cmd)"
      "sb_Fields cmd =
        \<lparr>of_Provider = sr_Provider body, of_ExternalTransactionID = sr_ExternalTransactionID body,
         of_IdempotencyKey = rq_Header r idempotencyKeyHeader, of_PlayerID = sr_PlayerID body, of_WalletID = sr_WalletID body,
         of_RoundID = sr_RoundID body, of_GameID = sr_GameID body, of_Kind = sr_Kind body, of_Amount = mi_Amount (sr_Money body),
         of_Currency = mi_Currency (sr_Money body), of_ReferenceExternalTransactionID = sr_ReferenceExternalTransactionID body\<rparr>"
    and marshals: "\<forall>v. ap_marshals a (OperationBody v)"
  shows "\<exists>v. ServeHTTP a r st2 = (\<lparr>rp_Status = submissionStatus v,
      rp_Headers = [(correlationHeader, corr), (''Content-Type'', contentTypeJSON)],
      rp_Payload = Json (OperationBody (operationOf v))\<rparr>, st2)
    \<and> res_IdempotentReplay v \<and> res_TransactionID v = res_TransactionID ans"
  by (rule web.answered_over_http [OF first(1-3) _ first(5,6) request same(1) _ marshals])
    (use first(4) same(2) in \<open>simp_all add: store_services_def submission_of_def\<close>)

section \<open>A sample request\<close>

definition sample_body :: submit_request where
  "sample_body =
     \<lparr>sr_Provider = ''acme'', sr_ExternalTransactionID = ''ext-1'', sr_PlayerID = ''player-1'', sr_WalletID = ''w13'',
      sr_RoundID = ''round-1'', sr_GameID = ''game-1'', sr_Kind = ''BET'',
      sr_Money = \<lparr>mi_Amount = ''5.00'', mi_Currency = ''BRL''\<rparr>, sr_ReferenceExternalTransactionID = []\<rparr>"

definition sample_request :: "string \<Rightarrow> request" where
  "sample_request authorization =
     \<lparr>rq_Method = ''POST'', rq_Path = ''/wagering/transactions'', rq_Query = (\<lambda>k. []),
      rq_Header = (\<lambda>k. if k = ''Authorization'' then authorization else if k = idempotencyKeyHeader then ''key-1'' else []),
      rq_Body = ''bet''\<rparr>"

definition sample_api :: "call_env \<Rightarrow> store api" where
  "sample_api e =
     \<lparr>ap_services = store_services sample_parse \<lparr>ws_observer = None\<rparr> e,
      ap_authenticate = (\<lambda>cred. fst (Authenticate sample_libraries sample_issuer_settings sample_env 60 cred
        (newKeySet sample_issuer_settings))),
      ap_readiness = [], ap_maxBody = 1024, ap_uuid_Parse = sample_parse,
      ap_decodeSubmit = (\<lambda>n body. if body = ''bet'' then Inr sample_body else Inl UnreadableBody),
      ap_decodeOpen = (\<lambda>n body. Inl UnreadableBody), ap_marshals = (\<lambda>b. True), ap_minted = 7\<rparr>"

lemma sample_route: "mux_match ''POST'' ''/wagering/transactions'' = Dispatch SubmitOperationRoute []"
  by (simp add: mux_match_def cleanPath_def join_segments_def routes_def unescape_segment_def method_matches_def)

lemma sample_correlation: "http_correlationOf (sample_api e) (sample_request auth) = (uuid_String 7, False, None)"
  by (simp add: http_correlationOf_def sample_request_def sample_api_def correlationHeader_def idempotencyKeyHeader_def)

lemma sample_bearer: "BearerToken ''Bearer a.b.c'' = Inr ''a.b.c''"
proof -
  have "strings_TrimSpace ''Bearer a.b.c'' = ''Bearer a.b.c''" "strings_TrimSpace ''a.b.c'' = ''a.b.c''"
    by (rule TrimSpace_printing; simp)+
  then show ?thesis by (simp add: BearerToken_def Cut_def EqualFold_def bearerScheme_def lower_byte_def)
qed

lemma no_bearer: "BearerToken [] = Inl (oidc_refuse ErrTokenRejected [])"
  by (simp add: BearerToken_def Cut_def strings_TrimSpace_def trim_left_none)

lemma sample_call_ok: "call_env_ok (sample_call i now) \<longleftrightarrow> clock_time now \<and> i \<noteq> 0"
  by (simp add: call_env_ok_def sample_call_def sample_ids_def)

abbreviation sample_principal :: principal where
  "sample_principal \<equiv> \<lparr>pr_kind = ProviderPrincipal, pr_provider = ''acme'', pr_subject = ''acme-client''\<rparr>"

lemma sample_authenticated: "ap_authenticate (sample_api e) ''a.b.c'' = Inr sample_principal"
  using sample_accepted by (auto simp: sample_api_def)

lemma sample_decoded:
  "decodeBody (ap_decodeSubmit (sample_api e)) (sample_api e) (sample_request auth) = Inr sample_body"
  by (simp add: decodeBody_def sample_api_def sample_request_def)

theorem applied_once_whichever_way_witness:
  "\<exists>st answer v. consumer_handle exact_arith sample_decode sample_consumer (submit_alone sample_parse (sample_call 11 20000)) False
       (sample_delivery 1) sample_store = ((Settled, 0), st)
     \<and> ServeHTTP (sample_api (sample_call 21 30000)) (sample_request ''Bearer a.b.c'') st = (answer, st)
     \<and> rp_Payload answer = Json (OperationBody (operationOf v)) \<and> res_IdempotentReplay v \<and> res_TransactionID v = 11"
proof -
  obtain t st where run: "submit_alone sample_parse (sample_call 11 20000) sample_command_of_queue sample_store = (Inr (resultOf t False), st)"
    "tx_id t = 11" by (rule sample_applied)
  have "consumer_handle exact_arith sample_decode sample_consumer (submit_alone sample_parse (sample_call 11 20000)) False
      (sample_delivery 1) sample_store = ((Settled, 0), st)"
    by (simp add: consumer_handle_def sample_parsed sample_submission_of_queue run(1))
  moreover have "\<exists>v. ServeHTTP (sample_api (sample_call 21 30000)) (sample_request ''Bearer a.b.c'') st = (\<lparr>rp_Status = submissionStatus v,
      rp_Headers = [(correlationHeader, uuid_String 7), (''Content-Type'', contentTypeJSON)],
      rp_Payload = Json (OperationBody (operationOf v))\<rparr>, st)
    \<and> res_IdempotentReplay v \<and> res_TransactionID v = res_TransactionID (resultOf t False)"
  proof (rule applied_once_whichever_way [OF sample_store_ok _ _ run(1) _ rtranclp.rtrancl_refl _ sample_correlation _ _
      sample_authenticated _ sample_decoded])
    show "call_env_ok (sample_call 11 20000)" "call_env_ok (sample_call 21 30000)" by (simp_all add: sample_call_ok)
    show "mux_match (rq_Method (sample_request ''Bearer a.b.c'')) (rq_Path (sample_request ''Bearer a.b.c'')) = Dispatch SubmitOperationRoute []"
      by (simp add: sample_request_def sample_route)
    show "BearerToken (rq_Header (sample_request ''Bearer a.b.c'') ''Authorization'') = Inr ''a.b.c''"
      by (simp add: sample_request_def sample_bearer)
    show "MaySubmitAs sample_principal = MaySubmitAs (sb_Principal sample_command_of_queue)"
      by (intro ext) (simp add: MaySubmitAs_def sample_command_of_queue_def)
    show "sb_Fields sample_command_of_queue =
        \<lparr>of_Provider = sr_Provider sample_body, of_ExternalTransactionID = sr_ExternalTransactionID sample_body,
         of_IdempotencyKey = rq_Header (sample_request ''Bearer a.b.c'') idempotencyKeyHeader, of_PlayerID = sr_PlayerID sample_body,
         of_WalletID = sr_WalletID sample_body, of_RoundID = sr_RoundID sample_body, of_GameID = sr_GameID sample_body,
         of_Kind = sr_Kind sample_body, of_Amount = mi_Amount (sr_Money sample_body), of_Currency = mi_Currency (sr_Money sample_body),
         of_ReferenceExternalTransactionID = sr_ReferenceExternalTransactionID sample_body\<rparr>"
      by (simp add: sample_body_def sample_request_def idempotencyKeyHeader_def sample_command_of_queue_def sample_submission_def)
  qed (simp_all add: resultOf_def sample_request_def idempotencyKeyHeader_def sample_api_def)
  ultimately show ?thesis using run(2) by (fastforce simp: resultOf_def)
qed

theorem unauthenticated_learns_nothing_witness:
  "\<exists>answer. (\<forall>sv s. ServeHTTP ((sample_api (sample_call 11 20000))\<lparr>ap_services := sv\<rparr>) (sample_request []) s = (answer, s))
     \<and> rp_Status (fst (ServeHTTP (sample_api (sample_call 11 20000)) (sample_request []) sample_store)) = 401"
proof -
  let ?a = "sample_api (sample_call 11 20000)" and ?r = "sample_request []"
  have auth: "ap_authenticate ?a = (\<lambda>cred. fst (Authenticate sample_libraries sample_issuer_settings sample_env 60 cred
      (newKeySet sample_issuer_settings)))" by (simp add: sample_api_def)
  have none: "BearerToken (rq_Header ?r ''Authorization'') = Inl (oidc_refuse ErrTokenRejected [])"
    by (simp add: sample_request_def no_bearer)
  have "\<not> ke_cancelled sample_env" by (simp add: sample_env_def)
  note refused = unauthenticated_learns_nothing [OF auth this, of ?r "uuid_String 7" False SubmitOperationRoute "[]" sample_store]
  have "mux_match (rq_Method ?r) (rq_Path ?r) = Dispatch SubmitOperationRoute []" by (simp add: sample_request_def sample_route)
  moreover have "\<forall>b. ap_marshals ?a (ErrorBody b)" by (simp add: sample_api_def)
  ultimately show ?thesis using refused none sample_correlation [of "sample_call 11 20000" "[]"] by auto
qed

lemma sample_first_request:
  obtains answer st where "ServeHTTP (sample_api (sample_call 11 20000)) (sample_request ''Bearer a.b.c'') sample_store = (answer, st)"
    "st \<noteq> sample_store"
proof -
  let ?a = "sample_api (sample_call 11 20000)" and ?r = "sample_request ''Bearer a.b.c''"
  let ?cmd = "sample_submission ''5.00'' (uuid_String 7)"
  have corr: "uuid_String 7 \<noteq> []" using uuid_String_opaque [of 7] by (auto simp: opaque_ok_def)
  have opaque: "opaque_id (sb_Correlation ?cmd)"
    using uuid_String_opaque [of 7] by (simp add: opaque_id_def sample_submission_def)
  have admit: "admit sample_parse (sample_ids 11) ?cmd = Inr (sample_command Bet 500 [], payloadHash (sample_command Bet 500 []))"
    using sample_admitted [OF sample_amounts(1), of 11 "uuid_String 7"] corr by (simp add: sample_command_def)
  have claim: "claim_inbox ?cmd 20000 sample_store sample_store = Inr sample_store"
    by (simp add: claim_inbox_def sample_submission_def)
  obtain t st where run: "Wagering_Submit sample_parse sample_service (sample_ids 11) 20000 20000 ?cmd (alone sample_store)
      = (Inr (resultOf t False), st)" "tx_id t = 11"
    by (rule submit_succeeds [OF admit sample_admissible claim opaque]) (auto simp: sample_command_def)
  have cmd: "submission_of (uuid_String 7) sample_principal ''key-1'' sample_body = ?cmd"
    by (simp add: submission_of_def sample_body_def sample_submission_def)
  have svc: "sv_Submit (ap_services ?a) ?cmd sample_store = (Inr (resultOf t False), st)"
    using run(1) by (simp add: sample_api_def store_services_def submit_alone_def sample_call_def)
  have req: "mux_match (rq_Method ?r) (rq_Path ?r) = Dispatch SubmitOperationRoute []"
    "BearerToken (rq_Header ?r ''Authorization'') = Inr ''a.b.c''"
    by (simp_all add: sample_request_def sample_route sample_bearer)
  have "snd (submitOperation ?a (uuid_String 7) ?r sample_principal sample_store) = st"
    using sample_decoded [of "sample_call 11 20000" "''Bearer a.b.c''"] cmd svc
    by (simp add: submitOperation_def) (simp add: sample_request_def idempotencyKeyHeader_def)
  then have "snd (ServeHTTP ?a ?r sample_store) = st"
    using sample_correlation [of "sample_call 11 20000" "''Bearer a.b.c''"] sample_authenticated [of "sample_call 11 20000"] req
    by (simp add: ServeHTTP_def restated_def dispatch_def authenticated_def case_prod_beta)
  moreover have "st \<noteq> sample_store"
  proof -
    have "records st (sample_command Bet 500 []) 11"
      using submitted_records [OF _ _ run(1)] sample_store_ok admit run(2) by (auto simp: alone_def resultOf_def)
    then have "\<not> unseen (sample_command Bet 500 []) st"
      by (auto simp: records_def unseen_def)
    then show ?thesis using sample_admissible by (auto simp: admissible_def)
  qed
  ultimately show ?thesis using that by (metis prod.collapse)
qed

theorem changes_on_the_issuers_word_witness:
  "\<exists>answer st p. ServeHTTP (sample_api (sample_call 11 20000)) (sample_request ''Bearer a.b.c'') sample_store = (answer, st)
     \<and> st \<noteq> sample_store \<and> vouched sample_libraries sample_serves sample_issuer_settings 60 ''a.b.c'' p"
proof -
  obtain answer st where run: "ServeHTTP (sample_api (sample_call 11 20000)) (sample_request ''Bearer a.b.c'') sample_store = (answer, st)"
    "st \<noteq> sample_store" by (rule sample_first_request)
  have "ap_authenticate (sample_api (sample_call 11 20000))
      = (\<lambda>cred. fst (Authenticate sample_libraries sample_issuer_settings sample_env 60 cred (newKeySet sample_issuer_settings)))"
    "ap_services (sample_api (sample_call 11 20000)) = store_services sample_parse \<lparr>ws_observer = None\<rparr> (sample_call 11 20000)"
    by (simp_all add: sample_api_def)
  from changes_on_the_issuers_word [OF sample_authenticator rtranclp.rtrancl_refl sample_waits this run]
  obtain cred p where "BearerToken (rq_Header (sample_request ''Bearer a.b.c'') ''Authorization'') = Inr cred"
    "vouched sample_libraries sample_serves sample_issuer_settings 60 cred p" by blast
  moreover have "cred = ''a.b.c''" using calculation(1) sample_bearer by (simp add: sample_request_def)
  ultimately show ?thesis using run by blast
qed

end
