(* ===== verification/Go_Duration.thy ===== *)
theory Go_Duration
  imports Backoff Go_Text
begin

text \<open>
  More of Go's standard library, for values that arrive as text: \<^verbatim>\<open>time.ParseDuration\<close>,
  \<^verbatim>\<open>strconv.ParseBool\<close>, \<^verbatim>\<open>strings.Split\<close> at one byte and the levels of \<^verbatim>\<open>log/slog\<close>.
\<close>

section \<open>Durations\<close>

text \<open>\<^verbatim>\<open>leadingInt\<close>: the digits a string starts with, unless they pass \<open>2 ^ 63\<close>.\<close>

fun leadingInt :: "nat \<Rightarrow> string \<Rightarrow> (nat \<times> string) option" where
  "leadingInt x [] = Some (x, [])"
| "leadingInt x (c # cs) =
     (if \<not> is_digit c then Some (x, c # cs)
      else if x > 2 ^ 63 div 10 then None
      else if 10 * x + digit_val c > 2 ^ 63 then None
      else leadingInt (10 * x + digit_val c) cs)"

text \<open>\<^verbatim>\<open>leadingFraction\<close>: digits past what 63 bits hold are dropped.\<close>

fun leadingFraction :: "float_arith \<Rightarrow> nat \<Rightarrow> float64 \<Rightarrow> bool \<Rightarrow> string \<Rightarrow> nat \<times> float64 \<times> string" where
  "leadingFraction fa x scale overflow [] = (x, scale, [])"
| "leadingFraction fa x scale overflow (c # cs) =
     (if \<not> is_digit c then (x, scale, c # cs)
      else if overflow then leadingFraction fa x scale True cs
      else if x > (2 ^ 63 - 1) div 10 then leadingFraction fa x scale True cs
      else if 10 * x + digit_val c > 2 ^ 63 then leadingFraction fa x scale True cs
      else leadingFraction fa (10 * x + digit_val c) (float_mul fa scale (Num 10)) False cs)"

definition unitMap :: "(string \<times> nat) list" where
  "unitMap =
     [(''ns'', 1), (''us'', 10 ^ 3), ([char_of (0xC2 :: nat), char_of (0xB5 :: nat), CHR ''s''], 10 ^ 3),
      ([char_of (0xCE :: nat), char_of (0xBC :: nat), CHR ''s''], 10 ^ 3), (''ms'', 10 ^ 6), (''s'', 10 ^ 9),
      (''m'', 60 * 10 ^ 9), (''h'', 3600 * 10 ^ 9)]"

fun float_div :: "float_arith \<Rightarrow> nat \<Rightarrow> float64 \<Rightarrow> float64" where
  "float_div fa n (Num b) = (if b = 0 then PosInf else fa_round fa (of_nat n / b))"
| "float_div fa n NaN = NaN"
| "float_div fa n x = Num 0"

definition uint64_of :: "float_arith \<Rightarrow> float64 \<Rightarrow> nat" where
  "uint64_of fa x =
     (case x of
        Num a \<Rightarrow> if 0 \<le> \<lfloor>a\<rfloor> \<and> \<lfloor>a\<rfloor> < 2 ^ 64 then nat \<lfloor>a\<rfloor> else nat (fa_wild fa x mod 2 ^ 64)
      | _ \<Rightarrow> nat (fa_wild fa x mod 2 ^ 64))"

text \<open>A number with its fraction, the scale of the fraction and what follows it; then its unit.\<close>

definition duration_number :: "float_arith \<Rightarrow> string \<Rightarrow> (nat \<times> nat \<times> float64 \<times> string) option" where
  "duration_number fa s =
     (case leadingInt 0 s of
        None \<Rightarrow> None
      | Some (v, s1) \<Rightarrow>
          (let pre = length s1 \<noteq> length s
           in case s1 of
                c # cs \<Rightarrow>
                  if c = CHR ''.'' then
                    (let (f, scale, s2) = leadingFraction fa 0 (Num 1) False cs
                     in if \<not> pre \<and> length s2 = length cs then None else Some (v, f, scale, s2))
                  else if \<not> pre then None else Some (v, 0, Num 1, s1)
              | [] \<Rightarrow> if \<not> pre then None else Some (v, 0, Num 1, s1)))"

abbreviation numeral_byte :: "char \<Rightarrow> bool" where
  "numeral_byte c \<equiv> c = CHR ''.'' \<or> is_digit c"

lemma leadingInt_length: "leadingInt x s = Some (v, t) \<Longrightarrow> length t \<le> length s"
  by (induction x s rule: leadingInt.induct) (auto split: if_splits)

lemma leadingFraction_length: "leadingFraction fa x scale overflow s = (f, sc, t) \<Longrightarrow> length t \<le> length s"
  by (induction fa x scale overflow s rule: leadingFraction.induct) (auto split: if_splits)

lemma duration_number_length: "duration_number fa s = Some (v, f, scale, t) \<Longrightarrow> length t \<le> length s"
  by (auto simp: duration_number_def Let_def split: option.splits list.splits if_splits prod.splits
      dest!: leadingInt_length leadingFraction_length)

text \<open>One quantity after the other, in the 64 bits the sum is kept in.\<close>

function duration_loop :: "float_arith \<Rightarrow> nat \<Rightarrow> string \<Rightarrow> nat option" where
  "duration_loop fa d s =
     (if s = [] then Some d
      else if \<not> numeral_byte (hd s) then None
      else (case duration_number fa s of
              None \<Rightarrow> None
            | Some (v, f, scale, t) \<Rightarrow>
                (case map_of unitMap (takeWhile (\<lambda>c. \<not> numeral_byte c) t) of
                   None \<Rightarrow> None
                 | Some unit \<Rightarrow>
                     if v > 2 ^ 63 div unit then None
                     else (let v = v * unit;
                               v = (if 0 < f
                                    then (v + uint64_of fa (float_mul fa (fa_round fa (of_nat f)) (float_div fa unit scale))) mod 2 ^ 64
                                    else v);
                               sum = (d + v) mod 2 ^ 64
                           in if 0 < f \<and> v > 2 ^ 63 then None
                              else if sum > 2 ^ 63 then None
                              else duration_loop fa sum (dropWhile (\<lambda>c. \<not> numeral_byte c) t)))))"
  by pat_completeness auto
termination
proof (relation "measure (\<lambda>(fa, d, s). length s)")
  fix fa :: float_arith and d s v f scale t and unit v1 v2 sum :: nat and p q r
  assume s: "s \<noteq> []" "duration_number fa s = Some p" "(v, q) = p" "(f, r) = q" "(scale, t) = r"
    "map_of unitMap (takeWhile (\<lambda>c. \<not> numeral_byte c) t) = Some unit"
  have "takeWhile (\<lambda>c. \<not> numeral_byte c) t \<noteq> []" using s(6) by (auto simp: unitMap_def split: if_splits)
  then have "length (dropWhile (\<lambda>c. \<not> numeral_byte c) t) < length t"
    by (metis (no_types, lifting) length_append length_greater_0_conv less_add_same_cancel2 takeWhile_dropWhile_id)
  with duration_number_length [of fa s v f scale t] s
  show "((fa, sum, dropWhile (\<lambda>c. \<not> numeral_byte c) t), fa, d, s) \<in> measure (\<lambda>(fa, d, s). length s)" by auto
qed simp

declare duration_loop.simps [simp del]

definition ParseDuration :: "float_arith \<Rightarrow> string \<Rightarrow> duration option" where
  "ParseDuration fa s =
     (let neg = (s \<noteq> [] \<and> hd s = CHR ''-'');
          t = (if s \<noteq> [] \<and> (hd s = CHR ''-'' \<or> hd s = CHR ''+'') then tl s else s)
      in if t = ''0'' then Some 0
         else if t = [] then None
         else (case duration_loop fa 0 t of
                 None \<Rightarrow> None
               | Some d \<Rightarrow>
                   if neg then Some (- int d)
                   else if d > 2 ^ 63 - 1 then None
                   else Some (int d)))"

section \<open>Switches, lists and levels\<close>

definition ParseBool :: "string \<Rightarrow> bool option" where
  "ParseBool s =
     (if s \<in> {''1'', ''t'', ''T'', ''true'', ''TRUE'', ''True''} then Some True
      else if s \<in> {''0'', ''f'', ''F'', ''false'', ''FALSE'', ''False''} then Some False
      else None)"

fun strings_Split :: "char \<Rightarrow> string \<Rightarrow> string list" where
  "strings_Split ch [] = [[]]"
| "strings_Split ch (c # cs) =
     (if c = ch then [] # strings_Split ch cs
      else (case strings_Split ch cs of [] \<Rightarrow> [[c]] | p # ps \<Rightarrow> (c # p) # ps))"

text \<open>
  \<^verbatim>\<open>slog.Level.UnmarshalText\<close>: a name in any case, and an offset. The one letter outside ASCII whose
  capital is a letter of these names is the dotless i.
\<close>

fun upper_text :: "string \<Rightarrow> string" where
  "upper_text [] = []"
| "upper_text (c # cs) =
     (if c = char_of (0xC4 :: nat) \<and> cs \<noteq> [] \<and> hd cs = char_of (0xB1 :: nat) then CHR ''I'' # upper_text (tl cs)
      else (if CHR ''a'' \<le> c \<and> c \<le> CHR ''z'' then char_of ((of_char c :: nat) - 32) else c) # upper_text cs)"

definition level_names :: "(string \<times> int) list" where
  "level_names = [(''DEBUG'', - 4), (''INFO'', 0), (''WARN'', 4), (''ERROR'', 8)]"

definition Level_UnmarshalText :: "string \<Rightarrow> int option" where
  "Level_UnmarshalText s =
     (let name = takeWhile (\<lambda>c. c \<noteq> CHR ''+'' \<and> c \<noteq> CHR ''-'') s;
          rest = dropWhile (\<lambda>c. c \<noteq> CHR ''+'' \<and> c \<noteq> CHR ''-'') s
      in case (if rest = [] then Inr 0 else ParseInt rest) of
           Inl err \<Rightarrow> None
         | Inr offset \<Rightarrow>
             map_option (\<lambda>l. sint (word_of_int (l + sint offset) :: int64)) (map_of level_names (upper_text name)))"

end
