(* ===== verification/Config.thy ===== *)
theory Config
  imports Go_Duration Oidc "HOL-Library.State_Monad"
begin

text \<open>
  The configuration (\<^verbatim>\<open>src/internal/config\<close>): the values the service is tuned with, the reader that
  turns the environment into them, and \<^verbatim>\<open>Load\<close>.

  The reader threads the problems it has met, so it is a state monad over their list; a problem is
  the variable it is about, the sentence that describes it is left out. The environment is a lookup;
  \<^verbatim>\<open>strconv.ParseFloat\<close>, which rounds as the platform does, and \<^verbatim>\<open>url.Parse\<close> are parameters beside it.
\<close>

section \<open>Values\<close>

datatype log_format = LogJSON | LogText

record telemetry_config =
  tlm_ServiceName :: string
  tlm_LogLevel :: int
  tlm_LogFormat :: log_format
  tlm_ShutdownTimeout :: duration
  tlm_Disabled :: bool
  tlm_OTLPEndpoint :: string
  tlm_ExportTimeout :: duration
  tlm_MetricInterval :: duration

record lifecycle_config =
  lcy_StartTimeout :: duration
  lcy_StopTimeout :: duration

record postgres_config =
  pgs_DSN :: string
  pgs_MaxConns :: "32 word"
  pgs_ConnectTimeout :: duration
  pgs_LockTimeout :: duration
  pgs_StatementTimeout :: duration
  pgs_HealthTimeout :: duration

record sqs_config =
  sqc_Region :: string
  sqc_Endpoint :: string
  sqc_InboundQueue :: string
  sqc_OutboundQueue :: string
  sqc_ClientTimeout :: duration
  sqc_ResolveTimeout :: duration
  sqc_MaxMessages :: int
  sqc_WaitTime :: duration
  sqc_VisibilityTimeout :: duration
  sqc_HealthTimeout :: duration
  sqc_MaxReceiveCount :: int

record identity_config =
  oid_Issuer :: string
  oid_Audience :: string
  oid_JWKSURI :: string
  oid_Algorithms :: "string list"
  oid_ClockSkew :: duration
  oid_FetchTimeout :: duration
  oid_MinRefreshInterval :: duration
  oid_HTTPTimeout :: duration

record http_config =
  htc_Addr :: string
  htc_ReadTimeout :: duration
  htc_ReadHeaderTimeout :: duration
  htc_WriteTimeout :: duration
  htc_IdleTimeout :: duration
  htc_ShutdownTimeout :: duration
  htc_MaxHeaderBytes :: int
  htc_MaxBodyBytes :: int
  htc_ReadinessTimeout :: duration

text \<open>A schedule has the fields of a backoff policy.\<close>

record wagering_config =
  wag_Backoff :: backoff_policy
  wag_ReferenceAttempts :: int
  wag_ReferenceTTL :: duration

record consumer_settings =
  con_Enabled :: bool
  con_Name :: string
  con_Concurrency :: int
  con_Backoff :: backoff_policy
  con_DrainTimeout :: duration

record publisher_settings =
  pub_Enabled :: bool
  pub_Name :: string
  pub_Batch :: int
  pub_Hold :: duration
  pub_Interval :: duration
  pub_Backoff :: backoff_policy
  pub_DrainTimeout :: duration

record reference_settings =
  ref_Enabled :: bool
  ref_Name :: string
  ref_Interval :: duration
  ref_Backoff :: backoff_policy
  ref_DrainTimeout :: duration

record config =
  cfg_Telemetry :: telemetry_config
  cfg_Lifecycle :: lifecycle_config
  cfg_Postgres :: postgres_config
  cfg_SQS :: sqs_config
  cfg_OIDC :: identity_config
  cfg_HTTP :: http_config
  cfg_Wagering :: wagering_config
  cfg_Consumer :: consumer_settings
  cfg_Publisher :: publisher_settings
  cfg_Reference :: reference_settings

definition Exporting :: "telemetry_config \<Rightarrow> bool" where
  "Exporting t \<longleftrightarrow> \<not> tlm_Disabled t \<and> tlm_OTLPEndpoint t \<noteq> []"

section \<open>The reader\<close>

record config_source =
  cs_lookup :: "string \<Rightarrow> string option"
  cs_arith :: float_arith
  cs_ParseFloat :: "string \<Rightarrow> float64 option"
  cs_url_Parse :: "string \<Rightarrow> url option"

type_synonym 'a reader = "(string list, 'a) state"

definition cfg_refuse :: "string \<Rightarrow> unit reader" where
  "cfg_refuse key = State_Monad.update (\<lambda>errs. errs @ [key])"

definition cfg_value :: "config_source \<Rightarrow> string \<Rightarrow> string option" where
  "cfg_value src key =
     (case cs_lookup src key of
        None \<Rightarrow> None
      | Some raw \<Rightarrow> if strings_TrimSpace raw = [] then None else Some (strings_TrimSpace raw))"

definition read_text :: "config_source \<Rightarrow> string \<Rightarrow> string \<Rightarrow> string reader" where
  "read_text src key fallback =
     State_Monad.return (case cfg_value src key of Some v \<Rightarrow> v | None \<Rightarrow> fallback)"

definition read_optional :: "config_source \<Rightarrow> string \<Rightarrow> string reader" where
  "read_optional src key = State_Monad.return (case cfg_value src key of Some v \<Rightarrow> v | None \<Rightarrow> [])"

definition read_required :: "config_source \<Rightarrow> string \<Rightarrow> string reader" where
  "read_required src key =
     (case cfg_value src key of
        Some v \<Rightarrow> State_Monad.return v
      | None \<Rightarrow> do { cfg_refuse key; State_Monad.return [] })"

definition read_secret :: "config_source \<Rightarrow> string \<Rightarrow> string reader" where
  "read_secret src key = read_required src key"

definition read_duration :: "config_source \<Rightarrow> string \<Rightarrow> duration \<Rightarrow> duration reader" where
  "read_duration src key fallback =
     (case cfg_value src key of
        None \<Rightarrow> State_Monad.return fallback
      | Some raw \<Rightarrow>
          (case ParseDuration (cs_arith src) raw of
             None \<Rightarrow> do { cfg_refuse key; State_Monad.return fallback }
           | Some parsed \<Rightarrow>
               if parsed \<le> 0 then do { cfg_refuse key; State_Monad.return fallback }
               else State_Monad.return parsed))"

definition maxCount :: int where "maxCount = 2 ^ 31 - 1"
definition maxSize :: int where "maxSize = 2 ^ 31 - 1"

definition read_bounded :: "config_source \<Rightarrow> string \<Rightarrow> int \<Rightarrow> int option reader" where
  "read_bounded src key most =
     (case cfg_value src key of
        None \<Rightarrow> State_Monad.return None
      | Some raw \<Rightarrow>
          (case ParseInt raw of
             Inl err \<Rightarrow> do { cfg_refuse key; State_Monad.return None }
           | Inr parsed \<Rightarrow>
               if sint parsed < 1 \<or> sint parsed > most then do { cfg_refuse key; State_Monad.return None }
               else State_Monad.return (Some (sint parsed))))"

definition read_number :: "config_source \<Rightarrow> string \<Rightarrow> int option reader" where
  "read_number src key = read_bounded src key maxCount"

definition read_count :: "config_source \<Rightarrow> string \<Rightarrow> int \<Rightarrow> int reader" where
  "read_count src key fallback =
     do { parsed \<leftarrow> read_number src key; State_Monad.return (case parsed of None \<Rightarrow> fallback | Some n \<Rightarrow> n) }"

definition read_size :: "config_source \<Rightarrow> string \<Rightarrow> int \<Rightarrow> int reader" where
  "read_size src key fallback =
     do { parsed \<leftarrow> read_bounded src key maxSize; State_Monad.return (case parsed of None \<Rightarrow> fallback | Some n \<Rightarrow> n) }"

definition read_conns :: "config_source \<Rightarrow> string \<Rightarrow> 32 word \<Rightarrow> 32 word reader" where
  "read_conns src key fallback =
     do { parsed \<leftarrow> read_number src key;
          State_Monad.return (case parsed of None \<Rightarrow> fallback | Some n \<Rightarrow> word_of_int n) }"

definition read_factor :: "config_source \<Rightarrow> string \<Rightarrow> float64 \<Rightarrow> float64 reader" where
  "read_factor src key fallback =
     (case cfg_value src key of
        None \<Rightarrow> State_Monad.return fallback
      | Some raw \<Rightarrow>
          (case cs_ParseFloat src raw of
             None \<Rightarrow> do { cfg_refuse key; State_Monad.return fallback }
           | Some parsed \<Rightarrow>
               if parsed \<in> {NaN, PosInf, NegInf} then do { cfg_refuse key; State_Monad.return fallback }
               else State_Monad.return parsed))"

definition read_flag :: "config_source \<Rightarrow> string \<Rightarrow> bool \<Rightarrow> bool reader" where
  "read_flag src key fallback =
     (case cfg_value src key of
        None \<Rightarrow> State_Monad.return fallback
      | Some raw \<Rightarrow>
          (case ParseBool raw of
             None \<Rightarrow> do { cfg_refuse key; State_Monad.return fallback }
           | Some parsed \<Rightarrow> State_Monad.return parsed))"

definition read_list :: "config_source \<Rightarrow> string \<Rightarrow> string list reader" where
  "read_list src key =
     (case cfg_value src key of
        None \<Rightarrow> State_Monad.return []
      | Some raw \<Rightarrow>
          (let items = map strings_TrimSpace (strings_Split (CHR '','') raw)
           in if [] \<in> set items then do { cfg_refuse key; State_Monad.return [] } else State_Monad.return items))"

definition read_endpoint :: "config_source \<Rightarrow> string \<Rightarrow> string reader" where
  "read_endpoint src key =
     (case cfg_value src key of
        None \<Rightarrow> State_Monad.return []
      | Some raw \<Rightarrow>
          (case cs_url_Parse src raw of
             None \<Rightarrow> do { cfg_refuse key; State_Monad.return [] }
           | Some parsed \<Rightarrow>
               if u_Scheme parsed \<noteq> ''http'' \<and> u_Scheme parsed \<noteq> ''https''
               then do { cfg_refuse key; State_Monad.return [] }
               else if u_Host parsed = [] then do { cfg_refuse key; State_Monad.return [] }
               else State_Monad.return raw))"

definition read_level :: "config_source \<Rightarrow> string \<Rightarrow> int \<Rightarrow> int reader" where
  "read_level src key fallback =
     (case cfg_value src key of
        None \<Rightarrow> State_Monad.return fallback
      | Some raw \<Rightarrow>
          (case Level_UnmarshalText raw of
             None \<Rightarrow> do { cfg_refuse key; State_Monad.return fallback }
           | Some parsed \<Rightarrow> State_Monad.return parsed))"

definition read_format :: "config_source \<Rightarrow> string \<Rightarrow> log_format \<Rightarrow> log_format reader" where
  "read_format src key fallback =
     (case cfg_value src key of
        None \<Rightarrow> State_Monad.return fallback
      | Some raw \<Rightarrow>
          if map lower_byte raw = ''json'' then State_Monad.return LogJSON
          else if map lower_byte raw = ''text'' then State_Monad.return LogText
          else do { cfg_refuse key; State_Monad.return fallback })"

definition read_backoff :: "config_source \<Rightarrow> string \<Rightarrow> backoff_policy \<Rightarrow> backoff_policy reader" where
  "read_backoff src prefix fallback =
     do { initial \<leftarrow> read_duration src (prefix @ ''_BACKOFF_INITIAL'') (bo_Initial fallback);
          fac \<leftarrow> read_factor src (prefix @ ''_BACKOFF_FACTOR'') (bo_Factor fallback);
          most \<leftarrow> read_duration src (prefix @ ''_BACKOFF_MAX'') (bo_Max fallback);
          State_Monad.return \<lparr>bo_Initial = initial, bo_Factor = fac, bo_Max = most\<rparr> }"

section \<open>Defaults\<close>

abbreviation Minute :: duration where "Minute \<equiv> 60 * Second"

definition cfg_defaultWageringBackoff :: backoff_policy where
  "cfg_defaultWageringBackoff = \<lparr>bo_Initial = Second, bo_Factor = Num 2, bo_Max = Minute\<rparr>"
definition cfg_defaultConsumerBackoff :: backoff_policy where
  "cfg_defaultConsumerBackoff = \<lparr>bo_Initial = 2 * Second, bo_Factor = Num 2, bo_Max = Minute\<rparr>"
definition cfg_defaultPublisherBackoff :: backoff_policy where
  "cfg_defaultPublisherBackoff = \<lparr>bo_Initial = 2 * Second, bo_Factor = Num 2, bo_Max = Minute\<rparr>"
definition cfg_defaultReferenceBackoff :: backoff_policy where
  "cfg_defaultReferenceBackoff = \<lparr>bo_Initial = 2 * Second, bo_Factor = Num 2, bo_Max = Minute\<rparr>"

definition sqsDeduplicationWindow :: duration where "sqsDeduplicationWindow = 5 * Minute"

section \<open>The parts of a configuration\<close>

definition read_telemetry :: "config_source \<Rightarrow> telemetry_config reader" where
  "read_telemetry src =
     do { v1 \<leftarrow> read_text src ''SERVICE_NAME'' ''wagering'';
          v2 \<leftarrow> read_level src ''LOG_LEVEL'' 0;
          v3 \<leftarrow> read_format src ''LOG_FORMAT'' LogJSON;
          v4 \<leftarrow> read_duration src ''TELEMETRY_SHUTDOWN_TIMEOUT'' (5 * Second);
          v5 \<leftarrow> read_flag src ''OTEL_SDK_DISABLED'' False;
          v6 \<leftarrow> read_endpoint src ''OTEL_EXPORTER_OTLP_ENDPOINT'';
          v7 \<leftarrow> read_duration src ''TELEMETRY_EXPORT_TIMEOUT'' (10 * Second);
          v8 \<leftarrow> read_duration src ''TELEMETRY_METRIC_INTERVAL'' (30 * Second);
          State_Monad.return
            \<lparr>tlm_ServiceName = v1, tlm_LogLevel = v2, tlm_LogFormat = v3, tlm_ShutdownTimeout = v4,
             tlm_Disabled = v5, tlm_OTLPEndpoint = v6, tlm_ExportTimeout = v7, tlm_MetricInterval = v8\<rparr> }"

definition read_lifecycle :: "config_source \<Rightarrow> lifecycle_config reader" where
  "read_lifecycle src =
     do { v1 \<leftarrow> read_duration src ''START_TIMEOUT'' (30 * Second);
          v2 \<leftarrow> read_duration src ''STOP_TIMEOUT'' (60 * Second);
          State_Monad.return
            \<lparr>lcy_StartTimeout = v1, lcy_StopTimeout = v2\<rparr> }"

definition read_postgres :: "config_source \<Rightarrow> postgres_config reader" where
  "read_postgres src =
     do { v1 \<leftarrow> read_secret src ''DATABASE_URL'';
          v2 \<leftarrow> read_conns src ''DATABASE_MAX_CONNS'' 10;
          v3 \<leftarrow> read_duration src ''DATABASE_CONNECT_TIMEOUT'' (5 * Second);
          v4 \<leftarrow> read_duration src ''DATABASE_LOCK_TIMEOUT'' (3 * Second);
          v5 \<leftarrow> read_duration src ''DATABASE_STATEMENT_TIMEOUT'' (15 * Second);
          v6 \<leftarrow> read_duration src ''DATABASE_HEALTH_TIMEOUT'' (2 * Second);
          State_Monad.return
            \<lparr>pgs_DSN = v1, pgs_MaxConns = v2, pgs_ConnectTimeout = v3, pgs_LockTimeout = v4,
             pgs_StatementTimeout = v5, pgs_HealthTimeout = v6\<rparr> }"

definition read_sqs :: "config_source \<Rightarrow> sqs_config reader" where
  "read_sqs src =
     do { v1 \<leftarrow> read_required src ''AWS_REGION'';
          v2 \<leftarrow> read_optional src ''AWS_ENDPOINT_URL'';
          v3 \<leftarrow> read_text src ''SQS_INBOUND_QUEUE'' ''wager-transactions.fifo'';
          v4 \<leftarrow> read_text src ''SQS_OUTBOUND_QUEUE'' ''wallet-events.fifo'';
          v5 \<leftarrow> read_duration src ''SQS_CLIENT_TIMEOUT'' (10 * Second);
          v6 \<leftarrow> read_duration src ''SQS_RESOLVE_TIMEOUT'' (5 * Second);
          v7 \<leftarrow> read_count src ''SQS_MAX_MESSAGES'' 10;
          v8 \<leftarrow> read_duration src ''SQS_WAIT_TIME'' (20 * Second);
          v9 \<leftarrow> read_duration src ''SQS_VISIBILITY_TIMEOUT'' (30 * Second);
          v10 \<leftarrow> read_duration src ''SQS_HEALTH_TIMEOUT'' (2 * Second);
          v11 \<leftarrow> read_count src ''SQS_MAX_RECEIVE_COUNT'' 5;
          State_Monad.return
            \<lparr>sqc_Region = v1, sqc_Endpoint = v2, sqc_InboundQueue = v3, sqc_OutboundQueue = v4,
             sqc_ClientTimeout = v5, sqc_ResolveTimeout = v6, sqc_MaxMessages = v7, sqc_WaitTime = v8,
             sqc_VisibilityTimeout = v9, sqc_HealthTimeout = v10, sqc_MaxReceiveCount = v11\<rparr> }"

definition read_oidc :: "config_source \<Rightarrow> identity_config reader" where
  "read_oidc src =
     do { v1 \<leftarrow> read_required src ''OIDC_ISSUER'';
          v2 \<leftarrow> read_required src ''OIDC_AUDIENCE'';
          v3 \<leftarrow> read_optional src ''OIDC_JWKS_URI'';
          v4 \<leftarrow> read_list src ''OIDC_ALGORITHMS'';
          v5 \<leftarrow> read_duration src ''OIDC_CLOCK_SKEW'' (30 * Second);
          v6 \<leftarrow> read_duration src ''OIDC_FETCH_TIMEOUT'' (5 * Second);
          v7 \<leftarrow> read_duration src ''OIDC_MIN_REFRESH_INTERVAL'' Minute;
          v8 \<leftarrow> read_duration src ''OIDC_HTTP_TIMEOUT'' (5 * Second);
          State_Monad.return
            \<lparr>oid_Issuer = v1, oid_Audience = v2, oid_JWKSURI = v3, oid_Algorithms = v4, oid_ClockSkew = v5,
             oid_FetchTimeout = v6, oid_MinRefreshInterval = v7, oid_HTTPTimeout = v8\<rparr> }"

definition read_http :: "config_source \<Rightarrow> http_config reader" where
  "read_http src =
     do { v1 \<leftarrow> read_text src ''HTTP_ADDR'' '':8080'';
          v2 \<leftarrow> read_duration src ''HTTP_READ_TIMEOUT'' (10 * Second);
          v3 \<leftarrow> read_duration src ''HTTP_READ_HEADER_TIMEOUT'' (5 * Second);
          v4 \<leftarrow> read_duration src ''HTTP_WRITE_TIMEOUT'' (15 * Second);
          v5 \<leftarrow> read_duration src ''HTTP_IDLE_TIMEOUT'' (60 * Second);
          v6 \<leftarrow> read_duration src ''HTTP_SHUTDOWN_TIMEOUT'' (20 * Second);
          v7 \<leftarrow> read_count src ''HTTP_MAX_HEADER_BYTES'' (2 ^ 20);
          v8 \<leftarrow> read_size src ''HTTP_MAX_BODY_BYTES'' (2 ^ 20);
          v9 \<leftarrow> read_duration src ''HTTP_READINESS_TIMEOUT'' (3 * Second);
          State_Monad.return
            \<lparr>htc_Addr = v1, htc_ReadTimeout = v2, htc_ReadHeaderTimeout = v3, htc_WriteTimeout = v4,
             htc_IdleTimeout = v5, htc_ShutdownTimeout = v6, htc_MaxHeaderBytes = v7, htc_MaxBodyBytes = v8,
             htc_ReadinessTimeout = v9\<rparr> }"

definition read_wagering :: "config_source \<Rightarrow> wagering_config reader" where
  "read_wagering src =
     do { v1 \<leftarrow> read_backoff src ''WAGERING'' cfg_defaultWageringBackoff;
          v2 \<leftarrow> read_count src ''REFERENCE_MAX_ATTEMPTS'' 20;
          v3 \<leftarrow> read_duration src ''REFERENCE_TTL'' (5 * Minute);
          State_Monad.return
            \<lparr>wag_Backoff = v1, wag_ReferenceAttempts = v2, wag_ReferenceTTL = v3\<rparr> }"

definition read_consumer :: "config_source \<Rightarrow> consumer_settings reader" where
  "read_consumer src =
     do { v1 \<leftarrow> read_flag src ''CONSUMER_ENABLED'' True;
          v2 \<leftarrow> read_text src ''CONSUMER_NAME'' ''wager-consumer'';
          v3 \<leftarrow> read_count src ''CONSUMER_CONCURRENCY'' 4;
          v4 \<leftarrow> read_backoff src ''CONSUMER'' cfg_defaultConsumerBackoff;
          v5 \<leftarrow> read_duration src ''CONSUMER_DRAIN_TIMEOUT'' (20 * Second);
          State_Monad.return
            \<lparr>con_Enabled = v1, con_Name = v2, con_Concurrency = v3, con_Backoff = v4, con_DrainTimeout = v5\<rparr> }"

definition read_publisherName :: "config_source \<Rightarrow> string reader" where
  "read_publisherName src =
     (case cfg_value src ''PUBLISHER_NAME'' of
        Some name \<Rightarrow> State_Monad.return name
      | None \<Rightarrow>
          (case cfg_value src ''HOSTNAME'' of
             Some host \<Rightarrow> State_Monad.return host
           | None \<Rightarrow> do { cfg_refuse ''PUBLISHER_NAME''; State_Monad.return [] }))"

definition insideDeduplicationWindow :: "string \<Rightarrow> duration \<Rightarrow> unit reader" where
  "insideDeduplicationWindow key wait =
     (if wait \<ge> sqsDeduplicationWindow then cfg_refuse key else State_Monad.return ())"

definition read_publisher :: "config_source \<Rightarrow> publisher_settings reader" where
  "read_publisher src =
     do { v1 \<leftarrow> read_flag src ''PUBLISHER_ENABLED'' True;
          v2 \<leftarrow> read_publisherName src;
          v3 \<leftarrow> read_count src ''PUBLISHER_BATCH'' 10;
          v4 \<leftarrow> read_duration src ''PUBLISHER_HOLD'' (30 * Second);
          v5 \<leftarrow> read_duration src ''PUBLISHER_INTERVAL'' Second;
          v6 \<leftarrow> read_backoff src ''PUBLISHER'' cfg_defaultPublisherBackoff;
          v7 \<leftarrow> read_duration src ''PUBLISHER_DRAIN_TIMEOUT'' (20 * Second);
          insideDeduplicationWindow ''PUBLISHER_HOLD'' v4;
          insideDeduplicationWindow ''PUBLISHER_BACKOFF_MAX'' (bo_Max v6);
          State_Monad.return
            \<lparr>pub_Enabled = v1, pub_Name = v2, pub_Batch = v3, pub_Hold = v4, pub_Interval = v5,
             pub_Backoff = v6, pub_DrainTimeout = v7\<rparr> }"

definition read_reference :: "config_source \<Rightarrow> reference_settings reader" where
  "read_reference src =
     do { v1 \<leftarrow> read_flag src ''REFERENCE_WORKER_ENABLED'' True;
          v2 \<leftarrow> read_text src ''REFERENCE_WORKER_NAME'' ''reference-worker'';
          v3 \<leftarrow> read_duration src ''REFERENCE_WORKER_INTERVAL'' Second;
          v4 \<leftarrow> read_backoff src ''REFERENCE_WORKER'' cfg_defaultReferenceBackoff;
          v5 \<leftarrow> read_duration src ''REFERENCE_WORKER_DRAIN_TIMEOUT'' (20 * Second);
          State_Monad.return
            \<lparr>ref_Enabled = v1, ref_Name = v2, ref_Interval = v3, ref_Backoff = v4, ref_DrainTimeout = v5\<rparr> }"

definition read_config :: "config_source \<Rightarrow> config reader" where
  "read_config src =
     do { c1 \<leftarrow> read_telemetry src;
          c2 \<leftarrow> read_lifecycle src;
          c3 \<leftarrow> read_postgres src;
          c4 \<leftarrow> read_sqs src;
          c5 \<leftarrow> read_oidc src;
          c6 \<leftarrow> read_http src;
          c7 \<leftarrow> read_wagering src;
          c8 \<leftarrow> read_consumer src;
          c9 \<leftarrow> read_publisher src;
          c10 \<leftarrow> read_reference src;
          State_Monad.return
            \<lparr>cfg_Telemetry = c1,
             cfg_Lifecycle = c2,
             cfg_Postgres = c3,
             cfg_SQS = c4,
             cfg_OIDC = c5,
             cfg_HTTP = c6,
             cfg_Wagering = c7,
             cfg_Consumer = c8,
             cfg_Publisher = c9,
             cfg_Reference = c10\<rparr> }"

text \<open>No source is a problem of its own.\<close>

definition Load :: "config_source option \<Rightarrow> string list + config" where
  "Load source =
     (case source of
        None \<Rightarrow> Inl [[]]
      | Some src \<Rightarrow>
          (case run_state (read_config src) [] of
             (cfg, errs) \<Rightarrow> if errs \<noteq> [] then Inl errs else Inr cfg))"

end
