(* ===== verification/Loading.thy ===== *)
theory Loading
  imports Config
begin

text \<open>
  What loading a configuration promises: a statement of the rules of every variable, that \<^verbatim>\<open>Load\<close>
  reports exactly the variables that break theirs, and the bounds of what it accepts.
\<close>

section \<open>The rules of the variables\<close>

datatype rule =
    RequiredVar | DurationVar | CountVar | SizeVar | FlagVar | FactorVar | ListVar | EndpointVar | LevelVar | FormatVar
  | PublisherNameVar | WindowVar duration

definition given :: "config_source \<Rightarrow> string \<Rightarrow> (string \<Rightarrow> bool) \<Rightarrow> bool" where
  "given src key broken = (case cfg_value src key of None \<Rightarrow> False | Some raw \<Rightarrow> broken raw)"

definition duration_or :: "config_source \<Rightarrow> string \<Rightarrow> duration \<Rightarrow> duration" where
  "duration_or src key fallback =
     (case Option.bind (cfg_value src key) (ParseDuration (cs_arith src)) of
        None \<Rightarrow> fallback
      | Some d \<Rightarrow> if 0 < d then d else fallback)"

fun breaks :: "config_source \<Rightarrow> rule \<Rightarrow> string \<Rightarrow> bool" where
  "breaks src RequiredVar key = (cfg_value src key = None)"
| "breaks src DurationVar key = given src key (\<lambda>raw. \<nexists>d. ParseDuration (cs_arith src) raw = Some d \<and> 0 < d)"
| "breaks src CountVar key = given src key (\<lambda>raw. \<nexists>n. ParseInt raw = Inr n \<and> sint n \<in> {1..maxCount})"
| "breaks src SizeVar key = given src key (\<lambda>raw. \<nexists>n. ParseInt raw = Inr n \<and> sint n \<in> {1..maxSize})"
| "breaks src FlagVar key = given src key (\<lambda>raw. ParseBool raw = None)"
| "breaks src FactorVar key = given src key (\<lambda>raw. \<nexists>q. cs_ParseFloat src raw = Some (Num q))"
| "breaks src ListVar key = given src key (\<lambda>raw. [] \<in> set (map strings_TrimSpace (strings_Split (CHR '','') raw)))"
| "breaks src EndpointVar key =
     given src key (\<lambda>raw. \<nexists>u. cs_url_Parse src raw = Some u \<and> u_Scheme u \<in> {''http'', ''https''} \<and> u_Host u \<noteq> [])"
| "breaks src LevelVar key = given src key (\<lambda>raw. Level_UnmarshalText raw = None)"
| "breaks src FormatVar key = given src key (\<lambda>raw. map lower_byte raw \<notin> {''json'', ''text''})"
| "breaks src PublisherNameVar key = (cfg_value src key = None \<and> cfg_value src ''HOSTNAME'' = None)"
| "breaks src (WindowVar fallback) key = (sqsDeduplicationWindow \<le> duration_or src key fallback)"

definition problems :: "config_source \<Rightarrow> (string \<times> rule) list \<Rightarrow> string list" where
  "problems src vars = map fst (filter (\<lambda>(key, rule). breaks src rule key) vars)"

lemma problems_simps [simp]:
  "problems src [] = []"
  "problems src ((key, rule) # vars) = (if breaks src rule key then key # problems src vars else problems src vars)"
  "problems src (vars @ vars') = problems src vars @ problems src vars'"
  by (simp_all add: problems_def)

section \<open>What a read leaves behind\<close>

lemma run_reader [simp]:
  "run_state (State_Monad.return a) errs = (a, errs)"
  "run_state (State_Monad.bind m f) errs = run_state (f (fst (run_state m errs))) (snd (run_state m errs))"
  "run_state (cfg_refuse key) errs = ((), errs @ [key])"
  by (simp_all add: State_Monad.return_def State_Monad.bind_def cfg_refuse_def State_Monad.update_def State_Monad.get_def
      State_Monad.set_def case_prod_beta)

lemma run_text [simp]:
  "snd (run_state (read_text src key d) errs) = errs" "snd (run_state (read_optional src key) errs) = errs"
  by (simp_all add: read_text_def read_optional_def)

lemma run_problems [simp]:
  "snd (run_state (read_required src key) errs) = errs @ problems src [(key, RequiredVar)]"
  "snd (run_state (read_secret src key) errs) = errs @ problems src [(key, RequiredVar)]"
  "snd (run_state (read_duration src key d) errs) = errs @ problems src [(key, DurationVar)]"
  "snd (run_state (read_count src key n) errs) = errs @ problems src [(key, CountVar)]"
  "snd (run_state (read_conns src key c) errs) = errs @ problems src [(key, CountVar)]"
  "snd (run_state (read_size src key n) errs) = errs @ problems src [(key, SizeVar)]"
  "snd (run_state (read_flag src key b) errs) = errs @ problems src [(key, FlagVar)]"
  "snd (run_state (read_factor src key x) errs) = errs @ problems src [(key, FactorVar)]"
  "snd (run_state (read_list src key) errs) = errs @ problems src [(key, ListVar)]"
  "snd (run_state (read_endpoint src key) errs) = errs @ problems src [(key, EndpointVar)]"
  "snd (run_state (read_level src key n) errs) = errs @ problems src [(key, LevelVar)]"
  "snd (run_state (read_format src key f) errs) = errs @ problems src [(key, FormatVar)]"
  "snd (run_state (read_publisherName src) errs) = errs @ problems src [(''PUBLISHER_NAME'', PublisherNameVar)]"
proof -
  note unfold = read_required_def read_secret_def read_duration_def read_count_def read_conns_def read_size_def read_flag_def
    read_factor_def read_list_def read_endpoint_def read_level_def read_format_def read_publisherName_def read_number_def
    read_bounded_def given_def Let_def
  show "snd (run_state (read_required src key) errs) = errs @ problems src [(key, RequiredVar)]"
    "snd (run_state (read_secret src key) errs) = errs @ problems src [(key, RequiredVar)]"
    "snd (run_state (read_duration src key d) errs) = errs @ problems src [(key, DurationVar)]"
    "snd (run_state (read_flag src key b) errs) = errs @ problems src [(key, FlagVar)]"
    "snd (run_state (read_list src key) errs) = errs @ problems src [(key, ListVar)]"
    "snd (run_state (read_endpoint src key) errs) = errs @ problems src [(key, EndpointVar)]"
    "snd (run_state (read_level src key n) errs) = errs @ problems src [(key, LevelVar)]"
    "snd (run_state (read_format src key f) errs) = errs @ problems src [(key, FormatVar)]"
    "snd (run_state (read_publisherName src) errs) = errs @ problems src [(''PUBLISHER_NAME'', PublisherNameVar)]"
    by (auto simp: unfold split: option.splits)
  have "x \<in> {NaN, PosInf, NegInf} \<longleftrightarrow> (\<nexists>q. x = Num q)" for x by (cases x) auto
  then show "snd (run_state (read_factor src key x) errs) = errs @ problems src [(key, FactorVar)]"
    by (auto simp: unfold split: option.splits)
  show "snd (run_state (read_count src key n) errs) = errs @ problems src [(key, CountVar)]"
    "snd (run_state (read_conns src key c) errs) = errs @ problems src [(key, CountVar)]"
    "snd (run_state (read_size src key n) errs) = errs @ problems src [(key, SizeVar)]"
    by (auto simp: unfold split: option.splits sum.splits)
qed

lemma fst_duration [simp]: "fst (run_state (read_duration src key d) errs) = duration_or src key d"
  by (auto simp: read_duration_def duration_or_def split: option.splits)

lemma run_backoff [simp]:
  "snd (run_state (read_backoff src prefix b) errs) = errs @ problems src
     [(prefix @ ''_BACKOFF_INITIAL'', DurationVar), (prefix @ ''_BACKOFF_FACTOR'', FactorVar), (prefix @ ''_BACKOFF_MAX'', DurationVar)]"
  "bo_Max (fst (run_state (read_backoff src prefix b) errs)) = duration_or src (prefix @ ''_BACKOFF_MAX'') (bo_Max b)"
  "bo_Initial (fst (run_state (read_backoff src prefix b) errs)) = duration_or src (prefix @ ''_BACKOFF_INITIAL'') (bo_Initial b)"
  by (simp_all add: read_backoff_def case_prod_beta)

lemma run_window [simp]:
  "snd (run_state (insideDeduplicationWindow key (duration_or src key d)) errs) = errs @ problems src [(key, WindowVar d)]"
  by (simp add: insideDeduplicationWindow_def)

section \<open>All variables\<close>

definition variables :: "(string \<times> rule) list" where
  "variables =
     [(''LOG_LEVEL'', LevelVar), (''LOG_FORMAT'', FormatVar), (''TELEMETRY_SHUTDOWN_TIMEOUT'', DurationVar),
        (''OTEL_SDK_DISABLED'', FlagVar), (''OTEL_EXPORTER_OTLP_ENDPOINT'', EndpointVar),
        (''TELEMETRY_EXPORT_TIMEOUT'', DurationVar), (''TELEMETRY_METRIC_INTERVAL'', DurationVar)]
     @ [(''START_TIMEOUT'', DurationVar), (''STOP_TIMEOUT'', DurationVar)]
     @ [(''DATABASE_URL'', RequiredVar), (''DATABASE_MAX_CONNS'', CountVar),
        (''DATABASE_CONNECT_TIMEOUT'', DurationVar), (''DATABASE_LOCK_TIMEOUT'', DurationVar),
        (''DATABASE_STATEMENT_TIMEOUT'', DurationVar), (''DATABASE_HEALTH_TIMEOUT'', DurationVar)]
     @ [(''AWS_REGION'', RequiredVar), (''SQS_CLIENT_TIMEOUT'', DurationVar),
        (''SQS_RESOLVE_TIMEOUT'', DurationVar), (''SQS_MAX_MESSAGES'', CountVar),
        (''SQS_WAIT_TIME'', DurationVar), (''SQS_VISIBILITY_TIMEOUT'', DurationVar),
        (''SQS_HEALTH_TIMEOUT'', DurationVar), (''SQS_MAX_RECEIVE_COUNT'', CountVar)]
     @ [(''OIDC_ISSUER'', RequiredVar), (''OIDC_AUDIENCE'', RequiredVar), (''OIDC_ALGORITHMS'', ListVar),
        (''OIDC_CLOCK_SKEW'', DurationVar), (''OIDC_FETCH_TIMEOUT'', DurationVar),
        (''OIDC_MIN_REFRESH_INTERVAL'', DurationVar), (''OIDC_HTTP_TIMEOUT'', DurationVar)]
     @ [(''HTTP_READ_TIMEOUT'', DurationVar), (''HTTP_READ_HEADER_TIMEOUT'', DurationVar),
        (''HTTP_WRITE_TIMEOUT'', DurationVar), (''HTTP_IDLE_TIMEOUT'', DurationVar),
        (''HTTP_SHUTDOWN_TIMEOUT'', DurationVar), (''HTTP_MAX_HEADER_BYTES'', CountVar),
        (''HTTP_MAX_BODY_BYTES'', SizeVar), (''HTTP_READINESS_TIMEOUT'', DurationVar)]
     @ [(''WAGERING'' @ ''_BACKOFF_INITIAL'', DurationVar), (''WAGERING'' @ ''_BACKOFF_FACTOR'', FactorVar),
        (''WAGERING'' @ ''_BACKOFF_MAX'', DurationVar), (''REFERENCE_MAX_ATTEMPTS'', CountVar),
        (''REFERENCE_TTL'', DurationVar)]
     @ [(''CONSUMER_ENABLED'', FlagVar), (''CONSUMER_CONCURRENCY'', CountVar),
        (''CONSUMER'' @ ''_BACKOFF_INITIAL'', DurationVar), (''CONSUMER'' @ ''_BACKOFF_FACTOR'', FactorVar),
        (''CONSUMER'' @ ''_BACKOFF_MAX'', DurationVar), (''CONSUMER_DRAIN_TIMEOUT'', DurationVar)]
     @ [(''PUBLISHER_ENABLED'', FlagVar), (''PUBLISHER_NAME'', PublisherNameVar),
        (''PUBLISHER_BATCH'', CountVar), (''PUBLISHER_HOLD'', DurationVar),
        (''PUBLISHER_INTERVAL'', DurationVar), (''PUBLISHER'' @ ''_BACKOFF_INITIAL'', DurationVar),
        (''PUBLISHER'' @ ''_BACKOFF_FACTOR'', FactorVar), (''PUBLISHER'' @ ''_BACKOFF_MAX'', DurationVar),
        (''PUBLISHER_DRAIN_TIMEOUT'', DurationVar), (''PUBLISHER_HOLD'', WindowVar (30 * Second)),
        (''PUBLISHER_BACKOFF_MAX'', WindowVar Minute)]
     @ [(''REFERENCE_WORKER_ENABLED'', FlagVar), (''REFERENCE_WORKER_INTERVAL'', DurationVar),
        (''REFERENCE_WORKER'' @ ''_BACKOFF_INITIAL'', DurationVar),
        (''REFERENCE_WORKER'' @ ''_BACKOFF_FACTOR'', FactorVar),
        (''REFERENCE_WORKER'' @ ''_BACKOFF_MAX'', DurationVar),
        (''REFERENCE_WORKER_DRAIN_TIMEOUT'', DurationVar)]"

declare problems_simps [simp del]

lemma problems_joined: "problems src vars @ problems src vars' = problems src (vars @ vars')"
  by (simp add: problems_simps)

lemma run_telemetry [simp]:
  "snd (run_state (read_telemetry src) errs) = errs @ problems src
     [(''LOG_LEVEL'', LevelVar), (''LOG_FORMAT'', FormatVar), (''TELEMETRY_SHUTDOWN_TIMEOUT'', DurationVar),
      (''OTEL_SDK_DISABLED'', FlagVar), (''OTEL_EXPORTER_OTLP_ENDPOINT'', EndpointVar),
      (''TELEMETRY_EXPORT_TIMEOUT'', DurationVar), (''TELEMETRY_METRIC_INTERVAL'', DurationVar)]"
  by (simp add: read_telemetry_def case_prod_beta problems_joined cfg_defaultPublisherBackoff_def)

lemma run_lifecycle [simp]:
  "snd (run_state (read_lifecycle src) errs) = errs @ problems src
     [(''START_TIMEOUT'', DurationVar), (''STOP_TIMEOUT'', DurationVar)]"
  by (simp add: read_lifecycle_def case_prod_beta problems_joined cfg_defaultPublisherBackoff_def)

lemma run_postgres [simp]:
  "snd (run_state (read_postgres src) errs) = errs @ problems src
     [(''DATABASE_URL'', RequiredVar), (''DATABASE_MAX_CONNS'', CountVar),
      (''DATABASE_CONNECT_TIMEOUT'', DurationVar), (''DATABASE_LOCK_TIMEOUT'', DurationVar),
      (''DATABASE_STATEMENT_TIMEOUT'', DurationVar), (''DATABASE_HEALTH_TIMEOUT'', DurationVar)]"
  by (simp add: read_postgres_def case_prod_beta problems_joined cfg_defaultPublisherBackoff_def)

lemma run_sqs [simp]:
  "snd (run_state (read_sqs src) errs) = errs @ problems src
     [(''AWS_REGION'', RequiredVar), (''SQS_CLIENT_TIMEOUT'', DurationVar),
      (''SQS_RESOLVE_TIMEOUT'', DurationVar), (''SQS_MAX_MESSAGES'', CountVar),
      (''SQS_WAIT_TIME'', DurationVar), (''SQS_VISIBILITY_TIMEOUT'', DurationVar),
      (''SQS_HEALTH_TIMEOUT'', DurationVar), (''SQS_MAX_RECEIVE_COUNT'', CountVar)]"
  by (simp add: read_sqs_def case_prod_beta problems_joined cfg_defaultPublisherBackoff_def)

lemma run_oidc [simp]:
  "snd (run_state (read_oidc src) errs) = errs @ problems src
     [(''OIDC_ISSUER'', RequiredVar), (''OIDC_AUDIENCE'', RequiredVar), (''OIDC_ALGORITHMS'', ListVar),
      (''OIDC_CLOCK_SKEW'', DurationVar), (''OIDC_FETCH_TIMEOUT'', DurationVar),
      (''OIDC_MIN_REFRESH_INTERVAL'', DurationVar), (''OIDC_HTTP_TIMEOUT'', DurationVar)]"
  by (simp add: read_oidc_def case_prod_beta problems_joined cfg_defaultPublisherBackoff_def)

lemma run_http [simp]:
  "snd (run_state (read_http src) errs) = errs @ problems src
     [(''HTTP_READ_TIMEOUT'', DurationVar), (''HTTP_READ_HEADER_TIMEOUT'', DurationVar),
      (''HTTP_WRITE_TIMEOUT'', DurationVar), (''HTTP_IDLE_TIMEOUT'', DurationVar),
      (''HTTP_SHUTDOWN_TIMEOUT'', DurationVar), (''HTTP_MAX_HEADER_BYTES'', CountVar),
      (''HTTP_MAX_BODY_BYTES'', SizeVar), (''HTTP_READINESS_TIMEOUT'', DurationVar)]"
  by (simp add: read_http_def case_prod_beta problems_joined cfg_defaultPublisherBackoff_def)

lemma run_wagering [simp]:
  "snd (run_state (read_wagering src) errs) = errs @ problems src
     [(''WAGERING'' @ ''_BACKOFF_INITIAL'', DurationVar), (''WAGERING'' @ ''_BACKOFF_FACTOR'', FactorVar),
      (''WAGERING'' @ ''_BACKOFF_MAX'', DurationVar), (''REFERENCE_MAX_ATTEMPTS'', CountVar),
      (''REFERENCE_TTL'', DurationVar)]"
  by (simp add: read_wagering_def case_prod_beta problems_joined cfg_defaultPublisherBackoff_def)

lemma run_consumer [simp]:
  "snd (run_state (read_consumer src) errs) = errs @ problems src
     [(''CONSUMER_ENABLED'', FlagVar), (''CONSUMER_CONCURRENCY'', CountVar),
      (''CONSUMER'' @ ''_BACKOFF_INITIAL'', DurationVar), (''CONSUMER'' @ ''_BACKOFF_FACTOR'', FactorVar),
      (''CONSUMER'' @ ''_BACKOFF_MAX'', DurationVar), (''CONSUMER_DRAIN_TIMEOUT'', DurationVar)]"
  by (simp add: read_consumer_def case_prod_beta problems_joined cfg_defaultPublisherBackoff_def)

lemma run_publisher [simp]:
  "snd (run_state (read_publisher src) errs) = errs @ problems src
     [(''PUBLISHER_ENABLED'', FlagVar), (''PUBLISHER_NAME'', PublisherNameVar),
      (''PUBLISHER_BATCH'', CountVar), (''PUBLISHER_HOLD'', DurationVar),
      (''PUBLISHER_INTERVAL'', DurationVar), (''PUBLISHER'' @ ''_BACKOFF_INITIAL'', DurationVar),
      (''PUBLISHER'' @ ''_BACKOFF_FACTOR'', FactorVar), (''PUBLISHER'' @ ''_BACKOFF_MAX'', DurationVar),
      (''PUBLISHER_DRAIN_TIMEOUT'', DurationVar), (''PUBLISHER_HOLD'', WindowVar (30 * Second)),
      (''PUBLISHER_BACKOFF_MAX'', WindowVar Minute)]"
  by (simp add: read_publisher_def case_prod_beta problems_joined cfg_defaultPublisherBackoff_def)

lemma run_reference [simp]:
  "snd (run_state (read_reference src) errs) = errs @ problems src
     [(''REFERENCE_WORKER_ENABLED'', FlagVar), (''REFERENCE_WORKER_INTERVAL'', DurationVar),
      (''REFERENCE_WORKER'' @ ''_BACKOFF_INITIAL'', DurationVar),
      (''REFERENCE_WORKER'' @ ''_BACKOFF_FACTOR'', FactorVar),
      (''REFERENCE_WORKER'' @ ''_BACKOFF_MAX'', DurationVar),
      (''REFERENCE_WORKER_DRAIN_TIMEOUT'', DurationVar)]"
  by (simp add: read_reference_def case_prod_beta problems_joined cfg_defaultPublisherBackoff_def)

lemma run_config: "snd (run_state (read_config src) errs) = errs @ problems src variables"
  by (simp add: read_config_def case_prod_beta problems_joined variables_def)

text \<open>
  C10: loading reports every variable that breaks its rule, and nothing else. Given a source, \<^verbatim>\<open>Load\<close>
  accepts exactly when every variable keeps its rule; otherwise it names each one that breaks its
  rule, in the order they are read, whatever the others hold.
\<close>

theorem load_refuses_exactly:
  "Load (Some src) = (case problems src variables of [] \<Rightarrow> Inr (fst (run_state (read_config src) [])) | errs \<Rightarrow> Inl errs)"
  using run_config [of src "[]"]
  by (cases "problems src variables") (simp_all add: Load_def case_prod_beta)

section \<open>What is loaded\<close>

lemma duration_or_pos [simp]: "0 < d \<Longrightarrow> 0 < duration_or src key d"
  by (simp add: duration_or_def split: option.split)

lemma Second_pos [simp]: "0 < Second"
  by (simp add: Second_def)

lemma bounded_range:
  assumes "fst (run_state (read_bounded src key most) errs) = Some n"
  shows "1 \<le> n \<and> n \<le> most"
  using assms by (auto simp: read_bounded_def split: option.splits sum.splits if_splits)

lemma fst_count [simp]:
  "n \<in> {1..maxCount} \<Longrightarrow> fst (run_state (read_count src key n) errs) \<in> {1..maxCount}"
  "n \<in> {1..maxSize} \<Longrightarrow> fst (run_state (read_size src key n) errs) \<in> {1..maxSize}"
  by (auto simp: read_count_def read_size_def read_number_def case_prod_beta split: option.split dest: bounded_range)

text \<open>The connection limit is narrowed to 32 bits, and loses nothing.\<close>

lemma fst_conns:
  assumes "sint c \<in> {1..maxCount}"
  shows "sint (fst (run_state (read_conns src key c) errs)) \<in> {1..maxCount}"
    "fst (run_state (read_number src key) errs) = Some n \<Longrightarrow> sint (fst (run_state (read_conns src key c) errs)) = n"
proof -
  have exact: "sint (word_of_int n :: 32 word) = n" if "fst (run_state (read_number src key) errs) = Some n" for n
    unfolding sint_sbintrunc' by (rule signed_take_bit_int_eq_self)
      (use bounded_range [of src key maxCount errs n] that in \<open>simp_all add: read_number_def maxCount_def\<close>)
  show "sint (fst (run_state (read_conns src key c) errs)) \<in> {1..maxCount}"
    using assms exact bounded_range [of src key maxCount errs]
    by (cases "fst (run_state (read_number src key) errs)")
      (auto simp: read_conns_def case_prod_beta read_number_def [symmetric])
  show "fst (run_state (read_number src key) errs) = Some n \<Longrightarrow> sint (fst (run_state (read_conns src key c) errs)) = n"
    using exact by (simp add: read_conns_def case_prod_beta)
qed

lemma fst_factor: "\<exists>q. b = Num q \<Longrightarrow> \<exists>q. fst (run_state (read_factor src key b) errs) = Num q"
proof -
  have "x \<in> {NaN, PosInf, NegInf} \<longleftrightarrow> (\<nexists>q. x = Num q)" for x by (cases x) auto
  then show "\<exists>q. b = Num q \<Longrightarrow> \<exists>q. fst (run_state (read_factor src key b) errs) = Num q"
    by (auto simp: read_factor_def split: option.splits)
qed

lemma backoff_finite [simp]: "bo_Factor b = Num q \<Longrightarrow> \<exists>q. bo_Factor (fst (run_state (read_backoff src prefix b) errs)) = Num q"
  using fst_factor [of "bo_Factor b" src "prefix @ ''_BACKOFF_FACTOR''"] by (simp add: read_backoff_def case_prod_beta)

lemma required_given: "problems src [(key, RequiredVar)] = [] \<Longrightarrow> fst (run_state (read_required src key) errs) \<noteq> []"
  by (auto simp: problems_simps read_required_def cfg_value_def Let_def split: option.splits if_splits)

lemma publisherName_given:
  "problems src [(''PUBLISHER_NAME'', PublisherNameVar)] = [] \<Longrightarrow> fst (run_state (read_publisherName src) errs) \<noteq> []"
  by (auto simp: problems_simps read_publisherName_def cfg_value_def Let_def split: option.splits if_splits)

definition durations :: "config \<Rightarrow> duration list" where
  "durations cfg =
     [tlm_ShutdownTimeout (cfg_Telemetry cfg), tlm_ExportTimeout (cfg_Telemetry cfg), tlm_MetricInterval (cfg_Telemetry cfg),
      lcy_StartTimeout (cfg_Lifecycle cfg), lcy_StopTimeout (cfg_Lifecycle cfg),
      pgs_ConnectTimeout (cfg_Postgres cfg), pgs_LockTimeout (cfg_Postgres cfg), pgs_StatementTimeout (cfg_Postgres cfg),
      pgs_HealthTimeout (cfg_Postgres cfg),
      sqc_ClientTimeout (cfg_SQS cfg), sqc_ResolveTimeout (cfg_SQS cfg), sqc_WaitTime (cfg_SQS cfg),
      sqc_VisibilityTimeout (cfg_SQS cfg), sqc_HealthTimeout (cfg_SQS cfg),
      oid_ClockSkew (cfg_OIDC cfg), oid_FetchTimeout (cfg_OIDC cfg), oid_MinRefreshInterval (cfg_OIDC cfg), oid_HTTPTimeout (cfg_OIDC cfg),
      htc_ReadTimeout (cfg_HTTP cfg), htc_ReadHeaderTimeout (cfg_HTTP cfg), htc_WriteTimeout (cfg_HTTP cfg),
      htc_IdleTimeout (cfg_HTTP cfg), htc_ShutdownTimeout (cfg_HTTP cfg), htc_ReadinessTimeout (cfg_HTTP cfg),
      wag_ReferenceTTL (cfg_Wagering cfg), con_DrainTimeout (cfg_Consumer cfg),
      pub_Hold (cfg_Publisher cfg), pub_Interval (cfg_Publisher cfg), pub_DrainTimeout (cfg_Publisher cfg),
      ref_Interval (cfg_Reference cfg), ref_DrainTimeout (cfg_Reference cfg)]"

definition counts :: "config \<Rightarrow> int list" where
  "counts cfg =
     [sqc_MaxMessages (cfg_SQS cfg), sqc_MaxReceiveCount (cfg_SQS cfg), htc_MaxHeaderBytes (cfg_HTTP cfg),
      htc_MaxBodyBytes (cfg_HTTP cfg), wag_ReferenceAttempts (cfg_Wagering cfg), con_Concurrency (cfg_Consumer cfg),
      pub_Batch (cfg_Publisher cfg), sint (pgs_MaxConns (cfg_Postgres cfg))]"

definition schedules :: "config \<Rightarrow> backoff_policy list" where
  "schedules cfg =
     [wag_Backoff (cfg_Wagering cfg), con_Backoff (cfg_Consumer cfg), pub_Backoff (cfg_Publisher cfg), ref_Backoff (cfg_Reference cfg)]"

lemma LoadD:
  assumes "Load (Some src) = Inr cfg"
  shows "problems src variables = []" "cfg = fst (run_state (read_config src) [])"
proof -
  have "snd (run_state (read_config src) []) = []" "cfg = fst (run_state (read_config src) [])"
    using assms by (simp_all add: Load_def case_prod_beta split: if_splits)
  with run_config [of src "[]"] show "problems src variables = []" "cfg = fst (run_state (read_config src) [])" by simp_all
qed

lemma problems_member: "problems src vars = [] \<Longrightarrow> (key, rule) \<in> set vars \<Longrightarrow> problems src [(key, rule)] = []"
  by (auto simp: problems_def filter_empty_conv)

lemmas default_schedules =
  cfg_defaultWageringBackoff_def cfg_defaultConsumerBackoff_def cfg_defaultPublisherBackoff_def cfg_defaultReferenceBackoff_def

lemmas section_readers =
  read_telemetry_def read_lifecycle_def read_postgres_def read_sqs_def read_oidc_def read_http_def read_wagering_def
  read_consumer_def read_publisher_def read_reference_def

lemma count_ranges:
  assumes "1 \<le> n" "n \<le> 2147483647"
  shows "1 \<le> fst (run_state (read_count src key n) errs)" "fst (run_state (read_count src key n) errs) \<le> 2147483647"
    "1 \<le> fst (run_state (read_size src key n) errs)" "fst (run_state (read_size src key n) errs) \<le> 2147483647"
  using assms fst_count [of n src key errs] by (simp_all add: maxCount_def maxSize_def)

text \<open>The values of a part do not depend on the problems met before it.\<close>

lemmas reads_value = run_reader fst_duration

lemma config_parts:
  "\<exists>errs. cfg_Telemetry (fst (run_state (read_config src) [])) = fst (run_state (read_telemetry src) errs)"
  "\<exists>errs. cfg_Lifecycle (fst (run_state (read_config src) [])) = fst (run_state (read_lifecycle src) errs)"
  "\<exists>errs. cfg_Postgres (fst (run_state (read_config src) [])) = fst (run_state (read_postgres src) errs)"
  "\<exists>errs. cfg_SQS (fst (run_state (read_config src) [])) = fst (run_state (read_sqs src) errs)"
  "\<exists>errs. cfg_OIDC (fst (run_state (read_config src) [])) = fst (run_state (read_oidc src) errs)"
  "\<exists>errs. cfg_HTTP (fst (run_state (read_config src) [])) = fst (run_state (read_http src) errs)"
  "\<exists>errs. cfg_Wagering (fst (run_state (read_config src) [])) = fst (run_state (read_wagering src) errs)"
  "\<exists>errs. cfg_Consumer (fst (run_state (read_config src) [])) = fst (run_state (read_consumer src) errs)"
  "\<exists>errs. cfg_Publisher (fst (run_state (read_config src) [])) = fst (run_state (read_publisher src) errs)"
  "\<exists>errs. cfg_Reference (fst (run_state (read_config src) [])) = fst (run_state (read_reference src) errs)"
  by (simp_all only: read_config_def reads_value fst_conv config.simps) blast+

lemma telemetry_bounds:
  "0 < tlm_ShutdownTimeout (fst (run_state (read_telemetry src) errs))"
  "0 < tlm_ExportTimeout (fst (run_state (read_telemetry src) errs))"
  "0 < tlm_MetricInterval (fst (run_state (read_telemetry src) errs))"
  unfolding read_telemetry_def reads_value fst_conv telemetry_config.simps
  by simp_all

lemma lifecycle_bounds:
  "0 < lcy_StartTimeout (fst (run_state (read_lifecycle src) errs))"
  "0 < lcy_StopTimeout (fst (run_state (read_lifecycle src) errs))"
  unfolding read_lifecycle_def reads_value fst_conv lifecycle_config.simps
  by simp_all

lemma postgres_bounds:
  "0 < pgs_ConnectTimeout (fst (run_state (read_postgres src) errs))"
  "0 < pgs_LockTimeout (fst (run_state (read_postgres src) errs))"
  "0 < pgs_StatementTimeout (fst (run_state (read_postgres src) errs))"
  "0 < pgs_HealthTimeout (fst (run_state (read_postgres src) errs))"
  unfolding read_postgres_def reads_value fst_conv postgres_config.simps
  by simp_all

lemma sqs_bounds:
  "0 < sqc_ClientTimeout (fst (run_state (read_sqs src) errs))"
  "0 < sqc_ResolveTimeout (fst (run_state (read_sqs src) errs))"
  "0 < sqc_WaitTime (fst (run_state (read_sqs src) errs))"
  "0 < sqc_VisibilityTimeout (fst (run_state (read_sqs src) errs))"
  "0 < sqc_HealthTimeout (fst (run_state (read_sqs src) errs))"
  "sqc_MaxMessages (fst (run_state (read_sqs src) errs)) \<in> {1..2147483647}"
  "sqc_MaxReceiveCount (fst (run_state (read_sqs src) errs)) \<in> {1..2147483647}"
  unfolding read_sqs_def reads_value fst_conv sqs_config.simps
  by (simp_all add: count_ranges del: run_problems run_text)

lemma oidc_bounds:
  "0 < oid_ClockSkew (fst (run_state (read_oidc src) errs))"
  "0 < oid_FetchTimeout (fst (run_state (read_oidc src) errs))"
  "0 < oid_MinRefreshInterval (fst (run_state (read_oidc src) errs))"
  "0 < oid_HTTPTimeout (fst (run_state (read_oidc src) errs))"
  unfolding read_oidc_def reads_value fst_conv identity_config.simps
  by simp_all

lemma http_bounds:
  "0 < htc_ReadTimeout (fst (run_state (read_http src) errs))"
  "0 < htc_ReadHeaderTimeout (fst (run_state (read_http src) errs))"
  "0 < htc_WriteTimeout (fst (run_state (read_http src) errs))"
  "0 < htc_IdleTimeout (fst (run_state (read_http src) errs))"
  "0 < htc_ShutdownTimeout (fst (run_state (read_http src) errs))"
  "0 < htc_ReadinessTimeout (fst (run_state (read_http src) errs))"
  "htc_MaxHeaderBytes (fst (run_state (read_http src) errs)) \<in> {1..2147483647}"
  "htc_MaxBodyBytes (fst (run_state (read_http src) errs)) \<in> {1..2147483647}"
  unfolding read_http_def reads_value fst_conv http_config.simps
  by (simp_all add: count_ranges del: run_problems run_text)

lemma wagering_bounds:
  "0 < wag_ReferenceTTL (fst (run_state (read_wagering src) errs))"
  "wag_ReferenceAttempts (fst (run_state (read_wagering src) errs)) \<in> {1..2147483647}"
  unfolding read_wagering_def reads_value fst_conv wagering_config.simps
  by (simp_all add: count_ranges del: run_problems run_text)

lemma consumer_bounds:
  "0 < con_DrainTimeout (fst (run_state (read_consumer src) errs))"
  "con_Concurrency (fst (run_state (read_consumer src) errs)) \<in> {1..2147483647}"
  unfolding read_consumer_def reads_value fst_conv consumer_settings.simps
  by (simp_all add: count_ranges del: run_problems run_text)

lemma publisher_bounds:
  "0 < pub_Hold (fst (run_state (read_publisher src) errs))"
  "0 < pub_Interval (fst (run_state (read_publisher src) errs))"
  "0 < pub_DrainTimeout (fst (run_state (read_publisher src) errs))"
  "pub_Batch (fst (run_state (read_publisher src) errs)) \<in> {1..2147483647}"
  unfolding read_publisher_def reads_value fst_conv publisher_settings.simps
  by (simp_all add: count_ranges del: run_problems run_text)

lemma reference_bounds:
  "0 < ref_Interval (fst (run_state (read_reference src) errs))"
  "0 < ref_DrainTimeout (fst (run_state (read_reference src) errs))"
  unfolding read_reference_def reads_value fst_conv reference_settings.simps
  by simp_all

lemma conns_bounds: "sint (pgs_MaxConns (fst (run_state (read_postgres src) errs))) \<in> {1..2147483647}"
  unfolding read_postgres_def reads_value fst_conv postgres_config.simps 
  using fst_conns(1) [of 10 src "''DATABASE_MAX_CONNS''"] by (simp add: maxCount_def del: run_problems run_text)

lemma schedule_bounds:
  "0 < bo_Initial b \<Longrightarrow> 0 < bo_Max b \<Longrightarrow> bo_Factor b = Num q \<Longrightarrow>
     (let b = fst (run_state (read_backoff src prefix b) errs) in 0 < bo_Initial b \<and> 0 < bo_Max b \<and> (\<exists>q. bo_Factor b = Num q))"
  using backoff_finite [of b q] by (simp add: Let_def)

lemma schedules_bounds:
  "\<exists>errs. wag_Backoff (fst (run_state (read_wagering src) errs')) = fst (run_state (read_backoff src ''WAGERING'' cfg_defaultWageringBackoff) errs)"
  "\<exists>errs. con_Backoff (fst (run_state (read_consumer src) errs')) = fst (run_state (read_backoff src ''CONSUMER'' cfg_defaultConsumerBackoff) errs)"
  "\<exists>errs. pub_Backoff (fst (run_state (read_publisher src) errs')) = fst (run_state (read_backoff src ''PUBLISHER'' cfg_defaultPublisherBackoff) errs)"
  "\<exists>errs. ref_Backoff (fst (run_state (read_reference src) errs')) = fst (run_state (read_backoff src ''REFERENCE_WORKER'' cfg_defaultReferenceBackoff) errs)"
  unfolding section_readers reads_value fst_conv wagering_config.simps consumer_settings.simps publisher_settings.simps reference_settings.simps
  by blast+

lemma loaded_durations: "list_all (\<lambda>d. 0 < d) (durations (fst (run_state (read_config src) [])))"
proof -
  let ?cfg = "fst (run_state (read_config src) [])"
  obtain e1 e2 e3 e4 e5 e6 e7 e8 e9 e10 where parts:
    "cfg_Telemetry ?cfg = fst (run_state (read_telemetry src) e1)"
    "cfg_Lifecycle ?cfg = fst (run_state (read_lifecycle src) e2)"
    "cfg_Postgres ?cfg = fst (run_state (read_postgres src) e3)"
    "cfg_SQS ?cfg = fst (run_state (read_sqs src) e4)"
    "cfg_OIDC ?cfg = fst (run_state (read_oidc src) e5)"
    "cfg_HTTP ?cfg = fst (run_state (read_http src) e6)"
    "cfg_Wagering ?cfg = fst (run_state (read_wagering src) e7)"
    "cfg_Consumer ?cfg = fst (run_state (read_consumer src) e8)"
    "cfg_Publisher ?cfg = fst (run_state (read_publisher src) e9)"
    "cfg_Reference ?cfg = fst (run_state (read_reference src) e10)"
    using config_parts [of src] by blast
  show ?thesis unfolding durations_def parts
    by (simp only: list.pred_inject telemetry_bounds lifecycle_bounds postgres_bounds sqs_bounds oidc_bounds http_bounds wagering_bounds consumer_bounds publisher_bounds reference_bounds simp_thms)
qed

lemma loaded_counts: "list_all (\<lambda>n. n \<in> {1..2147483647}) (counts (fst (run_state (read_config src) [])))"
proof -
  let ?cfg = "fst (run_state (read_config src) [])"
  obtain e3 e4 e6 e7 e8 e9 where parts:
    "cfg_Postgres ?cfg = fst (run_state (read_postgres src) e3)"
    "cfg_SQS ?cfg = fst (run_state (read_sqs src) e4)"
    "cfg_HTTP ?cfg = fst (run_state (read_http src) e6)"
    "cfg_Wagering ?cfg = fst (run_state (read_wagering src) e7)"
    "cfg_Consumer ?cfg = fst (run_state (read_consumer src) e8)"
    "cfg_Publisher ?cfg = fst (run_state (read_publisher src) e9)"
    using config_parts [of src] by blast
  show ?thesis unfolding counts_def parts
    by (simp only: list.pred_inject sqs_bounds http_bounds wagering_bounds consumer_bounds publisher_bounds conns_bounds simp_thms)
qed

lemma loaded_schedules:
  "list_all (\<lambda>b. 0 < bo_Initial b \<and> 0 < bo_Max b \<and> (\<exists>q. bo_Factor b = Num q)) (schedules (fst (run_state (read_config src) [])))"
proof -
  let ?cfg = "fst (run_state (read_config src) [])"
  obtain e7 e8 e9 e10 where
    p7: "cfg_Wagering ?cfg = fst (run_state (read_wagering src) e7)" and
    p8: "cfg_Consumer ?cfg = fst (run_state (read_consumer src) e8)" and
    p9: "cfg_Publisher ?cfg = fst (run_state (read_publisher src) e9)" and
    p10: "cfg_Reference ?cfg = fst (run_state (read_reference src) e10)"
    using config_parts [of src] by blast
  note sb = schedules_bounds
  obtain f1 f2 f3 f4 where q:
    "wag_Backoff (cfg_Wagering ?cfg) = fst (run_state (read_backoff src ''WAGERING'' cfg_defaultWageringBackoff) f1)"
    "con_Backoff (cfg_Consumer ?cfg) = fst (run_state (read_backoff src ''CONSUMER'' cfg_defaultConsumerBackoff) f2)"
    "pub_Backoff (cfg_Publisher ?cfg) = fst (run_state (read_backoff src ''PUBLISHER'' cfg_defaultPublisherBackoff) f3)"
    "ref_Backoff (cfg_Reference ?cfg) = fst (run_state (read_backoff src ''REFERENCE_WORKER'' cfg_defaultReferenceBackoff) f4)"
    using sb(1) [of src e7] sb(2) [of src e8] sb(3) [of src e9] sb(4) [of src e10] unfolding p7 p8 p9 p10 by blast
  have pos: "0 < bo_Initial b" "0 < bo_Max b" "bo_Factor b = Num 2"
    if "b \<in> {cfg_defaultWageringBackoff, cfg_defaultConsumerBackoff, cfg_defaultPublisherBackoff, cfg_defaultReferenceBackoff}" for b
    using that by (auto simp: default_schedules)
  show ?thesis unfolding schedules_def q
    using schedule_bounds [OF pos, of cfg_defaultWageringBackoff src "''WAGERING''" f1]
      schedule_bounds [OF pos, of cfg_defaultConsumerBackoff src "''CONSUMER''" f2]
      schedule_bounds [OF pos, of cfg_defaultPublisherBackoff src "''PUBLISHER''" f3]
      schedule_bounds [OF pos, of cfg_defaultReferenceBackoff src "''REFERENCE_WORKER''" f4]
    by (simp add: Let_def)
qed

text \<open>
  C26: what is loaded is within bounds, every part of it. Whatever the source, if \<^verbatim>\<open>Load\<close> accepts
  it, every duration is positive, so no timeout is the absence of one; every count is at least one
  and fits the 32 bits it may be narrowed to; every schedule has positive ends and a finite factor;
  what must be given is given; and both waits after which an event may be sent again end inside
  the window in which the queue knows a duplicate.
\<close>

theorem loaded_within_bounds:
  assumes "Load (Some src) = Inr cfg"
  shows "list_all (\<lambda>d. 0 < d) (durations cfg) \<and> list_all (\<lambda>n. n \<in> {1..2 ^ 31 - 1}) (counts cfg)
    \<and> list_all (\<lambda>b. 0 < bo_Initial b \<and> 0 < bo_Max b \<and> (\<exists>q. bo_Factor b = Num q)) (schedules cfg)
    \<and> pgs_DSN (cfg_Postgres cfg) \<noteq> [] \<and> sqc_Region (cfg_SQS cfg) \<noteq> [] \<and> oid_Issuer (cfg_OIDC cfg) \<noteq> []
    \<and> oid_Audience (cfg_OIDC cfg) \<noteq> [] \<and> pub_Name (cfg_Publisher cfg) \<noteq> []
    \<and> pub_Hold (cfg_Publisher cfg) < sqsDeduplicationWindow \<and> bo_Max (pub_Backoff (cfg_Publisher cfg)) < sqsDeduplicationWindow"
proof -
  note loaded = LoadD [OF assms]
  note keeps = problems_member [OF loaded(1)]
  have given: "pgs_DSN (fst (run_state (read_postgres src) errs)) \<noteq> []" "sqc_Region (fst (run_state (read_sqs src) errs)) \<noteq> []"
    "oid_Issuer (fst (run_state (read_oidc src) errs)) \<noteq> []" "oid_Audience (fst (run_state (read_oidc src) errs)) \<noteq> []"
    "pub_Name (fst (run_state (read_publisher src) errs)) \<noteq> []" for errs
    unfolding section_readers reads_value fst_conv postgres_config.simps sqs_config.simps identity_config.simps publisher_settings.simps
      read_secret_def
    by (rule required_given publisherName_given, rule keeps, simp add: variables_def)+
  have "problems src [(''PUBLISHER_HOLD'', WindowVar (30 * Second))] = []"
    "problems src [(''PUBLISHER_BACKOFF_MAX'', WindowVar Minute)] = []"
    by (rule keeps; simp add: variables_def)+
  then have window: "duration_or src ''PUBLISHER_HOLD'' (30 * Second) < sqsDeduplicationWindow"
    "duration_or src ''PUBLISHER_BACKOFF_MAX'' Minute < sqsDeduplicationWindow"
    by (simp_all add: problems_simps not_le split: if_splits)
  have window: "pub_Hold (fst (run_state (read_publisher src) errs)) < sqsDeduplicationWindow"
    "bo_Max (pub_Backoff (fst (run_state (read_publisher src) errs))) < sqsDeduplicationWindow" for errs
    using window unfolding section_readers reads_value fst_conv publisher_settings.simps
    by (simp_all add: cfg_defaultPublisherBackoff_def)
  with config_parts(3,4,5,9) [of src] given
  have "pgs_DSN (cfg_Postgres cfg) \<noteq> []" "sqc_Region (cfg_SQS cfg) \<noteq> []" "oid_Issuer (cfg_OIDC cfg) \<noteq> []"
    "oid_Audience (cfg_OIDC cfg) \<noteq> []" "pub_Name (cfg_Publisher cfg) \<noteq> []" "pub_Hold (cfg_Publisher cfg) < sqsDeduplicationWindow"
    "bo_Max (pub_Backoff (cfg_Publisher cfg)) < sqsDeduplicationWindow"
    unfolding loaded(2) by metis+
  with loaded_durations [of src] loaded_counts [of src] loaded_schedules [of src] show ?thesis unfolding loaded(2) by simp
qed

definition four_variables :: config_source where
  "four_variables = \<lparr>
     cs_lookup = (\<lambda>key. if key = ''DATABASE_URL'' then Some ''postgres://ledger''
                    else if key = ''AWS_REGION'' then Some ''us-east-1''
                    else if key = ''OIDC_ISSUER'' then Some ''https://issuer''
                    else if key = ''OIDC_AUDIENCE'' then Some ''wagering''
                    else if key = ''HOSTNAME'' then Some ''host-1'' else None),
     cs_arith = exact_arith, cs_ParseFloat = (\<lambda>_. None), cs_url_Parse = (\<lambda>_. None)\<rparr>"

lemma four_variables_given:
  "cfg_value four_variables key =
     (if key = ''DATABASE_URL'' then Some ''postgres://ledger'' else if key = ''AWS_REGION'' then Some ''us-east-1''
      else if key = ''OIDC_ISSUER'' then Some ''https://issuer'' else if key = ''OIDC_AUDIENCE'' then Some ''wagering''
      else if key = ''HOSTNAME'' then Some ''host-1'' else None)"
proof -
  have "strings_TrimSpace ''postgres://ledger'' = ''postgres://ledger''" "strings_TrimSpace ''us-east-1'' = ''us-east-1''"
    "strings_TrimSpace ''https://issuer'' = ''https://issuer''" "strings_TrimSpace ''wagering'' = ''wagering''"
    "strings_TrimSpace ''host-1'' = ''host-1''"
    by (rule TrimSpace_printing; simp)+
  then show ?thesis by (simp add: four_variables_def cfg_value_def del: char.inject)
qed

lemma given_none: "cfg_value src key = None \<Longrightarrow> given src key broken = False"
  by (simp add: given_def)

lemma four_variables_accepted: "problems four_variables variables = []"
  by (simp add: variables_def problems_simps given_none four_variables_given duration_or_def sqsDeduplicationWindow_def)

text \<open>A process told only the variables without a default, and the name of its host, starts with the defaults.\<close>

lemma loaded_within_bounds_witness:
  "\<exists>cfg. Load (Some four_variables) = Inr cfg \<and> pub_Hold (cfg_Publisher cfg) < sqsDeduplicationWindow"
proof -
  let ?cfg = "fst (run_state (read_config four_variables) [])"
  have "Load (Some four_variables) = Inr ?cfg"
    using run_config [of four_variables "[]"] by (simp add: Load_def case_prod_beta four_variables_accepted)
  with loaded_within_bounds [OF this] show ?thesis by blast
qed

end
