(* ===== verification/TxRun.thy ===== *)
theory TxRun
  imports Samples
begin

text \<open>
  The transaction a command runs in when the connection is not reliable
  (\<^verbatim>\<open>src/internal/adapters/postgres/tx.go\<close>): how it is opened, bounded, committed and rolled back,
  the timeouts it is given, and the one exit at which nobody knows what happened, a commit whose
  acknowledgement is lost. The pool and the readiness check beside it are here as well.
\<close>

section \<open>Construction\<close>

record tx_config =
  xc_Pool :: "unit option"
  xc_LockTimeout :: duration
  xc_StatementTimeout :: duration

record tx_manager =
  xm_lockTimeout :: duration
  xm_statementTimeout :: duration

definition NewTxManager :: "tx_config \<Rightarrow> tx_manager eres" where
  "NewTxManager cfg =
     (if xc_Pool cfg = None then Inl (Wrapped [])
      else if xc_LockTimeout cfg \<le> 0 then Inl (Wrapped [])
      else if xc_StatementTimeout cfg \<le> 0 then Inl (Wrapped [])
      else Inr \<lparr>xm_lockTimeout = xc_LockTimeout cfg, xm_statementTimeout = xc_StatementTimeout cfg\<rparr>)"

record pool_config =
  pl_DSN :: string
  pl_MaxConns :: "32 word"
  pl_ConnectTimeout :: duration

text \<open>What the driver makes of a configuration: whether it parses the DSN, opens the pool and reaches the server.\<close>

record pool_driver =
  pd_ParseConfig :: "string \<Rightarrow> bool"
  pd_Open :: "string \<Rightarrow> 32 word \<Rightarrow> duration \<Rightarrow> bool"
  pd_Ping :: bool

text \<open>The pool, or the error; and whether a pool that was opened is closed again.\<close>

definition NewPool :: "pool_driver \<Rightarrow> pool_config \<Rightarrow> unit eres \<times> bool" where
  "NewPool d cfg =
     (if pl_DSN cfg = [] then (Inl (Wrapped []), False)
      else if pl_MaxConns cfg \<le>s 0 then (Inl (Wrapped []), False)
      else if pl_ConnectTimeout cfg \<le> 0 then (Inl (Wrapped []), False)
      else if \<not> pd_ParseConfig d (pl_DSN cfg) then (Inl (Wrapped []), False)
      else if \<not> pd_Open d (pl_DSN cfg) (pl_MaxConns cfg) (pl_ConnectTimeout cfg) then (Inl (Wrapped []), False)
      else if \<not> pd_Ping d then (Inl (Wrapped []), True)
      else (Inr (), False))"

definition NewDatabaseHealth :: "unit option \<Rightarrow> duration \<Rightarrow> duration eres" where
  "NewDatabaseHealth pool timeout =
     (if pool = None then Inl (Wrapped [])
      else if timeout \<le> 0 then Inl (Wrapped [])
      else Inr timeout)"

definition Database_Ready :: "driver_error option \<Rightarrow> go_error option" where
  "Database_Ready probe = map_option pg_fail probe"

section \<open>Timeouts\<close>

definition Millisecond :: int64 where "Millisecond = 1000000"

text \<open>\<^verbatim>\<open>milliseconds\<close>, in the 64 bits of a duration.\<close>

definition milliseconds :: "int64 \<Rightarrow> int64" where
  "milliseconds d =
     (let n = sint (d + Millisecond - 1)
      in word_of_int (if 0 \<le> n then n div sint Millisecond else - ((- n) div sint Millisecond)))"

section \<open>Running\<close>

text \<open>
  What can happen to a transaction on its way: it does not open, it cannot be bounded, or its
  commit is answered with an error, having been applied or not.
\<close>

datatype commit_reply = Acknowledged | Lost_after driver_error | Lost_before driver_error

record conditions =
  cn_begin :: "driver_error option"
  cn_bound :: "driver_error option"
  cn_commit :: commit_reply

definition calm :: conditions where
  "calm = \<lparr>cn_begin = None, cn_bound = None, cn_commit = Acknowledged\<rparr>"

definition tx_run :: "conditions \<Rightarrow> (store \<Rightarrow> ('a \<times> store) eres) \<Rightarrow> store \<Rightarrow> 'a eres \<times> store" where
  "tx_run cn body st =
     (case cn_begin cn of
        Some err \<Rightarrow> (Inl (pg_fail err), st)
      | None \<Rightarrow>
          (case cn_bound cn of
             Some err \<Rightarrow> (Inl (pg_fail err), st)
           | None \<Rightarrow>
               (case body st of
                  Inl err \<Rightarrow> (Inl err, st)
                | Inr (a, st') \<Rightarrow>
                    (case commit_violation st st' of
                       Some err \<Rightarrow> (Inl (pg_fail err), st)
                     | None \<Rightarrow>
                         (case cn_commit cn of
                            Acknowledged \<Rightarrow> (Inr a, st')
                          | Lost_after err \<Rightarrow> (Inl (pg_fail err), st')
                          | Lost_before err \<Rightarrow> (Inl (pg_fail err), st))))))"

text \<open>\<^verbatim>\<open>Submit\<close> over such a transaction.\<close>

definition Submit_over ::
  "conditions \<Rightarrow> (string \<Rightarrow> uuid option) \<Rightarrow> wagering \<Rightarrow> ids \<Rightarrow> instant \<Rightarrow> instant \<Rightarrow> submit_operation \<Rightarrow> views
     \<Rightarrow> operation_result eres \<times> store" where
  "Submit_over cn uuid_Parse svc ids now_inbox now cmd v =
     (case admit uuid_Parse ids cmd of
        Inl err \<Rightarrow> (Inl err, vw_move v)
      | Inr (command, hash) \<Rightarrow>
          (case tx_run cn (submit_body svc ids now_inbox now cmd command hash v) (vw_move v) of
             (Inr r, st) \<Rightarrow> (Inr r, st)
           | (Inl err, st) \<Rightarrow>
               if errors_Is err ErrDuplicateSubmission
               then (resolveDuplicate (vw_resolve v) command hash, st)
               else if errors_Is err ErrReferenceAlreadyReversed
               then (Inl (conflict ReferenceAlreadyReversed (Some err)), st)
               else (Inl (classify err), st)))"

lemma tx_run_calm: "tx_run calm body st = WithinMovement body st"
  by (auto simp: tx_run_def calm_def WithinMovement_def split: sum.splits option.splits)

lemma Submit_over_calm: "Submit_over calm = Wagering_Submit"
  by (intro ext) (simp add: Submit_over_def Wagering_Submit_def submitOnce_def tx_run_calm split: sum.splits prod.splits)

section \<open>A lost commit\<close>

text \<open>Whatever the conditions, the store is left as it was or as the whole transaction leaves it.\<close>

lemma tx_run_atomic:
  assumes "tx_run cn body st = (r, st')"
  shows "st' = st \<or> (\<exists>a. WithinMovement body st = (Inr a, st') \<and> (r = Inr a \<or> (\<exists>err. cn_commit cn = Lost_after err \<and> r = Inl (pg_fail err))))"
  using assms by (auto simp: tx_run_def WithinMovement_def split: option.splits sum.splits commit_reply.splits)

text \<open>A connection error is no refusal of a rule.\<close>

definition connection_error :: "driver_error \<Rightarrow> bool" where
  "connection_error err \<longleftrightarrow> (case AsPgError err of None \<Rightarrow> True | Some (state, con) \<Rightarrow> con = [])"

lemma connection_error_fail:
  assumes "connection_error err"
  shows "pg_fail err = fail_unmapped err"
  using assms by (auto simp: connection_error_def pg_fail_def split: option.splits)

lemma fail_unmapped_is: "\<not> errors_Is (fail_unmapped err) s" "classify (fail_unmapped err) = fail_unmapped err"
  "class_of (fail_unmapped err) = (if transient err then Retryable else Unretryable)"
  by (simp_all add: fail_unmapped_def AsRetryable_def AsUnretryable_def isClassified_def classify_def)

lemma Submit_over_lost:
  assumes "Submit_over cn uuid_Parse svc ids now_inbox now cmd v = (Inl err, st')"
    "Wagering_Submit uuid_Parse svc ids now_inbox now cmd v = (Inr a, st)" "\<not> res_IdempotentReplay a"
    "cn_commit cn = Lost_after e \<or> cn_commit cn = Lost_before e" "cn_begin cn = None" "cn_bound cn = None" "connection_error e"
  shows "err = fail_unmapped e \<and> (st' = (case cn_commit cn of Lost_after e \<Rightarrow> st | _ \<Rightarrow> vw_move v))"
proof -
  from fresh_submission [OF assms(2,3)] obtain command hash st1 where admit: "admit uuid_Parse ids cmd = Inr (command, hash)" by blast
  have calm: "WithinMovement (submit_body svc ids now_inbox now cmd command hash v) (vw_move v) = (Inr a, st)"
    using assms(2,3) admit
    by (auto simp: Wagering_Submit_def submitOnce_def split: prod.splits sum.splits if_splits dest: resolveDuplicate_flag)
  then have "submit_body svc ids now_inbox now cmd command hash v (vw_move v) = Inr (a, st)" "commit_violation (vw_move v) st = None"
    by (auto simp: WithinMovement_def split: sum.splits option.splits)
  then have "tx_run cn (submit_body svc ids now_inbox now cmd command hash v) (vw_move v)
      = (Inl (fail_unmapped e), case cn_commit cn of Lost_after e \<Rightarrow> st | _ \<Rightarrow> vw_move v)"
    using assms(4-7) connection_error_fail by (auto simp: tx_run_def)
  with assms(1) admit show ?thesis by (simp add: Submit_over_def fail_unmapped_is)
qed

text \<open>
  C3: a commit nobody heard of is safe to send again. Suppose a submission would be answered afresh,
  and its transaction runs under any conditions: it may not open, it may not be bounded, or its
  commit may be answered with a connection error, applied or not. The store is then exactly as it
  was or exactly as the acknowledged submission leaves it. In the second case the same fields
  submitted again for a principal with the same rights, at any later moment, under any identifiers
  and with any correlation the column accepts, are answered as a replay of the transaction that landed and change nothing. And
  what the caller was told of a lost commit asks to try again exactly when the driver reported it
  as one of the errors the adapter knows to be transient.
\<close>

theorem lost_commit_is_safe:
  assumes first: "store_ok (vw_move v)" "clock_time now"
      "Wagering_Submit uuid_Parse svc ids now_inbox now cmd v = (Inr a, st)" "\<not> res_IdempotentReplay a"
      "Submit_over cn uuid_Parse svc ids now_inbox now cmd v = (r, st')"
    and again: "MaySubmitAs (sb_Principal cmd2) = MaySubmitAs (sb_Principal cmd)" "sb_Fields cmd2 = sb_Fields cmd"
      "opaque_ok (sb_Correlation cmd2)" "sb_Inbox cmd2 = None" "id_Transaction ids2 \<noteq> 0" "id_LedgerEntry ids2 \<noteq> 0" "now2 \<noteq> 0"
  shows "(st' = vw_move v \<or> st' = st
       \<and> (\<forall>later. (service_step uuid_Parse)\<^sup>*\<^sup>* st' later \<longrightarrow>
            (\<exists>b. Wagering_Submit uuid_Parse svc2 ids2 now_inbox2 now2 cmd2 (alone later) = (Inr b, later)
               \<and> res_IdempotentReplay b \<and> res_TransactionID b = res_TransactionID a)))
    \<and> (\<forall>e err. (cn_commit cn = Lost_after e \<or> cn_commit cn = Lost_before e) \<and> cn_begin cn = None \<and> cn_bound cn = None
         \<and> connection_error e \<and> r = Inl err \<longrightarrow> (class_of err = Retryable \<longleftrightarrow> transient e))"
proof -
  have atomic: "st' = vw_move v \<or> st' = st"
  proof -
    from fresh_submission [OF first(3,4)] obtain command hash where admit: "admit uuid_Parse ids cmd = Inr (command, hash)" by blast
    obtain r0 where run: "tx_run cn (submit_body svc ids now_inbox now cmd command hash v) (vw_move v) = (r0, st')"
      using first(5) admit by (cases "tx_run cn (submit_body svc ids now_inbox now cmd command hash v) (vw_move v)")
        (auto simp: Submit_over_def split: sum.splits if_splits)
    have "WithinMovement (submit_body svc ids now_inbox now cmd command hash v) (vw_move v) = (Inr a, st)"
      using first(3,4) admit
      by (auto simp: Wagering_Submit_def submitOnce_def split: prod.splits sum.splits if_splits dest: resolveDuplicate_flag)
    with tx_run_atomic [OF run] show ?thesis by auto
  qed
  have ok: "store_ok st" using Wagering_Submit_ok [OF first(1-3)] by blast
  have replayed: "\<exists>b. Wagering_Submit uuid_Parse svc2 ids2 now_inbox2 now2 cmd2 (alone later) = (Inr b, later)
      \<and> res_IdempotentReplay b \<and> res_TransactionID b = res_TransactionID a" if "(service_step uuid_Parse)\<^sup>*\<^sup>* st later" for later
  proof -
    have inbox: "claim_inbox cmd2 now_inbox2 later later = Inr later" using again(4) by (simp add: claim_inbox_def)
    have "\<exists>b st2. Wagering_Submit uuid_Parse svc2 ids2 now_inbox2 now2 cmd2 (alone later) = (Inr b, st2)
        \<and> res_IdempotentReplay b \<and> res_TransactionID b = res_TransactionID a \<and> (st2 = vw_move (alone later) \<or> st2 = later)"
      by (rule resubmitted [OF first(1-4) again(1-3,5-7)])
        (use later_ok [OF that ok] that inbox in \<open>auto simp: alone_def\<close>)
    then show ?thesis by (auto simp: alone_def)
  qed
  have "class_of err = Retryable \<longleftrightarrow> transient e"
    if "(cn_commit cn = Lost_after e \<or> cn_commit cn = Lost_before e) \<and> cn_begin cn = None \<and> cn_bound cn = None
         \<and> connection_error e \<and> r = Inl err" for e err
    using Submit_over_lost [of cn uuid_Parse svc ids now_inbox now cmd v err st' a st e] first(3-5) that
    by (auto simp: fail_unmapped_is)
  with atomic replayed show ?thesis by blast
qed

text \<open>
  The connection simply closing under the commit is an error the adapter does not know: it is
  answered as one that asks for nothing, not as one that asks to try again.
\<close>

lemma bare_connection_loss_unretryable:
  assumes "WithinMovement body st = (Inr a, st')"
  shows "tx_run (calm\<lparr>cn_commit := Lost_after OtherDriverError\<rparr>) body st = (Inl (fail_unmapped OtherDriverError), st')
    \<and> class_of (fail_unmapped OtherDriverError) = Unretryable"
proof -
  have "pg_fail OtherDriverError = fail_unmapped OtherDriverError"
    by (rule connection_error_fail) (simp add: connection_error_def)
  moreover have "\<not> transient OtherDriverError" by (simp add: transient_def)
  ultimately show ?thesis using assms
    by (auto simp: tx_run_def calm_def WithinMovement_def fail_unmapped_is split: sum.splits option.splits)
qed

section \<open>Bounds\<close>

lemma ceiling_div:
  fixes x k :: int
  assumes "0 < k"
  shows "(x + (k - 1)) div k = - ((- x) div k)"
proof -
  define q r where "q = x div k" and "r = x mod k"
  have x: "x = k * q + r" and r: "0 \<le> r" "r < k" using assms by (simp_all add: q_def r_def)
  have "(x + (k - 1)) div k = q + (r + (k - 1)) div k" using assms by (simp add: x div_mult_self4 add.assoc)
  moreover have "(r + (k - 1)) div k = (if r = 0 then 0 else 1)"
  proof (cases "r = 0")
    case False
    have "(r + (k - 1)) div k = ((r - 1) + k) div k" by (simp add: algebra_simps)
    also have "\<dots> = 1" using False r by simp
    finally show ?thesis using False by simp
  qed (use assms in simp)
  moreover have "- ((- x) div k) = q + (if r = 0 then 0 else 1)"
    using assms by (simp add: zdiv_zminus1_eq_if q_def r_def)
  ultimately show ?thesis by simp
qed

lemma div_bounds:
  fixes x :: int
  assumes "0 < x" "x < 2 ^ 63"
  shows "0 < (x + 999999) div 1000000" "(x + 999999) div 1000000 < 2 ^ 63"
  using assms by (simp_all add: pos_imp_zdiv_pos_iff div_less_iff_less_mult)


text \<open>
  A timeout is never rounded away. Every positive duration up to a millisecond short of the
  longest is handed to the database as the least number of milliseconds that is no shorter than it,
  so at least one; the comment's promise stops there, and the durations past it wrap round to a
  negative setting.
\<close>

theorem timeouts_rounded_up:
  assumes "0 < sint d"
  shows "if sint d \<le> 2 ^ 63 - 1000000 then sint (milliseconds d) = - ((- sint d) div 1000000) \<and> 1 \<le> sint (milliseconds d)
    else sint (milliseconds d) < 0"
proof -
  have hi: "sint d < 2 ^ 63" by (rule int64_upper)
  have "d + Millisecond - 1 = word_of_int (sint d + 999999)" by (simp add: Millisecond_def)
  then have sum: "sint (d + Millisecond - 1) = signed_take_bit 63 (sint d + 999999)"
    by (simp only: sint_sbintrunc') simp
  show ?thesis
  proof (cases "sint d \<le> 2 ^ 63 - 1000000")
    case True
    have n: "sint (d + Millisecond - 1) = sint d + 999999"
      unfolding sum by (rule signed_take_bit_int_eq_self) (use assms True in simp_all)
    have "(sint d + 999999) div 1000000 = - ((- sint d) div 1000000)" using ceiling_div [of 1000000 "sint d"] by simp
    moreover have "sint (word_of_int ((sint d + 999999) div 1000000) :: int64) = (sint d + 999999) div 1000000"
      unfolding sint_sbintrunc'
      by (rule signed_take_bit_int_eq_self) (use div_bounds [OF assms hi] in simp_all)
    ultimately show ?thesis using True assms n div_bounds(1) [OF assms hi]
      by (simp add: milliseconds_def Millisecond_def Let_def)
  next
    case False
    have n: "sint (d + Millisecond - 1) = sint d + 999999 - 2 ^ 64"
    proof -
      have "(sint d + 999999 + 2 ^ 63) mod 2 ^ Suc 63 = (sint d + 999999 + 2 ^ 63 - 2 ^ 64) mod 2 ^ 64"
        using mod_pos_geq [of "2 ^ 64" "sint d + 999999 + 2 ^ 63"] False by simp
      also have "\<dots> = sint d + 999999 + 2 ^ 63 - 2 ^ 64" by (rule mod_pos_pos_trivial) (use False hi in simp_all)
      finally show ?thesis by (simp add: sum signed_take_bit_eq_take_bit_shift take_bit_eq_mod)
    qed
    let ?q = "- ((- (sint d + 999999 - 2 ^ 64)) div 1000000)"
    have "0 < (- (sint d + 999999 - 2 ^ 64)) div 1000000" "(- (sint d + 999999 - 2 ^ 64)) div 1000000 < 2 ^ 63"
      using False hi by (simp_all add: pos_imp_zdiv_pos_iff div_less_iff_less_mult)
    then have q: "?q < 0" "- (2 ^ 63) \<le> ?q" by simp_all
    have "sint (word_of_int ?q :: int64) = ?q"
      unfolding sint_sbintrunc' by (rule signed_take_bit_int_eq_self) (use q in simp_all)
    then show ?thesis using False n q hi by (simp add: milliseconds_def Millisecond_def Let_def)
  qed
qed

section \<open>At concrete values\<close>

theorem timeouts_rounded_up_witness: "sint (milliseconds 1500000) = 2"
proof -
  have "if sint (1500000 :: int64) \<le> 2 ^ 63 - 1000000
      then sint (milliseconds 1500000) = - ((- sint (1500000 :: int64)) div 1000000) \<and> 1 \<le> sint (milliseconds 1500000)
      else sint (milliseconds 1500000) < 0" by (rule timeouts_rounded_up) simp
  then show ?thesis by simp
qed

text \<open>The sample bet, its commit applied and the acknowledgement lost with the connection.\<close>

definition lost_commit :: conditions where
  "lost_commit = calm\<lparr>cn_commit := Lost_after ErrTxClosed\<rparr>"

theorem lost_commit_is_safe_witness:
  "\<exists>st err b. Submit_over lost_commit sample_parse sample_service (sample_ids 11) 20000 20000 (sample_submission ''5.00'' ''req-1'')
       (alone sample_store) = (Inl err, st)
     \<and> class_of err = Retryable
     \<and> Wagering_Submit sample_parse sample_service (sample_ids 21) 30000 30000 (sample_submission ''5.00'' ''req-2'') (alone st) = (Inr b, st)
     \<and> res_IdempotentReplay b \<and> res_TransactionID b = 11"
proof -
  obtain t st where run: "Wagering_Submit sample_parse sample_service (sample_ids 11) 20000 20000 (sample_submission ''5.00'' ''req-1'')
      (alone sample_store) = (Inr (resultOf t False), st)" "tx_id t = 11" "service_step sample_parse sample_store st"
    by (rule sample_submitted)
  have fresh: "\<not> res_IdempotentReplay (resultOf t False)" by (simp add: resultOf_def)
  have conn: "connection_error ErrTxClosed" "transient ErrTxClosed" by (simp_all add: connection_error_def transient_def)
  let ?over = "Submit_over lost_commit sample_parse sample_service (sample_ids 11) 20000 20000 (sample_submission ''5.00'' ''req-1'')
    (alone sample_store)"
  have cn: "cn_commit lost_commit = Lost_after ErrTxClosed" "cn_begin lost_commit = None" "cn_bound lost_commit = None"
    by (simp_all add: lost_commit_def calm_def)
  have "\<exists>err. ?over = (Inl err, st)"
  proof -
    from fresh_submission [OF run(1) fresh] obtain command hash where
      admit: "admit sample_parse (sample_ids 11) (sample_submission ''5.00'' ''req-1'') = Inr (command, hash)" by blast
    have "WithinMovement (submit_body sample_service (sample_ids 11) 20000 20000 (sample_submission ''5.00'' ''req-1'') command hash
        (alone sample_store)) (vw_move (alone sample_store)) = (Inr (resultOf t False), st)"
      using run(1) fresh admit
      by (auto simp: Wagering_Submit_def submitOnce_def split: prod.splits sum.splits if_splits dest: resolveDuplicate_flag)
    then have "tx_run lost_commit (submit_body sample_service (sample_ids 11) 20000 20000 (sample_submission ''5.00'' ''req-1'') command hash
        (alone sample_store)) (vw_move (alone sample_store)) = (Inl (fail_unmapped ErrTxClosed), st)"
      using cn connection_error_fail [OF conn(1)] by (auto simp: tx_run_def WithinMovement_def split: sum.splits option.splits)
    with admit show ?thesis by (simp add: Submit_over_def fail_unmapped_is)
  qed
  then obtain err where over: "?over = (Inl err, st)" by blast
  have "st \<noteq> sample_store"
  proof
    assume "st = sample_store"
    moreover have "Transactions_ByID 11 sample_store = Inr None"
      by (simp add: Transactions_ByID_def transactions_one_def uuidOf_def opening_transaction_def sample_opening_def)
    ultimately show False using sample_submitted run by (metis Inr_inject option.distinct(1) prod.inject)
  qed
  moreover have pre: "store_ok (vw_move (alone sample_store))" using sample_store_ok by (simp add: alone_def)
  have again: "sb_Fields (sample_submission ''5.00'' ''req-2'') = sb_Fields (sample_submission ''5.00'' ''req-1'')"
    "MaySubmitAs (sb_Principal (sample_submission ''5.00'' ''req-2'')) = MaySubmitAs (sb_Principal (sample_submission ''5.00'' ''req-1''))"
    "opaque_ok (sb_Correlation (sample_submission ''5.00'' ''req-2''))" "sb_Inbox (sample_submission ''5.00'' ''req-2'') = None"
    "id_Transaction (sample_ids 21) \<noteq> 0" "id_LedgerEntry (sample_ids 21) \<noteq> 0"
    by (simp_all add: sample_submission_def sample_ids_def)
  note safe = lost_commit_is_safe [OF pre _ run(1) fresh over again(2,1,3-6), of 30000 sample_service 30000]
  ultimately have "\<exists>b. Wagering_Submit sample_parse sample_service (sample_ids 21) 30000 30000 (sample_submission ''5.00'' ''req-2'') (alone st)
      = (Inr b, st) \<and> res_IdempotentReplay b \<and> res_TransactionID b = res_TransactionID (resultOf t False)"
    using safe by (auto simp: alone_def)
  moreover have "class_of err = Retryable" using safe cn conn over by auto
  ultimately show ?thesis using over run(2) by (auto simp: resultOf_def)
qed

end
