(* ===== verification/Server.thy ===== *)
theory Server
  imports AppErrors
begin

text \<open>
  The server that carries the API (\<^verbatim>\<open>src/internal/adapters/http/server.go\<close>): what it is built
  from, binding, and the drain. What binding an address and shutting down come to is the operating
  system's and the standard library's, and a parameter of the calls; a served connection is not
  modelled here.
\<close>

section \<open>Construction\<close>

text \<open>A dependency that was not given is \<open>None\<close>.\<close>

record server_config =
  hc_Addr :: string
  hc_Handler :: "unit option"
  hc_ReadTimeout :: duration
  hc_ReadHeaderTimeout :: duration
  hc_WriteTimeout :: duration
  hc_IdleTimeout :: duration
  hc_ShutdownTimeout :: duration
  hc_MaxHeaderBytes :: int
  hc_Logger :: "unit option"

text \<open>The listener is kept as the address it is bound to; \<open>sr_served\<close> says that the channel was made.\<close>

record server =
  sr_addr :: string
  sr_readTimeout :: duration
  sr_readHeaderTimeout :: duration
  sr_writeTimeout :: duration
  sr_idleTimeout :: duration
  sr_maxHeaderBytes :: int
  sr_shutdown :: duration
  sr_listener :: "string option"
  sr_served :: bool

definition server_bounds :: "server_config \<Rightarrow> duration list" where
  "server_bounds cfg =
     [hc_ReadTimeout cfg, hc_ReadHeaderTimeout cfg, hc_WriteTimeout cfg, hc_IdleTimeout cfg, hc_ShutdownTimeout cfg]"

definition NewServer :: "server_config \<Rightarrow> server eres" where
  "NewServer cfg =
     (if hc_Handler cfg = None then Inl (Wrapped [])
      else if hc_Logger cfg = None then Inl (Wrapped [])
      else if hc_Addr cfg = [] then Inl (Wrapped [])
      else if hc_MaxHeaderBytes cfg \<le> 0 then Inl (Wrapped [])
      else if list_ex (\<lambda>bound. bound \<le> 0) (server_bounds cfg) then Inl (Wrapped [])
      else Inr \<lparr>sr_addr = hc_Addr cfg, sr_readTimeout = hc_ReadTimeout cfg,
             sr_readHeaderTimeout = hc_ReadHeaderTimeout cfg, sr_writeTimeout = hc_WriteTimeout cfg,
             sr_idleTimeout = hc_IdleTimeout cfg, sr_maxHeaderBytes = hc_MaxHeaderBytes cfg,
             sr_shutdown = hc_ShutdownTimeout cfg, sr_listener = None, sr_served = False\<rparr>)"

section \<open>Starting and stopping\<close>

definition Server_Start :: "(string \<Rightarrow> driver_error + string) \<Rightarrow> server \<Rightarrow> go_error option \<times> server" where
  "Server_Start listen s =
     (if sr_listener s \<noteq> None then (Some (Wrapped []), s)
      else (case listen (sr_addr s) of
              Inl err \<Rightarrow> (Some (Wrapped [DriverErr err]), s)
            | Inr bound \<Rightarrow> (None, s\<lparr>sr_listener := Some bound, sr_served := True\<rparr>)))"

definition Server_Addr :: "server \<Rightarrow> string" where
  "Server_Addr s = (case sr_listener s of None \<Rightarrow> [] | Some bound \<Rightarrow> bound)"

text \<open>\<open>drain\<close> is how shutting down ends within a budget: the end of the budget is its error.\<close>

definition Server_Stop :: "(duration \<Rightarrow> driver_error option) \<Rightarrow> server \<Rightarrow> go_error option" where
  "Server_Stop drain s =
     (if \<not> sr_served s then None
      else (case drain (sr_shutdown s) of
              None \<Rightarrow> None
            | Some err \<Rightarrow> Some (Wrapped [DriverErr err])))"

section \<open>The life of a server\<close>

inductive server_step :: "server \<Rightarrow> server \<Rightarrow> bool" where
  bind: "Server_Start listen s = (None, s') \<Longrightarrow> server_step s s'"

inductive_simps server_step_iff: "server_step s s'"

definition server_kept :: "server \<Rightarrow> bool" where
  "server_kept s \<longleftrightarrow> sr_served s = (sr_listener s \<noteq> None) \<and> sr_addr s \<noteq> [] \<and> 0 < sr_maxHeaderBytes s
     \<and> 0 < sr_readTimeout s \<and> 0 < sr_readHeaderTimeout s \<and> 0 < sr_writeTimeout s \<and> 0 < sr_idleTimeout s
     \<and> 0 < sr_shutdown s"

lemma NewServer_kept: "NewServer cfg = Inr s \<Longrightarrow> server_kept s \<and> sr_listener s = None"
  by (auto simp: NewServer_def server_bounds_def server_kept_def split: if_splits)

lemma Server_Start_ok:
  "Server_Start listen s = (None, s') \<longleftrightarrow>
     sr_listener s = None \<and> (\<exists>bound. listen (sr_addr s) = Inr bound \<and> s' = s\<lparr>sr_listener := Some bound, sr_served := True\<rparr>)"
  by (auto simp: Server_Start_def split: sum.splits)

lemma Server_Start_error: "fst (Server_Start listen s) = Some e \<Longrightarrow> snd (Server_Start listen s) = s"
  by (auto simp: Server_Start_def split: sum.splits if_splits)

interpretation sv: settling_system
  "\<lambda>s. \<exists>cfg. NewServer cfg = Inr s" server_step server_kept "\<lambda>s. sr_listener s \<noteq> None"
  by unfold_locales (auto simp: server_step_iff Server_Start_ok server_kept_def dest: NewServer_kept)

text \<open>
  A server binds once, keeps its bounds, and says when a drain was cut off. In every state
  reached from a server that was built, all five timeouts and the header limit are positive; once
  it is bound to an address no call changes it any more and a further start is refused; stopping
  one that never bound is no error, and stopping one that did reports exactly what the drain ended
  with inside the configured budget.
\<close>

theorem server_binds_once:
  assumes "NewServer cfg = Inr s0" "server_step\<^sup>*\<^sup>* s0 s"
  shows "0 < sr_readTimeout s \<and> 0 < sr_readHeaderTimeout s \<and> 0 < sr_writeTimeout s \<and> 0 < sr_idleTimeout s
    \<and> 0 < sr_shutdown s \<and> 0 < sr_maxHeaderBytes s
    \<and> (sr_listener s = None \<longrightarrow> Server_Addr s = [] \<and> Server_Stop drain s = None)
    \<and> (\<forall>bound. sr_listener s = Some bound \<longrightarrow> Server_Addr s = bound \<and> Server_Start listen s = (Some (Wrapped []), s)
         \<and> (\<forall>s'. server_step\<^sup>*\<^sup>* s s' \<longrightarrow> s' = s)
         \<and> Server_Stop drain s = map_option (\<lambda>err. Wrapped [DriverErr err]) (drain (sr_shutdown s)))"
proof -
  have kept: "server_kept s" using assms by (blast intro: sv.inv_reachable)
  have "s' = s" if "sr_listener s = Some bound" "server_step\<^sup>*\<^sup>* s s'" for bound s'
    using sv.settled_forever that by blast
  with kept show ?thesis
    by (auto simp: server_kept_def Server_Addr_def Server_Stop_def Server_Start_def split: option.split)
qed

lemma server_binds_once_witness:
  "\<exists>s. NewServer \<lparr>hc_Addr = '':8080'', hc_Handler = Some (), hc_ReadTimeout = 10, hc_ReadHeaderTimeout = 5,
       hc_WriteTimeout = 15, hc_IdleTimeout = 60, hc_ShutdownTimeout = 20, hc_MaxHeaderBytes = 1024,
       hc_Logger = Some ()\<rparr> = Inr s \<and> 0 < sr_readTimeout s"
proof -
  let ?cfg = "\<lparr>hc_Addr = '':8080'', hc_Handler = Some (), hc_ReadTimeout = 10, hc_ReadHeaderTimeout = 5,
       hc_WriteTimeout = 15, hc_IdleTimeout = 60, hc_ShutdownTimeout = 20, hc_MaxHeaderBytes = 1024, hc_Logger = Some ()\<rparr>"
  obtain s where "NewServer ?cfg = Inr s"
    by (simp add: NewServer_def server_bounds_def)
  with server_binds_once [OF this rtranclp.rtrancl_refl] show ?thesis by blast
qed

end
