(* ===== verification/Wiring.thy ===== *)
theory Wiring
  imports Loading TxRun Server Consumer Publishing ReferenceWorker Http Claims
begin

text \<open>
  The composition root (\<^verbatim>\<open>src/internal/fxmod\<close>): what the parts of a loaded configuration become
  when each component is built from its own, which parts each binary has, how a process starts
  against a queue that does not answer, and the exit codes. The dependency-injection framework is a
  parameter: what building, starting and stopping a graph comes to.
\<close>

section \<open>The ports nothing else supplies\<close>

text \<open>\<^verbatim>\<open>systemClock.Now\<close>: the instant that was read, in nanoseconds, truncated to a microsecond.\<close>

definition systemClock_Now :: "instant \<Rightarrow> instant" where
  "systemClock_Now t = t - t mod 1000"

section \<open>The application\<close>

definition newProcessor :: "wagering_config \<Rightarrow> processor res" where
  "newProcessor cfg = bindE (NewReferencePolicy (wag_ReferenceAttempts cfg) (wag_ReferenceTTL cfg)) NewProcessor"

definition newWagering :: "float_arith \<Rightarrow> processor \<Rightarrow> wagering_config \<Rightarrow> wagering eres" where
  "newWagering fa p cfg =
     NewWagering fa
       \<lparr>wd_Tx = Some (), wd_Processor = Some p, wd_Clock = Some (), wd_IDs = Some (),
        wd_Backoff = \<lparr>bo_Initial = bo_Initial (wag_Backoff cfg), bo_Factor = bo_Factor (wag_Backoff cfg),
          bo_Max = bo_Max (wag_Backoff cfg)\<rparr>,
        wd_Defects = Some ()\<rparr>"

definition newWallets :: "wallets eres" where
  "newWallets = NewWallets \<lparr>wsd_tx = Some (), wsd_clock = Some (), wsd_ids = Some (), wsd_observer = Some ()\<rparr>"

section \<open>The database\<close>

definition newPool :: "pool_driver \<Rightarrow> postgres_config \<Rightarrow> unit eres \<times> bool" where
  "newPool d cfg =
     NewPool d \<lparr>pl_DSN = pgs_DSN cfg, pl_MaxConns = pgs_MaxConns cfg, pl_ConnectTimeout = pgs_ConnectTimeout cfg\<rparr>"

definition newTxManager :: "postgres_config \<Rightarrow> tx_manager eres" where
  "newTxManager cfg =
     NewTxManager \<lparr>xc_Pool = Some (), xc_LockTimeout = pgs_LockTimeout cfg, xc_StatementTimeout = pgs_StatementTimeout cfg\<rparr>"

definition newOutboxClaims :: "unit eres" where
  "newOutboxClaims = NewOutboxClaims (Some ())"

definition newDatabaseHealth :: "postgres_config \<Rightarrow> duration eres" where
  "newDatabaseHealth cfg = NewDatabaseHealth (Some ()) (pgs_HealthTimeout cfg)"

text \<open>
  \<^verbatim>\<open>ledgerGuard.check\<close>: the answer of the privilege probe is whether the ledger exists and whether
  this connection could rewrite it.
\<close>

definition ledgerGuard_check :: "driver_error + bool \<times> bool \<Rightarrow> go_error option" where
  "ledgerGuard_check probe =
     (case probe of
        Inl err \<Rightarrow> Some (Wrapped [DriverErr err])
      | Inr (migrated, canRewrite) \<Rightarrow>
          if \<not> migrated then Some (Wrapped [])
          else if canRewrite then Some (Wrapped [])
          else None)"

section \<open>The queues\<close>

definition newInboundQueue :: "'q sqs_client \<Rightarrow> sqs_config \<Rightarrow> 'q queue eres" where
  "newInboundQueue client cfg =
     NewQueue \<lparr>qc_Client = Some client, qc_Name = sqc_InboundQueue cfg, qc_ResolveTimeout = sqc_ResolveTimeout cfg,
       qc_MaxMessages = sqc_MaxMessages cfg, qc_WaitTime = sqc_WaitTime cfg,
       qc_VisibilityTimeout = sqc_VisibilityTimeout cfg\<rparr>"

definition newOutboundQueue :: "'q sqs_client \<Rightarrow> sqs_config \<Rightarrow> 'q queue eres" where
  "newOutboundQueue client cfg =
     NewQueue \<lparr>qc_Client = Some client, qc_Name = sqc_OutboundQueue cfg, qc_ResolveTimeout = sqc_ResolveTimeout cfg,
       qc_MaxMessages = 0, qc_WaitTime = 0, qc_VisibilityTimeout = 0\<rparr>"

text \<open>The start-up check of a queue: what it reports, the queue it leaves behind, and the service after it.\<close>

definition resolveQueue :: "'q queue \<Rightarrow> bool \<Rightarrow> 'q \<Rightarrow> go_error option \<times> 'q queue \<times> 'q" where
  "resolveQueue q tolerateOutage s =
     (case Queue_OnStart q s of
        (None, q', s') \<Rightarrow> (None, q', s')
      | (Some err, q', s') \<Rightarrow>
          if \<not> tolerateOutage \<or> class_of err \<noteq> Retryable then (Some err, q', s') else (None, q', s'))"

definition newQueueReadiness :: "'q queue \<Rightarrow> sqs_config \<Rightarrow> 'q queue_health eres" where
  "newQueueReadiness q cfg = NewHealth (Some q) (sqc_HealthTimeout cfg)"

text \<open>The probe and the queue it may resolve are one queue.\<close>

definition queueReadiness_Ready :: "'q queue_health \<Rightarrow> 'q \<Rightarrow> go_error option \<times> 'q queue_health \<times> 'q" where
  "queueReadiness_Ready r s =
     (case Health_Ready r s of
        None \<Rightarrow> (None, r, s)
      | Some err \<Rightarrow>
          if \<not> errors_Is err ErrNotResolved then (Some err, r, s)
          else (case Queue_OnStart (qh_queue r) s of
                  (Some err', q', s') \<Rightarrow> (Some err', r\<lparr>qh_queue := q'\<rparr>, s')
                | (None, q', s') \<Rightarrow> (let r' = r\<lparr>qh_queue := q'\<rparr> in (Health_Ready r' s', r', s'))))"

section \<open>The identity provider\<close>

definition newAuthenticator :: "'k libraries \<Rightarrow> identity_config \<Rightarrow> (oidc_settings \<times> 'k key_set) eres" where
  "newAuthenticator lib cfg =
     NewAuthenticator lib
       \<lparr>og_Issuer = oid_Issuer cfg, og_Audience = oid_Audience cfg, og_JWKSURI = oid_JWKSURI cfg,
        og_HTTPClient = Some (), og_Algorithms = oid_Algorithms cfg, og_ClockSkew = oid_ClockSkew cfg,
        og_FetchTimeout = oid_FetchTimeout cfg, og_MinRefreshInterval = oid_MinRefreshInterval cfg\<rparr>"

section \<open>The HTTP server\<close>

definition newReadiness :: "(string \<times> unit option) list" where
  "newReadiness = [(''postgres'', Some ()), (''sqs'', Some ())]"

definition newAPI :: "http_config \<Rightarrow> unit eres" where
  "newAPI cfg =
     api_New \<lparr>ac_Wagering = Some (), ac_Wallets = Some (), ac_Authenticator = Some (), ac_Readiness = newReadiness,
       ac_ReadinessTimeout = htc_ReadinessTimeout cfg, ac_MaxBodyBytes = htc_MaxBodyBytes cfg, ac_Logger = Some ()\<rparr>"

definition newServer :: "http_config \<Rightarrow> server eres" where
  "newServer cfg =
     NewServer \<lparr>hc_Addr = htc_Addr cfg, hc_Handler = Some (), hc_ReadTimeout = htc_ReadTimeout cfg,
       hc_ReadHeaderTimeout = htc_ReadHeaderTimeout cfg, hc_WriteTimeout = htc_WriteTimeout cfg,
       hc_IdleTimeout = htc_IdleTimeout cfg, hc_ShutdownTimeout = htc_ShutdownTimeout cfg,
       hc_MaxHeaderBytes = htc_MaxHeaderBytes cfg, hc_Logger = Some ()\<rparr>"

definition notAProbe :: "string \<Rightarrow> bool" where
  "notAProbe path \<longleftrightarrow> \<not> HasPrefix path ''/health/''"

section \<open>The loops\<close>

definition backoffOf :: "backoff_policy \<Rightarrow> worker_backoff" where
  "backoffOf b = \<lparr>bo_Initial = bo_Initial b, bo_Factor = bo_Factor b, bo_Max = bo_Max b\<rparr>"

definition consumerSettings :: "consumer_settings \<Rightarrow> sqs_config \<Rightarrow> 'q consumer_config" where
  "consumerSettings cfg queues =
     \<lparr>cc_Queue = None, cc_Wagering = None, cc_Name = con_Name cfg, cc_Concurrency = con_Concurrency cfg,
      cc_Backoff = backoffOf (con_Backoff cfg), cc_DrainTimeout = con_DrainTimeout cfg,
      cc_MaxReceiveCount = sqc_MaxReceiveCount queues, cc_Logger = None\<rparr>"

definition newConsumer :: "consumer_settings \<Rightarrow> sqs_config \<Rightarrow> 'q queue \<Rightarrow> 'q consumer eres" where
  "newConsumer cfg queues queue =
     NewConsumer ((consumerSettings cfg queues)\<lparr>cc_Queue := Some queue, cc_Wagering := Some (), cc_Logger := Some ()\<rparr>)"

definition publisherSettings :: "publisher_settings \<Rightarrow> 'q publisher_config" where
  "publisherSettings cfg =
     \<lparr>pc_Outbox = None, pc_Queue = None, pc_Clock = None, pc_Name = pub_Name cfg, pc_Batch = pub_Batch cfg,
      pc_Hold = pub_Hold cfg, pc_Interval = pub_Interval cfg, pc_Backoff = backoffOf (pub_Backoff cfg),
      pc_DrainTimeout = pub_DrainTimeout cfg, pc_Logger = None\<rparr>"

definition newPublisher :: "publisher_settings \<Rightarrow> 'q queue \<Rightarrow> 'q publisher eres" where
  "newPublisher cfg queue =
     NewPublisher ((publisherSettings cfg)\<lparr>pc_Outbox := Some (), pc_Queue := Some queue, pc_Clock := Some (),
       pc_Logger := Some ()\<rparr>)"

definition referenceSettings :: "reference_settings \<Rightarrow> reference_config" where
  "referenceSettings cfg =
     \<lparr>rc_Wagering = None, rc_Name = ref_Name cfg, rc_Interval = ref_Interval cfg,
      rc_Backoff = backoffOf (ref_Backoff cfg), rc_DrainTimeout = ref_DrainTimeout cfg, rc_Logger = None\<rparr>"

definition newReferenceWorker :: "reference_settings \<Rightarrow> reference_worker eres" where
  "newReferenceWorker cfg = NewReferenceWorker ((referenceSettings cfg)\<lparr>rc_Wagering := Some (), rc_Logger := Some ()\<rparr>)"

text \<open>What \<^verbatim>\<open>observeOutboxLag\<close> answers from the oldest unpublished event.\<close>

definition outboxLag :: "instant \<Rightarrow> instant option eres \<Rightarrow> duration eres" where
  "outboxLag now oldest =
     (case oldest of
        Inl err \<Rightarrow> Inl err
      | Inr None \<Rightarrow> Inr 0
      | Inr (Some occurred) \<Rightarrow> Inr (max (now - occurred) 0))"

definition stopWorker :: "go_error option \<Rightarrow> go_error option" where
  "stopWorker stopped = map_option (\<lambda>err. Wrapped [err]) stopped"

section \<open>The binaries\<close>

datatype check = InboundFirst | OutboundFirst

datatype fx_part =
    Lifecycle duration duration | QueueStartUp bool | TelemetryPart | ConfigPart config | PostgresPart | SQSPart
  | OIDCPart | AppPart | HTTPServerPart | Checks "check list" | ConsumerLoop | OutboxLoop | ReferenceLoop

definition fx_lifecycle :: "config \<Rightarrow> fx_part" where
  "fx_lifecycle cfg = Lifecycle (lcy_StartTimeout (cfg_Lifecycle cfg)) (lcy_StopTimeout (cfg_Lifecycle cfg))"

definition API :: "config \<Rightarrow> fx_part list eres" where
  "API cfg =
     Inr [fx_lifecycle cfg, QueueStartUp True, TelemetryPart, ConfigPart cfg, PostgresPart, SQSPart, OIDCPart, AppPart,
       HTTPServerPart]"

definition checks :: "config \<Rightarrow> fx_part" where
  "checks cfg =
     Checks ((if con_Enabled (cfg_Consumer cfg) then [InboundFirst] else [])
       @ (if pub_Enabled (cfg_Publisher cfg) then [OutboundFirst] else []))"

definition Worker :: "config \<Rightarrow> fx_part list eres" where
  "Worker cfg =
     (let loops = (if con_Enabled (cfg_Consumer cfg) then [ConsumerLoop] else [])
            @ (if pub_Enabled (cfg_Publisher cfg) then [OutboxLoop] else [])
            @ (if ref_Enabled (cfg_Reference cfg) then [ReferenceLoop] else [])
      in if loops = [] then Inl (Wrapped [])
         else Inr ([fx_lifecycle cfg, QueueStartUp False, TelemetryPart, ConfigPart cfg, PostgresPart, SQSPart, AppPart,
                checks cfg] @ loops))"

definition ExitOK :: int where "ExitOK = 0"
definition ExitFailed :: int where "ExitFailed = 1"
definition ExitConfig :: int where "ExitConfig = 2"
definition ExitUnclean :: int where "ExitUnclean = 3"

text \<open>
  What building, starting and stopping the parts of a graph comes to. A graph holding an error does
  not build, which is the framework's \<^verbatim>\<open>Err\<close>.
\<close>

record fx_runtime =
  fx_Err :: "fx_part list \<Rightarrow> go_error option"
  fx_Start :: "fx_part list \<Rightarrow> go_error option"
  fx_Stop :: "fx_part list \<Rightarrow> go_error option"

definition Run :: "fx_runtime \<Rightarrow> config_source option \<Rightarrow> (config \<Rightarrow> fx_part list eres) \<Rightarrow> int" where
  "Run fx source graph =
     (case Load source of
        Inl errs \<Rightarrow> ExitConfig
      | Inr cfg \<Rightarrow>
          (case graph cfg of
             Inl err \<Rightarrow> ExitFailed
           | Inr application \<Rightarrow>
               if fx_Err fx application \<noteq> None then ExitFailed
               else if fx_Start fx application \<noteq> None then ExitFailed
               else if fx_Stop fx application \<noteq> None then ExitUnclean
               else ExitOK))"

end
