(* ===== verification/Startup.thy ===== *)
theory Startup
  imports Wiring
begin

text \<open>
  What the composition root promises: which loaded configurations each component is built from,
  that a minimal environment builds all of them, that the publisher's waits stay inside the
  window in which the queue knows a duplicate, and how a process starts against a queue in an outage.
\<close>

section \<open>Schedules\<close>

definition schedule_ordered :: "backoff_policy \<Rightarrow> bool" where
  "schedule_ordered b \<longleftrightarrow> \<not> float_less (bo_Factor b) (Num 1) \<and> bo_Initial b \<le> bo_Max b"

lemma backoffOf_id [simp]: "backoffOf b = b"
  by (simp add: backoffOf_def)

lemma schedule_validates:
  assumes "0 < bo_Initial b" "bo_Factor b = Num q"
  shows "(\<exists>u. backoff_validate b = Inr u) \<longleftrightarrow> schedule_ordered b"
    "(\<exists>u. worker_backoff_validate b = Inr u) \<longleftrightarrow> schedule_ordered b" "b \<noteq> zero_backoff"
  unfolding backoff_validate_def worker_backoff_validate_def schedule_ordered_def zero_backoff_def using assms by auto

section \<open>Facts of a loaded configuration\<close>

lemma text_given: "d \<noteq> [] \<Longrightarrow> fst (run_state (read_text src key d) errs) \<noteq> []"
  by (auto simp: read_text_def cfg_value_def split: option.splits if_splits)

lemma addresses_given:
  "htc_Addr (fst (run_state (read_http src) errs)) \<noteq> []"
  "sqc_InboundQueue (fst (run_state (read_sqs src) errs)) \<noteq> []"
  "sqc_OutboundQueue (fst (run_state (read_sqs src) errs)) \<noteq> []"
  unfolding section_readers reads_value fst_conv http_config.simps sqs_config.simps
  by (rule text_given, simp)+

lemma names_loaded:
  assumes "Load (Some src) = Inr cfg"
  shows "htc_Addr (cfg_HTTP cfg) \<noteq> []" "sqc_InboundQueue (cfg_SQS cfg) \<noteq> []" "sqc_OutboundQueue (cfg_SQS cfg) \<noteq> []"
    "pub_Name (cfg_Publisher cfg) \<noteq> []"
proof -
  have "fst (run_state (read_publisherName src) errs) \<noteq> []" for errs
    by (rule publisherName_given, rule problems_member [OF LoadD(1) [OF assms]], simp add: variables_def)
  then have "pub_Name (fst (run_state (read_publisher src) errs)) \<noteq> []" for errs
    unfolding section_readers reads_value fst_conv publisher_settings.simps by simp
  with config_parts(4,6,9) [of src] addresses_given [of src]
  show "htc_Addr (cfg_HTTP cfg) \<noteq> []" "sqc_InboundQueue (cfg_SQS cfg) \<noteq> []" "sqc_OutboundQueue (cfg_SQS cfg) \<noteq> []"
    "pub_Name (cfg_Publisher cfg) \<noteq> []"
    unfolding LoadD(2) [OF assms] by metis+
qed

lemma durations_loaded: "Load (Some src) = Inr cfg \<Longrightarrow> list_all (\<lambda>d. 0 < d) (durations cfg)"
  and counts_loaded: "Load (Some src) = Inr cfg \<Longrightarrow> list_all (\<lambda>n. n \<in> {1..2147483647}) (counts cfg)"
  using loaded_durations loaded_counts by (auto dest: LoadD(2))

lemma schedule_loaded:
  assumes "Load (Some src) = Inr cfg" "b \<in> set (schedules cfg)"
  shows "(\<exists>u. backoff_validate b = Inr u) \<longleftrightarrow> schedule_ordered b"
    "(\<exists>u. worker_backoff_validate b = Inr u) \<longleftrightarrow> schedule_ordered b" "b \<noteq> zero_backoff"
proof -
  obtain q where "0 < bo_Initial b" "bo_Factor b = Num q"
    using assms loaded_schedules [of src] LoadD(2) [OF assms(1)] by (auto simp: list_all_iff)
  from schedule_validates [OF this]
  show "(\<exists>u. backoff_validate b = Inr u) \<longleftrightarrow> schedule_ordered b"
    "(\<exists>u. worker_backoff_validate b = Inr u) \<longleftrightarrow> schedule_ordered b" "b \<noteq> zero_backoff" .
qed

lemmas durations_loaded_all = durations_loaded [unfolded durations_def list.pred_inject]
lemmas counts_loaded_all = counts_loaded [unfolded counts_def list.pred_inject atLeastAtMost_iff]

section \<open>Each constructor on what was loaded\<close>

lemma Processor_loaded: "Load (Some src) = Inr cfg \<Longrightarrow> \<exists>p. newProcessor (cfg_Wagering cfg) = Inr p"
  using durations_loaded_all [of src cfg] counts_loaded_all [of src cfg]
  by (simp add: newProcessor_def NewReferencePolicy_def NewProcessor_def policy_validate_def )

lemma Wagering_loaded:
  assumes "Load (Some src) = Inr cfg"
  shows "(\<exists>w. newWagering fa p (cfg_Wagering cfg) = Inr w) \<longleftrightarrow> schedule_ordered (wag_Backoff (cfg_Wagering cfg))"
  using schedule_loaded(1) [OF assms, of "wag_Backoff (cfg_Wagering cfg)"]
  by (auto simp: newWagering_def NewWagering_def schedules_def backoffOf_id [unfolded backoffOf_def]  split: sum.splits)

lemma always_built:
  assumes "Load (Some src) = Inr cfg"
  shows "\<exists>m. newTxManager (cfg_Postgres cfg) = Inr m" "\<exists>d. newDatabaseHealth (cfg_Postgres cfg) = Inr d"
    "\<exists>w. newWallets = Inr w" "\<exists>u. newOutboxClaims = Inr u" "\<exists>a. newAPI (cfg_HTTP cfg) = Inr a"
    "\<exists>s. newServer (cfg_HTTP cfg) = Inr s" "\<exists>q. newOutboundQueue client (cfg_SQS cfg) = Inr q"
    "\<exists>h. newQueueReadiness queue (cfg_SQS cfg) = Inr h"
proof -
  note loaded = durations_loaded_all [OF assms] counts_loaded_all [OF assms] names_loaded [OF assms]
  show "\<exists>m. newTxManager (cfg_Postgres cfg) = Inr m" "\<exists>d. newDatabaseHealth (cfg_Postgres cfg) = Inr d"
    using loaded by (simp_all add: newTxManager_def NewTxManager_def newDatabaseHealth_def NewDatabaseHealth_def)
  show "\<exists>w. newWallets = Inr w" "\<exists>u. newOutboxClaims = Inr u"
    by (simp_all add: newWallets_def NewWallets_def newOutboxClaims_def NewOutboxClaims_def)
  show "\<exists>a. newAPI (cfg_HTTP cfg) = Inr a" "\<exists>s. newServer (cfg_HTTP cfg) = Inr s"
    using loaded by (simp_all add: newAPI_def api_New_def newReadiness_def newServer_def NewServer_def server_bounds_def)
  show "\<exists>q. newOutboundQueue client (cfg_SQS cfg) = Inr q" "\<exists>h. newQueueReadiness queue (cfg_SQS cfg) = Inr h"
    using loaded by (simp_all add: newOutboundQueue_def NewQueue_def queue_resolve_def newQueueReadiness_def NewHealth_def
        maxReceiveBatch_def maxWaitTime_def maxVisibilityTimeout_def Second_def )
qed

lemma Consumer_loaded:
  assumes "Load (Some src) = Inr cfg"
  shows "(\<exists>co. newConsumer (cfg_Consumer cfg) (cfg_SQS cfg) queue = Inr co) \<longleftrightarrow>
    opaqueID (con_Name (cfg_Consumer cfg)) \<and> schedule_ordered (con_Backoff (cfg_Consumer cfg))
    \<and> bo_Max (con_Backoff (cfg_Consumer cfg)) \<le> maxVisibility"
proof -
  have "con_Backoff (cfg_Consumer cfg) \<in> set (schedules cfg)" by (simp add: schedules_def)
  note schedule = schedule_loaded [OF assms this]
  have "\<not> opaqueID []" by (simp add: opaqueID_def)
  with durations_loaded_all [OF assms] counts_loaded_all [OF assms] schedule show ?thesis
    by (cases "worker_backoff_validate (con_Backoff (cfg_Consumer cfg))")
      (auto simp: newConsumer_def consumerSettings_def NewConsumer_def Let_def)
qed

lemma Publisher_loaded:
  assumes "Load (Some src) = Inr cfg"
  shows "(\<exists>pb. newPublisher (cfg_Publisher cfg) queue = Inr pb) \<longleftrightarrow>
    pub_Batch (cfg_Publisher cfg) \<le> maxClaimBatch \<and> schedule_ordered (pub_Backoff (cfg_Publisher cfg))"
proof -
  have "pub_Backoff (cfg_Publisher cfg) \<in> set (schedules cfg)" by (simp add: schedules_def)
  note schedule = schedule_loaded [OF assms this]
  with durations_loaded_all [OF assms] counts_loaded_all [OF assms] names_loaded [OF assms] show ?thesis
    by (cases "worker_backoff_validate (pub_Backoff (cfg_Publisher cfg))")
      (auto simp: newPublisher_def publisherSettings_def NewPublisher_def Let_def)
qed

lemma Reference_loaded:
  assumes "Load (Some src) = Inr cfg"
  shows "(\<exists>rw. newReferenceWorker (cfg_Reference cfg) = Inr rw) \<longleftrightarrow>
    \<not> blank (ref_Name (cfg_Reference cfg)) \<and> schedule_ordered (ref_Backoff (cfg_Reference cfg))"
proof -
  have "ref_Backoff (cfg_Reference cfg) \<in> set (schedules cfg)" by (simp add: schedules_def)
  note schedule = schedule_loaded [OF assms this]
  with durations_loaded_all [OF assms] show ?thesis
    by (cases "worker_backoff_validate (ref_Backoff (cfg_Reference cfg))")
      (auto simp: newReferenceWorker_def referenceSettings_def NewReferenceWorker_def NewServicePrincipal_def Let_def)
qed

lemma Inbound_loaded:
  assumes "Load (Some src) = Inr cfg"
  shows "(\<exists>q. newInboundQueue client (cfg_SQS cfg) = Inr q) \<longleftrightarrow>
    sqc_MaxMessages (cfg_SQS cfg) \<le> maxReceiveBatch
    \<and> sqc_WaitTime (cfg_SQS cfg) \<le> maxWaitTime \<and> sqc_WaitTime (cfg_SQS cfg) mod Second = 0
    \<and> sqc_VisibilityTimeout (cfg_SQS cfg) \<le> maxVisibilityTimeout \<and> sqc_VisibilityTimeout (cfg_SQS cfg) mod Second = 0"
proof -
  have "0 < sqc_ResolveTimeout (cfg_SQS cfg)" "0 < sqc_WaitTime (cfg_SQS cfg)" "0 < sqc_VisibilityTimeout (cfg_SQS cfg)"
    "1 \<le> sqc_MaxMessages (cfg_SQS cfg)"
    using durations_loaded_all [OF assms] counts_loaded_all [OF assms] by (simp_all only: simp_thms)
  with names_loaded(2) [OF assms] show ?thesis
    by (simp add: newInboundQueue_def NewQueue_def queue_resolve_def) linarith
qed

text \<open>
  C28: what loading leaves to the constructors. From a configuration \<^verbatim>\<open>Load\<close> accepted, the processor,
  the transaction manager, the wallet service, the outbox claims, both readiness checks, the API, the
  server and the outbound queue are always built. The write path is built exactly when its schedule
  is in order; the consumer when its name is an opaque identifier, its schedule in order and its
  ceiling within the longest visibility; the publisher when its batch is at most one claim and its
  schedule in order; the reference worker when its name is not blank and its schedule in order; the
  inbound queue when its bounds are within those of SQS and in whole seconds. Nothing else can stop
  a process between reading its environment and reaching for its dependencies, but the identity
  provider's settings and the clients.
\<close>

theorem what_is_left_to_constructors:
  assumes "Load (Some src) = Inr cfg"
  shows "(\<exists>p. newProcessor (cfg_Wagering cfg) = Inr p) \<and> (\<exists>m. newTxManager (cfg_Postgres cfg) = Inr m)
    \<and> (\<exists>d. newDatabaseHealth (cfg_Postgres cfg) = Inr d) \<and> (\<exists>w. newWallets = Inr w) \<and> (\<exists>u. newOutboxClaims = Inr u)
    \<and> (\<exists>a. newAPI (cfg_HTTP cfg) = Inr a) \<and> (\<exists>s. newServer (cfg_HTTP cfg) = Inr s)
    \<and> (\<exists>q. newOutboundQueue client (cfg_SQS cfg) = Inr q) \<and> (\<exists>h. newQueueReadiness queue (cfg_SQS cfg) = Inr h)
    \<and> ((\<exists>w. newWagering fa p (cfg_Wagering cfg) = Inr w) \<longleftrightarrow> schedule_ordered (wag_Backoff (cfg_Wagering cfg)))
    \<and> ((\<exists>co. newConsumer (cfg_Consumer cfg) (cfg_SQS cfg) queue = Inr co) \<longleftrightarrow>
         opaqueID (con_Name (cfg_Consumer cfg)) \<and> schedule_ordered (con_Backoff (cfg_Consumer cfg))
         \<and> bo_Max (con_Backoff (cfg_Consumer cfg)) \<le> maxVisibility)
    \<and> ((\<exists>pb. newPublisher (cfg_Publisher cfg) queue = Inr pb) \<longleftrightarrow>
         pub_Batch (cfg_Publisher cfg) \<le> maxClaimBatch \<and> schedule_ordered (pub_Backoff (cfg_Publisher cfg)))
    \<and> ((\<exists>rw. newReferenceWorker (cfg_Reference cfg) = Inr rw) \<longleftrightarrow>
         \<not> blank (ref_Name (cfg_Reference cfg)) \<and> schedule_ordered (ref_Backoff (cfg_Reference cfg)))
    \<and> ((\<exists>q. newInboundQueue client (cfg_SQS cfg) = Inr q) \<longleftrightarrow>
         sqc_MaxMessages (cfg_SQS cfg) \<le> maxReceiveBatch
         \<and> sqc_WaitTime (cfg_SQS cfg) \<le> maxWaitTime \<and> sqc_WaitTime (cfg_SQS cfg) mod Second = 0
         \<and> sqc_VisibilityTimeout (cfg_SQS cfg) \<le> maxVisibilityTimeout
         \<and> sqc_VisibilityTimeout (cfg_SQS cfg) mod Second = 0)"
  by (intro conjI Processor_loaded always_built Wagering_loaded Consumer_loaded Publisher_loaded Reference_loaded
      Inbound_loaded; rule assms)

section \<open>Inside the deduplication window\<close>

lemma window_loaded:
  assumes "Load (Some src) = Inr cfg"
  shows "pub_Hold (cfg_Publisher cfg) < sqsDeduplicationWindow" "bo_Max (pub_Backoff (cfg_Publisher cfg)) < sqsDeduplicationWindow"
proof -
  note keeps = problems_member [OF LoadD(1) [OF assms]]
  have "problems src [(''PUBLISHER_HOLD'', WindowVar (30 * Second))] = []"
    "problems src [(''PUBLISHER_BACKOFF_MAX'', WindowVar Minute)] = []"
    by (rule keeps; simp add: variables_def)+
  then have "duration_or src ''PUBLISHER_HOLD'' (30 * Second) < sqsDeduplicationWindow"
    "duration_or src ''PUBLISHER_BACKOFF_MAX'' Minute < sqsDeduplicationWindow"
    by (simp_all add: problems_simps not_le split: if_splits)
  then have "pub_Hold (fst (run_state (read_publisher src) errs)) < sqsDeduplicationWindow"
    "bo_Max (pub_Backoff (fst (run_state (read_publisher src) errs))) < sqsDeduplicationWindow" for errs
    unfolding section_readers reads_value fst_conv publisher_settings.simps
    by (simp_all add: cfg_defaultPublisherBackoff_def)
  with config_parts(9) [of src] show "pub_Hold (cfg_Publisher cfg) < sqsDeduplicationWindow"
    "bo_Max (pub_Backoff (cfg_Publisher cfg)) < sqsDeduplicationWindow"
    unfolding LoadD(2) [OF assms] by metis+
qed

lemma newPublisher_waits:
  assumes "Load (Some src) = Inr cfg" "newPublisher (cfg_Publisher cfg) queue = Inr pb"
  shows "pb_hold pb = pub_Hold (cfg_Publisher cfg)" "pb_backoff pb = pub_Backoff (cfg_Publisher cfg)"
    "worker_backoff_validate (pb_backoff pb) = Inr ()"
proof -
  have "pub_Backoff (cfg_Publisher cfg) \<noteq> zero_backoff"
    by (rule schedule_loaded(3) [OF assms(1)]) (simp add: schedules_def)
  with assms(2) durations_loaded_all [OF assms(1)]
  show "pb_hold pb = pub_Hold (cfg_Publisher cfg)" "pb_backoff pb = pub_Backoff (cfg_Publisher cfg)"
    "worker_backoff_validate (pb_backoff pb) = Inr ()"
    by (auto simp: newPublisher_def publisherSettings_def NewPublisher_def Let_def orDefaultDuration_def
        split: if_splits sum.splits)
qed

text \<open>
  C17: a publisher built from the environment never waits out the deduplication window. Its claims
  are held, and an event that could not be sent waits, however often it was tried, for less than
  the five minutes in which the queue recognises the event's identifier; so sending it again is one
  message on the wire.
\<close>

theorem publisher_inside_window:
  assumes "Load (Some src) = Inr cfg" "newPublisher (cfg_Publisher cfg) queue = Inr pb" "arith_ok fa"
  shows "0 < pb_hold pb \<and> pb_hold pb < sqsDeduplicationWindow
    \<and> (\<forall>attempt. 0 < backoff_after fa (pb_backoff pb) attempt \<and> backoff_after fa (pb_backoff pb) attempt < sqsDeduplicationWindow)"
proof -
  note waits = newPublisher_waits [OF assms(1,2)]
  note window = window_loaded [OF assms(1)]
  have "bo_Max (pb_backoff pb) \<le> 2 ^ 53"
    using window(2) unfolding waits(2) by (simp add: sqsDeduplicationWindow_def Second_def)
  from backoff_after_between [OF assms(3) waits(3) this]
  have "bo_Initial (pb_backoff pb) \<le> backoff_after fa (pb_backoff pb) n \<and> backoff_after fa (pb_backoff pb) n \<le> bo_Max (pb_backoff pb)" for n .
  moreover have "0 < bo_Initial (pb_backoff pb)"
    using waits(3) by (auto simp: worker_backoff_validate_def split: if_splits)
  moreover have "bo_Max (pb_backoff pb) < sqsDeduplicationWindow" "pb_hold pb < sqsDeduplicationWindow"
    using window by (simp_all add: waits)
  moreover have "0 < pb_hold pb"
    using durations_loaded_all [OF assms(1)] by (simp add: waits)
  ultimately show ?thesis by (meson le_less_trans less_le_trans)
qed

text \<open>The schedule a publisher falls back to when it is given none would wait for the whole window.\<close>

lemma default_schedule_at_window: "bo_Max defaultPublisherBackoff = sqsDeduplicationWindow"
  by (simp add: defaultPublisherBackoff_def sqsDeduplicationWindow_def)

section \<open>An outage at start-up\<close>

lemma unresolved_probe:
  "q_url q = None \<Longrightarrow>
     queueReadiness_Ready \<lparr>qh_queue = q, qh_timeout = timeout\<rparr> s =
       (case Queue_OnStart q s of
          (Some err, q', s') \<Rightarrow> (Some err, \<lparr>qh_queue = q', qh_timeout = timeout\<rparr>, s')
        | (None, q', s') \<Rightarrow> (Health_Ready \<lparr>qh_queue = q', qh_timeout = timeout\<rparr> s', \<lparr>qh_queue = q', qh_timeout = timeout\<rparr>, s'))"
  by (simp add: queueReadiness_Ready_def Health_Ready_def queue_resolved_def AsUnretryable_def isClassified_def Let_def
      split: prod.split option.split)

text \<open>
  C24: a process started during an outage of the queue becomes ready by itself. Resolving the queue
  at start-up failed: then a worker does not start, and the API starts exactly when the failure is
  one that may pass, the queue still unresolved. From then on its probe reports whatever resolving
  fails with; the first probe that finds the queue answering resolves it and reports ready, without
  a restart, and any later probe reports what the queue answers.
\<close>

theorem outage_at_start_recovers:
  assumes unresolved: "q_url q = None" and name: "name = qs_name (q_settings q)" and client: "client = qs_client (q_settings q)"
    and failed: "cl_GetQueueUrl client name s = (Inl e, s1)"
  shows "resolveQueue q False s = (Some (sqs_failed e), q, s1)
    \<and> resolveQueue q True s = ((if sqs_retryable e then None else Some (sqs_failed e)), q, s1)
    \<and> (cl_GetQueueUrl client name t = (Inl e', t1) \<longrightarrow>
         queueReadiness_Ready \<lparr>qh_queue = q, qh_timeout = timeout\<rparr> t =
           (Some (sqs_failed e'), \<lparr>qh_queue = q, qh_timeout = timeout\<rparr>, t1))
    \<and> (cl_GetQueueUrl client name t = (Inr (Some url), t1) \<and> cl_GetQueueAttributes client url [''QueueArn''] t1 = None \<longrightarrow>
         queueReadiness_Ready \<lparr>qh_queue = q, qh_timeout = timeout\<rparr> t =
           (None, \<lparr>qh_queue = q\<lparr>q_url := Some url\<rparr>, qh_timeout = timeout\<rparr>, t1))
    \<and> (\<exists>err. queueReadiness_Ready \<lparr>qh_queue = q\<lparr>q_url := Some url\<rparr>, qh_timeout = timeout\<rparr> t =
         (err, \<lparr>qh_queue = q\<lparr>q_url := Some url\<rparr>, qh_timeout = timeout\<rparr>, t)
         \<and> err = map_option sqs_failed (cl_GetQueueAttributes client url [''QueueArn''] t))"
proof -
  have start: "Queue_OnStart q s = (Some (sqs_failed e), q, s1)"
    using failed by (simp add: Queue_OnStart_def name client)
  have "queueReadiness_Ready \<lparr>qh_queue = q, qh_timeout = timeout\<rparr> t =
      (Some (sqs_failed e'), \<lparr>qh_queue = q, qh_timeout = timeout\<rparr>, t1)"
    if "cl_GetQueueUrl client name t = (Inl e', t1)"
    using that by (simp add: unresolved_probe [OF unresolved] Queue_OnStart_def name client)
  moreover have "queueReadiness_Ready \<lparr>qh_queue = q, qh_timeout = timeout\<rparr> t =
      (None, \<lparr>qh_queue = q\<lparr>q_url := Some url\<rparr>, qh_timeout = timeout\<rparr>, t1)"
    if "cl_GetQueueUrl client name t = (Inr (Some url), t1)" "cl_GetQueueAttributes client url [''QueueArn''] t1 = None"
    using that by (simp add: unresolved_probe [OF unresolved] Queue_OnStart_def name client Health_Ready_def queue_resolved_def
        sqs_fail_def)
  moreover have other: "\<not> errors_Is (AsRetryable (Wrapped [])) ErrNotResolved" "\<not> errors_Is (AsUnretryable (Wrapped [])) ErrNotResolved"
    by (simp_all add: AsRetryable_def AsUnretryable_def isClassified_def)
  have "\<exists>err. queueReadiness_Ready \<lparr>qh_queue = q\<lparr>q_url := Some url\<rparr>, qh_timeout = timeout\<rparr> t =
      (err, \<lparr>qh_queue = q\<lparr>q_url := Some url\<rparr>, qh_timeout = timeout\<rparr>, t)
      \<and> err = map_option sqs_failed (cl_GetQueueAttributes client url [''QueueArn''] t)"
    by (cases "cl_GetQueueAttributes client url [''QueueArn''] t")
      (simp_all add: queueReadiness_Ready_def Health_Ready_def queue_resolved_def client sqs_fail_def other)
  moreover have "resolveQueue q False s = (Some (sqs_failed e), q, s1)"
    "resolveQueue q True s = ((if sqs_retryable e then None else Some (sqs_failed e)), q, s1)"
    using start by (simp_all add: resolveQueue_def)
  ultimately show ?thesis by blast
qed

section \<open>The documented minimum\<close>

definition required_variables :: "string list" where
  "required_variables = [''DATABASE_URL'', ''AWS_REGION'', ''OIDC_ISSUER'', ''OIDC_AUDIENCE'']"

definition named_variables :: "string list" where
  "named_variables = [''PUBLISHER_NAME'', ''HOSTNAME'']"

definition required_only :: "config_source \<Rightarrow> bool" where
  "required_only src \<longleftrightarrow> list_all (\<lambda>key. cfg_value src key \<noteq> None) required_variables
     \<and> (\<forall>key. key \<notin> set required_variables \<longrightarrow> key \<notin> set named_variables \<longrightarrow> cfg_value src key = None)"

lemma unset:
  "required_only src \<Longrightarrow> key \<notin> set required_variables \<Longrightarrow> key \<notin> set named_variables \<Longrightarrow> cfg_value src key = None"
  by (simp add: required_only_def)

definition unset_rule :: "rule \<Rightarrow> bool" where
  "unset_rule rule =
     (case rule of RequiredVar \<Rightarrow> False | PublisherNameVar \<Rightarrow> False | WindowVar d \<Rightarrow> d < sqsDeduplicationWindow | _ \<Rightarrow> True)"

lemma unset_keeps: "cfg_value src key = None \<Longrightarrow> unset_rule rule \<Longrightarrow> \<not> breaks src rule key"
  by (cases rule) (auto simp: unset_rule_def given_def duration_or_def)

lemma problems_given:
  assumes "list_all (\<lambda>(key, rule). key \<in> set keys \<or> unset_rule rule) vars"
    "\<forall>key. key \<notin> set keys \<longrightarrow> cfg_value src key = None"
  shows "problems src vars = problems src (filter (\<lambda>(key, rule). key \<in> set keys) vars)"
proof -
  have "filter (\<lambda>(key, rule). breaks src rule key) vars = filter (\<lambda>(key, rule). key \<in> set keys \<and> breaks src rule key) vars"
    using assms unset_keeps [of src] by (fastforce simp: list_all_iff intro!: filter_cong)
  then show ?thesis by (simp add: problems_def case_prod_beta' conj_commute)
qed

lemma minimum_problems:
  assumes "required_only src"
  shows "problems src variables =
    (if cfg_value src ''PUBLISHER_NAME'' = None \<and> cfg_value src ''HOSTNAME'' = None then [''PUBLISHER_NAME''] else [])"
proof -
  let ?keys = "required_variables @ named_variables"
  have "list_all (\<lambda>(key, rule). key \<in> set (required_variables @ named_variables) \<or> unset_rule rule) variables"
    by code_simp
  moreover have "\<forall>key. key \<notin> set ?keys \<longrightarrow> cfg_value src key = None"
    using assms by (simp add: required_only_def)
  ultimately have kept: "problems src variables = problems src (filter (\<lambda>(key, rule). key \<in> set ?keys) variables)"
    by (rule problems_given)
  moreover have "filter (\<lambda>(key, rule). key \<in> set (required_variables @ named_variables)) variables =
      [(''DATABASE_URL'', RequiredVar), (''AWS_REGION'', RequiredVar), (''OIDC_ISSUER'', RequiredVar),
       (''OIDC_AUDIENCE'', RequiredVar), (''PUBLISHER_NAME'', PublisherNameVar)]"
    by code_simp
  moreover have "\<exists>v. cfg_value src ''DATABASE_URL'' = Some v" "\<exists>v. cfg_value src ''AWS_REGION'' = Some v"
    "\<exists>v. cfg_value src ''OIDC_ISSUER'' = Some v" "\<exists>v. cfg_value src ''OIDC_AUDIENCE'' = Some v"
    using assms by (simp_all add: required_only_def required_variables_def)
  ultimately show ?thesis unfolding kept by (auto simp: problems_simps)
qed

text \<open>A variable that is not set is its default.\<close>

lemma unset_default:
  assumes "cfg_value src key = None"
  shows "fst (run_state (read_text src key t) errs) = t" "fst (run_state (read_count src key n) errs) = n"
    "fst (run_state (read_flag src key b) errs) = b" "fst (run_state (read_factor src key x) errs) = x"
    "duration_or src key d = d"
  using assms by (simp_all add: read_text_def read_count_def read_flag_def read_factor_def read_number_def read_bounded_def
      duration_or_def)

lemma unset_schedule:
  assumes "cfg_value src (part @ ''_BACKOFF_INITIAL'') = None" "cfg_value src (part @ ''_BACKOFF_FACTOR'') = None"
    "cfg_value src (part @ ''_BACKOFF_MAX'') = None"
  shows "fst (run_state (read_backoff src part b) errs) = b"
  using assms by (simp add: read_backoff_def case_prod_beta unset_default)

lemma minimum_reads:
  assumes "required_only src"
  shows "fst (run_state (read_wagering src) errs) =
      \<lparr>wag_Backoff = cfg_defaultWageringBackoff, wag_ReferenceAttempts = 20, wag_ReferenceTTL = 5 * Minute\<rparr>"
    "fst (run_state (read_consumer src) errs) =
      \<lparr>con_Enabled = True, con_Name = ''wager-consumer'', con_Concurrency = 4, con_Backoff = cfg_defaultConsumerBackoff,
       con_DrainTimeout = 20 * Second\<rparr>"
    "fst (run_state (read_publisher src) errs) =
      \<lparr>pub_Enabled = True, pub_Name = fst (run_state (read_publisherName src) errs), pub_Batch = 10, pub_Hold = 30 * Second,
       pub_Interval = Second, pub_Backoff = cfg_defaultPublisherBackoff, pub_DrainTimeout = 20 * Second\<rparr>"
    "fst (run_state (read_reference src) errs) =
      \<lparr>ref_Enabled = True, ref_Name = ''reference-worker'', ref_Interval = Second, ref_Backoff = cfg_defaultReferenceBackoff,
       ref_DrainTimeout = 20 * Second\<rparr>"
    "sqc_MaxMessages (fst (run_state (read_sqs src) errs)) = 10" "sqc_WaitTime (fst (run_state (read_sqs src) errs)) = 20 * Second"
    "sqc_VisibilityTimeout (fst (run_state (read_sqs src) errs)) = 30 * Second"
proof -
  note unset = unset [OF assms, unfolded required_variables_def named_variables_def]
  show "fst (run_state (read_wagering src) errs) =
      \<lparr>wag_Backoff = cfg_defaultWageringBackoff, wag_ReferenceAttempts = 20, wag_ReferenceTTL = 5 * Minute\<rparr>"
    "fst (run_state (read_consumer src) errs) =
      \<lparr>con_Enabled = True, con_Name = ''wager-consumer'', con_Concurrency = 4, con_Backoff = cfg_defaultConsumerBackoff,
       con_DrainTimeout = 20 * Second\<rparr>"
    "fst (run_state (read_reference src) errs) =
      \<lparr>ref_Enabled = True, ref_Name = ''reference-worker'', ref_Interval = Second, ref_Backoff = cfg_defaultReferenceBackoff,
       ref_DrainTimeout = 20 * Second\<rparr>"
    unfolding section_readers reads_value fst_conv by (simp_all add: unset_default unset_schedule unset)
  have "fst (run_state (read_publisherName src) errs) = fst (run_state (read_publisherName src) errs')" for errs errs'
    by (simp add: read_publisherName_def split: option.split)
  then show "fst (run_state (read_publisher src) errs) =
      \<lparr>pub_Enabled = True, pub_Name = fst (run_state (read_publisherName src) errs), pub_Batch = 10, pub_Hold = 30 * Second,
       pub_Interval = Second, pub_Backoff = cfg_defaultPublisherBackoff, pub_DrainTimeout = 20 * Second\<rparr>"
    unfolding section_readers reads_value fst_conv by (simp add: unset_default unset_schedule unset)
  show "sqc_MaxMessages (fst (run_state (read_sqs src) errs)) = 10" "sqc_WaitTime (fst (run_state (read_sqs src) errs)) = 20 * Second"
    "sqc_VisibilityTimeout (fst (run_state (read_sqs src) errs)) = 30 * Second"
    unfolding section_readers reads_value fst_conv sqs_config.simps by (simp_all add: unset_default unset)
qed

lemma minimum_parts:
  fixes src defines "cfg \<equiv> fst (run_state (read_config src) [])"
  assumes "required_only src"
  shows "wag_Backoff (cfg_Wagering cfg) = cfg_defaultWageringBackoff"
    "con_Enabled (cfg_Consumer cfg)" "con_Name (cfg_Consumer cfg) = ''wager-consumer''"
    "con_Backoff (cfg_Consumer cfg) = cfg_defaultConsumerBackoff"
    "pub_Enabled (cfg_Publisher cfg)" "pub_Batch (cfg_Publisher cfg) = 10"
    "pub_Backoff (cfg_Publisher cfg) = cfg_defaultPublisherBackoff"
    "ref_Enabled (cfg_Reference cfg)" "ref_Name (cfg_Reference cfg) = ''reference-worker''"
    "ref_Backoff (cfg_Reference cfg) = cfg_defaultReferenceBackoff"
    "sqc_MaxMessages (cfg_SQS cfg) = 10" "sqc_WaitTime (cfg_SQS cfg) = 20 * Second"
    "sqc_VisibilityTimeout (cfg_SQS cfg) = 30 * Second"
  using config_parts(4,7-10) [of src] minimum_reads [OF assms(2)] unfolding cfg_def by auto

lemma default_names: "opaqueID ''wager-consumer''" "\<not> blank ''reference-worker''"
proof -
  show "opaqueID ''wager-consumer''" unfolding opaqueID_iff by (rule opaque_ok_ascii; simp)
  show "\<not> blank ''reference-worker''" by (simp add: blank_def runes_ascii TrimSpace_def IsSpace_def)
qed

lemma default_schedules_ordered:
  "schedule_ordered cfg_defaultWageringBackoff" "schedule_ordered cfg_defaultConsumerBackoff"
  "schedule_ordered cfg_defaultPublisherBackoff" "schedule_ordered cfg_defaultReferenceBackoff"
  by (simp_all add: schedule_ordered_def default_schedules Second_def)

text \<open>
  C23: the documented minimum is enough for everything but a name. Told only the four variables
  without a default, and the name of the publisher or of its host, a process loads a configuration
  from which every loop is switched on and the processor, the write path, the consumer, the
  publisher, the reference worker and the inbound queue are all built. Told the four variables
  alone, it does not load, and the one variable named is the publisher's.
\<close>

theorem documented_minimum_starts:
  assumes "required_only src"
  shows "if cfg_value src ''PUBLISHER_NAME'' = None \<and> cfg_value src ''HOSTNAME'' = None
    then Load (Some src) = Inl [''PUBLISHER_NAME'']
    else \<exists>cfg p w co pb rw q. Load (Some src) = Inr cfg
      \<and> Worker cfg = Inr [fx_lifecycle cfg, QueueStartUp False, TelemetryPart, ConfigPart cfg, PostgresPart, SQSPart, AppPart,
           Checks [InboundFirst, OutboundFirst], ConsumerLoop, OutboxLoop, ReferenceLoop]
      \<and> newProcessor (cfg_Wagering cfg) = Inr p \<and> newWagering fa p (cfg_Wagering cfg) = Inr w
      \<and> newConsumer (cfg_Consumer cfg) (cfg_SQS cfg) queue = Inr co \<and> newPublisher (cfg_Publisher cfg) queue = Inr pb
      \<and> newReferenceWorker (cfg_Reference cfg) = Inr rw \<and> newInboundQueue client (cfg_SQS cfg) = Inr q"
proof -
  let ?cfg = "fst (run_state (read_config src) [])"
  note problems = minimum_problems [OF assms]
  have refused: "Load (Some src) = Inl [''PUBLISHER_NAME'']"
    if "cfg_value src ''PUBLISHER_NAME'' = None \<and> cfg_value src ''HOSTNAME'' = None"
    using run_config [of src "[]"] that by (simp add: Load_def case_prod_beta problems)
  note parts = minimum_parts [OF assms]
  have loaded: "Load (Some src) = Inr ?cfg"
    if "\<not> (cfg_value src ''PUBLISHER_NAME'' = None \<and> cfg_value src ''HOSTNAME'' = None)"
    using run_config [of src "[]"] that by (auto simp: Load_def case_prod_beta problems)
  have built: "\<exists>p w co pb rw q. newProcessor (cfg_Wagering ?cfg) = Inr p \<and> newWagering fa p (cfg_Wagering ?cfg) = Inr w
      \<and> newConsumer (cfg_Consumer ?cfg) (cfg_SQS ?cfg) queue = Inr co \<and> newPublisher (cfg_Publisher ?cfg) queue = Inr pb
      \<and> newReferenceWorker (cfg_Reference ?cfg) = Inr rw \<and> newInboundQueue client (cfg_SQS ?cfg) = Inr q"
    if load: "Load (Some src) = Inr ?cfg"
  proof -
    have "\<exists>co. newConsumer (cfg_Consumer ?cfg) (cfg_SQS ?cfg) queue = Inr co"
      using default_names default_schedules_ordered
      by (simp add: Consumer_loaded [OF load] parts cfg_defaultConsumerBackoff_def maxVisibility_def Second_def)
    moreover have "\<exists>pb. newPublisher (cfg_Publisher ?cfg) queue = Inr pb" "\<exists>rw. newReferenceWorker (cfg_Reference ?cfg) = Inr rw"
      "\<exists>w. newWagering fa p (cfg_Wagering ?cfg) = Inr w" for p
      using default_names default_schedules_ordered
      by (simp_all add: Publisher_loaded [OF load] Reference_loaded [OF load] Wagering_loaded [OF load] parts maxClaimBatch_def)
    moreover have "\<exists>q. newInboundQueue client (cfg_SQS ?cfg) = Inr q"
      by (simp add: Inbound_loaded [OF load] parts maxReceiveBatch_def maxWaitTime_def maxVisibilityTimeout_def Second_def)
    ultimately show ?thesis using Processor_loaded [OF load] by blast
  qed
  have "Worker ?cfg = Inr [fx_lifecycle ?cfg, QueueStartUp False, TelemetryPart, ConfigPart ?cfg, PostgresPart, SQSPart, AppPart,
      Checks [InboundFirst, OutboundFirst], ConsumerLoop, OutboxLoop, ReferenceLoop]"
    by (simp add: Worker_def checks_def parts)
  with refused loaded built show ?thesis by (cases "cfg_value src ''PUBLISHER_NAME'' = None \<and> cfg_value src ''HOSTNAME'' = None") auto
qed

lemma four_variables_only: "required_only four_variables"
  by (auto simp: required_only_def required_variables_def named_variables_def four_variables_given)

lemma four_variables_loaded:
  fixes queue :: "'q queue"
  defines "cfg \<equiv> fst (run_state (read_config four_variables) [])"
  shows "Load (Some four_variables) = Inr cfg" "\<exists>pb. newPublisher (cfg_Publisher cfg) queue = Inr pb"
    "\<exists>g. Worker cfg = Inr g"
proof -
  note parts = minimum_parts [OF four_variables_only, folded cfg_def]
  show load: "Load (Some four_variables) = Inr cfg"
    using run_config [of four_variables "[]"] by (simp add: Load_def case_prod_beta four_variables_accepted cfg_def)
  show "\<exists>pb. newPublisher (cfg_Publisher cfg) queue = Inr pb"
    using default_schedules_ordered by (simp add: Publisher_loaded [OF load] parts maxClaimBatch_def)
  show "\<exists>g. Worker cfg = Inr g" by (simp add: Worker_def parts)
qed

lemma documented_minimum_starts_witness:
  "\<exists>cfg p w. Load (Some four_variables) = Inr cfg \<and> newProcessor (cfg_Wagering cfg) = Inr p
    \<and> newWagering exact_arith p (cfg_Wagering cfg) = Inr w"
proof -
  fix queue :: "unit queue" and client :: "unit sqs_client"
  have "\<not> (cfg_value four_variables ''PUBLISHER_NAME'' = None \<and> cfg_value four_variables ''HOSTNAME'' = None)"
    by (simp add: four_variables_given)
  with documented_minimum_starts [OF four_variables_only, of exact_arith queue client] show ?thesis by auto
qed

section \<open>Exit codes\<close>

text \<open>
  The exit code says what failed. A process exits with the configuration's code exactly when a
  variable breaks its rule, and then built and started nothing; it exits cleanly exactly when its
  graph was built, started and stopped without an error; it exits as unclean exactly when it
  stopped with one. A worker told to run no loop never starts, whatever the framework does.
\<close>

theorem exit_code_says_what_failed:
  "(Run fx (Some src) graph = ExitConfig \<longleftrightarrow> problems src variables \<noteq> [])
   \<and> (Run fx (Some src) graph = ExitOK \<longleftrightarrow>
        (\<exists>cfg g. Load (Some src) = Inr cfg \<and> graph cfg = Inr g \<and> fx_Err fx g = None \<and> fx_Start fx g = None \<and> fx_Stop fx g = None))
   \<and> (Run fx (Some src) graph = ExitUnclean \<longleftrightarrow>
        (\<exists>cfg g. Load (Some src) = Inr cfg \<and> graph cfg = Inr g \<and> fx_Err fx g = None \<and> fx_Start fx g = None \<and> fx_Stop fx g \<noteq> None))
   \<and> (Run fx (Some src) Worker \<in> {ExitOK, ExitUnclean} \<longrightarrow>
        (\<exists>cfg loops. Load (Some src) = Inr cfg \<and> loops \<noteq> [] \<and> set loops \<subseteq> {ConsumerLoop, OutboxLoop, ReferenceLoop}
          \<and> Worker cfg = Inr ([fx_lifecycle cfg, QueueStartUp False, TelemetryPart, ConfigPart cfg, PostgresPart, SQSPart, AppPart,
               checks cfg] @ loops)))"
proof -
  have codes: "distinct [ExitOK, ExitFailed, ExitConfig, ExitUnclean]"
    by (simp add: ExitOK_def ExitFailed_def ExitConfig_def ExitUnclean_def)
  have "(\<exists>errs. Load (Some src) = Inl errs) \<longleftrightarrow> problems src variables \<noteq> []"
    using run_config [of src "[]"] by (simp add: Load_def case_prod_beta)
  then have "Run fx (Some src) graph = ExitConfig \<longleftrightarrow> problems src variables \<noteq> []"
    using codes by (auto simp: Run_def split: sum.splits)
  moreover have "Run fx (Some src) graph = ExitOK \<longleftrightarrow>
      (\<exists>cfg g. Load (Some src) = Inr cfg \<and> graph cfg = Inr g \<and> fx_Err fx g = None \<and> fx_Start fx g = None \<and> fx_Stop fx g = None)"
    "Run fx (Some src) graph = ExitUnclean \<longleftrightarrow>
      (\<exists>cfg g. Load (Some src) = Inr cfg \<and> graph cfg = Inr g \<and> fx_Err fx g = None \<and> fx_Start fx g = None \<and> fx_Stop fx g \<noteq> None)"
    using codes by (auto simp: Run_def split: sum.splits)
  moreover have "\<exists>cfg loops. Load (Some src) = Inr cfg \<and> loops \<noteq> [] \<and> set loops \<subseteq> {ConsumerLoop, OutboxLoop, ReferenceLoop}
      \<and> Worker cfg = Inr ([fx_lifecycle cfg, QueueStartUp False, TelemetryPart, ConfigPart cfg, PostgresPart, SQSPart, AppPart,
           checks cfg] @ loops)"
    if "Run fx (Some src) Worker \<in> {ExitOK, ExitUnclean}"
  proof (cases "Load (Some src)")
    case (Inr cfg)
    with that codes have "\<exists>g. Worker cfg = Inr g" by (auto simp: Run_def split: sum.splits)
    with Inr show ?thesis by (fastforce simp: Worker_def Let_def split: if_splits)
  qed (use that codes in \<open>auto simp: Run_def\<close>)
  ultimately show ?thesis by blast
qed


text \<open>A service that is away the first time it is asked and answers from then on; the state counts the questions.\<close>

definition away :: sdk_error where
  "away =
     \<lparr>sdk_context = False, sdk_api = None, sdk_status = Some 503, sdk_connection = False, sdk_timeout = False, sdk_noQueue = False\<rparr>"

definition away_once :: "nat sqs_client" where
  "away_once =
     \<lparr>cl_GetQueueUrl = (\<lambda>name asked.
        (if asked = 0 then Inl away else Inr (Some ''https://queue''), asked + 1)),
      cl_GetQueueAttributes = (\<lambda>_ _ _. None), cl_SendMessageBatch = (\<lambda>_ _ asked. (Inr \<lparr>Successful = [], Failed_entries = []\<rparr>, asked)),
      cl_ReceiveMessage = (\<lambda>_ asked. (Inr [], asked)), cl_DeleteMessage = (\<lambda>_ _ asked. (None, asked)),
      cl_ChangeMessageVisibility = (\<lambda>_ _ _ asked. (None, asked))\<rparr>"

definition away_queue :: "nat queue" where
  "away_queue =
     \<lparr>q_settings = \<lparr>qs_client = away_once, qs_name = ''wallet-events.fifo'', qs_resolveTimeout = 5, qs_maxMessages = 10,
        qs_waitTime = 20, qs_visibilityTimeout = None\<rparr>, q_url = None\<rparr>"

lemma what_is_left_to_constructors_witness:
  "\<exists>cfg a. Load (Some four_variables) = Inr cfg \<and> newAPI (cfg_HTTP cfg) = Inr a"
  using what_is_left_to_constructors [OF four_variables_loaded(1)] four_variables_loaded(1) by blast

lemma publisher_inside_window_witness:
  "\<exists>cfg pb. Load (Some four_variables) = Inr cfg \<and> newPublisher (cfg_Publisher cfg) away_queue = Inr pb
    \<and> pb_hold pb < sqsDeduplicationWindow"
proof -
  let ?cfg = "fst (run_state (read_config four_variables) [])"
  obtain pb where "newPublisher (cfg_Publisher ?cfg) away_queue = Inr pb"
    using four_variables_loaded(2) by blast
  with publisher_inside_window [OF four_variables_loaded(1) this exact_arith_ok] four_variables_loaded(1) show ?thesis by blast
qed

lemma outage_at_start_recovers_witness:
  "resolveQueue away_queue True 0 = (None, away_queue, 1)
   \<and> queueReadiness_Ready \<lparr>qh_queue = away_queue, qh_timeout = 2\<rparr> 1 =
       (None, \<lparr>qh_queue = away_queue\<lparr>q_url := Some ''https://queue''\<rparr>, qh_timeout = 2\<rparr>, 2)"
proof -
  have failed: "cl_GetQueueUrl away_once ''wallet-events.fifo'' 0 = (Inl away, 1)"
    and later: "cl_GetQueueUrl away_once ''wallet-events.fifo'' 1 = (Inr (Some ''https://queue''), 2)"
      "cl_GetQueueAttributes away_once ''https://queue'' [''QueueArn''] 2 = None"
    by (simp_all add: away_once_def numeral_2_eq_2)
  have "q_url away_queue = None" "''wallet-events.fifo'' = qs_name (q_settings away_queue)"
    "away_once = qs_client (q_settings away_queue)"
    by (simp_all add: away_queue_def)
  note start = outage_at_start_recovers [OF this failed, where t = 1 and url = "''https://queue''" and timeout = 2]
  have "sqs_retryable away" by (simp add: sqs_retryable_def away_def)
  with start later show ?thesis by presburger
qed

lemma exit_code_says_what_failed_witness:
  "Run \<lparr>fx_Err = \<lambda>_. None, fx_Start = \<lambda>_. None, fx_Stop = \<lambda>_. None\<rparr> (Some four_variables) Worker = ExitOK
   \<and> (\<exists>cfg loops. Load (Some four_variables) = Inr cfg \<and> loops \<noteq> [] \<and> set loops \<subseteq> {ConsumerLoop, OutboxLoop, ReferenceLoop})"
proof -
  let ?fx = "\<lparr>fx_Err = \<lambda>_. None, fx_Start = \<lambda>_. None, fx_Stop = \<lambda>_. None\<rparr>"
  have ok: "Run ?fx (Some four_variables) Worker = ExitOK"
    using four_variables_loaded(1,3) by (auto simp: Run_def)
  with exit_code_says_what_failed [of ?fx four_variables Worker] show ?thesis by blast
qed

end
