(* ===== verification/Migrations.thy ===== *)
theory Migrations
  imports AppErrors
begin

text \<open>
  The schema migrations and the command that runs them (\<^verbatim>\<open>src/internal/storage/postgres/migrate.go\<close>,
  \<^verbatim>\<open>src/cmd/migrate/main.go\<close>). The migration library, its driver and the database are a parameter:
  what each of their calls answers, and the database after it.
\<close>

section \<open>The migrator\<close>

datatype migrate_error = ErrNoChange | MigrateFailed driver_error

text \<open>
  An operation of the library is told whether the stop signal reaches it; \<open>ml_Version\<close> is the
  driver's, which answers \<^verbatim>\<open>NilVersion\<close> when nothing is applied. The last two are reading the
  embedded files and putting an instance together.
\<close>

record 'd migrate_library =
  ml_CreateSchema :: "'d \<Rightarrow> driver_error option \<times> 'd"
  ml_WithInstance :: "'d \<Rightarrow> driver_error option \<times> 'd"
  ml_Up :: "bool \<Rightarrow> 'd \<Rightarrow> migrate_error option \<times> 'd"
  ml_Down :: "bool \<Rightarrow> 'd \<Rightarrow> migrate_error option \<times> 'd"
  ml_Steps :: "int \<Rightarrow> bool \<Rightarrow> 'd \<Rightarrow> migrate_error option \<times> 'd"
  ml_Version :: "'d \<Rightarrow> driver_error + int \<times> bool"
  ml_Source :: "driver_error option"
  ml_Build :: "driver_error option"

definition NilVersion :: int where "NilVersion = -1"

text \<open>Whether the instance under the migrator is built.\<close>

record migrator =
  mg_instance :: bool

definition NewMigrator :: "(string \<Rightarrow> driver_error option) \<Rightarrow> string \<Rightarrow> migrator eres" where
  "NewMigrator connect dsn =
     (if dsn = [] then Inl (Wrapped [])
      else (case connect dsn of
              Some err \<Rightarrow> Inl (Wrapped [DriverErr err])
            | None \<Rightarrow> Inr \<lparr>mg_instance = False\<rparr>))"

definition migrator_instance :: "'d migrate_library \<Rightarrow> migrator \<Rightarrow> 'd \<Rightarrow> unit eres \<times> migrator \<times> 'd" where
  "migrator_instance lib mg db =
     (if mg_instance mg then (Inr (), mg, db)
      else (case ml_CreateSchema lib db of
              (Some err, db') \<Rightarrow> (Inl (Wrapped [DriverErr err]), mg, db')
            | (None, db') \<Rightarrow>
                (case ml_WithInstance lib db' of
                   (Some err, db'') \<Rightarrow> (Inl (Wrapped [DriverErr err]), mg, db'')
                 | (None, db'') \<Rightarrow>
                     (case ml_Source lib of
                        Some err \<Rightarrow> (Inl (Wrapped [DriverErr err]), mg, db'')
                      | None \<Rightarrow>
                          (case ml_Build lib of
                             Some err \<Rightarrow> (Inl (Wrapped [DriverErr err]), mg, db'')
                           | None \<Rightarrow> (Inr (), mg\<lparr>mg_instance := True\<rparr>, db''))))))"

text \<open>\<open>ended\<close> is how the context ended before the operation was done, if it did.\<close>

definition migrator_run ::
  "'d migrate_library \<Rightarrow> driver_error option \<Rightarrow> (bool \<Rightarrow> 'd \<Rightarrow> migrate_error option \<times> 'd) \<Rightarrow> migrator \<Rightarrow> 'd
    \<Rightarrow> go_error option \<times> migrator \<times> 'd" where
  "migrator_run lib ended op mg db =
     (case migrator_instance lib mg db of
        (Inl err, mg', db') \<Rightarrow> (Some err, mg', db')
      | (Inr _, mg', db') \<Rightarrow>
          (case ended of
             None \<Rightarrow>
               (case op False db' of
                  (Some (MigrateFailed err), db'') \<Rightarrow> (Some (Wrapped [DriverErr err]), mg', db'')
                | (Some ErrNoChange, db'') \<Rightarrow> (None, mg', db'')
                | (None, db'') \<Rightarrow> (None, mg', db''))
           | Some err \<Rightarrow> (Some (Wrapped [DriverErr err]), mg', snd (op True db'))))"

definition Migrator_Up :: "'d migrate_library \<Rightarrow> driver_error option \<Rightarrow> migrator \<Rightarrow> 'd \<Rightarrow> go_error option \<times> migrator \<times> 'd" where
  "Migrator_Up lib ended = migrator_run lib ended (ml_Up lib)"

definition Migrator_Down :: "'d migrate_library \<Rightarrow> driver_error option \<Rightarrow> migrator \<Rightarrow> 'd \<Rightarrow> go_error option \<times> migrator \<times> 'd" where
  "Migrator_Down lib ended = migrator_run lib ended (ml_Down lib)"

definition Migrator_Steps ::
  "'d migrate_library \<Rightarrow> driver_error option \<Rightarrow> int \<Rightarrow> migrator \<Rightarrow> 'd \<Rightarrow> go_error option \<times> migrator \<times> 'd" where
  "Migrator_Steps lib ended n = migrator_run lib ended (ml_Steps lib n)"

definition Migrator_Version :: "'d migrate_library \<Rightarrow> migrator \<Rightarrow> 'd \<Rightarrow> (int \<times> bool) eres \<times> migrator \<times> 'd" where
  "Migrator_Version lib mg db =
     (case migrator_instance lib mg db of
        (Inl err, mg', db') \<Rightarrow> (Inl err, mg', db')
      | (Inr _, mg', db') \<Rightarrow>
          ((case ml_Version lib db' of
              Inl err \<Rightarrow> Inl (Wrapped [DriverErr err])
            | Inr (applied, dirty) \<Rightarrow>
                if applied = NilVersion then Inr (0, dirty)
                else Inr (applied mod 2 ^ 64, dirty)), mg', db'))"

section \<open>The command\<close>

text \<open>
  \<^verbatim>\<open>flag.Parse\<close> over a set holding one string flag: the value it ends with and the arguments left,
  or nothing when parsing fails. A lone dash or a word that starts with none ends it, and so does a
  double dash, which is dropped.
\<close>

definition split_flag :: "string \<Rightarrow> string \<times> string option" where
  "split_flag name =
     (takeWhile (\<lambda>ch. ch \<noteq> CHR ''='') name,
      case dropWhile (\<lambda>ch. ch \<noteq> CHR ''='') name of [] \<Rightarrow> None | _ # v \<Rightarrow> Some v)"

function flag_Parse :: "string \<Rightarrow> string \<Rightarrow> string list \<Rightarrow> (string \<times> string list) option" where
  "flag_Parse name value [] = Some (value, [])"
| "flag_Parse name value (arg # args) =
     (if length arg < 2 \<or> hd arg \<noteq> CHR ''-'' then Some (value, arg # args)
      else if arg = ''--'' then Some (value, args)
      else (let body = (if arg ! 1 = CHR ''-'' then drop 2 arg else drop 1 arg)
            in if body = [] \<or> hd body = CHR ''-'' \<or> hd body = CHR ''='' then None
               else (case split_flag body of
                       (key, given) \<Rightarrow>
                         if key \<noteq> name then None
                         else (case given of
                                 Some v \<Rightarrow> flag_Parse name v args
                               | None \<Rightarrow> (case args of [] \<Rightarrow> None | v # args' \<Rightarrow> flag_Parse name v args')))))"
  by pat_completeness auto

termination by (relation "measure (\<lambda>(_, _, args). length args)") auto

definition exitOK :: int where "exitOK = 0"
definition exitFailed :: int where "exitFailed = 1"
definition exitUsage :: int where "exitUsage = 2"

text \<open>What a run prints to the standard output, and the database it leaves; what goes to the standard error is left out.\<close>

definition report :: "'d migrate_library \<Rightarrow> migrator \<Rightarrow> 'd \<Rightarrow> int \<times> string \<times> 'd" where
  "report lib mg db =
     (case Migrator_Version lib mg db of
        (Inl err, _, db') \<Rightarrow> (exitFailed, [], db')
      | (Inr (version, dirty), _, db') \<Rightarrow>
          if dirty then (exitFailed, [], db')
          else (exitOK, show_nat (nat version) @ [CHR 0x0A], db'))"

definition reportTo :: "'d migrate_library \<Rightarrow> migrator \<Rightarrow> 'd \<Rightarrow> 'd" where
  "reportTo lib mg db = snd (snd (Migrator_Version lib mg db))"

definition migrate_steps :: "string \<Rightarrow> string list \<Rightarrow> int option" where
  "migrate_steps command rest =
     (if command = ''steps''
      then (case rest of
              [n] \<Rightarrow> (case ParseInt n of Inl _ \<Rightarrow> None | Inr k \<Rightarrow> Some (sint k))
            | _ \<Rightarrow> None)
      else Some 0)"

definition migrate_operation ::
  "'d migrate_library \<Rightarrow> driver_error option \<Rightarrow> string \<Rightarrow> int \<Rightarrow> migrator \<Rightarrow> 'd \<Rightarrow> (go_error option \<times> migrator \<times> 'd) option" where
  "migrate_operation lib ended command n mg db =
     (if command = ''up'' then Some (Migrator_Up lib ended mg db)
      else if command = ''down'' then Some (Migrator_Down lib ended mg db)
      else if command = ''steps'' then Some (Migrator_Steps lib ended n mg db)
      else if command = ''version'' then Some (None, mg, db)
      else None)"

definition migrate_command ::
  "'d migrate_library \<Rightarrow> (string \<Rightarrow> driver_error option) \<Rightarrow> string \<Rightarrow> driver_error option \<Rightarrow> string list \<Rightarrow> 'd
    \<Rightarrow> int \<times> string \<times> 'd" where
  "migrate_command lib connect url ended args db =
     (case flag_Parse ''database'' url args of
        None \<Rightarrow> (exitUsage, [], db)
      | Some (database, []) \<Rightarrow> (exitUsage, [], db)
      | Some (database, command # rest) \<Rightarrow>
          if database = [] then (exitUsage, [], db)
          else (case migrate_steps command rest of
                  None \<Rightarrow> (exitUsage, [], db)
                | Some n \<Rightarrow>
                    (case NewMigrator connect database of
                       Inl err \<Rightarrow> (exitFailed, [], db)
                     | Inr mg \<Rightarrow>
                         (case migrate_operation lib ended command n mg db of
                            None \<Rightarrow> (exitUsage, [], db)
                          | Some (Some err, mg', db') \<Rightarrow> (exitFailed, [], reportTo lib mg' db')
                          | Some (None, mg', db') \<Rightarrow> report lib mg' db'))))"

section \<open>What the exit code says\<close>

lemma migrate_codes [simp]: "exitOK \<noteq> exitFailed" "exitOK \<noteq> exitUsage" "exitFailed \<noteq> exitUsage" "exitUsage \<noteq> exitOK" "exitFailed \<noteq> exitOK"
  by (simp_all add: exitOK_def exitFailed_def exitUsage_def)

lemma Version_tells:
  assumes "Migrator_Version lib mg db = (Inr (v, dirty), mg', db')"
  shows "\<exists>applied. ml_Version lib db' = Inr (applied, dirty) \<and> v = (if applied = NilVersion then 0 else applied mod 2 ^ 64)"
  using assms by (auto simp: Migrator_Version_def split: prod.splits sum.splits if_splits)

lemma report_tells:
  assumes "report lib mg db = (c, out, db')"
  shows "c \<noteq> exitUsage" "c = exitFailed \<Longrightarrow> out = []"
    "c = exitOK \<Longrightarrow> \<exists>applied. ml_Version lib db' = Inr (applied, False)
      \<and> out = show_nat (nat (if applied = NilVersion then 0 else applied mod 2 ^ 64)) @ [CHR 0x0A]"
  using assms by (auto simp: report_def split: prod.splits sum.splits if_splits dest!: Version_tells)

lemma instance_once:
  "migrator_instance lib mg db = (Inr u, mg', db') \<Longrightarrow> mg_instance mg' \<and> (\<forall>d. migrator_instance lib mg' d = (Inr (), mg', d))"
  by (auto simp: migrator_instance_def split: prod.splits option.splits if_splits)

lemma run_interrupted: "migrator_run lib (Some e) op mg db \<noteq> (None, mg', db')"
  by (auto simp: migrator_run_def split: prod.splits sum.splits)

lemma operation_interrupted:
  assumes "migrate_operation lib ended command n mg db = Some (None, mg', db')" "ended \<noteq> None"
  shows "command = ''version''"
proof -
  obtain e where "ended = Some e" using assms(2) by blast
  then have no: "migrator_run lib ended op mg db \<noteq> (None, mg', db')" for op by (simp add: run_interrupted)
  have "migrate_operation lib ended command n mg db \<noteq> Some (None, mg', db')" if "command \<noteq> ''version''"
    unfolding migrate_operation_def Migrator_Up_def Migrator_Down_def Migrator_Steps_def
    using that by (simp add: no)
  with assms(1) show ?thesis by blast
qed

text \<open>A run ends at one of its refusals, at a failed operation, or with the report.\<close>

lemma command_outcome:
  assumes "migrate_command lib connect url ended args db = (c, out, db')"
  shows "(c = exitUsage \<and> out = [] \<and> db' = db) \<or> (c = exitFailed \<and> out = []) \<or>
    (\<exists>database command rest n mg mg' d. flag_Parse ''database'' url args = Some (database, command # rest)
      \<and> migrate_operation lib ended command n mg db = Some (None, mg', d) \<and> report lib mg' d = (c, out, db'))"
proof (cases "\<exists>database command rest. flag_Parse ''database'' url args = Some (database, command # rest) \<and> database \<noteq> []")
  case True
  then obtain database command rest where parsed: "flag_Parse ''database'' url args = Some (database, command # rest)" "database \<noteq> []"
    by blast
  show ?thesis
  proof (cases "\<exists>n mg. migrate_steps command rest = Some n \<and> NewMigrator connect database = Inr mg")
    case True
    then obtain n mg where "migrate_steps command rest = Some n" "NewMigrator connect database = Inr mg" by blast
    with parsed assms show ?thesis
      by (cases "migrate_operation lib ended command n mg db") (auto simp: migrate_command_def split: option.splits)
  next
    case False
    with parsed assms show ?thesis by (auto simp: migrate_command_def split: option.splits sum.splits)
  qed
next
  case False
  then have "flag_Parse ''database'' url args = None \<or> (\<exists>database. flag_Parse ''database'' url args = Some (database, []))
      \<or> (\<exists>command rest. flag_Parse ''database'' url args = Some ([], command # rest))"
    by (cases "flag_Parse ''database'' url args"; cases "snd (the (flag_Parse ''database'' url args))") auto
  with assms show ?thesis by (auto simp: migrate_command_def)
qed

text \<open>
  C27: the migration command tells the truth about the database. It exits cleanly only when the
  database it leaves is not dirty, and then prints exactly the version that database is at, nought
  when nothing is applied; a database left dirty, an operation that was interrupted, and one whose
  version cannot be read never exit cleanly, and then no version is printed; a usage error leaves
  the database as it was.
\<close>

theorem migrate_tells_the_truth:
  assumes "migrate_command lib connect url ended args db = (c, out, db')"
  shows "c \<in> {exitOK, exitFailed, exitUsage}
    \<and> (c = exitOK \<longrightarrow> (\<exists>applied. ml_Version lib db' = Inr (applied, False)
         \<and> out = show_nat (nat (if applied = NilVersion then 0 else applied mod 2 ^ 64)) @ [CHR 0x0A]))
    \<and> (c = exitUsage \<longrightarrow> db' = db) \<and> (c \<noteq> exitOK \<longrightarrow> out = [])
    \<and> (\<forall>applied. ml_Version lib db' = Inr (applied, True) \<longrightarrow> c \<noteq> exitOK)
    \<and> (c = exitOK \<and> ended \<noteq> None \<longrightarrow>
         (\<exists>database rest. flag_Parse ''database'' url args = Some (database, ''version'' # rest)))"
proof -
  have operated: ?thesis
    if "flag_Parse ''database'' url args = Some (database, command # rest)"
      "migrate_operation lib ended command n mg db = Some (None, mg', d)" "report lib mg' d = (c, out, db')"
    for database command rest n mg mg' d
  proof -
    have "c \<in> {exitOK, exitFailed}" using that(3) by (auto simp: report_def split: prod.splits sum.splits if_splits)
    moreover have "ended \<noteq> None \<Longrightarrow> command = ''version''" by (rule operation_interrupted [OF that(2)])
    ultimately show ?thesis using report_tells [OF that(3)] that(1) by fastforce
  qed
  from command_outcome [OF assms] show ?thesis
  proof (elim disjE exE conjE)
    fix database command rest n mg mg' d
    assume "flag_Parse ''database'' url args = Some (database, command # rest)"
      "migrate_operation lib ended command n mg db = Some (None, mg', d)" "report lib mg' d = (c, out, db')"
    then show ?thesis by (rule operated)
  qed auto
qed

text \<open>A database of ten migrations, three of them applied, and a library that applies them all.\<close>

definition sample_library :: "(int \<times> bool) migrate_library" where
  "sample_library =
     \<lparr>ml_CreateSchema = (\<lambda>d. (None, d)), ml_WithInstance = (\<lambda>d. (None, d)),
      ml_Up = (\<lambda>stop d. if fst d = 10 then (Some ErrNoChange, d) else (None, (10, False))),
      ml_Down = (\<lambda>stop d. (None, (NilVersion, False))), ml_Steps = (\<lambda>n stop d. (None, (fst d + n, False))),
      ml_Version = Inr, ml_Source = None, ml_Build = None\<rparr>"

lemma migrate_tells_the_truth_witness:
  "\<exists>out. migrate_command sample_library (\<lambda>_. None) ''postgres://ledger'' None [''up''] (3, False) = (exitOK, out, (10, False))
     \<and> out = show_nat 10 @ [CHR 0x0A]"
proof -
  have run: "migrate_command sample_library (\<lambda>_. None) ''postgres://ledger'' None [''up''] (3, False)
      = (exitOK, show_nat 10 @ [CHR 0x0A], (10, False))"
    by (simp add: migrate_command_def migrate_steps_def migrate_operation_def Migrator_Up_def migrator_run_def NewMigrator_def
        migrator_instance_def report_def Migrator_Version_def sample_library_def NilVersion_def)
  from migrate_tells_the_truth [OF this]
  have "\<exists>applied. ml_Version sample_library (10, False) = Inr (applied, False)
      \<and> show_nat 10 @ [CHR 0x0A] = show_nat (nat (if applied = NilVersion then 0 else applied mod 2 ^ 64)) @ [CHR 0x0A]"
    by blast
  with run show ?thesis by blast
qed

end
