(* ===== verification/TraceMember.thy ===== *)
theory TraceMember
  imports AppErrors
begin

text \<open>
  The trace member of a stored event (\<^verbatim>\<open>src/internal/adapters/postgres/outbox.go\<close>): how the context
  of a trace is spliced into a rendered envelope. The rendering of the carried values is
  \<^verbatim>\<open>encoding/json\<close>'s and a parameter.
\<close>

definition traceMember :: string where "traceMember = ''$trace''"

definition withTrace ::
  "((string \<times> string) list \<Rightarrow> go_error + string) \<Rightarrow> string \<Rightarrow> (string \<times> string) list \<Rightarrow> string eres" where
  "withTrace marshal body carried =
     (if carried = [] then Inr body
      else if length body < 2 \<or> hd body \<noteq> CHR ''{'' \<or> last body \<noteq> CHR ''}'' then Inl (Wrapped [])
      else bindE (marshal carried) (\<lambda>trace.
        Inr (butlast body @ (if length body > 2 then '','' else []) @ [CHR 0x22] @ traceMember @ [CHR 0x22, CHR '':'']
          @ trace @ ''}'')))"

text \<open>The members of a rendered object: what stands between its braces.\<close>

definition object_of :: "string list \<Rightarrow> string" where
  "object_of members = ''{'' @ concat (case members of [] \<Rightarrow> [] | m # ms \<Rightarrow> m # map ((@) '','') ms) @ ''}''"

text \<open>
  Splicing into an object of whatever members gives the object of the same members, byte for byte
  and in their order, with the trace as one more at the end; no member, no separator. Nothing
  carried rewrites nothing.
\<close>

lemma withTrace_appends:
  assumes "marshal carried = Inr trace" "carried \<noteq> []" "list_all (\<lambda>m. m \<noteq> []) members"
  shows "withTrace marshal (object_of members) carried =
    Inr (object_of (members @ [[CHR 0x22] @ traceMember @ [CHR 0x22, CHR '':''] @ trace]))"
proof (cases members)
  case Nil
  with assms show ?thesis by (simp add: withTrace_def object_of_def)
next
  case (Cons m ms)
  then have "m \<noteq> []" using assms(3) by simp
  then have "0 < length m" by simp
  with Cons assms show ?thesis
    by (simp add: withTrace_def object_of_def butlast_append)
qed

lemma withTrace_nothing: "withTrace marshal body [] = Inr body"
  by (simp add: withTrace_def)

lemma withTrace_refuses:
  "carried \<noteq> [] \<Longrightarrow> hd body \<noteq> CHR ''{'' \<Longrightarrow> withTrace marshal body carried = Inl (Wrapped [])"
  by (simp add: withTrace_def)

end
