(* ===== verification/Faults.thy ===== *)
theory Faults
  imports Main
begin

text \<open>
  The fault points a recovery test kills the process at (\<^verbatim>\<open>src/internal/faults/faults.go\<close>). The
  environment variable is read on every call, so its value is an argument of the call; \<open>warned\<close> is
  the state of \<^verbatim>\<open>warnOnce\<close>.
\<close>

definition ExitCode :: int where "ExitCode = 99"

definition points :: "string list" where
  "points =
     [''after_commit_before_ack'', ''after_publish_before_mark'', ''after_claim_before_publish'',
      ''after_pending_commit'', ''before_commit'']"

datatype fault_line = Fired string | NamesNoPoint string

text \<open>The status the process exits with, if it does; what is printed; whether the warning was given.\<close>

definition Hit :: "string \<Rightarrow> string \<Rightarrow> bool \<Rightarrow> int option \<times> fault_line list \<times> bool" where
  "Hit armed name warned =
     (if armed = [] then (None, [], warned)
      else if armed = name then (Some ExitCode, [Fired name], warned)
      else if armed \<notin> set points
      then (None, if warned then [] else [NamesNoPoint armed], True)
      else (None, [], warned))"

text \<open>The points a process passes, in order, until it exits.\<close>

fun hits :: "string \<Rightarrow> string list \<Rightarrow> bool \<Rightarrow> int option \<times> fault_line list" where
  "hits armed [] warned = (None, [])"
| "hits armed (name # names) warned =
     (case Hit armed name warned of
        (Some code, lines, _) \<Rightarrow> (Some code, lines)
      | (None, lines, warned') \<Rightarrow>
          (case hits armed names warned' of (r, lines') \<Rightarrow> (r, lines @ lines')))"

lemma hits_unarmed: "hits [] names warned = (None, [])"
  by (induction names arbitrary: warned) (simp_all add: Hit_def)

lemma hits_known:
  "armed \<in> set points \<Longrightarrow>
     hits armed names warned = (if armed \<in> set names then (Some ExitCode, [Fired armed]) else (None, []))"
  by (induction names arbitrary: warned) (auto simp: Hit_def points_def)

lemma hits_warned: "armed \<notin> set points \<Longrightarrow> armed \<notin> set names \<Longrightarrow> hits armed names True = (None, [])"
  by (induction names) (auto simp: Hit_def)

text \<open>
  A process passing only known points exits exactly when the armed one is among them; a name that is
  no point never ends it, and is reported once however many points are passed.
\<close>

lemma fault_fires_exactly:
  assumes "set names \<subseteq> set points"
  shows "hits armed names False =
    (if armed \<in> set names then (Some ExitCode, [Fired armed])
     else if armed = [] \<or> armed \<in> set points \<or> names = [] then (None, [])
     else (None, [NamesNoPoint armed]))"
proof (cases "armed = [] \<or> armed \<in> set points")
  case True
  moreover have "[] \<notin> set points" by (simp add: points_def)
  ultimately show ?thesis using assms by (auto simp: hits_unarmed hits_known)
next
  case False
  with assms have "armed \<notin> set names" by blast
  with False show ?thesis by (cases names) (auto simp: Hit_def hits_warned)
qed

end
