(* ===== verification/Spec2Isabelle.thy ===== *)
theory Spec2Isabelle
  imports Guarantees Publication Ingestion Resumption Api Startup Migrations TraceMember Faults
begin

text \<open>
  A verification library for the wagering service (\<^verbatim>\<open>src/\<close>, in Go): the wallet engine, the
  application around it, the tables it commits to, the queue and HTTP adapters, the workers, and
  how a process is configured and started.

  \<^bold>\<open>The program.\<close> Game providers submit bets, wins, losses, refunds and rollbacks against a
  player's wallet, over HTTP with a bearer token or over an inbound queue. A submission becomes a
  command, which is validated, fingerprinted and recorded as a wager transaction; the processor
  decides from the wallet and from the transaction the command refers to whether to apply it,
  reject it for good or park it until the reference arrives. Money moves only through the wallet,
  which returns the ledger entry of every change. One database transaction commits the wallet, the
  entry, the wager transaction, the inbox row of a message and the outbox rows of its events. A
  publisher sends the outbox to an outbound queue, a reference worker carries parked operations
  forward, and reconciliation compares a wallet with the sum of its ledger.

  \<^bold>\<open>The domain\<close> (\<^verbatim>\<open>internal/domain\<close>).
  \<^item> \<open>Prelude\<close>: the result monad, 64-bit integers at their width, instants, and the locales of
    systems that change step by step. \<open>Go_Stdlib\<close>, \<open>Go_Text\<close>, \<open>Go_Duration\<close>, \<open>Sha256\<close>: what the sources
    use of the standard library.
  \<^item> \<open>Failure\<close>, \<open>Money\<close>, \<open>Ids\<close>, \<open>Kinds\<close>, \<open>Ledger\<close>, \<open>Command\<close>, \<open>Idempotency\<close>: codes, amounts, identifiers,
    the enumerations with their tables, the entry, validation, the canonical payload byte by byte.
  \<^item> \<open>Transaction\<close>, \<open>Snapshot\<close>, \<open>Events\<close>, \<open>Wallet\<close>, \<open>Reference\<close>, \<open>Processor\<close>, \<open>Reconcile\<close>: one theory per
    source file; \<open>Processing\<close> is what the processor guarantees.

  \<^bold>\<open>The application\<close> (\<^verbatim>\<open>internal/app\<close>).
  \<^item> \<open>AppErrors\<close>, \<open>Principal\<close>, \<open>Cursor\<close>, \<open>Backoff\<close>, \<open>Envelope\<close>: classification, rights, the page cursor,
    the retry schedule, the published form of an event.
  \<^item> \<open>UseCases\<close> (\<^verbatim>\<open>wagering.go\<close>), \<open>WalletCases\<close> (\<^verbatim>\<open>wallets.go\<close>): every use case over the store, statement
    by statement. Reads made before a lock take the state they saw as an argument of their own
    (\<open>views\<close>), so what committed in between is any state.
  \<^item> \<open>StoreInv\<close>, \<open>Statements\<close>, \<open>Books\<close>, \<open>Service\<close>, \<open>Reachable\<close>: the invariant of the store, that every
    statement and every use case keeps it, and the service as a system of steps. \<open>Replays\<close>, \<open>Progress\<close>,
    \<open>Paging\<close>: submitting again, that a new operation is settled, reading page by page. \<open>Samples\<close> are
    the values the witnesses use; \<open>Guarantees\<close> states the results.

  \<^bold>\<open>The adapters\<close> (\<^verbatim>\<open>internal/adapters\<close>, \<^verbatim>\<open>migrations\<close>, \<^verbatim>\<open>internal/storage\<close>).
  \<^item> \<open>Rows\<close>, \<open>Postgres\<close>: stored forms; the statements with the unique keys, guards and deferred checks
    of the schema. \<open>TxRun\<close>: a transaction over a failing connection, a lost commit included, its
    timeouts, the pool. \<open>Claims\<close>: the publisher's statements. \<open>TraceMember\<close>: the trace in a stored event. \<open>Migrations\<close>: the migrator and its command.
  \<^item> \<open>Sqs\<close>, \<open>SqsSend\<close>: the queue adapter. \<open>Oidc\<close>, \<open>Tokens\<close>: the token adapter and what an accepted
    credential proves. \<open>Http\<close>, \<open>Api\<close>, \<open>Server\<close>: the HTTP adapter, what it promises, and its server.

  \<^bold>\<open>The processes\<close> (\<^verbatim>\<open>internal/workers\<close>, \<^verbatim>\<open>internal/config\<close>, \<^verbatim>\<open>internal/fxmod\<close>, \<^verbatim>\<open>internal/faults\<close>).
  \<^item> \<open>Workers\<close>, \<open>Publishing\<close>, \<open>Consumer\<close>, \<open>ReferenceWorker\<close>: the loops, one turn at a time. \<open>Delivery\<close>,
    \<open>Publication\<close>, \<open>Ingestion\<close>, \<open>Resumption\<close>: what they guarantee, several of them interleaved.
  \<^item> \<open>Config\<close>, \<open>Loading\<close>: reading the environment and what loading promises. \<open>Wiring\<close>, \<open>Startup\<close>: what the
    composition root makes of it, and what follows for a process. \<open>Faults\<close>: the fault points.

  \<^bold>\<open>How code becomes definitions.\<close> A struct is a record with its fields in source order; an
  enumeration is a datatype with one constructor per declared constant and one for any other
  string; a fallible function returns an error on the left of a sum. A method with a pointer
  receiver returns the changed value; the processor, whose error paths can follow a mutation,
  returns the transaction and the wallet as they stand together with its result. A nil pointer is
  \<open>None\<close>. Strings are lists of bytes. An instant is a number of nanoseconds in which zero is Go's zero
  time; a column keeps the microseconds of it that are complete, which \<open>micros\<close> and \<open>instant_of\<close> spell
  out, and a count that has four bytes is kept in four. The store is a record of tables; a statement
  is a function of it that applies the constraints the schema declares. A dependency that is only
  looked at for being given is an optional unit.

  \<^bold>\<open>What is shown.\<close>
  \<^item> The domain: one spelling of an amount and exact arithmetic; an injective payload; exact
    validation and rehydration; a transaction keeps its invariant and a terminal one never changes;
    waiting is bounded and ends; a movement changes balance, version and entry together or not at
    all; a reference is reversed at most once per kind.
  \<^item> The service: in every reachable store each wallet reconciles with its ledger; history only
    grows and settled answers are final; a submission refines the domain's verdict; a repeated one,
    also after a lost commit, from another transport or on a redelivered message, is answered from
    the record and changes nothing; keys name one payload.
  \<^item> The workers: a batch is handled in order; the first sends of a wallet's events follow the
    outbox however the single statements and sends of publishers interleave, with nothing assumed of
    their order, clocks or survival, and a whole turn is a sequence of such steps; the oldest due
    event is published when nothing fails; the reference worker comes to rest.
  \<^item> The edges: what a token must prove and how often its issuer is asked; the shape of every
    answer, what a caller without a credential can learn, and which requests can change anything;
    the limits of a send; the truth of what a send and a migration report.
  \<^item> Starting: loading refuses exactly the variables that break a rule; what it accepts is within
    bounds, builds every component under conditions that are stated, and keeps the publisher's
    waits inside the window of the queue; a minimal environment starts; an outage at start-up is
    survived by the API and recovered from.

  \<^bold>\<open>Interfaces.\<close> \<open>prefix_code\<close> is what the canonical payload needs of the encoding of a value;
  \<open>book\<close> the contract between an account and its ledger; \<open>submitter\<close> what the consumer relies on of
  the application, and \<open>application\<close> what the HTTP adapter does; \<open>transition_system\<close> and
  \<open>settling_system\<close> are interpreted on the life of a transaction, its wait budget, the service, the
  fleet of publishers, the key cache and the server. Each is interpreted on the model's own definitions.

  \<^bold>\<open>Parameters and assumptions.\<close> Minted identifiers and clock readings are inputs. Parameters, by
  record: \<^verbatim>\<open>uuid.Parse\<close>; 64-bit floating point (rounding and powers, \<open>arith_ok\<close>: monotone, exact on
  small integers); the SDK client of the queue (\<open>fifo_contract\<close>: what it answers as sent it holds);
  the JSON decoders and encoder; the JOSE library, URL parsing and the network of the token adapter;
  float and URL parsing of the environment; the migration library; the dependency-injection
  framework, as what building, starting and stopping a graph comes to. Properties over the life of a
  transaction ask for a clock that does not run backwards only where they need it, because the state
  machine does not check it; the service reads a clock that counts whole microseconds (\<open>clock_time\<close>, as
  \<^verbatim>\<open>systemClock.Now\<close> truncates it) and has started;
  continuing an operation assumes that two particular payloads do not collide under SHA-256; a
  replay asks for a correlation its column accepts, which the transports see to and the use case does
  not; how \<^verbatim>\<open>opaque_id\<close> reads characters outside ASCII is up to the locale of the database, and is
  taken to be as Go reads them.

  \<^bold>\<open>Bounds and fuel.\<close> Integers are words of Go's width wherever the code can reach their limits,
  and unbounded where a check keeps them small, which is then a property. Loops are structural or
  come with a measure; \<open>trim_fuel\<close> takes the length of the string it trims, which is enough because
  every round drops a byte. A loop of a worker is one pass per step, because it runs until it is
  stopped.

  \<^bold>\<open>Not modelled.\<close> Telemetry, logging and their wiring change nothing a caller or the store sees.
  The order in which the framework constructs components and runs their hooks is its own. The JSON
  syntax of bodies and events, \<^verbatim>\<open>Money.UnmarshalJSON\<close>, the
  human text of errors and the redacted database address are left out, as are the grants and indexes
  of the schema and the CHECK rules that restate what a constructor, a rehydration or the processor
  keeps; those a row can break are part of the statements that meet them. The executables only call
  what is modelled here; the port interfaces have no behaviour of their own.
\<close>

end
